(* ===== verification/ExecPrelude.thy ===== *)
theory ExecPrelude
  imports Main "HOL-Library.Multiset"
begin

text \<open>
  What the components share: JavaScript string operations on \<open>string\<close> (split, join,
  prefix, suffix, substring, the code-unit order), the stable \<open>Array.prototype.sort\<close>
  with a comparator, and the interface of a comparator as a locale. Strings are lists of
  8-bit code units, so the model covers strings over that range.
\<close>

named_theorems str_simps \<open>evaluation of the string operations\<close>

section \<open>Strings\<close>

fun js_split :: "char \<Rightarrow> string \<Rightarrow> string list" where
  "js_split c [] = [[]]"
| "js_split c (x # xs) =
     (if x = c then [] # js_split c xs
      else (case js_split c xs of [] \<Rightarrow> [[x]] | s # ss \<Rightarrow> (x # s) # ss))"

fun js_join :: "string \<Rightarrow> string list \<Rightarrow> string" where
  "js_join sep [] = []"
| "js_join sep [s] = s"
| "js_join sep (s # t # ts) = s @ sep @ js_join sep (t # ts)"

definition js_starts_with :: "string \<Rightarrow> string \<Rightarrow> bool" where
  "js_starts_with s p \<longleftrightarrow> take (length p) s = p"

definition js_ends_with :: "string \<Rightarrow> string \<Rightarrow> bool" where
  "js_ends_with s p \<longleftrightarrow> length p \<le> length s \<and> drop (length s - length p) s = p"

fun js_includes :: "string \<Rightarrow> string \<Rightarrow> bool" where
  "js_includes [] p \<longleftrightarrow> p = []"
| "js_includes (x # xs) p \<longleftrightarrow> js_starts_with (x # xs) p \<or> js_includes xs p"

fun js_index_of :: "char \<Rightarrow> string \<Rightarrow> nat option" where
  "js_index_of c [] = None"
| "js_index_of c (x # xs) = (if x = c then Some 0 else map_option Suc (js_index_of c xs))"

text \<open>The order of \<open><\<close> on JavaScript strings: lexicographic by code unit.\<close>

fun js_str_less :: "string \<Rightarrow> string \<Rightarrow> bool" where
  "js_str_less _ [] \<longleftrightarrow> False"
| "js_str_less [] (_ # _) \<longleftrightarrow> True"
| "js_str_less (x # xs) (y # ys) \<longleftrightarrow>
     (of_char x :: nat) < of_char y \<or> x = y \<and> js_str_less xs ys"

lemma js_split_nonempty [simp]: "js_split c s \<noteq> []"
  by (induction s) (auto split: list.splits)

lemma js_join_Cons: "ts \<noteq> [] \<Longrightarrow> js_join sep (s # ts) = s @ sep @ js_join sep ts"
  by (cases ts) auto

lemma js_join_split: "js_join [c] (js_split c s) = s"
proof (induction s)
  case (Cons x xs)
  obtain t ts where "js_split c xs = t # ts" by (cases "js_split c xs") auto
  with Cons show ?case by (cases ts) (auto simp: js_join_Cons)
qed simp

lemma js_split_no_sep: "t \<in> set (js_split c s) \<Longrightarrow> c \<notin> set t"
proof (induction s arbitrary: t)
  case (Cons x xs)
  then show ?case by (cases "js_split c xs") (auto split: if_splits)
qed simp

lemma js_split_literal: "c \<notin> set s \<Longrightarrow> js_split c s = [s]"
  by (induction s) auto

lemma js_split_append_sep: "c \<notin> set s \<Longrightarrow> js_split c (s @ c # t) = s # js_split c t"
  by (induction s) auto

lemma js_split_join:
  "ts \<noteq> [] \<Longrightarrow> (\<And>t. t \<in> set ts \<Longrightarrow> c \<notin> set t) \<Longrightarrow> js_split c (js_join [c] ts) = ts"
proof (induction ts)
  case (Cons t ts)
  then show ?case
    by (cases ts) (simp_all add: js_split_literal js_split_append_sep)
qed simp

lemma js_starts_with_append [simp]: "js_starts_with (p @ s) p"
  by (simp add: js_starts_with_def)

lemma js_starts_with_iff: "js_starts_with s p \<longleftrightarrow> (\<exists>t. s = p @ t)"
  unfolding js_starts_with_def by (metis append_eq_conv_conj append_take_drop_id)

lemma js_ends_with_iff: "js_ends_with s p \<longleftrightarrow> (\<exists>t. s = t @ p)"
proof
  assume "js_ends_with s p"
  then have "s = take (length s - length p) s @ p"
    unfolding js_ends_with_def by (metis append_take_drop_id)
  then show "\<exists>t. s = t @ p" ..
qed (auto simp: js_ends_with_def)

lemma js_includes_iff: "js_includes s p \<longleftrightarrow> (\<exists>a b. s = a @ p @ b)"
proof (induction s)
  case (Cons x xs)
  show ?case
  proof
    assume "js_includes (x # xs) p"
    with Cons.IH consider "js_starts_with (x # xs) p" | a b where "xs = a @ p @ b" by auto
    then show "\<exists>a b. x # xs = a @ p @ b"
    proof cases
      case 1
      then show ?thesis by (metis append_Nil js_starts_with_iff)
    next
      case 2
      then show ?thesis by (metis append_Cons)
    qed
  next
    assume "\<exists>a b. x # xs = a @ p @ b"
    then obtain a b where ab: "x # xs = a @ p @ b" by blast
    show "js_includes (x # xs) p"
    proof (cases a)
      case Nil
      with ab have "js_starts_with (x # xs) p" by (auto simp: js_starts_with_iff)
      then show ?thesis by simp
    next
      case (Cons y ys)
      with ab Cons.IH show ?thesis by auto
    qed
  qed
qed auto

lemma js_str_less_irrefl [simp]: "\<not> js_str_less s s"
  by (induction s) auto

lemma js_str_less_trans: "js_str_less a b \<Longrightarrow> js_str_less b c \<Longrightarrow> js_str_less a c"
proof (induction a b arbitrary: c rule: js_str_less.induct)
  case (2 y ys)
  then show ?case by (cases c) auto
next
  case (3 x xs y ys)
  then show ?case by (cases c) auto
qed simp

lemma js_str_less_total: "js_str_less a b \<or> a = b \<or> js_str_less b a"
proof (induction a b rule: js_str_less.induct)
  case (1 a)
  then show ?case by (cases a) auto
next
  case (3 x xs y ys)
  have "(of_char x :: nat) < of_char y \<or> x = y \<or> (of_char y :: nat) < of_char x"
    by (metis linorder_neqE_nat of_char_eq_iff)
  with 3 show ?case by auto
qed simp

lemma js_str_less_asym: "js_str_less a b \<Longrightarrow> \<not> js_str_less b a"
  using js_str_less_irrefl js_str_less_trans by blast

section \<open>Array.prototype.sort\<close>

text \<open>
  \<open>Array.prototype.sort\<close> is stable: elements that compare equal keep their order. The
  model is insertion sort, an earlier element going before every later one it does not
  exceed.
\<close>

fun js_insert :: "('a \<Rightarrow> 'a \<Rightarrow> int) \<Rightarrow> 'a \<Rightarrow> 'a list \<Rightarrow> 'a list" where
  "js_insert cmp x [] = [x]"
| "js_insert cmp x (y # ys) = (if cmp x y \<le> 0 then x # y # ys else y # js_insert cmp x ys)"

fun js_sort :: "('a \<Rightarrow> 'a \<Rightarrow> int) \<Rightarrow> 'a list \<Rightarrow> 'a list" where
  "js_sort cmp [] = []"
| "js_sort cmp (x # xs) = js_insert cmp x (js_sort cmp xs)"

lemma set_js_insert [simp]: "set (js_insert cmp x ys) = insert x (set ys)"
  by (induction ys) auto

lemma set_js_sort [simp]: "set (js_sort cmp xs) = set xs"
  by (induction xs) auto

lemma length_js_insert [simp]: "length (js_insert cmp x ys) = Suc (length ys)"
  by (induction ys) auto

lemma length_js_sort [simp]: "length (js_sort cmp xs) = length xs"
  by (induction xs) auto

lemma js_sort_eq_Nil [simp]: "js_sort cmp xs = [] \<longleftrightarrow> xs = []"
  by (metis length_0_conv length_js_sort)

lemma js_insert_cong:
  "(\<And>y. y \<in> set ys \<Longrightarrow> cmp x y \<le> 0 \<longleftrightarrow> cmp' x y \<le> 0) \<Longrightarrow> js_insert cmp x ys = js_insert cmp' x ys"
  by (induction ys) auto

lemma distinct_js_insert: "distinct (js_insert cmp x ys) \<longleftrightarrow> x \<notin> set ys \<and> distinct ys"
  by (induction ys) auto

lemma distinct_js_sort [simp]: "distinct (js_sort cmp xs) \<longleftrightarrow> distinct xs"
  by (induction xs) (auto simp: distinct_js_insert)

text \<open>
  The interface of a comparator: what a caller of \<open>sort\<close> relies on. Every comparator the
  components pass is interpreted where it is defined.
\<close>

locale comparator =
  fixes cmp :: "'a \<Rightarrow> 'a \<Rightarrow> int"
  assumes cmp_flip: "cmp x y < 0 \<longleftrightarrow> cmp y x > 0"
    and cmp_trans: "cmp x y \<le> 0 \<Longrightarrow> cmp y z \<le> 0 \<Longrightarrow> cmp x z \<le> 0"
begin

lemma cmp_refl: "cmp x x = 0"
  using cmp_flip [of x x] by linarith

lemma cmp_linear: "cmp x y \<le> 0 \<or> cmp y x \<le> 0"
  using cmp_flip [of y x] by linarith

lemma sorted_js_insert:
  "sorted_wrt (\<lambda>a b. cmp a b \<le> 0) ys \<Longrightarrow> sorted_wrt (\<lambda>a b. cmp a b \<le> 0) (js_insert cmp x ys)"
proof (induction ys)
  case (Cons y ys)
  show ?case
  proof (cases "cmp x y \<le> 0")
    case True
    with Cons.prems show ?thesis by (auto intro: cmp_trans)
  next
    case False
    with cmp_linear [of x y] have "cmp y x \<le> 0" by auto
    with False Cons show ?thesis by auto
  qed
qed simp

lemma sorted_js_sort: "sorted_wrt (\<lambda>a b. cmp a b \<le> 0) (js_sort cmp xs)"
  by (induction xs) (auto intro: sorted_js_insert)

lemma js_sort_sorted: "sorted_wrt (\<lambda>a b. cmp a b \<le> 0) xs \<Longrightarrow> js_sort cmp xs = xs"
proof (induction xs)
  case (Cons x xs)
  then show ?case by (cases xs) auto
qed simp

lemma js_sort_idem: "js_sort cmp (js_sort cmp xs) = js_sort cmp xs"
  by (rule js_sort_sorted [OF sorted_js_sort])

lemma js_insert_stable:
  "sorted_wrt (\<lambda>a b. cmp a b \<le> 0) ys \<Longrightarrow>
   filter (\<lambda>y. cmp z y = 0) (js_insert cmp x ys) =
   (if cmp z x = 0 then x # filter (\<lambda>y. cmp z y = 0) ys else filter (\<lambda>y. cmp z y = 0) ys)"
proof (induction ys)
  case (Cons y ys)
  have "cmp z y \<noteq> 0" if "\<not> cmp x y \<le> 0" "cmp z x = 0"
  proof
    assume "cmp z y = 0"
    moreover have "cmp x z \<le> 0" using that(2) cmp_flip [of z x] by linarith
    ultimately show False using cmp_trans [of x z y] that(1) by simp
  qed
  with Cons show ?case by auto
qed simp

lemma js_sort_stable: "filter (\<lambda>y. cmp z y = 0) (js_sort cmp xs) = filter (\<lambda>y. cmp z y = 0) xs"
  by (induction xs) (auto simp: js_insert_stable sorted_js_sort)

lemma js_insert_hd: "\<forall>y \<in> set ys. cmp x y \<le> 0 \<Longrightarrow> js_insert cmp x ys = x # ys"
  by (cases ys) auto

lemma filter_js_insert:
  "sorted_wrt (\<lambda>a b. cmp a b \<le> 0) ys \<Longrightarrow>
   filter P (js_insert cmp x ys) = (if P x then js_insert cmp x (filter P ys) else filter P ys)"
proof (induction ys)
  case (Cons y ys)
  show ?case
  proof (cases "cmp x y \<le> 0")
    case True
    with Cons.prems have "\<forall>z \<in> set (filter P (y # ys)). cmp x z \<le> 0" by (auto intro: cmp_trans)
    with True show ?thesis by (simp add: js_insert_hd del: filter.simps) simp
  qed (use Cons in auto)
qed simp

text \<open>Filtering commutes with the stable sort.\<close>

lemma js_sort_filter: "js_sort cmp (filter P xs) = filter P (js_sort cmp xs)"
  by (induction xs) (auto simp: filter_js_insert sorted_js_sort)

lemma sorted_unique:
  "sorted_wrt (\<lambda>a b. cmp a b \<le> 0) xs \<Longrightarrow> sorted_wrt (\<lambda>a b. cmp a b \<le> 0) ys \<Longrightarrow> mset xs = mset ys \<Longrightarrow>
   (\<And>x y. x \<in> set xs \<Longrightarrow> y \<in> set xs \<Longrightarrow> cmp x y = 0 \<Longrightarrow> x = y) \<Longrightarrow> xs = ys"
proof (induction xs arbitrary: ys)
  case (Cons x xs)
  then obtain y zs where ys: "ys = y # zs" by (cases ys) auto
  have "set (x # xs) = set ys" using Cons.prems(3) by (metis set_mset_mset)
  then have "y \<in> set (x # xs)" "x \<in> set (y # zs)" using ys by auto
  then have "cmp x y \<le> 0" "cmp y x \<le> 0" using Cons.prems(1,2) ys cmp_refl by auto
  then have "cmp x y = 0" using cmp_flip [of x y] cmp_flip [of y x] by linarith
  with Cons.prems(4) \<open>y \<in> set (x # xs)\<close> have "x = y" by simp
  with Cons ys show ?case by auto
qed simp

lemma mset_js_insert: "mset (js_insert cmp x ys) = add_mset x (mset ys)"
  by (induction ys) auto

lemma mset_js_sort: "mset (js_sort cmp xs) = mset xs"
  by (induction xs) (auto simp: mset_js_insert)

lemma js_sort_permuted:
  "mset xs = mset ys \<Longrightarrow> (\<And>x y. x \<in> set xs \<Longrightarrow> y \<in> set xs \<Longrightarrow> cmp x y = 0 \<Longrightarrow> x = y) \<Longrightarrow>
   js_sort cmp xs = js_sort cmp ys"
  by (intro sorted_unique sorted_js_sort) (auto simp: mset_js_sort)

end

text \<open>A comparator that falls back to a second one on ties.\<close>

definition cmp_then :: "('a \<Rightarrow> 'a \<Rightarrow> int) \<Rightarrow> ('a \<Rightarrow> 'a \<Rightarrow> int) \<Rightarrow> 'a \<Rightarrow> 'a \<Rightarrow> int" where
  "cmp_then c d x y = (if c x y \<noteq> 0 then c x y else d x y)"

lemma comparator_then:
  assumes "comparator c" and "comparator d"
  shows "comparator (cmp_then c d)"
proof (rule comparator.intro)
  fix x y z
  show "(cmp_then c d x y < 0) = (cmp_then c d y x > 0)"
    unfolding cmp_then_def
    using comparator.cmp_flip [OF assms(1), of x y] comparator.cmp_flip [OF assms(1), of y x]
      comparator.cmp_flip [OF assms(2), of x y] by auto
  assume xy: "cmp_then c d x y \<le> 0" and yz: "cmp_then c d y z \<le> 0"
  from xy yz have "c x y \<le> 0" "c y z \<le> 0" by (auto simp: cmp_then_def split: if_splits)
  then have xz: "c x z \<le> 0" by (rule comparator.cmp_trans [OF assms(1)])
  have "c x y = 0 \<and> c y z = 0" if "c x z = 0"
  proof -
    have zx: "c z x \<le> 0" using that comparator.cmp_flip [OF assms(1), of x z] by linarith
    have "c y x \<le> 0" using comparator.cmp_trans [OF assms(1) \<open>c y z \<le> 0\<close> zx] .
    moreover have "c z y \<le> 0" using comparator.cmp_trans [OF assms(1) zx \<open>c x y \<le> 0\<close>] .
    ultimately show ?thesis
      using \<open>c x y \<le> 0\<close> \<open>c y z \<le> 0\<close> comparator.cmp_flip [OF assms(1), of x y]
        comparator.cmp_flip [OF assms(1), of y z] by linarith
  qed
  with xz xy yz show "cmp_then c d x z \<le> 0"
    unfolding cmp_then_def using comparator.cmp_trans [OF assms(2), of x y z] by (auto split: if_splits)
qed

text \<open>Comparing by an integer key, by a string key.\<close>

definition cmp_int_key :: "('a \<Rightarrow> int) \<Rightarrow> 'a \<Rightarrow> 'a \<Rightarrow> int" where
  "cmp_int_key f x y = f x - f y"

definition cmp_str :: "string \<Rightarrow> string \<Rightarrow> int" where
  "cmp_str a b = (if js_str_less a b then -1 else if js_str_less b a then 1 else 0)"

lemma comparator_int_key: "comparator (cmp_int_key f)"
  by unfold_locales (auto simp: cmp_int_key_def)

lemma cmp_str_eq_0 [simp]: "cmp_str a b = 0 \<longleftrightarrow> a = b"
  using js_str_less_total [of a b] by (auto simp: cmp_str_def)

lemma cmp_str_le_0: "cmp_str a b \<le> 0 \<longleftrightarrow> js_str_less a b \<or> a = b"
  using js_str_less_total [of a b] js_str_less_asym by (auto simp: cmp_str_def)

lemma comparator_str_key: "comparator (\<lambda>x y. cmp_str (f x) (f y))"
proof (rule comparator.intro)
  fix x y z
  show "(cmp_str (f x) (f y) < 0) = (cmp_str (f y) (f x) > 0)"
    using js_str_less_asym by (auto simp: cmp_str_def)
  assume "cmp_str (f x) (f y) \<le> 0" "cmp_str (f y) (f z) \<le> 0"
  then show "cmp_str (f x) (f z) \<le> 0"
    unfolding cmp_str_le_0 by (auto intro: js_str_less_trans)
qed

interpretation str_order: comparator cmp_str
  by (rule comparator_str_key [of "\<lambda>s. s"])

section \<open>Errors as values\<close>

definition err_bind :: "'e + 'a \<Rightarrow> ('a \<Rightarrow> 'e + 'b) \<Rightarrow> 'e + 'b" where
  "err_bind m f = (case m of Inl e \<Rightarrow> Inl e | Inr a \<Rightarrow> f a)"

lemma err_bind_simps [simp]: "err_bind (Inl e) f = Inl e" "err_bind (Inr a) f = f a"
  by (simp_all add: err_bind_def)

lemma err_bind_Inr: "err_bind m f = Inr b \<longleftrightarrow> (\<exists>a. m = Inr a \<and> f a = Inr b)"
  by (cases m) auto

lemma err_bind_Inl: "err_bind m f = Inl e \<longleftrightarrow> m = Inl e \<or> (\<exists>a. m = Inr a \<and> f a = Inl e)"
  by (cases m) auto

text \<open>A loop that stops at the first error.\<close>

fun err_iter :: "('a \<Rightarrow> 'e + unit) \<Rightarrow> 'a list \<Rightarrow> 'e + unit" where
  "err_iter f [] = Inr ()"
| "err_iter f (x # xs) = err_bind (f x) (\<lambda>_. err_iter f xs)"

lemma err_iter_Inr: "err_iter f xs = Inr () \<longleftrightarrow> (\<forall>x \<in> set xs. f x = Inr ())"
  by (induction xs) (auto simp: err_bind_Inr)

section \<open>Lists\<close>

text \<open>\<open>Array.prototype.slice (start, end)\<close> for \<open>0 \<le> start\<close>, an absent end meaning the length.\<close>

definition js_slice :: "nat \<Rightarrow> nat option \<Rightarrow> 'a list \<Rightarrow> 'a list" where
  "js_slice start stop xs = drop start (case stop of None \<Rightarrow> xs | Some e \<Rightarrow> take e xs)"

lemma set_js_slice: "set (js_slice a b xs) \<subseteq> set xs"
  unfolding js_slice_def by (auto split: option.splits dest: in_set_dropD in_set_takeD)

lemma filter_filter_absorb:
  "(\<And>x. P x \<Longrightarrow> Q x) \<Longrightarrow> filter P (filter Q xs) = filter P xs"
  by (induction xs) auto

end
