(* ===== verification/JsValue.thy ===== *)
theory JsValue
  imports ExecPrelude
begin

text \<open>
  The JavaScript values the code stores and compares: \<open>undefined\<close>, \<open>null\<close>, booleans,
  numbers, strings, dates (by their epoch milliseconds), arrays and plain objects (their own
  enumerable properties in order). Numbers are integers: the code modelled here stores and
  compares counts, positions and epoch milliseconds only. Objects and arrays have no
  identity: the store clones what it is given and what it returns, so two of them are never
  the same reference.
\<close>

datatype jsval =
    JUndef
  | JNull
  | JBool bool
  | JNum int
  | JStr string
  | JDate int
  | JArr "jsval list"
  | JObj "(string \<times> jsval) list"

text \<open>\<open>v == null\<close>.\<close>

definition nullish :: "jsval \<Rightarrow> bool" where
  "nullish v \<longleftrightarrow> v = JUndef \<or> v = JNull"

lemma nullish_simps [simp]:
  "nullish JUndef" "nullish JNull" "\<not> nullish (JBool b)" "\<not> nullish (JNum n)"
  "\<not> nullish (JStr s)" "\<not> nullish (JDate d)" "\<not> nullish (JArr xs)" "\<not> nullish (JObj ps)"
  by (simp_all add: nullish_def)

text \<open>\<open>===\<close>; by reference on dates, arrays and objects.\<close>

fun strict_eq :: "jsval \<Rightarrow> jsval \<Rightarrow> bool" where
  "strict_eq JUndef JUndef \<longleftrightarrow> True"
| "strict_eq JNull JNull \<longleftrightarrow> True"
| "strict_eq (JBool a) (JBool b) \<longleftrightarrow> a = b"
| "strict_eq (JNum a) (JNum b) \<longleftrightarrow> a = b"
| "strict_eq (JStr a) (JStr b) \<longleftrightarrow> a = b"
| "strict_eq _ _ \<longleftrightarrow> False"

lemma strict_eq_JStr [simp]: "strict_eq v (JStr s) \<longleftrightarrow> v = JStr s"
  by (cases v) auto

lemma strict_eq_JStr' [simp]: "strict_eq (JStr s) v \<longleftrightarrow> v = JStr s"
  by (cases v) auto

lemma strict_eq_JNull [simp]: "strict_eq v JNull \<longleftrightarrow> v = JNull"
  by (cases v) auto

lemma strict_eq_JNum [simp]: "strict_eq v (JNum n) \<longleftrightarrow> v = JNum n"
  by (cases v) auto

lemma strict_eq_imp_eq: "strict_eq a b \<Longrightarrow> a = b"
  by (cases "(a, b)" rule: strict_eq.cases) auto

section \<open>Numbers of strings and the relational operators\<close>

definition digit_val :: "char \<Rightarrow> int option" where
  "digit_val c = (let n = (of_char c :: int) in if 48 \<le> n \<and> n \<le> 57 then Some (n - 48) else None)"

fun digits_to_int :: "int \<Rightarrow> string \<Rightarrow> int option" where
  "digits_to_int acc [] = Some acc"
| "digits_to_int acc (c # cs) =
     (case digit_val c of None \<Rightarrow> None | Some d \<Rightarrow> digits_to_int (acc * 10 + d) cs)"

definition is_js_space :: "char \<Rightarrow> bool" where
  "is_js_space c \<longleftrightarrow> (let n = (of_char c :: nat) in n = 32 \<or> (9 \<le> n \<and> n \<le> 13) \<or> n = 160)"

definition js_trim :: "string \<Rightarrow> string" where
  "js_trim s = rev (dropWhile is_js_space (rev (dropWhile is_js_space s)))"

text \<open>
  \<open>Number(s)\<close> for a string of decimal digits, with an optional sign and surrounding white
  space, the empty string being 0; every other string is \<open>NaN\<close> (\<open>None\<close>). Fractions,
  exponents and the hexadecimal form lie outside the integers of the model.
\<close>

definition string_to_number :: "string \<Rightarrow> int option" where
  "string_to_number s =
     (case js_trim s of
        [] \<Rightarrow> Some 0
      | c # cs \<Rightarrow>
          if c = CHR ''-'' then (if cs = [] then None else map_option uminus (digits_to_int 0 cs))
          else if c = CHR ''+'' then (if cs = [] then None else digits_to_int 0 cs)
          else digits_to_int 0 (c # cs))"

fun to_number :: "jsval \<Rightarrow> int option" where
  "to_number JUndef = None"
| "to_number JNull = Some 0"
| "to_number (JBool b) = Some (if b then 1 else 0)"
| "to_number (JNum n) = Some n"
| "to_number (JStr s) = string_to_number s"
| "to_number (JDate t) = Some t"
| "to_number (JArr _) = None"
| "to_number (JObj _) = None"

text \<open>
  \<open>a < b\<close>: two strings by code units, anything else as numbers, a \<open>NaN\<close> making it false.
\<close>

fun js_less :: "jsval \<Rightarrow> jsval \<Rightarrow> bool" where
  "js_less (JStr a) (JStr b) \<longleftrightarrow> js_str_less a b"
| "js_less a b \<longleftrightarrow>
     (case (to_number a, to_number b) of (Some m, Some n) \<Rightarrow> m < n | _ \<Rightarrow> False)"

fun js_less_eq :: "jsval \<Rightarrow> jsval \<Rightarrow> bool" where
  "js_less_eq (JStr a) (JStr b) \<longleftrightarrow> js_str_less a b \<or> a = b"
| "js_less_eq a b \<longleftrightarrow>
     (case (to_number a, to_number b) of (Some m, Some n) \<Rightarrow> m \<le> n | _ \<Rightarrow> False)"

lemma js_less_irrefl [simp]: "\<not> js_less v v"
  by (cases v) (auto split: option.splits)

lemma js_less_JNum [simp]: "js_less (JNum a) (JNum b) \<longleftrightarrow> a < b"
  by simp

lemma js_less_JStr: "js_less (JStr a) (JStr b) \<longleftrightarrow> js_str_less a b"
  by simp

section \<open>Printing: decimal numbers, ISO dates, JSON\<close>

fun nat_digits :: "nat \<Rightarrow> string" where
  "nat_digits n =
     (if n < 10 then [char_of (48 + n)] else nat_digits (n div 10) @ [char_of (48 + n mod 10)])"

declare nat_digits.simps [simp del]

definition int_to_string :: "int \<Rightarrow> string" where
  "int_to_string n = (if n < 0 then CHR ''-'' # nat_digits (nat (- n)) else nat_digits (nat n))"

definition pad_left :: "nat \<Rightarrow> string \<Rightarrow> string" where
  "pad_left w s = replicate (w - length s) (CHR ''0'') @ s"

text \<open>\<open>Date.prototype.toISOString\<close>: the proleptic Gregorian date of an epoch day.\<close>

definition civil_from_days :: "int \<Rightarrow> int \<times> int \<times> int" where
  "civil_from_days days =
     (let z = days + 719468;
          era = z div 146097;
          doe = z mod 146097;
          yoe = (doe - doe div 1460 + doe div 36524 - doe div 146096) div 365;
          doy = doe - (365 * yoe + yoe div 4 - yoe div 100);
          mp = (5 * doy + 2) div 153;
          d = doy - (153 * mp + 2) div 5 + 1;
          m = (if mp < 10 then mp + 3 else mp - 9);
          y = yoe + era * 400
      in (if m \<le> 2 then y + 1 else y, m, d))"

definition iso_year :: "int \<Rightarrow> string" where
  "iso_year y =
     (if 0 \<le> y \<and> y \<le> 9999 then pad_left 4 (nat_digits (nat y))
      else (if y < 0 then CHR ''-'' else CHR ''+'') # pad_left 6 (nat_digits (nat \<bar>y\<bar>)))"

definition js_iso_date :: "int \<Rightarrow> string" where
  "js_iso_date t =
     (case civil_from_days (t div 86400000) of (y, m, d) \<Rightarrow>
      let r = t mod 86400000; p2 = (\<lambda>n. pad_left 2 (nat_digits (nat n)))
      in iso_year y @ ''-'' @ p2 m @ ''-'' @ p2 d @ ''T'' @ p2 (r div 3600000) @ '':''
         @ p2 (r div 60000 mod 60) @ '':'' @ p2 (r div 1000 mod 60) @ ''.''
         @ pad_left 3 (nat_digits (nat (r mod 1000))) @ ''Z'')"

definition hex_digit :: "nat \<Rightarrow> char" where
  "hex_digit n = (if n < 10 then char_of (48 + n) else char_of (87 + n))"

definition json_char :: "char \<Rightarrow> string" where
  "json_char c =
     (let n = (of_char c :: nat) in
      if c = CHR 0x22 then [CHR 0x5C, CHR 0x22]
      else if c = CHR 0x5C then [CHR 0x5C, CHR 0x5C]
      else if n = 8 then [CHR 0x5C, CHR ''b'']
      else if n = 9 then [CHR 0x5C, CHR ''t'']
      else if n = 10 then [CHR 0x5C, CHR ''n'']
      else if n = 12 then [CHR 0x5C, CHR ''f'']
      else if n = 13 then [CHR 0x5C, CHR ''r'']
      else if n < 32 then CHR 0x5C # ''u00'' @ [hex_digit (n div 16), hex_digit (n mod 16)]
      else [c])"

definition json_quote :: "string \<Rightarrow> string" where
  "json_quote s = CHR 0x22 # concat (map json_char s) @ [CHR 0x22]"

text \<open>
  \<open>JSON.stringify(v)\<close> with no indentation; \<open>None\<close> stands for the result \<open>undefined\<close>
  of an \<open>undefined\<close> value, which an object drops and an array prints as \<open>null\<close>.
\<close>

fun json_stringify :: "jsval \<Rightarrow> string option" where
  "json_stringify JUndef = None"
| "json_stringify JNull = Some ''null''"
| "json_stringify (JBool b) = Some (if b then ''true'' else ''false'')"
| "json_stringify (JNum n) = Some (int_to_string n)"
| "json_stringify (JStr s) = Some (json_quote s)"
| "json_stringify (JDate t) = Some (json_quote (js_iso_date t))"
| "json_stringify (JArr vs) =
     Some (''['' @ js_join '','' (map (\<lambda>v. case json_stringify v of None \<Rightarrow> ''null'' | Some t \<Rightarrow> t) vs)
           @ '']'')"
| "json_stringify (JObj ps) =
     Some (''{'' @ js_join '','' (concat (map (\<lambda>(k, v).
              case json_stringify v of None \<Rightarrow> [] | Some t \<Rightarrow> [json_quote k @ '':'' @ t]) ps))
           @ ''}'')"

text \<open>
  \<open>String(v)\<close>, used in messages only. A date is printed in its ISO form here, not in the
  host's time zone.
\<close>

fun js_to_string :: "jsval \<Rightarrow> string" where
  "js_to_string JUndef = ''undefined''"
| "js_to_string JNull = ''null''"
| "js_to_string (JBool b) = (if b then ''true'' else ''false'')"
| "js_to_string (JNum n) = int_to_string n"
| "js_to_string (JStr s) = s"
| "js_to_string (JDate t) = js_iso_date t"
| "js_to_string (JArr vs) = js_join '','' (map (\<lambda>v. if nullish v then [] else js_to_string v) vs)"
| "js_to_string (JObj ps) = ''[object Object]''"

definition in_quotes :: "string \<Rightarrow> string" where
  "in_quotes s = CHR 0x22 # s @ [CHR 0x22]"

end
