(* ===== verification/FumaQuery.thy ===== *)
theory FumaQuery
  imports JsValue
begin

text \<open>
  The query language of the storage layer and its in-memory adapter
  (\<open>fumadb/src/query/condition-builder.ts\<close> and \<open>fumadb/src/adapters/memory/index.ts\<close>).
  A stored row is a total map from column names to values, an absent property being
  \<open>undefined\<close>; a database maps a table name to its rows in insertion order. A patch or a
  record of column values is the list of its properties in order. The ids that \<open>createId\<close>
  (a package) draws for an \<open>auto\<close> column are the parameter \<open>auto\<close>.
\<close>

type_synonym record_vals = "(string \<times> jsval) list"
type_synonym row = "string \<Rightarrow> jsval"
type_synonym db = "string \<Rightarrow> row list"

definition prop_of :: "record_vals \<Rightarrow> string \<Rightarrow> jsval" where
  "prop_of ps k = (case map_of ps k of None \<Rightarrow> JUndef | Some v \<Rightarrow> v)"

text \<open>\<open>Object.assign (row, patch)\<close>.\<close>

definition obj_assign :: "row \<Rightarrow> record_vals \<Rightarrow> row" where
  "obj_assign r ps = fold (\<lambda>(k, v) acc. acc(k := v)) ps r"

lemma prop_of_Nil [simp]: "prop_of [] k = JUndef"
  by (simp add: prop_of_def)

lemma prop_of_Cons [simp]: "prop_of ((k', v) # ps) k = (if k' = k then v else prop_of ps k)"
  by (simp add: prop_of_def)

lemma obj_assign_Nil [simp]: "obj_assign r [] = r"
  by (simp add: obj_assign_def)

lemma obj_assign_Cons [simp]: "obj_assign r ((k, v) # ps) = obj_assign (r(k := v)) ps"
  by (simp add: obj_assign_def)

lemma obj_assign_other: "k \<notin> fst ` set ps \<Longrightarrow> obj_assign r ps k = r k"
  by (induction ps arbitrary: r) auto

lemma obj_assign_idem: "distinct (map fst ps) \<Longrightarrow> (k, v) \<in> set ps \<Longrightarrow> obj_assign r ps k = v"
proof (induction ps arbitrary: r)
  case (Cons p ps)
  obtain k' v' where p: "p = (k', v')" by (cases p)
  from Cons p show ?case
  proof (cases "(k, v) \<in> set ps")
    case False
    with Cons.prems p have "k' = k" "v' = v" by auto
    moreover from this Cons.prems p have "k \<notin> fst ` set ps" by simp
    ultimately show ?thesis using p by (simp add: obj_assign_other)
  qed auto
qed simp

section \<open>Conditions\<close>

datatype operator =
    OpEq | OpNeq | OpGt | OpGe | OpLt | OpLe | OpIs | OpIsNot | OpIn | OpNotIn
  | OpContains | OpStarts | OpEnds | OpNotContains | OpNotStarts | OpNotEnds

datatype operand = Val jsval | Col string

datatype condition =
    CCompare string operator operand
  | CAnd "condition list"
  | COr "condition list"
  | CNot condition

text \<open>A \<open>Condition | boolean\<close>.\<close>

datatype cond_or_bool = CB bool | CC condition

definition cmp_val :: "string \<Rightarrow> operator \<Rightarrow> jsval \<Rightarrow> cond_or_bool" where
  "cmp_val c op v = CC (CCompare c op (Val v))"

definition builder_flag :: "string \<Rightarrow> cond_or_bool" where
  "builder_flag c = CC (CCompare c OpEq (Val (JBool True)))"

definition builder_is_null :: "string \<Rightarrow> cond_or_bool" where
  "builder_is_null c = CC (CCompare c OpIs (Val JNull))"

definition builder_is_not_null :: "string \<Rightarrow> cond_or_bool" where
  "builder_is_not_null c = CC (CCompare c OpIsNot (Val JNull))"

fun builder_not :: "cond_or_bool \<Rightarrow> cond_or_bool" where
  "builder_not (CB b) = CB (\<not> b)"
| "builder_not (CC c) = CC (CNot c)"

fun builder_or_loop :: "cond_or_bool list \<Rightarrow> condition list \<Rightarrow> cond_or_bool" where
  "builder_or_loop [] items = (if items = [] then CB False else CC (COr items))"
| "builder_or_loop (CB b # cs) items = (if b then CB True else builder_or_loop cs items)"
| "builder_or_loop (CC c # cs) items = builder_or_loop cs (items @ [c])"

definition builder_or :: "cond_or_bool list \<Rightarrow> cond_or_bool" where
  "builder_or cs = builder_or_loop cs []"

fun builder_and_loop :: "cond_or_bool list \<Rightarrow> condition list \<Rightarrow> cond_or_bool" where
  "builder_and_loop [] items = (if items = [] then CB True else CC (CAnd items))"
| "builder_and_loop (CB b # cs) items = (if b then builder_and_loop cs items else CB False)"
| "builder_and_loop (CC c # cs) items = builder_and_loop cs (items @ [c])"

definition builder_and :: "cond_or_bool list \<Rightarrow> cond_or_bool" where
  "builder_and cs = builder_and_loop cs []"

section \<open>Evaluation of a condition on a row\<close>

fun comparable :: "jsval \<Rightarrow> jsval" where
  "comparable (JDate t) = JNum t"
| "comparable v = v"

fun string_pred :: "(string \<Rightarrow> string \<Rightarrow> bool) \<Rightarrow> jsval \<Rightarrow> jsval \<Rightarrow> bool" where
  "string_pred p (JStr a) (JStr b) \<longleftrightarrow> p a b"
| "string_pred p _ _ \<longleftrightarrow> False"

text \<open>\<open>Array.isArray (right) && right.includes (left)\<close>.\<close>

fun array_includes :: "jsval \<Rightarrow> jsval \<Rightarrow> bool" where
  "array_includes (JArr vs) v \<longleftrightarrow> list_ex (\<lambda>w. strict_eq w v) vs"
| "array_includes _ v \<longleftrightarrow> False"

fun is_array :: "jsval \<Rightarrow> bool" where
  "is_array (JArr vs) \<longleftrightarrow> True"
| "is_array _ \<longleftrightarrow> False"

fun compare_op :: "operator \<Rightarrow> jsval \<Rightarrow> jsval \<Rightarrow> bool" where
  "compare_op OpEq l r \<longleftrightarrow> strict_eq l r"
| "compare_op OpNeq l r \<longleftrightarrow> \<not> strict_eq l r"
| "compare_op OpGt l r \<longleftrightarrow> \<not> nullish l \<and> \<not> nullish r \<and> js_less r l"
| "compare_op OpGe l r \<longleftrightarrow> \<not> nullish l \<and> \<not> nullish r \<and> js_less_eq r l"
| "compare_op OpLt l r \<longleftrightarrow> \<not> nullish l \<and> \<not> nullish r \<and> js_less l r"
| "compare_op OpLe l r \<longleftrightarrow> \<not> nullish l \<and> \<not> nullish r \<and> js_less_eq l r"
| "compare_op OpIs l r \<longleftrightarrow> (if r = JNull then nullish l else strict_eq l r)"
| "compare_op OpIsNot l r \<longleftrightarrow> (if r = JNull then \<not> nullish l else \<not> strict_eq l r)"
| "compare_op OpIn l r \<longleftrightarrow> array_includes r l"
| "compare_op OpNotIn l r \<longleftrightarrow> is_array r \<and> \<not> array_includes r l"
| "compare_op OpContains l r \<longleftrightarrow> string_pred js_includes l r"
| "compare_op OpNotContains l r \<longleftrightarrow> \<not> string_pred js_includes l r"
| "compare_op OpStarts l r \<longleftrightarrow> string_pred js_starts_with l r"
| "compare_op OpNotStarts l r \<longleftrightarrow> \<not> string_pred js_starts_with l r"
| "compare_op OpEnds l r \<longleftrightarrow> string_pred js_ends_with l r"
| "compare_op OpNotEnds l r \<longleftrightarrow> \<not> string_pred js_ends_with l r"

fun operand_val :: "row \<Rightarrow> operand \<Rightarrow> jsval" where
  "operand_val r (Val v) = v"
| "operand_val r (Col c) = r c"

fun matches :: "row \<Rightarrow> condition \<Rightarrow> bool" where
  "matches r (CAnd cs) \<longleftrightarrow> list_all (matches r) cs"
| "matches r (COr cs) \<longleftrightarrow> list_ex (matches r) cs"
| "matches r (CNot c) \<longleftrightarrow> \<not> matches r c"
| "matches r (CCompare a op b) \<longleftrightarrow>
     compare_op op (comparable (r a)) (comparable (operand_val r b))"

definition matches_condition :: "row \<Rightarrow> condition option \<Rightarrow> bool" where
  "matches_condition r w = (case w of None \<Rightarrow> True | Some c \<Rightarrow> matches r c)"

text \<open>The truth of a \<open>Condition | boolean\<close> on a row.\<close>

fun holds_cb :: "row \<Rightarrow> cond_or_bool \<Rightarrow> bool" where
  "holds_cb r (CB b) \<longleftrightarrow> b"
| "holds_cb r (CC c) \<longleftrightarrow> matches r c"

lemma matches_condition_None [simp]: "matches_condition r None"
  by (simp add: matches_condition_def)

lemma matches_condition_Some [simp]: "matches_condition r (Some c) = matches r c"
  by (simp add: matches_condition_def)

lemma builder_and_loop_holds:
  "holds_cb r (builder_and_loop cs items) \<longleftrightarrow> list_all (matches r) items \<and> list_all (holds_cb r) cs"
  by (induction cs items rule: builder_and_loop.induct) auto

lemma builder_or_loop_holds:
  "holds_cb r (builder_or_loop cs items) \<longleftrightarrow> list_ex (matches r) items \<or> list_ex (holds_cb r) cs"
  by (induction cs items rule: builder_or_loop.induct) auto

lemma holds_builder_and [simp]: "holds_cb r (builder_and cs) \<longleftrightarrow> list_all (holds_cb r) cs"
  by (simp add: builder_and_def builder_and_loop_holds)

lemma holds_builder_or [simp]: "holds_cb r (builder_or cs) \<longleftrightarrow> list_ex (holds_cb r) cs"
  by (simp add: builder_or_def builder_or_loop_holds)

lemma holds_builder_not [simp]: "holds_cb r (builder_not c) \<longleftrightarrow> \<not> holds_cb r c"
  by (cases c) auto

lemma holds_eq_str [simp]: "holds_cb r (cmp_val c OpEq (JStr s)) \<longleftrightarrow> r c = JStr s"
  by (cases "r c") (auto simp: cmp_val_def)

section \<open>The in-memory adapter\<close>

datatype column_default = NoDefault | ConstDefault jsval | AutoDefault

record column =
  col_name :: string
  col_nullable :: bool
  col_default :: column_default

record find_options =
  fo_select :: "string list option"
  fo_where :: "condition option"
  fo_order_by :: "(string \<times> bool) list"
  fo_offset :: "nat option"
  fo_limit :: "nat option"

definition generate_default_value :: "string \<Rightarrow> column \<Rightarrow> jsval" where
  "generate_default_value auto c =
     (case col_default c of NoDefault \<Rightarrow> JUndef | ConstDefault v \<Rightarrow> v | AutoDefault \<Rightarrow> JStr auto)"

definition apply_default :: "string \<Rightarrow> record_vals \<Rightarrow> column \<Rightarrow> row \<Rightarrow> row" where
  "apply_default auto vals c r =
     (if prop_of vals (col_name c) \<noteq> JUndef then r(col_name c := prop_of vals (col_name c))
      else let d = generate_default_value auto c in
           if d \<noteq> JUndef then r(col_name c := d)
           else if col_nullable c then r(col_name c := JNull)
           else r)"

definition apply_defaults :: "string \<Rightarrow> column list \<Rightarrow> record_vals \<Rightarrow> row" where
  "apply_defaults auto cols vals = fold (apply_default auto vals) cols (\<lambda>_. JUndef)"

definition select_row :: "string list option \<Rightarrow> row \<Rightarrow> row" where
  "select_row sel r = (case sel of None \<Rightarrow> r | Some ks \<Rightarrow> (\<lambda>k. if k \<in> set ks then r k else JUndef))"

text \<open>The comparator of one \<open>orderBy\<close> entry.\<close>

definition order_cmp :: "string \<Rightarrow> bool \<Rightarrow> row \<Rightarrow> row \<Rightarrow> int" where
  "order_cmp col asc a b =
     (let l = comparable (a col); r = comparable (b col);
          lo = (if asc then -1 else 1); hi = (if asc then 1 else -1) in
      if nullish l \<and> nullish r then 0
      else if nullish l then lo
      else if nullish r then hi
      else if js_less l r then lo
      else if js_less r l then hi
      else 0)"

definition order_rows :: "(string \<times> bool) list \<Rightarrow> row list \<Rightarrow> row list" where
  "order_rows ob rs = fold (\<lambda>(col, asc) acc. js_sort (order_cmp col asc) acc) (rev ob) rs"

definition mem_count :: "string \<Rightarrow> condition option \<Rightarrow> db \<Rightarrow> nat" where
  "mem_count t w d = length (filter (\<lambda>r. matches_condition r w) (d t))"

definition mem_find_many :: "string \<Rightarrow> find_options \<Rightarrow> db \<Rightarrow> row list" where
  "mem_find_many t fo d =
     (let rows = filter (\<lambda>r. matches_condition r (fo_where fo)) (d t);
          ordered = order_rows (fo_order_by fo) rows;
          off = (case fo_offset fo of None \<Rightarrow> 0 | Some n \<Rightarrow> n)
      in map (select_row (fo_select fo))
           (js_slice off (map_option (\<lambda>l. off + l) (fo_limit fo)) ordered))"

definition mem_find_first :: "string \<Rightarrow> find_options \<Rightarrow> db \<Rightarrow> row option" where
  "mem_find_first t fo d =
     (case mem_find_many t (fo\<lparr>fo_limit := Some 1\<rparr>) d of [] \<Rightarrow> None | r # _ \<Rightarrow> Some r)"

definition mem_update_many :: "string \<Rightarrow> condition option \<Rightarrow> record_vals \<Rightarrow> db \<Rightarrow> db" where
  "mem_update_many t w ps d =
     d(t := map (\<lambda>r. if matches_condition r w then obj_assign r ps else r) (d t))"

definition mem_create :: "string \<Rightarrow> string \<Rightarrow> column list \<Rightarrow> record_vals \<Rightarrow> db \<Rightarrow> row \<times> db" where
  "mem_create auto t cols vals d =
     (let r = apply_defaults auto cols vals in (r, d(t := d t @ [r])))"

fun update_first :: "('a \<Rightarrow> bool) \<Rightarrow> ('a \<Rightarrow> 'a) \<Rightarrow> 'a list \<Rightarrow> 'a list option" where
  "update_first p f [] = None"
| "update_first p f (x # xs) = (if p x then Some (f x # xs) else map_option ((#) x) (update_first p f xs))"

definition mem_upsert ::
  "string \<Rightarrow> string \<Rightarrow> column list \<Rightarrow> condition option \<Rightarrow> record_vals \<Rightarrow> record_vals \<Rightarrow> db \<Rightarrow> db" where
  "mem_upsert auto t cols w upd vals d =
     (case update_first (\<lambda>r. matches_condition r w) (\<lambda>r. obj_assign r upd) (d t) of
        Some rows \<Rightarrow> d(t := rows)
      | None \<Rightarrow> snd (mem_create auto t cols vals d))"

text \<open>\<open>createMany\<close> draws one id per record and returns the id column of each created row.\<close>

fun mem_create_many ::
  "(nat \<Rightarrow> string) \<Rightarrow> string \<Rightarrow> column list \<Rightarrow> string \<Rightarrow> record_vals list \<Rightarrow> db \<Rightarrow> jsval list \<times> db" where
  "mem_create_many auto t cols idc [] d = ([], d)"
| "mem_create_many auto t cols idc (v # vs) d =
     (case mem_create (auto 0) t cols v d of (r, d') \<Rightarrow>
      case mem_create_many (\<lambda>n. auto (Suc n)) t cols idc vs d' of (ids, d'') \<Rightarrow> (r idc # ids, d''))"

definition mem_delete_many :: "string \<Rightarrow> condition option \<Rightarrow> db \<Rightarrow> db" where
  "mem_delete_many t w d = d(t := filter (\<lambda>r. \<not> matches_condition r w) (d t))"

text \<open>\<open>transaction\<close>: a rejected callback puts the snapshot back.\<close>

definition mem_transaction :: "(db \<Rightarrow> ('e + 'a) \<times> db) \<Rightarrow> db \<Rightarrow> ('e + 'a) \<times> db" where
  "mem_transaction run d =
     (case run d of (Inl e, _) \<Rightarrow> (Inl e, d) | (Inr v, d') \<Rightarrow> (Inr v, d'))"

lemma set_order_rows [simp]: "set (order_rows ob rs) = set rs"
proof -
  have "set (fold (\<lambda>(col, asc) acc. js_sort (order_cmp col asc) acc) xs rs) = set rs" for xs
    by (induction xs arbitrary: rs) (auto split: prod.splits)
  then show ?thesis by (simp add: order_rows_def)
qed

lemma order_rows_Nil [simp]: "order_rows [] rs = rs"
  by (simp add: order_rows_def)

lemma select_row_None [simp]: "select_row None = (\<lambda>r. r)"
  by (auto simp: select_row_def)

lemma mem_find_many_sound:
  "r \<in> set (mem_find_many t fo d) \<Longrightarrow>
   \<exists>s \<in> set (d t). matches_condition s (fo_where fo) \<and> r = select_row (fo_select fo) s"
  unfolding mem_find_many_def Let_def by (auto dest!: subsetD [OF set_js_slice])

lemma mem_find_many_complete:
  "fo_limit fo = None \<Longrightarrow> fo_offset fo = None \<Longrightarrow>
   set (mem_find_many t fo d) =
   select_row (fo_select fo) ` {s \<in> set (d t). matches_condition s (fo_where fo)}"
  unfolding mem_find_many_def Let_def by (auto simp: js_slice_def)

lemma update_first_None: "update_first p f xs = None \<longleftrightarrow> (\<forall>x \<in> set xs. \<not> p x)"
  by (induction xs) auto

lemma update_first_Some:
  "update_first p f xs = Some ys \<Longrightarrow>
   \<exists>a x b. xs = a @ x # b \<and> ys = a @ f x # b \<and> p x \<and> (\<forall>y \<in> set a. \<not> p y)"
proof (induction xs arbitrary: ys)
  case (Cons x xs)
  show ?case
  proof (cases "p x")
    case True
    with Cons.prems show ?thesis by (intro exI [of _ "[]"]) auto
  next
    case False
    with Cons.prems obtain zs where zs: "update_first p f xs = Some zs" "ys = x # zs" by auto
    from Cons.IH [OF zs(1)] obtain a y b where
      "xs = a @ y # b" "zs = a @ f y # b" "p y" "\<forall>y \<in> set a. \<not> p y" by blast
    with zs False show ?thesis
      by (intro exI [of _ "x # a"] exI [of _ y] exI [of _ b]) auto
  qed
qed simp

lemma apply_defaults_notin:
  "k \<notin> col_name ` set cols \<Longrightarrow> fold (apply_default auto vals) cols r k = r k"
  by (induction cols arbitrary: r) (auto simp: apply_default_def Let_def)

text \<open>A value the caller gives for a column of the table is the value the row stores.\<close>

lemma apply_defaults_given:
  assumes "k \<in> col_name ` set cols" "prop_of vals k \<noteq> JUndef"
  shows "apply_defaults auto cols vals k = prop_of vals k"
proof -
  have "fold (apply_default auto vals) cols r k = prop_of vals k" for r
    using assms
  proof (induction cols arbitrary: r)
    case (Cons c cols)
    show ?case
    proof (cases "k \<in> col_name ` set cols")
      case False
      with Cons.prems have "col_name c = k" by auto
      with False Cons.prems show ?thesis
        by (simp add: apply_defaults_notin apply_default_def [of _ _ c])
    qed (use Cons in auto)
  qed simp
  then show ?thesis by (simp add: apply_defaults_def)
qed

end
