(* ===== verification/FumaOrm.thy ===== *)
theory FumaOrm
  imports FumaQuery
begin

text \<open>
  The policy layer over the adapter (\<open>fumadb/src/query/orm/index.ts\<close>): every operation asks
  the table's policies, in order, for a condition to add to its \<open>where\<close>, or for leave to
  write, before the adapter runs. A policy callback that throws is an error value. Joins are
  not modelled (the in-memory adapter rejects them); the existence of the table and column
  names, which the types of the source check, is taken for granted.
\<close>

datatype storage_error = StorageError string | UniqueViolation string

record 'ctx table_policy =
  pol_name :: string
  on_read :: "'ctx \<Rightarrow> storage_error + cond_or_bool option"
  on_create :: "record_vals \<Rightarrow> 'ctx \<Rightarrow> storage_error + unit"
  on_update :: "record_vals \<Rightarrow> record_vals option \<Rightarrow> 'ctx \<Rightarrow> storage_error + cond_or_bool option"
  on_delete :: "'ctx \<Rightarrow> storage_error + cond_or_bool option"

record 'ctx table =
  tbl_name :: string
  tbl_columns :: "column list"
  tbl_id_column :: string
  tbl_policies :: "'ctx table_policy list"

record find_input =
  fi_select :: "string list option"
  fi_where :: "cond_or_bool option"
  fi_order_by :: "(string \<times> bool) list"
  fi_offset :: "nat option"
  fi_limit :: "nat option"

definition find_all :: find_input where
  "find_all = \<lparr>fi_select = None, fi_where = None, fi_order_by = [], fi_offset = None, fi_limit = None\<rparr>"

definition find_where :: "cond_or_bool \<Rightarrow> find_input" where
  "find_where c = find_all\<lparr>fi_where := Some c\<rparr>"

text \<open>A compiled \<open>where\<close>: \<open>None\<close> is the literal \<open>false\<close>, \<open>Some w\<close> a condition or none.\<close>

definition compile_where :: "cond_or_bool option \<Rightarrow> condition option option" where
  "compile_where w =
     (case w of None \<Rightarrow> Some None
      | Some (CB True) \<Rightarrow> Some None | Some (CB False) \<Rightarrow> None | Some (CC c) \<Rightarrow> Some (Some c))"

definition build_find_options :: "find_input \<Rightarrow> find_options option" where
  "build_find_options fi =
     map_option (\<lambda>w. \<lparr>fo_select = fi_select fi, fo_where = w, fo_order_by = fi_order_by fi,
                       fo_offset = fi_offset fi, fo_limit = fi_limit fi\<rparr>)
       (compile_where (fi_where fi))"

definition merge_policy_condition ::
  "condition option \<Rightarrow> cond_or_bool option \<Rightarrow> condition option option" where
  "merge_policy_condition w c =
     (case c of
        None \<Rightarrow> Some w
      | Some (CB True) \<Rightarrow> Some w
      | Some (CB False) \<Rightarrow> None
      | Some (CC x) \<Rightarrow>
          (case builder_and [case w of None \<Rightarrow> CB True | Some y \<Rightarrow> CC y, CC x] of
             CB True \<Rightarrow> Some None | CB False \<Rightarrow> None | CC z \<Rightarrow> Some (Some z)))"

text \<open>
  The loop the read, update and delete policies share: it stops at the first policy that
  denies or throws.
\<close>

fun apply_policies ::
  "('p \<Rightarrow> storage_error + cond_or_bool option) \<Rightarrow> 'p list \<Rightarrow> condition option \<Rightarrow>
   storage_error + condition option option" where
  "apply_policies ask [] w = Inr (Some w)"
| "apply_policies ask (p # ps) w =
     err_bind (ask p) (\<lambda>c.
       case merge_policy_condition w c of
         None \<Rightarrow> Inr None
       | Some w' \<Rightarrow> apply_policies ask ps w')"

definition apply_read_policies where
  "apply_read_policies tbl w ctx = apply_policies (\<lambda>p. on_read p ctx) (tbl_policies tbl) w"

definition run_create_policies where
  "run_create_policies tbl vals ctx = err_iter (\<lambda>p. on_create p vals ctx) (tbl_policies tbl)"

definition apply_update_policies where
  "apply_update_policies tbl w ps create ctx =
     apply_policies (\<lambda>p. on_update p ps create ctx) (tbl_policies tbl) w"

definition apply_delete_policies where
  "apply_delete_policies tbl w ctx = apply_policies (\<lambda>p. on_delete p ctx) (tbl_policies tbl) w"

section \<open>The operations\<close>

definition orm_count :: "'c table \<Rightarrow> 'c \<Rightarrow> cond_or_bool option \<Rightarrow> db \<Rightarrow> storage_error + nat" where
  "orm_count tbl ctx w d =
     (case compile_where w of
        None \<Rightarrow> Inr 0
      | Some c \<Rightarrow>
          err_bind (apply_read_policies tbl c ctx) (\<lambda>cw.
            case cw of None \<Rightarrow> Inr 0 | Some x \<Rightarrow> Inr (mem_count (tbl_name tbl) x d)))"

definition orm_find_many :: "'c table \<Rightarrow> 'c \<Rightarrow> find_input \<Rightarrow> db \<Rightarrow> storage_error + row list" where
  "orm_find_many tbl ctx fi d =
     (case build_find_options fi of
        None \<Rightarrow> Inr []
      | Some fo \<Rightarrow>
          err_bind (apply_read_policies tbl (fo_where fo) ctx) (\<lambda>cw.
            case cw of None \<Rightarrow> Inr []
            | Some w \<Rightarrow> Inr (mem_find_many (tbl_name tbl) (fo\<lparr>fo_where := w\<rparr>) d)))"

definition orm_find_first :: "'c table \<Rightarrow> 'c \<Rightarrow> find_input \<Rightarrow> db \<Rightarrow> storage_error + row option" where
  "orm_find_first tbl ctx fi d =
     (case build_find_options fi of
        None \<Rightarrow> Inr None
      | Some fo \<Rightarrow>
          err_bind (apply_read_policies tbl (fo_where fo) ctx) (\<lambda>cw.
            case cw of None \<Rightarrow> Inr None
            | Some w \<Rightarrow> Inr (mem_find_first (tbl_name tbl) (fo\<lparr>fo_where := w\<rparr>) d)))"

definition orm_update_many ::
  "'c table \<Rightarrow> 'c \<Rightarrow> cond_or_bool option \<Rightarrow> record_vals \<Rightarrow> db \<Rightarrow> (storage_error + unit) \<times> db" where
  "orm_update_many tbl ctx w ps d =
     (case compile_where w of
        None \<Rightarrow> (Inr (), d)
      | Some c \<Rightarrow>
          (case apply_update_policies tbl c ps None ctx of
             Inl e \<Rightarrow> (Inl e, d)
           | Inr None \<Rightarrow> (Inr (), d)
           | Inr (Some cw) \<Rightarrow> (Inr (), mem_update_many (tbl_name tbl) cw ps d)))"

definition orm_create ::
  "string \<Rightarrow> 'c table \<Rightarrow> 'c \<Rightarrow> record_vals \<Rightarrow> db \<Rightarrow> (storage_error + row) \<times> db" where
  "orm_create auto tbl ctx vals d =
     (case run_create_policies tbl vals ctx of
        Inl e \<Rightarrow> (Inl e, d)
      | Inr _ \<Rightarrow> (case mem_create auto (tbl_name tbl) (tbl_columns tbl) vals d of (r, d') \<Rightarrow> (Inr r, d')))"

definition orm_create_many ::
  "(nat \<Rightarrow> string) \<Rightarrow> 'c table \<Rightarrow> 'c \<Rightarrow> record_vals list \<Rightarrow> db \<Rightarrow> (storage_error + jsval list) \<times> db" where
  "orm_create_many auto tbl ctx vs d =
     (case err_iter (\<lambda>v. run_create_policies tbl v ctx) vs of
        Inl e \<Rightarrow> (Inl e, d)
      | Inr _ \<Rightarrow>
          (case mem_create_many auto (tbl_name tbl) (tbl_columns tbl) (tbl_id_column tbl) vs d of
             (ids, d') \<Rightarrow> (Inr ids, d')))"

definition orm_upsert ::
  "string \<Rightarrow> 'c table \<Rightarrow> 'c \<Rightarrow> cond_or_bool option \<Rightarrow> record_vals \<Rightarrow> record_vals \<Rightarrow> db \<Rightarrow>
   (storage_error + unit) \<times> db" where
  "orm_upsert auto tbl ctx w upd vals d =
     (case compile_where w of
        None \<Rightarrow> (Inr (), d)
      | Some c \<Rightarrow>
          (case apply_update_policies tbl c upd (Some vals) ctx of
             Inl e \<Rightarrow> (Inl e, d)
           | Inr None \<Rightarrow> (Inr (), d)
           | Inr (Some cw) \<Rightarrow>
               (case run_create_policies tbl vals ctx of
                  Inl e \<Rightarrow> (Inl e, d)
                | Inr _ \<Rightarrow>
                    (Inr (), mem_upsert auto (tbl_name tbl) (tbl_columns tbl) cw upd vals d))))"

definition orm_delete_many ::
  "'c table \<Rightarrow> 'c \<Rightarrow> cond_or_bool option \<Rightarrow> db \<Rightarrow> (storage_error + unit) \<times> db" where
  "orm_delete_many tbl ctx w d =
     (case compile_where w of
        None \<Rightarrow> (Inr (), d)
      | Some c \<Rightarrow>
          (case apply_delete_policies tbl c ctx of
             Inl e \<Rightarrow> (Inl e, d)
           | Inr None \<Rightarrow> (Inr (), d)
           | Inr (Some cw) \<Rightarrow> (Inr (), mem_delete_many (tbl_name tbl) cw d)))"

section \<open>What a guarded table promises\<close>

text \<open>
  The contract between the policy layer and the policies of a table under a context: there
  is a visibility predicate \<open>vis\<close> on rows such that the conditions the read, update and
  delete policies add mean exactly \<open>vis\<close>, and a record the create policies let through
  becomes a visible row.
\<close>

definition meets :: "condition option option \<Rightarrow> row \<Rightarrow> bool" where
  "meets cw r = (case cw of None \<Rightarrow> False | Some w \<Rightarrow> matches_condition r w)"

lemma meets_simps [simp]:
  "meets None r = False" "meets (Some w) r = matches_condition r w"
  by (simp_all add: meets_def)

lemma meets_merge:
  "meets (merge_policy_condition w c) r \<longleftrightarrow>
   matches_condition r w \<and> (case c of None \<Rightarrow> True | Some x \<Rightarrow> holds_cb r x)"
proof (cases c)
  case (Some x)
  then show ?thesis
  proof (cases x)
    case (CC y)
    with Some show ?thesis
      by (cases w) (simp_all add: merge_policy_condition_def builder_and_def)
  qed (auto simp: merge_policy_condition_def split: bool.splits)
qed (simp add: merge_policy_condition_def)

lemma apply_policies_meets:
  assumes "apply_policies ask ps w = Inr cw"
    and "\<And>p c. p \<in> set ps \<Longrightarrow> ask p = Inr c \<Longrightarrow>
           (case c of None \<Rightarrow> True | Some x \<Rightarrow> holds_cb r x) \<longleftrightarrow> v p"
  shows "meets cw r \<longleftrightarrow> matches_condition r w \<and> (\<forall>p \<in> set ps. v p)"
  using assms
proof (induction ps arbitrary: w)
  case (Cons p ps)
  from Cons.prems(1) obtain c where c: "ask p = Inr c" by (auto simp: err_bind_Inr)
  have vp: "(case c of None \<Rightarrow> True | Some x \<Rightarrow> holds_cb r x) \<longleftrightarrow> v p"
    using Cons.prems(2) c by simp
  show ?case
  proof (cases "merge_policy_condition w c")
    case None
    with meets_merge [of w c r] vp Cons.prems(1) c show ?thesis by auto
  next
    case (Some w')
    with meets_merge [of w c r] vp have "matches_condition r w' \<longleftrightarrow> matches_condition r w \<and> v p"
      by simp
    moreover have "meets cw r \<longleftrightarrow> matches_condition r w' \<and> (\<forall>p \<in> set ps. v p)"
      using Cons c Some by auto
    ultimately show ?thesis by auto
  qed
qed auto

lemma filter_map_guarded:
  assumes "\<And>r. q r \<Longrightarrow> v r \<and> v (f r)"
  shows "filter (\<lambda>r. \<not> v r) (map (\<lambda>r. if q r then f r else r) xs) = filter (\<lambda>r. \<not> v r) xs"
    and "filter v (map (\<lambda>r. if q r then f r else r) xs) = map (\<lambda>r. if q r then f r else r) (filter v xs)"
  using assms by (induction xs) auto

lemma filter_update_first_hidden:
  "(\<And>r. q r \<Longrightarrow> v r \<and> v (f r)) \<Longrightarrow> update_first q f xs = Some ys \<Longrightarrow>
   filter (\<lambda>r. \<not> v r) ys = filter (\<lambda>r. \<not> v r) xs"
  by (induction xs arbitrary: ys) (auto split: if_splits)

lemma filter_update_first_shown:
  "(\<And>r. q r \<Longrightarrow> v r \<and> v (f r)) \<Longrightarrow>
   update_first q f (filter v xs) = map_option (filter v) (update_first q f xs)"
  by (induction xs) (auto simp: option.map_comp o_def)

locale guarded_table =
  fixes tbl :: "'c table" and ctx :: 'c and vis :: "row \<Rightarrow> bool"
  assumes read_law: "apply_read_policies tbl w ctx = Inr cw \<Longrightarrow>
      meets cw r \<longleftrightarrow> matches_condition r w \<and> vis r"
    and update_law: "apply_update_policies tbl w ps cr ctx = Inr cw \<Longrightarrow>
      meets cw r \<longleftrightarrow> matches_condition r w \<and> vis r"
    and delete_law: "apply_delete_policies tbl w ctx = Inr cw \<Longrightarrow>
      meets cw r \<longleftrightarrow> matches_condition r w \<and> vis r"
    and create_law: "run_create_policies tbl vals ctx = Inr () \<Longrightarrow>
      vis (apply_defaults auto (tbl_columns tbl) vals)"
begin

abbreviation seen :: "db \<Rightarrow> row list" where
  "seen d \<equiv> filter vis (d (tbl_name tbl))"

abbreviation unseen :: "db \<Rightarrow> row list" where
  "unseen d \<equiv> filter (\<lambda>r. \<not> vis r) (d (tbl_name tbl))"

lemma read_filter:
  assumes "apply_read_policies tbl w ctx = Inr (Some cw)" "seen d = seen d'"
  shows "filter (\<lambda>r. matches_condition r cw) (d (tbl_name tbl)) =
         filter (\<lambda>r. matches_condition r cw) (d' (tbl_name tbl))"
proof -
  have "vis r" if "matches_condition r cw" for r
    using read_law [OF assms(1), of r] that by simp
  then show ?thesis using assms(2) by (metis (no_types, lifting) filter_filter_absorb)
qed

text \<open>A read depends on the visible rows alone.\<close>

lemma mem_find_many_seen:
  "apply_read_policies tbl w ctx = Inr (Some cw) \<Longrightarrow> seen d = seen d' \<Longrightarrow>
   mem_find_many (tbl_name tbl) (fo\<lparr>fo_where := cw\<rparr>) d =
   mem_find_many (tbl_name tbl) (fo\<lparr>fo_where := cw\<rparr>) d'"
  by (drule (1) read_filter) (simp add: mem_find_many_def)

lemma find_many_seen: "seen d = seen d' \<Longrightarrow> orm_find_many tbl ctx fi d = orm_find_many tbl ctx fi d'"
  unfolding orm_find_many_def err_bind_def
  by (auto split: option.splits sum.splits intro: mem_find_many_seen)

lemma mem_find_first_seen:
  "apply_read_policies tbl w ctx = Inr (Some cw) \<Longrightarrow> seen d = seen d' \<Longrightarrow>
   mem_find_first (tbl_name tbl) (fo\<lparr>fo_where := cw\<rparr>) d =
   mem_find_first (tbl_name tbl) (fo\<lparr>fo_where := cw\<rparr>) d'"
  by (drule (1) read_filter) (simp add: mem_find_first_def mem_find_many_def)

lemma find_first_seen: "seen d = seen d' \<Longrightarrow> orm_find_first tbl ctx fi d = orm_find_first tbl ctx fi d'"
  unfolding orm_find_first_def err_bind_def
  by (auto split: option.splits sum.splits intro: mem_find_first_seen)

lemma mem_count_seen:
  "apply_read_policies tbl w ctx = Inr (Some cw) \<Longrightarrow> seen d = seen d' \<Longrightarrow>
   mem_count (tbl_name tbl) cw d = mem_count (tbl_name tbl) cw d'"
  by (drule (1) read_filter) (simp add: mem_count_def)

lemma count_seen: "seen d = seen d' \<Longrightarrow> orm_count tbl ctx w d = orm_count tbl ctx w d'"
  unfolding orm_count_def err_bind_def
  by (auto split: option.splits sum.splits intro: mem_count_seen)

lemma find_many_vis:
  assumes "orm_find_many tbl ctx fi d = Inr rs" "r \<in> set rs"
  shows "\<exists>s \<in> set (d (tbl_name tbl)). vis s \<and> r = select_row (fi_select fi) s"
proof -
  from assms obtain w cw s where "apply_read_policies tbl w ctx = Inr (Some cw)"
    "s \<in> set (d (tbl_name tbl))" "matches_condition s cw" "r = select_row (fi_select fi) s"
    unfolding orm_find_many_def build_find_options_def
    by (auto simp: err_bind_Inr split: option.splits dest!: mem_find_many_sound)
  with read_law [of w "Some cw" s] show ?thesis by auto
qed

text \<open>
  A write leaves the invisible rows and the other tables alone, and what it does to the
  visible rows depends on them alone. A patch must not carry a row out of sight.
\<close>

definition stays :: "record_vals \<Rightarrow> bool" where
  "stays ps \<longleftrightarrow> (\<forall>r. vis r \<longrightarrow> vis (obj_assign r ps))"

lemma delete_many_other: "t \<noteq> tbl_name tbl \<Longrightarrow> snd (orm_delete_many tbl ctx w d) t = d t"
  by (auto simp: orm_delete_many_def mem_delete_many_def split: option.splits sum.splits)

lemma delete_many_unseen: "unseen (snd (orm_delete_many tbl ctx w d)) = unseen d"
proof -
  have "filter (\<lambda>r. \<not> vis r) (filter (\<lambda>r. \<not> matches_condition r cw) xs) = filter (\<lambda>r. \<not> vis r) xs"
    if "apply_delete_policies tbl c ctx = Inr (Some cw)" for c cw xs
    using delete_law [OF that] by (intro filter_filter_absorb) auto
  then show ?thesis
    by (simp add: orm_delete_many_def mem_delete_many_def split: option.splits sum.splits)
qed

lemma delete_many_seen:
  assumes "seen d = seen d'"
  shows "fst (orm_delete_many tbl ctx w d) = fst (orm_delete_many tbl ctx w d')"
    and "seen (snd (orm_delete_many tbl ctx w d)) = seen (snd (orm_delete_many tbl ctx w d'))"
proof -
  have "filter vis (filter q (d (tbl_name tbl))) = filter vis (filter q (d' (tbl_name tbl)))" for q
    using arg_cong [OF assms, of "filter q"] by (simp add: conj_commute)
  with assms show "seen (snd (orm_delete_many tbl ctx w d)) = seen (snd (orm_delete_many tbl ctx w d'))"
    by (simp add: orm_delete_many_def mem_delete_many_def split: option.splits sum.splits)
qed (simp add: orm_delete_many_def split: option.splits sum.splits)

lemma update_many_other: "t \<noteq> tbl_name tbl \<Longrightarrow> snd (orm_update_many tbl ctx w ps d) t = d t"
  by (auto simp: orm_update_many_def mem_update_many_def split: option.splits sum.splits)

lemma update_guard:
  "stays ps \<Longrightarrow> apply_update_policies tbl c qs cr ctx = Inr (Some cw) \<Longrightarrow> matches_condition r cw \<Longrightarrow>
   vis r \<and> vis (obj_assign r ps)"
  using update_law [of c qs cr "Some cw" r] by (simp add: stays_def)

lemma update_many_unseen:
  "stays ps \<Longrightarrow> unseen (snd (orm_update_many tbl ctx w ps d)) = unseen d"
  unfolding orm_update_many_def mem_update_many_def
  by (auto split: option.splits sum.splits intro!: filter_map_guarded(1) dest: update_guard)

lemma update_many_seen:
  assumes "stays ps" "seen d = seen d'"
  shows "fst (orm_update_many tbl ctx w ps d) = fst (orm_update_many tbl ctx w ps d')"
    and "seen (snd (orm_update_many tbl ctx w ps d)) = seen (snd (orm_update_many tbl ctx w ps d'))"
proof -
  have "filter vis (map (\<lambda>r. if matches_condition r cw then obj_assign r ps else r) xs) =
        map (\<lambda>r. if matches_condition r cw then obj_assign r ps else r) (filter vis xs)"
    if "apply_update_policies tbl c ps None ctx = Inr (Some cw)" for c cw xs
    using update_guard [OF assms(1) that] by (intro filter_map_guarded(2)) auto
  with assms(2) show "seen (snd (orm_update_many tbl ctx w ps d)) = seen (snd (orm_update_many tbl ctx w ps d'))"
    by (simp add: orm_update_many_def mem_update_many_def split: option.splits sum.splits)
qed (simp add: orm_update_many_def split: option.splits sum.splits)

lemma create_other: "t \<noteq> tbl_name tbl \<Longrightarrow> snd (orm_create auto tbl ctx vals d) t = d t"
  by (auto simp: orm_create_def mem_create_def Let_def split: sum.splits)

lemma create_unseen: "unseen (snd (orm_create auto tbl ctx vals d)) = unseen d"
  using create_law [of vals auto]
  by (auto simp: orm_create_def mem_create_def Let_def split: sum.splits)

lemma create_seen:
  assumes "seen d = seen d'"
  shows "fst (orm_create auto tbl ctx vals d) = fst (orm_create auto tbl ctx vals d')"
    and "seen (snd (orm_create auto tbl ctx vals d)) = seen (snd (orm_create auto tbl ctx vals d'))"
  using assms by (auto simp: orm_create_def mem_create_def Let_def split: sum.splits)

lemma mem_create_many_vis:
  "(\<And>v auto. v \<in> set vs \<Longrightarrow> vis (apply_defaults auto (tbl_columns tbl) v)) \<Longrightarrow>
   mem_create_many auto (tbl_name tbl) (tbl_columns tbl) idc vs d = (ids, d1) \<Longrightarrow>
   (\<exists>rs. list_all vis rs \<and> d1 = d(tbl_name tbl := d (tbl_name tbl) @ rs) \<and>
     (\<forall>d'. mem_create_many auto (tbl_name tbl) (tbl_columns tbl) idc vs d' =
       (ids, d'(tbl_name tbl := d' (tbl_name tbl) @ rs))))"
proof (induction vs arbitrary: auto d ids d1)
  case Nil
  then show ?case by (intro exI [of _ "[]"]) auto
next
  case (Cons v vs)
  let ?n = "tbl_name tbl" and ?r = "apply_defaults (auto 0) (tbl_columns tbl) v"
  obtain ids' where ids': "mem_create_many (\<lambda>n. auto (Suc n)) ?n (tbl_columns tbl) idc vs
      (d(?n := d ?n @ [?r])) = (ids', d1)" "ids = ?r idc # ids'"
    using Cons.prems(2) by (auto simp: mem_create_def Let_def split: prod.splits)
  from Cons.IH [OF _ ids'(1)] Cons.prems(1) obtain rs where rs: "list_all vis rs"
    "d1 = (d(?n := d ?n @ [?r]))(?n := (d(?n := d ?n @ [?r])) ?n @ rs)"
    "\<And>d'. mem_create_many (\<lambda>n. auto (Suc n)) ?n (tbl_columns tbl) idc vs d' =
       (ids', d'(?n := d' ?n @ rs))" by force
  have "vis ?r" using Cons.prems(1) by simp
  with rs ids'(2) show ?case
    by (intro exI [of _ "?r # rs"]) (auto simp: mem_create_def Let_def)
qed

lemma create_many_shape:
  "\<exists>res rs. list_all vis rs \<and> (\<forall>d. orm_create_many auto tbl ctx vs d =
     (res, d(tbl_name tbl := d (tbl_name tbl) @ rs)))"
proof (cases "err_iter (\<lambda>v. run_create_policies tbl v ctx) vs")
  case (Inl e)
  then show ?thesis by (intro exI [of _ "Inl e"] exI [of _ "[]"]) (simp add: orm_create_many_def)
next
  case (Inr u)
  have v: "vis (apply_defaults a (tbl_columns tbl) v)" if "v \<in> set vs" for v a
    using Inr that create_law by (auto simp: err_iter_Inr)
  obtain ids d1 where "mem_create_many auto (tbl_name tbl) (tbl_columns tbl) (tbl_id_column tbl) vs
      (\<lambda>_. []) = (ids, d1)" by force
  from mem_create_many_vis [OF v this] Inr obtain rs where "list_all vis rs"
    "\<And>d. mem_create_many auto (tbl_name tbl) (tbl_columns tbl) (tbl_id_column tbl) vs d =
       (ids, d(tbl_name tbl := d (tbl_name tbl) @ rs))" by blast
  with Inr show ?thesis
    by (intro exI [of _ "Inr ids"] exI [of _ rs]) (simp add: orm_create_many_def)
qed

lemma create_many_other: "t \<noteq> tbl_name tbl \<Longrightarrow> snd (orm_create_many auto tbl ctx vs d) t = d t"
  using create_many_shape [of auto vs] by auto

lemma create_many_unseen: "unseen (snd (orm_create_many auto tbl ctx vs d)) = unseen d"
proof -
  obtain res rs where "list_all vis rs"
    "orm_create_many auto tbl ctx vs d = (res, d(tbl_name tbl := d (tbl_name tbl) @ rs))"
    using create_many_shape [of auto vs] by blast
  then show ?thesis by (auto simp: list_all_iff filter_empty_conv)
qed

lemma create_many_seen:
  assumes "seen d = seen d'"
  shows "fst (orm_create_many auto tbl ctx vs d) = fst (orm_create_many auto tbl ctx vs d')"
    and "seen (snd (orm_create_many auto tbl ctx vs d)) = seen (snd (orm_create_many auto tbl ctx vs d'))"
  using create_many_shape [of auto vs] assms by auto

lemma upsert_other: "t \<noteq> tbl_name tbl \<Longrightarrow> snd (orm_upsert auto tbl ctx w ps vals d) t = d t"
  by (auto simp: orm_upsert_def mem_upsert_def mem_create_def Let_def split: option.splits sum.splits)

lemma mem_upsert_unseen:
  assumes "stays ps" "apply_update_policies tbl c qs cr ctx = Inr (Some cw)"
    and "run_create_policies tbl vals ctx = Inr ()"
  shows "unseen (mem_upsert auto (tbl_name tbl) (tbl_columns tbl) cw ps vals d) = unseen d"
  using filter_update_first_hidden [of "\<lambda>r. matches_condition r cw" vis "\<lambda>r. obj_assign r ps"]
    update_guard [OF assms(1,2)] create_law [OF assms(3), of auto]
  by (auto simp: mem_upsert_def mem_create_def Let_def split: option.splits)

lemma mem_upsert_seen:
  assumes "stays ps" "apply_update_policies tbl c qs cr ctx = Inr (Some cw)"
    and "run_create_policies tbl vals ctx = Inr ()" and "seen d = seen d'"
  shows "seen (mem_upsert auto (tbl_name tbl) (tbl_columns tbl) cw ps vals d) =
         seen (mem_upsert auto (tbl_name tbl) (tbl_columns tbl) cw ps vals d')"
proof -
  have *: "update_first (\<lambda>r. matches_condition r cw) (\<lambda>r. obj_assign r ps) (seen e) =
        map_option (filter vis)
          (update_first (\<lambda>r. matches_condition r cw) (\<lambda>r. obj_assign r ps) (e (tbl_name tbl)))" for e
    using update_guard [OF assms(1,2)] by (intro filter_update_first_shown) auto
  from * [of d] * [of d'] assms(4) show ?thesis
    by (auto simp: mem_upsert_def mem_create_def Let_def split: option.splits)
qed

lemma upsert_unseen: "stays ps \<Longrightarrow> unseen (snd (orm_upsert auto tbl ctx w ps vals d)) = unseen d"
  by (auto simp: orm_upsert_def split: option.splits sum.splits intro: mem_upsert_unseen)

lemma upsert_seen:
  assumes "stays ps" "seen d = seen d'"
  shows "fst (orm_upsert auto tbl ctx w ps vals d) = fst (orm_upsert auto tbl ctx w ps vals d')"
    and "seen (snd (orm_upsert auto tbl ctx w ps vals d)) = seen (snd (orm_upsert auto tbl ctx w ps vals d'))"
  using assms
  by (auto simp: orm_upsert_def split: option.splits sum.splits intro: mem_upsert_seen)

end

end
