(* ===== verification/OwnerPolicy.thy ===== *)
theory OwnerPolicy
  imports FumaOrm
begin

text \<open>
  The owner policy and the tables it guards (\<open>sdk/src/owner-policy.ts\<close>,
  \<open>sdk/src/core-schema.ts\<close>): an executor is bound to a tenant and perhaps a subject; an
  owned row belongs to the tenant's organisation or to one subject of it. The policies are
  interpreted as a guarded table, which gives every storage operation its isolation.
\<close>

datatype reach = Bound | TenantReach
datatype writes = Allowed | Denied

record owner_ctx =
  oc_tenant :: string
  oc_subject :: "string option"
  oc_reach :: reach
  oc_writes :: writes

definition ORG_SUBJECT :: string where
  "ORG_SUBJECT = []"

definition policy_violation :: "string \<Rightarrow> storage_error + 'a" where
  "policy_violation m = Inl (StorageError m)"

definition require_context ::
  "string \<Rightarrow> string \<Rightarrow> owner_ctx option \<Rightarrow> storage_error + owner_ctx" where
  "require_context tn access c =
     (case c of Some x \<Rightarrow> Inr x
      | None \<Rightarrow> policy_violation (''Storage '' @ access @ '' on table '' @ in_quotes tn
                  @ '' is missing executor owner context.''))"

definition owner_visibility_condition :: "owner_ctx \<Rightarrow> cond_or_bool" where
  "owner_visibility_condition c =
     (if oc_reach c = TenantReach then cmp_val ''tenant'' OpEq (JStr (oc_tenant c))
      else
        let org = builder_and [cmp_val ''tenant'' OpEq (JStr (oc_tenant c)),
                               cmp_val ''owner'' OpEq (JStr ''org'')] in
        case oc_subject c of
          None \<Rightarrow> org
        | Some s \<Rightarrow>
            let usr = builder_and [cmp_val ''tenant'' OpEq (JStr (oc_tenant c)),
                                   cmp_val ''owner'' OpEq (JStr ''user''),
                                   cmp_val ''subject'' OpEq (JStr s)] in
            builder_or [org, usr])"

definition assert_reach_read_only ::
  "string \<Rightarrow> string \<Rightarrow> owner_ctx option \<Rightarrow> storage_error + unit" where
  "assert_reach_read_only tn access c =
     (case c of None \<Rightarrow> Inr ()
      | Some x \<Rightarrow>
          if oc_reach x \<noteq> TenantReach \<and> oc_writes x \<noteq> Denied then Inr ()
          else policy_violation (''Storage '' @ access @ '' on table '' @ in_quotes tn
                 @ '' is not allowed: the platform view is read-only.''))"

definition assert_owner_writable ::
  "string \<Rightarrow> record_vals \<Rightarrow> owner_ctx option \<Rightarrow> storage_error + unit" where
  "assert_owner_writable tn vals c =
     err_bind (require_context tn ''write'' c) (\<lambda>ctx.
     err_bind (assert_reach_read_only tn ''write'' (Some ctx)) (\<lambda>_.
       let w = ''Storage write on table '' @ in_quotes tn in
       if prop_of vals ''tenant'' \<noteq> JStr (oc_tenant ctx) then
         policy_violation (w @ '' is outside the executor tenant.'')
       else if prop_of vals ''owner'' = JStr ''org'' then
         if prop_of vals ''subject'' \<noteq> JStr ORG_SUBJECT then
           policy_violation (w @ '' set a subject on an org row.'')
         else Inr ()
       else if prop_of vals ''owner'' = JStr ''user'' then
         (case oc_subject ctx of
            None \<Rightarrow> policy_violation (w @ '' targets a user row outside the bound subject.'')
          | Some s \<Rightarrow>
              if prop_of vals ''subject'' \<noteq> JStr s then
                policy_violation (w @ '' targets a user row outside the bound subject.'')
              else Inr ())
       else policy_violation (w @ '' has an invalid owner ''
              @ in_quotes (js_to_string (prop_of vals ''owner'')) @ ''.'')))"

definition assert_owner_patch ::
  "string \<Rightarrow> record_vals option \<Rightarrow> owner_ctx option \<Rightarrow> storage_error + unit" where
  "assert_owner_patch tn patch c =
     err_bind (require_context tn ''write'' c) (\<lambda>ctx.
     err_bind (assert_reach_read_only tn ''write'' (Some ctx)) (\<lambda>_.
       case patch of None \<Rightarrow> Inr ()
       | Some p \<Rightarrow>
           let w = ''Storage write on table '' @ in_quotes tn in
           if prop_of p ''tenant'' \<noteq> JUndef \<and> prop_of p ''tenant'' \<noteq> JStr (oc_tenant ctx) then
             policy_violation (w @ '' cannot move a row across tenants.'')
           else if prop_of p ''owner'' = JStr ''user'' \<and>
                   (case oc_subject ctx of None \<Rightarrow> True | Some s \<Rightarrow> prop_of p ''subject'' \<noteq> JStr s) then
             policy_violation (w @ '' cannot move a row outside the bound subject.'')
           else Inr ()))"

definition has_policy :: "string \<Rightarrow> 'c table \<Rightarrow> bool" where
  "has_policy pn tbl \<longleftrightarrow> list_ex (\<lambda>p. pol_name p = pn) (tbl_policies tbl)"

definition has_executor_owner_policy :: "'c table \<Rightarrow> bool" where
  "has_executor_owner_policy tbl = has_policy ''executor.owner'' tbl"

section \<open>The table builders\<close>

definition key_column :: "string \<Rightarrow> column" where
  "key_column n = \<lparr>col_name = n, col_nullable = False, col_default = NoDefault\<rparr>"

definition text_column :: "string \<Rightarrow> column" where
  "text_column n = \<lparr>col_name = n, col_nullable = False, col_default = NoDefault\<rparr>"

definition nullable_column :: "string \<Rightarrow> column" where
  "nullable_column n = \<lparr>col_name = n, col_nullable = True, col_default = NoDefault\<rparr>"

definition bool_column :: "string \<Rightarrow> bool \<Rightarrow> column" where
  "bool_column n b = \<lparr>col_name = n, col_nullable = False, col_default = ConstDefault (JBool b)\<rparr>"

definition auto_id_column :: "string \<Rightarrow> column" where
  "auto_id_column n = \<lparr>col_name = n, col_nullable = False, col_default = AutoDefault\<rparr>"

definition unscoped_executor_table :: "string \<Rightarrow> column list \<Rightarrow> owner_ctx table" where
  "unscoped_executor_table n cols =
     \<lparr>tbl_name = n, tbl_columns = cols @ [auto_id_column ''row_id'', key_column ''id''],
      tbl_id_column = ''row_id'',
      tbl_policies = [\<lparr>pol_name = ''executor.unscoped'', on_read = (\<lambda>_. Inr None),
        on_create = (\<lambda>_ _. Inr ()), on_update = (\<lambda>_ _ _. Inr None), on_delete = (\<lambda>_. Inr None)\<rparr>]\<rparr>"

definition tenant_executor_table :: "string \<Rightarrow> column list \<Rightarrow> owner_ctx table" where
  "tenant_executor_table n cols =
     \<lparr>tbl_name = n, tbl_columns = cols @ [auto_id_column ''row_id'', key_column ''tenant''],
      tbl_id_column = ''row_id'',
      tbl_policies = [\<lparr>pol_name = ''executor.tenant'',
        on_read = (\<lambda>ctx. Inr (Some (cmp_val ''tenant'' OpEq (JStr (oc_tenant ctx))))),
        on_create = (\<lambda>vals ctx.
          err_bind (assert_reach_read_only n ''write'' (Some ctx)) (\<lambda>_.
            if prop_of vals ''tenant'' \<noteq> JStr (oc_tenant ctx) then
              Inl (StorageError (''Storage write on table '' @ in_quotes n @ '' is outside the executor tenant.''))
            else Inr ())),
        on_update = (\<lambda>ps create ctx.
          err_bind (assert_reach_read_only n ''write'' (Some ctx)) (\<lambda>_.
            Inr (Some (cmp_val ''tenant'' OpEq (JStr (oc_tenant ctx)))))),
        on_delete = (\<lambda>ctx.
          err_bind (assert_reach_read_only n ''delete'' (Some ctx)) (\<lambda>_.
            Inr (Some (cmp_val ''tenant'' OpEq (JStr (oc_tenant ctx))))))\<rparr>]\<rparr>"

definition owned_executor_table :: "string \<Rightarrow> column list \<Rightarrow> owner_ctx table" where
  "owned_executor_table n cols =
     \<lparr>tbl_name = n, tbl_columns = cols @ [auto_id_column ''row_id'', key_column ''tenant'',
                                           key_column ''owner'', key_column ''subject''],
      tbl_id_column = ''row_id'',
      tbl_policies = [\<lparr>pol_name = ''executor.owner'',
        on_read = (\<lambda>ctx. Inr (Some (owner_visibility_condition ctx))),
        on_create = (\<lambda>vals ctx. assert_owner_writable n vals (Some ctx)),
        on_update = (\<lambda>ps create ctx.
          err_bind (assert_owner_patch n (Some ps) (Some ctx)) (\<lambda>_.
          err_bind (assert_owner_patch n create (Some ctx)) (\<lambda>_.
            Inr (Some (owner_visibility_condition ctx))))),
        on_delete = (\<lambda>ctx.
          err_bind (assert_reach_read_only n ''delete'' (Some ctx)) (\<lambda>_.
            Inr (Some (owner_visibility_condition ctx))))\<rparr>]\<rparr>"

definition integration_table :: "owner_ctx table" where
  "integration_table = tenant_executor_table ''integration''
     [key_column ''slug'', text_column ''plugin_id'', nullable_column ''name'',
      nullable_column ''description'', nullable_column ''config'', nullable_column ''health_check'',
      nullable_column ''config_revised_at'', bool_column ''can_remove'' True,
      bool_column ''can_refresh'' False, text_column ''created_at'', text_column ''updated_at'']"

definition subject_table :: "owner_ctx table" where
  "subject_table = tenant_executor_table ''subject''
     [key_column ''external_id'', text_column ''created_at'', nullable_column ''last_seen_at'',
      nullable_column ''status'']"

definition connection_table :: "owner_ctx table" where
  "connection_table = owned_executor_table ''connection''
     [key_column ''integration'', key_column ''name'', text_column ''template'', text_column ''provider'',
      text_column ''item_ids'', nullable_column ''identity_label'', nullable_column ''description'',
      nullable_column ''last_health'', nullable_column ''tools_synced_at'',
      nullable_column ''oauth_client'', nullable_column ''oauth_client_owner'',
      nullable_column ''refresh_item_id'', nullable_column ''expires_at'', nullable_column ''oauth_scope'',
      nullable_column ''oauth_token_url'', nullable_column ''provider_state'',
      text_column ''created_at'', text_column ''updated_at'']"

definition oauth_client_table :: "owner_ctx table" where
  "oauth_client_table = owned_executor_table ''oauth_client''
     [key_column ''slug'', text_column ''authorization_url'', text_column ''token_url'',
      text_column ''grant'', text_column ''client_id'', nullable_column ''client_secret_item_id'',
      nullable_column ''resource'', nullable_column ''origin_kind'', nullable_column ''origin_integration'',
      nullable_column ''origin_issuer'', nullable_column ''origin_redirect_uri'', text_column ''created_at'']"

definition oauth_session_table :: "owner_ctx table" where
  "oauth_session_table = owned_executor_table ''oauth_session''
     [key_column ''state'', text_column ''client_slug'', text_column ''integration'', text_column ''name'',
      text_column ''template'', text_column ''redirect_url'', nullable_column ''pkce_verifier'',
      nullable_column ''identity_label'', text_column ''payload'', text_column ''expires_at'',
      text_column ''created_at'']"

definition tool_table :: "owner_ctx table" where
  "tool_table = owned_executor_table ''tool''
     [key_column ''integration'', key_column ''connection'', text_column ''plugin_id'', key_column ''name'',
      text_column ''description'', nullable_column ''input_schema'', nullable_column ''output_schema'',
      nullable_column ''annotations'', text_column ''created_at'', text_column ''updated_at'']"

definition definition_table :: "owner_ctx table" where
  "definition_table = owned_executor_table ''definition''
     [key_column ''integration'', key_column ''connection'', text_column ''plugin_id'',
      text_column ''name'', text_column ''schema'', text_column ''created_at'']"

definition tool_policy_table :: "owner_ctx table" where
  "tool_policy_table = owned_executor_table ''tool_policy''
     [key_column ''id'', text_column ''pattern'', text_column ''action'', text_column ''position'',
      text_column ''created_at'', text_column ''updated_at'']"

definition artifact_table :: "owner_ctx table" where
  "artifact_table = owned_executor_table ''artifact''
     [key_column ''id'', text_column ''title'', nullable_column ''description'', text_column ''code'',
      nullable_column ''bindings'', nullable_column ''preview'', text_column ''created_at'',
      text_column ''updated_at'']"

definition plugin_storage_table :: "owner_ctx table" where
  "plugin_storage_table = owned_executor_table ''plugin_storage''
     [key_column ''plugin_id'', key_column ''collection'', key_column ''key'', text_column ''data'',
      text_column ''created_at'', text_column ''updated_at'']"

definition blob_table :: "owner_ctx table" where
  "blob_table = unscoped_executor_table ''blob''
     [key_column ''namespace'', key_column ''key'', text_column ''value'']"

definition TOOL_INVOCATION_COLUMNS :: "string list" where
  "TOOL_INVOCATION_COLUMNS =
     [''tenant'', ''owner'', ''subject'', ''integration'', ''connection'', ''plugin_id'', ''name'',
      ''description'', ''annotations'', ''created_at'', ''updated_at'']"

definition ARTIFACT_SUMMARY_COLUMNS :: "string list" where
  "ARTIFACT_SUMMARY_COLUMNS =
     [''owner'', ''id'', ''title'', ''description'', ''preview'', ''created_at'', ''updated_at'']"

datatype tool_action = Approve | RequireApproval | Block

fun action_text :: "tool_action \<Rightarrow> string" where
  "action_text Approve = ''approve''"
| "action_text RequireApproval = ''require_approval''"
| "action_text Block = ''block''"

definition TOOL_POLICY_ACTIONS :: "string list" where
  "TOOL_POLICY_ACTIONS = map action_text [Approve, RequireApproval, Block]"

fun is_tool_policy_action :: "jsval \<Rightarrow> bool" where
  "is_tool_policy_action (JStr s) \<longleftrightarrow> s \<in> set TOOL_POLICY_ACTIONS"
| "is_tool_policy_action _ \<longleftrightarrow> False"

section \<open>The policies as a contract\<close>

text \<open>The rows a context may see, and, unless it is read-only, change.\<close>

definition visible_owned :: "owner_ctx \<Rightarrow> row \<Rightarrow> bool" where
  "visible_owned c r \<longleftrightarrow> r ''tenant'' = JStr (oc_tenant c) \<and>
     (oc_reach c = TenantReach \<or> r ''owner'' = JStr ''org'' \<or>
      (\<exists>s. oc_subject c = Some s \<and> r ''owner'' = JStr ''user'' \<and> r ''subject'' = JStr s))"

definition visible_tenant :: "owner_ctx \<Rightarrow> row \<Rightarrow> bool" where
  "visible_tenant c r \<longleftrightarrow> r ''tenant'' = JStr (oc_tenant c)"

definition read_only :: "owner_ctx \<Rightarrow> bool" where
  "read_only c \<longleftrightarrow> oc_reach c = TenantReach \<or> oc_writes c = Denied"

lemma assert_reach_read_only_Inr [simp]:
  "assert_reach_read_only tn a (Some c) = Inr u \<longleftrightarrow> \<not> read_only c"
  by (auto simp: assert_reach_read_only_def read_only_def policy_violation_def)

lemma assert_reach_read_only_Inl:
  "read_only c \<Longrightarrow> \<exists>e. assert_reach_read_only tn a (Some c) = Inl e"
  by (auto simp: assert_reach_read_only_def read_only_def policy_violation_def)

lemma require_context_Some [simp]: "require_context tn a (Some c) = Inr c"
  by (simp add: require_context_def)

lemma owner_visibility_holds [simp]: "holds_cb r (owner_visibility_condition c) \<longleftrightarrow> visible_owned c r"
  by (auto simp: owner_visibility_condition_def visible_owned_def Let_def split: option.splits)

lemma assert_owner_writable_Inr:
  "assert_owner_writable tn vals (Some c) = Inr u \<longleftrightarrow>
   \<not> read_only c \<and> prop_of vals ''tenant'' = JStr (oc_tenant c) \<and>
   (prop_of vals ''owner'' = JStr ''org'' \<and> prop_of vals ''subject'' = JStr ORG_SUBJECT \<or>
    (\<exists>s. oc_subject c = Some s \<and> prop_of vals ''owner'' = JStr ''user'' \<and>
         prop_of vals ''subject'' = JStr s))"
  by (auto simp: assert_owner_writable_def err_bind_Inr Let_def policy_violation_def split: option.splits)

lemma visible_owned_created:
  assumes "assert_owner_writable tn vals (Some c) = Inr u"
    and "{''tenant'', ''owner'', ''subject''} \<subseteq> col_name ` set cols"
  shows "visible_owned c (apply_defaults auto cols vals)"
  using assms apply_defaults_given [of "''tenant''" cols vals auto]
    apply_defaults_given [of "''owner''" cols vals auto]
    apply_defaults_given [of "''subject''" cols vals auto]
  by (auto simp: assert_owner_writable_Inr visible_owned_def)

interpretation owned: guarded_table "owned_executor_table n cols" c "visible_owned c" for n cols c
proof unfold_locales
  fix w cw r
  assume "apply_read_policies (owned_executor_table n cols) w c = Inr cw"
  then show "meets cw r \<longleftrightarrow> matches_condition r w \<and> visible_owned c r"
    unfolding apply_read_policies_def
    by (rule apply_policies_meets [where v = "\<lambda>_. visible_owned c r", THEN trans])
      (auto simp: owned_executor_table_def)
next
  fix w cw r ps cr
  assume "apply_update_policies (owned_executor_table n cols) w ps cr c = Inr cw"
  then show "meets cw r \<longleftrightarrow> matches_condition r w \<and> visible_owned c r"
    unfolding apply_update_policies_def
    by (rule apply_policies_meets [where v = "\<lambda>_. visible_owned c r", THEN trans])
      (auto simp: owned_executor_table_def err_bind_Inr)
next
  fix w cw r
  assume "apply_delete_policies (owned_executor_table n cols) w c = Inr cw"
  then show "meets cw r \<longleftrightarrow> matches_condition r w \<and> visible_owned c r"
    unfolding apply_delete_policies_def
    by (rule apply_policies_meets [where v = "\<lambda>_. visible_owned c r", THEN trans])
      (auto simp: owned_executor_table_def err_bind_Inr)
next
  fix vals auto
  assume "run_create_policies (owned_executor_table n cols) vals c = Inr ()"
  then have "assert_owner_writable n vals (Some c) = Inr ()"
    by (simp add: run_create_policies_def owned_executor_table_def err_bind_Inr)
  then show "visible_owned c (apply_defaults auto (tbl_columns (owned_executor_table n cols)) vals)"
    by (rule visible_owned_created) (simp add: owned_executor_table_def key_column_def)
qed

interpretation shared: guarded_table "tenant_executor_table n cols" c "visible_tenant c" for n cols c
proof unfold_locales
  fix w cw r
  assume "apply_read_policies (tenant_executor_table n cols) w c = Inr cw"
  then show "meets cw r \<longleftrightarrow> matches_condition r w \<and> visible_tenant c r"
    unfolding apply_read_policies_def
    by (rule apply_policies_meets [where v = "\<lambda>_. visible_tenant c r", THEN trans])
      (auto simp: tenant_executor_table_def visible_tenant_def)
next
  fix w cw r ps cr
  assume "apply_update_policies (tenant_executor_table n cols) w ps cr c = Inr cw"
  then show "meets cw r \<longleftrightarrow> matches_condition r w \<and> visible_tenant c r"
    unfolding apply_update_policies_def
    by (rule apply_policies_meets [where v = "\<lambda>_. visible_tenant c r", THEN trans])
      (auto simp: tenant_executor_table_def visible_tenant_def err_bind_Inr)
next
  fix w cw r
  assume "apply_delete_policies (tenant_executor_table n cols) w c = Inr cw"
  then show "meets cw r \<longleftrightarrow> matches_condition r w \<and> visible_tenant c r"
    unfolding apply_delete_policies_def
    by (rule apply_policies_meets [where v = "\<lambda>_. visible_tenant c r", THEN trans])
      (auto simp: tenant_executor_table_def visible_tenant_def err_bind_Inr)
next
  fix vals auto
  assume "run_create_policies (tenant_executor_table n cols) vals c = Inr ()"
  then have "prop_of vals ''tenant'' = JStr (oc_tenant c)"
    by (auto simp: run_create_policies_def tenant_executor_table_def err_bind_Inr split: if_splits)
  then show "visible_tenant c (apply_defaults auto (tbl_columns (tenant_executor_table n cols)) vals)"
    using apply_defaults_given [of "''tenant''" "tbl_columns (tenant_executor_table n cols)" vals auto]
    by (simp add: visible_tenant_def tenant_executor_table_def key_column_def)
qed

interpretation unscoped: guarded_table "unscoped_executor_table n cols" c "\<lambda>_. True" for n cols c
proof unfold_locales
  fix w cw r
  assume "apply_read_policies (unscoped_executor_table n cols) w c = Inr cw"
  then show "meets cw r \<longleftrightarrow> matches_condition r w \<and> True"
    by (auto simp: apply_read_policies_def unscoped_executor_table_def merge_policy_condition_def)
next
  fix w cw r ps cr
  assume "apply_update_policies (unscoped_executor_table n cols) w ps cr c = Inr cw"
  then show "meets cw r \<longleftrightarrow> matches_condition r w \<and> True"
    by (auto simp: apply_update_policies_def unscoped_executor_table_def merge_policy_condition_def)
next
  fix w cw r
  assume "apply_delete_policies (unscoped_executor_table n cols) w c = Inr cw"
  then show "meets cw r \<longleftrightarrow> matches_condition r w \<and> True"
    by (auto simp: apply_delete_policies_def unscoped_executor_table_def merge_policy_condition_def)
qed simp

section \<open>Isolation at the storage boundary\<close>

text \<open>A patch that writes none of the partition columns.\<close>

definition partition_free :: "record_vals \<Rightarrow> bool" where
  "partition_free ps \<longleftrightarrow> list_all (\<lambda>(k, _). k \<notin> {''tenant'', ''owner'', ''subject''}) ps"

lemma partition_free_simps [simp]:
  "partition_free []"
  "partition_free ((k, v) # ps) \<longleftrightarrow> k \<notin> {''tenant'', ''owner'', ''subject''} \<and> partition_free ps"
  "partition_free (ps @ qs) \<longleftrightarrow> partition_free ps \<and> partition_free qs"
  by (simp_all add: partition_free_def)

lemma partition_free_keeps:
  assumes "partition_free ps" "k \<in> {''tenant'', ''owner'', ''subject''}"
  shows "obj_assign r ps k = r k"
  using assms by (intro obj_assign_other) (auto simp: partition_free_def list_all_iff)

lemma owned_stays: "partition_free ps \<Longrightarrow> owned.stays c ps"
  unfolding owned.stays_def by (simp add: visible_owned_def partition_free_keeps)

lemma shared_stays: "partition_free ps \<Longrightarrow> shared.stays c ps"
  unfolding shared.stays_def by (simp add: visible_tenant_def partition_free_keeps)

lemma tbl_name_simps [simp]:
  "tbl_name (owned_executor_table n cols) = n"
  "tbl_name (tenant_executor_table n cols) = n"
  "tbl_name (unscoped_executor_table n cols) = n"
  by (simp_all add: owned_executor_table_def tenant_executor_table_def unscoped_executor_table_def)

text \<open>A patch that says where it puts a row: it writes a subject only with the owner, and the owner as one of the two
  there are.\<close>

definition names_partition :: "record_vals \<Rightarrow> bool" where
  "names_partition ps \<longleftrightarrow>
     distinct (map fst ps) \<and>
     (''tenant'' \<in> fst ` set ps \<longrightarrow> prop_of ps ''tenant'' \<noteq> JUndef) \<and>
     (''subject'' \<in> fst ` set ps \<longrightarrow> ''owner'' \<in> fst ` set ps) \<and>
     (''owner'' \<in> fst ` set ps \<longrightarrow> prop_of ps ''owner'' \<in> {JStr ''org'', JStr ''user''})"

lemma obj_assign_prop: "distinct (map fst ps) \<Longrightarrow> k \<in> fst ` set ps \<Longrightarrow> obj_assign r ps k = prop_of ps k"
proof -
  assume d: "distinct (map fst ps)" and "k \<in> fst ` set ps"
  then obtain v where "map_of ps k = Some v" using map_of_eq_None_iff [of ps k] by auto
  then show ?thesis using obj_assign_idem [OF d map_of_SomeD] by (simp add: prop_of_def)
qed

lemma prop_of_absent: "k \<notin> fst ` set ps \<Longrightarrow> prop_of ps k = JUndef"
  using map_of_eq_None_iff [of ps k] by (simp add: prop_of_def)

lemma assert_owner_patch_Inr:
  "assert_owner_patch tn (Some ps) (Some c) = Inr u \<longleftrightarrow>
   \<not> read_only c \<and> (prop_of ps ''tenant'' \<noteq> JUndef \<longrightarrow> prop_of ps ''tenant'' = JStr (oc_tenant c)) \<and>
   (prop_of ps ''owner'' = JStr ''user'' \<longrightarrow> (\<exists>s. oc_subject c = Some s \<and> prop_of ps ''subject'' = JStr s))"
  by (auto simp: assert_owner_patch_def err_bind_Inr Let_def policy_violation_def split: option.splits)

lemma guarded_patch_stays:
  assumes "names_partition ps" "assert_owner_patch tn (Some ps) (Some c) = Inr ()"
  shows "owned.stays c ps"
  unfolding owned.stays_def
proof (intro allI impI)
  fix r assume vis: "visible_owned c r"
  let ?r = "obj_assign r ps"
  have d: "distinct (map fst ps)" using assms(1) by (simp add: names_partition_def)
  have tenant: "?r ''tenant'' = JStr (oc_tenant c)"
    using assms vis by (cases "''tenant'' \<in> fst ` set ps")
      (auto simp: names_partition_def assert_owner_patch_Inr obj_assign_prop [OF d] obj_assign_other visible_owned_def)
  show "visible_owned c ?r"
  proof (cases "''owner'' \<in> fst ` set ps")
    case False
    then have "''subject'' \<notin> fst ` set ps" using assms(1) by (auto simp: names_partition_def)
    with False tenant vis show ?thesis by (simp add: visible_owned_def obj_assign_other)
  next
    case True
    then consider "prop_of ps ''owner'' = JStr ''org''" | "prop_of ps ''owner'' = JStr ''user''"
      using assms(1) by (auto simp: names_partition_def)
    then show ?thesis
    proof cases
      case 1
      with True tenant show ?thesis by (simp add: visible_owned_def obj_assign_prop [OF d])
    next
      case 2
      then obtain s where s: "oc_subject c = Some s" "prop_of ps ''subject'' = JStr s"
        using assms(2) by (auto simp: assert_owner_patch_Inr)
      then have "''subject'' \<in> fst ` set ps" using prop_of_absent [of "''subject''" ps] by auto
      with True 2 s tenant show ?thesis by (simp add: visible_owned_def obj_assign_prop [OF d])
    qed
  qed
qed

lemma owned_update_guard:
  "apply_update_policies (owned_executor_table n cols) w ps cr c = Inr cw \<Longrightarrow> assert_owner_patch n (Some ps) (Some c) = Inr ()"
  by (auto simp: apply_update_policies_def owned_executor_table_def err_bind_Inr split: sum.splits)

lemma owned_update_confined:
  assumes "names_partition ps"
  shows "filter (\<lambda>r. \<not> visible_owned c r) (snd (orm_update_many (owned_executor_table n cols) c w ps d) n) =
      filter (\<lambda>r. \<not> visible_owned c r) (d n)"
    and "filter (\<lambda>r. \<not> visible_owned c r) (snd (orm_upsert auto (owned_executor_table n cols) c w ps vals d) n) =
      filter (\<lambda>r. \<not> visible_owned c r) (d n)"
proof -
  show "filter (\<lambda>r. \<not> visible_owned c r) (snd (orm_update_many (owned_executor_table n cols) c w ps d) n) =
      filter (\<lambda>r. \<not> visible_owned c r) (d n)"
  proof (cases "owned.stays c ps")
    case True
    from owned.update_many_unseen [where n = n, OF this] show ?thesis by simp
  next
    case False
    then have "apply_update_policies (owned_executor_table n cols) w' ps cr c \<noteq> Inr cw" for w' cr cw
      using guarded_patch_stays [OF assms] owned_update_guard by blast
    then show ?thesis by (auto simp: orm_update_many_def split: option.splits sum.splits)
  qed
  show "filter (\<lambda>r. \<not> visible_owned c r) (snd (orm_upsert auto (owned_executor_table n cols) c w ps vals d) n) =
      filter (\<lambda>r. \<not> visible_owned c r) (d n)"
  proof (cases "owned.stays c ps")
    case True
    from owned.upsert_unseen [where n = n, OF this] show ?thesis by simp
  next
    case False
    then have "apply_update_policies (owned_executor_table n cols) w' ps cr c \<noteq> Inr cw" for w' cr cw
      using guarded_patch_stays [OF assms] owned_update_guard by blast
    then show ?thesis by (auto simp: orm_upsert_def split: option.splits sum.splits)
  qed
qed

text \<open>C5: whatever write a context makes on an owned table, a create, an update, an upsert or a delete, the
  rows it cannot see come out unchanged, in the same order, and so does every other table. The patch of an update
  may move a row, as long as it says where to: a subject only with the owner, and as the owner one of the two
  there are; the guard then keeps it in the bound partition. (A patch that writes the subject alone passes the
  guard and escapes: \<open>subject_patch_escapes\<close>.)\<close>

theorem owned_write_isolation:
  assumes "names_partition ps"
  shows "\<forall>d' \<in> {snd (orm_create auto (owned_executor_table n cols) c vals d),
                snd (orm_create_many autos (owned_executor_table n cols) c vs d),
                snd (orm_update_many (owned_executor_table n cols) c w ps d),
                snd (orm_upsert auto (owned_executor_table n cols) c w ps vals d),
                snd (orm_delete_many (owned_executor_table n cols) c w d)}.
           filter (\<lambda>r. \<not> visible_owned c r) (d' n) = filter (\<lambda>r. \<not> visible_owned c r) (d n) \<and>
           (\<forall>t. t \<noteq> n \<longrightarrow> d' t = d t)"
  using owned_update_confined [OF assms] owned.create_unseen [where n = n] owned.create_other [where n = n]
    owned.create_many_unseen [where n = n] owned.create_many_other [where n = n]
    owned.update_many_other [where n = n] owned.upsert_other [where n = n]
    owned.delete_many_unseen [where n = n] owned.delete_many_other [where n = n]
  by simp

definition alice :: owner_ctx where
  "alice = \<lparr>oc_tenant = ''acme'', oc_subject = Some ''alice'', oc_reach = Bound, oc_writes = Allowed\<rparr>"

definition user_row :: "string \<Rightarrow> string \<Rightarrow> row" where
  "user_row tn s = obj_assign (\<lambda>_. JUndef)
     [(''tenant'', JStr tn), (''owner'', JStr ''user''), (''subject'', JStr s)]"

lemma owned_write_isolation_witness:
  "filter (\<lambda>r. \<not> visible_owned alice r)
     (snd (orm_update_many (owned_executor_table ''tool'' []) alice None
        [(''owner'', JStr ''user''), (''subject'', JStr ''alice''), (''name'', JNull)]
        (\<lambda>_. [user_row ''acme'' ''alice'', user_row ''acme'' ''bob''])) ''tool'') =
   [user_row ''acme'' ''bob'']"
  using owned_write_isolation [of "[(''owner'', JStr ''user''), (''subject'', JStr ''alice''), (''name'', JNull)]" "[]" "''tool''" "[]" alice "[]"
      "\<lambda>_. [user_row ''acme'' ''alice'', user_row ''acme'' ''bob'']" "\<lambda>_. []" "[]" None]
  by (simp add: alice_def user_row_def visible_owned_def names_partition_def)

text \<open>C4: reading an owned table through a context gives the same answer on any two databases whose
  rows visible to that context agree: nothing of another subject or tenant leaks into a read.\<close>

theorem owned_read_isolation:
  assumes "filter (visible_owned c) (d n) = filter (visible_owned c) (d' n)"
  shows "orm_find_many (owned_executor_table n cols) c fi d = orm_find_many (owned_executor_table n cols) c fi d' \<and>
         orm_find_first (owned_executor_table n cols) c fi d = orm_find_first (owned_executor_table n cols) c fi d' \<and>
         orm_count (owned_executor_table n cols) c w d = orm_count (owned_executor_table n cols) c w d'"
  using assms owned.find_many_seen [of c d n cols d' fi] owned.find_first_seen [of c d n cols d' fi]
    owned.count_seen [of c d n cols d' w] by simp_all

lemma owned_read_isolation_witness:
  "orm_find_many (owned_executor_table ''tool'' []) alice find_all
     (\<lambda>_. [user_row ''acme'' ''bob'', user_row ''acme'' ''alice'']) =
   orm_find_many (owned_executor_table ''tool'' []) alice find_all
     (\<lambda>_. [user_row ''acme'' ''alice'', user_row ''other'' ''alice''])"
  by (rule owned_read_isolation [THEN conjunct1]) (simp add: alice_def user_row_def visible_owned_def)

lemma owned_policies_read_only:
  assumes "read_only c"
  shows "\<exists>e. run_create_policies (owned_executor_table n cols) vals c = Inl e"
    and "\<exists>e. apply_update_policies (owned_executor_table n cols) w ps cr c = Inl e"
    and "\<exists>e. apply_delete_policies (owned_executor_table n cols) w c = Inl e"
proof -
  obtain e1 e2 where "assert_reach_read_only n ''write'' (Some c) = Inl e1"
    "assert_reach_read_only n ''delete'' (Some c) = Inl e2"
    using assert_reach_read_only_Inl [OF assms] by meson
  then show "\<exists>e. run_create_policies (owned_executor_table n cols) vals c = Inl e"
    "\<exists>e. apply_update_policies (owned_executor_table n cols) w ps cr c = Inl e"
    "\<exists>e. apply_delete_policies (owned_executor_table n cols) w c = Inl e"
    by (simp_all add: run_create_policies_def apply_update_policies_def apply_delete_policies_def
        owned_executor_table_def assert_owner_writable_def assert_owner_patch_def)
qed

lemma shared_policies_read_only:
  assumes "read_only c"
  shows "\<exists>e. run_create_policies (tenant_executor_table n cols) vals c = Inl e"
    and "\<exists>e. apply_update_policies (tenant_executor_table n cols) w ps cr c = Inl e"
    and "\<exists>e. apply_delete_policies (tenant_executor_table n cols) w c = Inl e"
proof -
  obtain e1 e2 where "assert_reach_read_only n ''write'' (Some c) = Inl e1"
    "assert_reach_read_only n ''delete'' (Some c) = Inl e2"
    using assert_reach_read_only_Inl [OF assms] by meson
  then show "\<exists>e. run_create_policies (tenant_executor_table n cols) vals c = Inl e"
    "\<exists>e. apply_update_policies (tenant_executor_table n cols) w ps cr c = Inl e"
    "\<exists>e. apply_delete_policies (tenant_executor_table n cols) w c = Inl e"
    by (simp_all add: run_create_policies_def apply_update_policies_def apply_delete_policies_def
        tenant_executor_table_def)
qed

lemma denied_writes_keep_db:
  assumes "\<And>vals. \<exists>e. run_create_policies tbl vals c = Inl e"
    and "\<And>w ps cr. \<exists>e. apply_update_policies tbl w ps cr c = Inl e"
    and "\<And>w. \<exists>e. apply_delete_policies tbl w c = Inl e"
  shows "snd (orm_create auto tbl c vals d) = d" "snd (orm_create_many autos tbl c vs d) = d"
    "snd (orm_update_many tbl c w ps d) = d" "snd (orm_upsert auto tbl c w ps vals d) = d"
    "snd (orm_delete_many tbl c w d) = d" "\<exists>e. fst (orm_create auto tbl c vals d) = Inl e"
proof -
  obtain e where "run_create_policies tbl vals c = Inl e" using assms(1) by blast
  then show "snd (orm_create auto tbl c vals d) = d" "\<exists>e. fst (orm_create auto tbl c vals d) = Inl e"
    by (simp_all add: orm_create_def)
  show "snd (orm_create_many autos tbl c vs d) = d"
    using assms(1) by (cases vs) (auto simp: orm_create_many_def split: sum.splits, metis sum.distinct(1) err_bind_Inr)
  show "snd (orm_update_many tbl c w ps d) = d"
    using assms(2) by (auto simp: orm_update_many_def split: option.splits sum.splits) (metis sum.distinct(1))+
  show "snd (orm_upsert auto tbl c w ps vals d) = d"
    using assms(2) by (auto simp: orm_upsert_def split: option.splits sum.splits) (metis sum.distinct(1))+
  show "snd (orm_delete_many tbl c w d) = d"
    using assms(3) by (auto simp: orm_delete_many_def split: option.splits sum.splits) (metis sum.distinct(1))+
qed

text \<open>A read-only context (the platform view, or a context whose writes are denied) changes no
  row of an owned or tenant-shared table, whatever it asks for, and a create fails.\<close>

theorem platform_view_read_only:
  assumes "read_only c" "tbl = owned_executor_table n cols \<or> tbl = tenant_executor_table n cols"
  shows "snd (orm_create auto tbl c vals d) = d \<and> snd (orm_create_many autos tbl c vs d) = d \<and>
         snd (orm_update_many tbl c w ps d) = d \<and> snd (orm_upsert auto tbl c w ps vals d) = d \<and>
         snd (orm_delete_many tbl c w d) = d \<and> (\<exists>e. fst (orm_create auto tbl c vals d) = Inl e)"
  using assms(2) denied_writes_keep_db [OF owned_policies_read_only [OF assms(1)]]
    denied_writes_keep_db [OF shared_policies_read_only [OF assms(1)]] by auto

lemma platform_view_read_only_witness:
  "snd (orm_delete_many (owned_executor_table ''connection'' []) (alice\<lparr>oc_reach := TenantReach\<rparr>) None
     (\<lambda>_. [user_row ''acme'' ''bob''])) = (\<lambda>_. [user_row ''acme'' ''bob''])"
  using platform_view_read_only [of "alice\<lparr>oc_reach := TenantReach\<rparr>"
      "owned_executor_table ''connection'' []" "''connection''" "[]"]
  by (simp add: read_only_def)

text \<open>The guard on patches does not keep a row in the bound partition: a patch that sets
  only \<open>subject\<close> passes it, and the row leaves the sight of the context that wrote it.\<close>

theorem subject_patch_escapes:
  "case orm_update_many connection_table alice None [(''subject'', JStr ''bob'')]
      (\<lambda>_. [user_row ''acme'' ''alice'']) of (res, d) \<Rightarrow>
     res = Inr () \<and> d ''connection'' = [user_row ''acme'' ''bob''] \<and>
     \<not> visible_owned alice (user_row ''acme'' ''bob'')"
  by (simp add: orm_update_many_def compile_where_def apply_update_policies_def connection_table_def
      owned_executor_table_def assert_owner_patch_def assert_reach_read_only_def
      owner_visibility_condition_def alice_def user_row_def mem_update_many_def visible_owned_def
      merge_policy_condition_def builder_and_def builder_or_def cmp_val_def fun_upd_twist)

end
