(* ===== verification/Effects.thy ===== *)
theory Effects
  imports OwnerPolicy
begin

text \<open>
  Effects over the storage client (\<open>sdk/src/fuma-runtime.ts\<close> and \<open>makeCoreDb\<close> in
  \<open>sdk/src/executor.ts\<close>): an effect is a function of the world that fails or returns, and
  hands back the world. The world holds the database, the readings of the clock and of the id
  generator used so far, the active transaction with its post-commit hooks, the
  notifications delivered, the process-local memory of the principals sighted (\<open>lastTouchedAt\<close>), and the state of the outside (providers, plugins, remote servers)
  as \<open>'x\<close>. Spans, logging and interruption are left out.
\<close>

datatype failure =
    FStorage storage_error
  | FIntegrationNotFound string
  | FIntegrationRemovalNotAllowed string
  | FConnectionNotFound string string string
  | FProviderNotRegistered string
  | FInvalidConnectionInput string
  | FCredentialResolution "string \<times> string \<times> string" string "string option" bool
  | FToolNotFound string "string list option"
  | FToolBlocked string string
  | FToolInvocation string failure
  | FElicitationDeclined string string
  | FNoHandler string string
  | FPluginNotLoaded string string
  | FArtifactNotFound string
  | FForeign jsval

fun is_storage_failure :: "failure \<Rightarrow> bool" where
  "is_storage_failure (FStorage _) \<longleftrightarrow> True"
| "is_storage_failure _ \<longleftrightarrow> False"

definition storage_failure_from :: "string \<Rightarrow> failure \<Rightarrow> failure" where
  "storage_failure_from msg cause =
     (if is_storage_failure cause then cause else FStorage (StorageError msg))"

record 'x world =
  w_db :: db
  w_ids :: nat
  w_clock :: nat
  w_tx :: bool
  w_hooks :: "jsval list"
  w_delivered :: "jsval list"
  w_touched :: "(string \<times> int) list"
  w_ext :: 'x

type_synonym ('x, 'a) eff = "'x world \<Rightarrow> (failure + 'a) \<times> 'x world"

record base_env =
  e_ctx :: owner_ctx
  e_auto :: "nat \<Rightarrow> string"
  e_now :: "nat \<Rightarrow> int"

section \<open>Combinators\<close>

definition eff_return :: "'a \<Rightarrow> ('x, 'a) eff" where
  "eff_return a w = (Inr a, w)"

definition eff_fail :: "failure \<Rightarrow> ('x, 'a) eff" where
  "eff_fail e w = (Inl e, w)"

definition eff_bind :: "('x, 'a) eff \<Rightarrow> ('a \<Rightarrow> ('x, 'b) eff) \<Rightarrow> ('x, 'b) eff" where
  "eff_bind m f w = (case m w of (Inl e, w') \<Rightarrow> (Inl e, w') | (Inr a, w') \<Rightarrow> f a w')"

definition eff_then :: "('x, 'a) eff \<Rightarrow> ('x, 'b) eff \<Rightarrow> ('x, 'b) eff" where
  "eff_then m n = eff_bind m (\<lambda>_. n)"

definition eff_map :: "('a \<Rightarrow> 'b) \<Rightarrow> ('x, 'a) eff \<Rightarrow> ('x, 'b) eff" where
  "eff_map f m = eff_bind m (\<lambda>a. eff_return (f a))"

text \<open>\<open>Effect.catch\<close>: the handler runs on the failure, in the world the failure left.\<close>

definition eff_catch :: "('x, 'a) eff \<Rightarrow> (failure \<Rightarrow> ('x, 'a) eff) \<Rightarrow> ('x, 'a) eff" where
  "eff_catch m h w = (case m w of (Inl e, w') \<Rightarrow> h e w' | (Inr a, w') \<Rightarrow> (Inr a, w'))"

text \<open>\<open>Effect.result\<close> and \<open>Effect.exit\<close>: the outcome as a value.\<close>

definition eff_result :: "('x, 'a) eff \<Rightarrow> ('x, failure + 'a) eff" where
  "eff_result m w = (case m w of (r, w') \<Rightarrow> (Inr r, w'))"

definition eff_ignore :: "('x, 'a) eff \<Rightarrow> ('x, unit) eff" where
  "eff_ignore m w = (case m w of (_, w') \<Rightarrow> (Inr (), w'))"

definition eff_lift :: "failure + 'a \<Rightarrow> ('x, 'a) eff" where
  "eff_lift r w = (r, w)"

definition eff_when :: "bool \<Rightarrow> ('x, unit) eff \<Rightarrow> ('x, unit) eff" where
  "eff_when b m = (if b then m else eff_return ())"

fun eff_mapM :: "('a \<Rightarrow> ('x, 'b) eff) \<Rightarrow> 'a list \<Rightarrow> ('x, 'b list) eff" where
  "eff_mapM f [] = eff_return []"
| "eff_mapM f (a # as) = eff_bind (f a) (\<lambda>b. eff_bind (eff_mapM f as) (\<lambda>bs. eff_return (b # bs)))"

fun eff_iter :: "('a \<Rightarrow> ('x, 'b) eff) \<Rightarrow> 'a list \<Rightarrow> ('x, unit) eff" where
  "eff_iter f [] = eff_return ()"
| "eff_iter f (a # as) = eff_bind (f a) (\<lambda>_. eff_iter f as)"

definition now :: "'b base_env_scheme \<Rightarrow> ('x, int) eff" where
  "now env w = (Inr (e_now env (w_clock w)), w\<lparr>w_clock := Suc (w_clock w)\<rparr>)"

definition fresh_id :: "'b base_env_scheme \<Rightarrow> ('x, string) eff" where
  "fresh_id env w = (Inr (e_auto env (w_ids w)), w\<lparr>w_ids := Suc (w_ids w)\<rparr>)"

definition eff_map_error :: "(failure \<Rightarrow> failure) \<Rightarrow> ('x, 'a) eff \<Rightarrow> ('x, 'a) eff" where
  "eff_map_error f m = eff_catch m (\<lambda>e. eff_fail (f e))"

text \<open>\<open>Effect.tapError\<close>: run an effect that cannot fail on the failure, then fail with it.\<close>

definition eff_tap_error :: "('x, 'a) eff \<Rightarrow> (failure \<Rightarrow> ('x, unit) eff) \<Rightarrow> ('x, 'a) eff" where
  "eff_tap_error m h = eff_catch m (\<lambda>e. eff_bind (eff_result (h e)) (\<lambda>_. eff_fail e))"

text \<open>What a sequence that succeeded, or failed, has done.\<close>

lemma eff_return_apply [simp]: "eff_return a w = (Inr a, w)"
  by (simp add: eff_return_def)

lemma eff_fail_apply [simp]: "eff_fail e w = (Inl e, w)"
  by (simp add: eff_fail_def)

lemma eff_bind_Inr:
  "eff_bind m f w = (Inr b, w') \<longleftrightarrow> (\<exists>a v. m w = (Inr a, v) \<and> f a v = (Inr b, w'))"
  by (auto simp: eff_bind_def split: prod.splits sum.splits)

lemma eff_bind_Inl:
  "eff_bind m f w = (Inl e, w') \<longleftrightarrow> m w = (Inl e, w') \<or> (\<exists>a v. m w = (Inr a, v) \<and> f a v = (Inl e, w'))"
  by (auto simp: eff_bind_def split: prod.splits sum.splits)

lemma eff_map_Inr: "eff_map f m w = (Inr b, w') \<longleftrightarrow> (\<exists>a. m w = (Inr a, w') \<and> b = f a)"
  by (auto simp: eff_map_def eff_bind_Inr)

lemma run_pair: "fst x = r \<Longrightarrow> x = (r, snd x)"
  by (cases x) simp

lemma eff_bind_step: "m w = (Inr a, v) \<Longrightarrow> eff_bind m f w = f a v"
  by (simp add: eff_bind_def)

lemma eff_bind_stop: "m w = (Inl e, v) \<Longrightarrow> eff_bind m f w = (Inl e, v)"
  by (simp add: eff_bind_def)

lemma eff_bind_return [simp]: "eff_bind (eff_return a) f = f a"
  by (simp add: fun_eq_iff eff_bind_def)

lemma eff_bind_fail [simp]: "eff_bind (eff_fail e) f = eff_fail e"
  by (simp add: fun_eq_iff eff_bind_def)

section \<open>Transactions and post-commit hooks\<close>

text \<open>
  A call inside an active transaction runs its effect in that transaction. The outermost one
  owns the hooks: they run after the commit, a failure rolls the database back and drops them.
\<close>

definition eff_transaction :: "('x, 'a) eff \<Rightarrow> ('x, 'a) eff" where
  "eff_transaction m w =
     (if w_tx w then m w
      else case m (w\<lparr>w_tx := True, w_hooks := []\<rparr>) of
        (Inr a, w') \<Rightarrow>
          (Inr a, w'\<lparr>w_tx := False, w_hooks := [], w_delivered := w_delivered w' @ w_hooks w'\<rparr>)
      | (Inl e, w') \<Rightarrow> (Inl e, w'\<lparr>w_tx := False, w_hooks := [], w_db := w_db w\<rparr>))"

definition after_commit :: "jsval \<Rightarrow> ('x, unit) eff" where
  "after_commit ev w =
     (if w_tx w then (Inr (), w\<lparr>w_hooks := w_hooks w @ [ev]\<rparr>)
      else (Inr (), w\<lparr>w_delivered := w_delivered w @ [ev]\<rparr>))"

section \<open>The core database\<close>

definition storage :: "storage_error + 'a \<Rightarrow> failure + 'a" where
  "storage r = (case r of Inl e \<Rightarrow> Inl (FStorage e) | Inr a \<Rightarrow> Inr a)"

definition core_count :: "'b base_env_scheme \<Rightarrow> owner_ctx table \<Rightarrow> cond_or_bool option \<Rightarrow> ('x, nat) eff" where
  "core_count env tbl c w = (storage (orm_count tbl (e_ctx env) c (w_db w)), w)"

definition core_find_many :: "'b base_env_scheme \<Rightarrow> owner_ctx table \<Rightarrow> find_input \<Rightarrow> ('x, row list) eff" where
  "core_find_many env tbl fi w = (storage (orm_find_many tbl (e_ctx env) fi (w_db w)), w)"

definition core_find_first :: "'b base_env_scheme \<Rightarrow> owner_ctx table \<Rightarrow> find_input \<Rightarrow> ('x, row option) eff" where
  "core_find_first env tbl fi w = (storage (orm_find_first tbl (e_ctx env) fi (w_db w)), w)"

definition core_create :: "'b base_env_scheme \<Rightarrow> owner_ctx table \<Rightarrow> record_vals \<Rightarrow> ('x, row) eff" where
  "core_create env tbl vals w =
     (case orm_create (e_auto env (w_ids w)) tbl (e_ctx env) vals (w_db w) of
        (r, d) \<Rightarrow> (storage r, w\<lparr>w_db := d, w_ids := Suc (w_ids w)\<rparr>))"

definition core_create_many :: "'b base_env_scheme \<Rightarrow> owner_ctx table \<Rightarrow> record_vals list \<Rightarrow> ('x, unit) eff" where
  "core_create_many env tbl vs w =
     (if vs = [] then (Inr (), w)
      else case orm_create_many (\<lambda>n. e_auto env (w_ids w + n)) tbl (e_ctx env) vs (w_db w) of
        (r, d) \<Rightarrow> (map_sum id (\<lambda>_. ()) (storage r), w\<lparr>w_db := d, w_ids := w_ids w + length vs\<rparr>))"

definition core_delete_many :: "'b base_env_scheme \<Rightarrow> owner_ctx table \<Rightarrow> cond_or_bool option \<Rightarrow> ('x, unit) eff" where
  "core_delete_many env tbl c w =
     (case orm_delete_many tbl (e_ctx env) c (w_db w) of (r, d) \<Rightarrow> (storage r, w\<lparr>w_db := d\<rparr>))"

definition core_update_many ::
  "'b base_env_scheme \<Rightarrow> owner_ctx table \<Rightarrow> cond_or_bool option \<Rightarrow> record_vals \<Rightarrow> ('x, unit) eff" where
  "core_update_many env tbl c ps w =
     (case orm_update_many tbl (e_ctx env) c ps (w_db w) of (r, d) \<Rightarrow> (storage r, w\<lparr>w_db := d\<rparr>))"

section \<open>Confinement\<close>

text \<open>
  What an effect bound to a context may do: its outcome and the part of the world it can see
  depend only on that part, the rows it cannot see stay as they are, and a read-only context
  changes no row outside the blob store (whose table has no policy).
\<close>

definition vis_of :: "owner_ctx \<Rightarrow> string \<Rightarrow> row \<Rightarrow> bool" where
  "vis_of c t =
     (if t \<in> {''integration'', ''subject''} then visible_tenant c
      else if t = ''blob'' then (\<lambda>_. True)
      else visible_owned c)"

definition seen :: "owner_ctx \<Rightarrow> db \<Rightarrow> db" where
  "seen c d t = filter (vis_of c t) (d t)"

definition unseen :: "owner_ctx \<Rightarrow> db \<Rightarrow> db" where
  "unseen c d t = filter (\<lambda>r. \<not> vis_of c t r) (d t)"

definition agree :: "owner_ctx \<Rightarrow> 'x world \<Rightarrow> 'x world \<Rightarrow> bool" where
  "agree c w1 w2 \<longleftrightarrow> w1\<lparr>w_db := seen c (w_db w1)\<rparr> = w2\<lparr>w_db := seen c (w_db w2)\<rparr>"

definition spared :: "owner_ctx \<Rightarrow> db \<Rightarrow> db \<Rightarrow> bool" where
  "spared c d d' \<longleftrightarrow> unseen c d' = unseen c d \<and>
     (read_only c \<longrightarrow> (\<forall>t. t \<noteq> ''blob'' \<longrightarrow> d' t = d t))"

definition confined :: "owner_ctx \<Rightarrow> ('x, 'a) eff \<Rightarrow> bool" where
  "confined c m \<longleftrightarrow>
     (\<forall>w. spared c (w_db w) (w_db (snd (m w)))) \<and>
     (\<forall>w1 w2. agree c w1 w2 \<longrightarrow> fst (m w1) = fst (m w2) \<and> agree c (snd (m w1)) (snd (m w2)))"

named_theorems confined_intros \<open>confinement of effects, one rule per construct\<close>

lemma spared_refl [simp]: "spared c d d"
  by (simp add: spared_def)

lemma spared_trans: "spared c a b \<Longrightarrow> spared c b d \<Longrightarrow> spared c a d"
  by (simp add: spared_def)

lemma agree_refl [simp]: "agree c w w"
  by (simp add: agree_def)

lemma confinedI:
  assumes "\<And>w. spared c (w_db w) (w_db (snd (m w)))"
    and "\<And>w1 w2. agree c w1 w2 \<Longrightarrow> fst (m w1) = fst (m w2) \<and> agree c (snd (m w1)) (snd (m w2))"
  shows "confined c m"
  using assms by (simp add: confined_def)

lemma confined_return [confined_intros]: "confined c (eff_return a)"
  by (simp add: confined_def eff_return_def)

lemma confined_fail [confined_intros]: "confined c (eff_fail e)"
  by (simp add: confined_def eff_fail_def)

lemma confined_lift [confined_intros]: "confined c (eff_lift r)"
  by (simp add: confined_def eff_lift_def)

lemma confined_bind [confined_intros]:
  assumes "confined c m" "\<And>a. confined c (f a)"
  shows "confined c (eff_bind m f)"
proof (rule confinedI)
  fix w
  show "spared c (w_db w) (w_db (snd (eff_bind m f w)))"
  proof (cases "m w")
    case (Pair r w')
    have 1: "spared c (w_db w) (w_db w')" using assms(1) Pair by (metis confined_def snd_conv)
    show ?thesis
    proof (cases r)
      case (Inr a)
      have "spared c (w_db w') (w_db (snd (f a w')))" using assms(2) by (simp add: confined_def)
      with 1 Pair Inr show ?thesis by (auto simp: eff_bind_def intro: spared_trans)
    qed (use 1 Pair in \<open>simp add: eff_bind_def\<close>)
  qed
next
  fix w1 w2 :: "'a world"
  assume "agree c w1 w2"
  with assms(1) have m: "fst (m w1) = fst (m w2)" "agree c (snd (m w1)) (snd (m w2))"
    by (auto simp: confined_def)
  obtain r v1 v2 where v: "m w1 = (r, v1)" "m w2 = (r, v2)" using m(1) by (metis prod.collapse)
  have "fst (f a v1) = fst (f a v2) \<and> agree c (snd (f a v1)) (snd (f a v2))" for a
    using assms(2) m(2) v by (simp add: confined_def)
  with m v show "fst (eff_bind m f w1) = fst (eff_bind m f w2) \<and>
      agree c (snd (eff_bind m f w1)) (snd (eff_bind m f w2))"
    by (cases r) (simp_all add: eff_bind_def)
qed

text \<open>The continuation matters only for the outcomes the first effect can have.\<close>

lemma confined_bind_on:
  assumes "confined c m" "\<And>a w w'. m w = (Inr a, w') \<Longrightarrow> confined c (f a)"
  shows "confined c (eff_bind m f)"
proof -
  define g where "g a = (if \<exists>w w'. m w = (Inr a, w') then f a else eff_fail (FForeign JUndef))" for a
  have "eff_bind m f w = eff_bind m g w" for w
    by (cases "m w"; cases "fst (m w)") (auto simp: eff_bind_def g_def)
  then have "eff_bind m f = eff_bind m g" by (rule ext)
  moreover have "confined c (g a)" for a using assms(2) by (auto simp: g_def intro: confined_fail)
  ultimately show ?thesis using confined_bind [OF assms(1), of g] by simp
qed

lemma agree_iff:
  "agree c w1 w2 \<longleftrightarrow> seen c (w_db w1) = seen c (w_db w2) \<and> w_ids w1 = w_ids w2 \<and> w_clock w1 = w_clock w2 \<and>
     w_tx w1 = w_tx w2 \<and> w_hooks w1 = w_hooks w2 \<and> w_delivered w1 = w_delivered w2 \<and>
     w_touched w1 = w_touched w2 \<and> w_ext w1 = w_ext w2"
  unfolding agree_def by (cases w1; cases w2) auto

lemma confined_result [confined_intros]: "confined c m \<Longrightarrow> confined c (eff_result m)"
  unfolding confined_def eff_result_def by (auto split: prod.splits) (metis fst_conv snd_conv)+

lemma confined_then [confined_intros]: "confined c m \<Longrightarrow> confined c n \<Longrightarrow> confined c (eff_then m n)"
  unfolding eff_then_def by (intro confined_intros)

lemma confined_map [confined_intros]: "confined c m \<Longrightarrow> confined c (eff_map f m)"
  unfolding eff_map_def by (intro confined_intros)

lemma eff_catch_result:
  "eff_catch m h = eff_bind (eff_result m) (\<lambda>r. case r of Inl e \<Rightarrow> h e | Inr a \<Rightarrow> eff_return a)"
  by (auto simp: fun_eq_iff eff_catch_def eff_bind_def eff_result_def eff_return_def split: prod.splits sum.splits)

lemma eff_ignore_result: "eff_ignore m = eff_bind (eff_result m) (\<lambda>_. eff_return ())"
  by (auto simp: fun_eq_iff eff_ignore_def eff_bind_def eff_result_def eff_return_def split: prod.splits)

lemma confined_sum [confined_intros]:
  "(\<And>e. confined c (f e)) \<Longrightarrow> (\<And>a. confined c (g a)) \<Longrightarrow> confined c (case r of Inl e \<Rightarrow> f e | Inr a \<Rightarrow> g a)"
  by (cases r) auto

lemma confined_catch [confined_intros]:
  "confined c m \<Longrightarrow> (\<And>e. confined c (h e)) \<Longrightarrow> confined c (eff_catch m h)"
  unfolding eff_catch_result by (intro confined_intros)

lemma confined_ignore [confined_intros]: "confined c m \<Longrightarrow> confined c (eff_ignore m)"
  unfolding eff_ignore_result by (intro confined_intros)

lemma confined_map_error [confined_intros]: "confined c m \<Longrightarrow> confined c (eff_map_error f m)"
  unfolding eff_map_error_def by (intro confined_intros)

lemma confined_tap_error [confined_intros]:
  "confined c m \<Longrightarrow> (\<And>e. confined c (h e)) \<Longrightarrow> confined c (eff_tap_error m h)"
  unfolding eff_tap_error_def by (intro confined_intros)

lemma confined_if [confined_intros]:
  "(b \<Longrightarrow> confined c m) \<Longrightarrow> (\<not> b \<Longrightarrow> confined c n) \<Longrightarrow> confined c (if b then m else n)"
  by simp

lemma confined_when [confined_intros]: "(b \<Longrightarrow> confined c m) \<Longrightarrow> confined c (eff_when b m)"
  unfolding eff_when_def by (intro confined_intros)

lemma confined_option [confined_intros]:
  "(x = None \<Longrightarrow> confined c m) \<Longrightarrow> (\<And>a. x = Some a \<Longrightarrow> confined c (f a)) \<Longrightarrow>
   confined c (case x of None \<Rightarrow> m | Some a \<Rightarrow> f a)"
  by (cases x) auto

lemma confined_list [confined_intros]:
  "confined c m \<Longrightarrow> (\<And>a as. confined c (f a as)) \<Longrightarrow> confined c (case xs of [] \<Rightarrow> m | a # as \<Rightarrow> f a as)"
  by (cases xs) auto

lemma confined_prod [confined_intros]:
  "(\<And>a b. confined c (f a b)) \<Longrightarrow> confined c (case p of (a, b) \<Rightarrow> f a b)"
  by (cases p) auto

lemma confined_let [confined_intros]: "(\<And>a. confined c (f a)) \<Longrightarrow> confined c (let a = x in f a)"
  by simp

lemma confined_mapM [confined_intros]: "(\<And>a. confined c (f a)) \<Longrightarrow> confined c (eff_mapM f as)"
  by (induction as) (simp_all add: confined_intros)

lemma confined_iter [confined_intros]: "(\<And>a. confined c (f a)) \<Longrightarrow> confined c (eff_iter f as)"
  by (induction as) (simp_all add: confined_intros)

lemma confined_now [confined_intros]: "confined c (now env)"
  by (simp add: confined_def now_def agree_iff)

lemma confined_fresh_id [confined_intros]: "confined c (fresh_id env)"
  by (simp add: confined_def fresh_id_def agree_iff)

lemma confined_after_commit [confined_intros]: "confined c (after_commit ev)"
  by (simp add: confined_def after_commit_def agree_iff)

lemma confined_transaction [confined_intros]:
  assumes "confined c m"
  shows "confined c (eff_transaction m)"
proof (rule confinedI)
  fix w
  show "spared c (w_db w) (w_db (snd (eff_transaction m w)))"
  proof (cases "m (if w_tx w then w else w\<lparr>w_tx := True, w_hooks := []\<rparr>)")
    case (Pair r w')
    have "spared c (w_db v) (w_db (snd (m v)))" for v using assms by (simp add: confined_def)
    from this [of "if w_tx w then w else w\<lparr>w_tx := True, w_hooks := []\<rparr>"] Pair
    have "spared c (w_db w) (w_db w')" by (simp split: if_splits)
    with Pair show ?thesis by (cases r) (auto simp: eff_transaction_def split: if_splits)
  qed
next
  fix w1 w2 :: "'a world"
  assume a: "agree c w1 w2"
  show "fst (eff_transaction m w1) = fst (eff_transaction m w2) \<and>
    agree c (snd (eff_transaction m w1)) (snd (eff_transaction m w2))"
  proof (cases "w_tx w1")
    case True
    with a assms show ?thesis by (auto simp: eff_transaction_def confined_def agree_iff)
  next
    case False
    let ?v1 = "w1\<lparr>w_tx := True, w_hooks := []\<rparr>" and ?v2 = "w2\<lparr>w_tx := True, w_hooks := []\<rparr>"
    have "agree c ?v1 ?v2" using a by (simp add: agree_iff)
    with assms have m: "fst (m ?v1) = fst (m ?v2)" "agree c (snd (m ?v1)) (snd (m ?v2))"
      by (auto simp: confined_def)
    obtain r u1 u2 where "m ?v1 = (r, u1)" "m ?v2 = (r, u2)" using m(1) by (metis prod.collapse)
    with m(2) a False show ?thesis by (cases r) (auto simp: eff_transaction_def agree_iff)
  qed
qed

section \<open>The core database is confined\<close>

definition core_table :: "owner_ctx table \<Rightarrow> bool" where
  "core_table tbl \<longleftrightarrow>
     (\<exists>n cols. n \<in> {''integration'', ''subject''} \<and> tbl = tenant_executor_table n cols) \<or>
     (\<exists>n cols. n \<notin> {''integration'', ''subject'', ''blob''} \<and> tbl = owned_executor_table n cols) \<or>
     (\<exists>cols. tbl = unscoped_executor_table ''blob'' cols)"

lemma core_owned: "n \<notin> {''integration'', ''subject'', ''blob''} \<Longrightarrow> core_table (owned_executor_table n cols)"
  unfolding core_table_def by (rule disjI2, rule disjI1, rule exI, rule exI, rule conjI, assumption, rule refl)

lemma core_shared: "n \<in> {''integration'', ''subject''} \<Longrightarrow> core_table (tenant_executor_table n cols)"
  unfolding core_table_def by (rule disjI1, rule exI, rule exI, rule conjI, assumption, rule refl)

lemma core_blob: "core_table (unscoped_executor_table ''blob'' cols)"
  unfolding core_table_def by (rule disjI2, rule disjI2, rule exI, rule refl)

lemma core_tables [simp]:
  "core_table integration_table" "core_table subject_table" "core_table connection_table"
  "core_table oauth_client_table" "core_table oauth_session_table" "core_table tool_table"
  "core_table definition_table" "core_table tool_policy_table" "core_table artifact_table"
  "core_table plugin_storage_table" "core_table blob_table"
  unfolding integration_table_def subject_table_def connection_table_def
    oauth_client_table_def oauth_session_table_def tool_table_def definition_table_def
    tool_policy_table_def artifact_table_def plugin_storage_table_def blob_table_def
  by (rule core_owned core_shared core_blob; simp)+

lemma core_guarded: "core_table tbl \<Longrightarrow> guarded_table tbl c (vis_of c (tbl_name tbl))"
  unfolding core_table_def vis_of_def
  by (auto simp: owned.guarded_table_axioms shared.guarded_table_axioms unscoped.guarded_table_axioms)

lemma core_stays:
  "core_table tbl \<Longrightarrow> partition_free ps \<Longrightarrow> guarded_table.stays (vis_of c (tbl_name tbl)) ps"
  using owned_stays [of ps c] shared_stays [of ps c]
  by (auto simp: core_table_def vis_of_def guarded_table.stays_def [OF core_guarded]
      owned.stays_def shared.stays_def guarded_table.stays_def [OF unscoped.guarded_table_axioms])

lemma core_denied:
  assumes "core_table tbl" "tbl_name tbl \<noteq> ''blob''" "read_only c"
  shows "\<exists>e. run_create_policies tbl vals c = Inl e"
    and "\<exists>e. apply_update_policies tbl w ps cr c = Inl e"
    and "\<exists>e. apply_delete_policies tbl w c = Inl e"
  using assms owned_policies_read_only [OF assms(3)] shared_policies_read_only [OF assms(3)]
  unfolding core_table_def by auto

lemma core_read_only:
  assumes "core_table tbl" "tbl_name tbl \<noteq> ''blob''" "read_only c"
  shows "snd (orm_create auto tbl c vals d) = d" "snd (orm_create_many autos tbl c vs d) = d"
    "snd (orm_update_many tbl c w ps d) = d" "snd (orm_upsert auto tbl c w ps vals d) = d"
    "snd (orm_delete_many tbl c w d) = d"
  by (rule denied_writes_keep_db; rule core_denied [OF assms])+

lemma seen_at: "seen c d t = filter (vis_of c t) (d t)"
  and unseen_at: "unseen c d t = filter (\<lambda>r. \<not> vis_of c t r) (d t)"
  by (simp_all add: seen_def unseen_def)

lemma confined_dbop:
  assumes m: "\<And>w. m w = (g (fst (oper (w_ids w) (w_db w))),
                w\<lparr>w_db := snd (oper (w_ids w) (w_db w)), w_ids := w_ids w + k\<rparr>)"
    and other: "\<And>i d t. t \<noteq> n \<Longrightarrow> snd (oper i d) t = d t"
    and hidden: "\<And>i d. filter (\<lambda>r. \<not> vis_of c n r) (snd (oper i d) n) = filter (\<lambda>r. \<not> vis_of c n r) (d n)"
    and out: "\<And>i d d'. filter (vis_of c n) (d n) = filter (vis_of c n) (d' n) \<Longrightarrow>
                fst (oper i d) = fst (oper i d')"
    and shown: "\<And>i d d'. filter (vis_of c n) (d n) = filter (vis_of c n) (d' n) \<Longrightarrow>
                filter (vis_of c n) (snd (oper i d) n) = filter (vis_of c n) (snd (oper i d') n)"
    and ro: "\<And>i d. read_only c \<Longrightarrow> n \<noteq> ''blob'' \<Longrightarrow> snd (oper i d) = d"
  shows "confined c m"
proof (rule confinedI)
  fix w
  have "unseen c (snd (oper i d)) t = unseen c d t" for i d t
    using hidden [of i d] other [of t i d] by (cases "t = n") (simp_all add: unseen_at)
  moreover have "snd (oper i d) t = d t" if "read_only c" "t \<noteq> ''blob''" for i d t
    using other [of t i d] ro [OF that(1)] that(2) by (cases "t = n") auto
  ultimately show "spared c (w_db w) (w_db (snd (m w)))"
    by (simp add: m spared_def fun_eq_iff)
next
  fix w1 w2 :: "'a world"
  assume a: "agree c w1 w2"
  then have s: "filter (vis_of c t) (w_db w1 t) = filter (vis_of c t) (w_db w2 t)" for t
    by (metis agree_iff seen_at)
  have "seen c (snd (oper i (w_db w1))) t = seen c (snd (oper i (w_db w2))) t" for i t
    using shown [of "w_db w1" "w_db w2" i] other [of t i] s by (cases "t = n") (simp_all add: seen_at)
  moreover have "fst (oper i (w_db w1)) = fst (oper i (w_db w2))" for i
    using out [of "w_db w1" "w_db w2" i] s by simp
  ultimately show "fst (m w1) = fst (m w2) \<and> agree c (snd (m w1)) (snd (m w2))"
    using a by (simp add: m agree_iff fun_eq_iff)
qed

lemma confined_find_many [confined_intros]:
  assumes "core_table tbl"
  shows "confined (e_ctx env) (core_find_many env tbl fi)"
  by (rule confined_dbop [where oper = "\<lambda>_ d. (orm_find_many tbl (e_ctx env) fi d, d)"
        and n = "tbl_name tbl" and k = 0])
    (auto simp: core_find_many_def intro: guarded_table.find_many_seen [OF core_guarded [OF assms]])

lemma confined_find_first [confined_intros]:
  assumes "core_table tbl"
  shows "confined (e_ctx env) (core_find_first env tbl fi)"
  by (rule confined_dbop [where oper = "\<lambda>_ d. (orm_find_first tbl (e_ctx env) fi d, d)"
        and n = "tbl_name tbl" and k = 0])
    (auto simp: core_find_first_def intro: guarded_table.find_first_seen [OF core_guarded [OF assms]])

lemma confined_count [confined_intros]:
  assumes "core_table tbl"
  shows "confined (e_ctx env) (core_count env tbl q)"
  by (rule confined_dbop [where oper = "\<lambda>_ d. (orm_count tbl (e_ctx env) q d, d)"
        and n = "tbl_name tbl" and k = 0])
    (auto simp: core_count_def intro: guarded_table.count_seen [OF core_guarded [OF assms]])

lemma confined_create [confined_intros]:
  assumes "core_table tbl"
  shows "confined (e_ctx env) (core_create env tbl vals)"
  by (rule confined_dbop [where oper = "\<lambda>i. orm_create (e_auto env i) tbl (e_ctx env) vals"
        and n = "tbl_name tbl" and k = 1])
    (auto simp: core_create_def guarded_table.create_other [OF core_guarded [OF assms]]
      guarded_table.create_unseen [OF core_guarded [OF assms]] core_read_only [OF assms] split: prod.splits
      intro: guarded_table.create_seen [OF core_guarded [OF assms]])

lemma confined_create_many [confined_intros]:
  assumes "core_table tbl"
  shows "confined (e_ctx env) (core_create_many env tbl vs)"
proof (cases "vs = []")
  case True
  then show ?thesis by (simp add: confined_def core_create_many_def)
next
  case False
  then show ?thesis
    by (intro confined_dbop [where oper = "\<lambda>i. orm_create_many (\<lambda>n. e_auto env (i + n)) tbl (e_ctx env) vs"
          and n = "tbl_name tbl" and k = "length vs"])
      (auto simp: core_create_many_def guarded_table.create_many_other [OF core_guarded [OF assms]]
        guarded_table.create_many_unseen [OF core_guarded [OF assms]] core_read_only [OF assms] split: prod.splits
        intro: guarded_table.create_many_seen [OF core_guarded [OF assms]])
qed

lemma confined_delete_many [confined_intros]:
  assumes "core_table tbl"
  shows "confined (e_ctx env) (core_delete_many env tbl q)"
  by (rule confined_dbop [where oper = "\<lambda>_. orm_delete_many tbl (e_ctx env) q"
        and n = "tbl_name tbl" and k = 0])
    (auto simp: core_delete_many_def guarded_table.delete_many_other [OF core_guarded [OF assms]]
      guarded_table.delete_many_unseen [OF core_guarded [OF assms]] core_read_only [OF assms] split: prod.splits
      intro: guarded_table.delete_many_seen [OF core_guarded [OF assms]])

lemma confined_update_many [confined_intros]:
  assumes "core_table tbl" "partition_free ps"
  shows "confined (e_ctx env) (core_update_many env tbl q ps)"
  by (rule confined_dbop [where oper = "\<lambda>_. orm_update_many tbl (e_ctx env) q ps"
        and n = "tbl_name tbl" and k = 0])
    (auto simp: core_update_many_def guarded_table.update_many_other [OF core_guarded [OF assms(1)]]
      guarded_table.update_many_unseen [OF core_guarded [OF assms(1)] core_stays [OF assms]]
      core_read_only [OF assms(1)] split: prod.splits
      intro: guarded_table.update_many_seen [OF core_guarded [OF assms(1)] core_stays [OF assms]])

text \<open>After a step that a read-only context cannot pass, the rest need only be confined for the others.\<close>

lemma confined_bind_denied:
  assumes m: "confined c m" "read_only c \<Longrightarrow> (\<And>w. \<exists>e. fst (m w) = Inl e)"
    and f: "\<not> read_only c \<Longrightarrow> (\<And>a. confined c (f a))"
  shows "confined c (eff_bind m f)"
proof (cases "read_only c")
  case True
  have "eff_bind m f w = (Inl (projl (fst (m w))), snd (m w))" for w
    using m(2) [OF True, of w] by (cases "m w") (auto simp: eff_bind_def)
  then show ?thesis using m(1) unfolding confined_def by (metis fst_conv snd_conv)
qed (use m(1) f in \<open>auto intro: confined_bind\<close>)

lemma core_create_denied:
  assumes "core_table tbl" "tbl_name tbl \<noteq> ''blob''" "read_only (e_ctx env)"
  shows "\<exists>e. fst (core_create env tbl vals w) = Inl e"
  using core_denied(1) [OF assms, of vals]
  by (auto simp: core_create_def orm_create_def storage_def)

lemma core_update_denied:
  assumes "core_table tbl" "tbl_name tbl \<noteq> ''blob''" "read_only (e_ctx env)" "compile_where q \<noteq> None"
  shows "\<exists>e. fst (core_update_many env tbl q ps w) = Inl e"
proof -
  obtain x where "compile_where q = Some x" using assms(4) by blast
  with core_denied(2) [OF assms(1-3), of x ps None] show ?thesis
    by (auto simp: core_update_many_def orm_update_many_def storage_def)
qed

lemma core_delete_denied:
  assumes "core_table tbl" "tbl_name tbl \<noteq> ''blob''" "read_only (e_ctx env)" "compile_where q \<noteq> None"
  shows "\<exists>e. fst (core_delete_many env tbl q w) = Inl e"
proof -
  obtain x where "compile_where q = Some x" using assms(4) by blast
  with core_denied(3) [OF assms(1-3), of x] show ?thesis
    by (auto simp: core_delete_many_def orm_delete_many_def storage_def)
qed

text \<open>An effect that fails in every world, and how failing passes outwards.\<close>

definition always_fails :: "('x, 'a) eff \<Rightarrow> bool" where
  "always_fails m \<longleftrightarrow> (\<forall>w. \<exists>e. fst (m w) = Inl e)"

lemma always_fails_bind1: "always_fails m \<Longrightarrow> always_fails (eff_bind m f)"
  unfolding always_fails_def eff_bind_def by (auto split: prod.splits sum.splits) (metis fst_conv sum.distinct(1))

lemma always_fails_bind2: "(\<And>a. always_fails (f a)) \<Longrightarrow> always_fails (eff_bind m f)"
  unfolding always_fails_def eff_bind_def by (auto split: prod.splits sum.splits)

lemma always_fails_map: "always_fails m \<Longrightarrow> always_fails (eff_map f m)"
  unfolding eff_map_def by (rule always_fails_bind1)

lemma always_fails_transaction: "always_fails m \<Longrightarrow> always_fails (eff_transaction m)"
  unfolding always_fails_def eff_transaction_def by (auto split: prod.splits sum.splits) (metis fst_conv sum.distinct(1))

lemma confined_bind_failing:
  assumes "confined c m" "read_only c \<Longrightarrow> always_fails m" "\<not> read_only c \<Longrightarrow> (\<And>a. confined c (f a))"
  shows "confined c (eff_bind m f)"
  using assms by (intro confined_bind_denied) (auto simp: always_fails_def)

lemma core_names [simp]:
  "tbl_name integration_table = ''integration''" "tbl_name subject_table = ''subject''"
  "tbl_name connection_table = ''connection''" "tbl_name oauth_client_table = ''oauth_client''"
  "tbl_name oauth_session_table = ''oauth_session''" "tbl_name tool_table = ''tool''"
  "tbl_name definition_table = ''definition''" "tbl_name tool_policy_table = ''tool_policy''"
  "tbl_name artifact_table = ''artifact''" "tbl_name plugin_storage_table = ''plugin_storage''"
  "tbl_name blob_table = ''blob''"
  by (simp_all add: integration_table_def subject_table_def connection_table_def oauth_client_table_def
      oauth_session_table_def tool_table_def definition_table_def tool_policy_table_def artifact_table_def
      plugin_storage_table_def blob_table_def)

lemma always_fails_core_create:
  "core_table tbl \<Longrightarrow> tbl_name tbl \<noteq> ''blob'' \<Longrightarrow> read_only (e_ctx env) \<Longrightarrow>
   always_fails (core_create env tbl vals)"
  unfolding always_fails_def using core_create_denied by blast

lemma always_fails_core_update:
  "core_table tbl \<Longrightarrow> tbl_name tbl \<noteq> ''blob'' \<Longrightarrow> read_only (e_ctx env) \<Longrightarrow> compile_where q \<noteq> None \<Longrightarrow>
   always_fails (core_update_many env tbl q ps)"
  unfolding always_fails_def using core_update_denied by blast

end
