(* ===== verification/Addresses.thy ===== *)
theory Addresses
  imports ExecPrelude
begin

text \<open>
  Tool addresses \<open>tools.<integration>.<owner>.<connection>.<tool>\<close> (\<open>sdk/src/executor.ts\<close>)
  and the paths the sandbox calls, which drop the leading \<open>tools.\<close>
  (\<open>execution/src/tool-invoker.ts\<close>). The tool segment is the whole remainder and may hold dots.
\<close>

datatype owner = Org | User

fun owner_text :: "owner \<Rightarrow> string" where
  "owner_text Org = ''org''"
| "owner_text User = ''user''"

definition parse_owner :: "string \<Rightarrow> owner option" where
  "parse_owner s = (if s = ''org'' then Some Org else if s = ''user'' then Some User else None)"

record tool_ref =
  tr_integration :: string
  tr_owner :: owner
  tr_connection :: string
  tr_tool :: string

definition index_from :: "char \<Rightarrow> nat \<Rightarrow> string \<Rightarrow> nat option" where
  "index_from c start s = map_option ((+) start) (js_index_of c (drop start s))"

text \<open>The position after the \<open>n\<close>th next dot.\<close>

fun walk_dots :: "nat \<Rightarrow> nat \<Rightarrow> string \<Rightarrow> nat option" where
  "walk_dots 0 start s = Some start"
| "walk_dots (Suc n) start s =
     (case index_from (CHR ''.'') start s of None \<Rightarrow> None | Some i \<Rightarrow> walk_dots n (Suc i) s)"

definition parse_tool_address :: "string \<Rightarrow> tool_ref option" where
  "parse_tool_address address =
     (case walk_dots 4 0 address of
        None \<Rightarrow> None
      | Some start \<Rightarrow>
          (case js_split (CHR ''.'') (take (start - 1) address) of
             [prefix, integration, ow, connection] \<Rightarrow>
               let tool = drop start address in
               if prefix \<noteq> ''tools'' then None
               else (case parse_owner ow of
                   None \<Rightarrow> None
                 | Some o' \<Rightarrow>
                     if integration = [] \<or> connection = [] \<or> tool = [] then None
                     else Some \<lparr>tr_integration = integration, tr_owner = o',
                                tr_connection = connection, tr_tool = tool\<rparr>)
           | _ \<Rightarrow> None))"

definition connection_address :: "owner \<Rightarrow> string \<Rightarrow> string \<Rightarrow> string" where
  "connection_address ow integration connection =
     ''tools.'' @ integration @ ''.'' @ owner_text ow @ ''.'' @ connection"

definition tool_address :: "owner \<Rightarrow> string \<Rightarrow> string \<Rightarrow> string \<Rightarrow> string" where
  "tool_address ow integration connection tool =
     ''tools.'' @ integration @ ''.'' @ owner_text ow @ ''.'' @ connection @ ''.'' @ tool"

definition path_to_address :: "string \<Rightarrow> string" where
  "path_to_address path =
     (if js_starts_with path ''tools.'' then path
      else if parse_tool_address (''tools.'' @ path) \<noteq> None then ''tools.'' @ path
      else path)"

definition address_to_path :: "string \<Rightarrow> string" where
  "address_to_path a = (if js_starts_with a ''tools.'' then drop (length ''tools.'') a else a)"

definition extract_namespace :: "string \<Rightarrow> string" where
  "extract_namespace path =
     (let n = address_to_path path in
      case js_index_of (CHR ''.'') n of None \<Rightarrow> n | Some i \<Rightarrow> take i n)"

section \<open>Parsing inverts printing\<close>

lemma parse_owner_text [simp]: "parse_owner (owner_text ow) = Some ow"
  by (cases ow) (auto simp: parse_owner_def)

lemma parse_owner_Some: "parse_owner s = Some ow \<longleftrightarrow> s = owner_text ow"
  by (cases ow) (auto simp: parse_owner_def)

lemma owner_text_no_dot [simp]: "CHR ''.'' \<notin> set (owner_text ow)"
  by (cases ow) auto

lemma js_index_of_None: "js_index_of c s = None \<longleftrightarrow> c \<notin> set s"
  by (induction s) auto

lemma js_index_of_Some: "js_index_of c s = Some i \<longleftrightarrow> (\<exists>a b. s = a @ c # b \<and> c \<notin> set a \<and> i = length a)"
proof (induction s arbitrary: i)
  case (Cons x xs)
  show ?case
  proof (cases "x = c")
    case True
    then show ?thesis by (auto simp: Cons_eq_append_conv)
  next
    case False
    have "js_index_of c (x # xs) = Some i \<longleftrightarrow> (\<exists>j. js_index_of c xs = Some j \<and> i = Suc j)"
      using False by auto
    with Cons.IH False show ?thesis
      by (fastforce simp: Cons_eq_append_conv)
  qed
qed simp

lemma walk_dots_append:
  "c = CHR ''.'' \<Longrightarrow> c \<notin> set a \<Longrightarrow>
   walk_dots (Suc n) (length p) (p @ a @ c # b) = walk_dots n (Suc (length p + length a)) (p @ a @ c # b)"
proof -
  assume c: "c = CHR ''.''" "c \<notin> set a"
  then have "js_index_of c (a @ c # b) = Some (length a)" unfolding js_index_of_Some by blast
  with c(1) show ?thesis by (simp add: index_from_def)
qed

lemma walk_dots_SomeD:
  "walk_dots n (length p) (p @ s) = Some k \<Longrightarrow>
   \<exists>segments b. length segments = n \<and> (\<forall>x \<in> set segments. CHR ''.'' \<notin> set x) \<and>
     s = concat (map (\<lambda>x. x @ ''.'') segments) @ b \<and> k = length p + length (concat (map (\<lambda>x. x @ ''.'') segments))"
proof (induction n arbitrary: p s)
  case 0
  then show ?case by (intro exI [of _ "[]"] exI [of _ s]) simp
next
  case (Suc n)
  then obtain i where i: "js_index_of (CHR ''.'') s = Some i"
    by (auto simp: index_from_def split: option.splits)
  then obtain a b where ab: "s = a @ CHR ''.'' # b" "CHR ''.'' \<notin> set a" "i = length a"
    unfolding js_index_of_Some by blast
  with Suc.prems i have "walk_dots n (length (p @ a @ ''.'')) ((p @ a @ ''.'') @ b) = Some k"
    by (simp add: index_from_def)
  from Suc.IH [OF this] obtain segments b' where
    "length segments = n" "\<forall>x \<in> set segments. CHR ''.'' \<notin> set x"
    "b = concat (map (\<lambda>x. x @ ''.'') segments) @ b'"
    "k = length (p @ a @ ''.'') + length (concat (map (\<lambda>x. x @ ''.'') segments))" by blast
  with ab show ?case
    by (intro exI [of _ "a # segments"] exI [of _ b']) simp
qed

lemma walk_dots_segments:
  "\<forall>x \<in> set segments. CHR ''.'' \<notin> set x \<Longrightarrow>
   walk_dots (length segments) (length p) (p @ concat (map (\<lambda>x. x @ ''.'') segments) @ b) =
     Some (length p + length (concat (map (\<lambda>x. x @ ''.'') segments)))"
proof (induction segments arbitrary: p)
  case (Cons a as)
  have "walk_dots (Suc (length as)) (length p) (p @ a @ CHR ''.'' # concat (map (\<lambda>x. x @ ''.'') as) @ b) =
        walk_dots (length as) (length (p @ a @ ''.'')) ((p @ a @ ''.'') @ concat (map (\<lambda>x. x @ ''.'') as) @ b)"
    using Cons.prems by (subst walk_dots_append) auto
  also have "\<dots> = Some (length (p @ a @ ''.'') + length (concat (map (\<lambda>x. x @ ''.'') as)))"
    using Cons.IH [of "p @ a @ ''.''"] Cons.prems by simp
  finally show ?case by simp
qed simp

lemma split_butlast_segments:
  assumes "\<forall>x \<in> set segments. CHR ''.'' \<notin> set x" "segments \<noteq> []"
  shows "js_split (CHR ''.'') (take (length (concat (map (\<lambda>x. x @ ''.'') segments)) - 1)
           (concat (map (\<lambda>x. x @ ''.'') segments) @ b)) = segments"
proof -
  have "concat (map (\<lambda>x. x @ ''.'') ss) = js_join ''.'' ss @ ''.''" if "ss \<noteq> []" for ss :: "string list"
    using that
  proof (induction ss)
    case (Cons x xs)
    then show ?case by (cases xs) auto
  qed simp
  with assms show ?thesis by (simp add: js_split_join)
qed

definition four_segments :: "owner \<Rightarrow> string \<Rightarrow> string \<Rightarrow> string list" where
  "four_segments ow i c = [''tools'', i, owner_text ow, c]"

lemma tool_address_segments:
  "tool_address ow i c t = concat (map (\<lambda>x. x @ ''.'') (four_segments ow i c)) @ t"
  by (simp add: tool_address_def four_segments_def)

lemma parse_tool_address_print:
  assumes "CHR ''.'' \<notin> set i" "CHR ''.'' \<notin> set c" "i \<noteq> []" "c \<noteq> []" "t \<noteq> []"
  shows "parse_tool_address (tool_address ow i c t) =
    Some \<lparr>tr_integration = i, tr_owner = ow, tr_connection = c, tr_tool = t\<rparr>"
proof -
  define ss where "ss = four_segments ow i c"
  define pre where "pre = concat (map (\<lambda>x. x @ ''.'') ss)"
  have nodot: "\<forall>x \<in> set ss. CHR ''.'' \<notin> set x" using assms by (simp add: ss_def four_segments_def)
  have ss: "ss = [''tools'', i, owner_text ow, c]" by (simp add: ss_def four_segments_def)
  have walk: "walk_dots 4 0 (pre @ t) = Some (length pre)"
  proof -
    have "length ss = 4" using ss by simp
    with walk_dots_segments [OF nodot, of "[]" t, folded pre_def] show ?thesis by simp
  qed
  have split: "js_split (CHR ''.'') (take (length pre - 1) (pre @ t)) = [''tools'', i, owner_text ow, c]"
    using split_butlast_segments [OF nodot, of t, folded pre_def] ss by (simp del: length_concat)
  have "tool_address ow i c t = pre @ t" by (simp add: tool_address_segments pre_def ss_def)
  with walk split assms show ?thesis by (simp add: parse_tool_address_def)
qed

lemma parse_tool_address_SomeD:
  assumes "parse_tool_address a = Some r"
  shows "a = tool_address (tr_owner r) (tr_integration r) (tr_connection r) (tr_tool r) \<and>
    CHR ''.'' \<notin> set (tr_integration r) \<and> CHR ''.'' \<notin> set (tr_connection r) \<and>
    tr_integration r \<noteq> [] \<and> tr_connection r \<noteq> [] \<and> tr_tool r \<noteq> []"
proof -
  from assms obtain k where k: "walk_dots 4 0 a = Some k"
    by (auto simp: parse_tool_address_def split: option.splits)
  from walk_dots_SomeD [of 4 "[]" a k] k obtain ss b where ss: "length ss = 4"
    "\<forall>x \<in> set ss. CHR ''.'' \<notin> set x" "a = concat (map (\<lambda>x. x @ ''.'') ss) @ b"
    "k = length (concat (map (\<lambda>x. x @ ''.'') ss))" by auto
  have "ss \<noteq> []" using ss(1) by auto
  with split_butlast_segments [OF ss(2), of b] ss
  have split: "js_split (CHR ''.'') (take (k - 1) a) = ss" and rest: "drop k a = b" by simp_all
  from ss(1) obtain x1 x2 x3 x4 where x: "ss = [x1, x2, x3, x4]"
    by (auto simp: numeral_eq_Suc length_Suc_conv)
  from assms k split x rest have "x1 = ''tools''" "x3 = owner_text (tr_owner r)" "x2 = tr_integration r"
    "x4 = tr_connection r" "b = tr_tool r" "x2 \<noteq> []" "x4 \<noteq> []" "b \<noteq> []"
    by (auto simp: parse_tool_address_def Let_def parse_owner_Some split: if_splits option.splits)
  with ss x show ?thesis by (simp add: tool_address_def)
qed

text \<open>An address parses to a reference exactly when it is the printed form of that reference and
  the reference has dot-free, non-empty integration and connection names and a non-empty tool:
  parsing and printing are inverse, and no two references share an address.\<close>

theorem parse_tool_address_iff:
  "parse_tool_address a = Some r \<longleftrightarrow>
     a = tool_address (tr_owner r) (tr_integration r) (tr_connection r) (tr_tool r) \<and>
     CHR ''.'' \<notin> set (tr_integration r) \<and> CHR ''.'' \<notin> set (tr_connection r) \<and>
     tr_integration r \<noteq> [] \<and> tr_connection r \<noteq> [] \<and> tr_tool r \<noteq> []"
proof
  assume "parse_tool_address a = Some r"
  then show "a = tool_address (tr_owner r) (tr_integration r) (tr_connection r) (tr_tool r) \<and>
     CHR ''.'' \<notin> set (tr_integration r) \<and> CHR ''.'' \<notin> set (tr_connection r) \<and>
     tr_integration r \<noteq> [] \<and> tr_connection r \<noteq> [] \<and> tr_tool r \<noteq> []"
    by (rule parse_tool_address_SomeD)
next
  assume "a = tool_address (tr_owner r) (tr_integration r) (tr_connection r) (tr_tool r) \<and>
     CHR ''.'' \<notin> set (tr_integration r) \<and> CHR ''.'' \<notin> set (tr_connection r) \<and>
     tr_integration r \<noteq> [] \<and> tr_connection r \<noteq> [] \<and> tr_tool r \<noteq> []"
  then show "parse_tool_address a = Some r" using parse_tool_address_print by simp
qed

lemma address_to_path_tool: "address_to_path (tool_address ow i c t) = i @ ''.'' @ owner_text ow @ ''.'' @ c @ ''.'' @ t"
  by (simp add: address_to_path_def tool_address_def js_starts_with_def)

text \<open>The path the sandbox sees for an address leads back to the address, for every integration
  not named \<open>tools\<close>.\<close>

theorem path_round_trip:
  assumes "CHR ''.'' \<notin> set i" "CHR ''.'' \<notin> set c" "i \<noteq> []" "c \<noteq> []" "t \<noteq> []" "i \<noteq> ''tools''"
  shows "path_to_address (address_to_path (tool_address ow i c t)) = tool_address ow i c t \<and>
         extract_namespace (address_to_path (tool_address ow i c t)) = i"
proof -
  let ?p = "i @ ''.'' @ owner_text ow @ ''.'' @ c @ ''.'' @ t"
  have no_prefix: "\<not> js_starts_with ?p ''tools.''"
  proof
    assume "js_starts_with ?p ''tools.''"
    then obtain u where "?p = ''tools'' @ CHR ''.'' # u" by (auto simp: js_starts_with_iff)
    then have "hd (js_split (CHR ''.'') ?p) = hd (js_split (CHR ''.'') (''tools'' @ CHR ''.'' # u))" by (rule arg_cong)
    moreover have "hd (js_split (CHR ''.'') (''tools'' @ CHR ''.'' # u)) = ''tools''" by simp
    moreover have "hd (js_split (CHR ''.'') ?p) = i" using assms(1) by (simp add: js_split_append_sep)
    ultimately show False using assms(6) by simp
  qed
  have addr: "''tools.'' @ ?p = tool_address ow i c t" by (simp add: tool_address_def)
  have "path_to_address ?p = tool_address ow i c t"
    unfolding path_to_address_def addr using no_prefix parse_tool_address_print [OF assms(1-5)] by simp
  moreover have "js_index_of (CHR ''.'') ?p = Some (length i)"
    unfolding js_index_of_Some using assms(1) by auto
  ultimately show ?thesis
    using no_prefix unfolding address_to_path_tool
    by (simp add: extract_namespace_def address_to_path_def del: append.simps)
qed

lemma path_round_trip_witness:
  "path_to_address (address_to_path (tool_address Org ''github'' ''main'' ''repos.get'')) = ''tools.github.org.main.repos.get''"
  using path_round_trip [of "''github''" "''main''" "''repos.get''" Org] by (simp add: tool_address_def)

text \<open>An integration named \<open>tools\<close> is out of the sandbox's reach: the path of its tool is taken
  for a prefixed address and sent to the executor as it is, where it does not parse.\<close>

theorem tools_integration_unreachable:
  "path_to_address (address_to_path (tool_address Org ''tools'' ''main'' ''get'')) = ''tools.org.main.get'' \<and>
   parse_tool_address ''tools.org.main.get'' = None"
  by (simp add: path_to_address_def address_to_path_def tool_address_def js_starts_with_def
      parse_tool_address_def index_from_def numeral_eq_Suc)

end
