(* ===== verification/Rows.thy ===== *)
theory Rows
  imports Effects Addresses
begin

text \<open>
  Row projections of \<open>sdk/src/executor.ts\<close>: what the executor shows of the integration,
  connection and tool rows, how it reads their JSON columns, and the ways a caller states a
  connection's credential inputs. \<open>json\<close> stands for the schema library's JSON decoder
  (\<open>UnknownFromJsonString\<close>), \<open>health\<close> for its decoder of \<open>HealthCheckResult\<close>. Text columns
  hold strings.
\<close>

fun obj_get :: "jsval \<Rightarrow> string \<Rightarrow> jsval" where
  "obj_get (JObj ps) k = prop_of ps k"
| "obj_get _ k = JUndef"

fun is_object :: "jsval \<Rightarrow> bool" where
  "is_object (JObj _) \<longleftrightarrow> True"
| "is_object _ \<longleftrightarrow> False"

text \<open>Truthiness, which \<open>Boolean(v)\<close> and conditions use.\<close>

fun truthy :: "jsval \<Rightarrow> bool" where
  "truthy JUndef \<longleftrightarrow> False"
| "truthy JNull \<longleftrightarrow> False"
| "truthy (JBool b) \<longleftrightarrow> b"
| "truthy (JNum n) \<longleftrightarrow> n \<noteq> 0"
| "truthy (JStr s) \<longleftrightarrow> s \<noteq> []"
| "truthy _ \<longleftrightarrow> True"

definition coalesce :: "jsval \<Rightarrow> jsval \<Rightarrow> jsval" where
  "coalesce a b = (if nullish a then b else a)"

definition row_str :: "row \<Rightarrow> string \<Rightarrow> string" where
  "row_str r k = js_to_string (r k)"

definition opt_str :: "jsval \<Rightarrow> string option" where
  "opt_str v = (if nullish v then None else Some (js_to_string v))"

text \<open>\<open>Number (v)\<close> of a nullable number column.\<close>

definition opt_num :: "jsval \<Rightarrow> int option" where
  "opt_num v = (if nullish v then None else to_number v)"

definition jopt :: "('a \<Rightarrow> jsval) \<Rightarrow> 'a option \<Rightarrow> jsval" where
  "jopt f x = (case x of None \<Rightarrow> JNull | Some a \<Rightarrow> f a)"

definition row_owner :: "row \<Rightarrow> owner" where
  "row_owner r = (if r ''owner'' = JStr ''user'' then User else Org)"

definition decode_json_column :: "(string \<Rightarrow> jsval option) \<Rightarrow> jsval \<Rightarrow> jsval" where
  "decode_json_column json v =
     (if nullish v then JUndef
      else case v of
        JStr s \<Rightarrow> (case json s of Some w \<Rightarrow> w | None \<Rightarrow> v)
      | _ \<Rightarrow> v)"

text \<open>Property \<open>k\<close> of an object set to \<open>v\<close> (a spread followed by the property).\<close>

definition obj_set :: "record_vals \<Rightarrow> string \<Rightarrow> jsval \<Rightarrow> record_vals" where
  "obj_set ps k v = (if k \<in> fst ` set ps then map (\<lambda>(k', w). (k', if k' = k then v else w)) ps
                     else ps @ [(k, v)])"

section \<open>Integrations\<close>

record integration_view =
  iv_slug :: string
  iv_name :: string
  iv_description :: string
  iv_kind :: string
  iv_can_remove :: bool
  iv_can_refresh :: bool
  iv_auth_methods :: "jsval list"
  iv_display_url :: "string option"
  iv_display_family :: "string option"

definition nonempty :: "string option \<Rightarrow> string option" where
  "nonempty x = (case x of Some s \<Rightarrow> if s = [] then None else Some s | None \<Rightarrow> None)"

definition row_to_integration ::
  "row \<Rightarrow> jsval list \<Rightarrow> string option \<times> string option \<Rightarrow> integration_view" where
  "row_to_integration r methods display =
     \<lparr>iv_slug = row_str r ''slug'',
      iv_name = js_to_string (coalesce (r ''name'') (coalesce (r ''description'') (r ''slug''))),
      iv_description = js_to_string (coalesce (r ''description'') (JStr [])),
      iv_kind = row_str r ''plugin_id'',
      iv_can_remove = truthy (r ''can_remove''),
      iv_can_refresh = truthy (r ''can_refresh''),
      iv_auth_methods = methods,
      iv_display_url = nonempty (fst display),
      iv_display_family = nonempty (snd display)\<rparr>"

record integration_record = integration_view +
  ir_config :: jsval

definition row_to_integration_record ::
  "(string \<Rightarrow> jsval option) \<Rightarrow> row \<Rightarrow> jsval list \<Rightarrow> integration_record" where
  "row_to_integration_record json r methods =
     integration_view.extend (row_to_integration r methods (None, None))
       (integration_record.fields (decode_json_column json (r ''config'')))"

section \<open>Connections\<close>

definition missing_oauth_scopes :: "(string \<Rightarrow> jsval option) \<Rightarrow> jsval \<Rightarrow> string list" where
  "missing_oauth_scopes json v =
     (let d = decode_json_column json v in
      if \<not> is_object d then []
      else case obj_get d ''missingOAuthScopes'' of
        JArr vs \<Rightarrow> concat (map (\<lambda>s. case s of JStr t \<Rightarrow> [t] | _ \<Rightarrow> []) vs)
      | _ \<Rightarrow> [])"

definition oauth_reauth_required_at :: "(string \<Rightarrow> jsval option) \<Rightarrow> jsval \<Rightarrow> int option" where
  "oauth_reauth_required_at json v =
     (let d = decode_json_column json v in
      if \<not> is_object d then None
      else case obj_get d ''oauthReauthRequiredAt'' of JNum n \<Rightarrow> Some n | _ \<Rightarrow> None)"

record connection_view =
  cv_owner :: owner
  cv_name :: string
  cv_integration :: string
  cv_template :: string
  cv_provider :: string
  cv_address :: string
  cv_identity_label :: "string option"
  cv_description :: "string option"
  cv_expires_at :: "int option"
  cv_oauth_client :: "string option"
  cv_oauth_client_owner :: "string option"
  cv_oauth_scope :: "string option"
  cv_missing_scopes :: "string list"
  cv_last_health :: "jsval option"

definition row_to_connection ::
  "(string \<Rightarrow> jsval option) \<Rightarrow> (jsval \<Rightarrow> jsval option) \<Rightarrow> row \<Rightarrow> connection_view" where
  "row_to_connection json health r =
     \<lparr>cv_owner = row_owner r, cv_name = row_str r ''name'', cv_integration = row_str r ''integration'',
      cv_template = row_str r ''template'', cv_provider = row_str r ''provider'',
      cv_address = connection_address (row_owner r) (row_str r ''integration'') (row_str r ''name''),
      cv_identity_label = opt_str (r ''identity_label''), cv_description = opt_str (r ''description''),
      cv_expires_at = opt_num (r ''expires_at''), cv_oauth_client = opt_str (r ''oauth_client''),
      cv_oauth_client_owner = opt_str (r ''oauth_client_owner''),
      cv_oauth_scope = opt_str (r ''oauth_scope''),
      cv_missing_scopes = missing_oauth_scopes json (r ''provider_state''),
      cv_last_health = health (r ''last_health'')\<rparr>"

text \<open>\<open>s.split(/\s+/).filter(Boolean)\<close>.\<close>

fun split_spaces :: "string \<Rightarrow> string \<Rightarrow> string list" where
  "split_spaces acc [] = (if acc = [] then [] else [rev acc])"
| "split_spaces acc (c # cs) =
     (if is_js_space c then (if acc = [] then split_spaces [] cs else rev acc # split_spaces [] cs)
      else split_spaces (c # acc) cs)"

definition granted_scopes_from_row :: "row \<Rightarrow> string list option" where
  "granted_scopes_from_row r =
     (if nullish (r ''oauth_scope'') then None
      else let scopes = split_spaces [] (js_to_string (r ''oauth_scope'')) in
           if scopes = [] then None else Some scopes)"

datatype input_origin = Pasted string | External string string

datatype connection_value_input =
    InputsMap "(string \<times> input_origin) list"
  | ValuesMap "(string \<times> string) list"
  | FromInput string string
  | ValueInput string

definition PRIMARY_INPUT_VARIABLE :: string where
  "PRIMARY_INPUT_VARIABLE = ''token''"

fun normalize_connection_inputs :: "connection_value_input \<Rightarrow> (string \<times> input_origin) list" where
  "normalize_connection_inputs (InputsMap m) = m"
| "normalize_connection_inputs (ValuesMap m) = map (\<lambda>(k, v). (k, Pasted v)) m"
| "normalize_connection_inputs (FromInput pv i) = [(PRIMARY_INPUT_VARIABLE, External pv i)]"
| "normalize_connection_inputs (ValueInput v) = [(PRIMARY_INPUT_VARIABLE, Pasted v)]"

text \<open>The \<open>variable \<rightarrow> provider item id\<close> map of a row, in order (an array's indices are its keys); any other value is empty.\<close>

definition connection_item_ids :: "(string \<Rightarrow> jsval option) \<Rightarrow> row \<Rightarrow> (string \<times> string) list" where
  "connection_item_ids json r =
     (case decode_json_column json (r ''item_ids'') of
        JObj ps \<Rightarrow> map (\<lambda>(k, v). (k, js_to_string v)) ps
      | JArr vs \<Rightarrow> zip (map (\<lambda>n. int_to_string (int n)) [0..<length vs]) (map js_to_string vs)
      | _ \<Rightarrow> [])"

section \<open>Tools\<close>

record tool_view =
  tv_address :: string
  tv_owner :: owner
  tv_integration :: string
  tv_connection :: string
  tv_name :: string
  tv_plugin_id :: string
  tv_description :: string
  tv_input_schema :: jsval
  tv_output_schema :: jsval
  tv_annotations :: jsval
  tv_static :: bool

definition row_to_tool :: "(string \<Rightarrow> jsval option) \<Rightarrow> row \<Rightarrow> jsval \<Rightarrow> tool_view" where
  "row_to_tool json r annotations =
     \<lparr>tv_address = tool_address (row_owner r) (row_str r ''integration'') (row_str r ''connection'')
                     (row_str r ''name''),
      tv_owner = row_owner r, tv_integration = row_str r ''integration'',
      tv_connection = row_str r ''connection'', tv_name = row_str r ''name'',
      tv_plugin_id = row_str r ''plugin_id'', tv_description = row_str r ''description'',
      tv_input_schema = decode_json_column json (r ''input_schema''),
      tv_output_schema = decode_json_column json (r ''output_schema''),
      tv_annotations = coalesce annotations (decode_json_column json (r ''annotations'')),
      tv_static = False\<rparr>"

definition requires_approval :: "jsval \<Rightarrow> bool option" where
  "requires_approval ann = (case obj_get ann ''requiresApproval'' of JBool b \<Rightarrow> Some b | _ \<Rightarrow> None)"

section \<open>Owner keys\<close>

text \<open>\<open>ownedKeys\<close>: the partition columns of a row written for an owner.\<close>

definition no_subject :: failure where
  "no_subject = FStorage (StorageError (''Cannot target owner '' @ in_quotes ''user'' @ '': executor has no subject.''))"

definition owned_keys :: "owner_ctx \<Rightarrow> owner \<Rightarrow> failure + record_vals" where
  "owned_keys c ow =
     (case ow of
        Org \<Rightarrow> Inr [(''tenant'', JStr (oc_tenant c)), (''owner'', JStr ''org''), (''subject'', JStr ORG_SUBJECT)]
      | User \<Rightarrow>
          (case oc_subject c of
             None \<Rightarrow> Inl no_subject
           | Some s \<Rightarrow> Inr [(''tenant'', JStr (oc_tenant c)), (''owner'', JStr ''user''), (''subject'', JStr s)]))"

definition require_user_subject :: "owner_ctx \<Rightarrow> owner \<Rightarrow> ('x, unit) eff" where
  "require_user_subject c ow =
     (if ow = User \<and> oc_subject c = None then eff_fail no_subject else eff_return ())"

definition by_owner :: "owner_ctx \<Rightarrow> owner \<Rightarrow> cond_or_bool" where
  "by_owner c ow =
     builder_and [cmp_val ''owner'' OpEq (JStr (owner_text ow)),
       cmp_val ''subject'' OpEq (JStr (case ow of Org \<Rightarrow> ORG_SUBJECT
          | User \<Rightarrow> (case oc_subject c of None \<Rightarrow> ''__none__'' | Some s \<Rightarrow> s)))]"

lemma confined_require_user [confined_intros]: "confined c (require_user_subject c' ow)"
  unfolding require_user_subject_def by (intro confined_intros)

section \<open>Connection names\<close>

definition is_lower_alnum :: "char \<Rightarrow> bool" where
  "is_lower_alnum c \<longleftrightarrow> (let n = (of_char c :: nat) in (97 \<le> n \<and> n \<le> 122) \<or> (48 \<le> n \<and> n \<le> 57))"

definition to_lower :: "char \<Rightarrow> char" where
  "to_lower c = (let n = (of_char c :: nat) in
     if (65 \<le> n \<and> n \<le> 90) \<or> (192 \<le> n \<and> n \<le> 222 \<and> n \<noteq> 215) then char_of (n + 32) else c)"

definition to_upper :: "char \<Rightarrow> char" where
  "to_upper c = (let n = (of_char c :: nat) in if 97 \<le> n \<and> n \<le> 122 then char_of (n - 32) else c)"

definition upper_first :: "string \<Rightarrow> string" where
  "upper_first s = (case s of [] \<Rightarrow> [] | c # cs \<Rightarrow> to_upper c # cs)"

text \<open>The maximal runs of characters in a class (a global \<open>match\<close> of a repeated class).\<close>

fun runs :: "(char \<Rightarrow> bool) \<Rightarrow> string \<Rightarrow> string \<Rightarrow> string list" where
  "runs p acc [] = (if acc = [] then [] else [rev acc])"
| "runs p acc (c # cs) =
     (if p c then runs p (c # acc) cs
      else if acc = [] then runs p [] cs else rev acc # runs p [] cs)"

definition ident_start :: "char \<Rightarrow> bool" where
  "ident_start c \<longleftrightarrow> (let n = (of_char c :: nat) in
     (65 \<le> n \<and> n \<le> 90) \<or> (97 \<le> n \<and> n \<le> 122) \<or> n = 95 \<or> n = 36)"

definition ident_part :: "char \<Rightarrow> bool" where
  "ident_part c \<longleftrightarrow> ident_start c \<or> (let n = (of_char c :: nat) in 48 \<le> n \<and> n \<le> 57)"

definition is_connection_identifier :: "string \<Rightarrow> bool" where
  "is_connection_identifier s = (case s of [] \<Rightarrow> False | c # cs \<Rightarrow> ident_start c \<and> list_all ident_part cs)"

definition connection_identifier :: "string \<Rightarrow> string" where
  "connection_identifier input =
     (let ws = runs is_lower_alnum [] (map to_lower input);
          joined = (case ws of [] \<Rightarrow> [] | v # vs \<Rightarrow> v @ concat (map upper_first vs));
          base = (if joined = [] then ''connection'' else joined)
      in if ident_start (hd base) then base else ''connection'' @ upper_first base)"

lemma runs_class: "\<forall>x \<in> set acc. p x \<Longrightarrow> v \<in> set (runs p acc s) \<Longrightarrow> (\<forall>x \<in> set v. p x) \<and> v \<noteq> []"
proof (induction s arbitrary: acc)
  case (Cons x s)
  show ?case
  proof (cases "p x")
    case True
    with Cons.IH [of "x # acc"] Cons.prems show ?thesis by simp
  next
    case False
    with Cons.IH [of "[]"] Cons.prems show ?thesis by (auto split: if_splits)
  qed
qed (auto split: if_splits)

lemma lower_alnum_part: "is_lower_alnum c \<Longrightarrow> ident_part c"
  unfolding is_lower_alnum_def ident_part_def ident_start_def Let_def by blast

lemma to_upper_part: "ident_part c \<Longrightarrow> ident_part (to_upper c)"
  unfolding to_upper_def ident_part_def ident_start_def Let_def by (auto simp: not_le)

lemma upper_first_part: "\<forall>c \<in> set s. ident_part c \<Longrightarrow> \<forall>c \<in> set (upper_first s). ident_part c"
  by (cases s) (auto simp: upper_first_def intro: to_upper_part)

lemma is_connection_identifier_iff:
  "is_connection_identifier s \<longleftrightarrow> s \<noteq> [] \<and> ident_start (hd s) \<and> (\<forall>c \<in> set s. ident_part c)"
  by (cases s) (auto simp: is_connection_identifier_def list_all_iff ident_part_def)

text \<open>C21: whatever name a caller gives a connection, the name stored is an identifier: it starts with a
  letter, holds no dot, and so can be one segment of an address.\<close>

theorem connection_identifier_valid:
  "is_connection_identifier (connection_identifier input) \<and> CHR ''.'' \<notin> set (connection_identifier input)"
proof -
  define ws where "ws = runs is_lower_alnum [] (map to_lower input)"
  define joined where "joined = (case ws of [] \<Rightarrow> [] | v # vs \<Rightarrow> v @ concat (map upper_first vs))"
  define base where "base = (if joined = [] then ''connection'' else joined)"
  have "\<forall>c \<in> set v. ident_part c" if "v \<in> set ws" for v
    using runs_class [of "[]" is_lower_alnum v] that lower_alnum_part by (simp add: ws_def)
  note ws = this
  have "\<forall>c \<in> set joined. ident_part c"
  proof (cases ws)
    case (Cons v vs)
    have "\<forall>c \<in> set v. ident_part c" using ws [of v] Cons by simp
    moreover have "\<forall>c \<in> set (upper_first u). ident_part c" if "u \<in> set vs" for u
      using upper_first_part [OF ws [of u]] that Cons by simp
    ultimately show ?thesis by (auto simp: joined_def Cons)
  qed (simp add: joined_def)
  moreover have conn: "\<forall>c \<in> set ''connection''. ident_part c"
    by (simp add: ident_part_def ident_start_def)
  ultimately have base: "\<forall>c \<in> set base. ident_part c" "base \<noteq> []"
    by (auto simp: base_def)
  have eq: "connection_identifier input = (if ident_start (hd base) then base else ''connection'' @ upper_first base)"
    by (simp add: connection_identifier_def joined_def base_def ws_def Let_def)
  define fallback where "fallback = ''connection'' @ upper_first base"
  have "\<forall>c \<in> set fallback. ident_part c"
    unfolding fallback_def set_append ball_Un using conn upper_first_part [OF base(1)] by (rule conjI)
  moreover have "ident_start (hd fallback)" "fallback \<noteq> []" by (simp_all add: fallback_def ident_start_def)
  ultimately have valid: "is_connection_identifier (connection_identifier input)"
    using base unfolding eq fallback_def [symmetric] is_connection_identifier_iff by simp
  moreover have "\<not> ident_part (CHR ''.'')" by (simp add: ident_part_def ident_start_def)
  ultimately show ?thesis unfolding is_connection_identifier_iff by blast
qed

end
