(* ===== verification/OAuthHelpers.thy ===== *)
theory OAuthHelpers
  imports Rows "HOL-Library.Word"
begin

text \<open>
  The building blocks of the OAuth flows (\<open>sdk/src/oauth-helpers.ts\<close>, \<open>oauth-gc.ts\<close>, \<open>oauth.ts\<close>
  and the module-level functions of \<open>oauth-service.ts\<close>): which endpoints are acceptable, the
  regional token endpoint, issuers and the classification of registered clients, scopes, the
  slugs of registered clients, the state sent through the browser. The URL parser of the
  platform, its base64 codecs and \<open>JSON.parse\<close> are parameters; what a parsed URL is and how it
  is printed is written out. Strings are made of characters below 256.
\<close>

section \<open>URLs\<close>

record js_url =
  ur_protocol :: string
  ur_username :: string
  ur_password :: string
  ur_hostname :: string
  ur_port :: string
  ur_pathname :: string
  ur_query :: "string option"
  ur_fragment :: "string option"
  ur_authority :: bool

type_synonym url_parser = "string \<Rightarrow> js_url option"

definition url_host :: "js_url \<Rightarrow> string" where
  "url_host u = ur_hostname u @ (if ur_port u = [] then [] else '':'' @ ur_port u)"

definition url_origin :: "js_url \<Rightarrow> string" where
  "url_origin u =
     (if ur_protocol u \<in> {''http:'', ''https:'', ''ws:'', ''wss:'', ''ftp:''}
      then ur_protocol u @ ''//'' @ url_host u else ''null'')"

definition url_href :: "js_url \<Rightarrow> string" where
  "url_href u =
     ur_protocol u @
     (if ur_authority u then
        ''//'' @ (if ur_username u = [] \<and> ur_password u = [] then []
                else ur_username u @ (if ur_password u = [] then [] else '':'' @ ur_password u) @ ''@'') @ url_host u
      else if js_starts_with (ur_pathname u) ''//'' then ''/.'' else []) @
     ur_pathname u @
     (case ur_query u of None \<Rightarrow> [] | Some q \<Rightarrow> ''?'' @ q) @
     (case ur_fragment u of None \<Rightarrow> [] | Some f \<Rightarrow> ''#'' @ f)"

definition js_lower :: "string \<Rightarrow> string" where
  "js_lower s = map to_lower s"

text \<open>\<open>s.replace(/\/+$/, "")\<close>, and \<open>s.slice(s.lastIndexOf(c) + 1)\<close>.\<close>

definition strip_trailing :: "char \<Rightarrow> string \<Rightarrow> string" where
  "strip_trailing c s = rev (dropWhile (\<lambda>x. x = c) (rev s))"

definition after_last :: "char \<Rightarrow> string \<Rightarrow> string" where
  "after_last c s = rev (takeWhile (\<lambda>x. x \<noteq> c) (rev s))"

section \<open>Acceptable endpoints\<close>

definition is_loopback_http_url :: "url_parser \<Rightarrow> string \<Rightarrow> bool" where
  "is_loopback_http_url up v =
     (case up v of
        None \<Rightarrow> False
      | Some u \<Rightarrow> ur_protocol u = ''http:'' \<and>
          (let h = js_lower (ur_hostname u) in
           h = ''localhost'' \<or> h = ''0.0.0.0'' \<or> h = ''::1'' \<or> h = ''[::1]'' \<or> js_starts_with h ''127.''))"

definition is_supported_oauth_endpoint_url :: "url_parser \<Rightarrow> bool \<Rightarrow> string \<Rightarrow> bool" where
  "is_supported_oauth_endpoint_url up allow_http v =
     (case up v of
        None \<Rightarrow> False
      | Some u \<Rightarrow> ur_protocol u = ''https:'' \<or> is_loopback_http_url up v \<or> (ur_protocol u = ''http:'' \<and> allow_http))"

text \<open>\<open>assertSupportedOAuthEndpointUrl\<close>: the message of the \<open>TypeError\<close> it throws, or the URL.\<close>

definition assert_supported_oauth_endpoint_url :: "url_parser \<Rightarrow> bool \<Rightarrow> string \<Rightarrow> string \<Rightarrow> string + string" where
  "assert_supported_oauth_endpoint_url up allow_http label v =
     (if is_supported_oauth_endpoint_url up allow_http v then Inr v
      else Inl (label @ '' must use https: or loopback http:''))"

section \<open>The regional token endpoint\<close>

definition hostname_from_callback_domain :: "url_parser \<Rightarrow> string \<Rightarrow> string option" where
  "hostname_from_callback_domain up cb =
     (let t = js_trim cb in
      if t = [] then None
      else case up (if js_includes t ''://'' then t else ''https://'' @ t) of
        None \<Rightarrow> None
      | Some u \<Rightarrow>
          if ur_port u \<noteq> [] \<or> ur_username u \<noteq> [] \<or> ur_password u \<noteq> [] then None
          else if ur_pathname u \<noteq> ''/'' \<and> ur_pathname u \<noteq> [] then None
          else Some (js_lower (ur_hostname u)))"

definition sibling_parent_domain_of :: "string \<Rightarrow> string option" where
  "sibling_parent_domain_of hostname =
     (let labels = js_split (CHR ''.'') hostname in
      if length labels < 3 then None
      else let parent = js_join ''.'' (tl labels) in
        if CHR ''.'' \<in> set parent then Some parent else None)"

definition rebind_token_endpoint_host :: "url_parser \<Rightarrow> string \<Rightarrow> string option \<Rightarrow> string" where
  "rebind_token_endpoint_host up token_url callback_domain =
     (case nonempty callback_domain of
        None \<Rightarrow> token_url
      | Some cb \<Rightarrow>
          (case up token_url of
             None \<Rightarrow> token_url
           | Some configured \<Rightarrow>
               if ur_protocol configured \<noteq> ''https:'' then token_url
               else case nonempty (hostname_from_callback_domain up cb) of
                 None \<Rightarrow> token_url
               | Some target \<Rightarrow>
                   let host = js_lower (ur_hostname configured) in
                   if target = host then token_url
                   else case (sibling_parent_domain_of host, sibling_parent_domain_of target) of
                     (Some p, Some q) \<Rightarrow>
                       if p \<noteq> q then token_url else url_href (configured\<lparr>ur_hostname := target\<rparr>)
                   | _ \<Rightarrow> token_url))"

section \<open>Issuers and the kinds of registered clients\<close>

definition canonical_issuer_url :: "url_parser \<Rightarrow> string option \<Rightarrow> string option" where
  "canonical_issuer_url up v =
     (case v of
        None \<Rightarrow> None
      | Some s \<Rightarrow>
          (let t = js_trim s in
           if t = [] then None
           else case up t of
             None \<Rightarrow> None
           | Some u \<Rightarrow>
               (let path = strip_trailing (CHR ''/'') (ur_pathname u) in
                Some (if path \<noteq> [] then url_origin u @ path else url_origin u))))"

definition host_of_url :: "url_parser \<Rightarrow> string \<Rightarrow> string option" where
  "host_of_url up v = map_option (\<lambda>u. js_lower (url_host u)) (up v)"

text \<open>\<open>registrableHostname\<close>: \<open>domain\<close> is \<open>tldts.getDomain\<close>.\<close>

definition registrable_hostname :: "(string \<Rightarrow> string option) \<Rightarrow> string \<Rightarrow> string" where
  "registrable_hostname domain hostname =
     (let h = js_lower hostname in case domain h of Some d \<Rightarrow> d | None \<Rightarrow> h)"

definition registrable_origin_of_url :: "url_parser \<Rightarrow> (string \<Rightarrow> string option) \<Rightarrow> string \<Rightarrow> string option" where
  "registrable_origin_of_url up domain v =
     (case up v of
        None \<Rightarrow> None
      | Some u \<Rightarrow>
          (let r = registrable_hostname domain (ur_hostname u) in
           Some (if r = js_lower (ur_hostname u) then url_origin u
                 else ur_protocol u @ ''//'' @ r @ (if ur_port u = [] then [] else '':'' @ ur_port u))))"

definition is_dcr_classified_row :: "row \<Rightarrow> bool" where
  "is_dcr_classified_row r =
     (if r ''origin_kind'' = JStr ''dynamic_client_registration'' then True
      else if \<not> nullish (r ''origin_kind'') then False
      else if r ''grant'' \<noteq> JStr ''authorization_code'' then False
      else (if nullish (r ''resource'') then [] else row_str r ''resource'') \<noteq> [])"

datatype gc_decision = GcDelete | GcKeepNotDcr | GcKeepReferenced

definition classify_oauth_client_gc :: "row \<Rightarrow> int \<Rightarrow> gc_decision" where
  "classify_oauth_client_gc r references =
     (if \<not> is_dcr_classified_row r then GcKeepNotDcr
      else if references > 0 then GcKeepReferenced else GcDelete)"

record client_origin =
  og_dcr :: bool
  og_integration :: "string option"

definition parse_oauth_client_origin :: "row \<Rightarrow> client_origin" where
  "parse_oauth_client_origin r =
     (if \<not> is_dcr_classified_row r then
        \<lparr>og_dcr = False, og_integration = opt_str (r ''origin_integration'')\<rparr>
      else
        \<lparr>og_dcr = True,
         og_integration = (if r ''origin_kind'' = JStr ''dynamic_client_registration''
                           then opt_str (r ''origin_integration'') else None)\<rparr>)"

definition canonical_dcr_issuer :: "url_parser \<Rightarrow> string option \<Rightarrow> string \<Rightarrow> string option" where
  "canonical_dcr_issuer up issuer registration_endpoint =
     (case canonical_issuer_url up issuer of
        Some d \<Rightarrow> Some d
      | None \<Rightarrow> map_option url_origin (up registration_endpoint))"

definition issuer_origin :: "url_parser \<Rightarrow> string \<Rightarrow> string option" where
  "issuer_origin up issuer = map_option url_origin (up issuer)"

definition issuer_is_origin_only :: "url_parser \<Rightarrow> string \<Rightarrow> bool" where
  "issuer_is_origin_only up issuer \<longleftrightarrow> issuer_origin up issuer = Some issuer"

definition dcr_issuer_matches :: "url_parser \<Rightarrow> string \<Rightarrow> string option \<Rightarrow> bool" where
  "dcr_issuer_matches up row_issuer input_issuer =
     (case input_issuer of
        None \<Rightarrow> False
      | Some i \<Rightarrow> row_issuer = i \<or> (issuer_is_origin_only up i \<and> issuer_origin up row_issuer = Some i))"

section \<open>Scopes\<close>

text \<open>\<open>[...new Set (xs)]\<close> keeps the first of each.\<close>

definition dedupe :: "'a list \<Rightarrow> 'a list" where
  "dedupe xs = rev (remdups (rev xs))"

definition intersect_scopes :: "string list \<Rightarrow> string list option \<Rightarrow> string list" where
  "intersect_scopes requested supported =
     (case supported of
        None \<Rightarrow> requested
      | Some s \<Rightarrow> if s = [] then requested else filter (\<lambda>x. x \<in> set s) requested)"

text \<open>A token response; the label is what the provider's identity token says of the account.\<close>

record issued_token =
  it_access :: string
  it_refresh :: "string option"
  it_expires_in :: "int option"
  it_scope :: "string option"
  it_identity_label :: "string option"

definition recorded_oauth_scope :: "issued_token \<Rightarrow> string list \<Rightarrow> string option" where
  "recorded_oauth_scope tok requested =
     (case it_scope tok of
        None \<Rightarrow> nonempty (Some (js_join '' '' requested))
      | Some s \<Rightarrow>
          nonempty (Some (js_join '' '' (dedupe (split_spaces [] s @
            (if nonempty (it_refresh tok) \<noteq> None \<and> ''offline_access'' \<in> set requested
             then [''offline_access''] else []))))))"

definition OAUTH_SCOPE_ALIASES :: "(string \<times> string) list" where
  "OAUTH_SCOPE_ALIASES =
     [(''https://www.googleapis.com/auth/userinfo.email'', ''email''),
      (''https://www.googleapis.com/auth/userinfo.profile'', ''profile'')]"

definition informational_oauth_scopes :: "string list" where
  "informational_oauth_scopes = [''openid'', ''email'', ''profile'', ''offline_access'']"

definition is_graph_scope :: "string \<Rightarrow> bool" where
  "is_graph_scope s \<longleftrightarrow>
     (\<exists>p \<in> set [''http://'', ''https://'']. \<exists>d \<in> set [''com'', ''us'', ''de''].
        js_starts_with (js_lower s) (p @ ''graph.microsoft.'' @ d @ ''/''))"

definition canonical_oauth_scope :: "string \<Rightarrow> string" where
  "canonical_oauth_scope s =
     (case map_of OAUTH_SCOPE_ALIASES s of
        Some a \<Rightarrow> a
      | None \<Rightarrow> if is_graph_scope s then after_last (CHR ''/'') s else s)"

definition is_meta_oauth_scope :: "string \<Rightarrow> bool" where
  "is_meta_oauth_scope s \<longleftrightarrow> js_ends_with (js_lower s) ''/.default''"

definition normalized_oauth_scopes :: "string list \<Rightarrow> string list" where
  "normalized_oauth_scopes scopes = filter (\<lambda>s. s \<noteq> []) (map (\<lambda>s. canonical_oauth_scope (js_trim s)) scopes)"

fun missing_scopes_loop :: "string list \<Rightarrow> string list \<Rightarrow> string list \<Rightarrow> string list" where
  "missing_scopes_loop granted visited [] = []"
| "missing_scopes_loop granted visited (raw # rest) =
     (let trimmed = js_trim raw; scope = canonical_oauth_scope trimmed in
      if is_meta_oauth_scope trimmed then missing_scopes_loop granted visited rest
      else if scope = [] \<or> scope \<in> set informational_oauth_scopes \<or> scope \<in> set visited
        then missing_scopes_loop granted visited rest
      else (if scope \<in> set granted then [] else [scope]) @ missing_scopes_loop granted (scope # visited) rest)"

definition missing_granted_oauth_scopes :: "string list \<Rightarrow> string option \<Rightarrow> string list" where
  "missing_granted_oauth_scopes requested recorded =
     missing_scopes_loop
       (normalized_oauth_scopes (case recorded of None \<Rightarrow> [] | Some s \<Rightarrow> split_spaces [] s)) [] requested"

section \<open>The session payload\<close>

definition payload_object :: "(string \<Rightarrow> jsval option) \<Rightarrow> jsval \<Rightarrow> jsval" where
  "payload_object json p = (case p of JStr s \<Rightarrow> (case json s of Some v \<Rightarrow> v | None \<Rightarrow> p) | _ \<Rightarrow> p)"

definition requested_scopes_from_payload :: "(string \<Rightarrow> jsval option) \<Rightarrow> jsval \<Rightarrow> string list option" where
  "requested_scopes_from_payload json p =
     (case obj_get (payload_object json p) ''requestedScopes'' of
        JArr vs \<Rightarrow> Some (concat (map (\<lambda>v. case v of JStr s \<Rightarrow> [s] | _ \<Rightarrow> []) vs))
      | _ \<Rightarrow> None)"

definition client_owner_from_payload :: "(string \<Rightarrow> jsval option) \<Rightarrow> jsval \<Rightarrow> owner option" where
  "client_owner_from_payload json p =
     (let v = obj_get (payload_object json p) ''clientOwner'' in
      if v = JStr ''user'' then Some User else if v = JStr ''org'' then Some Org else None)"

datatype oauth_grant = AuthorizationCode | ClientCredentials

fun grant_text :: "oauth_grant \<Rightarrow> string" where
  "grant_text AuthorizationCode = ''authorization_code''"
| "grant_text ClientCredentials = ''client_credentials''"

definition parse_grant :: "jsval \<Rightarrow> oauth_grant option" where
  "parse_grant v =
     (if v = JStr ''client_credentials'' then Some ClientCredentials
      else if v = JStr ''authorization_code'' then Some AuthorizationCode else None)"

section \<open>Slugs and item ids\<close>

definition access_item_id :: "owner \<Rightarrow> string \<Rightarrow> string \<Rightarrow> string" where
  "access_item_id ow integration name = ''oauth:'' @ owner_text ow @ '':'' @ integration @ '':'' @ name"

definition refresh_item_id_for :: "string \<Rightarrow> string" where
  "refresh_item_id_for access = access @ '':refresh''"

definition client_secret_item_id :: "owner \<Rightarrow> string \<Rightarrow> string" where
  "client_secret_item_id ow slug = ''oauth-client:'' @ owner_text ow @ '':'' @ slug @ '':secret''"

text \<open>\<open>v.replace(/[^a-z0-9]+/g, "-").replace(/^-+|-+$/g, "")\<close>.\<close>

fun dash_runs :: "string \<Rightarrow> string" where
  "dash_runs [] = []"
| "dash_runs (c # cs) =
     (if is_lower_alnum c then c # dash_runs cs
      else (case cs of
          [] \<Rightarrow> ''-''
        | d # _ \<Rightarrow> if is_lower_alnum d then CHR ''-'' # dash_runs cs else dash_runs cs))"

definition slugify_oauth_key :: "string \<Rightarrow> string" where
  "slugify_oauth_key v = strip_trailing (CHR ''-'') (dropWhile (\<lambda>c. c = CHR ''-'') (dash_runs (js_lower v)))"

definition hash_step :: "32 word \<Rightarrow> char \<Rightarrow> 32 word" where
  "hash_step h c = (xor h (of_nat (of_char c))) * 0x01000193"

definition base36_digit :: "nat \<Rightarrow> char" where
  "base36_digit n = (if n < 10 then char_of (48 + n) else char_of (87 + n))"

fun base36 :: "nat \<Rightarrow> string" where
  "base36 n = (if n < 36 then [base36_digit n] else base36 (n div 36) @ [base36_digit (n mod 36)])"

declare base36.simps [simp del]

definition short_stable_hash :: "string \<Rightarrow> string" where
  "short_stable_hash s = base36 (unat (foldl hash_step 0x811c9dc5 s))"

definition dcr_client_slug :: "url_parser \<Rightarrow> string option \<Rightarrow> string option \<Rightarrow> string \<Rightarrow> string" where
  "dcr_client_slug up issuer resource fallback =
     (case issuer of
        None \<Rightarrow> fallback
      | Some i \<Rightarrow>
          (case host_of_url up i of
             None \<Rightarrow> fallback
           | Some host \<Rightarrow>
               (let h = slugify_oauth_key host;
                    base = ''dcr-'' @ (if h = [] then ''authorization-server'' else h) in
                case resource of
                  None \<Rightarrow> base
                | Some r \<Rightarrow>
                    (let source = (case up r of None \<Rightarrow> r | Some u \<Rightarrow> url_host u @ ur_pathname u);
                         sl = take 60 (slugify_oauth_key source);
                         part = (if sl = [] then ''resource'' else sl)
                     in take 240 (base @ ''-'' @ part @ ''-'' @ short_stable_hash r)))))"

text \<open>A stem with a number behind it.\<close>

definition suffixed :: "string \<Rightarrow> nat \<Rightarrow> string" where
  "suffixed stem n = stem @ nat_digits n"

lemma nat_digits_last: "last (nat_digits n) = char_of (48 + n mod 10)" "nat_digits n \<noteq> []"
  by (subst nat_digits.simps, simp)+

lemma digit_inj:
  assumes "char_of (48 + a) = (char_of (48 + b) :: char)" "a < 10" "b < 10"
  shows "a = (b :: nat)"
proof -
  have "(of_char (char_of (48 + a) :: char) :: nat) = of_char (char_of (48 + b) :: char)" using assms(1) by simp
  then show ?thesis using assms(2,3) by simp
qed

lemma nat_digits_inj: "nat_digits a = nat_digits b \<Longrightarrow> a = b"
proof (induction a arbitrary: b rule: nat_digits.induct)
  case (1 a)
  have m: "a mod 10 = b mod 10"
    using 1(2) nat_digits_last [of a] nat_digits_last [of b] digit_inj [of "a mod 10" "b mod 10"] by simp
  have len: "length (nat_digits n) = 1 \<longleftrightarrow> n < 10" for n
    by (subst nat_digits.simps) (simp add: nat_digits_last)
  show ?case
  proof (cases "a < 10")
    case True
    then have "b < 10" using len [of a] len [of b] 1(2) by simp
    with True m show ?thesis by simp
  next
    case False
    then have b: "\<not> b < 10" using len [of a] len [of b] 1(2) by simp
    have "nat_digits (a div 10) = nat_digits (b div 10)"
      using 1(2) False b by (simp add: nat_digits.simps [of a] nat_digits.simps [of b])
    with 1(1) [OF False] have "a div 10 = b div 10" by simp
    with m show ?thesis by (metis div_mult_mod_eq)
  qed
qed

lemma suffixed_inj [simp]: "suffixed base a = suffixed base b \<longleftrightarrow> a = b"
  using nat_digits_inj by (auto simp: suffixed_def)

text \<open>The loops that look for a free slug: each suffix that is taken uses up one of the finitely many
  taken slugs.\<close>

function next_suffix :: "string \<Rightarrow> string list \<Rightarrow> nat \<Rightarrow> nat" where
  "next_suffix base used k = (if suffixed base k \<in> set used then next_suffix base used (Suc k) else k)"
  by pat_completeness auto
termination
proof (relation "measure (\<lambda>(base, used, k). card {n. k \<le> n \<and> suffixed base n \<in> set used})")
  fix base used k assume k: "suffixed base k \<in> set used"
  have "inj (suffixed base)" by (rule injI) simp
  then have "finite {n. suffixed base n \<in> set used}"
    using finite_vimageI [of "set used" "suffixed base"] by (simp add: vimage_def)
  then have "finite {n. k \<le> n \<and> suffixed base n \<in> set used}" by (rule finite_subset [rotated]) auto
  moreover have "{n. Suc k \<le> n \<and> suffixed base n \<in> set used} \<subset> {n. k \<le> n \<and> suffixed base n \<in> set used}"
    using k by (intro psubsetI) (auto simp: set_eq_iff intro!: exI [of _ k])
  ultimately show "((base, used, Suc k), base, used, k) \<in> measure (\<lambda>(base, used, k). card {n. k \<le> n \<and> suffixed base n \<in> set used})"
    by (simp add: psubset_card_mono)
qed simp

declare next_suffix.simps [simp del]

definition unique_dcr_slug :: "string \<Rightarrow> string list \<Rightarrow> string" where
  "unique_dcr_slug slug used = (if slug \<notin> set used then slug else suffixed (slug @ ''-'') (next_suffix (slug @ ''-'') used 2))"


section \<open>Scopes that were not granted\<close>

lemma set_dedupe [simp]: "set (dedupe xs) = set xs"
  by (simp add: dedupe_def)

lemma distinct_dedupe [simp]: "distinct (dedupe xs)"
  by (simp add: dedupe_def)

lemma dedupe_filter: "dedupe (filter P xs) = filter P (dedupe xs)"
proof -
  have "remdups (filter P ys) = filter P (remdups ys)" for ys :: "'a list" by (induction ys) auto
  then show ?thesis by (simp add: dedupe_def rev_filter)
qed

lemma dedupe_Cons: "dedupe (x # xs) = x # filter (\<lambda>y. y \<noteq> x) (dedupe xs)"
proof -
  have "remdups (ys @ [x]) = filter (\<lambda>y. y \<noteq> x) (remdups ys) @ [x]" for ys by (induction ys) auto
  then show ?thesis by (simp add: dedupe_def rev_filter)
qed

text \<open>The scopes a request asks for that a grant can leave out, in the order asked.\<close>

definition reportable_scopes :: "string list \<Rightarrow> string list" where
  "reportable_scopes requested =
     filter (\<lambda>s. s \<noteq> [] \<and> s \<notin> set informational_oauth_scopes)
       (map canonical_oauth_scope (filter (\<lambda>s. \<not> is_meta_oauth_scope s) (map js_trim requested)))"

lemma missing_loop:
  "missing_scopes_loop granted visited rs =
     filter (\<lambda>s. s \<notin> set granted \<and> s \<notin> set visited) (dedupe (reportable_scopes rs))"
proof (induction rs arbitrary: visited)
  case Nil
  show ?case by (simp add: reportable_scopes_def dedupe_def)
next
  case (Cons r rs)
  have step: "reportable_scopes (r # rs) =
      (let s = canonical_oauth_scope (js_trim r) in
       if \<not> is_meta_oauth_scope (js_trim r) \<and> s \<noteq> [] \<and> s \<notin> set informational_oauth_scopes
       then s # reportable_scopes rs else reportable_scopes rs)"
    by (simp add: reportable_scopes_def Let_def)
  show ?case
    by (simp add: step Let_def Cons.IH dedupe_Cons filter_filter) (auto intro: filter_cong)
qed

text \<open>The scopes recorded as missing are the scopes asked for, in their order and each once, less
  those the grant covers: both sides are compared by their canonical name, the scopes that only
  inform the client and the meta-scopes are never missing.\<close>

theorem missing_granted_spec:
  "missing_granted_oauth_scopes requested recorded =
     filter (\<lambda>s. s \<notin> set (normalized_oauth_scopes (case recorded of None \<Rightarrow> [] | Some t \<Rightarrow> split_spaces [] t)))
       (dedupe (reportable_scopes requested)) \<and>
   distinct (missing_granted_oauth_scopes requested recorded)"
  by (simp add: missing_granted_oauth_scopes_def missing_loop)

lemma graph_scope_granted:
  "missing_granted_oauth_scopes [''Mail.ReadWrite'', ''offline_access''] (Some ''https://graph.microsoft.com/Mail.ReadWrite'') = []"
  by code_simp

section \<open>A fresh slug\<close>

lemma next_suffix_free: "suffixed base (next_suffix base used k) \<notin> set used"
  by (induction base used k rule: next_suffix.induct) (subst next_suffix.simps, simp)

lemma next_suffix_ge: "k \<le> next_suffix base used k"
  by (induction base used k rule: next_suffix.induct) (subst next_suffix.simps, auto)

lemma next_suffix_least: "k \<le> n \<Longrightarrow> n < next_suffix base used k \<Longrightarrow> suffixed base n \<in> set used"
proof (induction base used k rule: next_suffix.induct)
  case (1 base used k)
  then show ?case by (cases "n = k") (auto simp: next_suffix.simps [of base used k] split: if_splits)
qed

text \<open>A new registration's slug is one no client holds, however many are held: the wanted one when it
  is free, otherwise the first free one with a numeric suffix from 2 on.\<close>

theorem unique_dcr_slug_fresh:
  "unique_dcr_slug slug used \<notin> set used \<and>
   (slug \<notin> set used \<longrightarrow> unique_dcr_slug slug used = slug) \<and>
   (slug \<in> set used \<longrightarrow> (\<exists>n \<ge> 2. unique_dcr_slug slug used = suffixed (slug @ ''-'') n \<and> (\<forall>m \<ge> 2. m < n \<longrightarrow> suffixed (slug @ ''-'') m \<in> set used)))"
proof (cases "slug \<in> set used")
  case True
  have "\<forall>m \<ge> 2. m < next_suffix (slug @ ''-'') used 2 \<longrightarrow> suffixed (slug @ ''-'') m \<in> set used" by (simp add: next_suffix_least)
  with True next_suffix_ge [of 2 "slug @ ''-''" used] show ?thesis by (auto simp: unique_dcr_slug_def next_suffix_free)
qed (simp add: unique_dcr_slug_def)

lemma unique_dcr_slug_fresh_witness:
  "unique_dcr_slug ''dcr-a'' [''dcr-a'', ''dcr-a-2''] \<notin> {''dcr-a'', ''dcr-a-2''}"
  using unique_dcr_slug_fresh [of "''dcr-a''" "[''dcr-a'', ''dcr-a-2'']"] by simp

section \<open>Where a token request may go\<close>

lemma sibling_parent:
  assumes "sibling_parent_domain_of h = Some p"
  shows "\<exists>l. h = l @ ''.'' @ p \<and> CHR ''.'' \<notin> set l \<and> CHR ''.'' \<in> set p"
proof -
  obtain l ls where ls: "js_split (CHR ''.'') h = l # ls" using js_split_nonempty by (cases "js_split (CHR ''.'') h") auto
  with assms have p: "p = js_join ''.'' ls" "ls \<noteq> []" "CHR ''.'' \<in> set p"
    by (auto simp: sibling_parent_domain_of_def Let_def split: if_splits)
  have "h = l @ ''.'' @ js_join ''.'' ls" using js_join_split [of "CHR ''.''" h] p(2) by (simp add: ls js_join_Cons)
  moreover have "CHR ''.'' \<notin> set l" using js_split_no_sep [of l "CHR ''.''" h] by (simp add: ls)
  ultimately show ?thesis using p by blast
qed

text \<open>C13: whatever domain the browser brings back, a token request goes to the configured endpoint, or to
  that endpoint on a sibling host: over https, with the same port, path and query, under a host
  that differs in its first label only, below a parent of at least two labels.\<close>

theorem token_host_stays:
  "rebind_token_endpoint_host up token_url cb = token_url \<or>
   (\<exists>u a b p. up token_url = Some u \<and> ur_protocol u = ''https:'' \<and>
      js_lower (ur_hostname u) = a @ ''.'' @ p \<and>
      rebind_token_endpoint_host up token_url cb = url_href (u\<lparr>ur_hostname := b @ ''.'' @ p\<rparr>) \<and>
      CHR ''.'' \<notin> set a \<and> CHR ''.'' \<notin> set b \<and> CHR ''.'' \<in> set p)"
proof (cases "rebind_token_endpoint_host up token_url cb = token_url")
  case False
  then obtain u t p where u: "up token_url = Some u" "ur_protocol u = ''https:''"
    "sibling_parent_domain_of (js_lower (ur_hostname u)) = Some p" "sibling_parent_domain_of t = Some p"
    "rebind_token_endpoint_host up token_url cb = url_href (u\<lparr>ur_hostname := t\<rparr>)"
    by (auto simp: rebind_token_endpoint_host_def Let_def split: option.splits if_splits)
  from sibling_parent [OF u(3)] sibling_parent [OF u(4)] u show ?thesis by blast
qed simp

text \<open>A URL \<open>https://host/path\<close>, as the platform parses it.\<close>

definition simple_url :: "string \<Rightarrow> string \<Rightarrow> js_url" where
  "simple_url host path = \<lparr>ur_protocol = ''https:'', ur_username = [], ur_password = [], ur_hostname = host,
     ur_port = [], ur_pathname = path, ur_query = None, ur_fragment = None, ur_authority = True\<rparr>"

text \<open>A parent of two labels can be a public suffix, so a host registered directly under one can be
  exchanged for any other such host.\<close>

lemma rebind_crosses_public_suffix:
  "rebind_token_endpoint_host
     (map_of [(''https://shop.co.uk/token'', simple_url ''shop.co.uk'' ''/token''), (''https://evil.co.uk'', simple_url ''evil.co.uk'' ''/'')])
     ''https://shop.co.uk/token'' (Some ''evil.co.uk'') = ''https://evil.co.uk/token''"
  by code_simp

end
