(* ===== verification/OAuthRequests.thy ===== *)
theory OAuthRequests
  imports OAuthHelpers
begin

text \<open>
  What is sent through the browser and to the token endpoint, and what comes back
  (\<open>sdk/src/oauth-helpers.ts\<close>, \<open>oauth.ts\<close>): the authorization URL, the callback state, the token
  requests, the error code of a refused request and the label of an identity token. The library
  \<open>oauth4webapi\<close> sends the requests and validates the responses: it is a parameter, and so are
  the platform's codecs.
\<close>

section \<open>The authorization URL\<close>

text \<open>\<open>URLSearchParams.set\<close>: the first occurrence takes the value, the others go.\<close>

fun set_param :: "string \<Rightarrow> string \<Rightarrow> (string \<times> string) list \<Rightarrow> (string \<times> string) list" where
  "set_param k v [] = [(k, v)]"
| "set_param k v ((k', v') # ps) =
     (if k' = k then (k, v) # filter (\<lambda>p. fst p \<noteq> k) ps else (k', v') # set_param k v ps)"

definition set_params :: "(string \<times> string) list \<Rightarrow> (string \<times> string) list \<Rightarrow> (string \<times> string) list" where
  "set_params kvs ps = fold (\<lambda>(k, v). set_param k v) kvs ps"

record authorization_request =
  ar_url :: string
  ar_client_id :: string
  ar_redirect_url :: string
  ar_scopes :: "string list"
  ar_scope_separator :: "string option"
  ar_state :: string
  ar_code_challenge :: string
  ar_resource :: "string option"
  ar_extra :: "(string \<times> string) list"

definition authorization_params :: "authorization_request \<Rightarrow> (string \<times> string) list" where
  "authorization_params rq =
     [(''client_id'', ar_client_id rq), (''redirect_uri'', ar_redirect_url rq), (''response_type'', ''code'')] @
     (if ar_scopes rq = [] then []
      else [(''scope'', js_join (case ar_scope_separator rq of None \<Rightarrow> '' '' | Some s \<Rightarrow> s) (ar_scopes rq))]) @
     [(''state'', ar_state rq), (''code_challenge_method'', ''S256''), (''code_challenge'', ar_code_challenge rq)] @
     (case nonempty (ar_resource rq) of None \<Rightarrow> [] | Some r \<Rightarrow> [(''resource'', r)]) @
     ar_extra rq"

text \<open>\<open>params\<close> and \<open>query\<close> parse and print a query string; the error is the \<open>TypeError\<close> thrown.\<close>

definition build_authorization_url ::
  "url_parser \<Rightarrow> (string \<Rightarrow> (string \<times> string) list) \<Rightarrow> ((string \<times> string) list \<Rightarrow> string) \<Rightarrow> bool \<Rightarrow>
   authorization_request \<Rightarrow> string + string" where
  "build_authorization_url up params query allow_http rq =
     err_bind (assert_supported_oauth_endpoint_url up allow_http ''Authorization URL'' (ar_url rq)) (\<lambda>v.
       case up v of
         None \<Rightarrow> Inl ''Invalid URL''
       | Some u \<Rightarrow>
           Inr (url_href (u\<lparr>ur_query := Some (query (set_params (authorization_params rq)
             (case ur_query u of None \<Rightarrow> [] | Some q \<Rightarrow> params q)))\<rparr>)))"

definition provider_authorize_extras :: "url_parser \<Rightarrow> string \<Rightarrow> (string \<times> string) list" where
  "provider_authorize_extras up authorization_url =
     (case up authorization_url of
        None \<Rightarrow> []
      | Some u \<Rightarrow> if js_lower (url_host u) = ''accounts.google.com''
                  then [(''access_type'', ''offline''), (''prompt'', ''consent'')] else [])"

section \<open>The callback state\<close>

definition encode_oauth_callback_state :: "(string \<Rightarrow> string) \<Rightarrow> string \<Rightarrow> string option \<Rightarrow> string" where
  "encode_oauth_callback_state b64 state org_slug =
     (case nonempty (map_option js_trim org_slug) of
        None \<Rightarrow> state
      | Some slug \<Rightarrow> b64 (''{'' @ json_quote ''state'' @ '':'' @ json_quote state @ '','' @ json_quote ''orgSlug'' @ '':''
                         @ json_quote slug @ ''}''))"

definition decode_oauth_callback_state ::
  "(string \<Rightarrow> string option) \<Rightarrow> (string \<Rightarrow> jsval option) \<Rightarrow> string option \<Rightarrow> (string \<times> string) option" where
  "decode_oauth_callback_state unb64 json v =
     (case nonempty v of
        None \<Rightarrow> None
      | Some s \<Rightarrow>
          (case unb64 s of
             None \<Rightarrow> None
           | Some t \<Rightarrow>
               (case json t of
                  None \<Rightarrow> None
                | Some d \<Rightarrow>
                    (case (obj_get d ''state'', obj_get d ''orgSlug'') of
                       (JStr st, JStr slug) \<Rightarrow> if js_trim slug = [] then None else Some (st, js_trim slug)
                     | _ \<Rightarrow> None))))"

section \<open>Token requests\<close>

datatype client_auth = NoAuth | SecretBasic string | SecretPost string

text \<open>\<open>DEFAULT_CLIENT_AUTH_METHOD\<close> is the secret in the body.\<close>

definition pick_client_auth :: "string \<Rightarrow> bool \<Rightarrow> client_auth" where
  "pick_client_auth client_secret basic =
     (if client_secret = [] then NoAuth
      else if basic then SecretBasic client_secret else SecretPost client_secret)"

record token_request =
  tr_issuer :: string
  tr_endpoint :: string
  tr_client_id :: string
  tr_auth :: client_auth
  tr_grant :: string
  tr_params :: "(string \<times> string) list"
  tr_allow_insecure :: bool

definition as_from_token_url :: "url_parser \<Rightarrow> bool \<Rightarrow> string \<Rightarrow> string + string" where
  "as_from_token_url up allow_http token_url =
     err_bind (assert_supported_oauth_endpoint_url up allow_http ''Token URL'' token_url) (\<lambda>v.
       case up v of None \<Rightarrow> Inl ''Invalid URL'' | Some u \<Rightarrow> Inr (ur_protocol u @ ''//'' @ url_host u))"

definition allow_insecure_requests :: "url_parser \<Rightarrow> bool \<Rightarrow> string \<Rightarrow> bool" where
  "allow_insecure_requests up allow_http target \<longleftrightarrow>
     is_loopback_http_url up target \<or>
     (case up target of None \<Rightarrow> False | Some u \<Rightarrow> ur_protocol u = ''http:'' \<and> allow_http)"

definition authorization_code_request ::
  "url_parser \<Rightarrow> bool \<Rightarrow> string \<Rightarrow> string \<Rightarrow> string \<Rightarrow> string \<Rightarrow> string \<Rightarrow> string \<Rightarrow> string option \<Rightarrow>
   string + token_request" where
  "authorization_code_request up allow_http token_url client_id client_secret redirect_url code_verifier code resource =
     err_bind (as_from_token_url up allow_http token_url) (\<lambda>issuer.
       Inr \<lparr>tr_issuer = issuer, tr_endpoint = token_url, tr_client_id = client_id,
            tr_auth = pick_client_auth client_secret False, tr_grant = ''authorization_code'',
            tr_params = [(''code'', code), (''redirect_uri'', redirect_url), (''code_verifier'', code_verifier)] @
              (case nonempty resource of None \<Rightarrow> [] | Some r \<Rightarrow> [(''resource'', r)]),
            tr_allow_insecure = allow_insecure_requests up allow_http token_url\<rparr>)"

definition client_credentials_request ::
  "url_parser \<Rightarrow> bool \<Rightarrow> string \<Rightarrow> string \<Rightarrow> string \<Rightarrow> string list \<Rightarrow> string option \<Rightarrow> string + token_request" where
  "client_credentials_request up allow_http token_url client_id client_secret scopes resource =
     err_bind (as_from_token_url up allow_http token_url) (\<lambda>issuer.
       Inr \<lparr>tr_issuer = issuer, tr_endpoint = token_url, tr_client_id = client_id,
            tr_auth = pick_client_auth client_secret False, tr_grant = ''client_credentials'',
            tr_params = (if scopes = [] then [] else [(''scope'', js_join '' '' scopes)]) @
              (case nonempty resource of None \<Rightarrow> [] | Some r \<Rightarrow> [(''resource'', r)]),
            tr_allow_insecure = allow_insecure_requests up allow_http token_url\<rparr>)"

section \<open>What a refused request tells\<close>

definition RFC6749_TOKEN_ERROR_CODES :: "string list" where
  "RFC6749_TOKEN_ERROR_CODES =
     [''invalid_request'', ''invalid_client'', ''invalid_grant'', ''unauthorized_client'',
      ''unsupported_grant_type'', ''invalid_scope'']"

definition rfc6749_code_from_candidate :: "jsval \<Rightarrow> string option" where
  "rfc6749_code_from_candidate v =
     (case v of
        JStr s \<Rightarrow> (let t = js_trim s in
          find (\<lambda>code. t = code \<or> js_starts_with t (code @ '' '') \<or> js_starts_with t (code @ '':'')) RFC6749_TOKEN_ERROR_CODES)
      | _ \<Rightarrow> None)"

fun first_code :: "jsval list \<Rightarrow> string option" where
  "first_code [] = None"
| "first_code (v # vs) = (case rfc6749_code_from_candidate v of Some c \<Rightarrow> Some c | None \<Rightarrow> first_code vs)"

definition oauth_error_code_from_non_conform_body :: "(string \<Rightarrow> jsval option) \<Rightarrow> string \<Rightarrow> string option" where
  "oauth_error_code_from_non_conform_body json body =
     (case json body of
        None \<Rightarrow> None
      | Some d \<Rightarrow>
          (case rfc6749_code_from_candidate (obj_get d ''error'') of
             Some c \<Rightarrow> Some c
           | None \<Rightarrow> (case obj_get d ''errors'' of JArr vs \<Rightarrow> first_code vs | _ \<Rightarrow> None)))"

text \<open>\<open>toOAuth2Error\<close> and \<open>toOAuth2ErrorWithHttpSummary\<close> on what the library throws: the code and
  description it parsed, and the status and body of the response it refused, with the summary
  of that response.\<close>

record library_error =
  le_error :: "string option"
  le_description :: "string option"
  le_message :: "string option"
  le_response :: "(int \<times> string \<times> string) option"

definition to_oauth2_message :: "library_error \<Rightarrow> string" where
  "to_oauth2_message c =
     ''OAuth token exchange failed: '' @
     (case le_description c of Some d \<Rightarrow> d
      | None \<Rightarrow> (case le_message c of Some m \<Rightarrow> m
          | None \<Rightarrow> (case le_error c of Some e \<Rightarrow> e | None \<Rightarrow> ''unknown error'')))"

definition to_oauth2_error_with_summary :: "(string \<Rightarrow> jsval option) \<Rightarrow> library_error \<Rightarrow> string \<times> string option" where
  "to_oauth2_error_with_summary json c =
     (case le_response c of
        None \<Rightarrow> (to_oauth2_message c, le_error c)
      | Some (status, body, summary) \<Rightarrow>
          (to_oauth2_message c @ '' ('' @ summary @ '')'',
           (case le_error c of
              Some e \<Rightarrow> Some e
            | None \<Rightarrow> if 400 \<le> status \<and> status < 500 then oauth_error_code_from_non_conform_body json body else None)))"

section \<open>The label of an identity token\<close>

definition is_base64url :: "char \<Rightarrow> bool" where
  "is_base64url c \<longleftrightarrow> ident_part c \<and> c \<noteq> CHR ''$'' \<or> c = CHR ''-''"

definition decode_jwt_payload :: "(string \<Rightarrow> string) \<Rightarrow> (string \<Rightarrow> jsval option) \<Rightarrow> string \<Rightarrow> jsval option" where
  "decode_jwt_payload atob json token =
     (case js_split (CHR ''.'') token of
        _ # payload # _ \<Rightarrow>
          if payload = [] \<or> \<not> list_all is_base64url payload \<or> length payload mod 4 = 1 then None
          else (let b = map (\<lambda>c. if c = CHR ''-'' then CHR ''+'' else if c = CHR ''_'' then CHR ''/'' else c) payload;
                    padded = b @ replicate ((4 - length b mod 4) mod 4) (CHR ''='')
                in case json (atob padded) of Some d \<Rightarrow> (if is_object d then Some d else None) | None \<Rightarrow> None)
      | _ \<Rightarrow> None)"

definition string_claim :: "jsval \<Rightarrow> string \<Rightarrow> string option" where
  "string_claim claims k = (case obj_get claims k of JStr s \<Rightarrow> nonempty (Some (js_trim s)) | _ \<Rightarrow> None)"

definition id_token_identity_label :: "(string \<Rightarrow> string) \<Rightarrow> (string \<Rightarrow> jsval option) \<Rightarrow> string option \<Rightarrow> string option" where
  "id_token_identity_label atob json id_token =
     (case nonempty id_token of
        None \<Rightarrow> None
      | Some t \<Rightarrow>
          (case decode_jwt_payload atob json t of
             None \<Rightarrow> None
           | Some claims \<Rightarrow>
               (case string_claim claims ''email'' of Some l \<Rightarrow> Some l
                | None \<Rightarrow> (case string_claim claims ''preferred_username'' of Some l \<Rightarrow> Some l
                    | None \<Rightarrow> string_claim claims ''sub''))))"


section \<open>Properties\<close>

lemma filter_set_param:
  "filter (\<lambda>p. fst p = k) (set_param k' v ps) = (if k = k' then [(k', v)] else filter (\<lambda>p. fst p = k) ps)"
  by (induction k' v ps rule: set_param.induct) (auto simp: filter_empty_conv intro: filter_cong)

lemma filter_set_params:
  "distinct (map fst kvs) \<Longrightarrow>
   filter (\<lambda>p. fst p = k) (set_params kvs ps) =
     (case map_of kvs k of Some v \<Rightarrow> [(k, v)] | None \<Rightarrow> filter (\<lambda>p. fst p = k) ps)"
proof (induction kvs arbitrary: ps)
  case (Cons p kvs)
  obtain k' v where p: "p = (k', v)" by (cases p)
  have "set_params (p # kvs) ps = set_params kvs (set_param k' v ps)" by (simp add: set_params_def p)
  moreover have "map_of kvs k' = None" using Cons.prems by (simp add: p map_of_eq_None_iff)
  ultimately show ?case using Cons by (auto simp: p filter_set_param split: option.splits)
qed (simp add: set_params_def)

lemma authorization_keys_distinct:
  assumes "ar_extra rq = provider_authorize_extras up url"
  shows "distinct (map fst (authorization_params rq))"
proof -
  consider "ar_extra rq = []" | "ar_extra rq = [(''access_type'', ''offline''), (''prompt'', ''consent'')]"
    using assms by (auto simp: provider_authorize_extras_def split: option.splits if_splits)
  then show ?thesis by cases (auto simp: authorization_params_def split: option.split)
qed

text \<open>The authorization URL carries every parameter of the flow exactly once and with the flow's value,
  whatever query the registered endpoint came with: a \<open>state\<close>, a \<open>code_challenge\<close>, or a weaker
  challenge method in it is replaced, and its other parameters are kept.\<close>

theorem authorization_params_enforced:
  assumes "ar_extra rq = provider_authorize_extras up url" "up (ar_url rq) = Some u"
    and "is_supported_oauth_endpoint_url up allow_http (ar_url rq)"
  shows "\<exists>ps. build_authorization_url up params query allow_http rq = Inr (url_href (u\<lparr>ur_query := Some (query ps)\<rparr>)) \<and>
    (\<forall>k v. (k, v) \<in> set (authorization_params rq) \<longrightarrow> filter (\<lambda>p. fst p = k) ps = [(k, v)]) \<and>
    (''response_type'', ''code'') \<in> set ps \<and> (''state'', ar_state rq) \<in> set ps \<and>
    (''code_challenge_method'', ''S256'') \<in> set ps \<and> (''code_challenge'', ar_code_challenge rq) \<in> set ps"
proof -
  let ?old = "case ur_query u of None \<Rightarrow> [] | Some q \<Rightarrow> params q"
  let ?ps = "set_params (authorization_params rq) ?old"
  have one: "filter (\<lambda>p. fst p = k) ?ps = [(k, v)]" if "(k, v) \<in> set (authorization_params rq)" for k v
    using filter_set_params [OF authorization_keys_distinct [OF assms(1)], of k ?old]
      map_of_is_SomeI [OF authorization_keys_distinct [OF assms(1)] that] by simp
  have mem: "(k, v) \<in> set ?ps" if "(k, v) \<in> set (authorization_params rq)" for k v
    using arg_cong [OF one [OF that], of set] by auto
  have "build_authorization_url up params query allow_http rq = Inr (url_href (u\<lparr>ur_query := Some (query ?ps)\<rparr>))"
    using assms(2,3) by (simp add: build_authorization_url_def assert_supported_oauth_endpoint_url_def)
  moreover have "(''response_type'', ''code'') \<in> set (authorization_params rq)"
    "(''state'', ar_state rq) \<in> set (authorization_params rq)"
    "(''code_challenge_method'', ''S256'') \<in> set (authorization_params rq)"
    "(''code_challenge'', ar_code_challenge rq) \<in> set (authorization_params rq)"
    by (simp_all add: authorization_params_def)
  ultimately show ?thesis using one mem by blast
qed

definition sample_authorization :: authorization_request where
  "sample_authorization = \<lparr>ar_url = ''https://id.test/authorize?state=x'', ar_client_id = ''c'',
     ar_redirect_url = ''https://host.test/cb'', ar_scopes = [], ar_scope_separator = None, ar_state = ''s1'',
     ar_code_challenge = ''ch'', ar_resource = None, ar_extra = []\<rparr>"

definition sample_endpoint :: js_url where
  "sample_endpoint = simple_url ''id.test'' ''/authorize'' \<lparr>ur_query := Some ''state=x''\<rparr>"

lemma authorization_params_enforced_witness:
  "\<exists>ps. build_authorization_url (\<lambda>_. Some sample_endpoint) (\<lambda>_. [(''state'', ''x'')]) (\<lambda>ps. concat (map fst ps)) False sample_authorization =
     Inr (url_href (sample_endpoint\<lparr>ur_query := Some (concat (map fst ps))\<rparr>)) \<and> filter (\<lambda>p. fst p = ''state'') ps = [(''state'', ''s1'')]"
proof -
  have "ar_extra sample_authorization = provider_authorize_extras (\<lambda>_. Some sample_endpoint) []"
    "is_supported_oauth_endpoint_url (\<lambda>_. Some sample_endpoint) False (ar_url sample_authorization)"
    "(''state'', ''s1'') \<in> set (authorization_params sample_authorization)"
    by (simp_all add: sample_authorization_def sample_endpoint_def simple_url_def provider_authorize_extras_def url_host_def
        js_lower_def to_lower_def is_supported_oauth_endpoint_url_def authorization_params_def)
  with authorization_params_enforced [OF this(1) refl this(2), of "\<lambda>_. [(''state'', ''x'')]" "\<lambda>ps. concat (map fst ps)"]
  show ?thesis by blast
qed

lemma js_trim_idem [simp]: "js_trim (js_trim s) = js_trim s"
proof -
  have drop: "dropWhile p (rev (dropWhile p (rev (dropWhile p xs)))) = rev (dropWhile p (rev (dropWhile p xs)))" for p :: "char \<Rightarrow> bool" and xs
  proof (cases "dropWhile p xs")
    case (Cons y ys)
    then have y: "\<not> p y" using hd_dropWhile [of p xs] by simp
    have "\<exists>zs. rev (dropWhile p (rev (y # ys))) = y # zs"
      using y by (simp add: dropWhile_append) (metis rev_rev_ident)
    with Cons y show ?thesis by auto
  next
    case Nil
    show ?thesis unfolding Nil by simp
  qed
  show ?thesis by (simp add: js_trim_def drop)
qed

text \<open>What is encoded into the state sent through the browser, the session's state and the
  organization, is what decoding it returns, where base64 and JSON read back what they wrote.\<close>

theorem callback_state_round_trip:
  assumes "\<And>s. unb64 (b64 s) = Some s" "\<And>s. b64 s \<noteq> []" "js_trim slug \<noteq> []"
    and "json (the (json_stringify (JObj [(''state'', JStr state), (''orgSlug'', JStr (js_trim slug))]))) =
      Some (JObj [(''state'', JStr state), (''orgSlug'', JStr (js_trim slug))])"
  shows "decode_oauth_callback_state unb64 json (Some (encode_oauth_callback_state b64 state (Some slug))) =
    Some (state, js_trim slug)"
  using assms by (simp add: decode_oauth_callback_state_def encode_oauth_callback_state_def nonempty_def prop_of_def)

lemma callback_state_round_trip_witness:
  "decode_oauth_callback_state (\<lambda>s. Some (tl s)) (\<lambda>_. Some (JObj [(''state'', JStr ''s1''), (''orgSlug'', JStr ''acme'')]))
     (Some (encode_oauth_callback_state (\<lambda>s. CHR ''b'' # s) ''s1'' (Some '' acme''))) = Some (''s1'', ''acme'')"
proof -
  have "js_trim '' acme'' = ''acme''" by code_simp
  then show ?thesis
    using callback_state_round_trip [of "\<lambda>s. Some (tl s)" "\<lambda>s. CHR ''b'' # s" "'' acme''"
      "\<lambda>_. Some (JObj [(''state'', JStr ''s1''), (''orgSlug'', JStr ''acme'')])" "''s1''"] by simp
qed

lemma rfc6749_code_known: "rfc6749_code_from_candidate v = Some c \<Longrightarrow> c \<in> set RFC6749_TOKEN_ERROR_CODES"
  by (auto simp: rfc6749_code_from_candidate_def Let_def find_Some_iff split: jsval.splits)

lemma first_code_known: "first_code vs = Some c \<Longrightarrow> c \<in> set RFC6749_TOKEN_ERROR_CODES"
  by (induction vs) (auto split: option.splits dest: rfc6749_code_known)

text \<open>A code read from the body of a refused request is one of the closed set, and only a response
  that says the client is at fault (4xx) is read for one; the code the library parsed is
  kept.\<close>

theorem recovered_code_known:
  assumes "to_oauth2_error_with_summary json c = (msg, Some code)" "le_error c \<noteq> Some code"
  shows "code \<in> set RFC6749_TOKEN_ERROR_CODES \<and> le_error c = None \<and>
    (\<exists>status body summary. le_response c = Some (status, body, summary) \<and> 400 \<le> status \<and> status < 500)"
  using assms
  by (auto simp: to_oauth2_error_with_summary_def oauth_error_code_from_non_conform_body_def
      split: option.splits prod.splits if_splits jsval.splits dest: rfc6749_code_known first_code_known)

lemma recovered_code_known_witness:
  "''invalid_grant'' \<in> set RFC6749_TOKEN_ERROR_CODES"
proof -
  let ?c = "\<lparr>le_error = None, le_description = None, le_message = Some ''m'', le_response = Some (400, ''b'', ''HTTP 400'')\<rparr>"
  have "to_oauth2_error_with_summary (\<lambda>_. Some (JObj [(''errors'', JArr [JStr ''invalid_grant - Invalid or expired refresh token''])])) ?c =
      (''OAuth token exchange failed: m (HTTP 400)'', Some ''invalid_grant'')" by code_simp
  from recovered_code_known [OF this] show ?thesis by simp
qed

end
