(* ===== verification/OAuthDiscovery.thy ===== *)
theory OAuthDiscovery
  imports OAuthRequests
begin

text \<open>
  Metadata discovery and dynamic client registration (\<open>sdk/src/oauth-discovery.ts\<close>): the protected
  resource's metadata (RFC 9728), the authorization server's (RFC 8414 and OIDC), registering a
  client (RFC 7591), and the whole dynamic flow in one call. The HTTP client is a parameter: a
  request yields a status and a body, or nothing when it failed or timed out. A thrown exception
  is a failure that no handler of the code catches. The dash in messages is printed as a hyphen.
\<close>

record http_request =
  hq_method :: string
  hq_url :: string
  hq_headers :: "(string \<times> string) list"
  hq_body :: "jsval option"

record 'x web =
  wb_url :: url_parser
  wb_params :: "string \<Rightarrow> (string \<times> string) list"
  wb_query :: "(string \<times> string) list \<Rightarrow> string"
  wb_json :: "string \<Rightarrow> jsval option"
  wb_base64 :: "string \<Rightarrow> string"
  wb_http :: "http_request \<Rightarrow> ('x, (int \<times> string) option) eff"
  wb_allow_http :: bool

section \<open>Failures\<close>

definition tagged_failure :: "string \<Rightarrow> record_vals \<Rightarrow> failure" where
  "tagged_failure tag ps = FForeign (JObj ((''_tag'', JStr tag) # ps))"

definition discovery_error :: "string \<Rightarrow> int option \<Rightarrow> string option \<Rightarrow> failure" where
  "discovery_error msg status code =
     tagged_failure ''OAuthDiscoveryError''
       ((''message'', JStr msg) # (case status of None \<Rightarrow> [] | Some n \<Rightarrow> [(''status'', JNum n)]) @
        (case code of None \<Rightarrow> [] | Some c \<Rightarrow> [(''error'', JStr c)]))"

text \<open>An exception thrown outside of \<open>Effect.try\<close>: a defect.\<close>

definition type_error :: "string \<Rightarrow> failure" where
  "type_error msg = tagged_failure ''TypeError'' [(''message'', JStr msg)]"

definition has_tag :: "string \<Rightarrow> failure \<Rightarrow> bool" where
  "has_tag tag e = (case e of FForeign v \<Rightarrow> obj_get v ''_tag'' = JStr tag | _ \<Rightarrow> False)"

definition is_defect :: "failure \<Rightarrow> bool" where
  "is_defect e = has_tag ''TypeError'' e"

definition failure_message :: "failure \<Rightarrow> string" where
  "failure_message e =
     (case e of
        FStorage (StorageError m) \<Rightarrow> m
      | FForeign v \<Rightarrow> (case obj_get v ''message'' of JStr m \<Rightarrow> m | _ \<Rightarrow> [])
      | _ \<Rightarrow> [])"

text \<open>\<open>Effect.catch\<close> and \<open>Effect.mapError\<close> see failures, not defects.\<close>

definition catch_failure :: "('x, 'a) eff \<Rightarrow> (failure \<Rightarrow> ('x, 'a) eff) \<Rightarrow> ('x, 'a) eff" where
  "catch_failure m h = eff_catch m (\<lambda>e. if is_defect e then eff_fail e else h e)"

definition map_failure :: "(failure \<Rightarrow> failure) \<Rightarrow> ('x, 'a) eff \<Rightarrow> ('x, 'a) eff" where
  "map_failure f m = catch_failure m (\<lambda>e. eff_fail (f e))"

definition parse_or_throw :: "('x, 'm) web_scheme \<Rightarrow> string \<Rightarrow> ('x, js_url) eff" where
  "parse_or_throw web v = (case wb_url web v of Some u \<Rightarrow> eff_return u | None \<Rightarrow> eff_fail (type_error ''Invalid URL''))"

section \<open>The documents\<close>

text \<open>Fields of a decoded structure: a required or an optional field of a type; \<open>None\<close> rejects it.\<close>

definition req_text :: "jsval \<Rightarrow> string \<Rightarrow> string option" where
  "req_text d k = (case obj_get d k of JStr s \<Rightarrow> Some s | _ \<Rightarrow> None)"

definition opt_field :: "(jsval \<Rightarrow> 'a option) \<Rightarrow> jsval \<Rightarrow> string \<Rightarrow> 'a option option" where
  "opt_field f d k = (case obj_get d k of JUndef \<Rightarrow> Some None | v \<Rightarrow> map_option Some (f v))"

definition text_value :: "jsval \<Rightarrow> string option" where
  "text_value v = (case v of JStr s \<Rightarrow> Some s | _ \<Rightarrow> None)"

definition bool_value :: "jsval \<Rightarrow> bool option" where
  "bool_value v = (case v of JBool b \<Rightarrow> Some b | _ \<Rightarrow> None)"

definition num_value :: "jsval \<Rightarrow> int option" where
  "num_value v = (case v of JNum n \<Rightarrow> Some n | _ \<Rightarrow> None)"

definition texts_value :: "jsval \<Rightarrow> string list option" where
  "texts_value v = (case v of JArr vs \<Rightarrow> those (map text_value vs) | _ \<Rightarrow> None)"

record resource_metadata =
  rm_resource :: "string option"
  rm_authorization_servers :: "string list option"
  rm_scopes_supported :: "string list option"

definition decode_resource_metadata :: "jsval \<Rightarrow> resource_metadata option" where
  "decode_resource_metadata d =
     (if \<not> is_object d then None
      else case (opt_field text_value d ''resource'', opt_field texts_value d ''authorization_servers'',
                 opt_field texts_value d ''scopes_supported'', opt_field texts_value d ''bearer_methods_supported'',
                 opt_field text_value d ''resource_documentation'') of
        (Some r, Some servers, Some scopes, Some _, Some _) \<Rightarrow>
          Some \<lparr>rm_resource = r, rm_authorization_servers = servers, rm_scopes_supported = scopes\<rparr>
      | _ \<Rightarrow> None)"

record server_metadata =
  sm_issuer :: string
  sm_authorization_endpoint :: string
  sm_token_endpoint :: string
  sm_registration_endpoint :: "string option"
  sm_client_id_metadata_document :: "bool option"
  sm_scopes_supported :: "string list option"
  sm_response_types :: "string list option"
  sm_grant_types :: "string list option"
  sm_code_challenge_methods :: "string list option"
  sm_auth_methods :: "string list option"
  sm_revocation_endpoint :: "string option"
  sm_introspection_endpoint :: "string option"
  sm_userinfo_endpoint :: "string option"
  sm_id_token_signing_algs :: "string list option"

definition decode_server_metadata :: "jsval \<Rightarrow> server_metadata option" where
  "decode_server_metadata d =
     (if \<not> is_object d then None
      else case (req_text d ''issuer'', req_text d ''authorization_endpoint'', req_text d ''token_endpoint'',
                 opt_field text_value d ''registration_endpoint'',
                 opt_field bool_value d ''client_id_metadata_document_supported'',
                 opt_field texts_value d ''scopes_supported'', opt_field texts_value d ''response_types_supported'',
                 opt_field texts_value d ''grant_types_supported'',
                 opt_field texts_value d ''code_challenge_methods_supported'',
                 opt_field texts_value d ''token_endpoint_auth_methods_supported'',
                 opt_field text_value d ''revocation_endpoint'', opt_field text_value d ''introspection_endpoint'',
                 opt_field text_value d ''userinfo_endpoint'',
                 opt_field texts_value d ''id_token_signing_alg_values_supported'') of
        (Some i, Some a, Some t, Some r, Some c, Some s, Some rt, Some gt, Some cc, Some am, Some rv, Some it, Some ui, Some ia) \<Rightarrow>
          Some \<lparr>sm_issuer = i, sm_authorization_endpoint = a, sm_token_endpoint = t, sm_registration_endpoint = r,
                sm_client_id_metadata_document = c, sm_scopes_supported = s, sm_response_types = rt, sm_grant_types = gt,
                sm_code_challenge_methods = cc, sm_auth_methods = am, sm_revocation_endpoint = rv,
                sm_introspection_endpoint = it, sm_userinfo_endpoint = ui, sm_id_token_signing_algs = ia\<rparr>
      | _ \<Rightarrow> None)"

record client_information =
  ci_client_id :: string
  ci_client_secret :: "string option"

definition decode_client_information :: "jsval \<Rightarrow> client_information option" where
  "decode_client_information d =
     (if \<not> is_object d \<or>
         (\<exists>k \<in> set [''registration_access_token'', ''registration_client_uri'', ''token_endpoint_auth_method'', ''client_name'', ''scope''].
            opt_field text_value d k = None) \<or>
         (\<exists>k \<in> set [''client_id_issued_at'', ''client_secret_expires_at'']. opt_field num_value d k = None) \<or>
         (\<exists>k \<in> set [''grant_types'', ''response_types'', ''redirect_uris'']. opt_field texts_value d k = None) then None
      else case (req_text d ''client_id'', opt_field text_value d ''client_secret'') of
        (Some i, Some s) \<Rightarrow> Some \<lparr>ci_client_id = i, ci_client_secret = s\<rparr>
      | _ \<Rightarrow> None)"

section \<open>Requests\<close>

record discovery_options =
  do_mcp_version :: "string option"
  do_resource_headers :: "(string \<times> string) list"
  do_resource_params :: "(string \<times> string) list"

definition no_options :: discovery_options where
  "no_options = \<lparr>do_mcp_version = None, do_resource_headers = [], do_resource_params = []\<rparr>"

definition validate_endpoint_url :: "('x, 'm) web_scheme \<Rightarrow> string \<Rightarrow> string \<Rightarrow> ('x, unit) eff" where
  "validate_endpoint_url web v label =
     (case assert_supported_oauth_endpoint_url (wb_url web) (wb_allow_http web) label v of
        Inr _ \<Rightarrow> eff_return ()
      | Inl msg \<Rightarrow> eff_fail (discovery_error msg None None))"

definition validate_server_metadata :: "('x, 'm) web_scheme \<Rightarrow> server_metadata \<Rightarrow> ('x, unit) eff" where
  "validate_server_metadata web md =
     eff_bind (validate_endpoint_url web (sm_issuer md) ''issuer'') (\<lambda>_.
     eff_bind (validate_endpoint_url web (sm_authorization_endpoint md) ''authorization_endpoint'') (\<lambda>_.
     eff_bind (validate_endpoint_url web (sm_token_endpoint md) ''token_endpoint'') (\<lambda>_.
       case nonempty (sm_registration_endpoint md) of
         None \<Rightarrow> eff_return ()
       | Some r \<Rightarrow> validate_endpoint_url web r ''registration_endpoint'')))"

definition execute_text :: "('x, 'm) web_scheme \<Rightarrow> http_request \<Rightarrow> string \<Rightarrow> ('x, int \<times> string) eff" where
  "execute_text web rq msg =
     eff_bind (wb_http web rq) (\<lambda>r. case r of None \<Rightarrow> eff_fail (discovery_error msg None None) | Some p \<Rightarrow> eff_return p)"

definition mcp_header :: "discovery_options \<Rightarrow> (string \<times> string) list" where
  "mcp_header opts = (case nonempty (do_mcp_version opts) of None \<Rightarrow> [] | Some v \<Rightarrow> [(''mcp-protocol-version'', v)])"

text \<open>Header names are compared in lower case.\<close>

definition get_request :: "string \<Rightarrow> (string \<times> string) list \<Rightarrow> http_request" where
  "get_request url headers =
     \<lparr>hq_method = ''GET'', hq_url = url,
      hq_headers = set_params (map (\<lambda>(k, v). (js_lower k, v)) ((''accept'', ''application/json'') # headers)) [],
      hq_body = None\<rparr>"

section \<open>The protected resource\<close>

definition build_resource_metadata_urls :: "js_url \<Rightarrow> string list" where
  "build_resource_metadata_urls u =
     (let origin = ur_protocol u @ ''//'' @ url_host u;
          path = strip_trailing (CHR ''/'') (ur_pathname u) in
      (if path \<noteq> [] \<and> path \<noteq> ''/'' then [origin @ ''/.well-known/oauth-protected-resource'' @ path] else []) @
      [origin @ ''/.well-known/oauth-protected-resource''])"

definition with_resource_query_params :: "('x, 'm) web_scheme \<Rightarrow> discovery_options \<Rightarrow> string \<Rightarrow> ('x, string) eff" where
  "with_resource_query_params web opts url =
     (if do_resource_params opts = [] then eff_return url
      else eff_bind (parse_or_throw web url) (\<lambda>u. eff_return (url_href (u\<lparr>ur_query := Some (wb_query web
             (set_params (do_resource_params opts) (case ur_query u of None \<Rightarrow> [] | Some q \<Rightarrow> wb_params web q)))\<rparr>))))"

fun probe_resource ::
  "('x, 'm) web_scheme \<Rightarrow> discovery_options \<Rightarrow> string list \<Rightarrow> ('x, (string \<times> resource_metadata) option) eff" where
  "probe_resource web opts [] = eff_return None"
| "probe_resource web opts (url # urls) =
     eff_bind (with_resource_query_params web opts url) (\<lambda>request_url.
     eff_bind (execute_text web (get_request request_url (do_resource_headers opts @ mcp_header opts))
       (''Failed to fetch protected resource metadata from '' @ url)) (\<lambda>(status, body).
       if status = 404 \<or> status = 405 \<or> body = [] then probe_resource web opts urls
       else if status < 200 \<or> status \<ge> 300 then
         eff_fail (discovery_error (''Protected resource metadata returned status '' @ int_to_string status) (Some status) None)
       else case Option.bind (wb_json web body) decode_resource_metadata of
         None \<Rightarrow> eff_fail (discovery_error ''Protected resource metadata is malformed'' None None)
       | Some md \<Rightarrow> eff_return (Some (url, md))))"

definition discover_protected_resource_metadata ::
  "('x, 'm) web_scheme \<Rightarrow> discovery_options \<Rightarrow> string \<Rightarrow> ('x, (string \<times> resource_metadata) option) eff" where
  "discover_protected_resource_metadata web opts resource_url =
     eff_bind (parse_or_throw web resource_url) (\<lambda>u. probe_resource web opts (build_resource_metadata_urls u))"

section \<open>The authorization server\<close>

definition well_known_url_for :: "string \<Rightarrow> bool \<Rightarrow> string \<Rightarrow> string" where
  "well_known_url_for origin oidc path =
     (let suffix = (if oidc then ''openid-configuration'' else ''oauth-authorization-server'') in
      if path \<noteq> [] \<and> path \<noteq> ''/'' then origin @ ''/.well-known/'' @ suffix @ path
      else origin @ ''/.well-known/'' @ suffix)"

definition malformed_server :: failure where
  "malformed_server = discovery_error ''Authorization server metadata is malformed'' None None"

fun probe_server ::
  "('x, 'm) web_scheme \<Rightarrow> discovery_options \<Rightarrow> string \<Rightarrow> string \<Rightarrow> string \<Rightarrow> bool list \<Rightarrow> ('x, (string \<times> server_metadata) option) eff" where
  "probe_server web opts issuer origin path [] = eff_return None"
| "probe_server web opts issuer origin path (oidc # rest) =
     (let url = well_known_url_for origin oidc path in
      eff_bind (eff_result (execute_text web (get_request url (mcp_header opts))
        (''Discovery ('' @ (if oidc then ''oidc'' else ''oauth2'') @ '') failed for '' @ issuer))) (\<lambda>res.
        case res of
          Inl e \<Rightarrow> if is_defect e then eff_fail e else probe_server web opts issuer origin path rest
        | Inr (status, body) \<Rightarrow>
            if status = 404 \<or> status = 405 then probe_server web opts issuer origin path rest
            else if status < 200 \<or> status \<ge> 300 then probe_server web opts issuer origin path rest
            else case Option.bind (wb_json web body) decode_server_metadata of
              None \<Rightarrow> eff_fail malformed_server
            | Some md \<Rightarrow> eff_bind (validate_server_metadata web md) (\<lambda>_. eff_return (Some (url, md)))))"

definition discover_authorization_server_metadata ::
  "('x, 'm) web_scheme \<Rightarrow> discovery_options \<Rightarrow> string \<Rightarrow> ('x, (string \<times> server_metadata) option) eff" where
  "discover_authorization_server_metadata web opts issuer =
     eff_bind (validate_endpoint_url web issuer ''issuer'') (\<lambda>_.
     eff_bind (parse_or_throw web issuer) (\<lambda>u.
       probe_server web opts issuer (ur_protocol u @ ''//'' @ url_host u)
         (strip_trailing (CHR ''/'') (ur_pathname u)) [False, True]))"

section \<open>Registering a client\<close>

record client_metadata =
  cm_client_name :: "string option"
  cm_redirect_uris :: "string list"
  cm_grant_types :: "string list option"
  cm_response_types :: "string list option"
  cm_auth_method :: "string option"
  cm_scope :: "string option"
  cm_application_type :: "string option"
  cm_client_uri :: "string option"
  cm_logo_uri :: "string option"
  cm_contacts :: "string list option"
  cm_software_id :: "string option"
  cm_software_version :: "string option"
  cm_extra :: record_vals

definition opt_prop :: "string \<Rightarrow> string option \<Rightarrow> record_vals" where
  "opt_prop k v = (case v of None \<Rightarrow> [] | Some s \<Rightarrow> [(k, JStr s)])"

definition opt_list_prop :: "string \<Rightarrow> string list option \<Rightarrow> record_vals" where
  "opt_list_prop k v = (case v of None \<Rightarrow> [] | Some xs \<Rightarrow> [(k, JArr (map JStr xs))])"

definition build_dcr_body :: "client_metadata \<Rightarrow> jsval" where
  "build_dcr_body m =
     JObj (fold (\<lambda>(k, v) ps. obj_set ps k v) (cm_extra m)
       ([(''redirect_uris'', JArr (map JStr (cm_redirect_uris m)))] @
        opt_prop ''client_name'' (cm_client_name m) @ opt_list_prop ''grant_types'' (cm_grant_types m) @
        opt_list_prop ''response_types'' (cm_response_types m) @
        opt_prop ''token_endpoint_auth_method'' (cm_auth_method m) @ opt_prop ''scope'' (cm_scope m) @
        opt_prop ''application_type'' (cm_application_type m) @ opt_prop ''client_uri'' (cm_client_uri m) @
        opt_prop ''logo_uri'' (cm_logo_uri m) @ opt_list_prop ''contacts'' (cm_contacts m) @
        opt_prop ''software_id'' (cm_software_id m) @ opt_prop ''software_version'' (cm_software_version m)))"

definition dcr_failed :: "string \<Rightarrow> int option \<Rightarrow> string option \<Rightarrow> failure" where
  "dcr_failed detail status code = discovery_error (''Dynamic Client Registration failed: '' @ detail) status code"

definition decode_dcr_error :: "jsval \<Rightarrow> (string \<times> string option) option" where
  "decode_dcr_error d =
     (if \<not> is_object d then None
      else case (req_text d ''error'', opt_field text_value d ''error_description'') of
        (Some e, Some ds) \<Rightarrow> Some (e, ds)
      | _ \<Rightarrow> None)"

definition interpret_dcr_failure :: "(string \<Rightarrow> jsval option) \<Rightarrow> int \<Rightarrow> string \<Rightarrow> failure" where
  "interpret_dcr_failure json status body =
     (let transport = dcr_failed (''Dynamic Client Registration endpoint returned status '' @ int_to_string status @
            (if body = [] then [] else '' - '' @ take 200 body)) (Some status) None in
      if 400 \<le> status \<and> status < 500 then
        (case (if body = [] then None else Option.bind (json body) decode_dcr_error) of
           None \<Rightarrow> transport
         | Some (code, description) \<Rightarrow>
             if code = [] then transport
             else dcr_failed (code @ (case nonempty description of None \<Rightarrow> [] | Some ds \<Rightarrow> '' - '' @ ds)) (Some status) (Some code))
      else transport)"

definition register_dynamic_client_dcr ::
  "('x, 'm) web_scheme \<Rightarrow> string \<Rightarrow> client_metadata \<Rightarrow> string option \<Rightarrow> ('x, client_information) eff" where
  "register_dynamic_client_dcr web endpoint md access_token =
     (case assert_supported_oauth_endpoint_url (wb_url web) (wb_allow_http web) ''registration_endpoint'' endpoint of
        Inl _ \<Rightarrow> eff_fail (dcr_failed ''registration_endpoint must use https: or loopback http:'' None None)
      | Inr _ \<Rightarrow>
          eff_bind (map_failure (\<lambda>_. dcr_failed ''Dynamic Client Registration request failed'' None None)
            (execute_text web
              \<lparr>hq_method = ''POST'', hq_url = endpoint,
               hq_headers = [(''content-type'', ''application/json''), (''accept'', ''application/json'')] @
                 (case nonempty access_token of None \<Rightarrow> [] | Some t \<Rightarrow> [(''authorization'', ''Bearer '' @ t)]),
               hq_body = Some (build_dcr_body md)\<rparr>
              ''Dynamic Client Registration request failed'')) (\<lambda>(status, body).
            if status \<noteq> 200 \<and> status \<noteq> 201 then eff_fail (interpret_dcr_failure (wb_json web) status body)
            else case Option.bind (wb_json web body) decode_client_information of
              None \<Rightarrow> eff_fail (discovery_error ''Dynamic Client Registration response is malformed'' None None)
            | Some info \<Rightarrow> eff_return info))"

section \<open>The whole dynamic flow\<close>

definition canonical_resource :: "js_url \<Rightarrow> string" where
  "canonical_resource u =
     js_lower (ur_protocol u) @ ''//'' @ js_lower (url_host u) @ strip_trailing (CHR ''/'') (ur_pathname u)"

definition validate_resource_indicator :: "('x, 'm) web_scheme \<Rightarrow> string \<Rightarrow> string \<Rightarrow> ('x, string) eff" where
  "validate_resource_indicator web v expected =
     (case wb_url web v of
        None \<Rightarrow> eff_fail (discovery_error ''Protected resource metadata resource is malformed'' None None)
      | Some u \<Rightarrow>
          (let actual = canonical_resource u in
           if actual = expected \<or> js_starts_with expected (actual @ ''/'') then eff_return actual
           else eff_fail (discovery_error ''Protected resource metadata resource does not match requested endpoint'' None None)))"

definition negotiate_auth_method :: "string list option \<Rightarrow> string option" where
  "negotiate_auth_method advertised =
     (case advertised of
        None \<Rightarrow> Some ''none''
      | Some ms \<Rightarrow> if ms = [] then Some ''none''
                  else find (\<lambda>c. c \<in> set ms) [''none'', ''client_secret_post'', ''client_secret_basic''])"

text \<open>The first candidate that has metadata; a candidate that fails is passed over.\<close>

fun first_server ::
  "('x, 'm) web_scheme \<Rightarrow> discovery_options \<Rightarrow> string list \<Rightarrow> string list \<Rightarrow> ('x, server_metadata \<times> string \<times> string) eff" where
  "first_server web opts tried [] =
     eff_fail (discovery_error (''No OAuth authorization server metadata found (tried: '' @ js_join '', '' tried @ '')'') None None)"
| "first_server web opts tried (c # cs) =
     eff_bind (catch_failure (discover_authorization_server_metadata web opts c) (\<lambda>_. eff_return None)) (\<lambda>md.
       case md of
         Some (url, m) \<Rightarrow> eff_return (m, url, c)
       | None \<Rightarrow> first_server web opts (tried @ [c]) cs)"

record prior_state =
  ps_server_url :: "string option"
  ps_server_metadata :: "server_metadata option"
  ps_server_metadata_url :: "string option"
  ps_resource_metadata :: "resource_metadata option option"
  ps_resource_metadata_url :: "string option"
  ps_client_information :: "client_information option"
  ps_resource :: "string option"
  ps_scopes :: "string list option"

record dynamic_input =
  di_endpoint :: string
  di_redirect_url :: string
  di_state :: string
  di_client_metadata :: "client_metadata option"
  di_redirect_uris :: "string list option"
  di_scopes :: "string list option"
  di_previous :: prior_state

record dynamic_state =
  ds_resource_metadata :: "resource_metadata option"
  ds_resource_metadata_url :: "string option"
  ds_server_url :: string
  ds_server_metadata_url :: string
  ds_server_metadata :: server_metadata
  ds_client_information :: client_information
  ds_resource :: string
  ds_scopes :: "string list"

definition first_some :: "'a option \<Rightarrow> 'a option \<Rightarrow> 'a option" where
  "first_some a b = (case a of Some x \<Rightarrow> Some x | None \<Rightarrow> b)"

definition base_client_metadata :: "dynamic_input \<Rightarrow> string list \<Rightarrow> string \<Rightarrow> client_metadata" where
  "base_client_metadata inp scopes auth =
     (let over = (\<lambda>f b. case di_client_metadata inp of None \<Rightarrow> b | Some m \<Rightarrow> first_some (f m) b);
          over' = (\<lambda>f b. case di_client_metadata inp of None \<Rightarrow> b | Some m \<Rightarrow> first_some (f m) b) in
      \<lparr>cm_client_name = over cm_client_name (Some ''Executor''),
       cm_redirect_uris = (case di_redirect_uris inp of Some us \<Rightarrow> us | None \<Rightarrow> [di_redirect_url inp]),
       cm_grant_types = over' cm_grant_types (Some [''authorization_code'', ''refresh_token'']),
       cm_response_types = over' cm_response_types (Some [''code'']),
       cm_auth_method = over cm_auth_method (Some auth),
       cm_scope = over cm_scope (if scopes = [] then None else Some (js_join '' '' scopes)),
       cm_application_type = over cm_application_type None,
       cm_client_uri = over cm_client_uri (Some ''https://executor.sh''),
       cm_logo_uri = over cm_logo_uri None, cm_contacts = over' cm_contacts None,
       cm_software_id = over cm_software_id None, cm_software_version = over cm_software_version None,
       cm_extra = (case di_client_metadata inp of None \<Rightarrow> [] | Some m \<Rightarrow> cm_extra m)\<rparr>)"

definition known_resource ::
  "('x, 'm) web_scheme \<Rightarrow> discovery_options \<Rightarrow> dynamic_input \<Rightarrow> ('x, (string option \<times> resource_metadata) option) eff" where
  "known_resource web opts inp =
     (let prior = di_previous inp in
      if ps_resource_metadata prior \<noteq> None \<or> nonempty (ps_server_url prior) \<noteq> None \<or> ps_server_metadata prior \<noteq> None then
        eff_return (case ps_resource_metadata prior of
            Some (Some md) \<Rightarrow> Some (ps_resource_metadata_url prior, md)
          | _ \<Rightarrow> None)
      else eff_map (map_option (\<lambda>(url, md). (Some url, md)))
             (discover_protected_resource_metadata web opts (di_endpoint inp)))"

definition candidate_servers :: "dynamic_input \<Rightarrow> (string option \<times> resource_metadata) option \<Rightarrow> js_url \<Rightarrow> string list" where
  "candidate_servers inp resource endpoint =
     (case nonempty (ps_server_url (di_previous inp)) of
        Some url \<Rightarrow> [url]
      | None \<Rightarrow>
          (case resource of
             Some (_, md) \<Rightarrow> (case rm_authorization_servers md of
                 Some (s # ss) \<Rightarrow> s # ss
               | _ \<Rightarrow> [ur_protocol endpoint @ ''//'' @ url_host endpoint])
           | None \<Rightarrow> [ur_protocol endpoint @ ''//'' @ url_host endpoint]))"

definition supports :: "string \<Rightarrow> string list option \<Rightarrow> bool" where
  "supports x advertised = (case advertised of None \<Rightarrow> True | Some xs \<Rightarrow> xs = [] \<or> x \<in> set xs)"

definition requested_scopes ::
  "dynamic_input \<Rightarrow> (string option \<times> resource_metadata) option \<Rightarrow> string list" where
  "requested_scopes inp resource =
     (case di_scopes inp of Some ss \<Rightarrow> ss
      | None \<Rightarrow> (case ps_scopes (di_previous inp) of Some ss \<Rightarrow> ss
          | None \<Rightarrow> (case Option.bind resource (\<lambda>r. rm_scopes_supported (snd r)) of Some ss \<Rightarrow> ss | None \<Rightarrow> [])))"

definition dynamic_client ::
  "('x, 'm) web_scheme \<Rightarrow> dynamic_input \<Rightarrow> server_metadata \<Rightarrow> string list \<Rightarrow> string \<Rightarrow> ('x, client_information) eff" where
  "dynamic_client web inp md scopes auth =
     (case ps_client_information (di_previous inp) of
        Some info \<Rightarrow> eff_return info
      | None \<Rightarrow>
          (case nonempty (sm_registration_endpoint md) of
             None \<Rightarrow> eff_fail (discovery_error
               ''Authorization server does not advertise registration_endpoint - cannot auto-register a client'' None None)
           | Some reg \<Rightarrow> register_dynamic_client_dcr web reg (base_client_metadata inp scopes auth) None))"

definition dynamic_resource ::
  "('x, 'm) web_scheme \<Rightarrow> dynamic_input \<Rightarrow> (string option \<times> resource_metadata) option \<Rightarrow> js_url \<Rightarrow> ('x, string) eff" where
  "dynamic_resource web inp resource endpoint =
     (case nonempty (ps_resource (di_previous inp)) of
        Some r \<Rightarrow> validate_resource_indicator web r (canonical_resource endpoint)
      | None \<Rightarrow>
          (case nonempty (Option.bind resource (\<lambda>r. rm_resource (snd r))) of
             Some r \<Rightarrow> validate_resource_indicator web r (canonical_resource endpoint)
           | None \<Rightarrow> eff_return (canonical_resource endpoint)))"

definition dynamic_finish ::
  "('x, 'm) web_scheme \<Rightarrow> ('x, string) eff \<Rightarrow> (string \<Rightarrow> string) \<Rightarrow> dynamic_input \<Rightarrow>
   (string option \<times> resource_metadata) option \<Rightarrow> js_url \<Rightarrow> server_metadata \<Rightarrow> string \<Rightarrow> string \<Rightarrow>
   ('x, string \<times> string \<times> dynamic_state) eff" where
  "dynamic_finish web verifier challenge inp resource endpoint md md_url server_url =
     (let scopes = requested_scopes inp resource in
      case negotiate_auth_method (sm_auth_methods md) of
        None \<Rightarrow> eff_fail (discovery_error (''Authorization server does not support a usable token_endpoint_auth_method (advertised: ''
                  @ js_join '', '' (the (sm_auth_methods md)) @ '')'') None None)
      | Some auth \<Rightarrow>
          eff_bind (dynamic_client web inp md scopes auth) (\<lambda>info.
          eff_bind (dynamic_resource web inp resource endpoint) (\<lambda>resource_value.
          eff_bind verifier (\<lambda>code_verifier.
            case build_authorization_url (wb_url web) (wb_params web) (wb_query web) (wb_allow_http web)
                \<lparr>ar_url = sm_authorization_endpoint md, ar_client_id = ci_client_id info,
                 ar_redirect_url = di_redirect_url inp, ar_scopes = scopes, ar_scope_separator = None,
                 ar_state = di_state inp, ar_code_challenge = challenge code_verifier,
                 ar_resource = Some resource_value, ar_extra = []\<rparr> of
              Inl msg \<Rightarrow> eff_fail (type_error msg)
            | Inr url \<Rightarrow> eff_return (url, code_verifier,
                \<lparr>ds_resource_metadata = map_option snd resource,
                 ds_resource_metadata_url = Option.bind resource fst,
                 ds_server_url = server_url, ds_server_metadata_url = md_url, ds_server_metadata = md,
                 ds_client_information = info, ds_resource = resource_value, ds_scopes = scopes\<rparr>)))))"

definition dynamic_server ::
  "('x, 'm) web_scheme \<Rightarrow> discovery_options \<Rightarrow> prior_state \<Rightarrow> string list \<Rightarrow> ('x, server_metadata \<times> string \<times> string) eff" where
  "dynamic_server web opts prior candidates =
     (case (ps_server_metadata prior, nonempty (ps_server_metadata_url prior)) of
        (Some md, Some url) \<Rightarrow> eff_return (md, url, case ps_server_url prior of Some u \<Rightarrow> u | None \<Rightarrow> hd candidates)
      | _ \<Rightarrow> first_server web opts [] candidates)"

definition begin_dynamic_authorization ::
  "('x, 'm) web_scheme \<Rightarrow> discovery_options \<Rightarrow> ('x, string) eff \<Rightarrow> (string \<Rightarrow> string) \<Rightarrow> dynamic_input \<Rightarrow>
   ('x, string \<times> string \<times> dynamic_state) eff" where
  "begin_dynamic_authorization web opts verifier challenge inp =
     eff_bind (known_resource web opts inp) (\<lambda>resource.
     eff_bind (parse_or_throw web (di_endpoint inp)) (\<lambda>endpoint.
     eff_bind (dynamic_server web opts (di_previous inp) (candidate_servers inp resource endpoint)) (\<lambda>(md, md_url, server_url).
       if \<not> supports ''S256'' (sm_code_challenge_methods md) then
         eff_fail (discovery_error (''Authorization server does not support PKCE S256 (advertised: ''
           @ js_join '', '' (the (sm_code_challenge_methods md)) @ '')'') None None)
       else if \<not> supports ''code'' (sm_response_types md) then
         eff_fail (discovery_error (''Authorization server does not support response_type=code (advertised: ''
           @ js_join '', '' (the (sm_response_types md)) @ '')'') None None)
       else dynamic_finish web verifier challenge inp resource endpoint md md_url server_url)))"

section \<open>Properties\<close>

definition acceptable :: "('x, 'm) web_scheme \<Rightarrow> string \<Rightarrow> bool" where
  "acceptable web v = is_supported_oauth_endpoint_url (wb_url web) (wb_allow_http web) v"


lemma validate_endpoint_Inr [simp]: "validate_endpoint_url web v label w = (Inr (), w') \<longleftrightarrow> acceptable web v \<and> w' = w"
  by (auto simp: validate_endpoint_url_def assert_supported_oauth_endpoint_url_def acceptable_def)





lemma validate_resource_Inr:
  assumes "validate_resource_indicator web v expected w = (Inr a, w')"
  shows "\<exists>rest. expected = a @ rest \<and> (rest = [] \<or> hd rest = CHR ''/'')"
  using assms
  by (auto simp: validate_resource_indicator_def Let_def js_starts_with_iff split: option.splits if_splits)

lemma dynamic_resource_Inr:
  assumes "dynamic_resource web inp resource endpoint w = (Inr a, w')"
  shows "\<exists>rest. canonical_resource endpoint = a @ rest \<and> (rest = [] \<or> hd rest = CHR ''/'')"
proof (cases "a = canonical_resource endpoint")
  case False
  with assms show ?thesis by (auto simp: dynamic_resource_def split: option.splits dest: validate_resource_Inr)
qed simp

lemma eff_sum_Inr:
  "(case r of Inl m \<Rightarrow> eff_fail (f m) | Inr x \<Rightarrow> g x) w = (Inr b, w') \<longleftrightarrow> (\<exists>x. r = Inr x \<and> g x w = (Inr b, w'))"
  by (cases r) auto

lemma dynamic_finish_Inr:
  assumes "dynamic_finish web verifier challenge inp resource endpoint md md_url server_url w = (Inr (url, code_verifier, st), w')"
  shows "ds_server_metadata st = md \<and>
    (\<exists>rest. canonical_resource endpoint = ds_resource st @ rest \<and> (rest = [] \<or> hd rest = CHR ''/'')) \<and>
    build_authorization_url (wb_url web) (wb_params web) (wb_query web) (wb_allow_http web)
      \<lparr>ar_url = sm_authorization_endpoint md, ar_client_id = ci_client_id (ds_client_information st),
       ar_redirect_url = di_redirect_url inp, ar_scopes = ds_scopes st, ar_scope_separator = None,
       ar_state = di_state inp, ar_code_challenge = challenge code_verifier,
       ar_resource = Some (ds_resource st), ar_extra = []\<rparr> = Inr url"
  using assms
  by (auto simp: dynamic_finish_def Let_def eff_bind_Inr eff_sum_Inr split: option.splits dest: dynamic_resource_Inr)

text \<open>A dynamic flow that starts is bound to what was asked for: the authorization server takes S256
  challenges and the code response type, as far as it says, the browser is sent to its
  authorization endpoint with the challenge of the verifier handed back, and the resource the
  tokens will be for is the endpoint asked for or a parent of it on the same host.\<close>

theorem dynamic_flow_bound:
  assumes "begin_dynamic_authorization web opts verifier challenge inp w = (Inr (url, code_verifier, st), w')"
  shows "supports ''S256'' (sm_code_challenge_methods (ds_server_metadata st)) \<and>
    supports ''code'' (sm_response_types (ds_server_metadata st)) \<and>
    (\<exists>u rest. wb_url web (di_endpoint inp) = Some u \<and> canonical_resource u = ds_resource st @ rest \<and>
       (rest = [] \<or> hd rest = CHR ''/'')) \<and>
    build_authorization_url (wb_url web) (wb_params web) (wb_query web) (wb_allow_http web)
      \<lparr>ar_url = sm_authorization_endpoint (ds_server_metadata st), ar_client_id = ci_client_id (ds_client_information st),
       ar_redirect_url = di_redirect_url inp, ar_scopes = ds_scopes st, ar_scope_separator = None,
       ar_state = di_state inp, ar_code_challenge = challenge code_verifier,
       ar_resource = Some (ds_resource st), ar_extra = []\<rparr> = Inr url"
  using assms
  by (auto simp: begin_dynamic_authorization_def eff_bind_Inr parse_or_throw_def split: option.splits if_splits
      dest!: dynamic_finish_Inr)

section \<open>A server on the wire\<close>

definition sample_metadata :: "string \<Rightarrow> jsval" where
  "sample_metadata issuer = JObj [(''issuer'', JStr issuer), (''authorization_endpoint'', JStr ''https://id.test/authorize''),
     (''token_endpoint'', JStr ''https://id.test/token''), (''registration_endpoint'', JStr ''https://id.test/register'')]"

text \<open>Every URL is read as one of the host \<open>id.test\<close>; the request for a URL is answered by the document
  filed under it.\<close>

definition sample_web :: "(string \<times> int \<times> string) list \<Rightarrow> (string \<times> jsval) list \<Rightarrow> 'x web" where
  "sample_web answers docs =
     \<lparr>wb_url = (\<lambda>v. if v = [] then None else Some (simple_url ''id.test'' ''/mcp'')), wb_params = (\<lambda>_. []),
      wb_query = (\<lambda>ps. concat (map fst ps)), wb_json = map_of docs, wb_base64 = (\<lambda>s. s),
      wb_http = (\<lambda>rq. eff_return (map_of answers (hq_url rq))), wb_allow_http = False\<rparr>"

definition sample_rq :: dynamic_input where
  "sample_rq = \<lparr>di_endpoint = ''https://id.test/mcp'', di_redirect_url = ''https://host.test/cb'', di_state = ''s1'',
     di_client_metadata = None, di_redirect_uris = None, di_scopes = None,
     di_previous = \<lparr>ps_server_url = None, ps_server_metadata = None, ps_server_metadata_url = None,
       ps_resource_metadata = None, ps_resource_metadata_url = None, ps_client_information = None, ps_resource = None,
       ps_scopes = None\<rparr>\<rparr>"

definition id_web :: "unit web" where
  "id_web = sample_web
     [(''https://id.test/.well-known/oauth-authorization-server/mcp'', 200, ''md''),
      (''https://id.test/.well-known/oauth-protected-resource/mcp'', 404, []),
      (''https://id.test/.well-known/oauth-protected-resource'', 404, []),
      (''https://id.test/register'', 201, ''client'')]
     [(''md'', sample_metadata ''https://id.test''), (''client'', JObj [(''client_id'', JStr ''c1'')])]"

definition quiet :: "unit world" where
  "quiet = \<lparr>w_db = \<lambda>_. [], w_ids = 0, w_clock = 0, w_tx = False, w_hooks = [], w_delivered = [], w_touched = [], w_ext = ()\<rparr>"

definition found :: "(failure + 'a option) \<times> 'x world \<Rightarrow> 'a option" where
  "found r = (case fst r of Inr x \<Rightarrow> x | Inl _ \<Rightarrow> None)"


text \<open>The other endpoints of the metadata are handed on as they came.\<close>

definition with_userinfo :: "jsval \<Rightarrow> jsval" where
  "with_userinfo d = (case d of JObj ps \<Rightarrow> JObj (ps @ [(''userinfo_endpoint'', JStr ''http://10.0.0.1/'')]) | _ \<Rightarrow> d)"

lemma other_endpoints_unchecked:
  "map_option (sm_userinfo_endpoint \<circ> snd) (found (discover_authorization_server_metadata
     (id_web\<lparr>wb_json := (\<lambda>_. Some (with_userinfo (sample_metadata ''https://id.test'')))\<rparr>) no_options ''https://id.test'' quiet)) =
   Some (Some ''http://10.0.0.1/'')"
  by code_simp



lemma id_flow:
  "(case fst (begin_dynamic_authorization id_web no_options (eff_return ''verifier'') (\<lambda>v. ''S256:'' @ v) sample_rq quiet) of
      Inr (_, _, st) \<Rightarrow> Some (ds_resource st) | Inl _ \<Rightarrow> None) = Some ''https://id.test/mcp''"
  by code_simp

lemma dynamic_flow_bound_witness:
  "\<exists>url v st. fst (begin_dynamic_authorization id_web no_options (eff_return ''verifier'') (\<lambda>v. ''S256:'' @ v) sample_rq quiet) = Inr (url, v, st) \<and>
     supports ''S256'' (sm_code_challenge_methods (ds_server_metadata st))"
proof -
  obtain url v st where r: "fst (begin_dynamic_authorization id_web no_options (eff_return ''verifier'') (\<lambda>v. ''S256:'' @ v) sample_rq quiet) = Inr (url, v, st)"
    using id_flow by (auto split: sum.splits)
  with dynamic_flow_bound [OF run_pair [OF r]] show ?thesis by blast
qed

text \<open>The issuer a document names is not compared with the issuer asked for.\<close>

lemma issuer_not_compared:
  "map_option (sm_issuer \<circ> snd) (found (discover_authorization_server_metadata
     (sample_web [(''https://id.test/.well-known/oauth-authorization-server/mcp'', 200, ''md'')] [(''md'', sample_metadata ''https://other.test'')])
     no_options ''https://id.test'' quiet)) = Some ''https://other.test''"
  by code_simp

text \<open>A malformed first document ends the discovery, although the second one is well-formed.\<close>

lemma malformed_document_is_final:
  "fst (discover_authorization_server_metadata
     (sample_web [(''https://id.test/.well-known/oauth-authorization-server/mcp'', 200, ''html''),
                  (''https://id.test/.well-known/openid-configuration/mcp'', 200, ''md'')] [(''md'', sample_metadata ''https://id.test'')])
     no_options ''https://id.test'' quiet) = Inl malformed_server"
  by code_simp

end
