(* ===== verification/ToolPolicies.thy ===== *)
theory ToolPolicies
  imports OwnerPolicy
begin

text \<open>
  Tool policies (\<open>sdk/src/policies.ts\<close>): matching a pattern against a tool id, the order of
  the rules, resolution across owners, the default position of a new rule. The
  fractional-indexing package's \<open>generateKeyBetween\<close> is the parameter \<open>gkb\<close>. A row's action
  is one of the three literals its column holds.
\<close>

record policy_row =
  pr_id :: string
  pr_owner :: string
  pr_pattern :: string
  pr_action :: tool_action
  pr_position :: string
  pr_created_at :: jsval
  pr_updated_at :: jsval

record policy_match =
  pm_action :: tool_action
  pm_pattern :: string
  pm_policy_id :: string

datatype policy_source = FromUser | FromPluginDefault

record effective_policy =
  ep_action :: tool_action
  ep_source :: policy_source
  ep_pattern :: "string option"
  ep_policy_id :: "string option"

section \<open>Patterns\<close>

definition segs :: "string \<Rightarrow> string list" where
  "segs s = js_split (CHR ''.'') s"

function match_loop :: "string list \<Rightarrow> string list \<Rightarrow> nat \<Rightarrow> bool" where
  "match_loop ps ts i =
     (if i < length ps then
        if ps ! i = ''*'' then
          if i = length ps - 1 then i \<le> length ts
          else if i \<ge> length ts then False
          else match_loop ps ts (Suc i)
        else if i \<ge> length ts \<or> ts ! i \<noteq> ps ! i then False
        else match_loop ps ts (Suc i)
      else length ps = length ts)"
  by auto
termination by (relation "measure (\<lambda>(ps, ts, i). length ps - i)") auto

declare match_loop.simps [simp del]

definition match_pattern :: "string \<Rightarrow> string \<Rightarrow> bool" where
  "match_pattern p t \<longleftrightarrow> p = ''*'' \<or> match_loop (segs p) (segs t) 0"

definition is_valid_pattern :: "string \<Rightarrow> bool" where
  "is_valid_pattern p \<longleftrightarrow>
     (if p = [] then False
      else if p = ''*'' then True
      else if js_starts_with p ''.'' \<or> js_ends_with p ''.'' then False
      else if js_includes p ''..'' then False
      else if js_starts_with p ''*'' then False
      else list_all (\<lambda>s. s \<noteq> [] \<and> (js_includes s ''*'' \<longrightarrow> s = ''*'')) (segs p))"

definition compare_policy_row :: "policy_row \<Rightarrow> policy_row \<Rightarrow> int" where
  "compare_policy_row a b =
     (if js_str_less (pr_position a) (pr_position b) then -1
      else if js_str_less (pr_position b) (pr_position a) then 1
      else if js_str_less (pr_id a) (pr_id b) then -1
      else if js_str_less (pr_id b) (pr_id a) then 1 else 0)"

definition pattern_specificity :: "string \<Rightarrow> nat" where
  "pattern_specificity p =
     (if p = ''*'' then 0
      else if js_ends_with p ''.*'' then length (segs (take (length p - 2) p)) * 2
      else length (segs p) * 2 + 1)"

fun find_index :: "('a \<Rightarrow> bool) \<Rightarrow> 'a list \<Rightarrow> nat option" where
  "find_index P [] = None"
| "find_index P (x # xs) = (if P x then Some 0 else map_option Suc (find_index P xs))"

definition position_for_new_pattern ::
  "(string option \<Rightarrow> string option \<Rightarrow> string) \<Rightarrow> string \<Rightarrow> policy_row list \<Rightarrow> string" where
  "position_for_new_pattern gkb p rows =
     (let committed = js_sort compare_policy_row rows;
          idx = (case find_index (\<lambda>r. pattern_specificity (pr_pattern r) \<le> pattern_specificity p) committed of
                   None \<Rightarrow> length committed | Some i \<Rightarrow> i)
      in gkb (if idx = 0 then None else Some (pr_position (committed ! (idx - 1))))
             (if idx = length committed then None else Some (pr_position (committed ! idx))))"

section \<open>Resolution\<close>

fun action_restriction_rank :: "tool_action \<Rightarrow> nat" where
  "action_restriction_rank Block = 3"
| "action_restriction_rank RequireApproval = 2"
| "action_restriction_rank Approve = 1"

definition more_restrictive :: "('a \<Rightarrow> tool_action) \<Rightarrow> 'a option \<Rightarrow> 'a \<Rightarrow> 'a" where
  "more_restrictive act current candidate =
     (case current of None \<Rightarrow> candidate
      | Some c \<Rightarrow>
          if action_restriction_rank (act candidate) > action_restriction_rank (act c)
          then candidate else c)"

definition policy_order :: "(policy_row \<Rightarrow> int) \<Rightarrow> policy_row \<Rightarrow> policy_row \<Rightarrow> int" where
  "policy_order owner_rank a b =
     (if owner_rank a \<noteq> owner_rank b then owner_rank a - owner_rank b else compare_policy_row a b)"

text \<open>The \<open>Map\<close> of first matches, in insertion order.\<close>

definition first_match_step ::
  "('p \<Rightarrow> string) \<Rightarrow> ('p \<Rightarrow> bool) \<Rightarrow> ('p \<Rightarrow> 'm) \<Rightarrow> 'p \<Rightarrow> (string \<times> 'm) list \<Rightarrow> (string \<times> 'm) list" where
  "first_match_step key mt mk p acc =
     (if key p \<in> fst ` set acc then acc else if mt p then acc @ [(key p, mk p)] else acc)"

definition first_matches ::
  "('p \<Rightarrow> string) \<Rightarrow> ('p \<Rightarrow> bool) \<Rightarrow> ('p \<Rightarrow> 'm) \<Rightarrow> 'p list \<Rightarrow> (string \<times> 'm) list" where
  "first_matches key mt mk ps = fold (first_match_step key mt mk) ps []"

definition select_match :: "('m \<Rightarrow> tool_action) \<Rightarrow> 'm list \<Rightarrow> 'm option" where
  "select_match act ms = fold (\<lambda>m sel. Some (more_restrictive act sel m)) ms None"

definition match_of_row :: "policy_row \<Rightarrow> policy_match" where
  "match_of_row r = \<lparr>pm_action = pr_action r, pm_pattern = pr_pattern r, pm_policy_id = pr_id r\<rparr>"

definition resolve_tool_policy ::
  "string \<Rightarrow> policy_row list \<Rightarrow> (policy_row \<Rightarrow> int) \<Rightarrow> policy_match option" where
  "resolve_tool_policy tool ps owner_rank =
     (if ps = [] then None
      else select_match pm_action
        (map snd (first_matches pr_owner (\<lambda>r. match_pattern (pr_pattern r) tool) match_of_row
                    (js_sort (policy_order owner_rank) ps))))"

definition lift_plugin :: "bool option \<Rightarrow> effective_policy" where
  "lift_plugin d =
     \<lparr>ep_action = (if d = Some True then RequireApproval else Approve), ep_source = FromPluginDefault,
      ep_pattern = None, ep_policy_id = None\<rparr>"

definition lift_user :: "policy_match \<Rightarrow> effective_policy" where
  "lift_user m = \<lparr>ep_action = pm_action m, ep_source = FromUser, ep_pattern = Some (pm_pattern m),
                  ep_policy_id = Some (pm_policy_id m)\<rparr>"

definition resolve_effective_policy ::
  "string \<Rightarrow> policy_row list \<Rightarrow> (policy_row \<Rightarrow> int) \<Rightarrow> bool option \<Rightarrow> effective_policy" where
  "resolve_effective_policy tool ps owner_rank d =
     (case resolve_tool_policy tool ps owner_rank of Some m \<Rightarrow> lift_user m | None \<Rightarrow> lift_plugin d)"

record sorted_policy =
  sp_id :: string
  sp_owner :: "string option"
  sp_pattern :: string
  sp_action :: tool_action

definition owner_key :: "sorted_policy \<Rightarrow> string" where
  "owner_key p = (case sp_owner p of None \<Rightarrow> ''__flat__'' | Some w \<Rightarrow> if w = [] then ''__flat__'' else w)"

definition effective_policy_from_sorted ::
  "string \<Rightarrow> sorted_policy list \<Rightarrow> bool option \<Rightarrow> effective_policy" where
  "effective_policy_from_sorted tool ps d =
     (case select_match ep_action
        (map snd (first_matches owner_key (\<lambda>p. match_pattern (sp_pattern p) tool)
          (\<lambda>p. \<lparr>ep_action = sp_action p, ep_source = FromUser, ep_pattern = Some (sp_pattern p),
                 ep_policy_id = Some (sp_id p)\<rparr>) ps)) of
        Some m \<Rightarrow> m | None \<Rightarrow> lift_plugin d)"

section \<open>What a pattern matches\<close>

definition seg_ok :: "string \<Rightarrow> string \<Rightarrow> bool" where
  "seg_ok p t \<longleftrightarrow> p = ''*'' \<or> p = t"

lemma segs_nonempty [simp]: "segs s \<noteq> []"
  by (simp add: segs_def)

fun glob :: "string list \<Rightarrow> string list \<Rightarrow> bool" where
  "glob [] ts \<longleftrightarrow> ts = []"
| "glob [p] ts \<longleftrightarrow> p = ''*'' \<or> ts = [p]"
| "glob (p # q # ps) ts \<longleftrightarrow> (case ts of [] \<Rightarrow> False | t # us \<Rightarrow> seg_ok p t \<and> glob (q # ps) us)"

lemma match_loop_glob:
  "length a = length b \<Longrightarrow> match_loop (a @ ps) (b @ ts) (length a) \<longleftrightarrow> glob ps ts"
proof (induction ps arbitrary: a b ts)
  case Nil
  then show ?case by (subst match_loop.simps) auto
next
  case (Cons p ps)
  have unroll: "match_loop (a @ p # ps) (b @ ts) (length a) \<longleftrightarrow>
    (if p = ''*'' then if ps = [] then True else ts \<noteq> [] \<and> match_loop (a @ p # ps) (b @ ts) (Suc (length a))
     else ts \<noteq> [] \<and> hd ts = p \<and> match_loop (a @ p # ps) (b @ ts) (Suc (length a)))"
    using Cons.prems by (subst match_loop.simps) (auto simp: nth_append hd_conv_nth)
  have IH: "match_loop (a @ p # ps) (b @ t # us) (Suc (length a)) \<longleftrightarrow> glob ps us" for t us
    using Cons.IH [of "a @ [p]" "b @ [t]" us] Cons.prems by simp
  show ?case
  proof (cases ts)
    case Nil
    with unroll show ?thesis by (cases ps) auto
  next
    case (Cons t us)
    with unroll IH show ?thesis by (cases ps) (auto simp: seg_ok_def)
  qed
qed

lemma glob_iff:
  "ps \<noteq> [] \<Longrightarrow> glob ps ts \<longleftrightarrow>
   (if last ps = ''*'' then list_all2 seg_ok (butlast ps) (take (length ps - 1) ts)
    else list_all2 seg_ok ps ts)"
proof (induction ps ts rule: glob.induct)
  case (2 p ts)
  then show ?case by (cases ts) (auto simp: seg_ok_def)
next
  case (3 p q ps ts)
  then show ?case by (cases ts) auto
qed simp

text \<open>A pattern other than the universal one matches a tool id exactly when its segments match
  one by one, \<open>*\<close> matching any one segment, except that a trailing \<open>*\<close> matches whatever is left
  (nothing included).\<close>

theorem match_pattern_spec:
  "match_pattern p t \<longleftrightarrow> p = ''*'' \<or>
     (if last (segs p) = ''*''
      then list_all2 seg_ok (butlast (segs p)) (take (length (segs p) - 1) (segs t))
      else list_all2 seg_ok (segs p) (segs t))"
  using glob_iff [of "segs p" "segs t"] match_loop_glob [of "[]" "[]" "segs p" "segs t"]
  by (simp add: match_pattern_def)

lemma match_pattern_refl: "match_pattern t t"
  by (simp add: match_pattern_spec list_all2_refl seg_ok_def list_all2_conv_all_nth nth_butlast
      butlast_conv_take)

section \<open>The order of the rules\<close>

lemma compare_policy_row_then:
  "compare_policy_row = cmp_then (\<lambda>a b. cmp_str (pr_position a) (pr_position b))
                                 (\<lambda>a b. cmp_str (pr_id a) (pr_id b))"
  by (auto simp: fun_eq_iff compare_policy_row_def cmp_then_def cmp_str_def)

lemma policy_order_then: "policy_order rk = cmp_then (cmp_int_key rk) compare_policy_row"
  by (auto simp: fun_eq_iff policy_order_def cmp_then_def cmp_int_key_def)

interpretation policy_rows: comparator compare_policy_row
  unfolding compare_policy_row_then by (intro comparator_then comparator_str_key)

interpretation ranked_rows: comparator "policy_order rk" for rk
  unfolding policy_order_then
  by (intro comparator_then comparator_int_key policy_rows.comparator_axioms)

lemma policy_order_0: "policy_order rk a b = 0 \<Longrightarrow> pr_id a = pr_id b"
  using js_str_less_total [of "pr_id a" "pr_id b"]
  by (auto simp: policy_order_def compare_policy_row_def split: if_splits)

section \<open>What resolution returns\<close>

lemma first_match_fold:
  "map_of (fold (first_match_step key mt mk) ps acc) k =
     (case map_of acc k of Some v \<Rightarrow> Some v
      | None \<Rightarrow> map_option mk (find (\<lambda>p. key p = k \<and> mt p) ps))"
proof (induction ps arbitrary: acc)
  case (Cons p ps)
  have "map_of acc (key p) = None \<longleftrightarrow> key p \<notin> fst ` set acc"
    by (metis map_of_eq_None_iff)
  with Cons show ?case
    by (auto simp: first_match_step_def map_of_append split: option.splits)
qed (simp split: option.splits)

lemma map_of_first_matches:
  "map_of (first_matches key mt mk ps) k = map_option mk (find (\<lambda>p. key p = k \<and> mt p) ps)"
  by (simp add: first_matches_def first_match_fold)

lemma distinct_first_matches: "distinct (map fst (first_matches key mt mk ps))"
proof -
  have "distinct (map fst acc) \<Longrightarrow> distinct (map fst (fold (first_match_step key mt mk) ps acc))" for acc
    by (induction ps arbitrary: acc) (auto simp: first_match_step_def)
  then show ?thesis by (simp add: first_matches_def)
qed

lemma set_first_matches:
  "m \<in> set (map snd (first_matches key mt mk ps)) \<longleftrightarrow>
   (\<exists>k p. find (\<lambda>q. key q = k \<and> mt q) ps = Some p \<and> m = mk p)"
proof -
  have "m \<in> set (map snd (first_matches key mt mk ps)) \<longleftrightarrow>
        (\<exists>k. (k, m) \<in> set (first_matches key mt mk ps))"
    by force
  also have "\<dots> \<longleftrightarrow> (\<exists>k. map_of (first_matches key mt mk ps) k = Some m)"
    using map_of_eq_Some_iff [OF distinct_first_matches [of key mt mk ps]] by simp
  finally show ?thesis unfolding map_of_first_matches by auto blast
qed

lemma select_match_fold:
  "\<exists>s. fold (\<lambda>m sel. Some (more_restrictive act sel m)) ms (Some c) = Some s \<and> s \<in> insert c (set ms) \<and>
     (\<forall>m \<in> insert c (set ms). action_restriction_rank (act m) \<le> action_restriction_rank (act s))"
proof (induction ms arbitrary: c)
  case (Cons m ms)
  from Cons [of "more_restrictive act (Some c) m"] show ?case
    by (fastforce simp: more_restrictive_def split: if_splits)
qed simp

lemma select_match_None: "select_match act ms = None \<longleftrightarrow> ms = []"
  using select_match_fold [of act _ "more_restrictive act None (hd ms)"]
  by (cases ms) (auto simp: select_match_def)

lemma select_match_Some:
  "select_match act ms = Some s \<Longrightarrow>
   s \<in> set ms \<and> (\<forall>m \<in> set ms. action_restriction_rank (act m) \<le> action_restriction_rank (act s))"
proof (cases ms)
  case (Cons m ms')
  assume "select_match act ms = Some s"
  with Cons select_match_fold [of act ms' "more_restrictive act None m"] show ?thesis
    by (auto simp: select_match_def more_restrictive_def)
qed (simp add: select_match_def)

text \<open>The rule an owner contributes: its first matching one in the sorted order.\<close>

definition owner_rule ::
  "(policy_row \<Rightarrow> int) \<Rightarrow> string \<Rightarrow> policy_row list \<Rightarrow> string \<Rightarrow> policy_row option" where
  "owner_rule rk tool ps w =
     find (\<lambda>r. pr_owner r = w \<and> match_pattern (pr_pattern r) tool) (js_sort (policy_order rk) ps)"

lemma resolve_via_owner_rule:
  "resolve_tool_policy tool ps rk =
     select_match pm_action (map snd (first_matches pr_owner (\<lambda>r. match_pattern (pr_pattern r) tool)
       match_of_row (js_sort (policy_order rk) ps)))"
  by (simp add: resolve_tool_policy_def first_matches_def select_match_def)

lemma resolve_SomeD:
  assumes "resolve_tool_policy tool ps rk = Some m"
  shows "(\<exists>w r. owner_rule rk tool ps w = Some r \<and> m = match_of_row r) \<and>
         (\<forall>w r. owner_rule rk tool ps w = Some r \<longrightarrow>
            action_restriction_rank (pr_action r) \<le> action_restriction_rank (pm_action m))"
proof -
  let ?ms = "map snd (first_matches pr_owner (\<lambda>r. match_pattern (pr_pattern r) tool)
       match_of_row (js_sort (policy_order rk) ps))"
  have ms: "x \<in> set ?ms \<longleftrightarrow> (\<exists>w r. owner_rule rk tool ps w = Some r \<and> x = match_of_row r)" for x
    unfolding set_first_matches owner_rule_def ..
  have m: "m \<in> set ?ms" and rank: "\<And>x. x \<in> set ?ms \<Longrightarrow>
      action_restriction_rank (pm_action x) \<le> action_restriction_rank (pm_action m)"
    using select_match_Some [OF assms [unfolded resolve_via_owner_rule]] by blast+
  show ?thesis
  proof (intro conjI allI impI)
    show "\<exists>w r. owner_rule rk tool ps w = Some r \<and> m = match_of_row r" using m unfolding ms .
  next
    fix w r
    assume "owner_rule rk tool ps w = Some r"
    then have "match_of_row r \<in> set ?ms" unfolding ms by blast
    from rank [OF this] show "action_restriction_rank (pr_action r) \<le> action_restriction_rank (pm_action m)"
      by (simp add: match_of_row_def)
  qed
qed

lemma resolve_None_iff:
  "resolve_tool_policy tool ps rk = None \<longleftrightarrow> (\<forall>r \<in> set ps. \<not> match_pattern (pr_pattern r) tool)"
proof -
  let ?fm = "first_matches pr_owner (\<lambda>r. match_pattern (pr_pattern r) tool)
       match_of_row (js_sort (policy_order rk) ps)"
  have "?fm = [] \<longleftrightarrow> (\<forall>k. map_of ?fm k = None)" by (metis map_of_eq_empty_iff)
  also have "\<dots> \<longleftrightarrow> (\<forall>r \<in> set ps. \<not> match_pattern (pr_pattern r) tool)"
    by (auto simp: map_of_first_matches find_None_iff)
  finally show ?thesis by (simp add: resolve_via_owner_rule select_match_None)
qed

lemma find_sorted:
  "sorted_wrt R xs \<Longrightarrow> find P xs = Some x \<Longrightarrow> y \<in> set xs \<Longrightarrow> P y \<Longrightarrow> x = y \<or> R x y"
  by (induction xs) (auto split: if_splits)

lemma owner_rule_first:
  assumes "owner_rule rk tool ps w = Some r"
  shows "r \<in> set ps \<and> pr_owner r = w \<and> match_pattern (pr_pattern r) tool \<and>
    (\<forall>q \<in> set ps. pr_owner q = w \<and> match_pattern (pr_pattern q) tool \<longrightarrow> policy_order rk r q \<le> 0)"
proof -
  let ?s = "js_sort (policy_order rk) ps"
  from assms have "r \<in> set ?s \<and> pr_owner r = w \<and> match_pattern (pr_pattern r) tool"
    unfolding owner_rule_def by (metis (mono_tags, lifting) find_Some_iff nth_mem)
  moreover have "policy_order rk r q \<le> 0"
    if "q \<in> set ps" "pr_owner q = w" "match_pattern (pr_pattern q) tool" for q
    using find_sorted [OF ranked_rows.sorted_js_sort [of rk ps] assms [unfolded owner_rule_def], of q] that
      ranked_rows.cmp_refl [of rk r] by auto
  ultimately show ?thesis by simp
qed

lemma owner_rule_filter:
  "owner_rule rk tool (filter (\<lambda>r. pr_owner r = w) ps) w = owner_rule rk tool ps w"
proof -
  have "find (\<lambda>r. Q r \<and> R r) (filter Q xs) = find (\<lambda>r. Q r \<and> R r) xs" for Q R :: "policy_row \<Rightarrow> bool" and xs
    by (induction xs) auto
  then show ?thesis by (simp add: owner_rule_def ranked_rows.js_sort_filter)
qed

text \<open>C6: the rule resolution selects is the first matching rule of its owner, in the order of
  positions, and no owner's first matching rule is more restrictive than it; there is none
  exactly when no rule matches.\<close>

theorem resolve_tool_policy_spec:
  "case resolve_tool_policy tool ps rk of
     None \<Rightarrow> \<forall>r \<in> set ps. \<not> match_pattern (pr_pattern r) tool
   | Some m \<Rightarrow>
       (\<exists>w r. owner_rule rk tool ps w = Some r \<and> m = match_of_row r \<and>
          r \<in> set ps \<and> match_pattern (pr_pattern r) tool \<and>
          (\<forall>q \<in> set ps. pr_owner q = w \<and> match_pattern (pr_pattern q) tool \<longrightarrow> policy_order rk r q \<le> 0)) \<and>
       (\<forall>w r. owner_rule rk tool ps w = Some r \<longrightarrow>
          action_restriction_rank (pr_action r) \<le> action_restriction_rank (pm_action m))"
proof (cases "resolve_tool_policy tool ps rk")
  case None
  then show ?thesis using resolve_None_iff [of tool ps rk] by simp
next
  case (Some m)
  from resolve_SomeD [OF Some] obtain w r where r: "owner_rule rk tool ps w = Some r" "m = match_of_row r"
    by blast
  with Some resolve_SomeD [OF Some] owner_rule_first [OF r(1)] show ?thesis by auto
qed

definition user_rank :: "policy_row \<Rightarrow> int" where
  "user_rank r = (if pr_owner r = ''user'' then 0 else 1)"

definition sample_rule :: "string \<Rightarrow> string \<Rightarrow> string \<Rightarrow> tool_action \<Rightarrow> string \<Rightarrow> policy_row" where
  "sample_rule i w p a pos = \<lparr>pr_id = i, pr_owner = w, pr_pattern = p, pr_action = a, pr_position = pos,
                               pr_created_at = JUndef, pr_updated_at = JUndef\<rparr>"

definition sample_rules :: "policy_row list" where
  "sample_rules = [sample_rule ''p1'' ''user'' ''*'' Approve ''a0'', sample_rule ''p2'' ''org'' ''vercel.*'' Block ''a0'']"

lemma resolve_tool_policy_spec_witness:
  "(\<exists>m. resolve_tool_policy ''vercel.dns'' sample_rules user_rank = Some m) \<and>
   (case resolve_tool_policy ''vercel.dns'' sample_rules user_rank of
     None \<Rightarrow> False
   | Some m \<Rightarrow> (\<exists>w r. owner_rule user_rank ''vercel.dns'' sample_rules w = Some r \<and> m = match_of_row r))"
proof -
  have some: "\<exists>m. resolve_tool_policy ''vercel.dns'' sample_rules user_rank = Some m"
    using resolve_None_iff [of "''vercel.dns''" sample_rules user_rank]
    by (auto simp: sample_rules_def sample_rule_def match_pattern_def)
  with resolve_tool_policy_spec [where tool = "''vercel.dns''" and ps = sample_rules and rk = user_rank]
  show ?thesis by auto blast
qed

text \<open>Rules of one owner cannot weaken another's: with any further rules present, resolution
  still selects an action at least as restrictive as the one the owner's rules alone select.\<close>

theorem owner_rules_not_weakened:
  assumes "resolve_tool_policy tool (filter (\<lambda>r. pr_owner r = w) ps) rk = Some m"
  shows "\<exists>m'. resolve_tool_policy tool ps rk = Some m' \<and>
         action_restriction_rank (pm_action m) \<le> action_restriction_rank (pm_action m')"
proof -
  let ?own = "filter (\<lambda>r. pr_owner r = w) ps"
  from resolve_SomeD [OF assms] obtain v r where r: "owner_rule rk tool ?own v = Some r" "m = match_of_row r"
    by blast
  with owner_rule_first [OF r(1)] have "v = w" by auto
  with r owner_rule_filter have own: "owner_rule rk tool ps w = Some r" by simp
  then have "resolve_tool_policy tool ps rk \<noteq> None"
    using owner_rule_first [OF own] resolve_None_iff by blast
  then obtain m' where m': "resolve_tool_policy tool ps rk = Some m'" by blast
  with resolve_SomeD [OF m'] own r(2) show ?thesis by (auto simp: match_of_row_def)
qed

lemma owner_rules_not_weakened_witness:
  "\<exists>m'. resolve_tool_policy ''vercel.dns'' sample_rules user_rank = Some m' \<and>
     action_restriction_rank Block \<le> action_restriction_rank (pm_action m')"
proof -
  have "resolve_tool_policy ''vercel.dns'' (filter (\<lambda>r. pr_owner r = ''org'') sample_rules) user_rank =
      Some (match_of_row (sample_rule ''p2'' ''org'' ''vercel.*'' Block ''a0''))"
    by (simp add: sample_rules_def sample_rule_def resolve_tool_policy_def first_matches_def
        first_match_step_def select_match_def more_restrictive_def match_pattern_spec segs_def
        seg_ok_def match_of_row_def)
  from owner_rules_not_weakened [OF this] show ?thesis by (simp add: match_of_row_def sample_rule_def)
qed

text \<open>Resolution does not depend on the order the rows come back in, as long as their ids differ.\<close>

theorem resolve_order_independent:
  assumes "mset ps = mset qs" "distinct (map pr_id ps)"
  shows "resolve_tool_policy tool ps rk = resolve_tool_policy tool qs rk"
proof -
  have "js_sort (policy_order rk) ps = js_sort (policy_order rk) qs"
    using assms by (intro ranked_rows.js_sort_permuted) (auto dest: policy_order_0 simp: distinct_map inj_on_def)
  then show ?thesis by (simp add: resolve_via_owner_rule)
qed

lemma resolve_order_independent_witness:
  "resolve_tool_policy ''vercel.dns'' sample_rules user_rank =
   resolve_tool_policy ''vercel.dns'' (rev sample_rules) user_rank"
  by (rule resolve_order_independent) (simp_all add: sample_rules_def sample_rule_def)

section \<open>The client's resolution agrees with the server's\<close>

definition to_sorted_policy :: "policy_row \<Rightarrow> sorted_policy" where
  "to_sorted_policy r = \<lparr>sp_id = pr_id r, sp_owner = Some (pr_owner r), sp_pattern = pr_pattern r,
                          sp_action = pr_action r\<rparr>"

lemma first_match_fold_map:
  assumes "\<And>p. p \<in> set ps \<Longrightarrow> key' (f p) = key p" "\<And>p. mt' (f p) = mt p" "\<And>p. mk' (f p) = g (mk p)"
  shows "fold (first_match_step key' mt' mk') (map f ps) (map (\<lambda>(k, m). (k, g m)) acc) =
         map (\<lambda>(k, m). (k, g m)) (fold (first_match_step key mt mk) ps acc)"
  using assms(1)
proof (induction ps arbitrary: acc)
  case (Cons p ps)
  have "fst ` set (map (\<lambda>(k, m). (k, g m)) acc) = fst ` set acc" by force
  then have "first_match_step key' mt' mk' (f p) (map (\<lambda>(k, m). (k, g m)) acc) =
      map (\<lambda>(k, m). (k, g m)) (first_match_step key mt mk p acc)"
    using Cons.prems assms(2,3) by (simp add: first_match_step_def)
  with Cons show ?case by simp
qed simp

lemma select_match_map:
  assumes "\<And>m. act' (g m) = act m"
  shows "select_match act' (map g ms) = map_option g (select_match act ms)"
proof -
  have "fold (\<lambda>m sel. Some (more_restrictive act' sel m)) (map g ms) (map_option g c) =
        map_option g (fold (\<lambda>m sel. Some (more_restrictive act sel m)) ms c)" for c
  proof (induction ms arbitrary: c)
    case (Cons m ms)
    have "Some (more_restrictive act' (map_option g c) (g m)) = map_option g (Some (more_restrictive act c m))"
      using assms by (auto simp: more_restrictive_def split: option.splits)
    then show ?case by (simp only: list.map fold_simps Cons.IH)
  qed simp
  from this [of None] show ?thesis by (simp add: select_match_def)
qed

text \<open>C7: on the committed rules in sorted order, the resolution clients run gives the effective
  policy the server resolves, for rules whose owner is set.\<close>

theorem sorted_resolution_agrees:
  assumes "\<forall>r \<in> set ps. pr_owner r \<noteq> []"
  shows "effective_policy_from_sorted tool (map to_sorted_policy (js_sort (policy_order rk) ps)) d =
         resolve_effective_policy tool ps rk d"
proof -
  have "first_matches owner_key (\<lambda>p. match_pattern (sp_pattern p) tool)
      (\<lambda>p. \<lparr>ep_action = sp_action p, ep_source = FromUser, ep_pattern = Some (sp_pattern p),
             ep_policy_id = Some (sp_id p)\<rparr>) (map to_sorted_policy (js_sort (policy_order rk) ps)) =
    map (\<lambda>(k, m). (k, lift_user m)) (first_matches pr_owner (\<lambda>r. match_pattern (pr_pattern r) tool)
      match_of_row (js_sort (policy_order rk) ps))"
    unfolding first_matches_def
    by (rule first_match_fold_map [where acc = "[]", simplified])
      (use assms in \<open>auto simp: owner_key_def to_sorted_policy_def lift_user_def match_of_row_def\<close>)
  then have "map snd (first_matches owner_key (\<lambda>p. match_pattern (sp_pattern p) tool)
      (\<lambda>p. \<lparr>ep_action = sp_action p, ep_source = FromUser, ep_pattern = Some (sp_pattern p),
             ep_policy_id = Some (sp_id p)\<rparr>) (map to_sorted_policy (js_sort (policy_order rk) ps))) =
    map lift_user (map snd (first_matches pr_owner (\<lambda>r. match_pattern (pr_pattern r) tool)
      match_of_row (js_sort (policy_order rk) ps)))"
    by (simp add: case_prod_beta)
  moreover have "select_match ep_action (map lift_user ms) = map_option lift_user (select_match pm_action ms)" for ms
    by (rule select_match_map) (simp add: lift_user_def)
  ultimately show ?thesis
    unfolding effective_policy_from_sorted_def resolve_effective_policy_def resolve_via_owner_rule
    by (simp del: map_map split: option.splits)
qed

lemma sorted_resolution_agrees_witness:
  "effective_policy_from_sorted ''vercel.dns'' (map to_sorted_policy (js_sort (policy_order user_rank) sample_rules)) None =
   resolve_effective_policy ''vercel.dns'' sample_rules user_rank None"
  by (rule sorted_resolution_agrees) (simp add: sample_rules_def sample_rule_def)

section \<open>Where a new rule goes\<close>

lemma find_index_Some:
  "find_index P xs = Some i \<Longrightarrow> i < length xs \<and> P (xs ! i) \<and> (\<forall>j < i. \<not> P (xs ! j))"
proof (induction xs arbitrary: i)
  case (Cons x xs)
  then show ?case by (cases i) (auto simp: less_Suc_eq_0_disj split: if_splits)
qed simp

lemma find_index_None: "find_index P xs = None \<longleftrightarrow> (\<forall>x \<in> set xs. \<not> P x)"
  by (induction xs) auto

text \<open>A rule created without a position gets a key between two neighbours of the owner's
  committed rules such that every rule above it is more specific, and the rule just below it is not.\<close>

theorem new_rule_position:
  defines "committed rows \<equiv> js_sort compare_policy_row rows"
  shows "\<exists>i \<le> length rows.
    position_for_new_pattern gkb p rows =
      gkb (if i = 0 then None else Some (pr_position (committed rows ! (i - 1))))
          (if i = length rows then None else Some (pr_position (committed rows ! i))) \<and>
    (\<forall>j < i. pattern_specificity p < pattern_specificity (pr_pattern (committed rows ! j))) \<and>
    (i < length rows \<longrightarrow> pattern_specificity (pr_pattern (committed rows ! i)) \<le> pattern_specificity p)"
proof (cases "find_index (\<lambda>r. pattern_specificity (pr_pattern r) \<le> pattern_specificity p) (committed rows)")
  case None
  then have "\<forall>j < length rows. pattern_specificity p < pattern_specificity (pr_pattern (committed rows ! j))"
    unfolding find_index_None committed_def
    by (metis length_js_sort not_le nth_mem)
  with None show ?thesis
    by (intro exI [of _ "length rows"])
      (simp add: position_for_new_pattern_def committed_def)
next
  case (Some i)
  with find_index_Some [OF Some] show ?thesis
    by (intro exI [of _ i]) (auto simp: position_for_new_pattern_def committed_def Let_def not_le)
qed

lemma new_rule_position_witness:
  "position_for_new_pattern (\<lambda>_ _. ''a0'') ''vercel.dns.*'' [sample_rule ''p1'' ''org'' ''vercel.dns'' Block ''a0''] = ''a0''"
  using new_rule_position [of "[sample_rule ''p1'' ''org'' ''vercel.dns'' Block ''a0'']" "\<lambda>_ _. ''a0''" "''vercel.dns.*''"]
  by auto

text \<open>The default position is not below every more specific rule: where the committed rules
  are not in order of specificity, a new group rule lands above a more specific leaf rule.\<close>

theorem new_rule_above_leaf:
  "position_for_new_pattern gkb ''a.b.*''
     [sample_rule ''p1'' ''org'' ''a.*'' Approve ''a0'', sample_rule ''p2'' ''org'' ''a.b.c'' Block ''a1''] =
     gkb None (Some ''a0'') \<and>
   pattern_specificity ''a.b.*'' < pattern_specificity ''a.b.c''"
  by (simp add: position_for_new_pattern_def sample_rule_def pattern_specificity_def segs_def
      js_ends_with_def compare_policy_row_def)

end
