(* ===== verification/ExecEnv.thy ===== *)
theory ExecEnv
  imports OAuthDiscovery ToolPolicies
begin

text \<open>
  What an executor is given (\<open>ExecutorConfig\<close> and the tables \<open>createExecutor\<close> fills from
  it in \<open>sdk/src/executor.ts\<close>): the credential providers in registration order, the loaded
  plugins with the hooks they have, the static tools by id, the active policy provider, the
  token endpoint, and the libraries it calls. Plugins, providers and the network are code
  outside of what is modelled: they are fields of the environment, and \<open>sound_env\<close> states
  what is assumed of them, that they act on storage only through the facades the executor
  hands them.
\<close>

record conn_ref =
  rf_owner :: owner
  rf_integration :: string
  rf_name :: string

record tool_def =
  td_name :: string
  td_description :: "string option"
  td_input_schema :: jsval
  td_output_schema :: jsval
  td_annotations :: jsval

record resolve_tools_result =
  rt_tools :: "tool_def list"
  rt_definitions :: "(string \<times> jsval) list"
  rt_incomplete :: bool
  rt_incomplete_reason :: "string option"

type_synonym cred_values = "(string \<times> string option) list"

record credential =
  cr_owner :: owner
  cr_integration :: string
  cr_connection :: string
  cr_template :: string
  cr_value :: "string option"
  cr_values :: cred_values
  cr_config :: jsval
  cr_granted_scopes :: "string list option"

datatype elicit_action = Accept | Decline | Cancel

record elicit_response =
  er_action :: elicit_action
  er_content :: jsval

type_synonym 'x handler = "string \<Rightarrow> jsval \<Rightarrow> jsval \<Rightarrow> ('x, elicit_response) eff"
type_synonym 'x elicit = "jsval \<Rightarrow> ('x, elicit_response) eff"

record 'x provider =
  pv_key :: string
  pv_writable :: bool
  pv_get :: "string \<Rightarrow> ('x, string option) eff"
  pv_set :: "(string \<Rightarrow> string \<Rightarrow> ('x, unit) eff) option"
  pv_has :: "(string \<Rightarrow> ('x, bool) eff) option"
  pv_list :: "('x, jsval list) eff option"
  pv_delete :: "(string \<Rightarrow> ('x, unit) eff) option"

record 'x plugin =
  pl_id :: string
  pl_remote_catalog :: bool
  pl_describe_auth :: "(integration_record \<Rightarrow> jsval list option) option"
  pl_describe_display :: "(integration_record \<Rightarrow> (string option \<times> string option) option) option"
  pl_resolve_tools :: "(integration_view \<Rightarrow> jsval \<Rightarrow> conn_ref \<Rightarrow> string option \<Rightarrow>
     ('x, string option) eff \<Rightarrow> ('x, cred_values) eff \<Rightarrow> ('x, resolve_tools_result) eff) option"
  pl_remove_integration :: "(integration_record \<Rightarrow> ('x, unit) eff) option"
  pl_remove_connection :: "(conn_ref \<Rightarrow> ('x, unit) eff) option"
  pl_detect :: "(string \<Rightarrow> ('x, jsval) eff) option"
  pl_health_candidates :: "(integration_record \<Rightarrow> ('x, jsval list) eff) option"
  pl_check_health :: "(integration_record \<Rightarrow> jsval \<Rightarrow> credential \<Rightarrow> ('x, jsval) eff) option"
  pl_resolve_annotations :: "(string \<Rightarrow> string \<Rightarrow> row list \<Rightarrow> ('x, (string \<times> jsval) list) eff) option"
  pl_validate_args :: "(row \<Rightarrow> jsval \<Rightarrow> ('x, unit) eff) option"
  pl_invoke_tool :: "(row \<Rightarrow> credential \<Rightarrow> jsval \<Rightarrow> 'x elicit \<Rightarrow> ('x, jsval) eff) option"
  pl_project_schema :: "(row \<Rightarrow> jsval \<Rightarrow> jsval \<Rightarrow> ('x, jsval) eff) option"

record static_integration =
  si_id :: string
  si_kind :: string
  si_name :: string
  si_can_remove :: "bool option"
  si_can_refresh :: "bool option"

record 'x static_tool =
  st_integration :: static_integration
  st_name :: string
  st_description :: string
  st_input_schema :: jsval
  st_output_schema :: jsval
  st_annotations :: jsval
  st_plugin_id :: string
  st_handler :: "jsval \<Rightarrow> 'x elicit \<Rightarrow> ('x, jsval) eff"

record provider_rule =
  ru_id :: string
  ru_pattern :: string
  ru_action :: tool_action
  ru_position :: string

record 'x policy_provider =
  pp_list :: "('x, provider_rule list) eff"
  pp_resolve :: "(string \<Rightarrow> bool option \<Rightarrow> ('x, effective_policy) eff) option"
  pp_prepare :: "('x, string \<Rightarrow> bool option \<Rightarrow> effective_policy) eff option"

record oauth_request =
  oq_grant :: string
  oq_token_url :: string
  oq_client_id :: string
  oq_client_secret :: string
  oq_refresh_token :: "string option"
  oq_scopes :: "string list"
  oq_resource :: "string option"

record oauth_failure =
  of_error :: "string option"
  of_message :: string

record oauth_token =
  tk_access :: string
  tk_refresh :: "string option"
  tk_expires_in :: "int option"
  tk_scope :: "string option"

text \<open>What the OAuth service is given (\<open>OAuthServiceDeps\<close>): the platform and the HTTP client, the library
  that talks to token endpoints, the random verifiers and states, the callback of the host.\<close>

record 'x oauth_deps = "'x web" +
  od_token_endpoint :: "token_request \<Rightarrow> ('x, library_error + issued_token) eff"
  od_code_verifier :: "nat \<Rightarrow> string"
  od_code_challenge :: "string \<Rightarrow> string"
  od_state :: "nat \<Rightarrow> string"
  od_date_parse :: "string \<Rightarrow> int option"
  od_redirect_uri :: "string option"
  od_org_slug :: "string option"

record 'x exec_env = base_env +
  x_json :: "string \<Rightarrow> jsval option"
  x_decode_health :: "jsval \<Rightarrow> jsval option"
  x_decode_health_spec :: "jsval \<Rightarrow> jsval option"
  x_decode_bindings :: "jsval \<Rightarrow> jsval option"
  x_is_tool_result :: "jsval \<Rightarrow> bool"
  x_between :: "string option \<Rightarrow> string option \<Rightarrow> string"
  x_random_id :: "string \<Rightarrow> nat \<Rightarrow> string"
  x_providers :: "'x provider list"
  x_plugins :: "'x plugin list"
  x_statics :: "(string \<times> 'x static_tool) list"
  x_policy_provider :: "'x policy_provider option"
  x_token_endpoint :: "oauth_request \<Rightarrow> ('x, oauth_failure + oauth_token) eff"
  x_on_integration_change :: bool
  x_tools_sync_ttl :: "int option"
  x_default_handler :: "'x handler"
  x_oauth :: "'x oauth_deps"

definition find_plugin :: "'x exec_env \<Rightarrow> string \<Rightarrow> 'x plugin option" where
  "find_plugin env p = find (\<lambda>pl. pl_id pl = p) (x_plugins env)"

definition find_provider :: "'x exec_env \<Rightarrow> string \<Rightarrow> 'x provider option" where
  "find_provider env k = find (\<lambda>pv. pv_key pv = k) (x_providers env)"

definition default_writable_provider :: "'x exec_env \<Rightarrow> 'x provider option" where
  "default_writable_provider env = find pv_writable (x_providers env)"

section \<open>What is assumed of the outside\<close>

definition sound_provider :: "owner_ctx \<Rightarrow> 'x provider \<Rightarrow> bool" where
  "sound_provider c pv \<longleftrightarrow>
     (\<forall>i. confined c (pv_get pv i)) \<and>
     (\<forall>f. pv_set pv = Some f \<longrightarrow> (\<forall>i v. confined c (f i v))) \<and>
     (\<forall>f. pv_has pv = Some f \<longrightarrow> (\<forall>i. confined c (f i))) \<and>
     (\<forall>m. pv_list pv = Some m \<longrightarrow> confined c m) \<and>
     (\<forall>f. pv_delete pv = Some f \<longrightarrow> (\<forall>i. confined c (f i)))"

definition confined_elicit :: "owner_ctx \<Rightarrow> 'x elicit \<Rightarrow> bool" where
  "confined_elicit c el \<longleftrightarrow> (\<forall>rq. confined c (el rq))"

definition sound_plugin :: "owner_ctx \<Rightarrow> 'x plugin \<Rightarrow> bool" where
  "sound_plugin c pl \<longleftrightarrow>
     (\<forall>f. pl_resolve_tools pl = Some f \<longrightarrow>
        (\<forall>iv cfg ref t gv gvs. confined c gv \<longrightarrow> confined c gvs \<longrightarrow> confined c (f iv cfg ref t gv gvs))) \<and>
     (\<forall>f. pl_remove_integration pl = Some f \<longrightarrow> (\<forall>r. confined c (f r))) \<and>
     (\<forall>f. pl_remove_connection pl = Some f \<longrightarrow> (\<forall>r. confined c (f r))) \<and>
     (\<forall>f. pl_detect pl = Some f \<longrightarrow> (\<forall>u. confined c (f u))) \<and>
     (\<forall>f. pl_health_candidates pl = Some f \<longrightarrow> (\<forall>r. confined c (f r))) \<and>
     (\<forall>f. pl_check_health pl = Some f \<longrightarrow> (\<forall>r s cr. confined c (f r s cr))) \<and>
     (\<forall>f. pl_resolve_annotations pl = Some f \<longrightarrow> (\<forall>i n rs. confined c (f i n rs))) \<and>
     (\<forall>f. pl_validate_args pl = Some f \<longrightarrow> (\<forall>r a. confined c (f r a))) \<and>
     (\<forall>f. pl_invoke_tool pl = Some f \<longrightarrow>
        (\<forall>r cr a el. confined_elicit c el \<longrightarrow> confined c (f r cr a el))) \<and>
     (\<forall>f. pl_project_schema pl = Some f \<longrightarrow> (\<forall>r i w. confined c (f r i w)))"

definition sound_policy_provider :: "owner_ctx \<Rightarrow> 'x policy_provider \<Rightarrow> bool" where
  "sound_policy_provider c pp \<longleftrightarrow> confined c (pp_list pp) \<and>
     (\<forall>f. pp_resolve pp = Some f \<longrightarrow> (\<forall>t d. confined c (f t d))) \<and>
     (\<forall>m. pp_prepare pp = Some m \<longrightarrow> confined c m)"

definition sound_handler :: "owner_ctx \<Rightarrow> 'x handler \<Rightarrow> bool" where
  "sound_handler c h \<longleftrightarrow> (\<forall>a args rq. confined c (h a args rq))"

definition sound_oauth :: "owner_ctx \<Rightarrow> 'x oauth_deps \<Rightarrow> bool" where
  "sound_oauth c od \<longleftrightarrow> (\<forall>rq. confined c (wb_http od rq)) \<and> (\<forall>rq. confined c (od_token_endpoint od rq))"

definition sound_env :: "'x exec_env \<Rightarrow> bool" where
  "sound_env env \<longleftrightarrow>
     (\<forall>pv \<in> set (x_providers env). sound_provider (e_ctx env) pv) \<and>
     (\<forall>pl \<in> set (x_plugins env). sound_plugin (e_ctx env) pl) \<and>
     (\<forall>(k, st) \<in> set (x_statics env). \<forall>a el. confined_elicit (e_ctx env) el \<longrightarrow>
        confined (e_ctx env) (st_handler st a el)) \<and>
     (\<forall>pp. x_policy_provider env = Some pp \<longrightarrow> sound_policy_provider (e_ctx env) pp) \<and>
     (\<forall>rq. confined (e_ctx env) (x_token_endpoint env rq)) \<and>
     sound_handler (e_ctx env) (x_default_handler env) \<and> sound_oauth (e_ctx env) (x_oauth env)"

lemma find_in_set: "find P xs = Some x \<Longrightarrow> x \<in> set xs"
  by (induction xs) (auto split: if_splits)

lemma sound_find_provider: "sound_env env \<Longrightarrow> find_provider env k = Some pv \<Longrightarrow> sound_provider (e_ctx env) pv"
  by (auto simp: sound_env_def find_provider_def dest: find_in_set)

lemma sound_default_provider:
  "sound_env env \<Longrightarrow> default_writable_provider env = Some pv \<Longrightarrow> sound_provider (e_ctx env) pv"
  by (auto simp: sound_env_def default_writable_provider_def dest: find_in_set)

lemma sound_find_plugin: "sound_env env \<Longrightarrow> find_plugin env k = Some pl \<Longrightarrow> sound_plugin (e_ctx env) pl"
  by (auto simp: sound_env_def find_plugin_def dest: find_in_set)

end
