(* ===== verification/Credentials.thy ===== *)
theory Credentials
  imports ExecEnv
begin

text \<open>
  Credential resolution (\<open>sdk/src/executor.ts\<close>, \<open>oauth-helpers.ts\<close>, \<open>auth-tool-failure.ts\<close>):
  finding a connection's row, refreshing its OAuth token ahead of expiry or after a 401,
  resolving its named inputs. An effect runs alone here, so the map of refreshes in flight,
  which shares one grant between concurrent resolutions, is always empty and left out.
\<close>

definition OAUTH2_REFRESH_SKEW_MS :: int where
  "OAUTH2_REFRESH_SKEW_MS = 60000"

definition should_refresh_token :: "'b base_env_scheme \<Rightarrow> int option \<Rightarrow> ('x, bool) eff" where
  "should_refresh_token env expires_at =
     (case expires_at of None \<Rightarrow> eff_return False
      | Some t \<Rightarrow> eff_bind (now env) (\<lambda>n. eff_return (t \<le> n + OAUTH2_REFRESH_SKEW_MS)))"

definition is_unauthorized_tool_failure :: "(jsval \<Rightarrow> bool) \<Rightarrow> jsval \<Rightarrow> bool" where
  "is_unauthorized_tool_failure is_tool_result v \<longleftrightarrow>
     is_tool_result v \<and> \<not> truthy (obj_get v ''ok'') \<and>
     obj_get (obj_get v ''error'') ''code'' = JStr ''connection_rejected'' \<and>
     obj_get (obj_get v ''error'') ''status'' = JNum 401"

definition connection_where :: "'x exec_env \<Rightarrow> conn_ref \<Rightarrow> cond_or_bool" where
  "connection_where env ref =
     builder_and [by_owner (e_ctx env) (rf_owner ref),
                  cmp_val ''integration'' OpEq (JStr (rf_integration ref)),
                  cmp_val ''name'' OpEq (JStr (rf_name ref))]"

definition find_connection_row :: "'x exec_env \<Rightarrow> conn_ref \<Rightarrow> ('x, row option) eff" where
  "find_connection_row env ref = core_find_first env connection_table (find_where (connection_where env ref))"

definition load_oauth_client_row :: "'x exec_env \<Rightarrow> owner \<Rightarrow> string \<Rightarrow> ('x, row option) eff" where
  "load_oauth_client_row env ow slug =
     core_find_first env oauth_client_table
       (find_where (builder_and [by_owner (e_ctx env) ow, cmp_val ''slug'' OpEq (JStr slug)]))"

definition row_ref :: "row \<Rightarrow> conn_ref" where
  "row_ref r = \<lparr>rf_owner = row_owner r, rf_integration = row_str r ''integration'', rf_name = row_str r ''name''\<rparr>"

definition health_result :: "string \<Rightarrow> int \<Rightarrow> string \<Rightarrow> jsval" where
  "health_result status at detail =
     JObj [(''status'', JStr status), (''checkedAt'', JNum at), (''detail'', JStr detail)]"

definition mark_refresh_grant_dead :: "'x exec_env \<Rightarrow> row \<Rightarrow> string \<Rightarrow> ('x, unit) eff" where
  "mark_refresh_grant_dead env r detail =
     (let merged = (case decode_json_column (x_json env) (r ''provider_state'') of JObj ps \<Rightarrow> ps | _ \<Rightarrow> []) in
      eff_bind (now env) (\<lambda>t1.
      eff_bind (now env) (\<lambda>t2.
      eff_bind (now env) (\<lambda>t3.
        eff_ignore (core_update_many env connection_table (Some (connection_where env (row_ref r)))
          [(''provider_state'', JObj (obj_set merged ''oauthReauthRequiredAt'' (JNum t2))),
           (''last_health'', health_result ''expired'' t1 detail),
           (''updated_at'', JDate t3)])))))"

text \<open>The connection a resolution failed for: its owner, integration and name.\<close>

definition row_label :: "row \<Rightarrow> string \<times> string \<times> string" where
  "row_label r = (row_str r ''owner'', row_str r ''integration'', row_str r ''name'')"

definition reauth :: "row \<Rightarrow> string \<Rightarrow> failure" where
  "reauth r msg = FCredentialResolution (row_label r) msg None True"

definition reauth_required :: "failure \<Rightarrow> string option" where
  "reauth_required e = (case e of FCredentialResolution _ m _ True \<Rightarrow> Some m | _ \<Rightarrow> None)"

definition client_credentials_grant ::
  "'x exec_env \<Rightarrow> oauth_request \<Rightarrow> ('x, oauth_token) eff" where
  "client_credentials_grant env rq =
     eff_bind (x_token_endpoint env rq) (\<lambda>res.
       case res of
         Inr tok \<Rightarrow> eff_return tok
       | Inl e \<Rightarrow> eff_fail (FStorage (StorageError (''Client-credentials token request failed: '' @ of_message e))))"

definition refresh_grant_failure :: "row \<Rightarrow> oauth_failure \<Rightarrow> failure" where
  "refresh_grant_failure r e =
     (case of_error e of
        Some code \<Rightarrow> FCredentialResolution (row_label r)
          (''OAuth token refresh was rejected ('' @ code @ ''): '' @ of_message e) (Some code) (code = ''invalid_grant'')
      | None \<Rightarrow> FStorage (StorageError (''OAuth token refresh failed: '' @ of_message e)))"

definition refresh_token_grant ::
  "'x exec_env \<Rightarrow> row \<Rightarrow> 'x provider \<Rightarrow> oauth_request \<Rightarrow> ('x, oauth_token) eff" where
  "refresh_token_grant env r pv rq =
     (if \<not> truthy (r ''refresh_item_id'') then
        eff_fail (reauth r ''No refresh token is stored for this connection.'')
      else
        eff_bind (pv_get pv (row_str r ''refresh_item_id'')) (\<lambda>tok.
          case nonempty tok of
            None \<Rightarrow> eff_fail (reauth r ''Stored refresh token could not be resolved.'')
          | Some t \<Rightarrow>
              eff_tap_error
                (eff_bind (x_token_endpoint env (rq\<lparr>oq_refresh_token := Some t\<rparr>)) (\<lambda>res.
                   case res of Inr tk \<Rightarrow> eff_return tk | Inl e \<Rightarrow> eff_fail (refresh_grant_failure r e)))
                (\<lambda>e. case reauth_required e of
                       Some m \<Rightarrow> mark_refresh_grant_dead env r m | None \<Rightarrow> eff_return ())))"

definition store_rotated :: "'x exec_env \<Rightarrow> row \<Rightarrow> 'x provider \<Rightarrow> oauth_token \<Rightarrow> ('x, unit) eff" where
  "store_rotated env r pv tok =
     (case pv_set pv of None \<Rightarrow> eff_return ()
      | Some put \<Rightarrow>
          (let item = (case map_of (connection_item_ids (x_json env) r) PRIMARY_INPUT_VARIABLE of
                 Some i \<Rightarrow> i
               | None \<Rightarrow> ''connection:'' @ row_str r ''owner'' @ '':'' @ row_str r ''integration'' @ '':''
                          @ row_str r ''name'' @ '':'' @ PRIMARY_INPUT_VARIABLE) in
           eff_bind (put item (tk_access tok)) (\<lambda>_.
             case nonempty (tk_refresh tok) of
               Some t \<Rightarrow> eff_when (truthy (r ''refresh_item_id'')) (put (row_str r ''refresh_item_id'') t)
             | None \<Rightarrow> eff_return ())))"

definition perform_token_refresh :: "'x exec_env \<Rightarrow> row \<Rightarrow> 'x provider \<Rightarrow> ('x, string option) eff" where
  "perform_token_refresh env r pv =
     (if oauth_reauth_required_at (x_json env) (r ''provider_state'') \<noteq> None then
        eff_fail (reauth r ''The authorization server rejected this connection's refresh token (invalid_grant). Reconnect to continue.'')
      else
        let client_owner = (case coalesce (r ''oauth_client_owner'') (r ''owner'') of
                              JStr w \<Rightarrow> if w = ''user'' then User else Org | _ \<Rightarrow> Org) in
        eff_bind (load_oauth_client_row env client_owner (row_str r ''oauth_client'')) (\<lambda>client.
          case client of
            None \<Rightarrow> eff_fail (reauth r (''OAuth client '' @ in_quotes (row_str r ''oauth_client'') @ '' is no longer registered.''))
          | Some cl \<Rightarrow>
              eff_bind (if truthy (cl ''client_secret_item_id'')
                        then eff_map (\<lambda>s. case s of None \<Rightarrow> [] | Some t \<Rightarrow> t) (pv_get pv (row_str cl ''client_secret_item_id''))
                        else eff_return []) (\<lambda>secret.
              let rq = \<lparr>oq_grant = row_str cl ''grant'',
                        oq_token_url = (if truthy (r ''oauth_token_url'') then row_str r ''oauth_token_url''
                                        else row_str cl ''token_url''),
                        oq_client_id = row_str cl ''client_id'', oq_client_secret = secret, oq_refresh_token = None,
                        oq_scopes = (if truthy (r ''oauth_scope'') then split_spaces [] (row_str r ''oauth_scope'') else []),
                        oq_resource = (if truthy (cl ''resource'') then Some (row_str cl ''resource'') else None)\<rparr> in
              eff_bind (if row_str cl ''grant'' = ''client_credentials'' then client_credentials_grant env rq
                        else refresh_token_grant env r pv rq) (\<lambda>tok.
              eff_bind (store_rotated env r pv tok) (\<lambda>_.
              eff_bind (case tk_expires_in tok of None \<Rightarrow> eff_return JNull
                        | Some n \<Rightarrow> eff_map (\<lambda>t. JNum (t + n * 1000)) (now env)) (\<lambda>next_expires_at.
              eff_bind (now env) (\<lambda>t.
              eff_bind (core_update_many env connection_table (Some (connection_where env (row_ref r)))
                  ([(''expires_at'', next_expires_at), (''updated_at'', JDate t)] @
                   (case tk_scope tok of None \<Rightarrow> [] | Some s \<Rightarrow> [(''oauth_scope'', JStr s)]))) (\<lambda>_.
                eff_return (Some (tk_access tok))))))))))"

definition resolve_connection_values :: "'x exec_env \<Rightarrow> row \<Rightarrow> ('x, cred_values) eff" where
  "resolve_connection_values env r =
     (case find_provider env (row_str r ''provider'') of
        None \<Rightarrow> eff_fail (FStorage (StorageError (''Credential provider '' @ in_quotes (row_str r ''provider'')
                   @ '' is not registered.'')))
      | Some pv \<Rightarrow>
          eff_bind (if nullish (r ''oauth_client'') then eff_return False
                    else should_refresh_token env (opt_num (r ''expires_at''))) (\<lambda>stale.
            if stale then
              eff_bind (perform_token_refresh env r pv) (\<lambda>access. eff_return [(PRIMARY_INPUT_VARIABLE, access)])
            else
              eff_mapM (\<lambda>(k, item). eff_bind (pv_get pv item) (\<lambda>x. eff_return (k, x)))
                (connection_item_ids (x_json env) r)))"

definition force_refresh_connection_values :: "'x exec_env \<Rightarrow> row \<Rightarrow> ('x, cred_values option) eff" where
  "force_refresh_connection_values env r =
     (if nullish (r ''oauth_client'') \<or> nullish (r ''refresh_item_id'') then eff_return None
      else case find_provider env (row_str r ''provider'') of
        None \<Rightarrow> eff_return None
      | Some pv \<Rightarrow> eff_bind (perform_token_refresh env r pv) (\<lambda>access.
          eff_return (Some [(PRIMARY_INPUT_VARIABLE, access)])))"

definition primary_value :: "cred_values \<Rightarrow> string option" where
  "primary_value vs = (case map_of vs PRIMARY_INPUT_VARIABLE of None \<Rightarrow> None | Some x \<Rightarrow> x)"

definition fold_resolution_failure :: "('x, 'a) eff \<Rightarrow> ('x, 'a) eff" where
  "fold_resolution_failure m =
     eff_map_error (\<lambda>e. case e of FCredentialResolution _ msg _ _ \<Rightarrow> FStorage (StorageError msg) | _ \<Rightarrow> e) m"

definition resolve_connection_value_by_ref :: "'x exec_env \<Rightarrow> conn_ref \<Rightarrow> ('x, string option) eff" where
  "resolve_connection_value_by_ref env ref =
     fold_resolution_failure (eff_bind (find_connection_row env ref) (\<lambda>row.
       case row of None \<Rightarrow> eff_return None
       | Some r \<Rightarrow> eff_map primary_value (resolve_connection_values env r)))"

definition resolve_connection_values_by_ref :: "'x exec_env \<Rightarrow> conn_ref \<Rightarrow> ('x, cred_values) eff" where
  "resolve_connection_values_by_ref env ref =
     fold_resolution_failure (eff_bind (find_connection_row env ref) (\<lambda>row.
       case row of None \<Rightarrow> eff_return [] | Some r \<Rightarrow> resolve_connection_values env r))"

section \<open>Confinement\<close>

lemma confined_should_refresh [confined_intros]: "confined c (should_refresh_token env t)"
  unfolding should_refresh_token_def by (intro confined_intros)

lemma confined_find_connection_row [confined_intros]: "confined (e_ctx env) (find_connection_row env ref)"
  unfolding find_connection_row_def by (intro confined_intros) simp

lemma confined_load_oauth_client_row [confined_intros]: "confined (e_ctx env) (load_oauth_client_row env ow slug)"
  unfolding load_oauth_client_row_def by (intro confined_intros) simp

lemma confined_mark_dead [confined_intros]: "confined (e_ctx env) (mark_refresh_grant_dead env r d)"
  unfolding mark_refresh_grant_dead_def Let_def by (intro confined_intros) simp_all

lemma confined_pv_get: "sound_provider c pv \<Longrightarrow> confined c (pv_get pv i)"
  by (simp add: sound_provider_def)

lemma confined_pv_set: "sound_provider c pv \<Longrightarrow> pv_set pv = Some f \<Longrightarrow> confined c (f i v)"
  by (simp add: sound_provider_def)

lemma confined_token_endpoint [confined_intros]: "sound_env env \<Longrightarrow> confined (e_ctx env) (x_token_endpoint env rq)"
  by (simp add: sound_env_def)

lemma confined_client_credentials [confined_intros]:
  "sound_env env \<Longrightarrow> confined (e_ctx env) (client_credentials_grant env rq)"
  unfolding client_credentials_grant_def by (intro confined_intros)

lemma confined_refresh_token_grant [confined_intros]:
  "sound_env env \<Longrightarrow> sound_provider (e_ctx env) pv \<Longrightarrow> confined (e_ctx env) (refresh_token_grant env r pv rq)"
  unfolding refresh_token_grant_def by (intro confined_intros confined_pv_get)

lemma confined_store_rotated [confined_intros]:
  "sound_provider (e_ctx env) pv \<Longrightarrow> confined (e_ctx env) (store_rotated env r pv tok)"
  unfolding store_rotated_def by (intro confined_intros) (auto intro: confined_pv_set)

lemma confined_perform_token_refresh [confined_intros]:
  "sound_env env \<Longrightarrow> sound_provider (e_ctx env) pv \<Longrightarrow> confined (e_ctx env) (perform_token_refresh env r pv)"
  unfolding perform_token_refresh_def Let_def
  by (intro confined_intros confined_pv_get) (simp_all split: option.splits)

lemma confined_resolve_values [confined_intros]:
  "sound_env env \<Longrightarrow> confined (e_ctx env) (resolve_connection_values env r)"
  unfolding resolve_connection_values_def
  by (intro confined_intros) (auto intro!: confined_intros intro: confined_pv_get sound_find_provider split: prod.splits)

lemma confined_force_refresh [confined_intros]:
  "sound_env env \<Longrightarrow> confined (e_ctx env) (force_refresh_connection_values env r)"
  unfolding force_refresh_connection_values_def
  by (intro confined_intros) (auto intro: sound_find_provider)

lemma confined_fold_resolution [confined_intros]: "confined c m \<Longrightarrow> confined c (fold_resolution_failure m)"
  unfolding fold_resolution_failure_def by (intro confined_intros)

lemma confined_value_by_ref [confined_intros]:
  "sound_env env \<Longrightarrow> confined (e_ctx env) (resolve_connection_value_by_ref env ref)"
  unfolding resolve_connection_value_by_ref_def by (intro confined_intros)

lemma confined_values_by_ref [confined_intros]:
  "sound_env env \<Longrightarrow> confined (e_ctx env) (resolve_connection_values_by_ref env ref)"
  unfolding resolve_connection_values_by_ref_def by (intro confined_intros)

end
