(* ===== verification/Integrations.thy ===== *)
theory Integrations
  imports Credentials
begin

text \<open>
  The integration catalogue (\<open>sdk/src/executor.ts\<close>): registering, editing, removing an
  integration, its health check declaration, detection. A registration or removal runs in a
  transaction and notifies the host once it is durable.
\<close>

definition integration_where :: "string \<Rightarrow> cond_or_bool" where
  "integration_where slug = cmp_val ''slug'' OpEq (JStr slug)"

definition find_integration_row :: "'x exec_env \<Rightarrow> string \<Rightarrow> ('x, row option) eff" where
  "find_integration_row env slug = core_find_first env integration_table (find_where (integration_where slug))"

definition describe_auth_methods_for_row :: "'x exec_env \<Rightarrow> row \<Rightarrow> jsval list" where
  "describe_auth_methods_for_row env r =
     (case find_plugin env (row_str r ''plugin_id'') of
        None \<Rightarrow> []
      | Some pl \<Rightarrow>
          (case pl_describe_auth pl of
             None \<Rightarrow> []
           | Some describe \<Rightarrow>
               (case describe (row_to_integration_record (x_json env) r []) of None \<Rightarrow> [] | Some ms \<Rightarrow> ms)))"

definition describe_display_for_row :: "'x exec_env \<Rightarrow> row \<Rightarrow> string option \<times> string option" where
  "describe_display_for_row env r =
     (case find_plugin env (row_str r ''plugin_id'') of
        None \<Rightarrow> (None, None)
      | Some pl \<Rightarrow>
          (case pl_describe_display pl of
             None \<Rightarrow> (None, None)
           | Some describe \<Rightarrow>
               (case describe (row_to_integration_record (x_json env) r []) of
                  None \<Rightarrow> (None, None) | Some d \<Rightarrow> (nonempty (fst d), nonempty (snd d)))))"

definition describe_health_check_for_row :: "'x exec_env \<Rightarrow> row \<Rightarrow> jsval option" where
  "describe_health_check_for_row env r = x_decode_health_spec env (r ''health_check'')"

definition show_integration :: "'x exec_env \<Rightarrow> row \<Rightarrow> integration_view" where
  "show_integration env r =
     row_to_integration r (describe_auth_methods_for_row env r) (describe_display_for_row env r)"

definition fold_plugin_failure :: "string \<Rightarrow> ('x, 'a) eff \<Rightarrow> ('x, 'a) eff" where
  "fold_plugin_failure msg m = eff_map_error (storage_failure_from msg) m"

definition plugin_storage_failure :: "string \<Rightarrow> string \<Rightarrow> ('x, 'a) eff \<Rightarrow> ('x, 'a) eff" where
  "plugin_storage_failure plugin_id hook m =
     eff_map_error (storage_failure_from (hook @ '' failed for plugin '' @ plugin_id)) m"

section \<open>Static integrations\<close>

fun dedup_by :: "('a \<Rightarrow> string) \<Rightarrow> 'a list \<Rightarrow> string list \<Rightarrow> 'a list" where
  "dedup_by f [] seen_ids = []"
| "dedup_by f (x # xs) seen_ids =
     (if f x \<in> set seen_ids then dedup_by f xs seen_ids else x # dedup_by f xs (f x # seen_ids))"

definition static_integrations :: "'x exec_env \<Rightarrow> static_integration list" where
  "static_integrations env = dedup_by si_id (map (st_integration \<circ> snd) (x_statics env)) []"

definition static_decl_to_integration :: "static_integration \<Rightarrow> integration_view" where
  "static_decl_to_integration s =
     \<lparr>iv_slug = si_id s, iv_name = si_name s, iv_description = si_name s, iv_kind = si_kind s,
      iv_can_remove = (si_can_remove s = Some True), iv_can_refresh = (si_can_refresh s = Some True),
      iv_auth_methods = [], iv_display_url = None, iv_display_family = None\<rparr>"

definition integrations_get :: "'x exec_env \<Rightarrow> string \<Rightarrow> ('x, integration_view option) eff" where
  "integrations_get env slug =
     (case find (\<lambda>s. si_id s = slug) (static_integrations env) of
        Some s \<Rightarrow> eff_return (Some (static_decl_to_integration s))
      | None \<Rightarrow> eff_map (map_option (show_integration env)) (find_integration_row env slug))"

definition integrations_get_record :: "'x exec_env \<Rightarrow> string \<Rightarrow> ('x, integration_record option) eff" where
  "integrations_get_record env slug =
     eff_map (map_option (\<lambda>r. row_to_integration_record (x_json env) r (describe_auth_methods_for_row env r)))
       (find_integration_row env slug)"

section \<open>Registering, editing, removing\<close>

definition change_event :: "string \<Rightarrow> string \<Rightarrow> string \<Rightarrow> jsval" where
  "change_event kind plugin_key slug =
     JObj [(''kind'', JStr kind), (''pluginKey'', JStr plugin_key), (''slug'', JStr slug)]"

definition notify_integration_change :: "'x exec_env \<Rightarrow> jsval \<Rightarrow> ('x, unit) eff" where
  "notify_integration_change env ev = (if x_on_integration_change env then after_commit ev else eff_return ())"

record register_input =
  ri_slug :: string
  ri_name :: "string option"
  ri_description :: jsval
  ri_config :: jsval
  ri_can_remove :: "bool option"
  ri_can_refresh :: "bool option"

definition integrations_register :: "'x exec_env \<Rightarrow> string \<Rightarrow> register_input \<Rightarrow> ('x, unit) eff" where
  "integrations_register env plugin_id inp =
     eff_bind (eff_transaction (
       eff_bind (now env) (\<lambda>t.
       eff_bind (find_integration_row env (ri_slug inp)) (\<lambda>existing.
         let config = (if ri_config inp = JUndef then JNull else ri_config inp) in
         case existing of
           Some ex \<Rightarrow>
             eff_bind (core_update_many env integration_table (Some (integration_where (ri_slug inp)))
               [(''plugin_id'', JStr plugin_id),
                (''name'', case ri_name inp of Some n \<Rightarrow> JStr n | None \<Rightarrow> coalesce (ex ''name'') JNull),
                (''description'', ri_description inp),
                (''config'', config),
                (''can_remove'', JBool (case ri_can_remove inp of Some b \<Rightarrow> b | None \<Rightarrow> truthy (ex ''can_remove''))),
                (''can_refresh'', JBool (case ri_can_refresh inp of Some b \<Rightarrow> b | None \<Rightarrow> truthy (ex ''can_refresh''))),
                (''updated_at'', JDate t)]) (\<lambda>_. eff_return False)
         | None \<Rightarrow>
             eff_bind (core_create env integration_table
               [(''tenant'', JStr (oc_tenant (e_ctx env))), (''slug'', JStr (ri_slug inp)),
                (''plugin_id'', JStr plugin_id), (''name'', jopt JStr (ri_name inp)),
                (''description'', ri_description inp), (''config'', config),
                (''can_remove'', JBool (case ri_can_remove inp of Some b \<Rightarrow> b | None \<Rightarrow> True)),
                (''can_refresh'', JBool (case ri_can_refresh inp of Some b \<Rightarrow> b | None \<Rightarrow> False)),
                (''created_at'', JDate t), (''updated_at'', JDate t)]) (\<lambda>_. eff_return True)))))
     (\<lambda>created. if created then notify_integration_change env (change_event ''added'' plugin_id (ri_slug inp))
                else eff_return ())"

record integration_patch =
  ip_name :: "string option"
  ip_description :: "string option"
  ip_config :: "jsval option"

definition integrations_update :: "'x exec_env \<Rightarrow> string \<Rightarrow> integration_patch \<Rightarrow> ('x, unit) eff" where
  "integrations_update env slug patch =
     eff_bind (now env) (\<lambda>t.
       core_update_many env integration_table (Some (integration_where slug))
         ([(''updated_at'', JDate t)] @
          (case ip_name patch of None \<Rightarrow> [] | Some n \<Rightarrow> [(''name'', JStr n)]) @
          (case ip_description patch of None \<Rightarrow> [] | Some d \<Rightarrow> [(''description'', JStr d)]) @
          (case ip_config patch of None \<Rightarrow> []
           | Some cfg \<Rightarrow> [(''config'', cfg), (''config_revised_at'', JNum t)])))"

definition integrations_update_public :: "'x exec_env \<Rightarrow> string \<Rightarrow> integration_patch \<Rightarrow> ('x, unit) eff" where
  "integrations_update_public env slug patch =
     eff_bind (find_integration_row env slug) (\<lambda>existing.
       if existing = None then eff_fail (FIntegrationNotFound slug) else integrations_update env slug patch)"

definition drop_integration_rows :: "'x exec_env \<Rightarrow> string \<Rightarrow> ('x, unit) eff" where
  "drop_integration_rows env slug =
     (let w = Some (cmp_val ''integration'' OpEq (JStr slug)) in
      eff_bind (core_delete_many env tool_table w) (\<lambda>_.
      eff_bind (core_delete_many env definition_table w) (\<lambda>_.
      eff_bind (core_delete_many env connection_table w) (\<lambda>_.
        core_delete_many env integration_table (Some (integration_where slug))))))"

definition run_remove_hook :: "'x exec_env \<Rightarrow> row \<Rightarrow> ('x, unit) eff" where
  "run_remove_hook env ex =
     (case find_plugin env (row_str ex ''plugin_id'') of
        None \<Rightarrow> eff_return ()
      | Some pl \<Rightarrow>
          (case pl_remove_integration pl of
             None \<Rightarrow> eff_return ()
           | Some hook \<Rightarrow>
               plugin_storage_failure (row_str ex ''plugin_id'') ''removeIntegration''
                 (hook (row_to_integration_record (x_json env) ex (describe_auth_methods_for_row env ex)))))"

definition remove_integration_tx :: "'x exec_env \<Rightarrow> string \<Rightarrow> ('x, string option) eff" where
  "remove_integration_tx env slug =
     eff_bind (find_integration_row env slug) (\<lambda>existing.
       case existing of
         None \<Rightarrow> eff_return None
       | Some ex \<Rightarrow>
           if \<not> truthy (ex ''can_remove'') then eff_fail (FIntegrationRemovalNotAllowed slug)
           else eff_bind (run_remove_hook env ex) (\<lambda>_.
             eff_bind (drop_integration_rows env slug) (\<lambda>_. eff_return (Some (row_str ex ''plugin_id'')))))"

definition integrations_remove :: "'x exec_env \<Rightarrow> string \<Rightarrow> ('x, unit) eff" where
  "integrations_remove env slug =
     eff_bind (eff_transaction (remove_integration_tx env slug)) (\<lambda>removed.
       case removed of
         Some p \<Rightarrow> notify_integration_change env (change_event ''removed'' p slug)
       | None \<Rightarrow> eff_return ())"

definition integrations_detect :: "'x exec_env \<Rightarrow> string \<Rightarrow> ('x, jsval list) eff" where
  "integrations_detect env url =
     eff_map (filter truthy)
       (eff_mapM (\<lambda>pl. case pl_detect pl of
            None \<Rightarrow> eff_return JUndef
          | Some hook \<Rightarrow> plugin_storage_failure (pl_id pl) ''detect'' (hook url)) (x_plugins env))"

section \<open>Health check declaration\<close>

definition integration_health_check_get :: "'x exec_env \<Rightarrow> string \<Rightarrow> ('x, jsval option) eff" where
  "integration_health_check_get env slug =
     eff_map (\<lambda>r. case r of None \<Rightarrow> None | Some x \<Rightarrow> describe_health_check_for_row env x)
       (find_integration_row env slug)"

definition integration_health_check_candidates :: "'x exec_env \<Rightarrow> string \<Rightarrow> ('x, jsval list) eff" where
  "integration_health_check_candidates env slug =
     eff_bind (find_integration_row env slug) (\<lambda>row.
       case row of
         None \<Rightarrow> eff_fail (FIntegrationNotFound slug)
       | Some r \<Rightarrow>
           (case find_plugin env (row_str r ''plugin_id'') of
              None \<Rightarrow> eff_return []
            | Some pl \<Rightarrow>
                (case pl_health_candidates pl of
                   None \<Rightarrow> eff_return []
                 | Some list_hook \<Rightarrow>
                     fold_plugin_failure (''Listing health-check candidates for '' @ in_quotes slug @ '' failed.'')
                       (list_hook (row_to_integration_record (x_json env) r (describe_auth_methods_for_row env r))))))"

definition integration_set_health_check :: "'x exec_env \<Rightarrow> string \<Rightarrow> jsval option \<Rightarrow> ('x, unit) eff" where
  "integration_set_health_check env slug spec =
     eff_bind (find_integration_row env slug) (\<lambda>row.
       if row = None then eff_fail (FIntegrationNotFound slug)
       else eff_bind (now env) (\<lambda>t.
         core_update_many env integration_table (Some (integration_where slug))
           [(''health_check'', case spec of None \<Rightarrow> JNull | Some s \<Rightarrow> s), (''updated_at'', JDate t)]))"

end
