(* ===== verification/SubjectRegistry.thy ===== *)
theory SubjectRegistry
  imports Effects Rows
begin

text \<open>
  The subject registry (\<open>sdk/src/subject-registry.ts\<close>): recording that a principal was seen
  under a tenant, throttled by the row's own timestamp and by a bounded process-local memory.
\<close>

definition DEFAULT_SUBJECT_LAST_SEEN_THROTTLE_MS :: int where
  "DEFAULT_SUBJECT_LAST_SEEN_THROTTLE_MS = 3600000"

definition MAX_TRACKED_SUBJECTS :: nat where
  "MAX_TRACKED_SUBJECTS = 10000"

definition touch_cache_key :: "string \<Rightarrow> string \<Rightarrow> string" where
  "touch_cache_key tn external_id = tn @ [CHR 0x00] @ external_id"

text \<open>The map in insertion order; \<open>remember_touch\<close> moves its key to the end.\<close>

definition remember_touch :: "string \<Rightarrow> int \<Rightarrow> (string \<times> int) list \<Rightarrow> (string \<times> int) list" where
  "remember_touch k at m =
     (let m' = filter (\<lambda>(k', _). k' \<noteq> k) m @ [(k, at)] in
      if length m' > MAX_TRACKED_SUBJECTS then tl m' else m')"

definition eff_remember :: "string \<Rightarrow> int \<Rightarrow> ('x, unit) eff" where
  "eff_remember k at w = (Inr (), w\<lparr>w_touched := remember_touch k at (w_touched w)\<rparr>)"

definition eff_seen_at :: "string \<Rightarrow> ('x, int option) eff" where
  "eff_seen_at k w = (Inr (map_of (w_touched w) k), w)"

text \<open>The context \<open>touchSubject\<close> binds, whatever the executor's own is.\<close>

definition touch_env :: "base_env \<Rightarrow> string \<Rightarrow> string \<Rightarrow> base_env" where
  "touch_env env tn external_id =
     env\<lparr>e_ctx := \<lparr>oc_tenant = tn, oc_subject = Some external_id, oc_reach = Bound, oc_writes = Allowed\<rparr>\<rparr>"

definition touch_subject_row :: "base_env \<Rightarrow> string \<Rightarrow> string \<Rightarrow> int \<Rightarrow> ('x, unit) eff" where
  "touch_subject_row env tn external_id throttle =
     (let key = touch_cache_key tn external_id;
          q = cmp_val ''external_id'' OpEq (JStr external_id) in
      eff_bind (now env) (\<lambda>t.
      eff_bind (core_find_first env subject_table (find_where q)) (\<lambda>existing.
        case existing of
          None \<Rightarrow>
            eff_bind (eff_catch (eff_map (\<lambda>_. ()) (core_create env subject_table
                [(''tenant'', JStr tn), (''external_id'', JStr external_id), (''created_at'', JDate t),
                 (''last_seen_at'', JNum t), (''status'', JNull)]))
                (\<lambda>e. case e of FStorage (UniqueViolation _) \<Rightarrow> eff_return () | _ \<Rightarrow> eff_fail e)) (\<lambda>_.
              eff_remember key t)
        | Some r \<Rightarrow>
            (case opt_num (r ''last_seen_at'') of
               Some prev \<Rightarrow>
                 if t - prev < throttle then eff_remember key prev
                 else eff_bind (core_update_many env subject_table (Some q) [(''last_seen_at'', JNum t)])
                        (\<lambda>_. eff_remember key t)
             | None \<Rightarrow>
                 eff_bind (core_update_many env subject_table (Some q) [(''last_seen_at'', JNum t)])
                   (\<lambda>_. eff_remember key t)))))"

definition touch_subject :: "base_env \<Rightarrow> string \<Rightarrow> string option \<Rightarrow> int \<Rightarrow> ('x, unit) eff" where
  "touch_subject env tn external_id throttle =
     eff_ignore (case external_id of
       None \<Rightarrow> eff_return ()
     | Some x \<Rightarrow>
         eff_bind (eff_seen_at (touch_cache_key tn x)) (\<lambda>seen_at.
           case seen_at of
             None \<Rightarrow> touch_subject_row (touch_env env tn x) tn x throttle
           | Some s \<Rightarrow>
               eff_bind (now env) (\<lambda>t.
                 if t - s < throttle then eff_return ()
                 else touch_subject_row (touch_env env tn x) tn x throttle)))"

lemma confined_remember [confined_intros]: "confined c (eff_remember k at)"
  by (simp add: confined_def eff_remember_def agree_iff)

lemma confined_seen_at [confined_intros]: "confined c (eff_seen_at k)"
  by (simp add: confined_def eff_seen_at_def agree_iff)

lemma confined_touch_row:
  "e_ctx env = c \<Longrightarrow> confined c (touch_subject_row env tn x throttle)"
  unfolding touch_subject_row_def Let_def
  by (auto intro!: confined_intros split: failure.splits storage_error.splits)

text \<open>A context that may write sights itself within its own confinement.\<close>

lemma confined_touch_subject:
  assumes "\<not> read_only c" "tn = oc_tenant c" "x = oc_subject c"
  shows "confined c (touch_subject env tn x throttle)"
proof -
  have "e_ctx (touch_env env (oc_tenant c) s) = c" if "oc_subject c = Some s" for s
    using assms(1) that
    by (cases c; cases "oc_reach c"; cases "oc_writes c") (auto simp: touch_env_def read_only_def)
  then show ?thesis
    unfolding touch_subject_def assms(2,3)
    by (intro confined_intros confined_touch_row) auto
qed

text \<open>The process-local memory of sightings never grows past its bound, holds each principal at
  most once, and always remembers the sighting just recorded.\<close>

theorem remember_touch_bounded:
  assumes "distinct (map fst m)" "length m \<le> MAX_TRACKED_SUBJECTS"
  shows "distinct (map fst (remember_touch k at m)) \<and>
         length (remember_touch k at m) \<le> MAX_TRACKED_SUBJECTS \<and>
         map_of (remember_touch k at m) k = Some at"
proof -
  let ?f = "filter (\<lambda>(k', _). k' \<noteq> k) m"
  have d: "distinct (map fst (?f @ [(k, at)]))"
    using assms(1) distinct_map_filter [of fst m "\<lambda>(k', _). k' \<noteq> k"] by auto
  have len: "length ?f \<le> MAX_TRACKED_SUBJECTS" using assms(2) length_filter_le le_trans by blast
  have mem: "map_of (?f @ [(k, at)]) k = Some at"
  proof -
    have "map_of ?f k = None" unfolding map_of_eq_None_iff by auto
    then show ?thesis by (simp add: map_add_def)
  qed
  show ?thesis
  proof (cases "length (?f @ [(k, at)]) > MAX_TRACKED_SUBJECTS")
    case True
    then have ne: "?f \<noteq> []" by (auto simp: MAX_TRACKED_SUBJECTS_def)
    then obtain p f' where f: "?f = p # f'" by (cases ?f) auto
    have r: "remember_touch k at m = f' @ [(k, at)]"
      using True f by (simp add: remember_touch_def)
    have "map_of f' k = None" unfolding map_of_eq_None_iff using f d by auto
    with r f d len show ?thesis by (simp add: map_add_def)
  next
    case False
    then have "remember_touch k at m = ?f @ [(k, at)]" by (simp add: remember_touch_def)
    with False d mem show ?thesis by simp
  qed
qed

lemma remember_touch_bounded_witness:
  "length (remember_touch ''k'' 5 [(''a'', 1), (''k'', 2)]) \<le> MAX_TRACKED_SUBJECTS"
  using remember_touch_bounded [of "[(''a'', 1), (''k'', 2)]" "''k''" 5]
  by (simp add: MAX_TRACKED_SUBJECTS_def)

end
