(* ===== verification/Connections.thy ===== *)
theory Connections
  imports Integrations SubjectRegistry
begin

text \<open>
  Connections (\<open>sdk/src/executor.ts\<close>): producing a connection's tool catalogue, creating,
  minting, editing, removing, refreshing and checking a connection.
\<close>

definition NO_AUTH_TEMPLATE :: string where
  "NO_AUTH_TEMPLATE = ''none''"

section \<open>Tool production\<close>

datatype sync_mode = Explicit | Background

definition TOOL_SYNC_PREFIX :: string where
  "TOOL_SYNC_PREFIX = ''Tool sync failing''"

definition tool_sync_health :: "string \<Rightarrow> int \<Rightarrow> jsval" where
  "tool_sync_health reason at = health_result ''degraded'' at (TOOL_SYNC_PREFIX @ '': '' @ reason)"

definition sync_health_reason :: "resolve_tools_result \<Rightarrow> string" where
  "sync_health_reason res =
     (case rt_incomplete_reason res of Some x \<Rightarrow> x | None \<Rightarrow> ''plugin returned an incomplete tool catalog'')"

definition is_tool_sync_health :: "jsval option \<Rightarrow> bool" where
  "is_tool_sync_health health =
     (case health of None \<Rightarrow> False
      | Some h \<Rightarrow> (case obj_get h ''detail'' of JStr d \<Rightarrow> js_starts_with d TOOL_SYNC_PREFIX | _ \<Rightarrow> False))"

definition tools_where :: "'x exec_env \<Rightarrow> conn_ref \<Rightarrow> cond_or_bool" where
  "tools_where env ref =
     builder_and [by_owner (e_ctx env) (rf_owner ref),
                  cmp_val ''integration'' OpEq (JStr (rf_integration ref)),
                  cmp_val ''connection'' OpEq (JStr (rf_name ref))]"

definition stamp_synced :: "'x exec_env \<Rightarrow> conn_ref \<Rightarrow> row option \<Rightarrow> ('x, unit) eff" where
  "stamp_synced env ref row =
     (let health = (case row of None \<Rightarrow> None | Some r \<Rightarrow> x_decode_health env (r ''last_health'')) in
      eff_bind (now env) (\<lambda>t.
        if is_tool_sync_health health then
          eff_bind (now env) (\<lambda>t'.
            core_update_many env connection_table (Some (connection_where env ref))
              [(''tools_synced_at'', JNum t), (''last_health'', JNull), (''updated_at'', JDate t')])
        else core_update_many env connection_table (Some (connection_where env ref))
               [(''tools_synced_at'', JNum t)]))"

definition stamp_synced_with_health :: "'x exec_env \<Rightarrow> conn_ref \<Rightarrow> string \<Rightarrow> ('x, unit) eff" where
  "stamp_synced_with_health env ref reason =
     eff_bind (now env) (\<lambda>t1. eff_bind (now env) (\<lambda>t2. eff_bind (now env) (\<lambda>t3.
       core_update_many env connection_table (Some (connection_where env ref))
         [(''tools_synced_at'', JNum t1), (''last_health'', tool_sync_health reason t2),
          (''updated_at'', JDate t3)])))"

definition clear_tools :: "'x exec_env \<Rightarrow> conn_ref \<Rightarrow> row option \<Rightarrow> ('x, unit) eff" where
  "clear_tools env ref row =
     eff_transaction (
       eff_bind (core_delete_many env tool_table (Some (tools_where env ref))) (\<lambda>_.
       eff_bind (core_delete_many env definition_table (Some (tools_where env ref))) (\<lambda>_.
         stamp_synced env ref row)))"

definition unbound_credentialed :: "'x exec_env \<Rightarrow> row \<Rightarrow> bool" where
  "unbound_credentialed env r \<longleftrightarrow>
     nullish (r ''oauth_client'') \<and> r ''template'' \<noteq> JStr NO_AUTH_TEMPLATE \<and>
     connection_item_ids (x_json env) r = []"

definition js_or_null :: "jsval \<Rightarrow> jsval" where
  "js_or_null v = coalesce v JNull"

definition tool_row_of :: "record_vals \<Rightarrow> row \<Rightarrow> conn_ref \<Rightarrow> int \<Rightarrow> tool_def \<Rightarrow> record_vals" where
  "tool_row_of keys irow ref t td =
     keys @ [(''integration'', JStr (rf_integration ref)), (''connection'', JStr (rf_name ref)),
       (''plugin_id'', irow ''plugin_id''), (''name'', JStr (td_name td)),
       (''description'', JStr (case td_description td of None \<Rightarrow> [] | Some d \<Rightarrow> d)),
       (''input_schema'', js_or_null (td_input_schema td)), (''output_schema'', js_or_null (td_output_schema td)),
       (''annotations'', js_or_null (td_annotations td)), (''created_at'', JDate t), (''updated_at'', JDate t)]"

definition definition_row_of :: "record_vals \<Rightarrow> row \<Rightarrow> conn_ref \<Rightarrow> int \<Rightarrow> string \<times> jsval \<Rightarrow> record_vals" where
  "definition_row_of keys irow ref t d =
     keys @ [(''integration'', JStr (rf_integration ref)), (''connection'', JStr (rf_name ref)),
       (''plugin_id'', irow ''plugin_id''), (''name'', JStr (fst d)), (''schema'', snd d), (''created_at'', JDate t)]"

definition kept_tools :: "'x exec_env \<Rightarrow> row list \<Rightarrow> tool_view list" where
  "kept_tools env rows = map (\<lambda>r. row_to_tool (x_json env) r JUndef) rows"

definition write_catalog ::
  "'x exec_env \<Rightarrow> record_vals \<Rightarrow> row \<Rightarrow> conn_ref \<Rightarrow> row option \<Rightarrow> resolve_tools_result \<Rightarrow> int \<Rightarrow> ('x, unit) eff" where
  "write_catalog env keys irow ref existing res t =
     eff_bind (core_delete_many env tool_table (Some (tools_where env ref))) (\<lambda>_.
     eff_bind (core_delete_many env definition_table (Some (tools_where env ref))) (\<lambda>_.
     eff_bind (core_create_many env tool_table (map (tool_row_of keys irow ref t) (rt_tools res))) (\<lambda>_.
     eff_bind (core_create_many env definition_table (map (definition_row_of keys irow ref t) (rt_definitions res))) (\<lambda>_.
       stamp_synced env ref existing))))"

definition replace_catalog ::
  "'x exec_env \<Rightarrow> record_vals \<Rightarrow> row \<Rightarrow> conn_ref \<Rightarrow> row option \<Rightarrow> resolve_tools_result \<Rightarrow> ('x, tool_view list) eff" where
  "replace_catalog env keys irow ref existing res =
     eff_bind (now env) (\<lambda>t.
     eff_bind (eff_transaction (write_catalog env keys irow ref existing res t)) (\<lambda>_.
       eff_return (map (\<lambda>td. row_to_tool (x_json env) (prop_of (tool_row_of keys irow ref t td)) (td_annotations td))
         (rt_tools res))))"

definition call_resolve_tools ::
  "'x exec_env \<Rightarrow> row \<Rightarrow> conn_ref \<Rightarrow> row option \<Rightarrow>
   (integration_view \<Rightarrow> jsval \<Rightarrow> conn_ref \<Rightarrow> string option \<Rightarrow> ('x, string option) eff \<Rightarrow> ('x, cred_values) eff \<Rightarrow>
     ('x, resolve_tools_result) eff) \<Rightarrow> ('x, resolve_tools_result) eff" where
  "call_resolve_tools env irow ref existing resolve =
     plugin_storage_failure (row_str irow ''plugin_id'') ''resolveTools''
       (resolve (row_to_integration irow [] (None, None))
          (decode_json_column (x_json env) (irow ''config'')) ref
          (map_option (\<lambda>r. row_str r ''template'') existing)
          (resolve_connection_value_by_ref env ref) (resolve_connection_values_by_ref env ref))"

definition store_catalog ::
  "'x exec_env \<Rightarrow> record_vals \<Rightarrow> row \<Rightarrow> conn_ref \<Rightarrow> row option \<Rightarrow> sync_mode \<Rightarrow> 'x plugin \<Rightarrow>
   resolve_tools_result \<Rightarrow> ('x, tool_view list) eff" where
  "store_catalog env keys irow ref existing mode pl res =
     (if rt_incomplete res then
        eff_bind (stamp_synced_with_health env ref (sync_health_reason res)) (\<lambda>_.
          eff_map (kept_tools env) (core_find_many env tool_table (find_where (tools_where env ref))))
      else
        eff_bind (if mode = Background \<and> pl_remote_catalog pl \<and> rt_tools res = []
                  then core_find_many env tool_table (find_where (tools_where env ref))
                  else eff_return []) (\<lambda>kept.
          if kept \<noteq> [] then
            eff_bind (stamp_synced_with_health env ref
              ''background tool sync produced an authoritative empty catalog for a connection with existing tools'')
              (\<lambda>_. eff_return (kept_tools env kept))
          else replace_catalog env keys irow ref existing res))"

definition produce_connection_tools ::
  "'x exec_env \<Rightarrow> row \<Rightarrow> conn_ref \<Rightarrow> sync_mode \<Rightarrow> ('x, tool_view list) eff" where
  "produce_connection_tools env irow ref mode =
     eff_bind (eff_lift (owned_keys (e_ctx env) (rf_owner ref))) (\<lambda>keys.
     eff_bind (find_connection_row env ref) (\<lambda>existing.
       if (case existing of Some r \<Rightarrow> unbound_credentialed env r | None \<Rightarrow> False) then
         eff_bind (clear_tools env ref existing) (\<lambda>_. eff_return [])
       else
         case find_plugin env (row_str irow ''plugin_id'') of
           None \<Rightarrow> eff_bind (clear_tools env ref existing) (\<lambda>_. eff_return [])
         | Some pl \<Rightarrow>
             (case pl_resolve_tools pl of
                None \<Rightarrow> eff_bind (clear_tools env ref existing) (\<lambda>_. eff_return [])
              | Some resolve \<Rightarrow>
                  eff_bind (call_resolve_tools env irow ref existing resolve) (\<lambda>res.
                    store_catalog env keys irow ref existing mode pl res))))"

section \<open>Confinement of tool production\<close>

lemma confined_find_integration [confined_intros]: "confined (e_ctx env) (find_integration_row env slug)"
  unfolding find_integration_row_def by (intro confined_intros) simp

lemma confined_plugin_failure [confined_intros]: "confined c m \<Longrightarrow> confined c (plugin_storage_failure p h m)"
  unfolding plugin_storage_failure_def by (intro confined_intros)

lemma confined_fold_plugin [confined_intros]: "confined c m \<Longrightarrow> confined c (fold_plugin_failure msg m)"
  unfolding fold_plugin_failure_def by (intro confined_intros)

lemma confined_stamp_synced [confined_intros]: "confined (e_ctx env) (stamp_synced env ref row)"
  unfolding stamp_synced_def Let_def by (intro confined_intros) simp_all

lemma confined_stamp_health [confined_intros]: "confined (e_ctx env) (stamp_synced_with_health env ref reason)"
  unfolding stamp_synced_with_health_def by (intro confined_intros) simp_all

lemma confined_clear_tools [confined_intros]: "confined (e_ctx env) (clear_tools env ref row)"
  unfolding clear_tools_def by (intro confined_intros) simp_all

lemma confined_replace_catalog [confined_intros]: "confined (e_ctx env) (replace_catalog env keys irow ref existing res)"
  unfolding replace_catalog_def write_catalog_def by (intro confined_intros) simp_all

lemma confined_resolve_hook:
  "sound_env env \<Longrightarrow> find_plugin env p = Some pl \<Longrightarrow> pl_resolve_tools pl = Some f \<Longrightarrow>
   confined (e_ctx env) gv \<Longrightarrow> confined (e_ctx env) gvs \<Longrightarrow> confined (e_ctx env) (f iv cfg ref t gv gvs)"
  using sound_find_plugin [of env p pl] by (simp add: sound_plugin_def)

lemma confined_produce [confined_intros]:
  "sound_env env \<Longrightarrow> confined (e_ctx env) (produce_connection_tools env irow ref mode)"
  unfolding produce_connection_tools_def call_resolve_tools_def store_catalog_def
  by (intro confined_intros) (auto intro!: confined_intros confined_resolve_hook)

section \<open>Creating and minting\<close>

record create_input =
  ci_owner :: owner
  ci_integration :: string
  ci_name :: string
  ci_template :: string
  ci_inputs :: connection_value_input
  ci_identity_label :: "string option"
  ci_description :: "string option"

fun is_pasted :: "input_origin \<Rightarrow> bool" where
  "is_pasted (Pasted _) \<longleftrightarrow> True"
| "is_pasted (External _ _) \<longleftrightarrow> False"

fun origin_provider :: "input_origin \<Rightarrow> string" where
  "origin_provider (External p _) = p"
| "origin_provider (Pasted _) = []"

fun origin_item :: "input_origin \<Rightarrow> string" where
  "origin_item (External _ i) = i"
| "origin_item (Pasted v) = v"

definition connection_item_id :: "owner \<Rightarrow> string \<Rightarrow> string \<Rightarrow> string \<Rightarrow> string" where
  "connection_item_id ow integ name v =
     ''connection:'' @ owner_text ow @ '':'' @ integ @ '':'' @ name @ '':'' @ v"

text \<open>The value origins of a new connection: one provider and an item id per variable.\<close>

definition bind_inputs :: "'x exec_env \<Rightarrow> create_input \<Rightarrow> string \<Rightarrow> ('x, string \<times> record_vals) eff" where
  "bind_inputs env inp name =
     (let inputs = normalize_connection_inputs (ci_inputs inp);
          pasted = filter (\<lambda>i. is_pasted (snd i)) inputs;
          external = filter (\<lambda>i. \<not> is_pasted (snd i)) inputs in
      if inputs = [] \<and> ci_template inp \<noteq> NO_AUTH_TEMPLATE then
        eff_fail (FInvalidConnectionInput ''A connection must supply at least one credential input.'')
      else if external \<noteq> [] \<and> pasted \<noteq> [] then
        eff_fail (FInvalidConnectionInput ''A connection cannot mix pasted and external-provider inputs.'')
      else if external \<noteq> [] then
        (let providers = remdups (map (\<lambda>i. origin_provider (snd i)) external) in
         if length providers > 1 then
           eff_fail (FInvalidConnectionInput ''A connection's inputs must all use the same external provider.'')
         else
           (let only = hd providers in
            case find_provider env only of
              None \<Rightarrow> eff_fail (FProviderNotRegistered only)
            | Some pv \<Rightarrow> eff_return (only,
                fold (\<lambda>(k, og) acc. obj_set acc k (JStr (origin_item og))) external [])))
      else
        (case default_writable_provider env of
           None \<Rightarrow> eff_fail (FProviderNotRegistered ''default'')
         | Some pv \<Rightarrow>
             eff_bind (eff_iter (\<lambda>(k, og). case pv_set pv of None \<Rightarrow> eff_return ()
                 | Some put \<Rightarrow> put (connection_item_id (ci_owner inp) (ci_integration inp) name k) (origin_item og)) pasted) (\<lambda>_.
               eff_return (pv_key pv, fold (\<lambda>(k, og) acc. obj_set acc k
                 (JStr (connection_item_id (ci_owner inp) (ci_integration inp) name k))) pasted []))))"

definition save_connection_row ::
  "'x exec_env \<Rightarrow> create_input \<Rightarrow> conn_ref \<Rightarrow> record_vals \<Rightarrow> string \<Rightarrow> record_vals \<Rightarrow> int \<Rightarrow> ('x, unit) eff" where
  "save_connection_row env inp ref keys provider_key item_ids t =
     eff_transaction (eff_bind (find_connection_row env ref) (\<lambda>existing.
       case existing of
         Some _ \<Rightarrow>
           core_update_many env connection_table (Some (connection_where env ref))
             ([(''template'', JStr (ci_template inp)), (''provider'', JStr provider_key), (''item_ids'', JObj item_ids),
               (''identity_label'', jopt JStr (ci_identity_label inp))] @
              (case ci_description inp of None \<Rightarrow> [] | Some d \<Rightarrow> [(''description'', JStr d)]) @
              [(''updated_at'', JDate t)])
       | None \<Rightarrow>
           eff_map (\<lambda>_. ()) (core_create env connection_table
             (keys @ [(''integration'', JStr (ci_integration inp)), (''name'', JStr (rf_name ref)),
               (''template'', JStr (ci_template inp)), (''provider'', JStr provider_key), (''item_ids'', JObj item_ids),
               (''identity_label'', jopt JStr (ci_identity_label inp)), (''description'', jopt JStr (ci_description inp)),
               (''oauth_client'', JNull), (''refresh_item_id'', JNull), (''expires_at'', JNull),
               (''oauth_scope'', JNull), (''provider_state'', JNull),
               (''created_at'', JDate t), (''updated_at'', JDate t)]))))"

definition show_connection :: "'x exec_env \<Rightarrow> row \<Rightarrow> connection_view" where
  "show_connection env r = row_to_connection (x_json env) (x_decode_health env) r"

definition produce_new :: "'x exec_env \<Rightarrow> row \<Rightarrow> conn_ref \<Rightarrow> ('x, unit) eff" where
  "produce_new env irow ref =
     eff_map (\<lambda>_. ()) (eff_catch (produce_connection_tools env irow ref Explicit)
       (\<lambda>e. case e of FIntegrationNotFound _ \<Rightarrow> eff_return [] | _ \<Rightarrow> eff_fail e))"

definition connections_create :: "'x exec_env \<Rightarrow> create_input \<Rightarrow> ('x, connection_view) eff" where
  "connections_create env inp =
     (let name = connection_identifier (ci_name inp);
          ref = \<lparr>rf_owner = ci_owner inp, rf_integration = ci_integration inp, rf_name = name\<rparr> in
      if ci_owner inp = User \<and> oc_subject (e_ctx env) = None then
        eff_fail (FInvalidConnectionInput (''Cannot create a personal connection: this context has no user subject. Create it with owner ''
          @ in_quotes ''org'' @ '', or connect as a signed-in user.''))
      else
        eff_bind (find_integration_row env (ci_integration inp)) (\<lambda>irow_opt.
          case irow_opt of
            None \<Rightarrow> eff_fail (FIntegrationNotFound (ci_integration inp))
          | Some irow \<Rightarrow>
              eff_bind (bind_inputs env inp name) (\<lambda>(provider_key, item_ids).
              eff_bind (eff_lift (owned_keys (e_ctx env) (ci_owner inp))) (\<lambda>keys.
              eff_bind (now env) (\<lambda>t.
              eff_bind (save_connection_row env inp ref keys provider_key item_ids t) (\<lambda>_.
              eff_bind (touch_subject (base_env.truncate env) (oc_tenant (e_ctx env)) (oc_subject (e_ctx env))
                          DEFAULT_SUBJECT_LAST_SEEN_THROTTLE_MS) (\<lambda>_.
              eff_bind (produce_new env irow ref) (\<lambda>_.
              eff_bind (find_connection_row env ref) (\<lambda>row.
                eff_return (show_connection env (case row of Some r \<Rightarrow> r
                  | None \<Rightarrow> prop_of (keys @ [(''integration'', JStr (ci_integration inp)), (''name'', JStr name),
                      (''template'', JStr (ci_template inp)), (''provider'', JStr provider_key), (''item_ids'', JObj item_ids),
                      (''identity_label'', jopt JStr (ci_identity_label inp)), (''description'', jopt JStr (ci_description inp)),
                      (''oauth_client'', JNull), (''refresh_item_id'', JNull), (''expires_at'', JNull),
                      (''oauth_scope'', JNull), (''provider_state'', JNull),
                      (''created_at'', JDate t), (''updated_at'', JDate t)]))))))))))))"

record mint_input =
  mi_owner :: owner
  mi_integration :: string
  mi_name :: string
  mi_template :: string
  mi_provider :: string
  mi_item_id :: string
  mi_identity_label :: "string option"
  mi_derived_label :: "string option"
  mi_oauth_client :: string
  mi_oauth_client_owner :: owner
  mi_refresh_item_id :: "string option"
  mi_expires_at :: "int option"
  mi_oauth_scope :: "string option"
  mi_oauth_token_url :: "string option"
  mi_missing_scopes :: "string list"

text \<open>A label is kept if it has a character other than white space.\<close>

definition mint_label :: "mint_input \<Rightarrow> row option \<Rightarrow> jsval" where
  "mint_label inp existing =
     (let kept = (case existing of None \<Rightarrow> None
                  | Some r \<Rightarrow> (case r ''identity_label'' of JStr s \<Rightarrow> if js_trim s = [] then None else Some s | _ \<Rightarrow> None)) in
      jopt JStr (case mi_identity_label inp of Some l \<Rightarrow> Some l
                 | None \<Rightarrow> (case kept of Some l \<Rightarrow> Some l | None \<Rightarrow> mi_derived_label inp)))"

definition mint_lifecycle :: "mint_input \<Rightarrow> record_vals" where
  "mint_lifecycle inp =
     [(''oauth_client'', JStr (mi_oauth_client inp)), (''oauth_client_owner'', JStr (owner_text (mi_oauth_client_owner inp))),
      (''refresh_item_id'', jopt JStr (mi_refresh_item_id inp)), (''expires_at'', jopt JNum (mi_expires_at inp)),
      (''oauth_scope'', jopt JStr (mi_oauth_scope inp)), (''oauth_token_url'', jopt JStr (mi_oauth_token_url inp)),
      (''provider_state'', if mi_missing_scopes inp = [] then JNull
         else JObj [(''missingOAuthScopes'', JArr (map JStr (mi_missing_scopes inp)))])]"

definition mint_row :: "mint_input \<Rightarrow> string \<Rightarrow> record_vals \<Rightarrow> jsval \<Rightarrow> int \<Rightarrow> record_vals" where
  "mint_row inp name keys label t =
     keys @ [(''integration'', JStr (mi_integration inp)), (''name'', JStr name),
       (''template'', JStr (mi_template inp)), (''provider'', JStr (mi_provider inp)),
       (''item_ids'', JObj [(PRIMARY_INPUT_VARIABLE, JStr (mi_item_id inp))]),
       (''identity_label'', label), (''description'', JNull)] @ mint_lifecycle inp @
       [(''created_at'', JDate t), (''updated_at'', JDate t)]"

definition mint_oauth_connection :: "'x exec_env \<Rightarrow> mint_input \<Rightarrow> ('x, connection_view) eff" where
  "mint_oauth_connection env inp =
     (let name = connection_identifier (mi_name inp);
          ref = \<lparr>rf_owner = mi_owner inp, rf_integration = mi_integration inp, rf_name = name\<rparr> in
      eff_bind (require_user_subject (e_ctx env) (mi_owner inp)) (\<lambda>_.
      eff_bind (find_integration_row env (mi_integration inp)) (\<lambda>irow_opt.
        case irow_opt of
          None \<Rightarrow> eff_fail (FStorage (StorageError (''Integration not found: '' @ mi_integration inp)))
        | Some irow \<Rightarrow>
            eff_bind (eff_lift (owned_keys (e_ctx env) (mi_owner inp))) (\<lambda>keys.
            eff_bind (now env) (\<lambda>t.
            eff_bind (eff_transaction (eff_bind (find_connection_row env ref) (\<lambda>existing.
              let label = mint_label inp existing in
              case existing of
                Some _ \<Rightarrow>
                  eff_bind (core_update_many env connection_table (Some (connection_where env ref))
                    ([(''template'', JStr (mi_template inp)), (''provider'', JStr (mi_provider inp)),
                      (''item_ids'', JObj [(PRIMARY_INPUT_VARIABLE, JStr (mi_item_id inp))]),
                      (''identity_label'', label)] @ mint_lifecycle inp @ [(''updated_at'', JDate t)])) (\<lambda>_. eff_return label)
              | None \<Rightarrow>
                  eff_bind (core_create env connection_table (mint_row inp name keys label t)) (\<lambda>_. eff_return label)))) (\<lambda>label.
            eff_bind (produce_new env irow ref) (\<lambda>_.
            eff_bind (find_connection_row env ref) (\<lambda>row.
              eff_return (show_connection env (case row of Some r \<Rightarrow> r
                | None \<Rightarrow> prop_of (mint_row inp name keys label t)))))))))))"

section \<open>Reading, editing, removing\<close>

definition connections_get :: "'x exec_env \<Rightarrow> conn_ref \<Rightarrow> ('x, connection_view option) eff" where
  "connections_get env ref = eff_map (map_option (show_connection env)) (find_connection_row env ref)"

definition not_found :: "conn_ref \<Rightarrow> failure" where
  "not_found ref = FConnectionNotFound (owner_text (rf_owner ref)) (rf_integration ref) (rf_name ref)"

definition connections_update ::
  "'x exec_env \<Rightarrow> conn_ref \<Rightarrow> jsval \<Rightarrow> jsval \<Rightarrow> ('x, connection_view) eff" where
  "connections_update env ref description identity_label =
     eff_bind (find_connection_row env ref) (\<lambda>row.
       case row of
         None \<Rightarrow> eff_fail (not_found ref)
       | Some r \<Rightarrow>
           eff_bind (now env) (\<lambda>t.
           eff_bind (core_update_many env connection_table (Some (connection_where env ref))
             ([(''updated_at'', JDate t)] @
              (if description = JUndef then [] else [(''description'', description)]) @
              (if identity_label = JUndef then [] else [(''identity_label'', identity_label)]))) (\<lambda>_.
           eff_bind (find_connection_row env ref) (\<lambda>updated.
             eff_return (show_connection env (case updated of Some u \<Rightarrow> u | None \<Rightarrow> r))))))"

definition connections_remove :: "'x exec_env \<Rightarrow> conn_ref \<Rightarrow> ('x, unit) eff" where
  "connections_remove env ref =
     eff_transaction (
       eff_bind (find_connection_row env ref) (\<lambda>row.
         if row = None then eff_fail (not_found ref)
         else
           eff_bind (find_integration_row env (rf_integration ref)) (\<lambda>irow_opt.
           eff_bind (case irow_opt of None \<Rightarrow> eff_return ()
              | Some irow \<Rightarrow>
                  (case find_plugin env (row_str irow ''plugin_id'') of None \<Rightarrow> eff_return ()
                   | Some pl \<Rightarrow>
                       (case pl_remove_connection pl of None \<Rightarrow> eff_return ()
                        | Some hook \<Rightarrow>
                            plugin_storage_failure (row_str irow ''plugin_id'') ''removeConnection'' (hook ref)))) (\<lambda>_.
           eff_bind (core_delete_many env tool_table (Some (tools_where env ref))) (\<lambda>_.
           eff_bind (core_delete_many env definition_table (Some (tools_where env ref))) (\<lambda>_.
             core_delete_many env connection_table (Some (connection_where env ref))))))))"

definition connections_refresh :: "'x exec_env \<Rightarrow> conn_ref \<Rightarrow> ('x, tool_view list) eff" where
  "connections_refresh env ref =
     eff_bind (find_connection_row env ref) (\<lambda>row.
       if row = None then eff_fail (not_found ref)
       else eff_bind (find_integration_row env (rf_integration ref)) (\<lambda>irow.
         case irow of
           None \<Rightarrow> eff_fail (FIntegrationNotFound (rf_integration ref))
         | Some ir \<Rightarrow> produce_connection_tools env ir ref Explicit))"

definition connections_mark_tools_stale :: "'x exec_env \<Rightarrow> conn_ref \<Rightarrow> ('x, unit) eff" where
  "connections_mark_tools_stale env ref =
     core_update_many env connection_table (Some (connection_where env ref)) [(''tools_synced_at'', JNull)]"

section \<open>Confinement\<close>

lemma partition_free_mint [simp]: "partition_free (mint_lifecycle inp)"
  by (simp add: mint_lifecycle_def)

lemma confined_put_hook:
  "sound_env env \<Longrightarrow> default_writable_provider env = Some pv \<Longrightarrow> pv_set pv = Some f \<Longrightarrow> confined (e_ctx env) (f i v)"
  using sound_default_provider confined_pv_set by blast

lemma confined_bind_inputs [confined_intros]:
  "sound_env env \<Longrightarrow> confined (e_ctx env) (bind_inputs env inp name)"
  unfolding bind_inputs_def Let_def
  by (intro confined_intros) (auto intro!: confined_intros intro: confined_put_hook split: prod.splits)

lemma confined_save_connection [confined_intros]:
  "confined (e_ctx env) (save_connection_row env inp ref keys pk items t)"
  unfolding save_connection_row_def by (intro confined_intros) (simp_all split: option.splits)

lemma compile_connection_where: "compile_where (Some (connection_where env ref)) \<noteq> None"
  by (simp add: compile_where_def connection_where_def by_owner_def builder_and_def cmp_val_def)

lemma save_connection_denied:
  "read_only (e_ctx env) \<Longrightarrow> always_fails (save_connection_row env inp ref keys pk items t)"
  unfolding save_connection_row_def
  by (intro always_fails_transaction always_fails_bind2)
    (auto intro!: always_fails_map always_fails_core_create always_fails_core_update compile_connection_where
      split: option.splits)

lemma confined_produce_new [confined_intros]:
  "sound_env env \<Longrightarrow> confined (e_ctx env) (produce_new env irow ref)"
  unfolding produce_new_def by (intro confined_intros) (auto intro!: confined_intros split: failure.splits)

lemma truncate_ctx [simp]: "e_ctx (base_env.truncate env) = e_ctx env"
  by (simp add: base_env.truncate_def)

lemma confined_connections_create [confined_intros]:
  "sound_env env \<Longrightarrow> confined (e_ctx env) (connections_create env inp)"
  unfolding connections_create_def Let_def
  by (intro confined_if confined_fail confined_bind [OF confined_find_integration] confined_option
      confined_bind [OF confined_bind_inputs] confined_prod confined_bind [OF confined_lift]
      confined_bind [OF confined_now] confined_bind_failing [OF confined_save_connection save_connection_denied]
      confined_bind [OF confined_touch_subject] confined_bind [OF confined_produce_new]
      confined_bind [OF confined_find_connection_row] confined_return) auto

lemma confined_mint [confined_intros]: "sound_env env \<Longrightarrow> confined (e_ctx env) (mint_oauth_connection env inp)"
  unfolding mint_oauth_connection_def Let_def by (intro confined_intros) simp_all

lemma confined_connections_get [confined_intros]: "confined (e_ctx env) (connections_get env ref)"
  unfolding connections_get_def by (intro confined_intros)

lemma confined_connections_update [confined_intros]: "confined (e_ctx env) (connections_update env ref d l)"
  unfolding connections_update_def by (intro confined_intros) simp_all

lemma confined_remove_connection_hook:
  "sound_env env \<Longrightarrow> find_plugin env p = Some pl \<Longrightarrow> pl_remove_connection pl = Some f \<Longrightarrow> confined (e_ctx env) (f r)"
  using sound_find_plugin [of env p pl] by (simp add: sound_plugin_def)

lemma confined_connections_remove [confined_intros]:
  "sound_env env \<Longrightarrow> confined (e_ctx env) (connections_remove env ref)"
  unfolding connections_remove_def by (intro confined_intros) (auto intro: confined_remove_connection_hook)

lemma confined_connections_refresh [confined_intros]:
  "sound_env env \<Longrightarrow> confined (e_ctx env) (connections_refresh env ref)"
  unfolding connections_refresh_def by (intro confined_intros)

lemma confined_mark_stale [confined_intros]: "confined (e_ctx env) (connections_mark_tools_stale env ref)"
  unfolding connections_mark_tools_stale_def by (intro confined_intros) simp_all

end
