(* ===== verification/Health.thy ===== *)
theory Health
  imports Connections
begin

text \<open>
  Health checks of connections (\<open>sdk/src/executor.ts\<close>): the stored verdict, the probe through
  the owning plugin, the dry run on a credential not saved yet.
\<close>

definition unknown_health :: "'x exec_env \<Rightarrow> ('x, jsval) eff" where
  "unknown_health env =
     eff_map (\<lambda>t. JObj [(''status'', JStr ''unknown''), (''checkedAt'', JNum t)]) (now env)"

definition persist_health_result :: "'x exec_env \<Rightarrow> conn_ref \<Rightarrow> jsval \<Rightarrow> ('x, unit) eff" where
  "persist_health_result env ref res =
     eff_bind (now env) (\<lambda>t.
       eff_ignore (core_update_many env connection_table
         (Some (builder_and [cmp_val ''owner'' OpEq (JStr (owner_text (rf_owner ref))),
                             cmp_val ''integration'' OpEq (JStr (rf_integration ref)),
                             cmp_val ''name'' OpEq (JStr (rf_name ref))]))
         [(''last_health'', res), (''updated_at'', JDate t)]))"

definition health_from_resolution_error :: "'x exec_env \<Rightarrow> failure \<Rightarrow> ('x, jsval) eff" where
  "health_from_resolution_error env e =
     (case e of
        FCredentialResolution _ msg _ required \<Rightarrow>
          if required then eff_map (\<lambda>t. health_result ''expired'' t msg) (now env)
          else eff_fail (FStorage (StorageError msg))
      | _ \<Rightarrow> eff_fail e)"

definition health_from_resolution_failure :: "bool \<Rightarrow> string \<Rightarrow> int \<Rightarrow> jsval" where
  "health_from_resolution_failure required msg t =
     health_result (if required then ''expired'' else ''degraded'') t msg"

text \<open>The healthy verdict is built, and the clock read, before the resolution runs.\<close>

definition oauth_health_without_probe :: "'x exec_env \<Rightarrow> row \<Rightarrow> ('x, jsval) eff" where
  "oauth_health_without_probe env r =
     eff_bind (now env) (\<lambda>t.
       eff_catch (eff_map (\<lambda>_. health_result ''healthy'' t ''Credential resolved (no probe configured).'')
           (resolve_connection_values env r))
         (\<lambda>e. case e of
            FCredentialResolution _ msg _ required \<Rightarrow>
              eff_map (health_from_resolution_failure required msg) (now env)
          | _ \<Rightarrow> eff_fail e))"

definition resolve_in_flight_values :: "'x exec_env \<Rightarrow> connection_value_input \<Rightarrow> ('x, cred_values) eff" where
  "resolve_in_flight_values env inp =
     eff_mapM (\<lambda>(k, og). case og of
         Pasted v \<Rightarrow> eff_return (k, Some v)
       | External p i \<Rightarrow>
           (case find_provider env p of
              None \<Rightarrow> eff_fail (FStorage (StorageError (''Credential provider '' @ in_quotes p @ '' is not registered.'')))
            | Some pv \<Rightarrow> eff_map (\<lambda>x. (k, x)) (pv_get pv i)))
       (normalize_connection_inputs inp)"

definition checked_at :: "jsval \<Rightarrow> int" where
  "checked_at h = (case obj_get h ''checkedAt'' of JNum n \<Rightarrow> n | _ \<Rightarrow> 0)"

definition probe_connection ::
  "'x exec_env \<Rightarrow> 'x plugin \<Rightarrow> (integration_record \<Rightarrow> jsval \<Rightarrow> credential \<Rightarrow> ('x, jsval) eff) \<Rightarrow>
   conn_ref \<Rightarrow> row \<Rightarrow> row \<Rightarrow> jsval option \<Rightarrow> ('x, jsval) eff" where
  "probe_connection env pl check ref irow r spec =
     eff_catch
       (eff_bind (resolve_connection_values env r) (\<lambda>vs.
          let rec = row_to_integration_record (x_json env) irow (describe_auth_methods_for_row env irow) in
          fold_plugin_failure (''Health check for connection '' @ in_quotes (rf_name ref) @ '' failed.'')
            (check rec (case spec of None \<Rightarrow> JUndef | Some s \<Rightarrow> s)
               \<lparr>cr_owner = row_owner r, cr_integration = rf_integration ref, cr_connection = row_str r ''name'',
                cr_template = row_str r ''template'', cr_value = primary_value vs, cr_values = vs,
                cr_config = ir_config rec, cr_granted_scopes = granted_scopes_from_row r\<rparr>)))
       (health_from_resolution_error env)"

definition connection_check_health :: "'x exec_env \<Rightarrow> conn_ref \<Rightarrow> int option \<Rightarrow> ('x, jsval) eff" where
  "connection_check_health env ref if_stale_ms =
     eff_bind (find_connection_row env ref) (\<lambda>row.
       case row of
         None \<Rightarrow> eff_fail (not_found ref)
       | Some r \<Rightarrow>
           eff_bind (case (if_stale_ms, if if_stale_ms = None then None else x_decode_health env (r ''last_health'')) of
                       (Some ms, Some h) \<Rightarrow>
                         eff_map (\<lambda>t. if t - checked_at h < ms then Some h else None) (now env)
                     | _ \<Rightarrow> eff_return None) (\<lambda>cached.
             case cached of
               Some h \<Rightarrow> eff_return h
             | None \<Rightarrow>
                 eff_bind (find_integration_row env (rf_integration ref)) (\<lambda>irow_opt.
                   case irow_opt of
                     None \<Rightarrow> eff_fail (FIntegrationNotFound (rf_integration ref))
                   | Some irow \<Rightarrow>
                       (case find_plugin env (row_str irow ''plugin_id'') of
                          None \<Rightarrow> unknown_health env
                        | Some pl \<Rightarrow>
                            (case pl_check_health pl of
                               None \<Rightarrow> unknown_health env
                             | Some check \<Rightarrow>
                                 let spec = describe_health_check_for_row env irow in
                                 eff_bind (if spec = None \<and> \<not> nullish (r ''oauth_client'')
                                           then oauth_health_without_probe env r
                                           else probe_connection env pl check ref irow r spec) (\<lambda>res.
                                 eff_bind (persist_health_result env ref res) (\<lambda>_. eff_return res)))))))"

record validate_input =
  vi_owner :: owner
  vi_integration :: string
  vi_template :: string
  vi_inputs :: connection_value_input
  vi_spec :: "jsval option"

definition connection_validate :: "'x exec_env \<Rightarrow> validate_input \<Rightarrow> ('x, jsval) eff" where
  "connection_validate env inp =
     eff_bind (find_integration_row env (vi_integration inp)) (\<lambda>irow_opt.
       case irow_opt of
         None \<Rightarrow> eff_fail (FIntegrationNotFound (vi_integration inp))
       | Some irow \<Rightarrow>
           (case find_plugin env (row_str irow ''plugin_id'') of
              None \<Rightarrow> unknown_health env
            | Some pl \<Rightarrow>
                (case pl_check_health pl of
                   None \<Rightarrow> unknown_health env
                 | Some check \<Rightarrow>
                     eff_bind (resolve_in_flight_values env (vi_inputs inp)) (\<lambda>vs.
                       let rec = row_to_integration_record (x_json env) irow (describe_auth_methods_for_row env irow);
                           spec = (case vi_spec inp of Some s \<Rightarrow> Some s | None \<Rightarrow> describe_health_check_for_row env irow) in
                       fold_plugin_failure (''Validating credential for '' @ in_quotes (vi_integration inp) @ '' failed.'')
                         (check rec (case spec of None \<Rightarrow> JUndef | Some s \<Rightarrow> s)
                            \<lparr>cr_owner = vi_owner inp, cr_integration = vi_integration inp,
                             cr_connection = ''(unsaved)'', cr_template = vi_template inp,
                             cr_value = primary_value vs, cr_values = vs, cr_config = ir_config rec,
                             cr_granted_scopes = None\<rparr>)))))"

section \<open>Confinement\<close>

lemma confined_unknown_health [confined_intros]: "confined c (unknown_health env)"
  unfolding unknown_health_def by (intro confined_intros)

lemma confined_persist_health [confined_intros]: "confined (e_ctx env) (persist_health_result env ref res)"
  unfolding persist_health_result_def by (intro confined_intros) simp_all

lemma confined_health_resolution [confined_intros]: "confined c (health_from_resolution_error env e)"
  unfolding health_from_resolution_error_def by (cases e) (auto intro!: confined_intros)

lemma confined_oauth_health [confined_intros]:
  "sound_env env \<Longrightarrow> confined (e_ctx env) (oauth_health_without_probe env r)"
  unfolding oauth_health_without_probe_def
  by (intro confined_intros) (auto intro!: confined_intros split: failure.splits)

lemma confined_in_flight [confined_intros]:
  "sound_env env \<Longrightarrow> confined (e_ctx env) (resolve_in_flight_values env inp)"
  unfolding resolve_in_flight_values_def
  by (intro confined_intros) (auto intro!: confined_intros intro: confined_pv_get sound_find_provider split: input_origin.splits)

lemma confined_check_hook:
  "sound_env env \<Longrightarrow> find_plugin env p = Some pl \<Longrightarrow> pl_check_health pl = Some f \<Longrightarrow> confined (e_ctx env) (f r s cr)"
  using sound_find_plugin [of env p pl] by (simp add: sound_plugin_def)

lemma confined_probe:
  "sound_env env \<Longrightarrow> (\<And>r s cr. confined (e_ctx env) (check r s cr)) \<Longrightarrow>
   confined (e_ctx env) (probe_connection env pl check ref irow r spec)"
  unfolding probe_connection_def Let_def by (intro confined_intros)

lemma confined_check_health [confined_intros]:
  "sound_env env \<Longrightarrow> confined (e_ctx env) (connection_check_health env ref ms)"
  unfolding connection_check_health_def Let_def
  by (intro confined_intros confined_probe confined_check_hook) (auto intro!: confined_intros split: option.splits)

lemma confined_validate [confined_intros]:
  "sound_env env \<Longrightarrow> confined (e_ctx env) (connection_validate env inp)"
  unfolding connection_validate_def Let_def by (intro confined_intros confined_check_hook)

end
