(* ===== verification/SchemaRefs.thy ===== *)
theory SchemaRefs
  imports Rows
begin

text \<open>
  JSON Schema references (\<open>sdk/src/schema-refs.ts\<close>): reading a reference's name, rewriting
  references to their canonical form, hoisting local definitions, and collecting the
  definitions a schema needs, transitively. A set is the list of its elements in insertion
  order, a map of definitions an association list.
\<close>

section \<open>Reference names\<close>

definition DEFS_PREFIX :: string where
  "DEFS_PREFIX = ''#/$defs/''"

definition DEFINITIONS_PREFIX :: string where
  "DEFINITIONS_PREFIX = ''#/definitions/''"

text \<open>The dot of a regular expression matches no line terminator.\<close>

definition is_ref_name :: "string \<Rightarrow> bool" where
  "is_ref_name s \<longleftrightarrow> s \<noteq> [] \<and> CHR 0x0A \<notin> set s \<and> CHR 0x0D \<notin> set s"

definition parse_ref_name :: "string \<Rightarrow> string option" where
  "parse_ref_name ref =
     (let name = (if js_starts_with ref DEFS_PREFIX then drop (length DEFS_PREFIX) ref
                  else if js_starts_with ref DEFINITIONS_PREFIX then drop (length DEFINITIONS_PREFIX) ref
                  else []) in
      if is_ref_name name then Some name else None)"

lemma parse_canonical: "is_ref_name n \<Longrightarrow> parse_ref_name (DEFS_PREFIX @ n) = Some n"
  by (simp add: parse_ref_name_def)

lemma parse_ref_name_SomeD: "parse_ref_name ref = Some n \<Longrightarrow> is_ref_name n"
  by (auto simp: parse_ref_name_def Let_def split: if_splits)

text \<open>The string under \<open>$ref\<close>, when there is one.\<close>

definition ref_of :: "(string \<times> jsval) list \<Rightarrow> string option" where
  "ref_of ps = (case prop_of ps ''$ref'' of JStr s \<Rightarrow> Some s | _ \<Rightarrow> None)"

section \<open>Rewriting\<close>

function normalize_refs :: "jsval \<Rightarrow> jsval" where
  "normalize_refs (JArr vs) = JArr (map normalize_refs vs)"
| "normalize_refs (JObj ps) =
     (case ref_of ps of
        Some s \<Rightarrow> (case parse_ref_name s of
            Some n \<Rightarrow> JObj (map (\<lambda>(k, v). (k, if k = ''$ref'' then JStr (DEFS_PREFIX @ n) else v)) ps)
          | None \<Rightarrow> JObj ps)
      | None \<Rightarrow> JObj (map (\<lambda>(k, v). (k, normalize_refs v)) ps))"
| "normalize_refs JUndef = JUndef"
| "normalize_refs JNull = JNull"
| "normalize_refs (JBool b) = JBool b"
| "normalize_refs (JNum n) = JNum n"
| "normalize_refs (JStr s) = JStr s"
| "normalize_refs (JDate t) = JDate t"
  by pat_completeness auto
termination
proof (relation "measure size", goal_cases)
  case (2 vs x)
  then show ?case by (simp add: size_list_estimation' less_Suc_eq_le)
next
  case (3 ps kv k v)
  then have "size v \<le> size_list (size_prod (\<lambda>_. 0) size) ps"
    by (intro size_list_estimation' [of "(k, v)"]) auto
  then show ?case by simp
qed simp_all

section \<open>Hoisting\<close>

text \<open>\<open>Object.entries\<close>: an array's indices are its keys.\<close>

fun own_entries :: "jsval \<Rightarrow> (string \<times> jsval) list" where
  "own_entries (JObj ps) = ps"
| "own_entries (JArr vs) = zip (map (\<lambda>n. int_to_string (int n)) [0..<length vs]) vs"
| "own_entries _ = []"

fun is_js_object :: "jsval \<Rightarrow> bool" where
  "is_js_object (JObj _) \<longleftrightarrow> True"
| "is_js_object (JArr _) \<longleftrightarrow> True"
| "is_js_object (JDate _) \<longleftrightarrow> True"
| "is_js_object _ \<longleftrightarrow> False"

definition add_entries :: "jsval \<Rightarrow> (string \<times> jsval) list \<Rightarrow> (string \<times> jsval) list" where
  "add_entries v acc = fold (\<lambda>(k, x) acc. obj_set acc k x) (own_entries v) acc"

definition hoist_definitions :: "jsval \<Rightarrow> jsval \<times> (string \<times> jsval) list" where
  "hoist_definitions schema =
     (if \<not> is_js_object schema then (schema, [])
      else let ps = own_entries schema in
        (JObj (filter (\<lambda>(k, v). k \<noteq> ''$defs'' \<and> k \<noteq> ''definitions'') ps),
         add_entries (prop_of ps ''definitions'') (add_entries (prop_of ps ''$defs'') [])))"

section \<open>Collecting\<close>

text \<open>
  The walk keeps the names found so far and follows a name the first time it is found. The
  fuel \<open>n\<close> bounds how many definitions are followed into; the number of definitions is
  enough, since none is followed twice.
\<close>

function collect_refs :: "nat \<Rightarrow> (string \<times> jsval) list \<Rightarrow> jsval \<Rightarrow> string list \<Rightarrow> string list"
  and collect_values :: "nat \<Rightarrow> (string \<times> jsval) list \<Rightarrow> (string \<times> jsval) list \<Rightarrow> string list \<Rightarrow> string list"
  and collect_items :: "nat \<Rightarrow> (string \<times> jsval) list \<Rightarrow> jsval list \<Rightarrow> string list \<Rightarrow> string list" where
  "collect_refs n defs (JObj ps) found =
     (case ref_of ps of
        Some s \<Rightarrow>
          (case parse_ref_name s of
             None \<Rightarrow> found
           | Some name \<Rightarrow>
               if name \<in> set found then found
               else (case map_of defs name of
                   None \<Rightarrow> found @ [name]
                 | Some d \<Rightarrow>
                     if truthy d then (case n of 0 \<Rightarrow> found @ [name] | Suc m \<Rightarrow> collect_refs m defs d (found @ [name]))
                     else found @ [name]))
      | None \<Rightarrow> collect_values n defs ps found)"
| "collect_refs n defs (JArr vs) found = collect_items n defs vs found"
| "collect_refs n defs JUndef found = found"
| "collect_refs n defs JNull found = found"
| "collect_refs n defs (JBool b) found = found"
| "collect_refs n defs (JNum k) found = found"
| "collect_refs n defs (JStr s) found = found"
| "collect_refs n defs (JDate t) found = found"
| "collect_values n defs [] found = found"
| "collect_values n defs ((k, v) # ps) found = collect_values n defs ps (collect_refs n defs v found)"
| "collect_items n defs [] found = found"
| "collect_items n defs (v # vs) found = collect_items n defs vs (collect_refs n defs v found)"
  by pat_completeness auto
termination
  by (relation "inv_image (less_than <*lex*> less_than)
     (\<lambda>x. case x of Inl (n, defs, v, f) \<Rightarrow> (n, size v)
       | Inr (Inl (n, defs, ps, f)) \<Rightarrow> (n, size_list (size_prod (\<lambda>_. 0) size) ps)
       | Inr (Inr (n, defs, vs, f)) \<Rightarrow> (n, size_list size vs))") auto

definition collect_all :: "(string \<times> jsval) list \<Rightarrow> jsval list \<Rightarrow> string list" where
  "collect_all defs roots = fold (collect_refs (length defs) defs) roots []"

definition collect_referenced_definitions :: "jsval list \<Rightarrow> (string \<times> jsval) list \<Rightarrow> (string \<times> jsval) list" where
  "collect_referenced_definitions roots defs =
     concat (map (\<lambda>name. case map_of defs name of
         Some d \<Rightarrow> if truthy d then [(name, d)] else [] | None \<Rightarrow> []) (collect_all defs roots))"

definition reattach_defs :: "jsval \<Rightarrow> (string \<times> jsval) list \<Rightarrow> jsval" where
  "reattach_defs schema defs =
     (if \<not> is_js_object schema then schema
      else let attached = collect_referenced_definitions [schema] defs in
        if attached = [] then schema
        else JObj (obj_set (own_entries schema) ''$defs'' (JObj attached)))"

section \<open>What the walk collects\<close>

text \<open>A schema refers to a name: somewhere in it, not below another reference, a reference names it.\<close>

inductive refers :: "jsval \<Rightarrow> string \<Rightarrow> bool" where
  here: "ref_of ps = Some s \<Longrightarrow> parse_ref_name s = Some m \<Longrightarrow> refers (JObj ps) m"
| inside: "ref_of ps = None \<Longrightarrow> (k, v) \<in> set ps \<Longrightarrow> refers v m \<Longrightarrow> refers (JObj ps) m"
| element: "v \<in> set vs \<Longrightarrow> refers v m \<Longrightarrow> refers (JArr vs) m"

inductive_simps refers_simps [simp]:
  "refers (JObj ps) m" "refers (JArr vs) m" "refers JUndef m" "refers JNull m" "refers (JBool b) m"
  "refers (JNum k) m" "refers (JStr s) m" "refers (JDate t) m"

text \<open>The names needed from a starting set, through the definitions.\<close>

inductive needed :: "(string \<times> jsval) list \<Rightarrow> (string \<Rightarrow> bool) \<Rightarrow> string \<Rightarrow> bool" for defs P where
  start: "P m \<Longrightarrow> needed defs P m"
| follow: "needed defs P m \<Longrightarrow> map_of defs m = Some d \<Longrightarrow> truthy d \<Longrightarrow> refers d k \<Longrightarrow> needed defs P k"

lemma needed_mono: "needed defs P m \<Longrightarrow> (\<And>k. P k \<Longrightarrow> Q k) \<Longrightarrow> needed defs Q m"
  by (induction rule: needed.induct) (auto intro: needed.intros)

lemma needed_through:
  "needed defs (refers d) m \<Longrightarrow> map_of defs name = Some d \<Longrightarrow> truthy d \<Longrightarrow> needed defs ((=) name) m"
proof (induction rule: needed.induct)
  case (start m)
  have "needed defs ((=) name) name" by (rule needed.start) simp
  from needed.follow [OF this start(2,3,1)] show ?case .
next
  case (follow m e k)
  from needed.follow [OF follow.IH [OF follow.prems] follow.hyps(2-4)] show ?case .
qed

definition walk_ok :: "(string \<times> jsval) list \<Rightarrow> string list \<Rightarrow> string list \<Rightarrow> (string \<Rightarrow> bool) \<Rightarrow> bool" where
  "walk_ok defs found res P \<longleftrightarrow>
     set found \<subseteq> set res \<and> (distinct found \<longrightarrow> distinct res) \<and> (\<forall>m. P m \<longrightarrow> m \<in> set res) \<and>
     (\<forall>m \<in> set res - set found. needed defs P m \<and>
        (\<forall>d k. map_of defs m = Some d \<longrightarrow> truthy d \<longrightarrow> refers d k \<longrightarrow> k \<in> set res))"

lemma walk_ok_none: "(\<And>m. P m \<Longrightarrow> m \<in> set found) \<Longrightarrow> walk_ok defs found found P"
  by (simp add: walk_ok_def)

lemma walk_ok_then:
  assumes "walk_ok defs found r1 P" "walk_ok defs r1 r2 Q" "\<And>m. R m \<longleftrightarrow> P m \<or> Q m"
  shows "walk_ok defs found r2 R"
proof -
  have "needed defs R m" if "needed defs P m \<or> needed defs Q m" for m
    using that needed_mono [of defs P m R] needed_mono [of defs Q m R] assms(3) by blast
  then show ?thesis
    using assms unfolding walk_ok_def by (intro conjI ballI allI impI) blast+
qed

lemma walk_ok_leaf:
  "name \<notin> set found \<Longrightarrow> (\<And>d. map_of defs name = Some d \<Longrightarrow> \<not> truthy d) \<Longrightarrow>
   walk_ok defs found (found @ [name]) ((=) name)"
  by (auto simp: walk_ok_def intro: needed.start)

lemma walk_ok_follow:
  assumes "name \<notin> set found" "map_of defs name = Some d" "truthy d"
    and w: "walk_ok defs (found @ [name]) res (refers d)"
  shows "walk_ok defs found res ((=) name)"
proof -
  have "set found \<subseteq> set res" "name \<in> set res" "distinct found \<Longrightarrow> distinct res" using w assms(1)
    by (auto simp: walk_ok_def)
  moreover have "needed defs ((=) name) m \<and>
      (\<forall>e k. map_of defs m = Some e \<longrightarrow> truthy e \<longrightarrow> refers e k \<longrightarrow> k \<in> set res)"
    if "m \<in> set res - set found" for m
  proof (cases "m = name")
    case True
    have "\<forall>k. refers d k \<longrightarrow> k \<in> set res" using w by (simp add: walk_ok_def)
    moreover have "needed defs ((=) name) name" by (rule needed.start) simp
    ultimately show ?thesis using assms(2) True by simp
  next
    case False
    with that have m: "m \<in> set res - set (found @ [name])" by simp
    with w needed_through [OF _ assms(2,3), of m] show ?thesis unfolding walk_ok_def by blast
  qed
  ultimately show ?thesis by (simp add: walk_ok_def)
qed

definition unfound :: "(string \<times> jsval) list \<Rightarrow> string list \<Rightarrow> nat" where
  "unfound defs found = card (fst ` set defs - set found)"

lemma unfound_mono: "set found \<subseteq> set res \<Longrightarrow> unfound defs res \<le> unfound defs found"
  unfolding unfound_def by (rule card_mono) auto

lemma unfound_follow:
  assumes "name \<notin> set found" "map_of defs name = Some d"
  shows "unfound defs found = Suc (unfound defs (found @ [name]))"
proof -
  have "name \<in> fst ` set defs - set found" using assms map_of_SomeD by force
  moreover have "fst ` set defs - set (found @ [name]) = fst ` set defs - set found - {name}" by auto
  ultimately show ?thesis unfolding unfound_def by (metis card_Suc_Diff1 finite_Diff finite_imageI finite_set)
qed

lemma unfound_start: "unfound defs [] \<le> length defs"
  using card_length [of "map fst defs"] by (simp add: unfound_def)

lemma walk_spec:
  "unfound defs found \<le> n \<Longrightarrow> walk_ok defs found (collect_refs n defs v found) (refers v)"
  "unfound defs found \<le> n \<Longrightarrow>
     walk_ok defs found (collect_values n defs ps found) (\<lambda>m. \<exists>(k, w) \<in> set ps. refers w m)"
  "unfound defs found \<le> n \<Longrightarrow>
     walk_ok defs found (collect_items n defs vs found) (\<lambda>m. \<exists>w \<in> set vs. refers w m)"
proof (induction n defs v found and n defs ps found and n defs vs found
    rule: collect_refs_collect_values_collect_items.induct)
  case (1 n defs ps found)
  show ?case
  proof (cases "ref_of ps")
    case None
    then have "refers (JObj ps) = (\<lambda>m. \<exists>(k, w) \<in> set ps. refers w m)" by (auto simp: fun_eq_iff)
    with 1 None show ?thesis by simp
  next
    case (Some s)
    show ?thesis
    proof (cases "parse_ref_name s")
      case None
      with Some show ?thesis by (auto intro: walk_ok_none)
    next
      case (Some name)
      with \<open>ref_of ps = Some s\<close> have eq: "refers (JObj ps) = (=) name" by (auto simp: fun_eq_iff)
      show ?thesis
      proof (cases "name \<in> set found \<or> (\<forall>d. map_of defs name = Some d \<longrightarrow> \<not> truthy d)")
        case True
        with Some \<open>ref_of ps = Some s\<close> show ?thesis
          unfolding eq by (auto intro: walk_ok_none walk_ok_leaf split: option.splits)
      next
        case False
        then obtain d where d: "name \<notin> set found" "map_of defs name = Some d" "truthy d" by blast
        obtain m where m: "n = Suc m" "unfound defs (found @ [name]) \<le> m"
          using unfound_follow [OF d(1,2)] "1.prems" by (cases n) auto
        with 1 d Some \<open>ref_of ps = Some s\<close> show ?thesis
          unfolding eq by (auto intro: walk_ok_follow)
      qed
    qed
  qed
next
  case (10 n defs k v ps found)
  then have w: "walk_ok defs found (collect_refs n defs v found) (refers v)" by simp
  then have "unfound defs (collect_refs n defs v found) \<le> n"
    using unfound_mono [of found "collect_refs n defs v found" defs] 10 by (simp add: walk_ok_def)
  with 10 show ?case by (auto intro: walk_ok_then [OF w])
next
  case (12 n defs v vs found)
  then have w: "walk_ok defs found (collect_refs n defs v found) (refers v)" by simp
  then have "unfound defs (collect_refs n defs v found) \<le> n"
    using unfound_mono [of found "collect_refs n defs v found" defs] 12 by (simp add: walk_ok_def)
  with 12 show ?case by (auto intro: walk_ok_then [OF w])
next
  case (2 n defs vs found)
  moreover have "refers (JArr vs) = (\<lambda>m. \<exists>w \<in> set vs. refers w m)" by (auto simp: fun_eq_iff)
  ultimately show ?case by simp
qed (auto intro: walk_ok_none)

lemma walk_ok_fold:
  "unfound defs found \<le> n \<Longrightarrow>
   walk_ok defs found (fold (collect_refs n defs) roots found) (\<lambda>m. \<exists>r \<in> set roots. refers r m)"
proof (induction roots arbitrary: found)
  case (Cons r roots)
  from walk_spec(1) [OF Cons.prems] have w: "walk_ok defs found (collect_refs n defs r found) (refers r)" .
  then have "unfound defs (collect_refs n defs r found) \<le> n"
    using unfound_mono [of found "collect_refs n defs r found" defs] Cons.prems by (simp add: walk_ok_def)
  from walk_ok_then [OF w Cons.IH [OF this]] show ?case by simp
qed (auto intro: walk_ok_none)

lemma walk_complete:
  assumes "walk_ok defs [] res P"
  shows "set res = {m. needed defs P m} \<and> distinct res"
proof -
  have "m \<in> set res" if "needed defs P m" for m
    using that assms
  proof (induction rule: needed.induct)
    case (follow m d k)
    then have "m \<in> set res - set []" by simp
    with follow show ?case unfolding walk_ok_def by blast
  qed (simp add: walk_ok_def)
  moreover have "needed defs P m" if "m \<in> set res" for m
    using assms that by (simp add: walk_ok_def)
  moreover have "distinct res" using assms by (simp add: walk_ok_def)
  ultimately show ?thesis by blast
qed

lemma collect_all_needed:
  "set (collect_all defs roots) = {m. needed defs (\<lambda>k. \<exists>r \<in> set roots. refers r k) m} \<and>
   distinct (collect_all defs roots)"
  unfolding collect_all_def by (rule walk_complete [OF walk_ok_fold [OF unfound_start]])

text \<open>The names collected from a list of schemas are exactly those they need: the ones they refer
  to, and, through every definition so reached, the ones it refers to; each is collected once.
  The number of definitions is enough fuel, whatever cycles they form.\<close>

theorem collect_all_spec:
  "(m \<in> set (collect_all defs roots) \<longleftrightarrow> needed defs (\<lambda>k. \<exists>r \<in> set roots. refers r k) m) \<and>
   distinct (collect_all defs roots)"
  using collect_all_needed [of defs roots] by blast

lemma map_of_attached:
  "map_of (collect_referenced_definitions roots defs) m = Some d \<longleftrightarrow>
     m \<in> set (collect_all defs roots) \<and> map_of defs m = Some d \<and> truthy d"
proof -
  have "map_of (concat (map (\<lambda>name. case map_of defs name of
          Some d \<Rightarrow> if truthy d then [(name, d)] else [] | None \<Rightarrow> []) names)) m = Some d \<longleftrightarrow>
        m \<in> set names \<and> map_of defs m = Some d \<and> truthy d" for names
    by (induction names) (auto simp: map_add_Some_iff split: option.splits if_splits)
  then show ?thesis by (simp add: collect_referenced_definitions_def)
qed

text \<open>C20: the definitions gathered for a list of schemas are closed: a name that the schemas or one of
  the gathered definitions refer to is gathered with its definition, when it has one.\<close>

theorem referenced_definitions_closed:
  assumes "map_of defs m = Some d" "truthy d"
    and "(\<exists>r \<in> set roots. refers r m) \<or>
      (\<exists>k e. map_of (collect_referenced_definitions roots defs) k = Some e \<and> refers e m)"
  shows "map_of (collect_referenced_definitions roots defs) m = Some d"
proof -
  let ?P = "\<lambda>k. \<exists>r \<in> set roots. refers r k"
  from assms(3) have "needed defs ?P m"
  proof
    assume "\<exists>k e. map_of (collect_referenced_definitions roots defs) k = Some e \<and> refers e m"
    then obtain k e where "map_of (collect_referenced_definitions roots defs) k = Some e" "refers e m" by blast
    then have k: "k \<in> set (collect_all defs roots)" "map_of defs k = Some e" "truthy e" "refers e m"
      unfolding map_of_attached by simp_all
    from k(1) have "needed defs ?P k" using collect_all_needed [of defs roots] by simp
    from needed.follow [OF this k(2-4)] show ?thesis .
  qed (rule needed.start)
  with assms(1,2) show ?thesis unfolding map_of_attached using collect_all_needed [of defs roots] by blast
qed

lemma referenced_definitions_closed_witness:
  "map_of (collect_referenced_definitions [JObj [(''$ref'', JStr ''#/$defs/A'')]] [(''A'', JObj [])]) ''A'' = Some (JObj [])"
  using referenced_definitions_closed [of "[(''A'', JObj [])]" "''A''" "JObj []" "[JObj [(''$ref'', JStr ''#/$defs/A'')]]"]
  by (simp add: ref_of_def parse_ref_name_def DEFS_PREFIX_def js_starts_with_def is_ref_name_def)

section \<open>Rewriting keeps the references\<close>

lemma ref_of_map:
  "(\<And>k v. f (k, v) = (k, g k v)) \<Longrightarrow> ref_of (map f ps) =
   (case map_of ps ''$ref'' of None \<Rightarrow> None
    | Some v \<Rightarrow> (case g ''$ref'' v of JStr s \<Rightarrow> Some s | _ \<Rightarrow> None))"
  by (induction ps) (auto simp: ref_of_def prop_of_def split: option.splits)

lemma ref_of_normalized:
  "ref_of ps = None \<Longrightarrow> ref_of (map (\<lambda>(k, v). (k, normalize_refs v)) ps) = None"
proof -
  assume a: "ref_of ps = None"
  have "(case normalize_refs v of JStr s \<Rightarrow> Some s | _ \<Rightarrow> None) = None"
    if "(case v of JStr s \<Rightarrow> Some s | _ \<Rightarrow> None) = None" for v
    using that by (cases v) (auto split: option.splits)
  with a show ?thesis
    by (subst ref_of_map [where g = "\<lambda>k. normalize_refs"]) (auto simp: ref_of_def prop_of_def split: option.splits)
qed

lemma ref_of_rewritten:
  "ref_of ps = Some s \<Longrightarrow>
   ref_of (map (\<lambda>(k, v). (k, if k = ''$ref'' then JStr t else v)) ps) = Some t"
  by (subst ref_of_map [where g = "\<lambda>k v. if k = ''$ref'' then JStr t else v"])
    (auto simp: ref_of_def prop_of_def split: option.splits)

lemma refers_normalized: "refers (normalize_refs v) m = refers v m"
proof (induction v rule: normalize_refs.induct)
  case (2 ps)
  show ?case
  proof (cases "ref_of ps")
    case None
    with 2 show ?thesis by (force simp: ref_of_normalized)
  next
    case (Some s)
    then show ?thesis
      by (auto simp: ref_of_rewritten parse_canonical dest: parse_ref_name_SomeD split: option.splits)
  qed
qed auto

lemma normalize_twice: "normalize_refs (normalize_refs v) = normalize_refs v"
proof (induction v rule: normalize_refs.induct)
  case (2 ps)
  show ?case
  proof (cases "ref_of ps")
    case None
    with 2 show ?thesis by (auto simp: ref_of_normalized)
  next
    case (Some s)
    show ?thesis
    proof (cases "parse_ref_name s")
      case (Some n)
      then have "parse_ref_name (DEFS_PREFIX @ n) = Some n" by (rule parse_canonical [OF parse_ref_name_SomeD])
      with Some \<open>ref_of ps = Some s\<close> show ?thesis by (auto simp: ref_of_rewritten)
    qed (use Some in auto)
  qed
qed auto

text \<open>Rewriting references to their canonical form changes no name a schema refers to, and is
  idempotent.\<close>

theorem normalize_refs_preserves:
  "refers (normalize_refs v) m = refers v m \<and> normalize_refs (normalize_refs v) = normalize_refs v"
  by (simp add: refers_normalized normalize_twice)

end
