(* ===== verification/SmallExecutor.thy ===== *)
theory SmallExecutor
  imports ExecEnv
begin

text \<open>
  A small executor for concrete instances: a writable credential provider that keeps its items
  in the outside state, a plugin whose catalogue holds one tool, one static tool, an
  authorization server that answers every request, and no policy provider.
\<close>

type_synonym items = "(string \<times> string) list"

definition small_ctx :: owner_ctx where
  "small_ctx = \<lparr>oc_tenant = ''t1'', oc_subject = Some ''u1'', oc_reach = Bound, oc_writes = Allowed\<rparr>"

definition vault_get :: "string \<Rightarrow> (items, string option) eff" where
  "vault_get i w = (Inr (map_of (w_ext w) i), w)"

definition vault_set :: "string \<Rightarrow> string \<Rightarrow> (items, unit) eff" where
  "vault_set i v w = (Inr (), w\<lparr>w_ext := (i, v) # w_ext w\<rparr>)"

definition vault :: "items provider" where
  "vault = \<lparr>pv_key = ''vault'', pv_writable = True, pv_get = vault_get, pv_set = Some vault_set,
            pv_has = None, pv_list = None, pv_delete = None\<rparr>"

definition small_plugin :: "items plugin" where
  "small_plugin = \<lparr>pl_id = ''api'', pl_remote_catalog = True, pl_describe_auth = None, pl_describe_display = None,
     pl_resolve_tools = Some (\<lambda>iv cfg ref t gv gvs. eff_return
       \<lparr>rt_tools = [\<lparr>td_name = ''get'', td_description = None, td_input_schema = JUndef,
                     td_output_schema = JUndef, td_annotations = JUndef\<rparr>],
        rt_definitions = [], rt_incomplete = False, rt_incomplete_reason = None\<rparr>),
     pl_remove_integration = None, pl_remove_connection = None, pl_detect = None, pl_health_candidates = None,
     pl_check_health = None, pl_resolve_annotations = None, pl_validate_args = None,
     pl_invoke_tool = Some (\<lambda>r cr args el. eff_return (jopt JStr (cr_value cr))),
     pl_project_schema = None\<rparr>"

definition ping_tool :: "items static_tool" where
  "ping_tool = \<lparr>st_integration = \<lparr>si_id = ''executor'', si_kind = ''built-in'', si_name = ''Executor'',
        si_can_remove = None, si_can_refresh = None\<rparr>,
     st_name = ''ping'', st_description = ''Answers'', st_input_schema = JUndef, st_output_schema = JUndef,
     st_annotations = JUndef, st_plugin_id = ''core'', st_handler = (\<lambda>args el. eff_return (JStr ''pong''))\<rparr>"

text \<open>Every text is the URL of one host; the authorization server grants everything.\<close>

definition small_oauth :: "items oauth_deps" where
  "small_oauth = \<lparr>wb_url = (\<lambda>v. Some (simple_url ''id.test'' ''/mcp'' \<lparr>ur_query := Some v\<rparr>)), wb_params = (\<lambda>_. []),
     wb_query = (\<lambda>ps. js_join ''&'' (map (\<lambda>(k, v). k @ ''='' @ v) ps)), wb_json = (\<lambda>_. None), wb_base64 = (\<lambda>s. s),
     wb_http = (\<lambda>_. eff_return None), wb_allow_http = False,
     od_token_endpoint = (\<lambda>rq. eff_return (Inr \<lparr>it_access = ''access'', it_refresh = Some ''refresh'', it_expires_in = Some 60,
                                                  it_scope = None, it_identity_label = None\<rparr>)),
     od_code_verifier = (\<lambda>n. ''verifier'' @ int_to_string (int n)), od_code_challenge = (\<lambda>v. ''S256:'' @ v),
     od_state = (\<lambda>n. ''state'' @ int_to_string (int n)), od_date_parse = (\<lambda>_. None), od_redirect_uri = Some ''https://host.test/api/oauth/callback'',
     od_org_slug = None\<rparr>"

definition small_env :: "items exec_env" where
  "small_env = \<lparr>e_ctx = small_ctx, e_auto = (\<lambda>n. int_to_string (int n)), e_now = int,
     x_json = (\<lambda>s. None), x_decode_health = (\<lambda>v. if nullish v then None else Some v),
     x_decode_health_spec = (\<lambda>v. None), x_decode_bindings = Some, x_is_tool_result = is_object,
     x_between = (\<lambda>a b. ''a0''), x_random_id = (\<lambda>p n. p @ int_to_string (int n)),
     x_providers = [vault], x_plugins = [small_plugin], x_statics = [(''executor.ping'', ping_tool)],
     x_policy_provider = None,
     x_token_endpoint = (\<lambda>rq. eff_return (Inr \<lparr>tk_access = ''fresh'', tk_refresh = None, tk_expires_in = None,
                                                tk_scope = None\<rparr>)),
     x_on_integration_change = True, x_tools_sync_ttl = None,
     x_default_handler = (\<lambda>a args rq. eff_return \<lparr>er_action = Accept, er_content = JUndef\<rparr>),
     x_oauth = small_oauth\<rparr>"

definition small_world :: "db \<Rightarrow> items \<Rightarrow> items world" where
  "small_world d vs = \<lparr>w_db = d, w_ids = 0, w_clock = 0, w_tx = False, w_hooks = [], w_delivered = [],
                       w_touched = [], w_ext = vs\<rparr>"

text \<open>A database with one integration, one of the organization's connections to it, and its tool.\<close>

definition org_keys :: record_vals where
  "org_keys = [(''tenant'', JStr ''t1''), (''owner'', JStr ''org''), (''subject'', JStr ORG_SUBJECT)]"

definition api_row :: row where
  "api_row = prop_of [(''tenant'', JStr ''t1''), (''slug'', JStr ''api''), (''plugin_id'', JStr ''api''),
     (''name'', JStr ''API''), (''description'', JStr ''API''), (''can_remove'', JBool True)]"

definition main_row :: row where
  "main_row = prop_of (org_keys @ [(''integration'', JStr ''api''), (''name'', JStr ''main''),
     (''template'', JStr ''key''), (''provider'', JStr ''vault''), (''item_ids'', JObj [(''token'', JStr ''item'')]),
     (''tools_synced_at'', JNum 1)])"

definition get_row :: row where
  "get_row = prop_of (org_keys @ [(''integration'', JStr ''api''), (''connection'', JStr ''main''),
     (''plugin_id'', JStr ''api''), (''name'', JStr ''get''), (''description'', JStr ''Reads'')])"

definition small_db :: db where
  "small_db = (\<lambda>_. [])(''integration'' := [api_row], ''connection'' := [main_row], ''tool'' := [get_row])"

lemma confined_vault: "confined c (vault_get i)" "confined c (vault_set i v)"
  by (auto simp: confined_def vault_get_def vault_set_def agree_iff)

lemma small_env_sound: "sound_env small_env"
  by (auto simp: sound_env_def small_env_def sound_provider_def vault_def confined_vault sound_plugin_def
      small_plugin_def ping_tool_def sound_handler_def sound_oauth_def small_oauth_def intro: confined_intros)

end
