(* ===== verification/Catalog.thy ===== *)
theory Catalog
  imports Health SchemaRefs SmallExecutor
begin

text \<open>
  The read surface (\<open>sdk/src/executor.ts\<close>): the active source of tool policies, the tool
  list with the rebuild of stale catalogues it triggers, the lists of integrations and
  connections that follow from it, a tool's schema, and the credential providers.
\<close>

section \<open>Static tools\<close>

definition EXECUTOR_INTEGRATION_ID :: string where
  "EXECUTOR_INTEGRATION_ID = ''executor''"

definition static_tool_owner :: "'x exec_env \<Rightarrow> owner" where
  "static_tool_owner env = (if oc_subject (e_ctx env) = None then Org else User)"

definition static_tool_connection :: "static_integration \<Rightarrow> string" where
  "static_tool_connection i = (if si_id i = EXECUTOR_INTEGRATION_ID then ''coreTools'' else ''static'')"

definition static_tool_to_tool :: "'x exec_env \<Rightarrow> 'x static_tool \<Rightarrow> tool_view" where
  "static_tool_to_tool env st =
     \<lparr>tv_address = si_id (st_integration st) @ ''.'' @ st_name st, tv_owner = static_tool_owner env,
      tv_integration = si_id (st_integration st), tv_connection = static_tool_connection (st_integration st),
      tv_name = st_name st, tv_plugin_id = st_plugin_id st, tv_description = st_description st,
      tv_input_schema = st_input_schema st, tv_output_schema = st_output_schema st,
      tv_annotations = st_annotations st, tv_static = True\<rparr>"

section \<open>The active policy source\<close>

definition owner_rank_for_row :: "policy_row \<Rightarrow> int" where
  "owner_rank_for_row r = (if pr_owner r = ''user'' then 0 else 1)"

definition normalized_policy_id :: "tool_view \<Rightarrow> string" where
  "normalized_policy_id t =
     (if tv_static t then tv_address t
      else tv_integration t @ ''.'' @ owner_text (tv_owner t) @ ''.'' @ tv_connection t @ ''.'' @ tv_name t)"

text \<open>The action column holds one of the three texts.\<close>

definition action_of :: "jsval \<Rightarrow> tool_action" where
  "action_of v = (if v = JStr ''approve'' then Approve
                  else if v = JStr ''require_approval'' then RequireApproval else Block)"

lemma action_of_text [simp]: "action_of (JStr (action_text a)) = a"
  by (cases a) (simp_all add: action_of_def)

definition policy_row_of :: "row \<Rightarrow> policy_row" where
  "policy_row_of r =
     \<lparr>pr_id = row_str r ''id'', pr_owner = row_str r ''owner'', pr_pattern = row_str r ''pattern'',
      pr_action = action_of (r ''action''), pr_position = row_str r ''position'',
      pr_created_at = r ''created_at'', pr_updated_at = r ''updated_at''\<rparr>"

definition compare_provider_rule :: "provider_rule \<Rightarrow> provider_rule \<Rightarrow> int" where
  "compare_provider_rule a b =
     (if js_str_less (ru_position a) (ru_position b) then -1
      else if js_str_less (ru_position b) (ru_position a) then 1
      else if js_str_less (ru_id a) (ru_id b) then -1
      else if js_str_less (ru_id b) (ru_id a) then 1 else 0)"

definition user_policy :: "tool_action \<Rightarrow> string \<Rightarrow> string option \<Rightarrow> effective_policy" where
  "user_policy a p i = \<lparr>ep_action = a, ep_source = FromUser, ep_pattern = Some p, ep_policy_id = i\<rparr>"

definition resolve_provider_policy_from_rules :: "string \<Rightarrow> provider_rule list \<Rightarrow> effective_policy" where
  "resolve_provider_policy_from_rules tool rules =
     (case find (\<lambda>ru. match_pattern (ru_pattern ru) tool) (js_sort compare_provider_rule rules) of
        Some ru \<Rightarrow> user_policy (ru_action ru) (ru_pattern ru) (Some (ru_id ru))
      | None \<Rightarrow> user_policy Block ''*'' None)"

datatype 'x rule_set =
    GlobalRules "row list"
  | ProviderRules "'x policy_provider" "provider_rule list option"
  | PreparedRules "string \<Rightarrow> bool option \<Rightarrow> effective_policy"

definition list_active_policy_rule_set :: "'x exec_env \<Rightarrow> ('x, 'x rule_set) eff" where
  "list_active_policy_rule_set env =
     (case x_policy_provider env of
        Some pp \<Rightarrow>
          (case pp_prepare pp of
             Some prepare \<Rightarrow> eff_map PreparedRules prepare
           | None \<Rightarrow>
               (case pp_resolve pp of
                  Some _ \<Rightarrow> eff_return (ProviderRules pp None)
                | None \<Rightarrow> eff_map (\<lambda>rs. ProviderRules pp (Some rs)) (pp_list pp)))
      | None \<Rightarrow> eff_map GlobalRules (core_find_many env tool_policy_table find_all))"

fun resolve_policy_from_rule_set ::
  "string \<Rightarrow> 'x rule_set \<Rightarrow> bool option \<Rightarrow> ('x, effective_policy) eff" where
  "resolve_policy_from_rule_set tool (PreparedRules resolve) d = eff_return (resolve tool d)"
| "resolve_policy_from_rule_set tool (ProviderRules pp rules) d =
     (case pp_resolve pp of
        Some resolve \<Rightarrow> resolve tool d
      | None \<Rightarrow> eff_return (resolve_provider_policy_from_rules tool (case rules of None \<Rightarrow> [] | Some rs \<Rightarrow> rs)))"
| "resolve_policy_from_rule_set tool (GlobalRules rows) d =
     eff_return (resolve_effective_policy tool (map policy_row_of rows) owner_rank_for_row d)"

definition tool_policy :: "tool_view \<Rightarrow> 'x rule_set \<Rightarrow> ('x, effective_policy) eff" where
  "tool_policy t rules =
     resolve_policy_from_rule_set (normalized_policy_id t) rules (requires_approval (tv_annotations t))"

section \<open>Stale catalogues\<close>

record tool_filter =
  tf_integration :: "string option"
  tf_owner :: "owner option"
  tf_connection :: "string option"
  tf_query :: "string option"
  tf_include_blocked :: bool

definition no_filter :: tool_filter where
  "no_filter = \<lparr>tf_integration = None, tf_owner = None, tf_connection = None, tf_query = None,
                tf_include_blocked = False\<rparr>"

definition opt_matches :: "'a option \<Rightarrow> 'a \<Rightarrow> bool" where
  "opt_matches f a = (case f of None \<Rightarrow> True | Some b \<Rightarrow> a = b)"

definition matches_tool_filter :: "tool_view \<Rightarrow> tool_filter \<Rightarrow> bool" where
  "matches_tool_filter t f \<longleftrightarrow>
     opt_matches (tf_integration f) (tv_integration t) \<and> opt_matches (tf_owner f) (tv_owner t) \<and>
     opt_matches (tf_connection f) (tv_connection t) \<and>
     (case tf_query f of None \<Rightarrow> True
      | Some q \<Rightarrow> js_includes (map to_lower (tv_name t @ '' '' @ tv_description t)) (map to_lower q))"

definition MIN_SAFE_INTEGER :: int where
  "MIN_SAFE_INTEGER = - 9007199254740991"

definition or_min :: "int option \<Rightarrow> int" where
  "or_min x = (case x of None \<Rightarrow> MIN_SAFE_INTEGER | Some n \<Rightarrow> n)"

definition latest_revision :: "row list \<Rightarrow> int option" where
  "latest_revision integrations =
     fold (\<lambda>r acc. case opt_num (r ''config_revised_at'') of None \<Rightarrow> acc
             | Some n \<Rightarrow> Some (case acc of None \<Rightarrow> n | Some m \<Rightarrow> max m n)) integrations None"

definition stale_before :: "int option \<Rightarrow> int option \<Rightarrow> int option" where
  "stale_before cutoff latest =
     (if cutoff = None \<and> latest = None then None else Some (max (or_min cutoff) (or_min latest)))"

definition stale_condition :: "int option \<Rightarrow> cond_or_bool" where
  "stale_condition before =
     (case before of None \<Rightarrow> builder_is_null ''tools_synced_at''
      | Some t \<Rightarrow> builder_or [builder_is_null ''tools_synced_at'', cmp_val ''tools_synced_at'' OpLt (JNum t)])"

definition needs_sync :: "int option \<Rightarrow> 'x plugin \<Rightarrow> row \<Rightarrow> row \<Rightarrow> bool" where
  "needs_sync cutoff pl irow c \<longleftrightarrow>
     (case opt_num (c ''tools_synced_at'') of
        None \<Rightarrow> True
      | Some s \<Rightarrow>
          (case opt_num (irow ''config_revised_at'') of None \<Rightarrow> False | Some v \<Rightarrow> s < v) \<or>
          (pl_remote_catalog pl \<and> (case cutoff of None \<Rightarrow> False | Some t \<Rightarrow> s < t)))"

definition sync_connection :: "'x exec_env \<Rightarrow> row list \<Rightarrow> int option \<Rightarrow> row \<Rightarrow> ('x, unit) eff" where
  "sync_connection env integrations cutoff c =
     (case find (\<lambda>r. r ''slug'' = c ''integration'') (rev integrations) of
        None \<Rightarrow> eff_return ()
      | Some irow \<Rightarrow>
          (case find_plugin env (row_str irow ''plugin_id'') of
             None \<Rightarrow> eff_return ()
           | Some pl \<Rightarrow>
               if \<not> needs_sync cutoff pl irow c then eff_return ()
               else eff_ignore (produce_connection_tools env irow (row_ref c) Background)))"

definition sync_stale_connection_tools :: "'x exec_env \<Rightarrow> ('x, unit) eff" where
  "sync_stale_connection_tools env =
     eff_bind (core_find_many env integration_table find_all) (\<lambda>integrations.
       if integrations = [] then eff_return ()
       else
         eff_bind (case x_tools_sync_ttl env of
             None \<Rightarrow> eff_return None
           | Some ttl \<Rightarrow> if \<not> list_ex pl_remote_catalog (x_plugins env) then eff_return None
                         else eff_map (\<lambda>t. Some (t - ttl)) (now env)) (\<lambda>cutoff.
         eff_bind (core_find_many env connection_table
             (find_where (stale_condition (stale_before cutoff (latest_revision integrations))))) (\<lambda>cs.
           eff_iter (sync_connection env integrations cutoff) cs)))"

section \<open>The tool list\<close>

definition opt_eq :: "string \<Rightarrow> string option \<Rightarrow> cond_or_bool" where
  "opt_eq column v = (case v of None \<Rightarrow> CB True | Some s \<Rightarrow> cmp_val column OpEq (JStr s))"

definition tools_list_where :: "tool_filter \<Rightarrow> cond_or_bool" where
  "tools_list_where f =
     builder_and [opt_eq ''integration'' (tf_integration f), opt_eq ''owner'' (map_option owner_text (tf_owner f)),
                  opt_eq ''connection'' (tf_connection f)]"

definition visible_tool :: "tool_filter \<Rightarrow> 'x rule_set \<Rightarrow> tool_view \<Rightarrow> ('x, tool_view list) eff" where
  "visible_tool f rules t =
     (if \<not> matches_tool_filter t f then eff_return []
      else if tf_include_blocked f then eff_return [t]
      else eff_bind (tool_policy t rules) (\<lambda>ep. eff_return (if ep_action ep = Block then [] else [t])))"

definition tools_list :: "'x exec_env \<Rightarrow> tool_filter \<Rightarrow> ('x, tool_view list) eff" where
  "tools_list env f =
     eff_bind (sync_stale_connection_tools env) (\<lambda>_.
     eff_bind (core_find_many env tool_table
         ((find_where (tools_list_where f))\<lparr>fi_select := Some TOOL_INVOCATION_COLUMNS\<rparr>)) (\<lambda>rows.
     eff_bind (list_active_policy_rule_set env) (\<lambda>rules.
     eff_bind (eff_mapM (visible_tool f rules) (map (\<lambda>r. row_to_tool (x_json env) r JUndef) rows)) (\<lambda>dynamic.
     eff_bind (eff_mapM (visible_tool f rules) (map (static_tool_to_tool env \<circ> snd) (x_statics env))) (\<lambda>static.
       eff_return (concat dynamic @ concat static))))))"

definition integrations_list :: "'x exec_env \<Rightarrow> ('x, integration_view list) eff" where
  "integrations_list env =
     eff_bind (core_find_many env integration_table find_all) (\<lambda>rows.
       let static = map static_decl_to_integration (static_integrations env);
           stored = map (show_integration env) rows in
       if x_policy_provider env = None then eff_return (static @ stored)
       else eff_bind (tools_list env no_filter) (\<lambda>tools.
         let slugs = map tv_integration (filter (\<lambda>t. \<not> tv_static t) tools) in
         eff_return (static @ filter (\<lambda>i. iv_slug i \<in> set slugs) stored)))"

definition connection_key :: "owner \<Rightarrow> string \<Rightarrow> string \<Rightarrow> string" where
  "connection_key ow i n = owner_text ow @ '':'' @ i @ '':'' @ n"

definition connections_list :: "'x exec_env \<Rightarrow> string option \<Rightarrow> owner option \<Rightarrow> ('x, connection_view list) eff" where
  "connections_list env integration ow =
     eff_bind (core_find_many env connection_table
         (find_where (builder_and [opt_eq ''integration'' integration, opt_eq ''owner'' (map_option owner_text ow)]))) (\<lambda>rows.
       let connections = map (show_connection env) rows in
       if x_policy_provider env = None then eff_return connections
       else eff_bind (tools_list env no_filter) (\<lambda>tools.
         let keys = map (\<lambda>t. connection_key (tv_owner t) (tv_integration t) (tv_connection t))
                        (filter (\<lambda>t. \<not> tv_static t) tools) in
         eff_return (filter (\<lambda>cv. connection_key (cv_owner cv) (cv_integration cv) (cv_name cv) \<in> set keys) connections)))"

section \<open>A tool's schema\<close>

text \<open>
  \<open>preview\<close> stands for \<open>buildToolTypeScriptPreview\<close>, which prints TypeScript declarations
  for a schema, \<open>None\<close> being its failure.
\<close>

record tool_schema_view =
  sv_address :: string
  sv_name :: string
  sv_description :: string
  sv_input_schema :: jsval
  sv_output_schema :: jsval
  sv_definitions :: "(string \<times> jsval) list option"
  sv_preview :: "jsval option"

definition tool_where :: "'x exec_env \<Rightarrow> tool_ref \<Rightarrow> cond_or_bool" where
  "tool_where env p =
     builder_and [by_owner (e_ctx env) (tr_owner p), cmp_val ''integration'' OpEq (JStr (tr_integration p)),
                  cmp_val ''connection'' OpEq (JStr (tr_connection p)), cmp_val ''name'' OpEq (JStr (tr_tool p))]"

definition ref_conn :: "tool_ref \<Rightarrow> conn_ref" where
  "ref_conn p = \<lparr>rf_owner = tr_owner p, rf_integration = tr_integration p, rf_name = tr_connection p\<rparr>"

definition own_or :: "jsval \<Rightarrow> string \<Rightarrow> jsval \<Rightarrow> jsval" where
  "own_or v k d = (case v of JObj ps \<Rightarrow> (case map_of ps k of Some x \<Rightarrow> x | None \<Rightarrow> d) | _ \<Rightarrow> d)"

definition stored_tool_schema ::
  "(jsval \<Rightarrow> jsval \<Rightarrow> (string \<times> jsval) list \<Rightarrow> jsval option) \<Rightarrow> 'x exec_env \<Rightarrow> string \<Rightarrow> tool_ref \<Rightarrow> row \<Rightarrow>
   ('x, tool_schema_view option) eff" where
  "stored_tool_schema preview env address p r =
     (let t = row_to_tool (x_json env) r JUndef in
      eff_bind (case find_plugin env (row_str r ''plugin_id'') of
          None \<Rightarrow> eff_return JNull
        | Some pl \<Rightarrow>
            (case pl_project_schema pl of
               None \<Rightarrow> eff_return JNull
             | Some hook \<Rightarrow> plugin_storage_failure (row_str r ''plugin_id'') ''projectToolSchema''
                 (hook r (tv_input_schema t) (tv_output_schema t)))) (\<lambda>projected.
      let input_schema = own_or projected ''inputSchema'' (tv_input_schema t);
          output_schema = own_or projected ''outputSchema'' (tv_output_schema t) in
      eff_bind (core_find_many env definition_table (find_where (tools_where env (ref_conn p)))) (\<lambda>ds.
        let defs = fold (\<lambda>d acc. obj_set acc (row_str d ''name'') (decode_json_column (x_json env) (d ''schema''))) ds [];
            referenced = collect_referenced_definitions [input_schema, output_schema] defs in
        eff_return (Some \<lparr>sv_address = address, sv_name = tv_name t, sv_description = tv_description t,
          sv_input_schema = input_schema, sv_output_schema = output_schema,
          sv_definitions = (if referenced = [] then None else Some referenced),
          sv_preview = preview input_schema output_schema defs\<rparr>))))"

definition tool_schema ::
  "(jsval \<Rightarrow> jsval \<Rightarrow> (string \<times> jsval) list \<Rightarrow> jsval option) \<Rightarrow> 'x exec_env \<Rightarrow> string \<Rightarrow>
   ('x, tool_schema_view option) eff" where
  "tool_schema preview env address =
     eff_bind (list_active_policy_rule_set env) (\<lambda>rules.
       case map_of (x_statics env) address of
         Some st \<Rightarrow>
           (let t = static_tool_to_tool env st in
            eff_bind (tool_policy t rules) (\<lambda>ep.
              eff_return (if ep_action ep = Block then None
                else Some \<lparr>sv_address = address, sv_name = tv_name t, sv_description = tv_description t,
                  sv_input_schema = tv_input_schema t, sv_output_schema = tv_output_schema t,
                  sv_definitions = None, sv_preview = preview (tv_input_schema t) (tv_output_schema t) []\<rparr>)))
       | None \<Rightarrow>
           (case parse_tool_address address of
              None \<Rightarrow> eff_return None
            | Some p \<Rightarrow>
                eff_bind (core_find_first env tool_table (find_where (tool_where env p))) (\<lambda>row.
                  case row of
                    None \<Rightarrow> eff_return None
                  | Some r \<Rightarrow>
                      eff_bind (tool_policy (row_to_tool (x_json env) r JUndef) rules) (\<lambda>ep.
                        if ep_action ep = Block then eff_return None
                        else stored_tool_schema preview env address p r))))"

section \<open>Credential providers\<close>

definition providers_list :: "'x exec_env \<Rightarrow> ('x, string list) eff" where
  "providers_list env = eff_return (map pv_key (x_providers env))"

definition providers_items :: "'x exec_env \<Rightarrow> string \<Rightarrow> ('x, jsval list) eff" where
  "providers_items env k =
     (case find_provider env k of None \<Rightarrow> eff_return []
      | Some pv \<Rightarrow> (case pv_list pv of None \<Rightarrow> eff_return [] | Some m \<Rightarrow> m))"

definition providers_get :: "'x exec_env \<Rightarrow> string \<Rightarrow> string \<Rightarrow> ('x, string option) eff" where
  "providers_get env k i = (case find_provider env k of None \<Rightarrow> eff_return None | Some pv \<Rightarrow> pv_get pv i)"

definition providers_has :: "'x exec_env \<Rightarrow> string \<Rightarrow> string \<Rightarrow> ('x, bool) eff" where
  "providers_has env k i =
     (case find_provider env k of None \<Rightarrow> eff_return False
      | Some pv \<Rightarrow> (case pv_has pv of Some f \<Rightarrow> f i | None \<Rightarrow> eff_map (\<lambda>x. x \<noteq> None) (pv_get pv i)))"

definition providers_set_default :: "'x exec_env \<Rightarrow> string \<Rightarrow> string \<Rightarrow> ('x, string) eff" where
  "providers_set_default env i v =
     (case default_writable_provider env of None \<Rightarrow> eff_fail (FProviderNotRegistered ''default'')
      | Some pv \<Rightarrow>
          (case pv_set pv of None \<Rightarrow> eff_fail (FProviderNotRegistered ''default'')
           | Some put \<Rightarrow> eff_bind (put i v) (\<lambda>_. eff_return (pv_key pv))))"

definition providers_remove :: "'x exec_env \<Rightarrow> string \<Rightarrow> string \<Rightarrow> ('x, unit) eff" where
  "providers_remove env k i =
     (case find_provider env k of None \<Rightarrow> eff_return ()
      | Some pv \<Rightarrow> (case pv_delete pv of None \<Rightarrow> eff_return () | Some f \<Rightarrow> f i))"

text \<open>Registration, in order, refuses a second provider under the same key.\<close>

fun register_providers :: "(string \<times> 'x provider) list \<Rightarrow> 'x provider list \<Rightarrow> failure + 'x provider list" where
  "register_providers [] acc = Inr acc"
| "register_providers ((label, pv) # ps) acc =
     (if pv_key pv \<in> pv_key ` set acc then
        Inl (FStorage (StorageError (''Duplicate credential provider key: '' @ pv_key pv @ '' (from '' @ label @ '')'')))
      else register_providers ps (acc @ [pv]))"

section \<open>Confinement\<close>

lemma confined_rule_set [confined_intros]:
  "sound_env env \<Longrightarrow> confined (e_ctx env) (list_active_policy_rule_set env)"
  unfolding list_active_policy_rule_set_def
  by (intro confined_intros) (auto simp: sound_env_def sound_policy_provider_def)

definition sound_rules :: "owner_ctx \<Rightarrow> 'x rule_set \<Rightarrow> bool" where
  "sound_rules c rules \<longleftrightarrow> (case rules of ProviderRules pp _ \<Rightarrow> sound_policy_provider c pp | _ \<Rightarrow> True)"

lemma confined_tool_policy: "sound_rules c rules \<Longrightarrow> confined c (tool_policy t rules)"
  unfolding tool_policy_def
  by (cases rules) (auto simp: sound_rules_def sound_policy_provider_def intro!: confined_intros split: option.splits)

lemma rule_set_sound:
  "sound_env env \<Longrightarrow> list_active_policy_rule_set env w = (Inr rules, w') \<Longrightarrow> sound_rules (e_ctx env) rules"
  by (auto simp: list_active_policy_rule_set_def sound_env_def sound_rules_def eff_map_Inr split: option.splits)

lemma confined_sync [confined_intros]:
  "sound_env env \<Longrightarrow> confined (e_ctx env) (sync_stale_connection_tools env)"
  unfolding sync_stale_connection_tools_def sync_connection_def Let_def
  by (intro confined_intros) simp_all

lemma confined_visible_tool: "sound_rules c rules \<Longrightarrow> confined c (visible_tool f rules t)"
  unfolding visible_tool_def by (intro confined_intros confined_tool_policy)

lemma confined_tools_list [confined_intros]:
  "sound_env env \<Longrightarrow> confined (e_ctx env) (tools_list env f)"
  unfolding tools_list_def
  by (intro confined_bind [OF confined_sync] confined_bind [OF confined_find_many]
      confined_bind_on [OF confined_rule_set] confined_bind [OF confined_mapM] confined_return
      confined_visible_tool rule_set_sound core_tables)

lemma confined_integrations_list [confined_intros]:
  "sound_env env \<Longrightarrow> confined (e_ctx env) (integrations_list env)"
  unfolding integrations_list_def Let_def by (intro confined_intros) simp_all

lemma confined_connections_list [confined_intros]:
  "sound_env env \<Longrightarrow> confined (e_ctx env) (connections_list env i ow)"
  unfolding connections_list_def Let_def by (intro confined_intros) simp_all

lemma confined_project_hook:
  "sound_env env \<Longrightarrow> find_plugin env p = Some pl \<Longrightarrow> pl_project_schema pl = Some f \<Longrightarrow> confined (e_ctx env) (f r i w)"
  using sound_find_plugin [of env p pl] by (simp add: sound_plugin_def)

lemma confined_stored_schema [confined_intros]:
  "sound_env env \<Longrightarrow> confined (e_ctx env) (stored_tool_schema pv env a p r)"
  unfolding stored_tool_schema_def Let_def by (intro confined_intros confined_project_hook) simp_all

lemma confined_tool_schema [confined_intros]:
  "sound_env env \<Longrightarrow> confined (e_ctx env) (tool_schema pv env a)"
  unfolding tool_schema_def Let_def
  by (intro confined_bind_on [OF confined_rule_set] confined_option confined_return confined_if
      confined_bind [OF confined_find_first] confined_bind [OF confined_tool_policy] confined_stored_schema
      rule_set_sound core_tables)

lemma confined_providers [confined_intros]:
  assumes "sound_env env"
  shows "confined (e_ctx env) (providers_items env k)" "confined (e_ctx env) (providers_get env k i)"
    "confined (e_ctx env) (providers_has env k i)" "confined (e_ctx env) (providers_set_default env i v)"
    "confined (e_ctx env) (providers_remove env k i)"
  using sound_find_provider [OF assms, of k] sound_default_provider [OF assms]
  unfolding providers_items_def providers_get_def providers_has_def providers_set_default_def providers_remove_def
  by (auto simp: sound_provider_def intro!: confined_intros split: option.splits)

section \<open>What the tool list shows\<close>

lemma eff_mapM_Inr:
  "eff_mapM f xs w = (Inr ys, w') \<Longrightarrow> y \<in> set ys \<Longrightarrow> \<exists>x \<in> set xs. \<exists>v v'. f x v = (Inr y, v')"
proof (induction xs arbitrary: ys w)
  case (Cons x xs)
  from Cons.prems(1) obtain y' zs v where y: "f x w = (Inr y', v)" "eff_mapM f xs v = (Inr zs, w')" "ys = y' # zs"
    by (auto simp: eff_bind_Inr)
  from Cons.prems(2) y(3) consider "y = y'" | "y \<in> set zs" by auto
  then show ?case
  proof cases
    case 1
    with y(1) show ?thesis by auto
  next
    case 2
    from Cons.IH [OF y(2) this] show ?thesis by auto
  qed
qed simp

interpretation provider_rules: comparator compare_provider_rule
proof -
  have "compare_provider_rule = cmp_then (\<lambda>x y. cmp_str (ru_position x) (ru_position y)) (\<lambda>x y. cmp_str (ru_id x) (ru_id y))"
    by (auto simp: fun_eq_iff compare_provider_rule_def cmp_then_def cmp_str_def)
  then show "comparator compare_provider_rule"
    using comparator_then [OF comparator_str_key comparator_str_key] by metis
qed

lemma eff_mapM_pure:
  "(\<And>x v. x \<in> set xs \<Longrightarrow> f x v = (Inr (g x), v)) \<Longrightarrow> eff_mapM f xs w = (Inr (map g xs), w)"
proof (induction xs)
  case (Cons x xs)
  then have "f x w = (Inr (g x), w)" "eff_mapM f xs w = (Inr (map g xs), w)" by simp_all
  then show ?case by (simp add: eff_bind_step)
qed simp

definition stored_policy :: "row list \<Rightarrow> tool_view \<Rightarrow> effective_policy" where
  "stored_policy rows t = resolve_effective_policy (normalized_policy_id t) (map policy_row_of rows)
     owner_rank_for_row (requires_approval (tv_annotations t))"

definition listed :: "tool_filter \<Rightarrow> row list \<Rightarrow> tool_view \<Rightarrow> bool" where
  "listed f rows t \<longleftrightarrow>
     matches_tool_filter t f \<and> (tf_include_blocked f \<or> ep_action (stored_policy rows t) \<noteq> Block)"

lemma visible_tool_global:
  "visible_tool f (GlobalRules rows) t v = (Inr (if listed f rows t then [t] else []), v)"
  by (auto simp: visible_tool_def listed_def tool_policy_def stored_policy_def)

lemma concat_listed: "concat (map (\<lambda>t. if P t then [t] else []) ts) = filter P ts"
  by (induction ts) auto

lemma storage_Inr [simp]: "storage r = Inr a \<longleftrightarrow> r = Inr a"
  by (cases r) (auto simp: storage_def)

lemma core_find_many_Inr:
  "core_find_many env tbl fi w = (Inr rows, w') \<longleftrightarrow> orm_find_many tbl (e_ctx env) fi (w_db w) = Inr rows \<and> w' = w"
  by (auto simp: core_find_many_def)

lemma core_find_first_Inr:
  "core_find_first env tbl fi w = (Inr row, w') \<longleftrightarrow> orm_find_first tbl (e_ctx env) fi (w_db w) = Inr row \<and> w' = w"
  by (auto simp: core_find_first_def)

lemma tools_list_Inr:
  assumes "x_policy_provider env = None" "tools_list env f w = (Inr ts, w')"
  shows "\<exists>tool_rows policy_rows.
    orm_find_many tool_table (e_ctx env) ((find_where (tools_list_where f))\<lparr>fi_select := Some TOOL_INVOCATION_COLUMNS\<rparr>)
      (w_db w') = Inr tool_rows \<and>
    orm_find_many tool_policy_table (e_ctx env) find_all (w_db w') = Inr policy_rows \<and>
    ts = filter (listed f policy_rows)
      (map (\<lambda>r. row_to_tool (x_json env) r JUndef) tool_rows @ map (static_tool_to_tool env \<circ> snd) (x_statics env))"
proof -
  from assms(2) obtain v rows rules dynamic static where
    rows: "orm_find_many tool_table (e_ctx env) ((find_where (tools_list_where f))\<lparr>fi_select := Some TOOL_INVOCATION_COLUMNS\<rparr>)
      (w_db v) = Inr rows"
    and rules: "list_active_policy_rule_set env v = (Inr rules, v)"
    and dyn: "eff_mapM (visible_tool f rules) (map (\<lambda>r. row_to_tool (x_json env) r JUndef) rows) v = (Inr dynamic, v)"
    and sta: "eff_mapM (visible_tool f rules) (map (static_tool_to_tool env \<circ> snd) (x_statics env)) v = (Inr static, w')"
    and ts: "ts = concat dynamic @ concat static"
    using assms(1) unfolding tools_list_def eff_bind_Inr core_find_many_Inr
    by (auto simp: list_active_policy_rule_set_def eff_map_Inr core_find_many_Inr eff_mapM_pure [OF visible_tool_global])
  from rules assms(1) obtain prs where prs: "rules = GlobalRules prs"
    "orm_find_many tool_policy_table (e_ctx env) find_all (w_db v) = Inr prs"
    by (auto simp: list_active_policy_rule_set_def eff_map_Inr core_find_many_Inr)
  note pure = eff_mapM_pure [OF visible_tool_global]
  from dyn sta have "dynamic = map (\<lambda>t. if listed f prs t then [t] else []) (map (\<lambda>r. row_to_tool (x_json env) r JUndef) rows)"
    "static = map (\<lambda>t. if listed f prs t then [t] else []) (map (static_tool_to_tool env \<circ> snd) (x_statics env))" "w' = v"
    unfolding prs(1) pure by simp_all
  with rows prs(2) ts show ?thesis by (simp add: concat_listed del: map_map)
qed

text \<open>A tool's schema is shown only if its effective policy, resolved against the committed rules,
  does not block it.\<close>

theorem tool_schema_not_blocked:
  assumes "x_policy_provider env = None" "map_of (x_statics env) a = None"
    and "tool_schema preview env a w = (Inr (Some view), w')"
  shows "\<exists>p r rows. parse_tool_address a = Some p \<and>
    orm_find_first tool_table (e_ctx env) (find_where (tool_where env p)) (w_db w) = Inr (Some r) \<and>
    orm_find_many tool_policy_table (e_ctx env) find_all (w_db w) = Inr rows \<and>
    ep_action (stored_policy rows (row_to_tool (x_json env) r JUndef)) \<noteq> Block"
proof -
  from assms(1,3) obtain rows where rows: "orm_find_many tool_policy_table (e_ctx env) find_all (w_db w) = Inr rows"
    "list_active_policy_rule_set env w = (Inr (GlobalRules rows), w)"
    by (auto simp: tool_schema_def list_active_policy_rule_set_def eff_bind_Inr eff_map_Inr core_find_many_Inr)
  with assms(2,3) obtain p where p: "parse_tool_address a = Some p"
    by (auto simp: tool_schema_def eff_bind_Inr split: option.splits)
  with assms(2,3) rows(2) obtain r where r:
    "orm_find_first tool_table (e_ctx env) (find_where (tool_where env p)) (w_db w) = Inr (Some r)"
    by (auto simp: tool_schema_def eff_bind_Inr core_find_first_Inr split: option.splits)
  with assms(2,3) rows(2) p have "ep_action (stored_policy rows (row_to_tool (x_json env) r JUndef)) \<noteq> Block"
    by (auto simp: tool_schema_def eff_bind_Inr core_find_first_Inr tool_policy_def stored_policy_def
        split: if_splits)
  with p r rows(1) show ?thesis by blast
qed

lemma small_tool_schema:
  "fst (tool_schema (\<lambda>_ _ _. None) small_env ''tools.api.org.main.get'' (small_world small_db [])) =
     Inr (Some \<lparr>sv_address = ''tools.api.org.main.get'', sv_name = ''get'', sv_description = ''Reads'', sv_input_schema = JUndef,
        sv_output_schema = JUndef, sv_definitions = None, sv_preview = None\<rparr>)"
  by code_simp

lemma tool_schema_not_blocked_witness:
  "\<exists>p r rows. parse_tool_address ''tools.api.org.main.get'' = Some p \<and>
    orm_find_first tool_table (e_ctx small_env) (find_where (tool_where small_env p)) small_db = Inr (Some r) \<and>
    ep_action (stored_policy rows (row_to_tool (x_json small_env) r JUndef)) \<noteq> Block"
proof -
  have "x_policy_provider small_env = None" "map_of (x_statics small_env) ''tools.api.org.main.get'' = None"
    by (simp_all add: small_env_def)
  from tool_schema_not_blocked [OF this run_pair [OF small_tool_schema]] show ?thesis
    by (auto simp: small_world_def)
qed

section \<open>Rules of a policy provider\<close>

lemma find_Some_sorted:
  "find P xs = Some x \<Longrightarrow> sorted_wrt R xs \<Longrightarrow> y \<in> set xs \<Longrightarrow> P y \<Longrightarrow> x = y \<or> R x y"
  by (induction xs) (auto split: if_splits)

lemma find_None_all: "find P xs = None \<longleftrightarrow> (\<forall>x \<in> set xs. \<not> P x)"
  by (induction xs) auto

text \<open>Under a policy provider's rules a tool is blocked unless a rule of the provider that matches
  it allows it, and the rule that decides is the matching one first in the order of positions,
  ties broken by id.\<close>

theorem provider_rules_allowlist:
  assumes "ep_action (resolve_provider_policy_from_rules tool rules) \<noteq> Block"
  shows "\<exists>ru \<in> set rules. match_pattern (ru_pattern ru) tool \<and>
    ep_action (resolve_provider_policy_from_rules tool rules) = ru_action ru \<and>
    (\<forall>ru' \<in> set rules. match_pattern (ru_pattern ru') tool \<longrightarrow> compare_provider_rule ru ru' \<le> 0)"
proof -
  let ?m = "\<lambda>ru. match_pattern (ru_pattern ru) tool"
  from assms obtain ru where ru: "find ?m (js_sort compare_provider_rule rules) = Some ru"
    by (auto simp: resolve_provider_policy_from_rules_def user_policy_def split: option.splits)
  then have "ru \<in> set rules" using find_in_set by fastforce
  moreover have "?m ru" using ru by (auto simp: find_Some_iff)
  moreover have "compare_provider_rule ru ru' \<le> 0" if "ru' \<in> set rules" "?m ru'" for ru'
    using find_Some_sorted [OF ru provider_rules.sorted_js_sort, of ru'] that provider_rules.cmp_refl [of ru] by auto
  ultimately show ?thesis
    using ru by (auto simp: resolve_provider_policy_from_rules_def user_policy_def)
qed

lemma provider_rules_allowlist_witness:
  "\<exists>ru \<in> set [\<lparr>ru_id = ''r'', ru_pattern = ''*'', ru_action = Approve, ru_position = ''a0''\<rparr>].
     match_pattern (ru_pattern ru) ''a.b''"
proof -
  have "ep_action (resolve_provider_policy_from_rules ''a.b''
    [\<lparr>ru_id = ''r'', ru_pattern = ''*'', ru_action = Approve, ru_position = ''a0''\<rparr>]) \<noteq> Block"
    by (simp add: resolve_provider_policy_from_rules_def match_pattern_def user_policy_def)
  from provider_rules_allowlist [OF this] show ?thesis by blast
qed

section \<open>The query for stale catalogues\<close>

lemma latest_revision_ge:
  "r \<in> set rs \<Longrightarrow> opt_num (r ''config_revised_at'') = Some v \<Longrightarrow>
   \<exists>m. latest_revision rs = Some m \<and> v \<le> m"
proof -
  let ?step = "\<lambda>r acc. case opt_num (r ''config_revised_at'') of None \<Rightarrow> acc
             | Some n \<Rightarrow> Some (case acc of None \<Rightarrow> n | Some m \<Rightarrow> max m n)"
  have grow: "\<exists>m. fold ?step rs (Some k) = Some m \<and> k \<le> m" for rs k
  proof (induction rs arbitrary: k)
    case (Cons x xs)
    obtain j where j: "?step x (Some k) = Some j" "k \<le> j"
      by (cases "opt_num (x ''config_revised_at'')") auto
    from Cons.IH [of j] j show ?case by auto
  qed simp
  have "\<exists>m. fold ?step rs acc = Some m \<and> v \<le> m"
    if "r \<in> set rs" "opt_num (r ''config_revised_at'') = Some v" for acc
    using that
  proof (induction rs arbitrary: acc)
    case (Cons x xs)
    show ?case
    proof (cases "x = r")
      case True
      then obtain k where "?step x acc = Some k" "v \<le> k" using Cons.prems(2) by (cases acc) auto
      with grow [of xs k] show ?thesis by auto
    qed (use Cons in auto)
  qed simp
  then show "r \<in> set rs \<Longrightarrow> opt_num (r ''config_revised_at'') = Some v \<Longrightarrow>
   \<exists>m. latest_revision rs = Some m \<and> v \<le> m" unfolding latest_revision_def by blast
qed

text \<open>C19: the bounded query for stale connections misses none: every connection that one of the three
  triggers applies to, against its own integration, satisfies its condition.\<close>

theorem stale_query_complete:
  assumes "needs_sync cutoff pl irow c" "irow \<in> set integrations"
    and "c ''tools_synced_at'' = JNull \<or> (\<exists>n. c ''tools_synced_at'' = JNum n)"
  shows "holds_cb c (stale_condition (stale_before cutoff (latest_revision integrations)))"
  using assms(3)
proof
  assume "c ''tools_synced_at'' = JNull"
  then show ?thesis
    by (simp add: stale_condition_def builder_is_null_def split: option.splits)
next
  assume "\<exists>n. c ''tools_synced_at'' = JNum n"
  then obtain s where s: "c ''tools_synced_at'' = JNum s" by blast
  let ?lr = "latest_revision integrations"
  have "\<exists>t. stale_before cutoff ?lr = Some t \<and> s < t"
  proof -
    from assms(1) s consider v where "opt_num (irow ''config_revised_at'') = Some v" "s < v"
      | t where "cutoff = Some t" "s < t"
      by (auto simp: needs_sync_def opt_num_def split: option.splits if_splits)
    then show ?thesis
    proof cases
      case 1
      with latest_revision_ge [OF assms(2) 1(1)] show ?thesis by (auto simp: stale_before_def or_min_def)
    next
      case 2
      then show ?thesis by (auto simp: stale_before_def or_min_def)
    qed
  qed
  with s show ?thesis by (auto simp: stale_condition_def cmp_val_def)
qed

lemma stale_query_complete_witness:
  "holds_cb (prop_of [(''tools_synced_at'', JNum 5)])
     (stale_condition (stale_before None (latest_revision [prop_of [(''config_revised_at'', JNum 9)]])))"
  by (rule stale_query_complete [of _ small_plugin "prop_of [(''config_revised_at'', JNum 9)]"])
    (simp_all add: needs_sync_def opt_num_def)

end
