(* ===== verification/PolicyService.thy ===== *)
theory PolicyService
  imports Catalog
begin

text \<open>
  The stored tool policies and the saved artifacts as operations of an executor
  (\<open>sdk/src/executor.ts\<close>, \<open>artifact.ts\<close>): list, create, update, remove and resolve a policy;
  list, read, save, rename and remove an artifact.
\<close>

section \<open>Policies\<close>

text \<open>\<open>Math.random\<close> and \<open>Date.now\<close>, drawn once each for an identifier.\<close>

definition random_id :: "'x exec_env \<Rightarrow> string \<Rightarrow> ('x, string) eff" where
  "random_id env prefix w =
     (Inr (x_random_id env prefix (w_ids w)), w\<lparr>w_ids := Suc (w_ids w), w_clock := Suc (w_clock w)\<rparr>)"

definition policies_list :: "'x exec_env \<Rightarrow> ('x, policy_row list) eff" where
  "policies_list env =
     eff_map (\<lambda>rows. js_sort (policy_order owner_rank_for_row) (map policy_row_of rows))
       (core_find_many env tool_policy_table find_all)"

record create_policy_input =
  cp_owner :: owner
  cp_pattern :: string
  cp_action :: jsval
  cp_position :: "string option"

definition policies_create :: "'x exec_env \<Rightarrow> create_policy_input \<Rightarrow> ('x, policy_row) eff" where
  "policies_create env inp =
     (if \<not> is_valid_pattern (cp_pattern inp) then
        eff_fail (FStorage (StorageError (''Invalid tool policy pattern: '' @ cp_pattern inp)))
      else if \<not> is_tool_policy_action (cp_action inp) then
        eff_fail (FStorage (StorageError (''Invalid tool policy action: '' @ js_to_string (cp_action inp))))
      else
        eff_bind (require_user_subject (e_ctx env) (cp_owner inp)) (\<lambda>_.
        eff_bind (eff_lift (owned_keys (e_ctx env) (cp_owner inp))) (\<lambda>keys.
        eff_bind (core_find_many env tool_policy_table (find_where (by_owner (e_ctx env) (cp_owner inp)))) (\<lambda>existing.
        let position = (case cp_position inp of Some p \<Rightarrow> p
              | None \<Rightarrow> position_for_new_pattern (x_between env) (cp_pattern inp) (map policy_row_of existing)) in
        eff_bind (random_id env ''pol_'') (\<lambda>aid.
        eff_bind (now env) (\<lambda>t.
        eff_bind (core_create env tool_policy_table
          (keys @ [(''id'', JStr aid), (''pattern'', JStr (cp_pattern inp)), (''action'', cp_action inp),
             (''position'', JStr position), (''created_at'', JDate t), (''updated_at'', JDate t)])) (\<lambda>created.
          eff_return (policy_row_of created))))))))"

record update_policy_input =
  up_id :: string
  up_owner :: owner
  up_pattern :: "string option"
  up_action :: "tool_action option"
  up_position :: "string option"

definition policy_where :: "'x exec_env \<Rightarrow> owner \<Rightarrow> string \<Rightarrow> cond_or_bool" where
  "policy_where env ow aid = builder_and [by_owner (e_ctx env) ow, cmp_val ''id'' OpEq (JStr aid)]"

text \<open>A row with properties set (a spread followed by another).\<close>

definition row_with :: "row \<Rightarrow> record_vals \<Rightarrow> row" where
  "row_with r ps k = (case map_of ps k of Some v \<Rightarrow> v | None \<Rightarrow> r k)"

definition policies_update :: "'x exec_env \<Rightarrow> update_policy_input \<Rightarrow> ('x, policy_row) eff" where
  "policies_update env inp =
     (if (case up_pattern inp of None \<Rightarrow> False | Some p \<Rightarrow> \<not> is_valid_pattern p) then
        eff_fail (FStorage (StorageError (''Invalid tool policy pattern: '' @ the (up_pattern inp))))
      else
        let w = policy_where env (up_owner inp) (up_id inp) in
        eff_bind (core_find_first env tool_policy_table (find_where w)) (\<lambda>existing.
          case existing of
            None \<Rightarrow> eff_fail (FStorage (StorageError (''Tool policy not found: '' @ up_id inp)))
          | Some ex \<Rightarrow>
              eff_bind (now env) (\<lambda>t.
              let ps = [(''updated_at'', JDate t)] @
                    (case up_pattern inp of None \<Rightarrow> [] | Some p \<Rightarrow> [(''pattern'', JStr p)]) @
                    (case up_action inp of None \<Rightarrow> [] | Some a \<Rightarrow> [(''action'', JStr (action_text a))]) @
                    (case up_position inp of None \<Rightarrow> [] | Some p \<Rightarrow> [(''position'', JStr p)]) in
              eff_bind (core_update_many env tool_policy_table (Some w) ps) (\<lambda>_.
              eff_bind (core_find_first env tool_policy_table (find_where w)) (\<lambda>updated.
                eff_return (policy_row_of (case updated of Some r \<Rightarrow> r | None \<Rightarrow> row_with ex ps)))))))"

definition policies_remove :: "'x exec_env \<Rightarrow> owner \<Rightarrow> string \<Rightarrow> ('x, unit) eff" where
  "policies_remove env ow aid = core_delete_many env tool_policy_table (Some (policy_where env ow aid))"

definition policies_resolve :: "'x exec_env \<Rightarrow> string \<Rightarrow> ('x, effective_policy) eff" where
  "policies_resolve env address =
     (let parsed = parse_tool_address address in
      eff_bind (core_find_many env tool_policy_table find_all) (\<lambda>rows.
      let tool = (case parsed of
            Some p \<Rightarrow> tr_integration p @ ''.'' @ owner_text (tr_owner p) @ ''.'' @ tr_connection p @ ''.'' @ tr_tool p
          | None \<Rightarrow> address) in
      eff_bind (case parsed of None \<Rightarrow> eff_return None
          | Some p \<Rightarrow>
              eff_map (\<lambda>row. case row of None \<Rightarrow> None
                  | Some r \<Rightarrow> requires_approval (decode_json_column (x_json env) (r ''annotations'')))
                (core_find_first env tool_table (find_where (tool_where env p)))) (\<lambda>default_approval.
        eff_return (resolve_effective_policy tool (map policy_row_of rows) owner_rank_for_row default_approval))))"

section \<open>Artifacts\<close>

record artifact_summary =
  as_id :: string
  as_owner :: owner
  as_title :: string
  as_description :: "string option"
  as_preview :: "string option"
  as_created_at :: jsval
  as_updated_at :: jsval

record artifact = artifact_summary +
  ar_code :: string
  ar_bindings :: "jsval option"

text \<open>Decoding bindings: absent is absent, undecodable is empty.\<close>

definition bindings_from_column :: "'x exec_env \<Rightarrow> jsval \<Rightarrow> jsval option" where
  "bindings_from_column env v =
     (if nullish v then None
      else let json = (case v of JStr s \<Rightarrow> x_json env s | _ \<Rightarrow> Some v) in
        Some (case json of None \<Rightarrow> JObj []
              | Some j \<Rightarrow> (case x_decode_bindings env j of Some b \<Rightarrow> b | None \<Rightarrow> JObj [])))"

definition preview_from_column :: "jsval \<Rightarrow> string option" where
  "preview_from_column v = (case v of JStr s \<Rightarrow> if s = [] then None else Some s | _ \<Rightarrow> None)"

text \<open>A date, or one built from epoch milliseconds; the store returns no date as text.\<close>

definition as_date :: "jsval \<Rightarrow> jsval" where
  "as_date v = (case v of JNum n \<Rightarrow> JDate n | _ \<Rightarrow> v)"

definition row_to_artifact_summary :: "row \<Rightarrow> artifact_summary" where
  "row_to_artifact_summary r =
     \<lparr>as_id = row_str r ''id'', as_owner = row_owner r, as_title = row_str r ''title'',
      as_description = opt_str (r ''description''), as_preview = preview_from_column (r ''preview''),
      as_created_at = as_date (r ''created_at''), as_updated_at = as_date (r ''updated_at'')\<rparr>"

definition row_to_artifact :: "'x exec_env \<Rightarrow> row \<Rightarrow> artifact" where
  "row_to_artifact env r =
     artifact_summary.extend (row_to_artifact_summary r)
       (artifact.fields (row_str r ''code'') (bindings_from_column env (r ''bindings'')))"

definition artifact_by_id :: "string \<Rightarrow> cond_or_bool" where
  "artifact_by_id aid = cmp_val ''id'' OpEq (JStr aid)"

definition artifacts_list :: "'x exec_env \<Rightarrow> ('x, artifact_summary list) eff" where
  "artifacts_list env =
     eff_map (map row_to_artifact_summary)
       (core_find_many env artifact_table
          (find_all\<lparr>fi_order_by := [(''updated_at'', False), (''id'', False)],
                    fi_select := Some ARTIFACT_SUMMARY_COLUMNS\<rparr>))"

definition artifacts_get :: "'x exec_env \<Rightarrow> string \<Rightarrow> ('x, artifact) eff" where
  "artifacts_get env aid =
     eff_bind (core_find_first env artifact_table (find_where (artifact_by_id aid))) (\<lambda>row.
       case row of None \<Rightarrow> eff_fail (FArtifactNotFound aid) | Some r \<Rightarrow> eff_return (row_to_artifact env r))"

record save_artifact_input =
  sa_id :: "string option"
  sa_title :: string
  sa_description :: "string option"
  sa_code :: string
  sa_bindings :: "jsval option"
  sa_preview :: "string option"

definition saved_columns :: "save_artifact_input \<Rightarrow> record_vals" where
  "saved_columns inp =
     [(''title'', JStr (sa_title inp)), (''description'', jopt JStr (sa_description inp)),
      (''code'', JStr (sa_code inp)), (''bindings'', jopt (\<lambda>v. v) (sa_bindings inp)),
      (''preview'', jopt JStr (sa_preview inp))]"

definition artifacts_save :: "'x exec_env \<Rightarrow> save_artifact_input \<Rightarrow> ('x, artifact) eff" where
  "artifacts_save env inp =
     eff_bind (now env) (\<lambda>t.
       case sa_id inp of
         Some aid \<Rightarrow>
           eff_bind (core_find_first env artifact_table (find_where (artifact_by_id aid))) (\<lambda>existing.
             case existing of
               None \<Rightarrow> eff_fail (FArtifactNotFound aid)
             | Some ex \<Rightarrow>
                 let ps = saved_columns inp @ [(''updated_at'', JDate t)] in
                 eff_bind (core_update_many env artifact_table (Some (artifact_by_id aid)) ps) (\<lambda>_.
                   eff_return (row_to_artifact env (row_with ex ps))))
       | None \<Rightarrow>
           eff_bind (require_user_subject (e_ctx env) User) (\<lambda>_.
           eff_bind (eff_lift (owned_keys (e_ctx env) User)) (\<lambda>keys.
           eff_bind (random_id env ''art_'') (\<lambda>aid.
           eff_bind (core_create env artifact_table
             (keys @ [(''id'', JStr aid)] @ saved_columns inp @ [(''created_at'', JDate t), (''updated_at'', JDate t)]))
             (\<lambda>created. eff_return (row_to_artifact env created))))))"

definition artifacts_set_preview :: "'x exec_env \<Rightarrow> string \<Rightarrow> string \<Rightarrow> ('x, unit) eff" where
  "artifacts_set_preview env aid preview =
     eff_bind (core_find_first env artifact_table (find_where (artifact_by_id aid))) (\<lambda>existing.
       if existing = None then eff_fail (FArtifactNotFound aid)
       else core_update_many env artifact_table (Some (artifact_by_id aid)) [(''preview'', JStr preview)])"

definition artifacts_rename :: "'x exec_env \<Rightarrow> string \<Rightarrow> string \<Rightarrow> ('x, artifact) eff" where
  "artifacts_rename env aid title =
     eff_bind (core_find_first env artifact_table (find_where (artifact_by_id aid))) (\<lambda>existing.
       case existing of
         None \<Rightarrow> eff_fail (FArtifactNotFound aid)
       | Some ex \<Rightarrow>
           eff_bind (now env) (\<lambda>t.
           let ps = [(''title'', JStr title), (''updated_at'', JDate t)] in
           eff_bind (core_update_many env artifact_table (Some (artifact_by_id aid)) ps) (\<lambda>_.
             eff_return (row_to_artifact env (row_with ex ps)))))"

definition artifacts_remove :: "'x exec_env \<Rightarrow> string \<Rightarrow> ('x, unit) eff" where
  "artifacts_remove env aid = core_delete_many env artifact_table (Some (artifact_by_id aid))"

section \<open>Confinement\<close>

lemma confined_random_id [confined_intros]: "confined c (random_id env p)"
  by (simp add: confined_def random_id_def agree_iff)

lemma confined_policies_list [confined_intros]: "confined (e_ctx env) (policies_list env)"
  unfolding policies_list_def by (intro confined_intros) simp

lemma confined_policies_create [confined_intros]: "confined (e_ctx env) (policies_create env inp)"
  unfolding policies_create_def Let_def by (intro confined_intros) simp_all

lemma confined_policies_update [confined_intros]: "confined (e_ctx env) (policies_update env inp)"
  unfolding policies_update_def Let_def by (intro confined_intros) (simp_all split: option.splits)

lemma confined_policies_remove [confined_intros]: "confined (e_ctx env) (policies_remove env ow aid)"
  unfolding policies_remove_def by (intro confined_intros) simp

lemma confined_policies_resolve [confined_intros]: "confined (e_ctx env) (policies_resolve env a)"
  unfolding policies_resolve_def Let_def by (intro confined_intros) simp_all

lemma partition_free_saved [simp]: "partition_free (saved_columns inp)"
  by (simp add: saved_columns_def)

lemma confined_artifacts_list [confined_intros]: "confined (e_ctx env) (artifacts_list env)"
  unfolding artifacts_list_def by (intro confined_intros) simp

lemma confined_artifacts_get [confined_intros]: "confined (e_ctx env) (artifacts_get env aid)"
  unfolding artifacts_get_def by (intro confined_intros) simp

lemma confined_artifacts_save [confined_intros]: "confined (e_ctx env) (artifacts_save env inp)"
  unfolding artifacts_save_def Let_def by (intro confined_intros) simp_all

lemma confined_artifacts_set_preview [confined_intros]: "confined (e_ctx env) (artifacts_set_preview env aid p)"
  unfolding artifacts_set_preview_def by (intro confined_intros) simp_all

lemma confined_artifacts_rename [confined_intros]: "confined (e_ctx env) (artifacts_rename env aid t)"
  unfolding artifacts_rename_def Let_def by (intro confined_intros) simp_all

lemma confined_artifacts_remove [confined_intros]: "confined (e_ctx env) (artifacts_remove env aid)"
  unfolding artifacts_remove_def by (intro confined_intros) simp

end
