(* ===== verification/Execute.thy ===== *)
theory Execute
  imports PolicyService
begin

text \<open>
  Invoking a tool (\<open>execute\<close> in \<open>sdk/src/executor.ts\<close>): the policy that decides, the
  approval it may ask for, the credential the plugin is called with, and the one retry after the
  remote service rejected it. \<open>FToolInvocation\<close> keeps the cause it wraps, from which the code
  derives the message.
\<close>

section \<open>Elicitation\<close>

definition pick_handler :: "'x exec_env \<Rightarrow> 'x handler option \<Rightarrow> 'x handler" where
  "pick_handler env options = (case options of Some h \<Rightarrow> h | None \<Rightarrow> x_default_handler env)"

definition accept_all :: "'x handler" where
  "accept_all a args rq = eff_return \<lparr>er_action = Accept, er_content = JUndef\<rparr>"

fun elicit_text :: "elicit_action \<Rightarrow> string" where
  "elicit_text Accept = ''accept''"
| "elicit_text Decline = ''decline''"
| "elicit_text Cancel = ''cancel''"

definition build_elicit :: "string \<Rightarrow> jsval \<Rightarrow> 'x handler \<Rightarrow> 'x elicit" where
  "build_elicit address args handler rq =
     eff_bind (handler address args rq) (\<lambda>response.
       if er_action response \<noteq> Accept then eff_fail (FElicitationDeclined address (elicit_text (er_action response)))
       else eff_return response)"

text \<open>\<open>JSON.stringify(v, null, 2)\<close>, nested by two spaces a level.\<close>

definition newline :: "nat \<Rightarrow> string" where
  "newline n = CHR 0x0A # replicate n (CHR '' '')"

fun json_pretty :: "nat \<Rightarrow> jsval \<Rightarrow> string option" where
  "json_pretty n (JArr vs) =
     Some (if vs = [] then ''[]''
           else ''['' @ newline (n + 2)
                @ js_join ('','' @ newline (n + 2))
                    (map (\<lambda>v. case json_pretty (n + 2) v of None \<Rightarrow> ''null'' | Some t \<Rightarrow> t) vs)
                @ newline n @ '']'')"
| "json_pretty n (JObj ps) =
     (let parts = concat (map (\<lambda>(k, v). case json_pretty (n + 2) v of None \<Rightarrow> []
                     | Some t \<Rightarrow> [json_quote k @ '': '' @ t]) ps) in
      Some (if parts = [] then ''{}''
            else ''{'' @ newline (n + 2) @ js_join ('','' @ newline (n + 2)) parts @ newline n @ ''}''))"
| "json_pretty n v = json_stringify v"

definition MAX_APPROVAL_ARGUMENT_PREVIEW_CHARS :: nat where
  "MAX_APPROVAL_ARGUMENT_PREVIEW_CHARS = 4000"

definition approval_argument_preview :: "jsval \<Rightarrow> string" where
  "approval_argument_preview args =
     (let t = (case json_pretty 0 (if nullish args then JObj [] else args) of Some t \<Rightarrow> t | None \<Rightarrow> ''null'') in
      if length t > MAX_APPROVAL_ARGUMENT_PREVIEW_CHARS
      then take MAX_APPROVAL_ARGUMENT_PREVIEW_CHARS t @ ''...'' else t)"

section \<open>Approval\<close>

definition approval_required :: "jsval \<Rightarrow> effective_policy \<Rightarrow> bool" where
  "approval_required annotations policy \<longleftrightarrow>
     ep_action policy \<noteq> Approve \<and>
     (ep_action policy = RequireApproval \<or> requires_approval annotations = Some True)"

definition approval_message :: "jsval \<Rightarrow> string \<Rightarrow> effective_policy \<Rightarrow> string" where
  "approval_message annotations address policy =
     (let plain = (case ep_pattern policy of
            Some p \<Rightarrow> if ep_action policy = RequireApproval \<and> p \<noteq> []
                      then ''Approve '' @ address @ ''? (matched policy: '' @ p @ '')''
                      else ''Approve '' @ address @ ''?''
          | None \<Rightarrow> ''Approve '' @ address @ ''?'') in
      case obj_get annotations ''approvalDescription'' of
        JStr d \<Rightarrow> if d \<noteq> [] then d else plain
      | _ \<Rightarrow> plain)"

definition approval_request :: "jsval \<Rightarrow> string \<Rightarrow> jsval \<Rightarrow> effective_policy \<Rightarrow> jsval" where
  "approval_request annotations address args policy =
     JObj [(''_tag'', JStr ''FormElicitation''),
       (''message'', JStr (approval_message annotations address policy @ newline 0 @ newline 0 @ ''Arguments:''
          @ newline 0 @ approval_argument_preview args)),
       (''requestedSchema'', JObj [(''type'', JStr ''object''), (''properties'', JObj [])])]"

definition enforce_approval ::
  "jsval \<Rightarrow> string \<Rightarrow> jsval \<Rightarrow> effective_policy \<Rightarrow> 'x handler \<Rightarrow> ('x, unit) eff" where
  "enforce_approval annotations address args policy handler =
     (if \<not> approval_required annotations policy then eff_return ()
      else eff_bind (handler address args (approval_request annotations address args policy)) (\<lambda>response.
        if er_action response \<noteq> Accept then eff_fail (FElicitationDeclined address (elicit_text (er_action response)))
        else eff_return ()))"

section \<open>Execution\<close>

definition TOOL_SUGGESTION_LIMIT :: nat where
  "TOOL_SUGGESTION_LIMIT = 5"

definition tool_suggestions :: "'x exec_env \<Rightarrow> row list \<Rightarrow> string list" where
  "tool_suggestions env rows = map (\<lambda>r. tv_address (row_to_tool (x_json env) r JUndef)) rows"

definition suggestion_query :: "cond_or_bool \<Rightarrow> find_input" where
  "suggestion_query c =
     (find_where c)\<lparr>fi_order_by := [(''name'', True)], fi_limit := Some TOOL_SUGGESTION_LIMIT,
                    fi_select := Some TOOL_INVOCATION_COLUMNS\<rparr>"

definition search_tool_rows_for_connection :: "'x exec_env \<Rightarrow> tool_ref \<Rightarrow> ('x, row list) eff" where
  "search_tool_rows_for_connection env p =
     core_find_many env tool_table (suggestion_query (builder_and [tools_where env (ref_conn p),
       builder_or [cmp_val ''name'' OpContains (JStr (tr_tool p)), cmp_val ''description'' OpContains (JStr (tr_tool p))]]))"

definition find_tool_rows_for_connection :: "'x exec_env \<Rightarrow> tool_ref \<Rightarrow> ('x, row list) eff" where
  "find_tool_rows_for_connection env p =
     core_find_many env tool_table (suggestion_query (tools_where env (ref_conn p)))"

definition wrap_invocation_error :: "string \<Rightarrow> ('x, 'a) eff \<Rightarrow> ('x, 'a) eff" where
  "wrap_invocation_error address m = eff_map_error (FToolInvocation address) m"

definition blocked :: "string \<Rightarrow> effective_policy \<Rightarrow> failure" where
  "blocked address policy = FToolBlocked address (case ep_pattern policy of Some p \<Rightarrow> p | None \<Rightarrow> ''*'')"

definition execute_static ::
  "'x exec_env \<Rightarrow> string \<Rightarrow> jsval \<Rightarrow> 'x handler \<Rightarrow> 'x static_tool \<Rightarrow> ('x, jsval) eff" where
  "execute_static env address args handler st =
     eff_bind (list_active_policy_rule_set env) (\<lambda>rules.
     eff_bind (resolve_policy_from_rule_set address rules (requires_approval (st_annotations st))) (\<lambda>policy.
       if ep_action policy = Block then eff_fail (blocked address policy)
       else eff_bind (enforce_approval (st_annotations st) address args policy handler) (\<lambda>_.
         wrap_invocation_error address (st_handler st args (build_elicit address args handler)))))"

definition tool_not_found :: "'x exec_env \<Rightarrow> string \<Rightarrow> tool_ref \<Rightarrow> ('x, jsval) eff" where
  "tool_not_found env address p =
     eff_bind (search_tool_rows_for_connection env p) (\<lambda>matches.
     eff_bind (if matches \<noteq> [] then eff_return matches else find_tool_rows_for_connection env p) (\<lambda>rows.
       eff_fail (FToolNotFound address (Some (tool_suggestions env rows)))))"

definition invocation_credential :: "'x exec_env \<Rightarrow> tool_ref \<Rightarrow> row \<Rightarrow> row option \<Rightarrow> cred_values \<Rightarrow> credential" where
  "invocation_credential env p conn irow vs =
     \<lparr>cr_owner = tr_owner p, cr_integration = tr_integration p, cr_connection = tr_connection p,
      cr_template = row_str conn ''template'', cr_value = primary_value vs, cr_values = vs,
      cr_config = (case irow of Some ir \<Rightarrow> decode_json_column (x_json env) (ir ''config'') | None \<Rightarrow> JUndef),
      cr_granted_scopes = granted_scopes_from_row conn\<rparr>"

definition ignore_resolution_failure :: "('x, 'a option) eff \<Rightarrow> ('x, 'a option) eff" where
  "ignore_resolution_failure m =
     eff_catch m (\<lambda>e. case e of FCredentialResolution _ _ _ _ \<Rightarrow> eff_return None | _ \<Rightarrow> eff_fail e)"

text \<open>The call, and at most one more with a fresh token after a 401.\<close>

definition invoke_with_retry ::
  "'x exec_env \<Rightarrow> row \<Rightarrow> (cred_values \<Rightarrow> ('x, jsval) eff) \<Rightarrow> cred_values \<Rightarrow> ('x, jsval) eff" where
  "invoke_with_retry env conn invoke vs =
     eff_bind (invoke vs) (\<lambda>first.
       if \<not> is_unauthorized_tool_failure (x_is_tool_result env) first then eff_return first
       else eff_bind (ignore_resolution_failure (force_refresh_connection_values env conn)) (\<lambda>refreshed.
         case refreshed of None \<Rightarrow> eff_return first | Some vs' \<Rightarrow> invoke vs'))"

definition resolved_annotations ::
  "string \<Rightarrow> 'x plugin \<Rightarrow> tool_ref \<Rightarrow> row \<Rightarrow> jsval \<Rightarrow> effective_policy \<Rightarrow> ('x, jsval) eff" where
  "resolved_annotations address pl p r annotations policy =
     (case pl_resolve_annotations pl of
        None \<Rightarrow> eff_return annotations
      | Some hook \<Rightarrow>
          if ep_action policy = Approve then eff_return annotations
          else eff_map (\<lambda>m. case map_of m (tr_tool p) of None \<Rightarrow> annotations | Some a \<Rightarrow> coalesce a annotations)
                 (wrap_invocation_error address (hook (tr_integration p) (tr_connection p) [r])))"

definition execute_approved ::
  "'x exec_env \<Rightarrow> string \<Rightarrow> jsval \<Rightarrow> 'x handler \<Rightarrow> tool_ref \<Rightarrow> row \<Rightarrow> row \<Rightarrow>
   (row \<Rightarrow> credential \<Rightarrow> jsval \<Rightarrow> 'x elicit \<Rightarrow> ('x, jsval) eff) \<Rightarrow> ('x, jsval) eff" where
  "execute_approved env address args handler p r conn invoke_tool =
     eff_bind (resolve_connection_values env conn) (\<lambda>vs.
     eff_bind (find_integration_row env (tr_integration p)) (\<lambda>irow.
       invoke_with_retry env conn
         (\<lambda>vs. wrap_invocation_error address
            (invoke_tool r (invocation_credential env p conn irow vs) args (build_elicit address args handler))) vs))"

text \<open>With the policy, the plugin and its hook at hand: the connection, the approval, the call.\<close>

definition execute_loaded ::
  "'x exec_env \<Rightarrow> string \<Rightarrow> jsval \<Rightarrow> 'x handler \<Rightarrow> tool_ref \<Rightarrow> row \<Rightarrow> jsval \<Rightarrow> effective_policy \<Rightarrow> 'x plugin \<Rightarrow>
   (row \<Rightarrow> credential \<Rightarrow> jsval \<Rightarrow> 'x elicit \<Rightarrow> ('x, jsval) eff) \<Rightarrow> ('x, jsval) eff" where
  "execute_loaded env address args handler p r annotations policy pl invoke_tool =
     eff_bind (find_connection_row env (ref_conn p)) (\<lambda>conn_opt.
       case conn_opt of
         None \<Rightarrow> eff_fail (not_found (ref_conn p))
       | Some conn \<Rightarrow>
           eff_bind (resolved_annotations address pl p r annotations policy) (\<lambda>annotations'.
           eff_bind (case pl_validate_args pl of
               None \<Rightarrow> eff_return ()
             | Some validate \<Rightarrow>
                 if approval_required annotations' policy then wrap_invocation_error address (validate r args)
                 else eff_return ()) (\<lambda>_.
           eff_bind (enforce_approval annotations' address args policy handler) (\<lambda>_.
             execute_approved env address args handler p r conn invoke_tool))))"

definition execute_stored ::
  "'x exec_env \<Rightarrow> string \<Rightarrow> jsval \<Rightarrow> 'x handler \<Rightarrow> tool_ref \<Rightarrow> row \<Rightarrow> ('x, jsval) eff" where
  "execute_stored env address args handler p r =
     eff_bind (list_active_policy_rule_set env) (\<lambda>rules.
     let annotations = decode_json_column (x_json env) (r ''annotations'') in
     eff_bind (resolve_policy_from_rule_set (normalized_policy_id (row_to_tool (x_json env) r JUndef)) rules
                 (requires_approval annotations)) (\<lambda>policy.
       if ep_action policy = Block then eff_fail (blocked address policy)
       else case find_plugin env (row_str r ''plugin_id'') of
         None \<Rightarrow> eff_fail (FPluginNotLoaded address (row_str r ''plugin_id''))
       | Some pl \<Rightarrow>
           (case pl_invoke_tool pl of
              None \<Rightarrow> eff_fail (FNoHandler address (row_str r ''plugin_id''))
            | Some invoke_tool \<Rightarrow>
                execute_loaded env address args handler p r annotations policy pl invoke_tool)))"

definition execute :: "'x exec_env \<Rightarrow> string \<Rightarrow> jsval \<Rightarrow> 'x handler option \<Rightarrow> ('x, jsval) eff" where
  "execute env address args options =
     (let handler = pick_handler env options in
      case map_of (x_statics env) address of
        Some st \<Rightarrow> execute_static env address args handler st
      | None \<Rightarrow>
          (case parse_tool_address address of
             None \<Rightarrow> eff_fail (FToolNotFound address None)
           | Some p \<Rightarrow>
               eff_bind (core_find_first env tool_table
                   ((find_where (tool_where env p))\<lparr>fi_select := Some TOOL_INVOCATION_COLUMNS\<rparr>)) (\<lambda>row.
                 case row of
                   None \<Rightarrow> tool_not_found env address p
                 | Some r \<Rightarrow> execute_stored env address args handler p r)))"

section \<open>Confinement\<close>

lemma confined_default_handler: "sound_env env \<Longrightarrow> sound_handler (e_ctx env) (x_default_handler env)"
  by (simp add: sound_env_def)

lemma confined_pick: "sound_env env \<Longrightarrow> (\<And>h. options = Some h \<Longrightarrow> sound_handler (e_ctx env) h) \<Longrightarrow>
   sound_handler (e_ctx env) (pick_handler env options)"
  by (cases options) (simp_all add: pick_handler_def confined_default_handler)

lemma confined_handler: "sound_handler c h \<Longrightarrow> confined c (h a args rq)"
  by (simp add: sound_handler_def)

lemma confined_build_elicit: "sound_handler c h \<Longrightarrow> confined_elicit c (build_elicit a args h)"
  unfolding confined_elicit_def build_elicit_def
  by (intro allI confined_intros) (auto intro: confined_handler)

lemma confined_enforce_approval: "sound_handler c h \<Longrightarrow> confined c (enforce_approval an a args p h)"
  unfolding enforce_approval_def by (intro confined_intros) (auto intro: confined_handler)

lemma confined_wrap [confined_intros]: "confined c m \<Longrightarrow> confined c (wrap_invocation_error a m)"
  unfolding wrap_invocation_error_def by (intro confined_intros)

lemma confined_static_handler:
  "sound_env env \<Longrightarrow> map_of (x_statics env) a = Some st \<Longrightarrow> confined_elicit (e_ctx env) el \<Longrightarrow>
   confined (e_ctx env) (st_handler st args el)"
  unfolding sound_env_def by (drule map_of_SomeD) fastforce

lemma confined_resolve_rules: "sound_rules c rules \<Longrightarrow> confined c (resolve_policy_from_rule_set t rules d)"
  by (cases rules) (auto simp: sound_rules_def sound_policy_provider_def intro!: confined_intros split: option.splits)

lemma confined_execute_static:
  "sound_env env \<Longrightarrow> sound_handler (e_ctx env) h \<Longrightarrow> map_of (x_statics env) a = Some st \<Longrightarrow>
   confined (e_ctx env) (execute_static env a args h st)"
  unfolding execute_static_def
  by (intro confined_bind_on [OF confined_rule_set] confined_bind [OF confined_resolve_rules] confined_if confined_fail
      confined_bind [OF confined_enforce_approval] confined_wrap confined_static_handler confined_build_elicit
      rule_set_sound)

lemma confined_not_found [confined_intros]: "confined (e_ctx env) (tool_not_found env a p)"
  unfolding tool_not_found_def search_tool_rows_for_connection_def find_tool_rows_for_connection_def
  by (intro confined_intros) simp_all

lemma confined_invoke_with_retry:
  "sound_env env \<Longrightarrow> (\<And>v. confined (e_ctx env) (invoke v)) \<Longrightarrow>
   confined (e_ctx env) (invoke_with_retry env conn invoke vs)"
  unfolding invoke_with_retry_def ignore_resolution_failure_def
  by (intro confined_intros) (auto intro!: confined_intros split: failure.splits)

lemma confined_hooks:
  assumes "sound_env env" "find_plugin env p = Some pl"
  shows "pl_invoke_tool pl = Some f \<Longrightarrow> confined_elicit (e_ctx env) el \<Longrightarrow> confined (e_ctx env) (f r cr args el)"
    "pl_validate_args pl = Some g \<Longrightarrow> confined (e_ctx env) (g r args)"
    "pl_resolve_annotations pl = Some k \<Longrightarrow> confined (e_ctx env) (k i n rs)"
  using sound_find_plugin [OF assms] by (simp_all add: sound_plugin_def)

lemma confined_resolved_annotations:
  "sound_env env \<Longrightarrow> find_plugin env pid = Some pl \<Longrightarrow>
   confined (e_ctx env) (resolved_annotations a pl p r an policy)"
  unfolding resolved_annotations_def by (intro confined_intros) (auto intro: confined_hooks)

lemma confined_execute_approved:
  "sound_env env \<Longrightarrow> sound_handler (e_ctx env) h \<Longrightarrow> find_plugin env pid = Some pl \<Longrightarrow>
   pl_invoke_tool pl = Some f \<Longrightarrow> confined (e_ctx env) (execute_approved env a args h p r conn f)"
  unfolding execute_approved_def
  by (intro confined_intros confined_invoke_with_retry) (auto intro!: confined_hooks confined_build_elicit)

lemma confined_execute_loaded:
  assumes "sound_env env" "sound_handler (e_ctx env) h" "find_plugin env pid = Some pl" "pl_invoke_tool pl = Some f"
  shows "confined (e_ctx env) (execute_loaded env a args h p r an policy pl f)"
  unfolding execute_loaded_def
  by (intro confined_if confined_fail confined_option confined_bind [OF confined_find_connection_row]
      confined_bind [OF confined_resolved_annotations] confined_bind [OF confined_option] confined_return
      confined_bind [OF confined_enforce_approval] confined_wrap assms confined_execute_approved)
    (auto intro: assms confined_hooks)

lemma confined_execute_stored:
  assumes "sound_env env" "sound_handler (e_ctx env) h"
  shows "confined (e_ctx env) (execute_stored env a args h p r)"
  unfolding execute_stored_def Let_def
  by (intro confined_bind_on [OF confined_rule_set] confined_bind [OF confined_resolve_rules] confined_if confined_fail
      confined_option confined_execute_loaded rule_set_sound assms)

lemma confined_execute [confined_intros]:
  assumes "sound_env env" "\<And>h. options = Some h \<Longrightarrow> sound_handler (e_ctx env) h"
  shows "confined (e_ctx env) (execute env a args options)"
  unfolding execute_def Let_def
  by (intro confined_option confined_execute_static confined_execute_stored confined_pick confined_fail
      confined_bind [OF confined_find_first] confined_not_found assms core_tables)

end
