(* ===== verification/StoreLaws.thy ===== *)
theory StoreLaws
  imports Effects
begin

text \<open>
  What the storage operations compute, exactly, where the policies let them through: a read of
  a table is a filter of its visible rows, an update rewrites the visible rows that match, a
  delete drops them. Two interfaces extend that of a guarded table: one for tables whose reads
  never fail, one for contexts whose writes are allowed.
\<close>

definition where_holds :: "cond_or_bool option \<Rightarrow> row \<Rightarrow> bool" where
  "where_holds w r = (case w of None \<Rightarrow> True | Some q \<Rightarrow> holds_cb r q)"

definition rows_of :: "find_input \<Rightarrow> row list \<Rightarrow> row list" where
  "rows_of fi rs =
     (let off = (case fi_offset fi of None \<Rightarrow> 0 | Some n \<Rightarrow> n) in
      map (select_row (fi_select fi))
        (js_slice off (map_option (\<lambda>l. off + l) (fi_limit fi)) (order_rows (fi_order_by fi) rs)))"

lemma order_rows_empty [simp]: "order_rows ob [] = []"
  using set_order_rows [of ob "[]"] by (metis set_empty)

lemma rows_of_empty [simp]: "rows_of fi [] = []"
  by (auto simp: rows_of_def js_slice_def Let_def split: option.splits)

lemma rows_of_where [simp]: "rows_of (find_where q) rs = rs"
  by (simp add: rows_of_def find_where_def find_all_def js_slice_def)

lemma rows_of_all [simp]: "rows_of find_all rs = rs"
  by (simp add: rows_of_def find_all_def js_slice_def)

lemma compile_where_cases:
  obtains (none) "compile_where w = None" "\<And>r. \<not> where_holds w r"
  | (some) c where "compile_where w = Some c" "\<And>r. matches_condition r c = where_holds w r"
proof (cases w)
  case None
  then show thesis by (intro some [of None]) (simp_all add: compile_where_def where_holds_def)
next
  case (Some q)
  then show thesis
    by (cases q rule: cond_or_bool.exhaust; cases "q = CB True"; cases "q = CB False")
      (auto simp: compile_where_def where_holds_def intro: none some)
qed

lemma filter_none: "(\<And>r. \<not> P r) \<Longrightarrow> filter P xs = []"
  by (induction xs) auto

locale readable_table = guarded_table +
  assumes read_ok: "\<exists>cw. apply_read_policies tbl w ctx = Inr cw"
begin

lemma find_many_exact:
  "orm_find_many tbl ctx fi d =
     Inr (rows_of fi (filter (\<lambda>r. where_holds (fi_where fi) r \<and> vis r) (d (tbl_name tbl))))"
proof (cases rule: compile_where_cases [of "fi_where fi"])
  case none
  then have "orm_find_many tbl ctx fi d = Inr []" by (simp add: orm_find_many_def build_find_options_def)
  with none(2) show ?thesis by (simp add: filter_none)
next
  case (some c)
    obtain cw where cw: "apply_read_policies tbl c ctx = Inr cw" using read_ok by blast
    have m: "meets cw r \<longleftrightarrow> where_holds (fi_where fi) r \<and> vis r" for r
      using read_law [OF cw, of r] some(2) by simp
    show ?thesis
    proof (cases cw)
      case None
      with m have "filter (\<lambda>r. where_holds (fi_where fi) r \<and> vis r) (d (tbl_name tbl)) = []"
        by (intro filter_none) (metis meets_simps(1))
      with some(1) cw None show ?thesis by (simp add: orm_find_many_def build_find_options_def)
    next
      case (Some x)
      with m have "(\<lambda>r. matches_condition r x) = (\<lambda>r. where_holds (fi_where fi) r \<and> vis r)" by auto
      with some(1) cw Some show ?thesis
        by (simp add: orm_find_many_def build_find_options_def mem_find_many_def rows_of_def Let_def)
    qed
qed

lemma find_first_as_many:
  "orm_find_first tbl ctx fi d =
     (case orm_find_many tbl ctx (fi\<lparr>fi_limit := Some 1\<rparr>) d of
        Inl e \<Rightarrow> Inl e | Inr [] \<Rightarrow> Inr None | Inr (r # rs) \<Rightarrow> Inr (Some r))"
  by (auto simp: orm_find_first_def orm_find_many_def build_find_options_def mem_find_first_def
      err_bind_def split: option.splits sum.splits list.splits)

lemma find_first_exact:
  "orm_find_first tbl ctx (find_where q) d = Inr (find (\<lambda>r. holds_cb r q \<and> vis r) (d (tbl_name tbl)))"
proof -
  let ?P = "\<lambda>r. holds_cb r q \<and> vis r"
  have "(case take (Suc 0) (filter P xs) of [] \<Rightarrow> Inr None | r # rs \<Rightarrow> Inr (Some r)) = Inr (find P xs)" for P and xs :: "row list"
    by (induction xs) auto
  from this [of ?P "d (tbl_name tbl)"] show ?thesis
    unfolding find_first_as_many find_many_exact
    by (simp add: rows_of_def find_where_def find_all_def js_slice_def where_holds_def)
qed

end

locale open_table = readable_table +
  fixes keeps :: "record_vals \<Rightarrow> bool"
  assumes update_ok: "keeps ps \<Longrightarrow> \<exists>cw. apply_update_policies tbl w ps None ctx = Inr cw"
    and delete_ok: "\<exists>cw. apply_delete_policies tbl w ctx = Inr cw"
begin

lemma update_exact:
  assumes "keeps ps"
  shows "orm_update_many tbl ctx w ps d =
    (Inr (), d(tbl_name tbl := map (\<lambda>r. if where_holds w r \<and> vis r then obj_assign r ps else r) (d (tbl_name tbl))))"
proof (cases rule: compile_where_cases [of w])
  case (some c)
    obtain cw where cw: "apply_update_policies tbl c ps None ctx = Inr cw" using update_ok [OF assms] by blast
    have m: "meets cw r \<longleftrightarrow> where_holds w r \<and> vis r" for r
      using update_law [OF cw, of r] some(2) by simp
    show ?thesis
    proof (cases cw)
      case None
      with m have "(if where_holds w r \<and> vis r then obj_assign r ps else r) = r" for r by auto
      with some(1) cw None show ?thesis by (simp add: orm_update_many_def)
    next
      case (Some x)
      with m have "matches_condition r x \<longleftrightarrow> where_holds w r \<and> vis r" for r by simp
      with some(1) cw Some show ?thesis by (simp add: orm_update_many_def mem_update_many_def)
    qed
qed (simp add: orm_update_many_def)

lemma delete_exact:
  "orm_delete_many tbl ctx w d =
    (Inr (), d(tbl_name tbl := filter (\<lambda>r. \<not> (where_holds w r \<and> vis r)) (d (tbl_name tbl))))"
proof (cases rule: compile_where_cases [of w])
  case (some c)
    obtain cw where cw: "apply_delete_policies tbl c ctx = Inr cw" using delete_ok by blast
    have m: "meets cw r \<longleftrightarrow> where_holds w r \<and> vis r" for r
      using delete_law [OF cw, of r] some(2) by simp
    with some(1) cw show ?thesis
      by (cases cw) (auto simp: orm_delete_many_def mem_delete_many_def meets_def [symmetric] fun_eq_iff)
qed (simp add: orm_delete_many_def)

end

section \<open>The tables of the executor\<close>

definition bound_ctx :: "string \<Rightarrow> string option \<Rightarrow> owner_ctx" where
  "bound_ctx tn s = \<lparr>oc_tenant = tn, oc_subject = s, oc_reach = Bound, oc_writes = Allowed\<rparr>"

lemma bound_ctx_simps [simp]:
  "oc_tenant (bound_ctx tn s) = tn" "oc_subject (bound_ctx tn s) = s" "\<not> read_only (bound_ctx tn s)"
  by (simp_all add: bound_ctx_def read_only_def)

lemma writable_ctx: "\<not> read_only c \<Longrightarrow> c = bound_ctx (oc_tenant c) (oc_subject c)"
  by (cases c; cases "oc_reach c"; cases "oc_writes c") (auto simp: bound_ctx_def read_only_def)

lemma apply_policies_one:
  "ask p = Inr v \<Longrightarrow> \<exists>cw. apply_policies ask [p] w = Inr cw"
  by (auto split: option.splits)

interpretation owned_read: readable_table "owned_executor_table n cols" c "visible_owned c" for n cols c
  by unfold_locales (auto simp: apply_read_policies_def owned_executor_table_def split: option.splits)

interpretation owned_open: open_table "owned_executor_table n cols" "bound_ctx tn s" "visible_owned (bound_ctx tn s)" partition_free
  for n cols tn s
proof unfold_locales
  fix ps w
  assume "partition_free ps"
  then have "prop_of ps ''tenant'' = JUndef" "prop_of ps ''owner'' = JUndef" by (induction ps) auto
  then show "\<exists>cw. apply_update_policies (owned_executor_table n cols) w ps None (bound_ctx tn s) = Inr cw"
    by (auto simp: apply_update_policies_def owned_executor_table_def assert_owner_patch_def
        assert_reach_read_only_def bound_ctx_def split: option.splits)
next
  fix w
  show "\<exists>cw. apply_delete_policies (owned_executor_table n cols) w (bound_ctx tn s) = Inr cw"
    by (auto simp: apply_delete_policies_def owned_executor_table_def assert_reach_read_only_def bound_ctx_def
        split: option.splits)
qed

interpretation shared_read: readable_table "tenant_executor_table n cols" c "visible_tenant c" for n cols c
  by unfold_locales (auto simp: apply_read_policies_def tenant_executor_table_def split: option.splits)

interpretation shared_open: open_table "tenant_executor_table n cols" "bound_ctx tn s" "visible_tenant (bound_ctx tn s)" "\<lambda>_. True"
  for n cols tn s
proof unfold_locales
  fix ps w
  show "\<exists>cw. apply_update_policies (tenant_executor_table n cols) w ps None (bound_ctx tn s) = Inr cw"
    by (auto simp: apply_update_policies_def tenant_executor_table_def assert_reach_read_only_def bound_ctx_def
        split: option.splits)
next
  fix w
  show "\<exists>cw. apply_delete_policies (tenant_executor_table n cols) w (bound_ctx tn s) = Inr cw"
    by (auto simp: apply_delete_policies_def tenant_executor_table_def assert_reach_read_only_def bound_ctx_def
        split: option.splits)
qed

end
