(* ===== verification/ServiceLaws.thy ===== *)
theory ServiceLaws
  imports Execute StoreLaws
begin

text \<open>
  What the operations of the executor promise, beyond their confinement: a failed removal
  leaves no trace and a successful one leaves nothing behind that its executor can see, a
  catalogue is kept when the plugin could not list it, a dead grant is not sent again, a
  blocked tool is not run, and a call is retried only where a fresh token can help.
\<close>

section \<open>The stored rows\<close>

definition owned_table :: "owner_ctx table \<Rightarrow> bool" where
  "owned_table tbl \<longleftrightarrow> (\<exists>n cols. tbl = owned_executor_table n cols)"

lemma owned_tables [simp]:
  "owned_table connection_table" "owned_table oauth_client_table" "owned_table oauth_session_table"
  "owned_table tool_table" "owned_table definition_table" "owned_table tool_policy_table"
  "owned_table artifact_table" "owned_table plugin_storage_table"
  unfolding owned_table_def connection_table_def oauth_client_table_def oauth_session_table_def tool_table_def
    definition_table_def tool_policy_table_def artifact_table_def plugin_storage_table_def
  by blast+

text \<open>The rows of a table that a condition selects and the context sees.\<close>

definition selects :: "'b base_env_scheme \<Rightarrow> cond_or_bool \<Rightarrow> row \<Rightarrow> bool" where
  "selects env q r \<longleftrightarrow> holds_cb r q \<and> visible_owned (e_ctx env) r"

lemma owned_find_many:
  "owned_table tbl \<Longrightarrow> core_find_many env tbl (find_where q) w = (Inr (filter (selects env q) (w_db w (tbl_name tbl))), w)"
  by (auto simp: owned_table_def core_find_many_def owned_read.find_many_exact storage_def find_where_def
      where_holds_def selects_def [abs_def])
    (simp add: rows_of_def find_all_def js_slice_def)

lemma owned_find_first:
  "owned_table tbl \<Longrightarrow> core_find_first env tbl (find_where q) w = (Inr (find (selects env q) (w_db w (tbl_name tbl))), w)"
  by (auto simp: owned_table_def core_find_first_def owned_read.find_first_exact storage_def selects_def [abs_def])

lemma owned_update:
  assumes "owned_table tbl" "\<not> read_only (e_ctx env)" "partition_free ps"
  shows "core_update_many env tbl (Some q) ps w =
    (Inr (), w\<lparr>w_db := (w_db w)(tbl_name tbl :=
       map (\<lambda>r. if selects env q r then obj_assign r ps else r) (w_db w (tbl_name tbl)))\<rparr>)"
proof -
  obtain tn s where c: "e_ctx env = bound_ctx tn s" using writable_ctx [OF assms(2)] by blast
  show ?thesis
    using assms(1) owned_open.update_exact [OF assms(3), of _ _ tn s "Some q" "w_db w"]
    by (auto simp: owned_table_def core_update_many_def c storage_def where_holds_def selects_def)
qed

lemma owned_delete:
  assumes "owned_table tbl" "\<not> read_only (e_ctx env)"
  shows "core_delete_many env tbl (Some q) w =
    (Inr (), w\<lparr>w_db := (w_db w)(tbl_name tbl := filter (\<lambda>r. \<not> selects env q r) (w_db w (tbl_name tbl)))\<rparr>)"
proof -
  obtain tn s where c: "e_ctx env = bound_ctx tn s" using writable_ctx [OF assms(2)] by blast
  show ?thesis
    using assms(1) owned_open.delete_exact [of _ _ tn s "Some q" "w_db w"]
    by (auto simp: owned_table_def core_delete_many_def c storage_def where_holds_def selects_def)
qed

lemma find_connection_row_exact:
  "find_connection_row env ref w = (Inr (find (selects env (connection_where env ref)) (w_db w ''connection'')), w)"
  by (simp add: find_connection_row_def owned_find_first)

section \<open>Transactions\<close>

lemma eff_transaction_Inl:
  "\<not> w_tx w \<Longrightarrow> eff_transaction m w = (Inl e, w') \<Longrightarrow> w_db w' = w_db w"
  by (auto simp: eff_transaction_def split: prod.splits sum.splits)

lemma eff_transaction_Inr:
  "\<not> w_tx w \<Longrightarrow> eff_transaction m w = (Inr a, w') \<Longrightarrow>
   \<exists>v. m (w\<lparr>w_tx := True, w_hooks := []\<rparr>) = (Inr a, v) \<and>
     w' = v\<lparr>w_tx := False, w_hooks := [], w_delivered := w_delivered v @ w_hooks v\<rparr>"
  by (auto simp: eff_transaction_def split: prod.splits sum.splits)

section \<open>Removing an integration\<close>

lemma find_integration_row_exact:
  "find_integration_row env slug w =
     (Inr (find (\<lambda>r. r ''slug'' = JStr slug \<and> visible_tenant (e_ctx env) r) (w_db w ''integration'')), w)"
proof -
  have "holds_cb r (integration_where slug) \<longleftrightarrow> r ''slug'' = JStr slug" for r
    by (cases "r ''slug''") (simp_all add: integration_where_def cmp_val_def)
  then show ?thesis
    by (simp add: find_integration_row_def core_find_first_def integration_table_def shared_read.find_first_exact
        storage_def)
qed

lemma delete_integration_exact:
  assumes "\<not> read_only (e_ctx env)"
  shows "core_delete_many env integration_table (Some (integration_where slug)) w =
    (Inr (), w\<lparr>w_db := (w_db w)(''integration'' :=
       filter (\<lambda>r. \<not> (r ''slug'' = JStr slug \<and> visible_tenant (e_ctx env) r)) (w_db w ''integration''))\<rparr>)"
proof -
  obtain tn s where c: "e_ctx env = bound_ctx tn s" using writable_ctx [OF assms] by blast
  have "holds_cb r (integration_where slug) \<longleftrightarrow> r ''slug'' = JStr slug" for r
    by (cases "r ''slug''") (simp_all add: integration_where_def cmp_val_def)
  then show ?thesis
    by (simp add: core_delete_many_def integration_table_def c shared_open.delete_exact storage_def where_holds_def)
qed

lemma selects_integration:
  "selects env (cmp_val ''integration'' OpEq (JStr slug)) r \<longleftrightarrow>
   r ''integration'' = JStr slug \<and> visible_owned (e_ctx env) r"
  by (cases "r ''integration''") (simp_all add: selects_def cmp_val_def)

lemma find_filtered_None: "find P (filter (\<lambda>x. \<not> P x) xs) = None"
  by (induction xs) auto

lemma find_filter_keep: "(\<And>x. P x \<Longrightarrow> Q x) \<Longrightarrow> find P (filter Q xs) = find P xs"
  by (induction xs) auto

text \<open>The part of the removal that runs after the plugin's hook.\<close>

definition removal :: "'x exec_env \<Rightarrow> string \<Rightarrow> db \<Rightarrow> db" where
  "removal env slug d =
     (\<lambda>t. if t \<in> {''tool'', ''definition'', ''connection''}
          then filter (\<lambda>r. \<not> (r ''integration'' = JStr slug \<and> visible_owned (e_ctx env) r)) (d t)
          else if t = ''integration''
          then filter (\<lambda>r. \<not> (r ''slug'' = JStr slug \<and> visible_tenant (e_ctx env) r)) (d t)
          else d t)"

lemma drop_rows_exact:
  assumes "\<not> read_only (e_ctx env)"
  shows "drop_integration_rows env slug w = (Inr (), w\<lparr>w_db := removal env slug (w_db w)\<rparr>)"
  unfolding drop_integration_rows_def Let_def
  by (simp add: eff_bind_def owned_delete [OF _ assms] delete_integration_exact [OF assms]
      selects_integration removal_def fun_eq_iff)

lemma notify_keeps: "notify_integration_change env ev w = (r, w') \<Longrightarrow> r = Inr () \<and> w_db w' = w_db w"
  by (auto simp: notify_integration_change_def after_commit_def split: if_splits)

lemma remove_tx_Inr:
  assumes "\<not> read_only (e_ctx env)" "remove_integration_tx env slug w = (Inr removed, w')"
  shows "(\<exists>d p. w_db w' = removal env slug d \<and> removed = Some p) \<or>
    (find_integration_row env slug w = (Inr None, w) \<and> w_db w' = w_db w \<and> removed = None)"
  using assms(2) unfolding remove_integration_tx_def
  by (auto simp: eff_bind_Inr find_integration_row_exact drop_rows_exact [OF assms(1)] split: option.splits if_splits)

lemma integrations_remove_Inr:
  assumes "\<not> w_tx w" "\<not> read_only (e_ctx env)" "integrations_remove env slug w = (Inr (), w')"
  shows "(\<exists>d. w_db w' = removal env slug d) \<or> (find_integration_row env slug w = (Inr None, w) \<and> w_db w' = w_db w)"
proof -
  from assms(3) obtain removed v where v: "eff_transaction (remove_integration_tx env slug) w = (Inr removed, v)"
    and after: "(case removed of Some p \<Rightarrow> notify_integration_change env (change_event ''removed'' p slug)
                 | None \<Rightarrow> eff_return ()) v = (Inr (), w')"
    unfolding integrations_remove_def eff_bind_Inr by blast
  have db: "w_db w' = w_db v"
    using after by (cases removed) (simp_all add: notify_keeps [THEN conjunct2])
  from eff_transaction_Inr [OF assms(1) v] obtain u where
    u: "remove_integration_tx env slug (w\<lparr>w_tx := True, w_hooks := []\<rparr>) = (Inr removed, u)" "w_db v = w_db u" by auto
  from remove_tx_Inr [OF assms(2) u(1)] u(2) db show ?thesis
    by (auto simp: find_integration_row_exact)
qed

lemma integrations_remove_Inl:
  assumes "\<not> w_tx w" "integrations_remove env slug w = (Inl e, w')"
  shows "w_db w' = w_db w"
proof -
  from assms(2) have "eff_transaction (remove_integration_tx env slug) w = (Inl e, w')"
    by (auto simp: integrations_remove_def eff_bind_Inl dest: notify_keeps split: option.splits)
  with assms(1) show ?thesis by (rule eff_transaction_Inl)
qed

text \<open>C16: removing an integration is all or nothing: a failed removal leaves the database as it was,
  and after a successful one the executor sees no connection, tool or definition of the
  integration, nor the integration itself; if there was no such integration, nothing changed.\<close>

theorem integrations_remove_atomic:
  assumes "\<not> w_tx w" "\<not> read_only (e_ctx env)"
  shows "case integrations_remove env slug w of
      (Inl e, w') \<Rightarrow> w_db w' = w_db w
    | (Inr _, w') \<Rightarrow>
        find_integration_row env slug w' = (Inr None, w') \<and>
        (find_integration_row env slug w = (Inr None, w) \<and> w_db w' = w_db w \<or>
         (\<forall>t \<in> {''tool'', ''definition'', ''connection''}. \<forall>r \<in> set (w_db w' t).
            visible_owned (e_ctx env) r \<longrightarrow> r ''integration'' \<noteq> JStr slug))"
proof (cases "integrations_remove env slug w")
  case (Pair res w')
  show ?thesis
  proof (cases res)
    case (Inl e)
    with Pair integrations_remove_Inl [OF assms(1)] show ?thesis by simp
  next
    case (Inr u)
    with Pair have "integrations_remove env slug w = (Inr (), w')" by simp
    from integrations_remove_Inr [OF assms this] have
      "find_integration_row env slug w' = (Inr None, w') \<and>
        (find_integration_row env slug w = (Inr None, w) \<and> w_db w' = w_db w \<or>
         (\<forall>t \<in> {''tool'', ''definition'', ''connection''}. \<forall>r \<in> set (w_db w' t).
            visible_owned (e_ctx env) r \<longrightarrow> r ''integration'' \<noteq> JStr slug))"
    proof
      assume "\<exists>d. w_db w' = removal env slug d"
      then show ?thesis by (auto simp: find_integration_row_exact removal_def find_None_all)
    next
      assume "find_integration_row env slug w = (Inr None, w) \<and> w_db w' = w_db w"
      then show ?thesis by (simp add: find_integration_row_exact)
    qed
    with Pair Inr show ?thesis by simp
  qed
qed

section \<open>A connection's catalogue\<close>

text \<open>The rows of a connection as a failed sync leaves them: synced now, and degraded for the reason given.\<close>

definition degraded_rows :: "'x exec_env \<Rightarrow> conn_ref \<Rightarrow> string \<Rightarrow> nat \<Rightarrow> row list \<Rightarrow> row list" where
  "degraded_rows env ref reason i rows =
     map (\<lambda>r. if selects env (connection_where env ref) r
       then r(''tools_synced_at'' := JNum (e_now env i),
              ''last_health'' := JObj [(''status'', JStr ''degraded''), (''checkedAt'', JNum (e_now env (Suc i))),
                                       (''detail'', JStr (''Tool sync failing: '' @ reason))],
              ''updated_at'' := JDate (e_now env (Suc (Suc i))))
       else r) rows"

lemma stamp_health_exact:
  assumes "\<not> read_only (e_ctx env)"
  shows "\<exists>w'. stamp_synced_with_health env ref reason w = (Inr (), w') \<and>
    w_db w' = (w_db w)(''connection'' := degraded_rows env ref reason (w_clock w) (w_db w ''connection''))"
proof -
  have table: "owned_table connection_table" "tbl_name connection_table = ''connection''" by simp_all
  show ?thesis
    by (simp add: stamp_synced_with_health_def eff_bind_def now_def owned_update [OF table(1) assms] table(2)
        degraded_rows_def tool_sync_health_def health_result_def TOOL_SYNC_PREFIX_def cong: if_cong)
qed

text \<open>C17: a catalogue the plugin could only list in part replaces nothing: the tools returned are the stored
  ones, and of the database nothing but the connection's own row changes, which is stamped as synced now and as degraded, with the
  reason the plugin gave, if it gave one. The same holds when a background sync of a remote catalogue comes back empty for a
  connection that has tools.\<close>

theorem incomplete_catalog_kept:
  assumes "\<not> read_only (e_ctx env)"
    and "rt_incomplete res \<and> reason = (case rt_incomplete_reason res of Some x \<Rightarrow> x | None \<Rightarrow> ''plugin returned an incomplete tool catalog'') \<or>
      \<not> rt_incomplete res \<and> mode = Background \<and> pl_remote_catalog pl \<and> rt_tools res = [] \<and>
      filter (selects env (tools_where env ref)) (w_db w ''tool'') \<noteq> [] \<and>
      reason = ''background tool sync produced an authoritative empty catalog for a connection with existing tools''"
  shows "\<exists>w'. store_catalog env keys irow ref existing mode pl res w =
      (Inr (kept_tools env (filter (selects env (tools_where env ref)) (w_db w ''tool''))), w') \<and>
    w_db w' = (w_db w)(''connection'' := degraded_rows env ref reason (w_clock w) (w_db w ''connection''))"
proof -
  obtain w' where stamp: "stamp_synced_with_health env ref reason w = (Inr (), w')"
    "w_db w' = (w_db w)(''connection'' := degraded_rows env ref reason (w_clock w) (w_db w ''connection''))"
    using stamp_health_exact [OF assms(1)] by blast
  show ?thesis
  proof (cases "rt_incomplete res")
    case True
    then have "sync_health_reason res = reason" using assms(2) by (simp add: sync_health_reason_def)
    with True stamp show ?thesis
      by (simp add: store_catalog_def eff_bind_def eff_map_def owned_find_many)
  next
    case False
    with assms(2) stamp show ?thesis
      by (auto simp: store_catalog_def eff_bind_def owned_find_many)
  qed
qed

section \<open>Replacing a catalogue\<close>

definition created_rows ::
  "'b base_env_scheme \<Rightarrow> owner_ctx table \<Rightarrow> nat \<Rightarrow> record_vals list \<Rightarrow> row list" where
  "created_rows env tbl i vs =
     map (\<lambda>(n, v). apply_defaults (e_auto env (i + n)) (tbl_columns tbl) v) (zip [0..<length vs] vs)"

lemma mem_create_many_rows:
  "snd (mem_create_many auto t cols idc vs d) =
   d(t := d t @ map (\<lambda>(n, v). apply_defaults (auto n) cols v) (zip [0..<length vs] vs))"
proof (induction vs arbitrary: auto d)
  case (Cons v vs)
  have upt: "zip [0..<length (v # vs)] (v # vs) = (0, v) # map (\<lambda>(n, v). (Suc n, v)) (zip [0..<length vs] vs)"
    by (simp add: upt_conv_Cons map_Suc_upt [symmetric] zip_map1 del: upt_Suc)
  have "snd (mem_create_many auto t cols idc (v # vs) d) =
      snd (mem_create_many (\<lambda>n. auto (Suc n)) t cols idc vs (d(t := d t @ [apply_defaults (auto 0) cols v])))"
    by (simp add: mem_create_def Let_def case_prod_beta)
  also have "\<dots> = d(t := d t @ apply_defaults (auto 0) cols v #
      map (\<lambda>(n, v). apply_defaults (auto n) cols v) (map (\<lambda>(n, v). (Suc n, v)) (zip [0..<length vs] vs)))"
    unfolding Cons.IH by (simp add: o_def case_prod_unfold)
  finally show ?case unfolding upt by simp
qed simp

lemma owned_keys_writable:
  "owned_keys c ow = Inr keys \<Longrightarrow> \<not> read_only c \<Longrightarrow> assert_owner_writable n (keys @ ps) (Some c) = Inr ()"
  by (cases ow) (auto simp: owned_keys_def assert_owner_writable_Inr prop_of_def split: option.splits)

lemma owned_create_many:
  assumes "owned_table tbl" "\<not> read_only (e_ctx env)" "owned_keys (e_ctx env) ow = Inr keys"
    and "\<And>v. v \<in> set vs \<Longrightarrow> \<exists>ps. v = keys @ ps"
  shows "core_create_many env tbl vs w = (Inr (), w\<lparr>w_db := (w_db w)(tbl_name tbl :=
     w_db w (tbl_name tbl) @ created_rows env tbl (w_ids w) vs), w_ids := w_ids w + length vs\<rparr>)"
proof -
  obtain n cols where tbl: "tbl = owned_executor_table n cols" using assms(1) by (auto simp: owned_table_def)
  have "run_create_policies tbl v (e_ctx env) = Inr ()" if "v \<in> set vs" for v
    using assms(4) [OF that] owned_keys_writable [OF assms(3,2)]
    by (auto simp: run_create_policies_def tbl owned_executor_table_def)
  then have ok: "err_iter (\<lambda>v. run_create_policies tbl v (e_ctx env)) vs = Inr ()" by (simp add: err_iter_Inr)
  show ?thesis
  proof (cases "vs = []")
    case True
    then show ?thesis by (simp add: core_create_many_def created_rows_def)
  next
    case False
    have "snd (mem_create_many auto t cols' idc vs d) = d(t := d t @ map (\<lambda>(n, v). apply_defaults (auto n) cols' v)
        (zip [0..<length vs] vs))" for auto t cols' idc d by (rule mem_create_many_rows)
    with False ok show ?thesis
      by (auto simp: core_create_many_def orm_create_many_def storage_def created_rows_def map_sum_def
          split: prod.splits) (metis snd_conv)
  qed
qed

text \<open>The tool rows written for a connection are selected by the connection's own condition.\<close>

lemma tool_row_selected:
  assumes "owned_keys (e_ctx env) (rf_owner ref) = Inr keys" "\<not> read_only (e_ctx env)"
  shows "selects env (tools_where env ref)
     (apply_defaults a (tbl_columns tool_table) (tool_row_of keys irow ref t td))"
proof -
  let ?v = "tool_row_of keys irow ref t td"
  let ?r = "apply_defaults a (tbl_columns tool_table) ?v"
  have cols: "{''tenant'', ''owner'', ''subject'', ''integration'', ''connection'', ''name''} \<subseteq> col_name ` set (tbl_columns tool_table)"
    by (simp add: tool_table_def owned_executor_table_def key_column_def)
  have vis: "visible_owned (e_ctx env) ?r"
    by (rule visible_owned_created [of "''tool''"])
      (use owned_keys_writable [OF assms] cols in \<open>auto simp: tool_row_of_def\<close>)
  have given: "?r k = prop_of ?v k"
    if "k \<in> {''owner'', ''subject'', ''integration'', ''connection''}" "prop_of ?v k \<noteq> JUndef" for k
    using that cols by (intro apply_defaults_given) auto
  have "prop_of ?v ''integration'' = JStr (rf_integration ref)" "prop_of ?v ''connection'' = JStr (rf_name ref)"
    "prop_of ?v ''owner'' = JStr (owner_text (rf_owner ref))"
    "prop_of ?v ''subject'' = JStr (case rf_owner ref of Org \<Rightarrow> ORG_SUBJECT
       | User \<Rightarrow> (case oc_subject (e_ctx env) of None \<Rightarrow> ''__none__'' | Some s \<Rightarrow> s))"
    using assms(1) by (auto simp: tool_row_of_def owned_keys_def prop_of_def split: owner.splits option.splits)
  with given [of "''integration''"] given [of "''connection''"] given [of "''owner''"] given [of "''subject''"]
  have "?r ''integration'' = JStr (rf_integration ref)" "?r ''connection'' = JStr (rf_name ref)"
    "?r ''owner'' = JStr (owner_text (rf_owner ref))"
    "?r ''subject'' = JStr (case rf_owner ref of Org \<Rightarrow> ORG_SUBJECT
       | User \<Rightarrow> (case oc_subject (e_ctx env) of None \<Rightarrow> ''__none__'' | Some s \<Rightarrow> s))" by simp_all
  with vis show ?thesis by (simp add: selects_def tools_where_def by_owner_def cmp_val_def)
qed

lemma stamp_synced_exact:
  assumes "\<not> read_only (e_ctx env)"
  shows "\<exists>w'. stamp_synced env ref row w = (Inr (), w') \<and> (\<forall>t. t \<noteq> ''connection'' \<longrightarrow> w_db w' t = w_db w t) \<and> w_tx w' = w_tx w"
  by (simp add: stamp_synced_def eff_bind_def now_def owned_update [OF _ assms])

lemma definition_row_keys: "\<exists>ps. definition_row_of keys irow ref t d = keys @ ps"
  by (simp add: definition_row_of_def)

lemma tool_row_keys: "\<exists>ps. tool_row_of keys irow ref t td = keys @ ps"
  by (simp add: tool_row_of_def)

lemma write_catalog_exact:
  assumes "\<not> read_only (e_ctx env)" "owned_keys (e_ctx env) (rf_owner ref) = Inr keys"
  shows "\<exists>v. write_catalog env keys irow ref existing res t u = (Inr (), v) \<and> w_tx v = w_tx u \<and>
    w_db v ''tool'' = filter (\<lambda>r. \<not> selects env (tools_where env ref) r) (w_db u ''tool'') @
      created_rows env tool_table (w_ids u) (map (tool_row_of keys irow ref t) (rt_tools res))"
proof -
  define u1 where "u1 = snd (core_create_many env tool_table (map (tool_row_of keys irow ref t) (rt_tools res))
     (snd (core_delete_many env definition_table (Some (tools_where env ref))
       (snd (core_delete_many env tool_table (Some (tools_where env ref)) u)))))"
  define u2 where "u2 = snd (core_create_many env definition_table (map (definition_row_of keys irow ref t) (rt_definitions res)) u1)"
  have tools: "core_create_many env tool_table (map (tool_row_of keys irow ref t) (rt_tools res)) v =
      (Inr (), v\<lparr>w_db := (w_db v)(''tool'' := w_db v ''tool'' @
        created_rows env tool_table (w_ids v) (map (tool_row_of keys irow ref t) (rt_tools res))),
        w_ids := w_ids v + length (rt_tools res)\<rparr>)" for v
    using owned_create_many [OF _ assms, of tool_table "map (tool_row_of keys irow ref t) (rt_tools res)" v]
      tool_row_keys by fastforce
  have defs: "core_create_many env definition_table (map (definition_row_of keys irow ref t) (rt_definitions res)) v =
      (Inr (), v\<lparr>w_db := (w_db v)(''definition'' := w_db v ''definition'' @
        created_rows env definition_table (w_ids v) (map (definition_row_of keys irow ref t) (rt_definitions res))),
        w_ids := w_ids v + length (rt_definitions res)\<rparr>)" for v
    using owned_create_many [OF _ assms, of definition_table "map (definition_row_of keys irow ref t) (rt_definitions res)" v]
      definition_row_keys by fastforce
  obtain v where v: "stamp_synced env ref existing u2 = (Inr (), v)" "w_tx v = w_tx u2"
    "\<forall>t. t \<noteq> ''connection'' \<longrightarrow> w_db v t = w_db u2 t"
    using stamp_synced_exact [OF assms(1)] by blast
  have "write_catalog env keys irow ref existing res t u = (Inr (), v)"
    unfolding write_catalog_def using v(1)
    by (simp add: eff_bind_def owned_delete [OF _ assms(1)] tools defs u1_def u2_def)
  moreover have "w_tx v = w_tx u" "w_db v ''tool'' = filter (\<lambda>r. \<not> selects env (tools_where env ref) r) (w_db u ''tool'') @
      created_rows env tool_table (w_ids u) (map (tool_row_of keys irow ref t) (rt_tools res))"
    using v(2,3) by (simp_all add: owned_delete [OF _ assms(1)] tools defs u1_def u2_def)
  ultimately show ?thesis by blast
qed

text \<open>A complete listing replaces the catalogue: the tools the connection's own condition selects
  afterwards are exactly one row per listed tool, in the listed order, and every other tool row is
  where it was.\<close>

theorem complete_catalog_replaces:
  assumes "\<not> read_only (e_ctx env)" "owned_keys (e_ctx env) (rf_owner ref) = Inr keys"
  shows "\<exists>tools w'. replace_catalog env keys irow ref existing res w = (Inr tools, w') \<and>
    length tools = length (rt_tools res) \<and>
    filter (selects env (tools_where env ref)) (w_db w' ''tool'') =
      created_rows env tool_table (w_ids w) (map (tool_row_of keys irow ref (e_now env (w_clock w))) (rt_tools res)) \<and>
    filter (\<lambda>r. \<not> selects env (tools_where env ref) r) (w_db w' ''tool'') =
      filter (\<lambda>r. \<not> selects env (tools_where env ref) r) (w_db w ''tool'')"
proof -
  let ?t = "e_now env (w_clock w)" and ?sel = "selects env (tools_where env ref)"
  let ?new = "created_rows env tool_table (w_ids w) (map (tool_row_of keys irow ref ?t) (rt_tools res))"
  let ?u = "if w_tx w then w\<lparr>w_clock := Suc (w_clock w)\<rparr> else w\<lparr>w_clock := Suc (w_clock w), w_tx := True, w_hooks := []\<rparr>"
  obtain v where v: "write_catalog env keys irow ref existing res ?t ?u = (Inr (), v)"
    "w_db v ''tool'' = filter (\<lambda>r. \<not> ?sel r) (w_db w ''tool'') @ ?new"
    using write_catalog_exact [OF assms, of irow existing res ?t ?u] by (auto split: if_splits)
  then obtain w' where "replace_catalog env keys irow ref existing res w =
      (Inr (map (\<lambda>td. row_to_tool (x_json env) (prop_of (tool_row_of keys irow ref ?t td)) (td_annotations td)) (rt_tools res)), w')"
    "w_db w' = w_db v"
    by (cases "w_tx w") (auto simp: replace_catalog_def eff_bind_def now_def eff_transaction_def)
  moreover have "\<forall>r \<in> set ?new. ?sel r"
    using tool_row_selected [OF assms(2,1)] by (auto simp: created_rows_def dest!: set_zip_rightD)
  then have "filter ?sel ?new = ?new" "filter (\<lambda>r. \<not> ?sel r) ?new = []"
    by (auto simp: filter_id_conv filter_empty_conv)
  ultimately show ?thesis using v(2) by simp
qed

lemma complete_catalog_replaces_witness:
  "\<exists>tools w'. replace_catalog small_env org_keys api_row \<lparr>rf_owner = Org, rf_integration = ''api'', rf_name = ''main''\<rparr> None
      \<lparr>rt_tools = [], rt_definitions = [], rt_incomplete = False, rt_incomplete_reason = None\<rparr> (small_world small_db []) = (Inr tools, w') \<and>
    length tools = 0"
  using complete_catalog_replaces [of small_env "\<lparr>rf_owner = Org, rf_integration = ''api'', rf_name = ''main''\<rparr>" org_keys
      api_row None "\<lparr>rt_tools = [], rt_definitions = [], rt_incomplete = False, rt_incomplete_reason = None\<rparr>" "small_world small_db []"]
  by (auto simp: small_env_def small_ctx_def read_only_def owned_keys_def org_keys_def)

lemma incomplete_catalog_kept_witness:
  "\<exists>w'. store_catalog small_env org_keys api_row \<lparr>rf_owner = Org, rf_integration = ''api'', rf_name = ''main''\<rparr> None Explicit small_plugin
      \<lparr>rt_tools = [], rt_definitions = [], rt_incomplete = True, rt_incomplete_reason = Some ''timeout''\<rparr> (small_world small_db []) =
      (Inr (kept_tools small_env (filter (selects small_env (tools_where small_env \<lparr>rf_owner = Org, rf_integration = ''api'', rf_name = ''main''\<rparr>)) [get_row])), w') \<and>
    w_db w' = small_db(''connection'' := degraded_rows small_env \<lparr>rf_owner = Org, rf_integration = ''api'', rf_name = ''main''\<rparr> ''timeout'' 0 (small_db ''connection''))"
  using incomplete_catalog_kept [of small_env "\<lparr>rt_tools = [], rt_definitions = [], rt_incomplete = True, rt_incomplete_reason = Some ''timeout''\<rparr>"
      "''timeout''" Explicit small_plugin "\<lparr>rf_owner = Org, rf_integration = ''api'', rf_name = ''main''\<rparr>" "small_world small_db []" org_keys api_row None]
  by (auto simp: small_env_def small_ctx_def read_only_def small_world_def small_db_def)

lemma integrations_remove_atomic_witness:
  "case integrations_remove small_env ''api'' (small_world small_db []) of
      (Inl e, w') \<Rightarrow> False
    | (Inr _, w') \<Rightarrow> find_integration_row small_env ''api'' w' = (Inr None, w')"
proof -
  have "\<not> w_tx (small_world small_db [])" "\<not> read_only (e_ctx small_env)"
    by (simp_all add: small_world_def small_env_def small_ctx_def read_only_def)
  note spec = integrations_remove_atomic [OF this, of "''api''"]
  have "fst (integrations_remove small_env ''api'' (small_world small_db [])) = Inr ()" by code_simp
  with spec show ?thesis by (cases "integrations_remove small_env ''api'' (small_world small_db [])") simp
qed

section \<open>Dead grants\<close>

lemma prop_of_replaced: "(k, b) \<in> set ps \<Longrightarrow> prop_of (map (\<lambda>(k', u). (k', if k' = k then v else u)) ps) k = v"
proof (induction ps)
  case (Cons a ps)
  then show ?case by (cases a) auto
qed simp

lemma prop_of_appended: "k \<notin> fst ` set ps \<Longrightarrow> prop_of (ps @ [(k, v)]) k = v"
  by (induction ps) auto

lemma json_obj_set: "obj_get (JObj (obj_set ps k v)) k = v"
  by (auto simp: obj_set_def prop_of_appended intro: prop_of_replaced)

lemma reauth_marked: "oauth_reauth_required_at json (JObj (obj_set ps ''oauthReauthRequiredAt'' (JNum t))) = Some t"
  unfolding oauth_reauth_required_at_def Let_def decode_json_column_def
  by (simp add: json_obj_set del: obj_get.simps)

lemma dead_grant_fails:
  "oauth_reauth_required_at (x_json env) (r ''provider_state'') \<noteq> None \<Longrightarrow>
   \<exists>e. (\<exists>m. reauth_required e = Some m) \<and> perform_token_refresh env r pv w = (Inl e, w)"
  by (auto simp: perform_token_refresh_def reauth_def reauth_required_def)

lemma mark_dead_exact:
  assumes "\<not> read_only (e_ctx env)"
  shows "\<exists>w' t ps. mark_refresh_grant_dead env r d w = (Inr (), w') \<and>
    (\<forall>r' \<in> set (w_db w' ''connection''). selects env (connection_where env (row_ref r)) r' \<longrightarrow>
       r' ''provider_state'' = JObj (obj_set ps ''oauthReauthRequiredAt'' (JNum t)))"
proof -
  let ?q = "connection_where env (row_ref r)"
  have keep: "selects env ?q (obj_assign s [(''provider_state'', a), (''last_health'', b), (''updated_at'', c)]) = selects env ?q s"
    for s a b c
    by (simp add: selects_def connection_where_def by_owner_def cmp_val_def visible_owned_def)
  have "r' ''provider_state'' = a"
    if "r' \<in> set (map (\<lambda>s. if selects env ?q s then obj_assign s [(''provider_state'', a), (''last_health'', b), (''updated_at'', c)] else s) rows)"
      "selects env ?q r'" for r' rows a b c
    using that keep by (auto split: if_splits)
  then show ?thesis
    unfolding mark_refresh_grant_dead_def Let_def
    by (simp add: eff_bind_def now_def eff_ignore_def owned_update [OF _ assms] del: obj_assign_Cons) blast
qed

section \<open>What the tool list holds\<close>

text \<open>Some owner's first matching rule, in the order of positions, is to block the tool.\<close>

definition blocked_by :: "policy_row list \<Rightarrow> tool_view \<Rightarrow> bool" where
  "blocked_by ps t \<longleftrightarrow>
     (\<exists>ow r. owner_rule owner_rank_for_row (normalized_policy_id t) ps ow = Some r \<and> pr_action r = Block)"

lemma most_restrictive: "3 \<le> action_restriction_rank a \<longleftrightarrow> a = Block"
  by (cases a) simp_all

lemma stored_policy_blocks:
  "ep_action (stored_policy rows t) = Block \<longleftrightarrow> blocked_by (map policy_row_of rows) t"
proof (cases "resolve_tool_policy (normalized_policy_id t) (map policy_row_of rows) owner_rank_for_row")
  case None
  then have "\<forall>r \<in> set (map policy_row_of rows). \<not> match_pattern (pr_pattern r) (normalized_policy_id t)"
    by (simp add: resolve_None_iff)
  then have "owner_rule owner_rank_for_row (normalized_policy_id t) (map policy_row_of rows) ow = None" for ow
    by (auto simp: owner_rule_def find_None_iff)
  with None show ?thesis
    by (simp add: stored_policy_def resolve_effective_policy_def blocked_by_def lift_plugin_def split: option.split bool.split)
next
  case (Some m)
  from resolve_SomeD [OF Some] obtain ow r where r: "owner_rule owner_rank_for_row (normalized_policy_id t) (map policy_row_of rows) ow = Some r"
    "m = match_of_row r" and le: "\<And>ow r. owner_rule owner_rank_for_row (normalized_policy_id t) (map policy_row_of rows) ow = Some r \<Longrightarrow>
      action_restriction_rank (pr_action r) \<le> action_restriction_rank (pm_action m)" by blast
  have act: "ep_action (stored_policy rows t) = pm_action m"
    using Some by (simp add: stored_policy_def resolve_effective_policy_def lift_user_def)
  have "pm_action m = Block" if "owner_rule owner_rank_for_row (normalized_policy_id t) (map policy_row_of rows) ow' = Some r'" "pr_action r' = Block" for ow' r'
    using le [OF that(1)] that(2) most_restrictive [of "pm_action m"] by simp
  moreover have "pm_action m = pr_action r" by (simp add: r(2) match_of_row_def)
  ultimately show ?thesis unfolding act blocked_by_def using r(1) by auto
qed

text \<open>A stored tool as the list shows it: without its schemas, which the query does not select.\<close>

definition listed_tool :: "'x exec_env \<Rightarrow> row \<Rightarrow> tool_view" where
  "listed_tool env r = row_to_tool (x_json env) (r(''input_schema'' := JUndef, ''output_schema'' := JUndef)) JUndef"

definition asked_for :: "tool_filter \<Rightarrow> tool_view \<Rightarrow> bool" where
  "asked_for f t \<longleftrightarrow>
     (\<forall>i. tf_integration f = Some i \<longrightarrow> tv_integration t = i) \<and> (\<forall>ow. tf_owner f = Some ow \<longrightarrow> tv_owner t = ow) \<and>
     (\<forall>c. tf_connection f = Some c \<longrightarrow> tv_connection t = c) \<and>
     (\<forall>q. tf_query f = Some q \<longrightarrow> (\<exists>a b. map to_lower (tv_name t @ '' '' @ tv_description t) = a @ map to_lower q @ b))"

lemma includes_split: "js_includes s p \<longleftrightarrow> (\<exists>a b. s = a @ p @ b)"
proof (induction s)
  case Nil
  show ?case by (auto simp: js_starts_with_def)
next
  case (Cons c s)
  have "(\<exists>a b. c # s = a @ p @ b) \<longleftrightarrow> (\<exists>b. c # s = p @ b) \<or> (\<exists>a b. s = a @ p @ b)"
    by (metis append_Cons append_Nil list.exhaust list.inject)
  then show ?case using Cons js_starts_with_iff [of "c # s" p] by auto
qed

lemma asked_for: "matches_tool_filter t f \<longleftrightarrow> asked_for f t"
  by (auto simp: matches_tool_filter_def asked_for_def opt_matches_def includes_split split: option.splits)

fun is_text :: "jsval \<Rightarrow> bool" where
  "is_text (JStr s) \<longleftrightarrow> True"
| "is_text _ \<longleftrightarrow> False"

definition text_columns :: "row \<Rightarrow> bool" where
  "text_columns r \<longleftrightarrow> is_text (r ''integration'') \<and> is_text (r ''connection'') \<and> r ''owner'' \<in> {JStr ''org'', JStr ''user''}"

lemma asked_for_selected:
  assumes "text_columns r" "asked_for f (listed_tool env r)"
  shows "holds_cb r (tools_list_where f)"
  using assms
  by (cases "r ''integration''"; cases "r ''connection''")
    (auto simp: tools_list_where_def opt_eq_def cmp_val_def text_columns_def asked_for_def listed_tool_def row_to_tool_def
      row_str_def row_owner_def split: option.splits)

lemma selected_view: "row_to_tool json (select_row (Some TOOL_INVOCATION_COLUMNS) r) JUndef =
    row_to_tool json (r(''input_schema'' := JUndef, ''output_schema'' := JUndef)) JUndef"
  by (simp add: row_to_tool_def select_row_def TOOL_INVOCATION_COLUMNS_def row_owner_def row_str_def)

lemma filter_implied: "(\<And>x. x \<in> set xs \<Longrightarrow> Q (g x) \<Longrightarrow> P x) \<Longrightarrow> filter Q (map g (filter P xs)) = filter Q (map g xs)"
  by (induction xs) auto

text \<open>C18: without a policy provider, the tool list is: the stored tools the caller may see, in the order they are stored,
  then the static ones, each as long as it has the integration, the owner and the connection the filter names, its
  name and description, joined by a space, contain the query whatever the case, and, unless the filter asks for
  blocked tools too, no owner's first matching rule blocks it. No blocked tool is shown, and no other is left out.\<close>

theorem tools_list_exact:
  assumes "x_policy_provider env = None" "tools_list env f w = (Inr ts, w')"
    and "\<forall>r \<in> set (w_db w' ''tool''). text_columns r"
  shows "ts = filter (\<lambda>t. asked_for f t \<and>
        (tf_include_blocked f \<or> \<not> blocked_by (map policy_row_of (filter (visible_owned (e_ctx env)) (w_db w' ''tool_policy''))) t))
      (map (listed_tool env) (filter (visible_owned (e_ctx env)) (w_db w' ''tool'')) @
       map (static_tool_to_tool env \<circ> snd) (x_statics env))"
proof -
  obtain n cols where tool: "tool_table = owned_executor_table n cols" "n = ''tool''" by (simp add: tool_table_def)
  obtain m cols' where pol: "tool_policy_table = owned_executor_table m cols'" "m = ''tool_policy''"
    by (simp add: tool_policy_table_def)
  obtain rows prs where
    rows: "orm_find_many tool_table (e_ctx env) ((find_where (tools_list_where f))\<lparr>fi_select := Some TOOL_INVOCATION_COLUMNS\<rparr>)
      (w_db w') = Inr rows"
    and prs: "orm_find_many tool_policy_table (e_ctx env) find_all (w_db w') = Inr prs"
    and ts: "ts = filter (listed f prs) (map (\<lambda>r. row_to_tool (x_json env) r JUndef) rows @ map (static_tool_to_tool env \<circ> snd) (x_statics env))"
    using tools_list_Inr [OF assms(1,2)] by blast
  have prs': "prs = filter (visible_owned (e_ctx env)) (w_db w' ''tool_policy'')"
    using prs by (simp add: pol owned_read.find_many_exact rows_of_def find_all_def js_slice_def where_holds_def)
  have rows': "rows = map (select_row (Some TOOL_INVOCATION_COLUMNS))
      (filter (\<lambda>r. holds_cb r (tools_list_where f) \<and> visible_owned (e_ctx env) r) (w_db w' ''tool''))"
    using rows by (simp add: tool owned_read.find_many_exact rows_of_def find_where_def find_all_def js_slice_def where_holds_def)
  let ?shown = "\<lambda>t. asked_for f t \<and> (tf_include_blocked f \<or> \<not> blocked_by (map policy_row_of prs) t)"
  have shown: "listed f ps = (\<lambda>t. asked_for f t \<and> (tf_include_blocked f \<or> \<not> blocked_by (map policy_row_of ps) t))" for ps
    by (auto simp: listed_def asked_for stored_policy_blocks fun_eq_iff)
  have "filter ?shown (map (\<lambda>r. row_to_tool (x_json env) r JUndef) rows) =
      filter ?shown (map (listed_tool env) (filter (\<lambda>r. holds_cb r (tools_list_where f)) (filter (visible_owned (e_ctx env)) (w_db w' ''tool''))))"
    by (simp add: rows' listed_tool_def [abs_def] selected_view comp_def conj_commute)
  also have "\<dots> = filter ?shown (map (listed_tool env) (filter (visible_owned (e_ctx env)) (w_db w' ''tool'')))"
    by (rule filter_implied) (use assms(3) asked_for_selected in auto)
  finally show ?thesis unfolding ts by (simp only: shown filter_append prs')
qed

definition get_filter :: tool_filter where
  "get_filter = no_filter\<lparr>tf_integration := Some ''api'', tf_query := Some ''READ''\<rparr>"

lemma filtered_tools_list:
  "fst (tools_list small_env get_filter (small_world small_db [])) = Inr [listed_tool small_env get_row]"
  "list_all text_columns (w_db (snd (tools_list small_env get_filter (small_world small_db []))) ''tool'')"
  by code_simp+

lemma tools_list_exact_witness:
  "[listed_tool small_env get_row] = filter (\<lambda>t. asked_for get_filter t \<and> \<not> blocked_by (map policy_row_of
      (filter (visible_owned (e_ctx small_env)) (w_db (snd (tools_list small_env get_filter (small_world small_db []))) ''tool_policy''))) t)
    (map (listed_tool small_env) (filter (visible_owned (e_ctx small_env)) (w_db (snd (tools_list small_env get_filter (small_world small_db []))) ''tool'')) @
     map (static_tool_to_tool small_env \<circ> snd) (x_statics small_env))"
proof -
  have "x_policy_provider small_env = None" by (simp add: small_env_def)
  from tools_list_exact [OF this run_pair [OF filtered_tools_list(1)]] filtered_tools_list(2) show ?thesis
    by (simp add: list_all_iff get_filter_def no_filter_def)
qed

end
