(* ===== verification/OAuthService.thy ===== *)
theory OAuthService
  imports Connections
begin

text \<open>
  The OAuth service (\<open>sdk/src/oauth-service.ts\<close>): the registered clients, starting a flow and
  completing it, minting the connection. A session row carries a flow from \<open>start\<close> to
  \<open>complete\<close>; secrets and tokens go to the default writable credential provider, rows keep their
  item ids. The bound of thirty seconds over a whole scope discovery is left out (each request
  has its own, a failed request), and so are the telemetry annotations.
\<close>

section \<open>Errors\<close>

definition actionable_error :: "string \<Rightarrow> string \<Rightarrow> string \<Rightarrow> record_vals \<Rightarrow> failure" where
  "actionable_error tag code msg ps =
     tagged_failure tag ([(''__executorUserActionable'', JBool True), (''code'', JStr code), (''userMessage'', JStr msg),
       (''message'', JStr msg)] @ ps)"

definition start_error :: "string \<Rightarrow> failure" where
  "start_error msg = actionable_error ''OAuthStartError'' ''oauth_start_error'' msg []"

definition complete_error :: "string \<Rightarrow> bool \<Rightarrow> failure" where
  "complete_error msg restart =
     actionable_error ''OAuthCompleteError'' ''oauth_complete_error'' msg [(''restartRequired'', JBool restart)]"

definition register_error :: "string \<Rightarrow> failure" where
  "register_error msg = actionable_error ''OAuthRegisterDynamicError'' ''oauth_register_dynamic_error'' msg []"

definition probe_error :: "string \<Rightarrow> failure" where
  "probe_error msg = actionable_error ''OAuthProbeError'' ''oauth_probe_error'' msg []"

definition session_not_found :: "string \<Rightarrow> failure" where
  "session_not_found state = tagged_failure ''OAuthSessionNotFoundError'' [(''state'', JStr state)]"

definition oauth2_error :: "string \<Rightarrow> string option \<Rightarrow> failure" where
  "oauth2_error msg code =
     tagged_failure ''OAuth2Error'' ((''message'', JStr msg) # (case code of None \<Rightarrow> [] | Some c \<Rightarrow> [(''error'', JStr c)]))"

definition failure_code :: "failure \<Rightarrow> string option" where
  "failure_code e = (case e of FForeign v \<Rightarrow> (case obj_get v ''error'' of JStr c \<Rightarrow> Some c | _ \<Rightarrow> None) | _ \<Rightarrow> None)"

definition REDIRECT_URI_REQUIRED_MESSAGE :: string where
  "REDIRECT_URI_REQUIRED_MESSAGE =
     ''OAuth redirect flow requires a configured redirectUri, but none was provided to the executor. Pass `redirectUri` to createExecutor (hosts derive it from the web base URL / request origin as `${webBaseUrl}${mountPrefix}/oauth/callback`).''"

section \<open>Endpoints of a client\<close>

abbreviation web_of :: "'x exec_env \<Rightarrow> 'x oauth_deps" where
  "web_of env \<equiv> x_oauth env"

definition canonical_url_string :: "'x exec_env \<Rightarrow> string \<Rightarrow> ('x, string) eff" where
  "canonical_url_string env v =
     eff_bind (parse_or_throw (web_of env) (js_trim v)) (\<lambda>u. eff_return (url_href (u\<lparr>ur_fragment := None\<rparr>)))"

definition same_url :: "'x exec_env \<Rightarrow> string \<Rightarrow> string \<Rightarrow> ('x, bool) eff" where
  "same_url env a b =
     eff_bind (canonical_url_string env a) (\<lambda>x. eff_bind (canonical_url_string env b) (\<lambda>y. eff_return (x = y)))"

definition oauth_metadata_matches_client :: "'x exec_env \<Rightarrow> string \<Rightarrow> string \<Rightarrow> server_metadata \<Rightarrow> ('x, bool) eff" where
  "oauth_metadata_matches_client env authorization_url token_url md =
     eff_bind (same_url env (sm_authorization_endpoint md) authorization_url) (\<lambda>a.
       if a then same_url env (sm_token_endpoint md) token_url else eff_return False)"

definition is_well_known_oauth_metadata_url :: "'x exec_env \<Rightarrow> string \<Rightarrow> ('x, bool) eff" where
  "is_well_known_oauth_metadata_url env v =
     eff_bind (parse_or_throw (web_of env) (js_trim v)) (\<lambda>u.
       let path = js_lower (ur_pathname u) in
       eff_return (js_includes path ''/.well-known/oauth-authorization-server'' \<or>
         js_includes path ''/.well-known/openid-configuration'' \<or> js_includes path ''/.well-known/oauth-protected-resource''))"

definition invalid_configuration :: "string \<Rightarrow> failure" where
  "invalid_configuration what = FStorage (StorageError (''Invalid OAuth client endpoint configuration: '' @ what))"

definition validate_supported_endpoint :: "'x exec_env \<Rightarrow> string \<Rightarrow> string \<Rightarrow> ('x, unit) eff" where
  "validate_supported_endpoint env v label =
     (if acceptable (web_of env) v then eff_return ()
      else eff_fail (invalid_configuration (label @ '' must use https: or loopback http:.'')))"

record create_client_input =
  cc_owner :: owner
  cc_slug :: string
  cc_authorization_url :: string
  cc_token_url :: string
  cc_grant :: oauth_grant
  cc_client_id :: string
  cc_client_secret :: string
  cc_resource :: "string option"
  cc_origin :: "client_origin option"
  cc_origin_issuer :: "string option"
  cc_origin_redirect_uri :: "string option"

definition validate_client_endpoints :: "'x exec_env \<Rightarrow> create_client_input \<Rightarrow> ('x, unit) eff" where
  "validate_client_endpoints env inp =
     eff_bind (validate_supported_endpoint env (cc_token_url inp) ''token_url'') (\<lambda>_.
     eff_bind (case cc_resource inp of None \<Rightarrow> eff_return ()
        | Some r \<Rightarrow> if js_trim r = [] then eff_return () else validate_supported_endpoint env r ''resource'') (\<lambda>_.
       if cc_grant inp \<noteq> AuthorizationCode then eff_return ()
       else
         eff_bind (validate_supported_endpoint env (cc_authorization_url inp) ''authorization_url'') (\<lambda>_.
         eff_bind (is_well_known_oauth_metadata_url env (cc_authorization_url inp)) (\<lambda>wk.
           if wk then eff_fail (invalid_configuration
             ''authorization_url must be the OAuth authorization endpoint, not a .well-known metadata URL.'')
           else eff_bind (same_url env (cc_authorization_url inp) (cc_token_url inp)) (\<lambda>same.
             if same then eff_fail (invalid_configuration ''authorization_url must not equal token_url.'')
             else eff_return ())))))"

section \<open>Clients\<close>

definition client_where :: "owner \<Rightarrow> string \<Rightarrow> cond_or_bool" where
  "client_where ow slug =
     builder_and [cmp_val ''owner'' OpEq (JStr (owner_text ow)), cmp_val ''slug'' OpEq (JStr slug)]"

definition owned_keys_or :: "'x exec_env \<Rightarrow> owner \<Rightarrow> string \<Rightarrow> ('x, record_vals) eff" where
  "owned_keys_or env ow msg =
     eff_lift (case owned_keys (e_ctx env) ow of Inl _ \<Rightarrow> Inl (FStorage (StorageError msg)) | Inr keys \<Rightarrow> Inr keys)"

definition store_client_secret :: "'x exec_env \<Rightarrow> owner \<Rightarrow> string \<Rightarrow> string \<Rightarrow> ('x, string option) eff" where
  "store_client_secret env ow slug secret =
     (if secret = [] then eff_return None
      else case Option.bind (default_writable_provider env) pv_set of
        None \<Rightarrow> eff_fail (FStorage (StorageError
          ''No default writable credential provider is registered to store the OAuth client secret.''))
      | Some put \<Rightarrow>
          (let item = client_secret_item_id ow slug in eff_bind (put item secret) (\<lambda>_. eff_return (Some item))))"

definition is_dcr_origin :: "create_client_input \<Rightarrow> bool" where
  "is_dcr_origin inp \<longleftrightarrow> (case cc_origin inp of None \<Rightarrow> False | Some og \<Rightarrow> og_dcr og)"

definition client_row :: "'x exec_env \<Rightarrow> create_client_input \<Rightarrow> record_vals \<Rightarrow> string option \<Rightarrow> int \<Rightarrow> record_vals" where
  "client_row env inp keys secret_item t =
     keys @ [(''slug'', JStr (cc_slug inp)), (''authorization_url'', JStr (cc_authorization_url inp)),
       (''token_url'', JStr (cc_token_url inp)), (''grant'', JStr (grant_text (cc_grant inp))),
       (''client_id'', JStr (cc_client_id inp)), (''client_secret_item_id'', jopt JStr secret_item),
       (''resource'', jopt JStr (cc_resource inp)),
       (''origin_kind'', JStr (if is_dcr_origin inp then ''dynamic_client_registration'' else ''manual'')),
       (''origin_integration'', jopt JStr (Option.bind (cc_origin inp) og_integration)),
       (''origin_issuer'', if is_dcr_origin inp then jopt JStr (canonical_issuer_url (wb_url (web_of env)) (cc_origin_issuer inp)) else JNull),
       (''origin_redirect_uri'', if is_dcr_origin inp then jopt JStr (cc_origin_redirect_uri inp) else JNull),
       (''created_at'', JDate t)]"

definition oauth_create_client :: "'x exec_env \<Rightarrow> create_client_input \<Rightarrow> ('x, string) eff" where
  "oauth_create_client env inp =
     eff_bind (validate_client_endpoints env inp) (\<lambda>_.
     eff_bind (owned_keys_or env (cc_owner inp) ''Cannot write oauth_client for owner without a subject'') (\<lambda>keys.
     eff_bind (now env) (\<lambda>t.
     eff_bind (store_client_secret env (cc_owner inp) (cc_slug inp) (cc_client_secret inp)) (\<lambda>secret_item.
     eff_bind (eff_ignore (core_delete_many env oauth_client_table (Some (client_where (cc_owner inp) (cc_slug inp))))) (\<lambda>_.
     eff_bind (core_create env oauth_client_table (client_row env inp keys secret_item t)) (\<lambda>_.
       eff_return (cc_slug inp)))))))"

definition oauth_remove_client :: "'x exec_env \<Rightarrow> owner \<Rightarrow> string \<Rightarrow> ('x, unit) eff" where
  "oauth_remove_client env ow slug =
     eff_bind (core_delete_many env oauth_client_table (Some (client_where ow slug))) (\<lambda>_.
       case Option.bind (default_writable_provider env) pv_delete of
         None \<Rightarrow> eff_return ()
       | Some del \<Rightarrow> eff_ignore (del (client_secret_item_id ow slug)))"

record client_summary =
  cl_owner :: string
  cl_slug :: string
  cl_grant :: oauth_grant
  cl_authorization_url :: string
  cl_token_url :: string
  cl_resource :: "string option"
  cl_client_id :: string
  cl_origin :: client_origin

definition unknown_grant :: "string \<Rightarrow> row \<Rightarrow> failure" where
  "unknown_grant slug r =
     FStorage (StorageError (''oauth_client '' @ slug @ '' has an unknown grant: '' @ row_str r ''grant''))"

definition client_summary_of :: "row \<Rightarrow> failure + client_summary" where
  "client_summary_of r =
     (case parse_grant (r ''grant'') of
        None \<Rightarrow> Inl (unknown_grant (row_str r ''slug'') r)
      | Some g \<Rightarrow> Inr \<lparr>cl_owner = row_str r ''owner'', cl_slug = row_str r ''slug'', cl_grant = g,
          cl_authorization_url = row_str r ''authorization_url'', cl_token_url = row_str r ''token_url'',
          cl_resource = opt_str (r ''resource''), cl_client_id = row_str r ''client_id'',
          cl_origin = parse_oauth_client_origin r\<rparr>)"

definition oauth_list_clients :: "'x exec_env \<Rightarrow> ('x, client_summary list) eff" where
  "oauth_list_clients env =
     eff_bind (core_find_many env oauth_client_table find_all) (\<lambda>rows. eff_mapM (\<lambda>r. eff_lift (client_summary_of r)) rows)"

record loaded_client =
  lc_slug :: string
  lc_authorization_url :: string
  lc_token_url :: string
  lc_grant :: oauth_grant
  lc_client_id :: string
  lc_client_secret :: string
  lc_resource :: "string option"

definition load_client_secret :: "'x exec_env \<Rightarrow> row \<Rightarrow> ('x, string) eff" where
  "load_client_secret env r =
     (if nullish (r ''client_secret_item_id'') then eff_return []
      else case default_writable_provider env of
        None \<Rightarrow> eff_return []
      | Some pv \<Rightarrow> eff_map (\<lambda>s. case s of None \<Rightarrow> [] | Some t \<Rightarrow> t) (pv_get pv (row_str r ''client_secret_item_id'')))"

definition load_client :: "'x exec_env \<Rightarrow> owner \<Rightarrow> string \<Rightarrow> ('x, loaded_client option) eff" where
  "load_client env ow slug =
     eff_bind (core_find_first env oauth_client_table (find_where (client_where ow slug))) (\<lambda>row.
       case row of
         None \<Rightarrow> eff_return None
       | Some r \<Rightarrow>
           (case parse_grant (r ''grant'') of
              None \<Rightarrow> eff_fail (unknown_grant slug r)
            | Some g \<Rightarrow>
                eff_bind (load_client_secret env r) (\<lambda>secret.
                  eff_return (Some \<lparr>lc_slug = row_str r ''slug'', lc_authorization_url = row_str r ''authorization_url'',
                    lc_token_url = row_str r ''token_url'', lc_grant = g, lc_client_id = row_str r ''client_id'',
                    lc_client_secret = secret, lc_resource = opt_str (r ''resource'')\<rparr>))))"

section \<open>Dynamic registration\<close>

definition pick_dcr_auth_method :: "string list option \<Rightarrow> string" where
  "pick_dcr_auth_method advertised =
     (case advertised of None \<Rightarrow> ''none''
      | Some ms \<Rightarrow> if ms = [] \<or> ''none'' \<in> set ms then ''none'' else ''client_secret_post'')"

record dcr_candidate =
  dc_slug :: string
  dc_resource :: "string option"
  dc_redirect_uri :: "string option"
  dc_created_at :: int

text \<open>Numbers and dates are finite here.\<close>

definition candidate_created_at :: "(string \<Rightarrow> int option) \<Rightarrow> jsval \<Rightarrow> int" where
  "candidate_created_at date_parse v =
     (case v of
        JDate t \<Rightarrow> t
      | JNum n \<Rightarrow> n
      | JStr s \<Rightarrow> (case date_parse s of Some t \<Rightarrow> t | None \<Rightarrow> 0)
      | _ \<Rightarrow> 0)"

definition dcr_candidate_of :: "'x exec_env \<Rightarrow> string option \<Rightarrow> row \<Rightarrow> dcr_candidate option" where
  "dcr_candidate_of env issuer r =
     (if \<not> og_dcr (parse_oauth_client_origin r) then None
      else case canonical_issuer_url (wb_url (web_of env)) (opt_str (r ''origin_issuer'')) of
        None \<Rightarrow> None
      | Some i \<Rightarrow>
          if dcr_issuer_matches (wb_url (web_of env)) i issuer then
            Some \<lparr>dc_slug = row_str r ''slug'', dc_resource = opt_str (r ''resource''),
                  dc_redirect_uri = opt_str (r ''origin_redirect_uri''),
                  dc_created_at = candidate_created_at (od_date_parse (web_of env)) (r ''created_at'')\<rparr>
          else None)"

definition compare_candidates :: "dcr_candidate \<Rightarrow> dcr_candidate \<Rightarrow> int" where
  "compare_candidates = cmp_then (cmp_int_key dc_created_at) (\<lambda>a b. cmp_str (dc_slug a) (dc_slug b))"

definition dcr_candidates_for_issuer :: "'x exec_env \<Rightarrow> owner \<Rightarrow> string option \<Rightarrow> ('x, dcr_candidate list) eff" where
  "dcr_candidates_for_issuer env ow issuer =
     eff_map (\<lambda>rows. js_sort compare_candidates (List.map_filter (dcr_candidate_of env issuer) rows))
       (core_find_many env oauth_client_table (find_where (cmp_val ''owner'' OpEq (JStr (owner_text ow)))))"

record register_dynamic_input =
  rd_owner :: owner
  rd_slug :: string
  rd_issuer :: "string option"
  rd_registration_endpoint :: string
  rd_authorization_url :: string
  rd_token_url :: string
  rd_resource :: "string option"
  rd_scopes :: "string list"
  rd_auth_methods :: "string list option"
  rd_client_name :: "string option"
  rd_redirect_uri :: "string option"
  rd_origin_integration :: "string option"

definition redirect_matches :: "string option \<Rightarrow> dcr_candidate \<Rightarrow> bool" where
  "redirect_matches flow_redirect c \<longleftrightarrow>
     dc_redirect_uri c = None \<or> flow_redirect = None \<or> dc_redirect_uri c = flow_redirect"

text \<open>The client to reuse, or the slug to register a new one under.\<close>

definition decide_reuse ::
  "url_parser \<Rightarrow> register_dynamic_input \<Rightarrow> string option \<Rightarrow> string option \<Rightarrow> dcr_candidate list \<Rightarrow> string + string" where
  "decide_reuse up inp issuer flow_redirect candidates =
     (let used = map dc_slug candidates in
      case rd_resource inp of
        Some r \<Rightarrow>
          (let fresh = unique_dcr_slug
                 (dcr_client_slug up issuer (if candidates \<noteq> [] then Some r else None) (rd_slug inp)) used in
           case find (\<lambda>c. dc_resource c = Some r) candidates of
             Some c \<Rightarrow> if redirect_matches flow_redirect c then Inl (dc_slug c) else Inr fresh
           | None \<Rightarrow> Inr fresh)
      | None \<Rightarrow>
          (case find (\<lambda>c. dc_resource c = None \<and> redirect_matches flow_redirect c) candidates of
             Some c \<Rightarrow> Inl (dc_slug c)
           | None \<Rightarrow> Inr (unique_dcr_slug (dcr_client_slug up issuer None (rd_slug inp)) used)))"

definition decide_dcr_client_reuse ::
  "'x exec_env \<Rightarrow> register_dynamic_input \<Rightarrow> string option \<Rightarrow> string option \<Rightarrow> ('x, string + string) eff" where
  "decide_dcr_client_reuse env inp issuer flow_redirect =
     eff_map (decide_reuse (wb_url (web_of env)) inp issuer flow_redirect) (dcr_candidates_for_issuer env (rd_owner inp) issuer)"

definition registration_failed :: "'x exec_env \<Rightarrow> string \<Rightarrow> failure \<Rightarrow> failure" where
  "registration_failed env redirect e =
     register_error (if failure_code e = Some ''invalid_redirect_uri'' \<and> \<not> is_loopback_http_url (wb_url (web_of env)) redirect
       then ''Automatic OAuth setup failed: this server only approves loopback redirect URLs (http://localhost or http://127.0.0.1) for automatic registration, but Executor is using ''
         @ redirect @ ''. Register an OAuth app manually with that redirect URL approved by the server, or run Executor on http://localhost.''
       else ''Dynamic Client Registration failed: '' @ failure_message e)"

definition registration_metadata :: "register_dynamic_input \<Rightarrow> string \<Rightarrow> client_metadata" where
  "registration_metadata inp redirect =
     \<lparr>cm_client_name = rd_client_name inp, cm_redirect_uris = [redirect],
      cm_grant_types = Some [''authorization_code'', ''refresh_token''], cm_response_types = Some [''code''],
      cm_auth_method = Some (pick_dcr_auth_method (rd_auth_methods inp)),
      cm_scope = (if rd_scopes inp = [] then None else Some (js_join '' '' (rd_scopes inp))),
      cm_application_type = None, cm_client_uri = None, cm_logo_uri = None, cm_contacts = None,
      cm_software_id = None, cm_software_version = None, cm_extra = []\<rparr>"

definition registered_client ::
  "register_dynamic_input \<Rightarrow> string \<Rightarrow> string option \<Rightarrow> string \<Rightarrow> client_information \<Rightarrow> create_client_input" where
  "registered_client inp slug issuer redirect info =
     \<lparr>cc_owner = rd_owner inp, cc_slug = slug, cc_authorization_url = rd_authorization_url inp,
      cc_token_url = rd_token_url inp, cc_grant = AuthorizationCode, cc_client_id = ci_client_id info,
      cc_client_secret = (case ci_client_secret info of None \<Rightarrow> [] | Some s \<Rightarrow> s), cc_resource = rd_resource inp,
      cc_origin = Some \<lparr>og_dcr = True, og_integration = rd_origin_integration inp\<rparr>,
      cc_origin_issuer = issuer, cc_origin_redirect_uri = Some redirect\<rparr>"

definition oauth_register_dynamic_client :: "'x exec_env \<Rightarrow> register_dynamic_input \<Rightarrow> ('x, string) eff" where
  "oauth_register_dynamic_client env inp =
     (let issuer = canonical_dcr_issuer (wb_url (web_of env)) (rd_issuer inp) (rd_registration_endpoint inp);
          flow_redirect = first_some (rd_redirect_uri inp) (od_redirect_uri (web_of env)) in
      eff_bind (decide_dcr_client_reuse env inp issuer flow_redirect) (\<lambda>reuse.
        case reuse of
          Inl slug \<Rightarrow> eff_return slug
        | Inr slug \<Rightarrow>
            (case flow_redirect of
               None \<Rightarrow> eff_fail (register_error REDIRECT_URI_REQUIRED_MESSAGE)
             | Some redirect \<Rightarrow>
                 eff_bind (map_failure (registration_failed env redirect)
                   (register_dynamic_client_dcr (web_of env) (rd_registration_endpoint inp)
                     (registration_metadata inp redirect) None)) (\<lambda>info.
                 eff_bind (oauth_create_client env (registered_client inp slug issuer redirect info)) (\<lambda>_.
                   eff_return slug)))))"

section \<open>The scopes to ask for\<close>

datatype scope_policy = DeclaredScopes "string list" | DiscoverScopes

text \<open>\<open>resolveOAuthScopePolicy\<close>, as the executor provides it.\<close>

definition text_list :: "jsval \<Rightarrow> string list" where
  "text_list v = (case v of JArr vs \<Rightarrow> map js_to_string vs | _ \<Rightarrow> [])"

definition scope_policy_of :: "jsval list \<Rightarrow> string \<Rightarrow> scope_policy" where
  "scope_policy_of methods template =
     (let selected = (case find (\<lambda>m. obj_get m ''template'' = JStr template) methods of
            Some m \<Rightarrow> Some m
          | None \<Rightarrow> (case methods of [m] \<Rightarrow> Some m | _ \<Rightarrow> None));
          oauth = (case selected of
            Some m \<Rightarrow> if obj_get m ''kind'' = JStr ''oauth'' then obj_get m ''oauth'' else JUndef
          | None \<Rightarrow> JUndef) in
      if obj_get oauth ''scopes'' = JUndef \<and> obj_get oauth ''discoveryUrl'' \<noteq> JUndef then DiscoverScopes
      else DeclaredScopes (text_list (obj_get oauth ''scopes'')))"

definition resolve_oauth_scope_policy :: "'x exec_env \<Rightarrow> string \<Rightarrow> string \<Rightarrow> ('x, scope_policy) eff" where
  "resolve_oauth_scope_policy env integration template =
     eff_map (\<lambda>row. scope_policy_of (case row of None \<Rightarrow> [] | Some r \<Rightarrow> describe_auth_methods_for_row env r) template)
       (find_integration_row env integration)"

definition MAX_DISCOVERY_AUTH_SERVERS :: nat where
  "MAX_DISCOVERY_AUTH_SERVERS = 3"

definition MAX_DISCOVERED_SCOPES :: nat where
  "MAX_DISCOVERED_SCOPES = 100"

definition cap_scopes :: "string list \<Rightarrow> string list" where
  "cap_scopes scopes = take MAX_DISCOVERED_SCOPES (dedupe scopes)"

fun scopes_of_servers :: "'x exec_env \<Rightarrow> string list \<Rightarrow> ('x, string list) eff" where
  "scopes_of_servers env [] = eff_return []"
| "scopes_of_servers env (issuer # issuers) =
     eff_bind (catch_failure (discover_authorization_server_metadata (web_of env) no_options issuer) (\<lambda>_. eff_return None)) (\<lambda>md.
       case Option.bind md (\<lambda>m. sm_scopes_supported (snd m)) of
         Some scopes \<Rightarrow> eff_return (cap_scopes scopes)
       | None \<Rightarrow> scopes_of_servers env issuers)"

definition discover_scopes_for_resource :: "'x exec_env \<Rightarrow> string option \<Rightarrow> ('x, string list) eff" where
  "discover_scopes_for_resource env resource =
     (case resource of
        None \<Rightarrow> eff_fail (discovery_error ''Cannot discover OAuth scopes: the client has no resource configured'' None None)
      | Some r \<Rightarrow>
          eff_bind (discover_protected_resource_metadata (web_of env) no_options r) (\<lambda>md.
            case Option.bind md (\<lambda>m. rm_scopes_supported (snd m)) of
              Some scopes \<Rightarrow> eff_return (cap_scopes scopes)
            | None \<Rightarrow> scopes_of_servers env (take MAX_DISCOVERY_AUTH_SERVERS
                (case Option.bind md (\<lambda>m. rm_authorization_servers (snd m)) of None \<Rightarrow> [] | Some ss \<Rightarrow> ss))))"

definition filter_authorization_code_scopes :: "'x exec_env \<Rightarrow> loaded_client \<Rightarrow> string list \<Rightarrow> ('x, string list) eff" where
  "filter_authorization_code_scopes env client requested =
     (if requested = [] then eff_return requested
      else catch_failure
        (eff_bind (case nonempty (lc_resource client) of
             None \<Rightarrow> eff_return None
           | Some r \<Rightarrow> catch_failure (discover_protected_resource_metadata (web_of env) no_options r) (\<lambda>_. eff_return None)) (\<lambda>resource.
         eff_bind (case Option.bind resource (\<lambda>m. rm_authorization_servers (snd m)) of
             Some (s # ss) \<Rightarrow> eff_return s
           | _ \<Rightarrow> eff_map url_origin (parse_or_throw (web_of env) (lc_authorization_url client))) (\<lambda>issuer.
         eff_bind (catch_failure (discover_authorization_server_metadata (web_of env) no_options issuer) (\<lambda>_. eff_return None)) (\<lambda>as.
           case as of
             None \<Rightarrow> eff_return requested
           | Some (_, md) \<Rightarrow>
               eff_bind (oauth_metadata_matches_client env (lc_authorization_url client) (lc_token_url client) md) (\<lambda>same.
                 eff_return (if same then intersect_scopes requested (sm_scopes_supported md) else requested))))))
        (\<lambda>_. eff_return requested))"

section \<open>Minting\<close>

record mint_target =
  mt_owner :: owner
  mt_name :: string
  mt_integration :: string
  mt_template :: string
  mt_identity_label :: "string option"

definition expires_at_from :: "'x exec_env \<Rightarrow> issued_token \<Rightarrow> ('x, int option) eff" where
  "expires_at_from env tok =
     (case it_expires_in tok of None \<Rightarrow> eff_return None | Some n \<Rightarrow> eff_map (\<lambda>t. Some (t + n * 1000)) (now env))"

definition store_refresh_token ::
  "(string \<Rightarrow> string \<Rightarrow> ('x, unit) eff) \<Rightarrow> string \<Rightarrow> issued_token \<Rightarrow> ('x, string option) eff" where
  "store_refresh_token put item tok =
     (case nonempty (it_refresh tok) of
        None \<Rightarrow> eff_return None
      | Some r \<Rightarrow> eff_bind (put (refresh_item_id_for item) r) (\<lambda>_. eff_return (Some (refresh_item_id_for item))))"

definition mint_input_of ::
  "mint_target \<Rightarrow> loaded_client \<Rightarrow> issued_token \<Rightarrow> string list \<Rightarrow> owner \<Rightarrow> string option \<Rightarrow> string \<Rightarrow> string option \<Rightarrow>
   int option \<Rightarrow> mint_input" where
  "mint_input_of target client tok requested client_owner token_url provider_key refresh_item expires =
     (let scope = recorded_oauth_scope tok requested in
      \<lparr>mi_owner = mt_owner target, mi_integration = mt_integration target, mi_name = mt_name target,
       mi_template = mt_template target, mi_provider = provider_key,
       mi_item_id = access_item_id (mt_owner target) (mt_integration target) (mt_name target),
       mi_identity_label = mt_identity_label target, mi_derived_label = it_identity_label tok,
       mi_oauth_client = lc_slug client, mi_oauth_client_owner = client_owner, mi_refresh_item_id = refresh_item,
       mi_expires_at = expires, mi_oauth_scope = scope, mi_oauth_token_url = token_url,
       mi_missing_scopes = (if lc_grant client = AuthorizationCode
                            then missing_granted_oauth_scopes requested scope else [])\<rparr>)"

definition mint_from_token ::
  "'x exec_env \<Rightarrow> mint_target \<Rightarrow> loaded_client \<Rightarrow> issued_token \<Rightarrow> string list \<Rightarrow> owner \<Rightarrow> string option \<Rightarrow>
   ('x, connection_view) eff" where
  "mint_from_token env target client tok requested client_owner token_url =
     (case default_writable_provider env of
        None \<Rightarrow> eff_fail (FStorage (StorageError
          ''No default writable credential provider is registered to store the OAuth access token.''))
      | Some pv \<Rightarrow>
          (case pv_set pv of
             None \<Rightarrow> eff_fail (FStorage (StorageError
               ''No default writable credential provider is registered to store the OAuth access token.''))
           | Some put \<Rightarrow>
               (let item = access_item_id (mt_owner target) (mt_integration target) (mt_name target) in
                eff_bind (put item (it_access tok)) (\<lambda>_.
                eff_bind (store_refresh_token put item tok) (\<lambda>refresh_item.
                eff_bind (expires_at_from env tok) (\<lambda>expires.
                  mint_oauth_connection env
                    (mint_input_of target client tok requested client_owner token_url (pv_key pv) refresh_item expires)))))))"

section \<open>Starting a flow\<close>

record start_input =
  sn_client :: string
  sn_client_owner :: owner
  sn_owner :: owner
  sn_name :: string
  sn_integration :: string
  sn_template :: string
  sn_identity_label :: "string option"
  sn_new_connection :: bool
  sn_redirect_uri :: "string option"

datatype connect_result = Connected connection_view | Redirect string string

definition connection_name_taken :: "'x exec_env \<Rightarrow> start_input \<Rightarrow> string \<Rightarrow> ('x, bool) eff" where
  "connection_name_taken env inp name =
     eff_map (\<lambda>row. row \<noteq> None)
       (find_connection_row env \<lparr>rf_owner = sn_owner inp, rf_integration = sn_integration inp, rf_name = name\<rparr>)"

function name_loop :: "'x exec_env \<Rightarrow> start_input \<Rightarrow> string \<Rightarrow> nat \<Rightarrow> ('x, string) eff" where
  "name_loop env inp name suffix =
     eff_bind (connection_name_taken env inp name) (\<lambda>taken.
       if \<not> taken then eff_return name
       else if 1000 < suffix then
         eff_fail (start_error (''No free connection name derivable from '' @ sn_name inp @ ''.''))
       else name_loop env inp (sn_name inp @ nat_digits suffix) (Suc suffix))"
  by pat_completeness auto
termination by (relation "measure (\<lambda>(_, _, _, suffix). 1001 - suffix)") auto

declare name_loop.simps [simp del]

definition free_connection_name :: "'x exec_env \<Rightarrow> start_input \<Rightarrow> ('x, string) eff" where
  "free_connection_name env inp =
     (if sn_new_connection inp then name_loop env inp (sn_name inp) 2 else eff_return (sn_name inp))"

definition start_mapped :: "string \<Rightarrow> ('x, 'a) eff \<Rightarrow> ('x, 'a) eff" where
  "start_mapped what m = map_failure (\<lambda>e. start_error (what @ failure_message e)) m"

text \<open>One token request: what the library throws becomes an \<open>OAuth2Error\<close>.\<close>

definition exchange :: "'x exec_env \<Rightarrow> string + token_request \<Rightarrow> ('x, issued_token) eff" where
  "exchange env req =
     (let fail_with = (\<lambda>le. case to_oauth2_error_with_summary (wb_json (web_of env)) le of
            (msg, code) \<Rightarrow> eff_fail (oauth2_error msg code)) in
      case req of
        Inl msg \<Rightarrow> fail_with \<lparr>le_error = None, le_description = None, le_message = Some msg, le_response = None\<rparr>
      | Inr rq \<Rightarrow> eff_bind (od_token_endpoint (web_of env) rq) (\<lambda>res.
          case res of Inl le \<Rightarrow> fail_with le | Inr tok \<Rightarrow> eff_return tok))"

definition random_value :: "(nat \<Rightarrow> string) \<Rightarrow> ('x, string) eff" where
  "random_value f w = (Inr (f (w_ids w)), w\<lparr>w_ids := Suc (w_ids w)\<rparr>)"

definition OAUTH2_SESSION_TTL_MS :: int where
  "OAUTH2_SESSION_TTL_MS = 15 * 60 * 1000"

definition start_client_credentials ::
  "'x exec_env \<Rightarrow> start_input \<Rightarrow> string \<Rightarrow> loaded_client \<Rightarrow> string list \<Rightarrow> ('x, connect_result) eff" where
  "start_client_credentials env inp name client requested =
     eff_bind (start_mapped ''OAuth client-credentials exchange failed: ''
       (exchange env (client_credentials_request (wb_url (web_of env)) (wb_allow_http (web_of env)) (lc_token_url client)
         (lc_client_id client) (lc_client_secret client) requested (lc_resource client)))) (\<lambda>tok.
     eff_bind (start_mapped ''Failed to mint OAuth connection: ''
       (mint_from_token env
         \<lparr>mt_owner = sn_owner inp, mt_name = name, mt_integration = sn_integration inp, mt_template = sn_template inp,
          mt_identity_label = sn_identity_label inp\<rparr> client tok requested (sn_client_owner inp) None)) (\<lambda>conn.
       eff_return (Connected conn)))"

definition session_row ::
  "start_input \<Rightarrow> string \<Rightarrow> record_vals \<Rightarrow> string \<Rightarrow> string \<Rightarrow> string \<Rightarrow> string list \<Rightarrow> int \<Rightarrow> int \<Rightarrow> record_vals" where
  "session_row inp name keys redirect verifier state scopes created expires =
     keys @ [(''state'', JStr state), (''client_slug'', JStr (sn_client inp)), (''integration'', JStr (sn_integration inp)),
       (''name'', JStr name), (''template'', JStr (sn_template inp)), (''redirect_url'', JStr redirect),
       (''pkce_verifier'', JStr verifier), (''identity_label'', jopt JStr (sn_identity_label inp)),
       (''payload'', JObj [(''owner'', JStr (owner_text (sn_owner inp))),
          (''clientOwner'', JStr (owner_text (sn_client_owner inp))), (''requestedScopes'', JArr (map JStr scopes))]),
       (''expires_at'', JNum expires), (''created_at'', JDate created)]"

definition authorization_request_of ::
  "'x exec_env \<Rightarrow> loaded_client \<Rightarrow> string \<Rightarrow> string list \<Rightarrow> string \<Rightarrow> string \<Rightarrow> authorization_request" where
  "authorization_request_of env client redirect scopes state verifier =
     \<lparr>ar_url = lc_authorization_url client, ar_client_id = lc_client_id client, ar_redirect_url = redirect,
      ar_scopes = scopes, ar_scope_separator = None,
      ar_state = encode_oauth_callback_state (wb_base64 (web_of env)) state (od_org_slug (web_of env)),
      ar_code_challenge = od_code_challenge (web_of env) verifier, ar_resource = lc_resource client,
      ar_extra = provider_authorize_extras (wb_url (web_of env)) (lc_authorization_url client)\<rparr>"

definition start_authorization_code ::
  "'x exec_env \<Rightarrow> start_input \<Rightarrow> record_vals \<Rightarrow> string \<Rightarrow> loaded_client \<Rightarrow> scope_policy \<Rightarrow> string list \<Rightarrow>
   ('x, connect_result) eff" where
  "start_authorization_code env inp keys name client policy requested =
     (let web = web_of env in
      case first_some (sn_redirect_uri inp) (od_redirect_uri web) of
        None \<Rightarrow> eff_fail (start_error REDIRECT_URI_REQUIRED_MESSAGE)
      | Some redirect \<Rightarrow>
          eff_bind (if policy = DiscoverScopes then eff_return requested
                    else filter_authorization_code_scopes env client requested) (\<lambda>scopes.
          eff_bind (random_value (od_code_verifier web)) (\<lambda>verifier.
          eff_bind (random_value (od_state web)) (\<lambda>state.
          eff_bind (now env) (\<lambda>created.
          eff_bind (now env) (\<lambda>t.
          eff_bind (core_create env oauth_session_table
              (session_row inp name keys redirect verifier state scopes created (t + OAUTH2_SESSION_TTL_MS))) (\<lambda>_.
            case build_authorization_url (wb_url web) (wb_params web) (wb_query web) (wb_allow_http web)
              (authorization_request_of env client redirect scopes state verifier) of
              Inl msg \<Rightarrow> eff_fail (start_error (''Failed to build authorization URL: TypeError: '' @ msg))
            | Inr url \<Rightarrow> eff_return (Redirect url state))))))))"

definition oauth_start :: "'x exec_env \<Rightarrow> start_input \<Rightarrow> ('x, connect_result) eff" where
  "oauth_start env inp =
     eff_bind (owned_keys_or env (sn_owner inp) ''Cannot start OAuth flow for owner without a subject'') (\<lambda>keys.
       if sn_owner inp = Org \<and> sn_client_owner inp = User then
         eff_fail (start_error ''A Workspace connection must use a Workspace app.'')
       else eff_bind (load_client env (sn_client_owner inp) (sn_client inp)) (\<lambda>loaded.
         case loaded of
           None \<Rightarrow> eff_fail (start_error (''OAuth client not found: '' @ sn_client inp))
         | Some client \<Rightarrow>
             eff_bind (free_connection_name env inp) (\<lambda>name.
             eff_bind (start_mapped ''Failed to resolve OAuth scope policy: ''
               (resolve_oauth_scope_policy env (sn_integration inp) (sn_template inp))) (\<lambda>policy.
             eff_bind (case policy of
                 DiscoverScopes \<Rightarrow> start_mapped ''Failed to discover OAuth scopes: '' (discover_scopes_for_resource env (lc_resource client))
               | DeclaredScopes scopes \<Rightarrow> eff_return (dedupe scopes)) (\<lambda>requested.
               if lc_grant client = ClientCredentials then start_client_credentials env inp name client requested
               else start_authorization_code env inp keys name client policy requested)))))"

section \<open>Completing a flow\<close>

record complete_input =
  cp_state :: string
  cp_code :: string
  cp_callback_domain :: "string option"

definition session_where :: "string \<Rightarrow> cond_or_bool" where
  "session_where state = cmp_val ''state'' OpEq (JStr state)"

definition delete_session :: "'x exec_env \<Rightarrow> string \<Rightarrow> ('x, unit) eff" where
  "delete_session env state = core_delete_many env oauth_session_table (Some (session_where state))"

definition session_client_owner :: "'x exec_env \<Rightarrow> row \<Rightarrow> owner" where
  "session_client_owner env r =
     (case client_owner_from_payload (x_json env) (r ''payload'') of Some ow \<Rightarrow> ow | None \<Rightarrow> row_owner r)"

definition session_target :: "row \<Rightarrow> mint_target" where
  "session_target r =
     \<lparr>mt_owner = row_owner r, mt_name = row_str r ''name'', mt_integration = row_str r ''integration'',
      mt_template = row_str r ''template'', mt_identity_label = opt_str (r ''identity_label'')\<rparr>"

definition redeem_session :: "'x exec_env \<Rightarrow> complete_input \<Rightarrow> row \<Rightarrow> loaded_client \<Rightarrow> string \<Rightarrow> ('x, connection_view) eff" where
  "redeem_session env inp r client verifier =
     (let web = web_of env;
          token_url = rebind_token_endpoint_host (wb_url web) (lc_token_url client) (cp_callback_domain inp) in
      eff_bind (map_failure (\<lambda>e. complete_error (''OAuth code exchange failed: '' @ failure_message e) (failure_code e = Some ''invalid_grant''))
        (exchange env (authorization_code_request (wb_url web) (wb_allow_http web) token_url (lc_client_id client)
          (lc_client_secret client) (row_str r ''redirect_url'') verifier (cp_code inp) (lc_resource client)))) (\<lambda>tok.
      eff_bind (map_failure (\<lambda>e. complete_error (''Failed to mint OAuth connection: '' @ failure_message e) False)
        (mint_from_token env (session_target r) client tok
          (case requested_scopes_from_payload (x_json env) (r ''payload'') of None \<Rightarrow> [] | Some ss \<Rightarrow> ss)
          (session_client_owner env r) (if token_url = lc_token_url client then None else Some token_url))) (\<lambda>conn.
      eff_bind (delete_session env (cp_state inp)) (\<lambda>_.
        eff_return conn))))"

text \<open>\<open>Number.isFinite (expiresAt) \<and> expiresAt \<le> Date.now ()\<close>: the clock is read for a finite expiry.\<close>

definition session_expired :: "'x exec_env \<Rightarrow> row \<Rightarrow> ('x, bool) eff" where
  "session_expired env r =
     (case to_number (r ''expires_at'') of None \<Rightarrow> eff_return False | Some e \<Rightarrow> eff_map (\<lambda>t. e \<le> t) (now env))"

definition oauth_complete :: "'x exec_env \<Rightarrow> complete_input \<Rightarrow> ('x, connection_view) eff" where
  "oauth_complete env inp =
     eff_bind (core_find_first env oauth_session_table (find_where (session_where (cp_state inp)))) (\<lambda>row.
       case row of
         None \<Rightarrow> eff_fail (session_not_found (cp_state inp))
       | Some r \<Rightarrow>
           eff_bind (session_expired env r) (\<lambda>expired.
             if expired then
               eff_bind (delete_session env (cp_state inp)) (\<lambda>_. eff_fail (session_not_found (cp_state inp)))
             else
               eff_bind (load_client env (session_client_owner env r) (row_str r ''client_slug'')) (\<lambda>loaded.
                 case loaded of
                   None \<Rightarrow> eff_fail (complete_error (''OAuth client not found: '' @ row_str r ''client_slug'') True)
                 | Some client \<Rightarrow>
                     (case opt_str (r ''pkce_verifier'') of
                        None \<Rightarrow> eff_fail (complete_error (''OAuth session '' @ cp_state inp
                          @ '' is missing its PKCE code verifier; restart the flow.'') True)
                      | Some verifier \<Rightarrow> redeem_session env inp r client verifier))))"

definition oauth_cancel :: "'x exec_env \<Rightarrow> string \<Rightarrow> ('x, unit) eff" where
  "oauth_cancel env state = delete_session env state"

section \<open>Probing\<close>

record probe_result =
  pr_issuer :: string
  pr_authorization_url :: string
  pr_token_url :: string
  pr_resource :: "string option"
  pr_scopes_supported :: "string list option"
  pr_registration_endpoint :: "string option"
  pr_auth_methods :: "string list option"
  pr_client_id_metadata_document :: bool

definition oauth_probe :: "'x exec_env \<Rightarrow> string \<Rightarrow> ('x, probe_result) eff" where
  "oauth_probe env url =
     eff_bind (catch_failure (discover_protected_resource_metadata (web_of env) no_options url) (\<lambda>_. eff_return None)) (\<lambda>resource.
     eff_bind (map_failure (\<lambda>e. probe_error (''OAuth discovery failed: '' @ failure_message e))
       (discover_authorization_server_metadata (web_of env) no_options
         (case Option.bind resource (\<lambda>m. rm_authorization_servers (snd m)) of Some (s # ss) \<Rightarrow> s | _ \<Rightarrow> url))) (\<lambda>as.
       case as of
         None \<Rightarrow> eff_fail (probe_error (''No OAuth authorization-server metadata found at '' @ url))
       | Some (_, md) \<Rightarrow> eff_return
           \<lparr>pr_issuer = sm_issuer md, pr_authorization_url = sm_authorization_endpoint md,
            pr_token_url = sm_token_endpoint md, pr_resource = Option.bind resource (\<lambda>m. rm_resource (snd m)),
            pr_scopes_supported = first_some (Option.bind resource (\<lambda>m. rm_scopes_supported (snd m))) (sm_scopes_supported md),
            pr_registration_endpoint = sm_registration_endpoint md, pr_auth_methods = sm_auth_methods md,
            pr_client_id_metadata_document = (sm_client_id_metadata_document md = Some True)\<rparr>))"

section \<open>Confinement\<close>

text \<open>Discovery touches nothing stored; its requests are confined when the client's are.\<close>

definition confined_web :: "owner_ctx \<Rightarrow> ('x, 'm) web_scheme \<Rightarrow> bool" where
  "confined_web c web \<longleftrightarrow> (\<forall>rq. confined c (wb_http web rq))"

lemma confined_web_of: "sound_env env \<Longrightarrow> confined_web (e_ctx env) (web_of env)"
  by (simp add: sound_env_def sound_oauth_def confined_web_def)

lemma confined_http: "confined_web c web \<Longrightarrow> confined c (wb_http web rq)"
  by (simp add: confined_web_def)

lemma confined_failures [confined_intros]:
  "confined c m \<Longrightarrow> (\<And>e. confined c (h e)) \<Longrightarrow> confined c (catch_failure m h)"
  "confined c m \<Longrightarrow> confined c (map_failure f m)"
  unfolding map_failure_def catch_failure_def by (auto intro!: confined_intros)

lemma confined_urls [confined_intros]:
  "confined c (parse_or_throw web v)" "confined c (validate_endpoint_url web v l)" "confined c (validate_server_metadata web md)"
  "confined c (with_resource_query_params web opts v)"
  unfolding parse_or_throw_def validate_server_metadata_def validate_endpoint_url_def with_resource_query_params_def
  by (intro confined_intros)+

lemma confined_execute_text [confined_intros]: "confined_web c web \<Longrightarrow> confined c (execute_text web rq msg)"
  unfolding execute_text_def by (intro confined_intros confined_http)

lemma confined_probe_resource [confined_intros]: "confined_web c web \<Longrightarrow> confined c (probe_resource web opts urls)"
  by (induction urls) (auto intro!: confined_intros split: option.splits)

lemma confined_probe_server [confined_intros]:
  "confined_web c web \<Longrightarrow> confined c (probe_server web opts issuer origin path algs)"
  by (induction algs) (auto simp: Let_def intro!: confined_intros split: option.splits sum.splits)

lemma confined_discovery [confined_intros]:
  "confined_web c web \<Longrightarrow> confined c (discover_protected_resource_metadata web opts r)"
  "confined_web c web \<Longrightarrow> confined c (discover_authorization_server_metadata web opts r)"
  "confined_web c web \<Longrightarrow> confined c (register_dynamic_client_dcr web e md t)"
  unfolding discover_protected_resource_metadata_def discover_authorization_server_metadata_def register_dynamic_client_dcr_def
  by (intro confined_intros; assumption)+

lemma confined_client_urls [confined_intros]:
  "confined c (same_url env a b)" "confined c (is_well_known_oauth_metadata_url env v)"
  "confined c (oauth_metadata_matches_client env a b md)" "confined c (validate_client_endpoints env inp)"
  unfolding validate_client_endpoints_def validate_supported_endpoint_def is_well_known_oauth_metadata_url_def
    oauth_metadata_matches_client_def same_url_def canonical_url_string_def
  by (intro confined_intros)+

lemma confined_store_secret [confined_intros]:
  "sound_env env \<Longrightarrow> confined (e_ctx env) (store_client_secret env ow slug secret)"
  unfolding store_client_secret_def Let_def
  by (intro confined_intros) (auto simp: bind_eq_Some_conv intro: confined_put_hook)

lemma confined_delete_secret:
  "sound_env env \<Longrightarrow> Option.bind (default_writable_provider env) pv_delete = Some del \<Longrightarrow> confined (e_ctx env) (del i)"
  using sound_default_provider by (fastforce simp: bind_eq_Some_conv sound_provider_def)

lemma confined_clients [confined_intros]:
  "sound_env env \<Longrightarrow> confined (e_ctx env) (oauth_create_client env ccinp)"
  "sound_env env \<Longrightarrow> confined (e_ctx env) (oauth_remove_client env ow slug)"
  "confined (e_ctx env) (oauth_list_clients env)"
  "sound_env env \<Longrightarrow> confined (e_ctx env) (load_client env ow slug)"
  unfolding oauth_create_client_def oauth_remove_client_def oauth_list_clients_def load_client_def load_client_secret_def owned_keys_or_def
  subgoal by (intro confined_intros) simp_all
  subgoal by (intro confined_intros) (simp_all add: confined_delete_secret)
  subgoal by (intro confined_intros) simp_all
  subgoal by (intro confined_intros) (auto intro: confined_pv_get sound_default_provider)
  done

lemma confined_register_dynamic [confined_intros]:
  "sound_env env \<Longrightarrow> confined (e_ctx env) (oauth_register_dynamic_client env rdinp)"
  unfolding oauth_register_dynamic_client_def decide_dcr_client_reuse_def dcr_candidates_for_issuer_def Let_def
  by (intro confined_intros confined_web_of) simp_all

lemma confined_scopes_of_servers [confined_intros]:
  "sound_env env \<Longrightarrow> confined (e_ctx env) (scopes_of_servers env issuers)"
  by (induction issuers) (auto intro!: confined_intros confined_web_of split: option.splits)

lemma confined_scopes [confined_intros]:
  "confined (e_ctx env) (resolve_oauth_scope_policy env i t)"
  "sound_env env \<Longrightarrow> confined (e_ctx env) (discover_scopes_for_resource env r)"
  "sound_env env \<Longrightarrow> confined (e_ctx env) (filter_authorization_code_scopes env client ss)"
  unfolding resolve_oauth_scope_policy_def discover_scopes_for_resource_def filter_authorization_code_scopes_def
  subgoal by (intro confined_intros)
  subgoal by (intro confined_intros confined_web_of)
  subgoal by (intro confined_intros confined_web_of) (auto intro!: confined_intros split: list.splits)
  done

lemma confined_exchange [confined_intros]: "sound_env env \<Longrightarrow> confined (e_ctx env) (exchange env req)"
  unfolding exchange_def Let_def
  by (intro confined_intros) (auto intro!: confined_intros simp: sound_env_def sound_oauth_def split: prod.splits)

lemma confined_mint_from_token [confined_intros]:
  "sound_env env \<Longrightarrow> confined (e_ctx env) (mint_from_token env target client tok ss ow url)"
  unfolding mint_from_token_def store_refresh_token_def expires_at_from_def Let_def
  by (intro confined_intros) (auto intro: confined_put_hook)

lemma confined_name_loop [confined_intros]: "confined (e_ctx env) (name_loop env inp name n)"
proof (induction "1001 - n" arbitrary: name n rule: less_induct)
  case less
  then show ?case
    by (subst name_loop.simps) (auto intro!: confined_intros simp: connection_name_taken_def)
qed

lemma confined_random [confined_intros]: "confined c (random_value f)"
  by (auto simp: confined_def random_value_def agree_iff)

lemma confined_start [confined_intros]: "sound_env env \<Longrightarrow> confined (e_ctx env) (oauth_start env inp)"
  unfolding oauth_start_def start_client_credentials_def start_authorization_code_def free_connection_name_def
    start_mapped_def owned_keys_or_def Let_def
  by (intro confined_intros) (auto intro!: confined_intros split: scope_policy.splits sum.splits)

lemma confined_complete [confined_intros]:
  "confined (e_ctx env) (oauth_cancel env state)"
  "sound_env env \<Longrightarrow> confined (e_ctx env) (oauth_complete env inp)"
  unfolding oauth_complete_def oauth_cancel_def redeem_session_def delete_session_def session_expired_def Let_def
  subgoal by (intro confined_intros) simp_all
  subgoal by (intro confined_intros) simp_all
  done

lemma confined_oauth_probe [confined_intros]: "sound_env env \<Longrightarrow> confined (e_ctx env) (oauth_probe env url)"
  unfolding oauth_probe_def by (intro confined_intros confined_web_of)

end
