(* ===== verification/Executor.thy ===== *)
theory Executor
  imports ServiceLaws OAuthService
begin

text \<open>
  The executor as its callers see it: every operation is confined to what its context may touch
  (\<open>confined\<close>), so a session of calls is isolated from the rows of other subjects and tenants, and
  a schedule of calls by several executors spares the private rows of a user none of them is
  bound to. What this rests on is \<open>sound_env\<close>: plugins, providers and handlers reach the storage
  only through the facades they are given.
\<close>

section \<open>The remaining operations are confined\<close>

lemma confined_notify [confined_intros]: "confined c (notify_integration_change env ev)"
  unfolding notify_integration_change_def by (intro confined_intros)

lemma confined_remove_hook [confined_intros]: "sound_env env \<Longrightarrow> confined (e_ctx env) (run_remove_hook env ex)"
  unfolding run_remove_hook_def by (intro confined_intros) (auto dest: sound_find_plugin simp: sound_plugin_def)

lemma confined_integration_reads [confined_intros]:
  "confined (e_ctx env) (integrations_get env slug)"
  "confined (e_ctx env) (integrations_get_record env slug)"
  "confined (e_ctx env) (integration_health_check_get env slug)"
  unfolding integrations_get_def integrations_get_record_def integration_health_check_get_def
  by (intro confined_intros)+

lemma confined_integrations_register [confined_intros]: "confined (e_ctx env) (integrations_register env p inp)"
  unfolding integrations_register_def Let_def by (intro confined_intros) simp_all

lemma confined_integrations_update [confined_intros]:
  "confined (e_ctx env) (integrations_update env slug patch)"
  "confined (e_ctx env) (integrations_update_public env slug patch)"
  unfolding integrations_update_public_def integrations_update_def
  by (intro confined_intros; simp split: option.splits)+

lemma confined_set_health [confined_intros]: "confined (e_ctx env) (integration_set_health_check env slug spec)"
  unfolding integration_set_health_check_def by (intro confined_intros) simp_all

lemma confined_integrations_remove [confined_intros]:
  "sound_env env \<Longrightarrow> confined (e_ctx env) (integrations_remove env slug)"
  unfolding integrations_remove_def remove_integration_tx_def drop_integration_rows_def Let_def
  by (intro confined_intros) simp_all

lemma confined_candidates [confined_intros]:
  "sound_env env \<Longrightarrow> confined (e_ctx env) (integration_health_check_candidates env slug)"
  unfolding integration_health_check_candidates_def
  by (intro confined_intros) (auto dest: sound_find_plugin simp: sound_plugin_def)

lemma confined_detect_hook:
  "sound_env env \<Longrightarrow> pl \<in> set (x_plugins env) \<Longrightarrow> pl_detect pl = Some f \<Longrightarrow> confined (e_ctx env) (f u)"
  by (auto simp: sound_env_def sound_plugin_def)

lemma confined_mapM_on:
  "(\<And>x. x \<in> set xs \<Longrightarrow> confined c (f x)) \<Longrightarrow> confined c (eff_mapM f xs)"
  by (induction xs) (auto intro!: confined_intros)

lemma confined_integrations_detect [confined_intros]:
  "sound_env env \<Longrightarrow> confined (e_ctx env) (integrations_detect env url)"
  unfolding integrations_detect_def
  by (intro confined_map confined_mapM_on confined_option confined_return confined_plugin_failure confined_detect_hook)

section \<open>The executor's surface\<close>

text \<open>
  Every call of the executor (the \<open>base\<close> object \<open>createExecutor\<close> returns, less
  \<open>pendingApprovals\<close> and \<open>close\<close>) and, beside them, the calls the plugins have through their
  context (registering an integration, minting a connection, marking its tools stale, reading
  and writing credentials), with the outcome each hands back.
\<close>

datatype 'x api_call =
    IntegrationsList
  | IntegrationsGet string
  | IntegrationsRegister string register_input
  | IntegrationsUpdate string integration_patch
  | IntegrationsRemove string
  | IntegrationsDetect string
  | HealthCheckGet string
  | HealthCheckCandidates string
  | HealthCheckSet string "jsval option"
  | ConnectionsCreate create_input
  | ConnectionsMint mint_input
  | ConnectionsList "string option" "owner option"
  | ConnectionsGet conn_ref
  | ConnectionsUpdate conn_ref jsval jsval
  | ConnectionsRemove conn_ref
  | ConnectionsRefresh conn_ref
  | ConnectionsMarkToolsStale conn_ref
  | ConnectionsCheckHealth conn_ref "int option"
  | ConnectionsValidate validate_input
  | ToolsList tool_filter
  | ToolsSchema string
  | ProvidersItems string
  | ProvidersGet string string
  | ProvidersSetDefault string string
  | ProvidersRemove string string
  | PoliciesList
  | PoliciesCreate create_policy_input
  | PoliciesUpdate update_policy_input
  | PoliciesRemove owner string
  | PoliciesResolve string
  | ArtifactsList
  | ArtifactsGet string
  | ArtifactsSave save_artifact_input
  | ArtifactsSetPreview string string
  | ArtifactsRename string string
  | ArtifactsRemove string
  | Execute string jsval "'x handler option"
  | OauthCreateClient create_client_input
  | OauthRemoveClient owner string
  | OauthRegisterDynamicClient register_dynamic_input
  | OauthListClients
  | OauthStart start_input
  | OauthComplete complete_input
  | OauthCancel string
  | OauthProbe string

datatype api_result =
    RUnit
  | RJson jsval
  | RJsons "jsval list"
  | RJsonOpt "jsval option"
  | RText "string option"
  | RIntegrations "integration_view list"
  | RIntegration "integration_view option"
  | RConnections "connection_view list"
  | RConnection "connection_view option"
  | RTools "tool_view list"
  | RSchema "tool_schema_view option"
  | RPolicies "policy_row list"
  | REffective effective_policy
  | RSummaries "artifact_summary list"
  | RArtifact artifact
  | RClients "client_summary list"
  | RConnect connect_result
  | RProbe probe_result

type_synonym preview = "jsval \<Rightarrow> jsval \<Rightarrow> (string \<times> jsval) list \<Rightarrow> jsval option"

fun run_api :: "preview \<Rightarrow> 'x exec_env \<Rightarrow> 'x api_call \<Rightarrow> ('x, api_result) eff" where
  "run_api pv env IntegrationsList = eff_map RIntegrations (integrations_list env)"
| "run_api pv env (IntegrationsGet s) = eff_map RIntegration (integrations_get env s)"
| "run_api pv env (IntegrationsRegister p i) = eff_map (\<lambda>_. RUnit) (integrations_register env p i)"
| "run_api pv env (IntegrationsUpdate s p) = eff_map (\<lambda>_. RUnit) (integrations_update_public env s p)"
| "run_api pv env (IntegrationsRemove s) = eff_map (\<lambda>_. RUnit) (integrations_remove env s)"
| "run_api pv env (IntegrationsDetect u) = eff_map RJsons (integrations_detect env u)"
| "run_api pv env (HealthCheckGet s) = eff_map RJsonOpt (integration_health_check_get env s)"
| "run_api pv env (HealthCheckCandidates s) = eff_map RJsons (integration_health_check_candidates env s)"
| "run_api pv env (HealthCheckSet s h) = eff_map (\<lambda>_. RUnit) (integration_set_health_check env s h)"
| "run_api pv env (ConnectionsCreate i) = eff_map (RConnection \<circ> Some) (connections_create env i)"
| "run_api pv env (ConnectionsMint i) = eff_map (RConnection \<circ> Some) (mint_oauth_connection env i)"
| "run_api pv env (ConnectionsList i ow) = eff_map RConnections (connections_list env i ow)"
| "run_api pv env (ConnectionsGet r) = eff_map RConnection (connections_get env r)"
| "run_api pv env (ConnectionsUpdate r d l) = eff_map (RConnection \<circ> Some) (connections_update env r d l)"
| "run_api pv env (ConnectionsRemove r) = eff_map (\<lambda>_. RUnit) (connections_remove env r)"
| "run_api pv env (ConnectionsRefresh r) = eff_map RTools (connections_refresh env r)"
| "run_api pv env (ConnectionsMarkToolsStale r) = eff_map (\<lambda>_. RUnit) (connections_mark_tools_stale env r)"
| "run_api pv env (ConnectionsCheckHealth r t) = eff_map RJson (connection_check_health env r t)"
| "run_api pv env (ConnectionsValidate i) = eff_map RJson (connection_validate env i)"
| "run_api pv env (ToolsList f) = eff_map RTools (tools_list env f)"
| "run_api pv env (ToolsSchema a) = eff_map RSchema (tool_schema pv env a)"
| "run_api pv env (ProvidersItems k) = eff_map RJsons (providers_items env k)"
| "run_api pv env (ProvidersGet k i) = eff_map RText (providers_get env k i)"
| "run_api pv env (ProvidersSetDefault i v) = eff_map (RText \<circ> Some) (providers_set_default env i v)"
| "run_api pv env (ProvidersRemove k i) = eff_map (\<lambda>_. RUnit) (providers_remove env k i)"
| "run_api pv env PoliciesList = eff_map RPolicies (policies_list env)"
| "run_api pv env (PoliciesCreate i) = eff_map (RPolicies \<circ> (\<lambda>p. [p])) (policies_create env i)"
| "run_api pv env (PoliciesUpdate i) = eff_map (RPolicies \<circ> (\<lambda>p. [p])) (policies_update env i)"
| "run_api pv env (PoliciesRemove ow i) = eff_map (\<lambda>_. RUnit) (policies_remove env ow i)"
| "run_api pv env (PoliciesResolve a) = eff_map REffective (policies_resolve env a)"
| "run_api pv env ArtifactsList = eff_map RSummaries (artifacts_list env)"
| "run_api pv env (ArtifactsGet i) = eff_map RArtifact (artifacts_get env i)"
| "run_api pv env (ArtifactsSave i) = eff_map RArtifact (artifacts_save env i)"
| "run_api pv env (ArtifactsSetPreview i p) = eff_map (\<lambda>_. RUnit) (artifacts_set_preview env i p)"
| "run_api pv env (ArtifactsRename i t) = eff_map RArtifact (artifacts_rename env i t)"
| "run_api pv env (ArtifactsRemove i) = eff_map (\<lambda>_. RUnit) (artifacts_remove env i)"
| "run_api pv env (Execute a args h) = eff_map RJson (execute env a args h)"
| "run_api pv env (OauthCreateClient i) = eff_map (RText \<circ> Some) (oauth_create_client env i)"
| "run_api pv env (OauthRemoveClient ow s) = eff_map (\<lambda>_. RUnit) (oauth_remove_client env ow s)"
| "run_api pv env (OauthRegisterDynamicClient i) = eff_map (RText \<circ> Some) (oauth_register_dynamic_client env i)"
| "run_api pv env OauthListClients = eff_map RClients (oauth_list_clients env)"
| "run_api pv env (OauthStart i) = eff_map RConnect (oauth_start env i)"
| "run_api pv env (OauthComplete i) = eff_map (RConnection \<circ> Some) (oauth_complete env i)"
| "run_api pv env (OauthCancel s) = eff_map (\<lambda>_. RUnit) (oauth_cancel env s)"
| "run_api pv env (OauthProbe u) = eff_map RProbe (oauth_probe env u)"

fun sound_call :: "owner_ctx \<Rightarrow> 'x api_call \<Rightarrow> bool" where
  "sound_call c (Execute a args (Some h)) = sound_handler c h"
| "sound_call c _ = True"

lemma confined_api:
  assumes "sound_env env" "sound_call (e_ctx env) call"
  shows "confined (e_ctx env) (run_api pv env call)"
  using assms by (cases call) (auto intro!: confined_intros split: option.splits)

text \<open>A session of one executor, and a schedule of the calls of several.\<close>

fun run_session :: "preview \<Rightarrow> 'x exec_env \<Rightarrow> 'x api_call list \<Rightarrow> 'x world \<Rightarrow> (failure + api_result) list \<times> 'x world" where
  "run_session pv env [] w = ([], w)"
| "run_session pv env (c # cs) w =
     (case run_api pv env c w of (r, w1) \<Rightarrow> (case run_session pv env cs w1 of (rs, w2) \<Rightarrow> (r # rs, w2)))"

fun run_schedule :: "preview \<Rightarrow> ('x exec_env \<times> 'x api_call) list \<Rightarrow> 'x world \<Rightarrow> (failure + api_result) list \<times> 'x world" where
  "run_schedule pv [] w = ([], w)"
| "run_schedule pv ((env, c) # cs) w =
     (case run_api pv env c w of (r, w1) \<Rightarrow> (case run_schedule pv cs w1 of (rs, w2) \<Rightarrow> (r # rs, w2)))"

lemma session_confined:
  assumes "sound_env env" "\<forall>c \<in> set calls. sound_call (e_ctx env) c"
  shows "spared (e_ctx env) (w_db w) (w_db (snd (run_session pv env calls w))) \<and>
    (agree (e_ctx env) w w' \<longrightarrow> fst (run_session pv env calls w) = fst (run_session pv env calls w') \<and>
       agree (e_ctx env) (snd (run_session pv env calls w)) (snd (run_session pv env calls w')))"
  using assms(2)
proof (induction calls arbitrary: w w')
  case (Cons c cs)
  then have c: "confined (e_ctx env) (run_api pv env c)" using confined_api [OF assms(1)] by simp
  obtain r v r' v' where v: "run_api pv env c w = (r, v)" "run_api pv env c w' = (r', v')" by (metis surj_pair)
  have one: "spared (e_ctx env) (w_db w) (w_db v)" using c v(1) by (metis confined_def snd_conv)
  have two: "agree (e_ctx env) w w' \<Longrightarrow> r = r' \<and> agree (e_ctx env) v v'"
    using c v unfolding confined_def by (metis fst_conv snd_conv)
  note IH = Cons.IH [of v v'] 
  have "\<forall>c \<in> set cs. sound_call (e_ctx env) c" using Cons.prems by simp
  with IH one two v show ?case by (auto split: prod.splits intro: spared_trans)
qed simp

text \<open>C1: a session of calls depends on the world only through the rows its executor may see: over
  two databases that differ in the rows of other subjects or tenants, every call has the same
  outcome, and what the executor can see, the notifications and the outside end the same.\<close>

theorem session_isolated:
  assumes "sound_env env" "\<forall>c \<in> set calls. sound_call (e_ctx env) c" "agree (e_ctx env) w w'"
  shows "fst (run_session pv env calls w) = fst (run_session pv env calls w') \<and>
    agree (e_ctx env) (snd (run_session pv env calls w)) (snd (run_session pv env calls w'))"
  using session_confined [OF assms(1,2), of w pv w'] assms(3) by blast

text \<open>C3: an executor of the platform view changes no stored row outside the blob store, whatever
  is asked of it.\<close>

theorem platform_session_read_only:
  assumes "sound_env env" "\<forall>c \<in> set calls. sound_call (e_ctx env) c" "read_only (e_ctx env)" "t \<noteq> ''blob''"
  shows "w_db (snd (run_session pv env calls w)) t = w_db w t"
  using session_confined [OF assms(1,2), of w pv w] assms(3,4) by (simp add: spared_def)

definition private_row :: "string \<Rightarrow> string \<Rightarrow> row \<Rightarrow> bool" where
  "private_row tn s r \<longleftrightarrow> r ''tenant'' = JStr tn \<and> r ''owner'' = JStr ''user'' \<and> r ''subject'' = JStr s"

definition stranger :: "string \<Rightarrow> string \<Rightarrow> owner_ctx \<Rightarrow> bool" where
  "stranger tn s c \<longleftrightarrow> oc_tenant c \<noteq> tn \<or> oc_subject c \<noteq> Some s"

lemma spared_private:
  assumes "spared c d d'" "stranger tn s c" "t \<notin> {''integration'', ''subject'', ''blob''}"
  shows "filter (private_row tn s) (d' t) = filter (private_row tn s) (d t)"
proof (cases "oc_reach c = TenantReach")
  case True
  with assms(1,3) show ?thesis by (simp add: spared_def read_only_def)
next
  case False
  have "private_row tn s r \<Longrightarrow> \<not> vis_of c t r" for r
    using assms(2,3) False by (auto simp: vis_of_def visible_owned_def private_row_def stranger_def)
  then have "filter (private_row tn s) xs = filter (private_row tn s) (filter (\<lambda>r. \<not> vis_of c t r) xs)" for xs
    by (auto intro!: filter_cong)
  moreover have "filter (\<lambda>r. \<not> vis_of c t r) (d' t) = filter (\<lambda>r. \<not> vis_of c t r) (d t)"
    using assms(1) by (metis spared_def unseen_at)
  ultimately show ?thesis by metis
qed

text \<open>C2: a user's rows (connections, tools, policies, artifacts, OAuth clients and sessions, plugin
  storage) come through any schedule of calls by executors bound to other subjects or tenants
  unchanged, in the same order.\<close>

theorem schedule_spares_private_rows:
  assumes "\<forall>(env, c) \<in> set sched. sound_env env \<and> sound_call (e_ctx env) c \<and> stranger tn s (e_ctx env)"
    and "t \<notin> {''integration'', ''subject'', ''blob''}"
  shows "filter (private_row tn s) (w_db (snd (run_schedule pv sched w)) t) = filter (private_row tn s) (w_db w t)"
  using assms(1)
proof (induction sched arbitrary: w)
  case (Cons a sched)
  obtain env c where a: "a = (env, c)" by (cases a)
  obtain r v where v: "run_api pv env c w = (r, v)" by (cases "run_api pv env c w")
  have "confined (e_ctx env) (run_api pv env c)" using Cons.prems a confined_api [of env c] by simp
  then have "spared (e_ctx env) (w_db w) (w_db v)" using v by (metis confined_def snd_conv)
  then have "filter (private_row tn s) (w_db v t) = filter (private_row tn s) (w_db w t)"
    using Cons.prems a assms(2) by (intro spared_private) auto
  moreover have "\<forall>(env, c) \<in> set sched. sound_env env \<and> sound_call (e_ctx env) c \<and> stranger tn s (e_ctx env)"
    using Cons.prems by simp
  note Cons.IH [OF this, of v]
  ultimately show ?case using a v by (auto split: prod.splits)
qed simp

lemma session_isolated_witness:
  "fst (run_session (\<lambda>_ _ _. None) small_env [ConnectionsList None None, Execute ''tools.api.org.main.get'' JUndef None]
      (small_world small_db [])) =
   fst (run_session (\<lambda>_ _ _. None) small_env [ConnectionsList None None, Execute ''tools.api.org.main.get'' JUndef None]
      (small_world (small_db(''connection'' := user_row ''t1'' ''bob'' # small_db ''connection'')) []))"
  by (rule session_isolated [THEN conjunct1, OF small_env_sound])
    (auto simp: agree_iff small_world_def seen_def vis_of_def fun_eq_iff small_env_def small_ctx_def
      user_row_def visible_owned_def)

lemma platform_session_read_only_witness:
  "w_db (snd (run_session (\<lambda>_ _ _. None) (small_env\<lparr>e_ctx := small_ctx\<lparr>oc_writes := Denied\<rparr>\<rparr>)
      [IntegrationsRemove ''api'', ToolsList no_filter] (small_world small_db []))) ''integration'' = [api_row]"
proof -
  have "sound_env (small_env\<lparr>e_ctx := small_ctx\<lparr>oc_writes := Denied\<rparr>\<rparr>)"
    by (auto simp: sound_env_def small_env_def sound_provider_def vault_def confined_vault sound_plugin_def
      small_plugin_def ping_tool_def sound_handler_def sound_oauth_def small_oauth_def intro: confined_intros)
  from platform_session_read_only [OF this, of "[IntegrationsRemove ''api'', ToolsList no_filter]" "''integration''"]
  show ?thesis by (simp add: read_only_def small_world_def small_db_def)
qed

lemma schedule_spares_private_rows_witness:
  "filter (private_row ''t1'' ''bob'') (w_db (snd (run_schedule (\<lambda>_ _ _. None)
     [(small_env, ConnectionsRemove \<lparr>rf_owner = User, rf_integration = ''api'', rf_name = ''main''\<rparr>),
      (small_env, IntegrationsRemove ''api'')]
     (small_world (small_db(''connection'' := [user_row ''t1'' ''bob''])) []))) ''connection'') = [user_row ''t1'' ''bob'']"
  using schedule_spares_private_rows [of "[(small_env, ConnectionsRemove \<lparr>rf_owner = User, rf_integration = ''api'', rf_name = ''main''\<rparr>),
      (small_env, IntegrationsRemove ''api'')]" "''t1''" "''bob''" "''connection''" "\<lambda>_ _ _. None"
      "small_world (small_db(''connection'' := [user_row ''t1'' ''bob''])) []"]
  by (simp add: small_env_sound stranger_def small_world_def private_row_def user_row_def) (simp add: small_env_def small_ctx_def)

end
