(* ===== verification/ExecuteLaws.thy ===== *)
theory ExecuteLaws
  imports Executor
begin

text \<open>
  Laws of the invoke path: when a stored tool is not run, what a rejected refresh token leaves
  behind, and what pasting a key over a signed-in connection keeps.
\<close>

section \<open>Tools that are not run\<close>

text \<open>What \<open>execute\<close> has read before it decides on a stored tool.\<close>

definition about_to_run ::
  "'x exec_env \<Rightarrow> string \<Rightarrow> 'x world \<Rightarrow> tool_ref \<Rightarrow> row \<Rightarrow> row list \<Rightarrow> bool" where
  "about_to_run env address w p r rules \<longleftrightarrow>
     x_policy_provider env = None \<and> map_of (x_statics env) address = None \<and>
     parse_tool_address address = Some p \<and>
     orm_find_first tool_table (e_ctx env) ((find_where (tool_where env p))\<lparr>fi_select := Some TOOL_INVOCATION_COLUMNS\<rparr>)
       (w_db w) = Inr (Some r) \<and>
     orm_find_many tool_policy_table (e_ctx env) find_all (w_db w) = Inr rules"

lemma rule_set_global:
  "x_policy_provider env = None \<Longrightarrow> orm_find_many tool_policy_table (e_ctx env) find_all (w_db w) = Inr rules \<Longrightarrow>
   list_active_policy_rule_set env w = (Inr (GlobalRules rules), w)"
  by (simp add: list_active_policy_rule_set_def eff_map_def eff_bind_step core_find_many_Inr)

lemma execute_reaches:
  assumes "about_to_run env address w p r rules"
  shows "execute env address args options w = execute_stored env address args (pick_handler env options) p r w"
  using assms by (simp add: about_to_run_def execute_def eff_bind_step core_find_first_Inr)

lemma requires_view: "requires_approval (decode_json_column json (r ''annotations'')) =
    requires_approval (tv_annotations (row_to_tool json r JUndef))"
  by (simp add: row_to_tool_def coalesce_def)

lemma stored_reaches:
  assumes "about_to_run env address w p r rules"
  shows "execute_stored env address args h p r w =
    (let policy = stored_policy rules (row_to_tool (x_json env) r JUndef);
         annotations = decode_json_column (x_json env) (r ''annotations'') in
     if ep_action policy = Block then (Inl (blocked address policy), w)
     else case find_plugin env (row_str r ''plugin_id'') of
         None \<Rightarrow> (Inl (FPluginNotLoaded address (row_str r ''plugin_id'')), w)
       | Some pl \<Rightarrow>
           (case pl_invoke_tool pl of
              None \<Rightarrow> (Inl (FNoHandler address (row_str r ''plugin_id'')), w)
            | Some invoke_tool \<Rightarrow>
                execute_loaded env address args h p r annotations policy pl invoke_tool w))"
  using assms
  by (auto simp: about_to_run_def execute_stored_def eff_bind_step [OF rule_set_global] stored_policy_def requires_view
      Let_def split: option.splits)

text \<open>C8: a stored tool whose effective policy is \<open>block\<close> is not run: the call fails and the world is
  as it was: no plugin hook, no credential provider, no elicitation was asked.\<close>

theorem blocked_tool_not_run:
  assumes "about_to_run env address w p r rules"
    and "ep_action (stored_policy rules (row_to_tool (x_json env) r JUndef)) = Block"
  shows "\<exists>pattern. execute env address args options w = (Inl (FToolBlocked address pattern), w)"
  using assms by (simp add: execute_reaches stored_reaches Let_def blocked_def)



text \<open>The same executor with other invoke hooks, credential providers and token endpoint.\<close>

definition rewired ::
  "(row \<Rightarrow> credential \<Rightarrow> jsval \<Rightarrow> 'x elicit \<Rightarrow> ('x, jsval) eff) \<Rightarrow> 'x provider list \<Rightarrow>
   (oauth_request \<Rightarrow> ('x, oauth_failure + oauth_token) eff) \<Rightarrow> 'x exec_env \<Rightarrow> 'x exec_env" where
  "rewired invoke_tool providers endpoint env =
     env\<lparr>x_plugins := map (\<lambda>pl. pl\<lparr>pl_invoke_tool := map_option (\<lambda>_. invoke_tool) (pl_invoke_tool pl)\<rparr>) (x_plugins env),
         x_providers := providers, x_token_endpoint := endpoint\<rparr>"

lemma find_mapped: "(\<And>a. P (f a) = P a) \<Longrightarrow> find P (map f xs) = map_option f (find P xs)"
  by (induction xs) auto

lemma rewired_simps [simp]:
  "e_ctx (rewired i ps t env) = e_ctx env" "x_json (rewired i ps t env) = x_json env"
  "x_statics (rewired i ps t env) = x_statics env" "x_policy_provider (rewired i ps t env) = x_policy_provider env"
  "find_plugin (rewired i ps t env) k =
     map_option (\<lambda>pl. pl\<lparr>pl_invoke_tool := map_option (\<lambda>_. i) (pl_invoke_tool pl)\<rparr>) (find_plugin env k)"
proof -
  show "find_plugin (rewired i ps t env) k =
     map_option (\<lambda>pl. pl\<lparr>pl_invoke_tool := map_option (\<lambda>_. i) (pl_invoke_tool pl)\<rparr>) (find_plugin env k)"
    by (simp add: find_plugin_def rewired_def find_mapped)
qed (simp_all add: rewired_def)












definition rule_row :: "string \<Rightarrow> row" where
  "rule_row action = prop_of (org_keys @ [(''id'', JStr ''p1''), (''pattern'', JStr ''api.*''),
     (''action'', JStr action), (''position'', JStr ''a0'')])"

definition ruled_world :: "string \<Rightarrow> items world" where
  "ruled_world action = small_world (small_db(''tool_policy'' := [rule_row action])) []"

definition get_ref :: tool_ref where
  "get_ref = \<lparr>tr_integration = ''api'', tr_owner = Org, tr_connection = ''main'', tr_tool = ''get''\<rparr>"

lemma ruled_lookup:
  "(case orm_find_first tool_table (e_ctx small_env) ((find_where (tool_where small_env get_ref))\<lparr>fi_select := Some TOOL_INVOCATION_COLUMNS\<rparr>)
       (w_db (ruled_world action)) of Inr (Some r) \<Rightarrow>
      (case orm_find_many tool_policy_table (e_ctx small_env) find_all (w_db (ruled_world action)) of Inr rules \<Rightarrow>
         stored_policy rules (row_to_tool (x_json small_env) r JUndef) =
           \<lparr>ep_action = action_of (JStr action), ep_source = FromUser, ep_pattern = Some ''api.*'', ep_policy_id = Some ''p1''\<rparr>
       | _ \<Rightarrow> False) | _ \<Rightarrow> False)"
  by code_simp

lemma ruled_ready:
  assumes "action_of (JStr action) = act"
  obtains r rules where "about_to_run small_env ''tools.api.org.main.get'' (ruled_world action) get_ref r rules"
    "ep_action (stored_policy rules (row_to_tool (x_json small_env) r JUndef)) = act"
proof -
  have "x_policy_provider small_env = None \<and> map_of (x_statics small_env) ''tools.api.org.main.get'' = None \<and>
     parse_tool_address ''tools.api.org.main.get'' = Some get_ref" by code_simp
  moreover obtain r where r: "orm_find_first tool_table (e_ctx small_env) ((find_where (tool_where small_env get_ref))\<lparr>fi_select := Some TOOL_INVOCATION_COLUMNS\<rparr>)
       (w_db (ruled_world action)) = Inr (Some r)"
    using ruled_lookup [of action] by (auto split: sum.splits option.splits)
  moreover obtain rules where "orm_find_many tool_policy_table (e_ctx small_env) find_all (w_db (ruled_world action)) = Inr rules"
    using ruled_lookup [of action] r by (auto split: sum.splits)
  ultimately show thesis
    using ruled_lookup [of action] assms by (intro that [of r rules]) (simp_all add: about_to_run_def)
qed

lemma blocked_tool_not_run_witness:
  "\<exists>pattern. execute small_env ''tools.api.org.main.get'' JUndef None (ruled_world ''block'') =
     (Inl (FToolBlocked ''tools.api.org.main.get'' pattern), ruled_world ''block'')"
proof -
  have "action_of (JStr ''block'') = Block" by code_simp
  then obtain r rules where "about_to_run small_env ''tools.api.org.main.get'' (ruled_world ''block'') get_ref r rules"
    "ep_action (stored_policy rules (row_to_tool (x_json small_env) r JUndef)) = Block" by (rule ruled_ready)
  then show ?thesis by (rule blocked_tool_not_run)
qed


section \<open>Dead grants\<close>

lemma refresh_invalid_grant:
  assumes "truthy (r ''refresh_item_id'')" "pv_get pv (row_str r ''refresh_item_id'') w = (Inr (Some tok), w1)" "tok \<noteq> []"
    and "x_token_endpoint env (rq\<lparr>oq_refresh_token := Some tok\<rparr>) w1 = (Inr (Inl f), w2)"
    and "of_error f = Some ''invalid_grant''" "\<not> read_only (e_ctx env)"
  shows "\<exists>w' t ps e. refresh_token_grant env r pv rq w = (Inl e, w') \<and> reauth_required e \<noteq> None \<and>
    (\<forall>r' \<in> set (w_db w' ''connection''). selects env (connection_where env (row_ref r)) r' \<longrightarrow>
       r' ''provider_state'' = JObj (obj_set ps ''oauthReauthRequiredAt'' (JNum t)))"
proof -
  let ?m = "''OAuth token refresh was rejected (invalid_grant): '' @ of_message f"
  obtain w' t ps where dead: "mark_refresh_grant_dead env r ?m w2 = (Inr (), w')"
    and rows: "\<forall>r' \<in> set (w_db w' ''connection''). selects env (connection_where env (row_ref r)) r' \<longrightarrow>
       r' ''provider_state'' = JObj (obj_set ps ''oauthReauthRequiredAt'' (JNum t))"
    using mark_dead_exact [OF assms(6)] by blast
  have "refresh_token_grant env r pv rq w =
      (Inl (FCredentialResolution (row_label r) ?m (Some ''invalid_grant'') True), w')"
    using assms(1-5) dead
    by (simp add: refresh_token_grant_def eff_bind_step nonempty_def eff_tap_error_def eff_catch_def
        refresh_grant_failure_def reauth_required_def eff_result_def)
  with rows show ?thesis by (auto simp: reauth_required_def)
qed

text \<open>C10: a refresh token the authorization server has rejected with \<open>invalid_grant\<close> is never sent again:
  every stored row of the connection is marked, and refreshing from such a row fails at once, with
  a failure that asks for a new sign-in, before any provider or server is called.\<close>

theorem dead_grant_not_resent:
  assumes "truthy (r ''refresh_item_id'')" "pv_get pv (row_str r ''refresh_item_id'') w = (Inr (Some tok), w1)" "tok \<noteq> []"
    and "x_token_endpoint env (rq\<lparr>oq_refresh_token := Some tok\<rparr>) w1 = (Inr (Inl f), w2)"
    and "of_error f = Some ''invalid_grant''" "\<not> read_only (e_ctx env)"
  shows "\<exists>e w'. refresh_token_grant env r pv rq w = (Inl e, w') \<and> reauth_required e \<noteq> None \<and>
    (\<forall>r' \<in> set (w_db w' ''connection''). selects env (connection_where env (row_ref r)) r' \<longrightarrow>
       (\<forall>pv' v. \<exists>e'. perform_token_refresh env r' pv' v = (Inl e', v) \<and> reauth_required e' \<noteq> None))"
proof -
  obtain w' t ps e where e: "refresh_token_grant env r pv rq w = (Inl e, w')" "reauth_required e \<noteq> None"
    and rows: "\<forall>r' \<in> set (w_db w' ''connection''). selects env (connection_where env (row_ref r)) r' \<longrightarrow>
       r' ''provider_state'' = JObj (obj_set ps ''oauthReauthRequiredAt'' (JNum t))"
    using refresh_invalid_grant [OF assms] by blast
  have "\<exists>e'. perform_token_refresh env r' pv' v = (Inl e', v) \<and> reauth_required e' \<noteq> None"
    if "r' \<in> set (w_db w' ''connection'')" "selects env (connection_where env (row_ref r)) r'" for r' pv' v
    using dead_grant_fails [of env r' pv' v] rows that reauth_marked [of "x_json env" ps t] by auto
  with e show ?thesis by blast
qed

definition oauth_row :: row where
  "oauth_row = prop_of (org_keys @ [(''integration'', JStr ''api''), (''name'', JStr ''main''),
     (''template'', JStr ''oauth''), (''provider'', JStr ''vault''), (''item_ids'', JObj []),
     (''oauth_client'', JStr ''app''), (''refresh_item_id'', JStr ''r1''), (''expires_at'', JNum 0)])"

definition rejecting_env :: "items exec_env" where
  "rejecting_env = small_env\<lparr>x_token_endpoint :=
     (\<lambda>rq. eff_return (Inl \<lparr>of_error = Some ''invalid_grant'', of_message = ''gone''\<rparr>))\<rparr>"

lemma dead_grant_not_resent_witness:
  "\<exists>e w'. refresh_token_grant rejecting_env oauth_row vault
       \<lparr>oq_grant = ''refresh_token'', oq_token_url = ''u'', oq_client_id = ''c'', oq_client_secret = [],
        oq_refresh_token = None, oq_scopes = [], oq_resource = None\<rparr>
       (small_world (small_db(''connection'' := [oauth_row])) [(''r1'', ''old'')]) = (Inl e, w')"
proof -
  have "truthy (oauth_row ''refresh_item_id'')" "row_str oauth_row ''refresh_item_id'' = ''r1''" by code_simp+
  moreover have "pv_get vault ''r1'' (small_world (small_db(''connection'' := [oauth_row])) [(''r1'', ''old'')]) =
      (Inr (Some ''old''), small_world (small_db(''connection'' := [oauth_row])) [(''r1'', ''old'')])"
    by (simp add: vault_def vault_get_def small_world_def)
  moreover have "\<not> read_only (e_ctx rejecting_env)"
    by (simp add: rejecting_env_def small_env_def small_ctx_def read_only_def)
  ultimately show ?thesis
    using dead_grant_not_resent [of oauth_row vault "small_world (small_db(''connection'' := [oauth_row])) [(''r1'', ''old'')]"
      "''old''" _ rejecting_env _ "\<lparr>of_error = Some ''invalid_grant'', of_message = ''gone''\<rparr>"]
    by (fastforce simp: rejecting_env_def)
qed

section \<open>A key pasted over a sign-in\<close>

lemma find_map_if:
  "(\<And>r. P (g r) = P r) \<Longrightarrow> find P (map (\<lambda>r. if P r then g r else r) rows) = map_option g (find P rows)"
  by (induction rows) auto

lemma eff_transaction_pair:
  "(\<And>v. m v = (Inr a, v\<lparr>w_db := g (w_db v)\<rparr>)) \<Longrightarrow>
   \<exists>v. eff_transaction m w = (Inr a, v) \<and> w_db v = g (w_db w) \<and> w_clock v = w_clock w"
  by (simp add: eff_transaction_def)

definition resaved :: "create_input \<Rightarrow> string \<Rightarrow> record_vals \<Rightarrow> int \<Rightarrow> record_vals" where
  "resaved inp pk ids t =
     [(''template'', JStr (ci_template inp)), (''provider'', JStr pk), (''item_ids'', JObj ids),
               (''identity_label'', jopt JStr (ci_identity_label inp))] @
              (case ci_description inp of None \<Rightarrow> [] | Some d \<Rightarrow> [(''description'', JStr d)]) @
              [(''updated_at'', JDate t)]"

lemma resaved_free [simp]: "partition_free (resaved inp pk ids t)"
  by (simp add: resaved_def split: option.splits)

lemma resaved_keeps:
  "k \<notin> {''template'', ''provider'', ''item_ids'', ''identity_label'', ''description'', ''updated_at''} \<Longrightarrow>
   obj_assign r (resaved inp pk ids t) k = r k"
  by (rule obj_assign_other) (auto simp: resaved_def split: option.splits)

lemma resaved_selected:
  "selects env (connection_where env ref) (obj_assign r (resaved inp pk ids t)) = selects env (connection_where env ref) r"
  by (simp add: selects_def connection_where_def by_owner_def cmp_val_def visible_owned_def resaved_keeps)

lemma save_over_existing:
  assumes "\<not> read_only (e_ctx env)" "find_connection_row env ref w = (Inr (Some r), w)"
  shows "\<exists>w'. save_connection_row env inp ref keys pk ids t w = (Inr (), w') \<and> w_clock w' = w_clock w \<and>
    find_connection_row env ref w' = (Inr (Some (obj_assign r (resaved inp pk ids t))), w')"
proof -
  let ?P = "selects env (connection_where env ref)"
  let ?g = "\<lambda>r. obj_assign r (resaved inp pk ids t)"
  have found: "find ?P (w_db w ''connection'') = Some r" using assms(2) by (simp add: find_connection_row_exact)
  define u where "u = (if w_tx w then w else w\<lparr>w_tx := True, w_hooks := []\<rparr>)"
  have u: "w_db u = w_db w" by (simp add: u_def)
  have body: "eff_bind (find_connection_row env ref) (\<lambda>existing. case existing of
         Some _ \<Rightarrow> core_update_many env connection_table (Some (connection_where env ref)) (resaved inp pk ids t)
       | None \<Rightarrow> none) u =
     (Inr (), u\<lparr>w_db := (w_db u)(''connection'' := map (\<lambda>r. if ?P r then ?g r else r) (w_db u ''connection''))\<rparr>)" for none
    by (simp add: eff_bind_def find_connection_row_exact u found owned_update [OF _ assms(1)])
  have after: "find ?P (map (\<lambda>r. if ?P r then ?g r else r) (w_db w ''connection'')) = Some (?g r)"
    using found by (simp add: find_map_if resaved_selected)
  obtain w' where "save_connection_row env inp ref keys pk ids t w = (Inr (), w')" "w_clock w' = w_clock w"
    "w_db w' ''connection'' = map (\<lambda>r. if ?P r then ?g r else r) (w_db w ''connection'')"
    using body unfolding save_connection_row_def resaved_def [symmetric]
    by (cases "w_tx w") (auto simp: eff_transaction_def u_def)
  then show ?thesis using after by (auto simp: find_connection_row_exact)
qed

text \<open>Saving pasted inputs over a connection that was signed in leaves the sign-in in place: the
  stored row keeps its OAuth client, refresh token and expiry beside the new provider and items,
  so once the old token's expiry has come the next resolution does not read the pasted items: it
  refreshes the old grant.\<close>

theorem pasted_key_ignored:
  assumes "\<not> read_only (e_ctx env)" "find_connection_row env ref w = (Inr (Some r), w)"
    and "\<not> nullish (r ''oauth_client'')" "r ''expires_at'' = JNum e" "e \<le> e_now env (w_clock w) + OAUTH2_REFRESH_SKEW_MS"
    and "find_provider env pk = Some pv"
  shows "\<exists>w' r'. save_connection_row env inp ref keys pk ids t w = (Inr (), w') \<and>
    find_connection_row env ref w' = (Inr (Some r'), w') \<and>
    (\<forall>k \<in> {''oauth_client'', ''refresh_item_id'', ''expires_at'', ''provider_state''}. r' k = r k) \<and>
    resolve_connection_values env r' w' =
      eff_bind (perform_token_refresh env r' pv) (\<lambda>access. eff_return [(PRIMARY_INPUT_VARIABLE, access)])
        (w'\<lparr>w_clock := Suc (w_clock w')\<rparr>)"
proof -
  let ?r' = "obj_assign r (resaved inp pk ids t)"
  obtain w' where w': "save_connection_row env inp ref keys pk ids t w = (Inr (), w')" "w_clock w' = w_clock w"
    "find_connection_row env ref w' = (Inr (Some ?r'), w')"
    using save_over_existing [OF assms(1,2)] by blast
  have kept: "\<forall>k \<in> {''oauth_client'', ''refresh_item_id'', ''expires_at'', ''provider_state''}. ?r' k = r k"
    by (simp add: resaved_keeps)
  have provider: "row_str ?r' ''provider'' = pk" by (simp add: row_str_def resaved_def split: option.splits)
  have "resolve_connection_values env ?r' w' =
      eff_bind (perform_token_refresh env ?r' pv) (\<lambda>access. eff_return [(PRIMARY_INPUT_VARIABLE, access)])
        (w'\<lparr>w_clock := Suc (w_clock w')\<rparr>)"
    using assms(3-6) kept w'(2)
    by (simp add: resolve_connection_values_def provider should_refresh_token_def opt_num_def eff_bind_def now_def)
  with w' kept show ?thesis by blast
qed

definition pasted_input :: create_input where
  "pasted_input = \<lparr>ci_owner = Org, ci_integration = ''api'', ci_name = ''main'', ci_template = ''key'',
     ci_inputs = ValueInput ''pasted'', ci_identity_label = None, ci_description = None\<rparr>"

lemma pasted_key_ignored_witness:
  "\<exists>w' r'. save_connection_row small_env pasted_input \<lparr>rf_owner = Org, rf_integration = ''api'', rf_name = ''main''\<rparr>
      org_keys ''vault'' [(''token'', JStr ''connection:org:api:main:token'')] 1
      (small_world (small_db(''connection'' := [oauth_row])) []) = (Inr (), w') \<and> r' ''oauth_client'' = JStr ''app''"
proof -
  have row: "oauth_row ''oauth_client'' = JStr ''app''" "oauth_row ''expires_at'' = JNum 0" by code_simp+
  have "selects small_env (connection_where small_env \<lparr>rf_owner = Org, rf_integration = ''api'', rf_name = ''main''\<rparr>) oauth_row"
    by (simp add: selects_def connection_where_def by_owner_def cmp_val_def visible_owned_def oauth_row_def org_keys_def
        small_env_def small_ctx_def)
  then have "find_connection_row small_env \<lparr>rf_owner = Org, rf_integration = ''api'', rf_name = ''main''\<rparr>
      (small_world (small_db(''connection'' := [oauth_row])) []) =
      (Inr (Some oauth_row), small_world (small_db(''connection'' := [oauth_row])) [])"
    by (simp add: find_connection_row_exact small_world_def)
  moreover have "find_provider small_env ''vault'' = Some vault" "\<not> read_only (e_ctx small_env)"
    by (simp_all add: find_provider_def small_env_def vault_def small_ctx_def read_only_def)
  moreover have "0 \<le> e_now small_env n + OAUTH2_REFRESH_SKEW_MS" for n
    by (simp add: small_env_def OAUTH2_REFRESH_SKEW_MS_def)
  ultimately obtain w' r' where "save_connection_row small_env pasted_input \<lparr>rf_owner = Org, rf_integration = ''api'', rf_name = ''main''\<rparr>
      org_keys ''vault'' [(''token'', JStr ''connection:org:api:main:token'')] 1
      (small_world (small_db(''connection'' := [oauth_row])) []) = (Inr (), w')" "r' ''oauth_client'' = JStr ''app''"
    using pasted_key_ignored [of small_env _ _ oauth_row 0 "''vault''" vault pasted_input org_keys] row
    by (fastforce simp: nullish_def)
  then show ?thesis by blast
qed
end
