(* ===== verification/Engine.thy ===== *)
theory Engine
  imports Execute
begin

text \<open>
  The execution engine (\<open>execution/src/engine.ts\<close>). An execution is a fiber that runs sandboxed
  code; a tool that asks for an answer suspends it, and the client that was told of the pause
  resumes it later. The engine is a transition system: a step is one section of code between two
  suspensions, and fibers, clients and interruptions are free to choose the order. The
  \<open>Deferred\<close>s are the entries of \<open>en_pending\<close> (the resume in flight) and \<open>en_responses\<close> (the answer
  delivered to the waiting tool), the pause queue of a fiber is a list. Before it: how results
  and pauses are shown.
\<close>

section \<open>What a result looks like to the model\<close>

record execute_result =
  xr_result :: jsval
  xr_error :: "string option"
  xr_logs :: "string list option"
  xr_output :: "jsval list option"

record formatted =
  fm_text :: string
  fm_structured :: jsval
  fm_is_error :: bool

definition MAX_PREVIEW_CHARS :: nat where
  "MAX_PREVIEW_CHARS = 30000"

definition truncate_text :: "string \<Rightarrow> nat \<Rightarrow> string" where
  "truncate_text v limit =
     (if length v > limit
      then take limit v @ newline 0 @ ''... [truncated '' @ int_to_string (int (length v - limit)) @ '' chars]''
      else v)"

definition plural :: "nat \<Rightarrow> string" where
  "plural n = (if n = 1 then [] else ''s'')"

definition logs_part :: "execute_result \<Rightarrow> string list" where
  "logs_part res =
     (case xr_logs res of None \<Rightarrow> []
      | Some ls \<Rightarrow> (let t = js_join (newline 0) ls in
          if ls = [] \<or> t = [] then [] else [newline 0 @ ''Logs:'' @ newline 0 @ t]))"

definition format_execute_result :: "execute_result \<Rightarrow> formatted" where
  "format_execute_result res =
     (let result_text = (if nullish (xr_result res) then None
            else case xr_result res of JStr s \<Rightarrow> Some s | v \<Rightarrow> json_pretty 0 v);
          emitted = (case xr_output res of None \<Rightarrow> 0 | Some items \<Rightarrow> length items);
          emitted_field = (if emitted > 0 then [(''emitted'', JNum (int emitted))] else []);
          logs = JArr (map JStr (case xr_logs res of None \<Rightarrow> [] | Some ls \<Rightarrow> ls)) in
      case xr_error res of
        Some (c # cs) \<Rightarrow>
          \<lparr>fm_text = truncate_text (js_join (newline 0) ((''Error: '' @ c # cs) # logs_part res)) MAX_PREVIEW_CHARS,
           fm_structured = JObj ([(''status'', JStr ''error''), (''error'', JStr (c # cs))] @ emitted_field @ [(''logs'', logs)]),
           fm_is_error = True\<rparr>
      | _ \<Rightarrow>
          (let result_part =
             (case result_text of
                Some (c # cs) \<Rightarrow> truncate_text (c # cs) MAX_PREVIEW_CHARS
              | _ \<Rightarrow> if emitted > 0
                     then ''(no return value; '' @ int_to_string (int emitted) @ '' item'' @ plural emitted @ '' emitted to the user)''
                     else ''(no result)'') in
           \<lparr>fm_text = js_join (newline 0) (result_part # logs_part res),
            fm_structured = JObj ([(''status'', JStr ''completed''), (''result'', coalesce (xr_result res) JNull)]
              @ emitted_field @ [(''logs'', logs)]),
            fm_is_error = False\<rparr>))"

text \<open>\<open>Math.round(n / 1000)\<close> of an integer: half rounds up.\<close>

definition format_ttl_duration :: "int \<Rightarrow> string" where
  "format_ttl_duration ttl =
     (let seconds = max 1 ((ttl + 500) div 1000) in
      if seconds mod 60 = 0
      then int_to_string (seconds div 60) @ '' minute'' @ (if seconds div 60 = 1 then [] else ''s'')
      else int_to_string seconds @ '' second'' @ (if seconds = 1 then [] else ''s''))"

section \<open>Paging arguments\<close>

text \<open>Numbers are integers here, so the floor is the number itself.\<close>

definition read_optional_limit :: "jsval \<Rightarrow> string \<Rightarrow> string + int" where
  "read_optional_limit v tool =
     (case v of
        JUndef \<Rightarrow> Inr 12
      | JNum n \<Rightarrow> if n \<le> 0 then Inl (tool @ '' limit must be a positive number when provided'') else Inr n
      | _ \<Rightarrow> Inl (tool @ '' limit must be a positive number when provided''))"

definition read_optional_offset :: "jsval \<Rightarrow> string \<Rightarrow> string + int" where
  "read_optional_offset v tool =
     (case v of
        JUndef \<Rightarrow> Inr 0
      | JNum n \<Rightarrow> if n < 0 then Inl (tool @ '' offset must be a non-negative number when provided'') else Inr n
      | _ \<Rightarrow> Inl (tool @ '' offset must be a non-negative number when provided''))"

section \<open>What a pause looks like\<close>

record paused_execution =
  px_id :: string
  px_address :: string
  px_args :: jsval
  px_request :: jsval

definition base_instructions :: "paused_execution \<Rightarrow> string" where
  "base_instructions p =
     (let rq = px_request p; ident = in_quotes (px_id p) in
      if obj_get rq ''_tag'' = JStr ''UrlElicitation'' then
        ''The user needs to open this URL in a browser and complete the flow. After the user finishes, call the resume tool with executionId ''
          @ ident @ '' and action '' @ in_quotes ''accept'' @ ''.''
      else case (if obj_get rq ''_tag'' = JStr ''FormElicitation'' then obj_get rq ''requestedSchema'' else JUndef) of
        JObj (_ # _) \<Rightarrow>
          ''Ask the user for values matching requestedSchema. Then call the resume tool with executionId '' @ ident
            @ '', action '' @ in_quotes ''accept'' @ '', and content matching requestedSchema. If the user declines, call resume with action ''
            @ in_quotes ''decline'' @ '' or '' @ in_quotes ''cancel'' @ ''.''
      | _ \<Rightarrow>
          ''This is a model-side confirmation gate; there is no browser form to open. Ask the user whether to approve the paused tool call. If the user approves, call the resume tool with executionId ''
            @ ident @ '' and action '' @ in_quotes ''accept'' @ ''. If the user declines, call resume with action ''
            @ in_quotes ''decline'' @ '' or '' @ in_quotes ''cancel'' @ ''.'')"

text \<open>A deadline is its ISO time and its length in milliseconds.\<close>

definition paused_instructions :: "paused_execution \<Rightarrow> (string \<times> int) option \<Rightarrow> string" where
  "paused_instructions p deadline =
     base_instructions p @
     (case deadline of None \<Rightarrow> []
      | Some (at, ttl) \<Rightarrow> '' Resume before '' @ at @ ''; this approval window lasts '' @ format_ttl_duration ttl @ ''.'')"

definition format_paused_execution :: "paused_execution \<Rightarrow> (string \<times> int) option \<Rightarrow> string \<times> jsval" where
  "format_paused_execution p deadline =
     (let rq = px_request p;
          is_url = (obj_get rq ''_tag'' = JStr ''UrlElicitation'');
          is_form = (obj_get rq ''_tag'' = JStr ''FormElicitation'');
          schema = (if is_form then obj_get rq ''requestedSchema'' else JUndef);
          has_schema = (case schema of JObj (_ # _) \<Rightarrow> True | _ \<Rightarrow> False);
          message = js_to_string (obj_get rq ''message'');
          instructions = paused_instructions p deadline;
          body =
            (if is_url then
               [newline 0 @ ''Open this URL in a browser:'' @ newline 0 @ js_to_string (obj_get rq ''url''),
                newline 0 @ ''After the browser flow, call the resume tool with action '' @ in_quotes ''accept'' @ ''.'']
             else if has_schema then
               [newline 0 @ ''Ask the user for a response matching the requested schema, then call the resume tool.'',
                newline 0 @ ''Requested schema:'' @ newline 0 @ (case json_pretty 0 schema of Some t \<Rightarrow> t | None \<Rightarrow> ''undefined'')]
             else
               [newline 0 @ ''This is a model-side confirmation gate; no browser form is waiting. Ask the user whether to approve, then call the resume tool with action ''
                  @ in_quotes ''accept'' @ '', '' @ in_quotes ''decline'' @ '', or '' @ in_quotes ''cancel'' @ ''.'']);
          window = (case deadline of None \<Rightarrow> []
            | Some (at, ttl) \<Rightarrow> [newline 0 @ ''resumeDeadline: '' @ at @ '' ('' @ format_ttl_duration ttl @ '' approval window)'']) in
      (js_join (newline 0) ([''Execution paused: '' @ message] @ body @ [newline 0 @ ''executionId: '' @ px_id p] @ window
          @ [newline 0 @ ''instructions: '' @ instructions]),
       JObj ([(''status'', JStr ''waiting_for_interaction''), (''executionId'', JStr (px_id p))] @
         (case deadline of None \<Rightarrow> [] | Some (at, ttl) \<Rightarrow> [(''expiresAt'', JStr at), (''ttlMs'', JNum ttl)]) @
         [(''interaction'', JObj ([(''kind'', JStr (if is_url then ''url'' else ''form'')),
            (''message'', obj_get rq ''message''), (''instructions'', JStr instructions),
            (''address'', JStr (px_address p)), (''args'', px_args p)] @
            (if is_url then [(''url'', obj_get rq ''url'')] else []) @
            (if is_form then [(''requestedSchema'', obj_get rq ''requestedSchema'')] else [])))])))"

section \<open>The pause and resume machine\<close>

type_synonym fiber_id = nat

datatype 'r exit =
    Completed 'r
  | PausedOn string
  | Failed jsval
  | Interrupted

datatype 'r fiber_state = NotStarted | Running | Done "'r exit"

record 'r engine =
  en_paused :: "(string \<times> fiber_id) list"
  en_outcomes :: "(string \<times> 'r exit) list"
  en_settled :: "string list"
  en_pending :: "(string \<times> fiber_id) list"
  en_responses :: "(string \<times> elicit_response) list"
  en_queue :: "fiber_id \<Rightarrow> string list"
  en_fiber :: "fiber_id \<Rightarrow> 'r fiber_state"
  en_callers :: "fiber_id list"
  en_minted :: "string list"

definition new_engine :: "'r engine" where
  "new_engine = \<lparr>en_paused = [], en_outcomes = [], en_settled = [], en_pending = [], en_responses = [],
     en_queue = (\<lambda>_. []), en_fiber = (\<lambda>_. NotStarted), en_callers = [], en_minted = []\<rparr>"

definition SETTLED_OUTCOME_LIMIT :: nat where
  "SETTLED_OUTCOME_LIMIT = 64"

definition SETTLED_EXECUTION_ID_LIMIT :: nat where
  "SETTLED_EXECUTION_ID_LIMIT = 1024"

text \<open>The loop that drops the oldest entry while there are too many.\<close>

function trim_fifo :: "nat \<Rightarrow> 'a list \<Rightarrow> 'a list" where
  "trim_fifo limit xs = (if length xs > limit then trim_fifo limit (tl xs) else xs)"
  by auto
termination by (relation "measure (\<lambda>(_, xs). length xs)") auto

declare trim_fifo.simps [simp del]

text \<open>Adding to a JavaScript set or map: an entry that is there keeps its place.\<close>

definition set_add :: "'a \<Rightarrow> 'a list \<Rightarrow> 'a list" where
  "set_add x xs = (if x \<in> set xs then xs else xs @ [x])"

definition map_put :: "'k \<Rightarrow> 'v \<Rightarrow> ('k \<times> 'v) list \<Rightarrow> ('k \<times> 'v) list" where
  "map_put k v ps =
     (if k \<in> fst ` set ps then map (\<lambda>(k', u). (k', if k' = k then v else u)) ps else ps @ [(k, v)])"

definition map_drop :: "'k \<Rightarrow> ('k \<times> 'v) list \<Rightarrow> ('k \<times> 'v) list" where
  "map_drop k ps = filter (\<lambda>(k', _). k' \<noteq> k) ps"

definition record_settled_outcome :: "string \<Rightarrow> 'r exit \<Rightarrow> 'r engine \<Rightarrow> 'r engine" where
  "record_settled_outcome i e st =
     st\<lparr>en_settled := trim_fifo SETTLED_EXECUTION_ID_LIMIT (set_add i (en_settled st)),
        en_outcomes := trim_fifo SETTLED_OUTCOME_LIMIT (map_put i e (en_outcomes st))\<rparr>"

text \<open>\<open>awaitCompletionOrPause\<close>: what the race may return now, with the engine it leaves.\<close>

definition await_outcomes :: "fiber_id \<Rightarrow> 'r engine \<Rightarrow> ('r exit \<times> 'r engine) list" where
  "await_outcomes f st =
     (case en_fiber st f of Done e \<Rightarrow> [(e, st)] | _ \<Rightarrow> []) @
     (case en_queue st f of [] \<Rightarrow> [] | i # is \<Rightarrow> [(PausedOn i, st\<lparr>en_queue := (en_queue st)(f := is)\<rparr>)])"

text \<open>The elicitation handler of a pausable execution, up to where it suspends.\<close>

definition raise_pause :: "fiber_id \<Rightarrow> string \<Rightarrow> 'r engine \<Rightarrow> 'r engine" where
  "raise_pause f i st =
     st\<lparr>en_minted := i # en_minted st, en_paused := map_put i f (en_paused st),
        en_queue := (en_queue st)(f := en_queue st f @ [i])\<rparr>"

text \<open>What runs once the fiber has settled: its outstanding pauses are dropped.\<close>

definition drop_pause :: "'r exit \<Rightarrow> string \<Rightarrow> 'r engine \<Rightarrow> 'r engine" where
  "drop_pause e i st = record_settled_outcome i e (st\<lparr>en_paused := map_drop i (en_paused st)\<rparr>)"

definition cleanup_fiber :: "fiber_id \<Rightarrow> 'r exit \<Rightarrow> 'r engine \<Rightarrow> 'r engine" where
  "cleanup_fiber f e st = fold (drop_pause e) (map fst (filter (\<lambda>(_, g). g = f) (en_paused st))) st"

datatype 'r resume_answer = Replayed "'r exit" | Joined | NoPause | Delivered fiber_id

definition resume_begin :: "string \<Rightarrow> elicit_response \<Rightarrow> 'r engine \<Rightarrow> 'r resume_answer \<times> 'r engine" where
  "resume_begin i response st =
     (case map_of (en_outcomes st) i of
        Some e \<Rightarrow> (Replayed e, st)
      | None \<Rightarrow>
          if i \<in> fst ` set (en_pending st) then (Joined, st)
          else case map_of (en_paused st) i of
            None \<Rightarrow> (NoPause, st)
          | Some f \<Rightarrow>
              (Delivered f, st\<lparr>en_paused := map_drop i (en_paused st), en_pending := map_put i f (en_pending st),
                 en_responses := en_responses st @ [(i, response)]\<rparr>))"

definition resume_exit :: "string \<Rightarrow> 'r exit \<Rightarrow> 'r engine \<Rightarrow> 'r engine" where
  "resume_exit i e st = (record_settled_outcome i e st)\<lparr>en_pending := map_drop i (en_pending st)\<rparr>"

datatype 'r event =
    Start fiber_id
  | Pause fiber_id string
  | Finish fiber_id "'r exit"
  | Cleanup fiber_id
  | Return fiber_id "'r exit"
  | Resume string elicit_response "'r resume_answer"
  | Settle string "'r exit"

inductive engine_step :: "'r engine \<Rightarrow> 'r event \<Rightarrow> 'r engine \<Rightarrow> bool" where
  start: "en_fiber st f = NotStarted \<Longrightarrow>
    engine_step st (Start f) (st\<lparr>en_fiber := (en_fiber st)(f := Running), en_callers := f # en_callers st\<rparr>)"
| pause: "en_fiber st f = Running \<Longrightarrow> i \<notin> set (en_minted st) \<Longrightarrow> engine_step st (Pause f i) (raise_pause f i st)"
| finish: "en_fiber st f = Running \<Longrightarrow> \<forall>i. e \<noteq> PausedOn i \<Longrightarrow>
    engine_step st (Finish f e) (st\<lparr>en_fiber := (en_fiber st)(f := Done e)\<rparr>)"
| cleanup: "en_fiber st f = Done e \<Longrightarrow> engine_step st (Cleanup f) (cleanup_fiber f e st)"
| return: "f \<in> set (en_callers st) \<Longrightarrow> (e, st') \<in> set (await_outcomes f st) \<Longrightarrow>
    engine_step st (Return f e) (st'\<lparr>en_callers := remove1 f (en_callers st')\<rparr>)"
| resume: "resume_begin i r st = (a, st') \<Longrightarrow> engine_step st (Resume i r a) st'"
| settle: "map_of (en_pending st) i = Some f \<Longrightarrow> (e, st') \<in> set (await_outcomes f st) \<Longrightarrow>
    engine_step st (Settle i e) (resume_exit i e st')"
| interrupt: "map_of (en_pending st) i = Some f \<Longrightarrow> engine_step st (Settle i Interrupted) (resume_exit i Interrupted st)"

inductive engine_reach :: "'r engine \<Rightarrow> bool" where
  init: "engine_reach new_engine"
| step: "engine_reach st \<Longrightarrow> engine_step st ev st' \<Longrightarrow> engine_reach st'"

section \<open>Queues of bounded length\<close>

definition last_n :: "nat \<Rightarrow> 'a list \<Rightarrow> 'a list" where
  "last_n n xs = drop (length xs - n) xs"

lemma trim_fifo_last: "trim_fifo n xs = last_n n xs"
proof (induction n xs rule: trim_fifo.induct)
  case (1 n xs)
  then show ?case
    by (subst trim_fifo.simps) (auto simp: last_n_def drop_Suc [symmetric] Suc_diff_le [symmetric] Suc_diff_Suc)
qed

lemma length_last_n [simp]: "length (last_n n xs) \<le> n"
  by (simp add: last_n_def)

lemma set_last_n: "set (last_n n xs) \<subseteq> set xs"
  by (simp add: last_n_def set_drop_subset)

lemma distinct_last_n: "distinct xs \<Longrightarrow> distinct (last_n n xs)"
  by (simp add: last_n_def)

lemma map_last_n: "map f (last_n n xs) = last_n n (map f xs)"
  by (simp add: last_n_def drop_map)

lemma last_n_last_n: "n \<le> m \<Longrightarrow> last_n n (last_n m xs) = last_n n xs"
proof -
  assume "n \<le> m"
  then have "length xs - (length xs - m) - n + (length xs - m) = length xs - n" by arith
  then show ?thesis by (simp add: last_n_def del: diff_diff_left)
qed

lemma last_n_append: "last_n n (last_n m xs @ ys) = last_n n (xs @ ys)" if "n \<le> m"
proof -
  have "last_n m xs @ ys = last_n (m + length ys) (xs @ ys)" by (simp add: last_n_def)
  with that show ?thesis by (simp add: last_n_last_n)
qed

section \<open>The invariant\<close>

definition keys :: "('k \<times> 'v) list \<Rightarrow> 'k set" where
  "keys ps = fst ` set ps"

lemma keys_simps [simp]: "keys [] = {}" "keys (p # ps) = insert (fst p) (keys ps)" "keys (ps @ qs) = keys ps \<union> keys qs"
  by (auto simp: keys_def)

lemma set_map_keys: "set (map fst ps) = keys ps"
  by (simp add: keys_def)

lemma distinct_keys_snoc: "distinct (map fst (ps @ [(k, v)])) \<longleftrightarrow> distinct (map fst ps) \<and> k \<notin> keys ps"
  by (auto simp: keys_def)

lemma map_of_keys: "map_of ps k = Some v \<Longrightarrow> k \<in> keys ps" "map_of ps k = None \<longleftrightarrow> k \<notin> keys ps"
  by (force simp: keys_def dest: map_of_SomeD) (simp add: keys_def map_of_eq_None_iff)

lemma map_of_keys': "map_of ps k \<noteq> None \<longleftrightarrow> k \<in> keys ps"
  by (simp add: keys_def map_of_eq_None_iff)

definition engine_inv :: "'r engine \<Rightarrow> bool" where
  "engine_inv st \<longleftrightarrow>
     distinct (map fst (en_paused st)) \<and> distinct (map fst (en_pending st)) \<and>
     distinct (map fst (en_responses st)) \<and> distinct (en_settled st) \<and>
     length (en_settled st) \<le> SETTLED_EXECUTION_ID_LIMIT \<and>
     map fst (en_outcomes st) = last_n SETTLED_OUTCOME_LIMIT (en_settled st) \<and>
     keys (en_paused st) \<inter> keys (en_pending st) = {} \<and>
     (keys (en_paused st) \<union> keys (en_pending st)) \<inter> set (en_settled st) = {} \<and>
     keys (en_paused st) \<inter> keys (en_responses st) = {} \<and>
     keys (en_pending st) \<subseteq> keys (en_responses st) \<and>
     keys (en_paused st) \<union> keys (en_responses st) \<union> set (en_settled st) \<subseteq> set (en_minted st)"

lemma map_put_fresh: "k \<notin> keys ps \<Longrightarrow> map_put k v ps = ps @ [(k, v)]"
  by (simp add: map_put_def keys_def)

lemma map_drop_simps [simp]:
  "keys (map_drop k ps) = keys ps - {k}" "distinct (map fst ps) \<Longrightarrow> distinct (map fst (map_drop k ps))"
  by (auto simp: map_drop_def keys_def distinct_map_filter)

lemma recorded:
  assumes "i \<notin> set (en_settled st)" "map fst (en_outcomes st) = last_n SETTLED_OUTCOME_LIMIT (en_settled st)"
  shows "en_settled (record_settled_outcome i e st) = last_n SETTLED_EXECUTION_ID_LIMIT (en_settled st @ [i])"
    and "en_outcomes (record_settled_outcome i e st) = last_n SETTLED_OUTCOME_LIMIT (en_outcomes st @ [(i, e)])"
    and "map fst (en_outcomes (record_settled_outcome i e st)) =
           last_n SETTLED_OUTCOME_LIMIT (en_settled (record_settled_outcome i e st))"
proof -
  have "i \<notin> keys (en_outcomes st)"
    using assms set_last_n by (metis set_map_keys subsetD)
  then show s: "en_settled (record_settled_outcome i e st) = last_n SETTLED_EXECUTION_ID_LIMIT (en_settled st @ [i])"
    "en_outcomes (record_settled_outcome i e st) = last_n SETTLED_OUTCOME_LIMIT (en_outcomes st @ [(i, e)])"
    using assms(1) by (simp_all add: record_settled_outcome_def trim_fifo_last set_add_def map_put_fresh)
  have "SETTLED_OUTCOME_LIMIT \<le> SETTLED_EXECUTION_ID_LIMIT"
    by (simp add: SETTLED_OUTCOME_LIMIT_def SETTLED_EXECUTION_ID_LIMIT_def)
  then show "map fst (en_outcomes (record_settled_outcome i e st)) =
           last_n SETTLED_OUTCOME_LIMIT (en_settled (record_settled_outcome i e st))"
    by (simp add: s map_last_n assms(2) last_n_append last_n_last_n)
qed

lemma record_other [simp]:
  "en_paused (record_settled_outcome i e st) = en_paused st" "en_pending (record_settled_outcome i e st) = en_pending st"
  "en_responses (record_settled_outcome i e st) = en_responses st" "en_minted (record_settled_outcome i e st) = en_minted st"
  "en_queue (record_settled_outcome i e st) = en_queue st" "en_fiber (record_settled_outcome i e st) = en_fiber st"
  "en_callers (record_settled_outcome i e st) = en_callers st"
  by (simp_all add: record_settled_outcome_def)

lemma insert_disjoint: "T \<subseteq> insert i S \<Longrightarrow> i \<notin> P \<Longrightarrow> P \<inter> S = {} \<Longrightarrow> P \<inter> T = {}"
  by blast

lemma record_inv:
  assumes "engine_inv st" "i \<notin> set (en_settled st)" "i \<notin> keys (en_paused st)" "i \<notin> keys (en_pending st)" "i \<in> set (en_minted st)"
  shows "engine_inv (record_settled_outcome i e st)"
proof -
  note new = recorded [OF assms(2)] 
  have o: "map fst (en_outcomes st) = last_n SETTLED_OUTCOME_LIMIT (en_settled st)"
    using assms(1) by (simp add: engine_inv_def)
  have "set (en_settled (record_settled_outcome i e st)) \<subseteq> insert i (set (en_settled st))"
    unfolding new(1) [OF o] using set_last_n [of SETTLED_EXECUTION_ID_LIMIT "en_settled st @ [i]"] by auto
  moreover have "distinct (en_settled (record_settled_outcome i e st))"
    unfolding new(1) [OF o] using assms(1,2) by (intro distinct_last_n) (simp add: engine_inv_def)
  moreover have "length (en_settled (record_settled_outcome i e st)) \<le> SETTLED_EXECUTION_ID_LIMIT"
    unfolding new(1) [OF o] by simp
  moreover have "(keys (en_paused st) \<union> keys (en_pending st)) \<inter> set (en_settled (record_settled_outcome i e st)) = {}"
    using assms(1,3,4) by (intro insert_disjoint [OF calculation(1)]) (simp_all add: engine_inv_def)
  moreover have "set (en_settled (record_settled_outcome i e st)) \<subseteq> set (en_minted st)"
    using assms(1,5) by (intro subset_trans [OF calculation(1)]) (simp add: engine_inv_def)
  ultimately show ?thesis
    using assms(1) new(3) [OF o, of e] unfolding engine_inv_def by simp
qed

lemma drop_pause_inv:
  assumes "engine_inv st" "i \<in> keys (en_paused st)"
  shows "engine_inv (drop_pause e i st)"
  unfolding drop_pause_def
proof (rule record_inv)
  show "engine_inv (st\<lparr>en_paused := map_drop i (en_paused st)\<rparr>)"
    using assms(1) unfolding engine_inv_def by auto
qed (use assms in \<open>auto simp: engine_inv_def\<close>)

lemma drop_pause_paused [simp]: "en_paused (drop_pause e i st) = map_drop i (en_paused st)"
  by (simp add: drop_pause_def)

lemma cleanup_inv:
  assumes "engine_inv st"
  shows "engine_inv (cleanup_fiber f e st)"
proof -
  have folded: "engine_inv (fold (drop_pause e) is st)"
    if "engine_inv st" "distinct is" "set is \<subseteq> keys (en_paused st)" for "is" and st :: "'a engine"
    using that
  proof (induction "is" arbitrary: st)
    case (Cons i "is")
    have "engine_inv (fold (drop_pause e) is (drop_pause e i st))"
      using Cons.prems by (intro Cons.IH drop_pause_inv) auto
    then show ?case by simp
  qed simp
  have "distinct (map fst (filter (\<lambda>(_, g). g = f) (en_paused st)))"
    using assms by (simp add: engine_inv_def distinct_map_filter)
  moreover have "set (map fst (filter (\<lambda>(_, g). g = f) (en_paused st))) \<subseteq> keys (en_paused st)"
      by (auto simp: keys_def)
  ultimately show ?thesis unfolding cleanup_fiber_def using folded assms by blast
qed

lemma await_outcomes_same:
  "(e, st') \<in> set (await_outcomes f st) \<Longrightarrow> \<exists>q. st' = st\<lparr>en_queue := q\<rparr>"
  unfolding await_outcomes_def by (cases st) (auto split: fiber_state.splits list.splits)

lemma resume_exit_inv:
  assumes "engine_inv st" "i \<in> keys (en_pending st)"
  shows "engine_inv (resume_exit i e st)"
proof -
  have "resume_exit i e st = record_settled_outcome i e (st\<lparr>en_pending := map_drop i (en_pending st)\<rparr>)"
    by (simp add: resume_exit_def record_settled_outcome_def)
  moreover have "engine_inv (st\<lparr>en_pending := map_drop i (en_pending st)\<rparr>)"
    using assms(1) unfolding engine_inv_def by auto
  moreover have "i \<notin> set (en_settled st)" "i \<notin> keys (en_paused st)" "i \<in> set (en_minted st)"
    using assms unfolding engine_inv_def by auto
  ultimately show ?thesis by (auto intro!: record_inv)
qed

lemma inv_ignores [simp]:
  "engine_inv (st\<lparr>en_queue := q\<rparr>) = engine_inv st" "engine_inv (st\<lparr>en_fiber := g\<rparr>) = engine_inv st"
  "engine_inv (st\<lparr>en_callers := cs\<rparr>) = engine_inv st"
  by (simp_all add: engine_inv_def)

lemma raise_pause_inv: "engine_inv st \<Longrightarrow> i \<notin> set (en_minted st) \<Longrightarrow> engine_inv (raise_pause f i st)"
proof -
  assume a: "engine_inv st" "i \<notin> set (en_minted st)"
  then have "i \<notin> keys (en_paused st)" by (auto simp: engine_inv_def)
  with a show ?thesis unfolding engine_inv_def raise_pause_def by (auto simp: map_put_fresh distinct_keys_snoc simp del: map_append)
qed

lemma resume_begin_inv:
  assumes "engine_inv st" "resume_begin i r st = (a, st')"
  shows "engine_inv st'"
proof (cases "\<exists>f. a = Delivered f")
  case True
  then obtain f where f: "map_of (en_paused st) i = Some f" "i \<notin> keys (en_pending st)"
    "st' = st\<lparr>en_paused := map_drop i (en_paused st), en_pending := map_put i f (en_pending st),
                 en_responses := en_responses st @ [(i, r)]\<rparr>"
    using assms(2) by (auto simp: resume_begin_def keys_def split: option.splits if_splits)
  have "i \<in> keys (en_paused st)" using f(1) by (rule map_of_keys)
  with assms(1) f(2) show ?thesis
    unfolding f(3) engine_inv_def by (auto simp: map_put_fresh distinct_keys_snoc simp del: map_append)
qed (use assms in \<open>auto simp: resume_begin_def split: option.splits if_splits\<close>)

lemma step_inv:
  assumes "engine_step st ev st'" "engine_inv st"
  shows "engine_inv st'"
  using assms
proof (induction rule: engine_step.induct)
  case (return f st e st')
  then show ?case using await_outcomes_same by fastforce
next
  case (settle st i f e st')
  then obtain q where "st' = st\<lparr>en_queue := q\<rparr>" using await_outcomes_same by blast
  with settle show ?case by (intro resume_exit_inv) (auto intro: map_of_keys)
qed (auto intro: raise_pause_inv cleanup_inv resume_begin_inv resume_exit_inv map_of_keys)

lemma engine_inv_new: "engine_inv new_engine"
  by (simp add: engine_inv_def new_engine_def last_n_def)

lemma reach_inv: "engine_reach st \<Longrightarrow> engine_inv st"
  by (induction rule: engine_reach.induct) (auto intro: engine_inv_new step_inv)


text \<open>C22: in every state the engine can reach, whatever the fibers, the clients and the interruptions
  do: an execution id is in one stage only (paused, being resumed, or settled), the settled ids
  number at most 1024 and the remembered outcomes are those of the last 64 of them, so that every
  outcome that can be replayed is one of a settled execution.\<close>

theorem engine_reachable_inv:
  assumes "engine_reach st"
  shows "keys (en_paused st) \<inter> keys (en_pending st) = {} \<and>
    (keys (en_paused st) \<union> keys (en_pending st)) \<inter> set (en_settled st) = {} \<and>
    distinct (en_settled st) \<and> length (en_settled st) \<le> 1024 \<and>
    map fst (en_outcomes st) = last_n 64 (en_settled st) \<and> length (en_outcomes st) \<le> 64"
proof -
  have inv: "engine_inv st" by (rule reach_inv [OF assms])
  then have "map fst (en_outcomes st) = last_n 64 (en_settled st)"
    by (simp add: engine_inv_def SETTLED_OUTCOME_LIMIT_def)
  moreover have "length (en_outcomes st) \<le> 64"
    using length_last_n [of 64 "en_settled st"] by (simp add: calculation [symmetric] del: length_last_n)
  ultimately show ?thesis using inv by (simp add: engine_inv_def SETTLED_EXECUTION_ID_LIMIT_def)
qed

lemma answered_not_paused:
  assumes "engine_reach st" "i \<in> keys (en_responses st)"
  shows "map_of (en_paused st) i = None"
  using reach_inv [OF assms(1)] assms(2) by (auto simp: engine_inv_def keys_def map_of_eq_None_iff)

lemma step_responses:
  assumes "engine_step st ev st'"
  shows "\<exists>rs. en_responses st' = en_responses st @ rs \<and>
    (rs \<noteq> [] \<longrightarrow> (\<exists>i r f. ev = Resume i r (Delivered f) \<and> rs = [(i, r)] \<and> map_of (en_paused st) i = Some f))"
  using assms
proof (cases rule: engine_step.cases)
  case (cleanup f e)
  have "en_responses (fold (drop_pause e) is st) = en_responses st" for "is" and st :: "'a engine"
    by (induction "is" arbitrary: st) (simp_all add: drop_pause_def)
  with cleanup show ?thesis by (simp add: cleanup_fiber_def)
next
  case (return f e st1)
  then show ?thesis using await_outcomes_same [of e st1 f st] by auto
next
  case (settle i f e st1)
  then show ?thesis using await_outcomes_same [of e st1 f st] by (auto simp: resume_exit_def)
qed (auto simp: raise_pause_def resume_exit_def resume_begin_def split: option.splits if_splits)

text \<open>C23: one approval authorizes one continuation: along every run of the engine the answers delivered
  to waiting tools name each execution at most once, and answering again delivers nothing.\<close>

theorem response_delivered_once:
  assumes "engine_reach st"
  shows "distinct (map fst (en_responses st)) \<and>
    (\<forall>i r. i \<in> keys (en_responses st) \<longrightarrow> snd (resume_begin i r st) = st \<and> (\<forall>f. fst (resume_begin i r st) \<noteq> Delivered f))"
  using reach_inv [OF assms] answered_not_paused [OF assms]
  by (auto simp: engine_inv_def resume_begin_def split: option.splits)

lemma map_of_last: "i \<notin> keys xs \<Longrightarrow> 0 < n \<Longrightarrow> map_of (last_n n (xs @ [(i, e)])) i = Some e"
proof -
  assume i: "i \<notin> keys xs" "0 < n"
  then have "last_n n (xs @ [(i, e)]) = last_n (n - 1) xs @ [(i, e)]" by (simp add: last_n_def Suc_diff_le)
  moreover have "map_of (last_n (n - 1) xs) i = None"
    using i(1) set_last_n [of "n - 1" xs] by (force simp: keys_def map_of_eq_None_iff)
  ultimately show ?thesis by (simp add: map_add_def)
qed

lemma settled_replays:
  assumes "engine_inv st" "i \<in> keys (en_pending st)"
  shows "resume_begin i r (resume_exit i e st) = (Replayed e, resume_exit i e st)"
proof -
  let ?st = "st\<lparr>en_pending := map_drop i (en_pending st)\<rparr>"
  have "resume_exit i e st = record_settled_outcome i e ?st"
    by (simp add: resume_exit_def record_settled_outcome_def)
  moreover have "i \<notin> set (en_settled ?st)" "map fst (en_outcomes ?st) = last_n SETTLED_OUTCOME_LIMIT (en_settled ?st)"
    using assms by (auto simp: engine_inv_def)
  note recorded(2) [OF this, of e]
  moreover have "i \<notin> keys (en_outcomes st)"
    using assms set_last_n unfolding engine_inv_def by (metis disjoint_iff UnCI set_map_keys subsetD)
  then have "map_of (last_n SETTLED_OUTCOME_LIMIT (en_outcomes st @ [(i, e)])) i = Some e"
    by (rule map_of_last) (simp add: SETTLED_OUTCOME_LIMIT_def)
  ultimately show ?thesis by (simp add: resume_begin_def)
qed

text \<open>How many executions a step settles, and runs that settle so many.\<close>

fun settled_by :: "'r event \<Rightarrow> 'r engine \<Rightarrow> nat" where
  "settled_by (Settle _ _) st = 1"
| "settled_by (Cleanup f) st = length (filter (\<lambda>(_, g). g = f) (en_paused st))"
| "settled_by _ st = 0"

inductive engine_run :: "'r engine \<Rightarrow> nat \<Rightarrow> 'r engine \<Rightarrow> bool" where
  stay: "engine_run st 0 st"
| go_on: "engine_run st n st1 \<Longrightarrow> engine_step st1 ev st2 \<Longrightarrow> engine_run st (n + settled_by ev st1) st2"

text \<open>The remembered outcomes are the last ones of those before and those a step adds, which are of other executions.\<close>

definition outcomes_added :: "'r engine \<Rightarrow> 'r engine \<Rightarrow> (string \<times> 'r exit) list \<Rightarrow> bool" where
  "outcomes_added st st' ys \<longleftrightarrow> en_outcomes st' = last_n SETTLED_OUTCOME_LIMIT (en_outcomes st @ ys)"

lemma last_n_all: "length xs \<le> n \<Longrightarrow> last_n n xs = xs"
  by (simp add: last_n_def)

lemma inv_outcomes:
  assumes "engine_inv st"
  shows "map fst (en_outcomes st) = last_n SETTLED_OUTCOME_LIMIT (en_settled st)" "length (en_outcomes st) \<le> SETTLED_OUTCOME_LIMIT"
    "distinct (map fst (en_outcomes st))"
proof -
  show 1: "map fst (en_outcomes st) = last_n SETTLED_OUTCOME_LIMIT (en_settled st)"
    using assms by (simp add: engine_inv_def)
  show "length (en_outcomes st) \<le> SETTLED_OUTCOME_LIMIT"
    using length_last_n [of SETTLED_OUTCOME_LIMIT "en_settled st"] arg_cong [OF 1, of length] by simp
  show "distinct (map fst (en_outcomes st))"
    unfolding 1 using assms by (intro distinct_last_n) (simp add: engine_inv_def)
qed

lemma added_none: "engine_inv st \<Longrightarrow> en_outcomes st' = en_outcomes st \<Longrightarrow> outcomes_added st st' []"
  by (simp add: outcomes_added_def last_n_all inv_outcomes(2))

lemma added_trans:
  assumes "outcomes_added st st1 ys" "outcomes_added st1 st2 zs"
  shows "outcomes_added st st2 (ys @ zs)"
  using assms unfolding outcomes_added_def by (simp add: last_n_append)

lemma drop_pause_adds:
  assumes "engine_inv st" "i \<in> keys (en_paused st)"
  shows "outcomes_added st (drop_pause e i st) [(i, e)]"
proof -
  let ?st = "st\<lparr>en_paused := map_drop i (en_paused st)\<rparr>"
  have "i \<notin> set (en_settled ?st)" "map fst (en_outcomes ?st) = last_n SETTLED_OUTCOME_LIMIT (en_settled ?st)"
    using assms by (auto simp: engine_inv_def)
  from recorded(2) [OF this, of e] show ?thesis by (simp add: outcomes_added_def drop_pause_def)
qed

lemma resume_exit_adds:
  assumes "engine_inv st" "i \<in> keys (en_pending st)"
  shows "outcomes_added st (resume_exit i e st) [(i, e)]"
proof -
  have "i \<notin> set (en_settled st)" "map fst (en_outcomes st) = last_n SETTLED_OUTCOME_LIMIT (en_settled st)"
    using assms by (auto simp: engine_inv_def)
  from recorded(2) [OF this, of e] show ?thesis by (simp add: outcomes_added_def resume_exit_def)
qed

lemma cleanup_adds:
  assumes "engine_inv st"
  shows "\<exists>ys. length ys = length (filter (\<lambda>(_, g). g = f) (en_paused st)) \<and> outcomes_added st (cleanup_fiber f e st) ys"
proof -
  have folded: "outcomes_added st (fold (drop_pause e) is st) (map (\<lambda>i. (i, e)) is)"
    if "engine_inv st" "distinct is" "set is \<subseteq> keys (en_paused st)" for "is" and st :: "'a engine"
    using that
  proof (induction "is" arbitrary: st)
    case Nil
    then show ?case by (simp add: added_none)
  next
    case (Cons i "is")
    have "outcomes_added (drop_pause e i st) (fold (drop_pause e) is (drop_pause e i st)) (map (\<lambda>i. (i, e)) is)"
      using Cons.prems by (intro Cons.IH drop_pause_inv) auto
    from added_trans [OF drop_pause_adds this] Cons.prems show ?case by simp
  qed
  let ?is = "map fst (filter (\<lambda>(_, g). g = f) (en_paused st))"
  have "distinct ?is" using assms by (simp add: engine_inv_def distinct_map_filter)
  moreover have "set ?is \<subseteq> keys (en_paused st)" by (auto simp: keys_def)
  ultimately have "outcomes_added st (cleanup_fiber f e st) (map (\<lambda>i. (i, e)) ?is)"
    unfolding cleanup_fiber_def using folded assms by blast
  then show ?thesis by (intro exI [of _ "map (\<lambda>i. (i, e)) ?is"]) simp
qed

lemma step_adds:
  assumes "engine_step st ev st'" "engine_inv st"
  shows "\<exists>ys. length ys = settled_by ev st \<and> outcomes_added st st' ys"
  using assms
proof (cases rule: engine_step.cases)
  case (cleanup f e)
  then show ?thesis using cleanup_adds [OF assms(2)] by simp
next
  case (return f e st1)
  then show ?thesis using await_outcomes_same [of e st1 f st] assms(2) by (auto intro: added_none)
next
  case (resume i r a)
  then show ?thesis using assms(2)
    by (auto simp: resume_begin_def intro: added_none split: option.splits if_splits)
next
  case (settle i f e st1)
  then obtain q where q: "st1 = st\<lparr>en_queue := q\<rparr>" using await_outcomes_same by blast
  have "outcomes_added st1 (resume_exit i e st1) [(i, e)]"
    using assms(2) map_of_keys(1) [OF settle(3)] by (intro resume_exit_adds) (simp_all add: q)
  then show ?thesis using settle by (intro exI [of _ "[(i, e)]"]) (simp add: outcomes_added_def q)
next
  case (interrupt i f)
  have "outcomes_added st (resume_exit i Interrupted st) [(i, Interrupted)]"
    using assms(2) map_of_keys(1) [OF interrupt(3)] by (rule resume_exit_adds)
  then show ?thesis using interrupt by (intro exI [of _ "[(i, Interrupted)]"]) simp
qed (use assms(2) in \<open>auto simp: raise_pause_def intro: added_none\<close>)

lemma kept_by_last_n:
  assumes "length zs + length ys < n"
  shows "\<exists>xs'. last_n n ((xs @ x # zs) @ ys) = xs' @ x # zs @ ys"
proof -
  let ?k = "length ((xs @ x # zs) @ ys) - n"
  have "?k \<le> length xs" using assms by simp
  then have "last_n n ((xs @ x # zs) @ ys) = drop ?k xs @ x # zs @ ys" by (simp add: last_n_def)
  then show ?thesis by blast
qed

lemma run_keeps_outcome:
  assumes "engine_run st n st'" "engine_inv st" "en_outcomes st = xs @ [(i, e)]" "n < SETTLED_OUTCOME_LIMIT"
  shows "engine_inv st' \<and> (\<exists>xs zs. en_outcomes st' = xs @ (i, e) # zs \<and> length zs = n)"
  using assms
proof (induction rule: engine_run.induct)
  case (stay st)
  then show ?case by auto
next
  case (go_on st n st1 ev st2)
  then obtain us zs where IH: "engine_inv st1" "en_outcomes st1 = us @ (i, e) # zs" "length zs = n" by auto
  obtain ys where ys: "length ys = settled_by ev st1" "en_outcomes st2 = last_n SETTLED_OUTCOME_LIMIT (en_outcomes st1 @ ys)"
    using step_adds [OF go_on(2) IH(1)] by (auto simp: outcomes_added_def)
  have "\<exists>xs'. en_outcomes st2 = xs' @ (i, e) # zs @ ys"
    unfolding ys(2) IH(2) using go_on.prems(3) by (intro kept_by_last_n) (simp add: IH(3) ys(1))
  moreover have "engine_inv st2" using go_on(2) IH(1) by (rule step_inv)
  ultimately show ?case using IH(3) ys(1) by (metis length_append)
qed

lemma outcome_replays:
  assumes "engine_inv st" "en_outcomes st = xs @ (i, e) # zs"
  shows "resume_begin i r st = (Replayed e, st)"
proof -
  have "i \<notin> fst ` set xs" using inv_outcomes(3) [OF assms(1)] assms(2) by auto
  then have "map_of (en_outcomes st) i = Some e"
    by (simp add: assms(2) map_add_def map_of_eq_None_iff [THEN iffD2])
  then show ?thesis by (simp add: resume_begin_def)
qed

lemma settled_last:
  assumes "engine_inv st" "i \<in> keys (en_pending st)"
  shows "\<exists>xs. en_outcomes (resume_exit i e st) = xs @ [(i, e)]"
proof -
  have "en_outcomes (resume_exit i e st) = last_n SETTLED_OUTCOME_LIMIT ((en_outcomes st @ (i, e) # []) @ [])"
    using resume_exit_adds [OF assms, of e] by (simp add: outcomes_added_def)
  moreover have "length ([] :: (string \<times> 'a exit) list) + length ([] :: (string \<times> 'a exit) list) < SETTLED_OUTCOME_LIMIT"
    by (simp add: SETTLED_OUTCOME_LIMIT_def)
  ultimately show ?thesis using kept_by_last_n [of "[]" "[]" SETTLED_OUTCOME_LIMIT "en_outcomes st" "(i, e)"] by auto
qed

text \<open>C24: a resume always gets its answer: once the execution's fiber has ended, or has paused again, the
  resume in flight can settle; and from then on, however the engine runs and until 64 further executions have been
  settled, every repetition of it replays that outcome without running anything.\<close>

theorem resume_settles:
  assumes "engine_reach st" "map_of (en_pending st) i = Some f"
    and "en_fiber st f = Done e \<or> en_queue st f = k # is \<and> e = PausedOn k"
  shows "\<exists>st'. engine_step st (Settle i e) st' \<and>
    (\<forall>n st'' r. engine_run st' n st'' \<and> n < 64 \<longrightarrow> resume_begin i r st'' = (Replayed e, st''))"
proof -
  have "(e, st) \<in> set (await_outcomes f st) \<or> (e, st\<lparr>en_queue := (en_queue st)(f := is)\<rparr>) \<in> set (await_outcomes f st)"
    using assms(3) by (auto simp: await_outcomes_def fun_upd_def)
  then obtain st1 where st1: "(e, st1) \<in> set (await_outcomes f st)" by blast
  then obtain q where q: "st1 = st\<lparr>en_queue := q\<rparr>" using await_outcomes_same by blast
  have step: "engine_step st (Settle i e) (resume_exit i e st1)" by (rule engine_step.settle [OF assms(2) st1])
  have inv: "engine_inv st1" "i \<in> keys (en_pending st1)"
    using reach_inv [OF assms(1)] map_of_keys(1) [OF assms(2)] by (simp_all add: q)
  obtain xs where xs: "en_outcomes (resume_exit i e st1) = xs @ [(i, e)]" using settled_last [OF inv] by blast
  have "resume_begin i r st'' = (Replayed e, st'')" if "engine_run (resume_exit i e st1) n st''" "n < 64" for n st'' r
    using run_keeps_outcome [OF that(1) resume_exit_inv [OF inv] xs] that(2) outcome_replays
    by (auto simp: SETTLED_OUTCOME_LIMIT_def)
  with step show ?thesis by blast
qed

lemma replay_after_finish:
  assumes "resume_begin i r st = (Replayed e, st)" "engine_step st (Finish f e') st'"
  shows "resume_begin i r st' = (Replayed e, st')"
  using assms(2,1) by (cases rule: engine_step.cases) (auto simp: resume_begin_def split: option.splits if_splits)

text \<open>A resume whose caller is interrupted is settled with the interruption: the answer has been
  delivered and the execution runs on, but when it completes, every repetition of the resume
  replays the interruption and never the result.\<close>

theorem interrupted_resume_lost:
  assumes "engine_reach st" "map_of (en_pending st) i = Some f"
  shows "\<exists>st1. engine_step st (Settle i Interrupted) st1 \<and>
    (\<forall>v st2. engine_step st1 (Finish f (Completed v)) st2 \<longrightarrow>
      (\<forall>r. resume_begin i r st2 = (Replayed Interrupted, st2)))"
proof -
  have "engine_step st (Settle i Interrupted) (resume_exit i Interrupted st)" by (rule engine_step.interrupt [OF assms(2)])
  moreover have "resume_begin i r (resume_exit i Interrupted st) = (Replayed Interrupted, resume_exit i Interrupted st)" for r
    using settled_replays [OF reach_inv [OF assms(1)] map_of_keys(1) [OF assms(2)]] .
  ultimately show ?thesis using replay_after_finish by blast
qed

text \<open>An execution that asked once and whose answer is on its way.\<close>

definition accepted :: elicit_response where
  "accepted = \<lparr>er_action = Accept, er_content = JUndef\<rparr>"

definition asked :: "jsval engine" where
  "asked = raise_pause 0 ''exec_1'' (new_engine\<lparr>en_fiber := (en_fiber new_engine)(0 := Running), en_callers := [0]\<rparr>)"

definition answered :: "jsval engine" where
  "answered = snd (resume_begin ''exec_1'' accepted asked)"

lemma asked_reach: "engine_reach asked"
  unfolding asked_def
proof (intro engine_reach.step [OF _ engine_step.pause])
  have "engine_step (new_engine :: jsval engine) (Start 0) (new_engine\<lparr>en_fiber := (en_fiber new_engine)(0 := Running), en_callers := 0 # en_callers (new_engine :: jsval engine)\<rparr>)"
    by (rule engine_step.start) (simp add: new_engine_def)
  then show "engine_reach (new_engine\<lparr>en_fiber := (en_fiber new_engine)(0 := Running), en_callers := [0]\<rparr> :: jsval engine)"
    using engine_reach.step [OF engine_reach.init] by (simp add: new_engine_def)
qed (simp_all add: new_engine_def)

lemma answered_reach: "engine_reach answered"
proof (rule engine_reach.step [OF asked_reach engine_step.resume])
  show "resume_begin ''exec_1'' accepted asked = (fst (resume_begin ''exec_1'' accepted asked), answered)"
    by (simp add: answered_def)
qed

lemma answered_pending: "map_of (en_pending answered) ''exec_1'' = Some 0" "''exec_1'' \<in> keys (en_responses answered)"
  by (simp_all add: answered_def asked_def resume_begin_def raise_pause_def new_engine_def map_put_def)

lemma engine_reachable_inv_witness: "length (en_outcomes answered) \<le> 64"
  using engine_reachable_inv [OF answered_reach] by simp

lemma response_delivered_once_witness: "snd (resume_begin ''exec_1'' accepted answered) = answered"
  using response_delivered_once [OF answered_reach] answered_pending by blast

lemma resume_settles_witness:
  "\<exists>st'. engine_step (answered\<lparr>en_fiber := (en_fiber answered)(0 := Done (Completed JNull))\<rparr>) (Settle ''exec_1'' (Completed JNull)) st' \<and>
     resume_begin ''exec_1'' accepted st' = (Replayed (Completed JNull), st')"
proof -
  let ?st = "answered\<lparr>en_fiber := (en_fiber answered)(0 := Done (Completed JNull))\<rparr>"
  have "engine_step answered (Finish 0 (Completed JNull)) ?st"
    by (rule engine_step.finish) (simp_all add: answered_def asked_def resume_begin_def raise_pause_def new_engine_def map_put_def)
  then have "engine_reach ?st" by (rule engine_reach.step [OF answered_reach])
  from resume_settles [OF this, of "''exec_1''" 0 "Completed JNull"] answered_pending obtain st' where
    "engine_step ?st (Settle ''exec_1'' (Completed JNull)) st'"
    "\<forall>n st'' r. engine_run st' n st'' \<and> n < 64 \<longrightarrow> resume_begin ''exec_1'' r st'' = (Replayed (Completed JNull), st'')"
    by auto
  moreover have "engine_run st' 0 st'" by (rule engine_run.stay)
  ultimately have "resume_begin ''exec_1'' accepted st' = (Replayed (Completed JNull), st')" by (metis zero_less_numeral)
  with \<open>engine_step ?st (Settle ''exec_1'' (Completed JNull)) st'\<close> show ?thesis by blast
qed

lemma interrupted_resume_lost_witness:
  "\<exists>st1. engine_step answered (Settle ''exec_1'' Interrupted) st1 \<and>
    (\<forall>v st2. engine_step st1 (Finish 0 (Completed v)) st2 \<longrightarrow>
      (\<forall>r. resume_begin ''exec_1'' r st2 = (Replayed Interrupted, st2)))"
  by (rule interrupted_resume_lost [OF answered_reach answered_pending(1)])
end
