(* ===== verification/Discovery.thy ===== *)
theory Discovery
  imports Engine
begin

text \<open>
  How the sandbox finds tools (\<open>tool-invoker.ts\<close>): paging, the ranked search over the visible tools, the
  integration list and describing a tool, with suggestions for a path that names none. The collation
  of \<open>localeCompare\<close> is a parameter.
\<close>

section \<open>Paging\<close>

record 'a paged =
  pg_items :: "'a list"
  pg_total :: nat
  pg_has_more :: bool
  pg_next_offset :: "int option"

text \<open>\<open>all.slice(from, to)\<close> with a start inside the list; a negative end counts from the back.\<close>

definition slice_to :: "'a list \<Rightarrow> int \<Rightarrow> int \<Rightarrow> 'a list" where
  "slice_to xs from to =
     (let stop = (if to < 0 then max (int (length xs) + to) 0 else to) in
      take (nat (stop - from)) (drop (nat from) xs))"

definition paginate :: "'a list \<Rightarrow> int \<Rightarrow> int \<Rightarrow> 'a paged" where
  "paginate xs offset limit =
     (let total = int (length xs);
          start = min (max offset 0) total;
          items = slice_to xs start (start + limit);
          consumed = start + int (length items);
          has_more = (consumed < total) in
      \<lparr>pg_items = items, pg_total = length xs, pg_has_more = has_more,
       pg_next_offset = (if has_more then Some consumed else None)\<rparr>)"

definition no_page :: "'a paged" where
  "no_page = \<lparr>pg_items = [], pg_total = 0, pg_has_more = False, pg_next_offset = None\<rparr>"

text \<open>Reading on from page to page, as the model is told to.\<close>

fun read_pages :: "nat \<Rightarrow> 'a list \<Rightarrow> int \<Rightarrow> int \<Rightarrow> 'a paged list" where
  "read_pages 0 xs offset limit = []"
| "read_pages (Suc n) xs offset limit =
     (let p = paginate xs offset limit in
      p # (case pg_next_offset p of None \<Rightarrow> [] | Some o' \<Rightarrow> read_pages n xs o' limit))"

lemma paginate_at:
  assumes "offset \<le> length xs" "0 < limit"
  shows "paginate xs (int offset) limit =
    \<lparr>pg_items = take (nat limit) (drop offset xs), pg_total = length xs,
     pg_has_more = (offset + nat limit < length xs),
     pg_next_offset = (if offset + nat limit < length xs then Some (int (offset + nat limit)) else None)\<rparr>"
proof -
  have "slice_to xs (int offset) (int offset + limit) = take (nat limit) (drop offset xs)"
    using assms by (simp add: slice_to_def)
  moreover have "int offset + int (min (length xs - offset) (nat limit)) < int (length xs) \<longleftrightarrow> offset + nat limit < length xs"
    using assms by (auto simp: min_def)
  moreover have "offset + nat limit < length xs \<Longrightarrow> min (length xs - offset) (nat limit) = nat limit" by simp
  ultimately show ?thesis using assms by (simp add: paginate_def Let_def)
qed

lemma read_pages_from:
  assumes "offset \<le> length xs" "0 < limit" "length xs - offset < n"
  shows "concat (map pg_items (read_pages n xs (int offset) limit)) = drop offset xs \<and>
    read_pages n xs (int offset) limit \<noteq> [] \<and>
    pg_next_offset (last (read_pages n xs (int offset) limit)) = None \<and>
    (\<forall>p \<in> set (read_pages n xs (int offset) limit). pg_total p = length xs \<and> int (length (pg_items p)) \<le> limit)"
  using assms(1,3)
proof (induction n arbitrary: offset)
  case (Suc n)
  let ?next = "offset + nat limit"
  note p = paginate_at [OF Suc.prems(1) assms(2)]
  show ?case
  proof (cases "?next < length xs")
    case True
    then have "length xs - ?next < n" using Suc.prems assms(2) by simp
    with True have IH: "concat (map pg_items (read_pages n xs (int ?next) limit)) = drop ?next xs \<and>
      read_pages n xs (int ?next) limit \<noteq> [] \<and> pg_next_offset (last (read_pages n xs (int ?next) limit)) = None \<and>
      (\<forall>p \<in> set (read_pages n xs (int ?next) limit). pg_total p = length xs \<and> int (length (pg_items p)) \<le> limit)"
      by (intro Suc.IH) simp_all
    have "take (nat limit) (drop offset xs) @ drop ?next xs = drop offset xs"
      by (metis append_take_drop_id drop_drop add.commute)
    with IH True assms(2) show ?thesis by (simp add: p Let_def)
  next
    case False
    with assms(2) show ?thesis by (simp add: p Let_def)
  qed
qed simp

text \<open>Starting at offset 0 and following \<open>nextOffset\<close> while there is one reads every result exactly
  once, in order, in at most one page more than there are results, whatever positive limit is
  asked for; each page is within the limit and tells the true total.\<close>

theorem pages_cover_results:
  assumes "0 < limit"
  shows "concat (map pg_items (read_pages (Suc (length xs)) xs 0 limit)) = xs \<and>
    pg_next_offset (last (read_pages (Suc (length xs)) xs 0 limit)) = None \<and>
    (\<forall>p \<in> set (read_pages (Suc (length xs)) xs 0 limit). pg_total p = length xs \<and> int (length (pg_items p)) \<le> limit)"
  using read_pages_from [of 0 xs limit "Suc (length xs)"] assms by simp

lemma pages_cover_results_witness:
  "concat (map pg_items (read_pages (Suc (length [''a'', ''b'', ''c''])) [''a'', ''b'', ''c''] 0 2)) = [''a'', ''b'', ''c'']"
  by (rule pages_cover_results [THEN conjunct1]) simp

section \<open>Search\<close>

fun split_camel :: "string \<Rightarrow> string" where
  "split_camel (a # b # cs) =
     (if is_lower_alnum a \<and> (let n = (of_char b :: nat) in 65 \<le> n \<and> n \<le> 90)
      then a # CHR '' '' # split_camel (b # cs) else a # split_camel (b # cs))"
| "split_camel cs = cs"

definition is_separator :: "char \<Rightarrow> bool" where
  "is_separator c \<longleftrightarrow> c \<in> set ''_./:-''"

fun squash_separators :: "string \<Rightarrow> string" where
  "squash_separators [] = []"
| "squash_separators (c # cs) =
     (if \<not> is_separator c then c # squash_separators cs
      else (case cs of
          [] \<Rightarrow> [CHR '' '']
        | d # _ \<Rightarrow> if is_separator d then squash_separators cs else CHR '' '' # squash_separators cs))"

definition normalize_search_text :: "string \<Rightarrow> string" where
  "normalize_search_text v = js_trim (map to_lower (squash_separators (split_camel v)))"

definition tokenize_search_text :: "string \<Rightarrow> string list" where
  "tokenize_search_text v = runs is_lower_alnum [] (normalize_search_text v)"

record searchable =
  se_path :: string
  se_integration :: string
  se_name :: string
  se_description :: string

definition to_searchable_tool :: "tool_view \<Rightarrow> searchable" where
  "to_searchable_tool t =
     \<lparr>se_path = address_to_path (tv_address t), se_integration = tv_integration t, se_name = tv_name t,
      se_description = tv_description t\<rparr>"

record prepared =
  pf_raw :: string
  pf_tokens :: "string list"

definition prepare_field :: "string \<Rightarrow> prepared" where
  "prepare_field v = \<lparr>pf_raw = normalize_search_text v, pf_tokens = tokenize_search_text v\<rparr>"

definition token_score :: "prepared \<Rightarrow> int \<Rightarrow> string \<Rightarrow> int option" where
  "token_score field weight token =
     (if token \<in> set (pf_tokens field) then Some (weight * 4)
      else if list_ex (\<lambda>c. js_starts_with c token \<or> js_starts_with token c) (pf_tokens field) then Some (weight * 2)
      else if js_includes (pf_raw field) token then Some weight else None)"

record field_score =
  fs_score :: int
  fs_matched :: "string list"
  fs_exact :: bool

definition score_prepared_field :: "string \<Rightarrow> string list \<Rightarrow> prepared \<Rightarrow> int \<Rightarrow> field_score" where
  "score_prepared_field query tokens field weight =
     (if pf_raw field = [] then \<lparr>fs_score = 0, fs_matched = [], fs_exact = False\<rparr>
      else
        let exact = (query \<noteq> [] \<and> js_includes (pf_raw field) query);
            phrase = (if query = [] then 0
              else if pf_raw field = query then weight * 14
              else if js_starts_with (pf_raw field) query then weight * 9
              else if exact then weight * 6 else 0) in
        \<lparr>fs_score = phrase + sum_list (map (\<lambda>t. case token_score field weight t of None \<Rightarrow> 0 | Some n \<Rightarrow> n) tokens),
         fs_matched = filter (\<lambda>t. token_score field weight t \<noteq> None) tokens, fs_exact = exact\<rparr>)"

definition is_token_prefix :: "string list \<Rightarrow> string list \<Rightarrow> bool" where
  "is_token_prefix ns ts \<longleftrightarrow> take (length ns) ts = ns"

definition matches_namespace :: "searchable \<Rightarrow> string option \<Rightarrow> bool" where
  "matches_namespace t ns =
     (case ns of None \<Rightarrow> True
      | Some n \<Rightarrow>
          let tokens = tokenize_search_text n in
          normalize_search_text n = [] \<or> tokens = [] \<or>
          is_token_prefix tokens (tokenize_search_text (se_integration t)) \<or>
          is_token_prefix tokens (tokenize_search_text (se_path t)))"

record discovery =
  di_path :: string
  di_name :: string
  di_description :: string
  di_integration :: string
  di_score :: int

text \<open>The share of the query's tokens that matched, \<open>m / n\<close>, is compared and rounded exactly.\<close>

definition path_head :: "string list \<Rightarrow> string list \<Rightarrow> bool" where
  "path_head xs ys \<longleftrightarrow> take 1 xs = take 1 ys"

definition score_tool_match :: "searchable \<Rightarrow> string \<Rightarrow> discovery option" where
  "score_tool_match t query =
     (let q = normalize_search_text query; tokens = tokenize_search_text query in
      if q = [] \<or> tokens = [] then None
      else
        let path = prepare_field (se_path t); name = prepare_field (se_name t);
            scores = [score_prepared_field q tokens path 12,
                      score_prepared_field q tokens (prepare_field (se_integration t)) 8,
                      score_prepared_field q tokens name 10,
                      score_prepared_field q tokens (prepare_field (se_description t)) 5];
            m = length (remdups (concat (map fs_matched scores)));
            n = length tokens;
            exact = list_ex fs_exact scores in
        if m = 0 then None
        else if (if n \<le> 2 then m < n else 5 * m < 3 * n) \<and> \<not> exact then None
        else Some \<lparr>di_path = se_path t, di_name = se_name t, di_description = se_description t,
          di_integration = se_integration t,
          di_score = sum_list (map fs_score scores)
            + (if m = n then 25 else int ((20 * m + n) div (2 * n)))
            + (if path_head (pf_tokens path) tokens \<or> path_head (pf_tokens name) tokens then 8 else 0)
            + (if pf_raw path = q \<or> pf_raw name = q then 20 else 0)\<rparr>)"

definition enumerated :: "searchable \<Rightarrow> discovery" where
  "enumerated t = \<lparr>di_path = se_path t, di_name = se_name t, di_description = se_description t,
     di_integration = se_integration t, di_score = 0\<rparr>"

text \<open>\<open>localeCompare\<close> is the host's collation, a parameter.\<close>

type_synonym collation = "string \<Rightarrow> string \<Rightarrow> int"

definition compare_ranked :: "collation \<Rightarrow> discovery \<Rightarrow> discovery \<Rightarrow> int" where
  "compare_ranked collate l r =
     (if di_score r \<noteq> di_score l then di_score r - di_score l else collate (di_path l) (di_path r))"

definition rank_results :: "collation \<Rightarrow> tool_view list \<Rightarrow> string \<Rightarrow> string option \<Rightarrow> discovery list" where
  "rank_results collate tools query ns =
     (let all = map to_searchable_tool tools in
      if normalize_search_text query = [] then
        map enumerated (js_sort (\<lambda>l r. collate (se_path l) (se_path r))
          (filter (\<lambda>t. map_option js_trim ns = Some (se_integration t)) all))
      else
        js_sort (compare_ranked collate)
          (List.map_filter (\<lambda>t. score_tool_match t query) (filter (\<lambda>t. matches_namespace t ns) all)))"

text \<open>An \<open>ExecutionToolError\<close> is its message, on the left.\<close>

definition tool_error_as :: "string \<Rightarrow> ('x, 'a) eff \<Rightarrow> ('x, string + 'a) eff" where
  "tool_error_as msg m = eff_map (\<lambda>r. case r of Inl e \<Rightarrow> Inl msg | Inr a \<Rightarrow> Inr a) (eff_result m)"

definition search_tools ::
  "collation \<Rightarrow> 'x exec_env \<Rightarrow> string \<Rightarrow> int \<Rightarrow> string option \<Rightarrow> int \<Rightarrow> ('x, string + discovery paged) eff" where
  "search_tools collate env query limit ns offset =
     (if normalize_search_text query = [] \<and> \<not> (case ns of None \<Rightarrow> False | Some n \<Rightarrow> normalize_search_text n \<noteq> [])
      then eff_return (Inr no_page)
      else eff_map (map_sum id (\<lambda>tools. paginate (rank_results collate tools query ns) offset limit))
             (tool_error_as ''Failed to list tools for search'' (tools_list env no_filter)))"

record listed_integration =
  li_id :: string
  li_name :: string
  li_description :: "string option"
  li_kind :: string
  li_can_remove :: bool
  li_can_refresh :: bool
  li_tool_count :: nat

definition integration_matches :: "string \<Rightarrow> integration_view \<Rightarrow> bool" where
  "integration_matches q i \<longleftrightarrow>
     q = [] \<or>
     (let hay = normalize_search_text (js_join '' '' [iv_slug i, iv_description i, iv_kind i]) in
      list_all (js_includes hay) (tokenize_search_text q))"

definition list_item :: "tool_view list \<Rightarrow> integration_view \<Rightarrow> listed_integration" where
  "list_item tools i =
     \<lparr>li_id = iv_slug i, li_name = iv_slug i,
      li_description =
        (let d = map to_lower (iv_description i) in
         if iv_description i \<noteq> [] \<and> d \<noteq> map to_lower (iv_slug i) \<and> d \<noteq> map to_lower (iv_name i)
         then Some (iv_description i) else None),
      li_kind = iv_kind i, li_can_remove = iv_can_remove i, li_can_refresh = iv_can_refresh i,
      li_tool_count = length (filter (\<lambda>t. tv_integration t = iv_slug i) tools)\<rparr>"

definition count_integrations :: "collation \<Rightarrow> string \<Rightarrow> integration_view list \<Rightarrow> tool_view list \<Rightarrow> listed_integration list" where
  "count_integrations collate query integrations tools =
     (let q = normalize_search_text query in
      js_sort (\<lambda>l r. if collate (li_name l) (li_name r) \<noteq> 0 then collate (li_name l) (li_name r)
                      else collate (li_id l) (li_id r))
        (map (list_item tools) (filter (integration_matches q) integrations)))"

definition list_executor_integrations ::
  "collation \<Rightarrow> 'x exec_env \<Rightarrow> string \<Rightarrow> int \<Rightarrow> int \<Rightarrow> ('x, string + listed_integration paged) eff" where
  "list_executor_integrations collate env query limit offset =
     eff_bind (tool_error_as ''Failed to list executor integrations'' (integrations_list env)) (\<lambda>r.
       case r of
         Inl e \<Rightarrow> eff_return (Inl e)
       | Inr integrations \<Rightarrow>
           eff_map (map_sum id (\<lambda>tools. paginate (count_integrations collate query integrations tools) offset limit))
             (tool_error_as ''Failed to list tools for integration counts'' (tools_list env no_filter)))"

section \<open>Describing a tool\<close>

record described_tool =
  dt_path :: string
  dt_name :: string
  dt_description :: "string option"
  dt_input :: "string option"
  dt_output :: "string option"
  dt_definitions :: "(string \<times> jsval) list option"
  dt_not_found :: "(string \<times> string list) option"

definition TOOL_DESCRIBE_SUGGESTION_LIMIT :: int where
  "TOOL_DESCRIBE_SUGGESTION_LIMIT = 5"

definition builtin_tool :: "string \<Rightarrow> string \<Rightarrow> string \<Rightarrow> string \<Rightarrow> (string \<times> string) list \<Rightarrow> described_tool" where
  "builtin_tool p d i ot defs =
     \<lparr>dt_path = p, dt_name = p, dt_description = Some d, dt_input = Some i, dt_output = Some ot,
      dt_definitions = Some (map (\<lambda>(k, v). (k, JStr v)) defs), dt_not_found = None\<rparr>"

definition BUILTIN_TOOL_DESCRIPTIONS :: "(string \<times> described_tool) list" where
  "BUILTIN_TOOL_DESCRIPTIONS =
     [(''search'', builtin_tool ''search''
         ''Search available Executor tools. An empty query with a namespace enumerates that integration's full catalog, sorted by path.''
         ''{ query: string; namespace?: string; limit?: number; offset?: number; }''
         ''{ items: ToolDiscoveryResult[]; total: number; hasMore: boolean; nextOffset: number | null; }''
         [(''ToolDiscoveryResult'', ''{ path: string; name: string; description?: string; integration: string; score: number; }'')]),
      (''executor.integrations.list'', builtin_tool ''executor.integrations.list''
         ''List configured Executor integrations.''
         ''{ query?: string; limit?: number; offset?: number; }''
         ''{ items: ExecutorIntegrationListItem[]; total: number; hasMore: boolean; nextOffset: number | null; }''
         [(''ExecutorIntegrationListItem'',
           ''{ id: string; name: string; description?: string; kind: string; canRemove?: boolean; canRefresh?: boolean; toolCount: number; }'')]),
      (''describe.tool'', builtin_tool ''describe.tool''
         ''Describe a tool's compact TypeScript input and output shapes.''
         ''{ path: string; }''
         ''DescribedTool''
         [(''DescribedTool'',
           ''{ path: string; name: string; description?: string; inputTypeScript?: string; outputTypeScript?: string; typeScriptDefinitions?: { [k: string]: string; }; error?: { code: '' @ in_quotes ''tool_not_found'' @ ''; message: string; suggestions?: string[]; }; }'')])]"

definition wrap_output_typescript :: "string option \<Rightarrow> string" where
  "wrap_output_typescript t =
     ''{ ok: true; data: '' @ (case t of None \<Rightarrow> ''unknown'' | Some x \<Rightarrow> x)
       @ ''; http?: ToolHttpMeta } | { ok: false; error: ToolError }''"

definition TOOL_ERROR_TYPESCRIPT :: string where
  "TOOL_ERROR_TYPESCRIPT = ''{ code: string; message: string; status?: number; details?: unknown; retryable?: boolean }''"

definition TOOL_HTTP_META_TYPESCRIPT :: string where
  "TOOL_HTTP_META_TYPESCRIPT = ''{ status: number; headers: { [k: string]: string; } }''"

definition TOOL_FILE_TYPESCRIPT :: string where
  "TOOL_FILE_TYPESCRIPT = ''{ _tag: '' @ in_quotes ''ToolFile'' @ ''; name?: string; mimeType: string; encoding: ''
     @ in_quotes ''base64'' @ ''; data: string; byteLength: number; }''"

definition with_tool_result_definitions :: "(string \<times> jsval) list \<Rightarrow> (string \<times> jsval) list" where
  "with_tool_result_definitions defs =
     fold (\<lambda>(k, v) acc. obj_set acc k (JStr v))
       [(''ToolError'', TOOL_ERROR_TYPESCRIPT), (''ToolHttpMeta'', TOOL_HTTP_META_TYPESCRIPT), (''ToolFile'', TOOL_FILE_TYPESCRIPT)]
       defs"

definition path_leaf :: "string \<Rightarrow> string" where
  "path_leaf path = last (js_split (CHR ''.'') path)"

definition describe_found :: "string \<Rightarrow> tool_schema_view \<Rightarrow> described_tool" where
  "describe_found path v =
     (let pv = (case sv_preview v of None \<Rightarrow> JUndef | Some x \<Rightarrow> x) in
      \<lparr>dt_path = path, dt_name = sv_name v, dt_description = Some (sv_description v),
       dt_input = opt_str (obj_get pv ''inputTypeScript''),
       dt_output = Some (wrap_output_typescript (opt_str (obj_get pv ''outputTypeScript''))),
       dt_definitions = Some (with_tool_result_definitions
         (case obj_get pv ''typeScriptDefinitions'' of JObj ps \<Rightarrow> ps | _ \<Rightarrow> [])),
       dt_not_found = None\<rparr>)"

definition describe_missing :: "string \<Rightarrow> string list \<Rightarrow> described_tool" where
  "describe_missing path suggestions =
     \<lparr>dt_path = path, dt_name = path, dt_description = None, dt_input = None, dt_output = None,
      dt_definitions = None, dt_not_found = Some (''Tool not found: '' @ path, suggestions)\<rparr>"

definition describe_tool ::
  "collation \<Rightarrow> (jsval \<Rightarrow> jsval \<Rightarrow> (string \<times> jsval) list \<Rightarrow> jsval option) \<Rightarrow> 'x exec_env \<Rightarrow> string \<Rightarrow>
   ('x, string + described_tool) eff" where
  "describe_tool collate preview env path =
     (case map_of BUILTIN_TOOL_DESCRIPTIONS path of
        Some d \<Rightarrow> eff_return (Inr d)
      | None \<Rightarrow>
          eff_bind (tool_schema preview env (path_to_address path)) (\<lambda>schema.
            case schema of
              Some v \<Rightarrow> eff_return (Inr (describe_found path v))
            | None \<Rightarrow>
                (let leaf = path_leaf path;
                     missing = (\<lambda>p. Inr (describe_missing path (map di_path (pg_items p)))) in
                 eff_bind (search_tools collate env leaf TOOL_DESCRIBE_SUGGESTION_LIMIT (Some (extract_namespace path)) 0) (\<lambda>r.
                   case r of
                     Inl e \<Rightarrow> eff_return (Inl e)
                   | Inr scoped \<Rightarrow>
                       if pg_items scoped \<noteq> [] then eff_return (missing scoped)
                       else eff_map (\<lambda>r. case r of Inl e \<Rightarrow> Inl e | Inr p \<Rightarrow> missing p)
                              (search_tools collate env leaf TOOL_DESCRIBE_SUGGESTION_LIMIT None 0)))))"

section \<open>What a search finds\<close>

lemma census_length:
  assumes "js_trim s = s"
  shows "length (rank_results collate tools [] (Some s)) = length (filter (\<lambda>t. tv_integration t = s) tools)"
proof -
  have "normalize_search_text [] = []" by (simp add: normalize_search_text_def js_trim_def)
  then have "length (rank_results collate tools [] (Some s)) =
      length (filter (\<lambda>t. Some s = Some (se_integration t)) (map to_searchable_tool tools))"
    by (simp add: rank_results_def Let_def assms del: filter_map option.inject)
  also have "\<dots> = length (filter (\<lambda>t. tv_integration t = s) tools)"
    by (induction tools) (auto simp: to_searchable_tool_def)
  finally show ?thesis .
qed

text \<open>The empty search of an integration's namespace is a census: its total is the tool count the
  integration list shows for that integration, over the same tools.\<close>

theorem namespace_census:
  assumes "tools_list env no_filter w = (Inr tools, w')" "js_trim (iv_slug i) = iv_slug i" "normalize_search_text (iv_slug i) \<noteq> []"
  shows "\<exists>p. search_tools collate env [] limit (Some (iv_slug i)) offset w = (Inr (Inr p), w') \<and>
    pg_total p = li_tool_count (list_item tools i)"
proof -
  have "length (rank_results collate tools [] (Some (iv_slug i))) = li_tool_count (list_item tools i)"
    using census_length [OF assms(2)] by (simp add: list_item_def Let_def)
  then show ?thesis
    using assms(1,3) by (simp add: search_tools_def tool_error_as_def eff_map_def eff_bind_def eff_result_def paginate_def Let_def)
qed

lemma small_tools_list:
  "fst (tools_list small_env no_filter (small_world (\<lambda>_. []) [])) = Inr [static_tool_to_tool small_env ping_tool]"
  by code_simp

lemma namespace_census_witness:
  "\<exists>p. search_tools cmp_str small_env [] 12 (Some ''executor'') 0 (small_world (\<lambda>_. []) []) =
      (Inr (Inr p), snd (tools_list small_env no_filter (small_world (\<lambda>_. []) []))) \<and> pg_total p = 1"
proof -
  let ?i = "\<lparr>iv_slug = ''executor'', iv_name = ''Executor'', iv_description = ''Executor'', iv_kind = ''built-in'',
    iv_can_remove = False, iv_can_refresh = False, iv_auth_methods = [], iv_display_url = None,
    iv_display_family = None\<rparr>"
  have trim: "js_trim ''executor'' = ''executor''" and norm: "normalize_search_text ''executor'' \<noteq> []" by code_simp+
  have "li_tool_count (list_item [static_tool_to_tool small_env ping_tool] ?i) = 1" by code_simp
  with namespace_census [OF run_pair [OF small_tools_list], of ?i cmp_str 12 0] trim norm show ?thesis by simp
qed

lemma comparator_ranked:
  assumes "comparator collate"
  shows "comparator (compare_ranked collate)"
proof -
  have "comparator (\<lambda>l r. collate (di_path l) (di_path r))"
    using assms unfolding comparator_def by auto
  moreover have "compare_ranked collate =
      cmp_then (cmp_int_key (\<lambda>d. - di_score d)) (\<lambda>l r. collate (di_path l) (di_path r))"
    by (auto simp: fun_eq_iff cmp_then_def cmp_int_key_def compare_ranked_def)
  ultimately show ?thesis using comparator_then [OF comparator_int_key [of "\<lambda>d. - di_score d"]] by metis
qed

text \<open>A ranked search returns each tool that scores exactly once, the best first, tools of one score
  in the order of their paths.\<close>

theorem search_results_ranked:
  assumes "comparator collate" "normalize_search_text query \<noteq> []"
  shows "sorted_wrt (\<lambda>l r. di_score r < di_score l \<or> di_score r = di_score l \<and> collate (di_path l) (di_path r) \<le> 0)
      (rank_results collate tools query ns) \<and>
    mset (rank_results collate tools query ns) =
      mset (List.map_filter (\<lambda>t. score_tool_match t query) (filter (\<lambda>t. matches_namespace t ns) (map to_searchable_tool tools)))"
proof -
  let ?hits = "List.map_filter (\<lambda>t. score_tool_match t query) (filter (\<lambda>t. matches_namespace t ns) (map to_searchable_tool tools))"
  have "rank_results collate tools query ns = js_sort (compare_ranked collate) ?hits"
    using assms(2) by (simp add: rank_results_def Let_def)
  moreover have "sorted_wrt (\<lambda>l r. compare_ranked collate l r \<le> 0) (js_sort (compare_ranked collate) ?hits)"
    by (rule comparator.sorted_js_sort [OF comparator_ranked [OF assms(1)]])
  moreover have "compare_ranked collate l r \<le> 0 \<longleftrightarrow>
      di_score r < di_score l \<or> di_score r = di_score l \<and> collate (di_path l) (di_path r) \<le> 0" for l r
    by (auto simp: compare_ranked_def)
  ultimately show ?thesis by (simp add: comparator.mset_js_sort [OF comparator_ranked [OF assms(1)]])
qed

lemma search_results_ranked_witness:
  "mset (rank_results cmp_str [row_to_tool (\<lambda>_. None) get_row JUndef] ''get'' None) = {#the (score_tool_match
     (to_searchable_tool (row_to_tool (\<lambda>_. None) get_row JUndef)) ''get'')#}"
proof -
  have "normalize_search_text ''get'' \<noteq> []" by code_simp
  from search_results_ranked [OF str_order.comparator_axioms this, of "[row_to_tool (\<lambda>_. None) get_row JUndef]" None,
      THEN conjunct2]
  have "mset (rank_results cmp_str [row_to_tool (\<lambda>_. None) get_row JUndef] ''get'' None) =
    mset (List.map_filter (\<lambda>t. score_tool_match t ''get'') [to_searchable_tool (row_to_tool (\<lambda>_. None) get_row JUndef)])"
    by (simp add: matches_namespace_def)
  moreover have "score_tool_match (to_searchable_tool (row_to_tool (\<lambda>_. None) get_row JUndef)) ''get'' \<noteq> None" by code_simp
  ultimately show ?thesis by (auto simp: map_filter_simps)
qed

lemma repeated_word_finds_nothing:
  "score_tool_match (to_searchable_tool (row_to_tool (\<lambda>_. None) get_row JUndef)) ''get'' \<noteq> None \<and>
   score_tool_match (to_searchable_tool (row_to_tool (\<lambda>_. None) get_row JUndef)) ''get get'' = None"
  by code_simp
end
