(* ===== verification/ToolInvoker.thy ===== *)
theory ToolInvoker
  imports Discovery
begin

text \<open>
  The tools the sandbox calls (\<open>tool-invoker.ts\<close>, \<open>makeFullInvoker\<close> of \<open>engine.ts\<close>): the dispatch of a path
  to the engine's own tools or to \<open>execute\<close>, with every outcome turned into a tool result or the
  message of an \<open>ExecutionToolError\<close>.
\<close>

section \<open>Invoking from the sandbox\<close>

definition tool_result_fail :: "jsval \<Rightarrow> jsval" where
  "tool_result_fail e = JObj [(''ok'', JBool False), (''error'', e)]"

definition auth_recovery :: "string \<Rightarrow> jsval \<Rightarrow> jsval" where
  "auth_recovery code configure =
     (let configured = (if truthy configure then [(''configureIntegrationTool'', configure)] else []) in
      if code = ''oauth_scope_insufficient'' then
        JObj ([(''listConnectionsTool'', JStr ''executor.coreTools.connections.list'')] @ configured @
          [(''scopeInstructions'', JStr ''The connection's OAuth grant does not cover the scope this operation requires; re-authenticating with the same grant will return the same error. Tell the user which operation was denied and ask them to reconnect the integration with broader access (or use a connection that already has it). Call listConnectionsTool to see the available connections and their scopes.'')])
      else
        JObj ([(''createConnectionTool'', JStr ''executor.coreTools.connections.createHandoff''),
          (''startOAuthTool'', JStr ''executor.coreTools.oauth.start''),
          (''listConnectionsTool'', JStr ''executor.coreTools.connections.list'')] @ configured @
          [(''connectionInstructions'', JStr ''For API keys and tokens, call createConnectionTool for the integration to get a browser URL; the user enters the credential there, which creates the bound connection. Do not ask the user to paste secrets into chat. Then call listConnectionsTool to confirm the connection exists before retrying this tool.''),
           (''oauthInstructions'', JStr ''For OAuth credentials, call startOAuthTool and give the returned authorizationUrl to the user. The completed connection binds automatically, then retry the tool.'')]))"

text \<open>The input of \<open>authToolFailure\<close>: an absent field is \<open>undefined\<close>.\<close>

record auth_failure_input =
  af_code :: string
  af_message :: string
  af_integration :: jsval
  af_credential :: jsval
  af_status :: jsval
  af_upstream :: jsval
  af_configure :: jsval

definition given :: "string \<Rightarrow> jsval \<Rightarrow> (string \<times> jsval) list" where
  "given k v = (if truthy v then [(k, v)] else [])"

definition auth_tool_failure :: "auth_failure_input \<Rightarrow> jsval" where
  "auth_tool_failure i =
     tool_result_fail (JObj ([(''code'', JStr (af_code i)), (''message'', JStr (af_message i)), (''retryable'', JBool False)] @
       (if af_status i = JUndef then [] else [(''status'', af_status i)]) @
       [(''details'', JObj ([(''category'', JStr ''authentication'')] @ given ''integration'' (af_integration i) @
          given ''credential'' (af_credential i) @ given ''upstream'' (af_upstream i) @
          [(''recovery'', auth_recovery (af_code i) (af_configure i))]))]))"

definition credential_resolution_tool_failure :: "string \<times> string \<times> string \<Rightarrow> string \<Rightarrow> bool \<Rightarrow> string option \<Rightarrow> jsval" where
  "credential_resolution_tool_failure who msg reauth_needed oauth_code =
     (let label = (case who of (ow, i, n) \<Rightarrow> i @ ''.'' @ ow @ ''.'' @ n) in
      auth_tool_failure
        \<lparr>af_code = (if reauth_needed then ''oauth_reauth_required'' else ''oauth_refresh_failed''),
         af_message = (if reauth_needed
           then ''OAuth connection '' @ in_quotes label @ '' requires reauthorization: '' @ msg
           else ''OAuth connection '' @ in_quotes label @ '' could not be resolved: '' @ msg),
         af_integration = JUndef, af_credential = JObj [(''kind'', JStr ''oauth''), (''label'', JStr label)],
         af_status = JUndef,
         af_upstream = (case oauth_code of None \<Rightarrow> JUndef
           | Some c \<Rightarrow> JObj [(''details'', JObj [(''oauthErrorCode'', JStr c)])]),
         af_configure = JUndef\<rparr>)"

text \<open>The structural tests on a failure a plugin raised; the executor's own failures pass none of them.\<close>

definition tagged :: "string \<Rightarrow> jsval \<Rightarrow> bool" where
  "tagged t v \<longleftrightarrow> is_object v \<and> obj_get v ''_tag'' = JStr t"

definition text_of :: "jsval \<Rightarrow> string" where
  "text_of v = (case v of JStr s \<Rightarrow> s | _ \<Rightarrow> [])"

definition is_user_actionable :: "jsval \<Rightarrow> bool" where
  "is_user_actionable v \<longleftrightarrow>
     is_object v \<and> obj_get v ''__executorUserActionable'' = JBool True \<and>
     text_of (obj_get v ''userMessage'') \<noteq> [] \<and> text_of (obj_get v ''code'') \<noteq> []"

definition user_actionable_failure :: "jsval \<Rightarrow> jsval" where
  "user_actionable_failure v = JObj [(''code'', obj_get v ''code''), (''message'', obj_get v ''userMessage'')]"

definition binding_tool_failure :: "jsval \<Rightarrow> jsval option" where
  "binding_tool_failure v =
     (if \<not> tagged ''BindingError'' v then None
      else
        let details = concat (map (\<lambda>k. case obj_get v k of JStr s \<Rightarrow> [(k, JStr s)] | _ \<Rightarrow> [])
                        [''role'', ''integration'', ''requestedConnection'']) in
        Some (JObj ([(''code'', JStr ''binding_error''),
          (''message'', case obj_get v ''message'' of JStr s \<Rightarrow> JStr s | _ \<Rightarrow> JStr ''Tool binding failed.'')] @
          (if details = [] then [] else [(''details'', JObj details)]))))"

definition validation_issues :: "jsval \<Rightarrow> jsval list option" where
  "validation_issues v =
     (if \<not> is_object v then None else case obj_get v ''issues'' of JArr xs \<Rightarrow> Some xs | _ \<Rightarrow> None)"

definition open_api_preflight_message :: "jsval \<Rightarrow> string option" where
  "open_api_preflight_message v =
     (if \<not> tagged ''OpenApiInvocationError'' v \<or> obj_get v ''cause'' \<noteq> JUndef \<or> \<not> tagged ''None'' (obj_get v ''statusCode'')
      then None else nonempty (Some (text_of (obj_get v ''message''))))"

definition invalid_arguments :: "string \<Rightarrow> (string \<times> jsval) list \<Rightarrow> jsval" where
  "invalid_arguments msg details =
     JObj ([(''code'', JStr ''invalid_tool_arguments''), (''message'', JStr msg)] @ details)"

definition invocation_cause_failure :: "jsval \<Rightarrow> jsval option" where
  "invocation_cause_failure v =
     (if is_user_actionable v then Some (user_actionable_failure v)
      else case binding_tool_failure v of
        Some e \<Rightarrow> Some e
      | None \<Rightarrow>
          (case validation_issues v of
             Some xs \<Rightarrow> Some (invalid_arguments ''Tool arguments did not match the input schema.''
                          [(''details'', JObj [(''issues'', JArr xs)])])
           | None \<Rightarrow> map_option (\<lambda>m. invalid_arguments m []) (open_api_preflight_message v)))"

fun expected_tool_failure :: "failure \<Rightarrow> jsval option" where
  "expected_tool_failure (FForeign v) = (if is_user_actionable v then Some (user_actionable_failure v) else None)"
| "expected_tool_failure (FToolNotFound a suggestions) =
     Some (JObj [(''code'', JStr ''tool_not_found''), (''message'', JStr (''Tool not found: '' @ address_to_path a)),
       (''details'', JObj ([(''path'', JStr (address_to_path a))] @
          (case suggestions of None \<Rightarrow> []
           | Some xs \<Rightarrow> [(''suggestions'', JArr (map (JStr \<circ> address_to_path) xs))])))])"
| "expected_tool_failure (FToolBlocked a p) =
     Some (JObj [(''code'', JStr ''tool_blocked''), (''message'', JStr (''Tool blocked by policy: '' @ address_to_path a)),
       (''details'', JObj [(''address'', JStr a), (''pattern'', JStr p)])])"
| "expected_tool_failure (FToolInvocation a (FForeign v)) = invocation_cause_failure v"
| "expected_tool_failure _ = None"

definition OPAQUE_DEFECT_MESSAGE :: string where
  "OPAQUE_DEFECT_MESSAGE = ''Internal tool error''"

text \<open>What the sandbox is handed for an outcome of \<open>execute\<close>; \<open>correlation\<close> is the random id of an
  opaque failure.\<close>

definition sandbox_outcome :: "(jsval \<Rightarrow> bool) \<Rightarrow> string \<Rightarrow> failure + jsval \<Rightarrow> string + jsval" where
  "sandbox_outcome is_tool_result correlation r =
     (let keep = (\<lambda>v. if is_tool_result v then v else JObj [(''ok'', JBool True), (''data'', v)]) in
      case r of
        Inr v \<Rightarrow> Inr (keep v)
      | Inl (FCredentialResolution who msg oauth_code dead) \<Rightarrow>
          Inr (keep (credential_resolution_tool_failure who msg dead oauth_code))
      | Inl e \<Rightarrow>
          (case expected_tool_failure e of
             Some te \<Rightarrow> Inr (keep (tool_result_fail te))
           | None \<Rightarrow>
               (case e of
                  FElicitationDeclined a action \<Rightarrow>
                    Inl (''Tool '' @ in_quotes (address_to_path a) @ '' requires approval but the request was ''
                         @ (if action = ''cancel'' then ''cancelled'' else ''declined'') @ '' by the user.'')
                | _ \<Rightarrow> Inl (OPAQUE_DEFECT_MESSAGE @ '' ['' @ correlation @ '']''))))"

definition invoke_from_sandbox ::
  "string \<Rightarrow> 'x exec_env \<Rightarrow> string \<Rightarrow> jsval \<Rightarrow> 'x handler option \<Rightarrow> ('x, string + jsval) eff" where
  "invoke_from_sandbox correlation env path args options =
     eff_map (sandbox_outcome (x_is_tool_result env) correlation)
       (eff_result (execute env (path_to_address path) args options))"

section \<open>The tools the engine itself answers\<close>

datatype sandbox_value =
    SandboxJson jsval
  | SandboxSearch "discovery paged"
  | SandboxIntegrations "listed_integration paged"
  | SandboxTool described_tool

definition is_record :: "jsval \<Rightarrow> bool" where
  "is_record v = (case v of JObj _ \<Rightarrow> True | JDate _ \<Rightarrow> True | _ \<Rightarrow> False)"

definition optional_text :: "jsval \<Rightarrow> bool" where
  "optional_text v = (case v of JUndef \<Rightarrow> True | JStr _ \<Rightarrow> True | _ \<Rightarrow> False)"

definition has_key :: "jsval \<Rightarrow> string \<Rightarrow> bool" where
  "has_key v k = (case v of JObj ps \<Rightarrow> k \<in> fst ` set ps | _ \<Rightarrow> False)"

definition invoke_search :: "collation \<Rightarrow> 'x exec_env \<Rightarrow> jsval \<Rightarrow> ('x, string + sandbox_value) eff" where
  "invoke_search collate env args =
     (if \<not> is_record args then
        eff_return (Inl ''tools.search expects an object: { query?: string; namespace?: string; limit?: number; offset?: number }'')
      else if \<not> optional_text (obj_get args ''query'') then
        eff_return (Inl ''tools.search query must be a string when provided'')
      else if \<not> optional_text (obj_get args ''namespace'') then
        eff_return (Inl ''tools.search namespace must be a string when provided'')
      else case read_optional_limit (obj_get args ''limit'') ''tools.search'' of
        Inl e \<Rightarrow> eff_return (Inl e)
      | Inr limit \<Rightarrow>
          (case read_optional_offset (obj_get args ''offset'') ''tools.search'' of
             Inl e \<Rightarrow> eff_return (Inl e)
           | Inr offset \<Rightarrow>
               eff_map (map_sum id SandboxSearch)
                 (search_tools collate env (text_of (obj_get args ''query'')) limit
                    (opt_str (obj_get args ''namespace'')) offset)))"

definition invoke_integrations_list :: "collation \<Rightarrow> 'x exec_env \<Rightarrow> jsval \<Rightarrow> ('x, string + sandbox_value) eff" where
  "invoke_integrations_list collate env args =
     (let tool = ''tools.executor.integrations.list'';
          field = (\<lambda>k. if is_record args then obj_get args k else JUndef) in
      if args \<noteq> JUndef \<and> \<not> is_record args then
        eff_return (Inl (tool @ '' expects an object: { query?: string; limit?: number; offset?: number }''))
      else if \<not> optional_text (field ''query'') then eff_return (Inl (tool @ '' query must be a string when provided''))
      else case read_optional_limit (field ''limit'') tool of
        Inl e \<Rightarrow> eff_return (Inl e)
      | Inr limit \<Rightarrow>
          (case read_optional_offset (field ''offset'') tool of
             Inl e \<Rightarrow> eff_return (Inl e)
           | Inr offset \<Rightarrow>
               eff_map (map_sum id SandboxIntegrations)
                 (list_executor_integrations collate env (text_of (field ''query'')) limit offset)))"

definition invoke_describe ::
  "collation \<Rightarrow> (jsval \<Rightarrow> jsval \<Rightarrow> (string \<times> jsval) list \<Rightarrow> jsval option) \<Rightarrow> 'x exec_env \<Rightarrow> jsval \<Rightarrow>
   ('x, string + sandbox_value) eff" where
  "invoke_describe collate preview env args =
     (if \<not> is_record args then eff_return (Inl ''tools.describe.tool expects an object: { path: string }'')
      else case obj_get args ''path'' of
        JStr path \<Rightarrow>
          if js_trim path = [] then eff_return (Inl ''describe.tool requires a path'')
          else if has_key args ''includeSchemas'' then eff_return (Inl ''tools.describe.tool no longer accepts includeSchemas'')
          else eff_map (map_sum id SandboxTool) (describe_tool collate preview env path)
      | _ \<Rightarrow> eff_return (Inl ''describe.tool requires a path''))"

definition full_invoke ::
  "collation \<Rightarrow> (jsval \<Rightarrow> jsval \<Rightarrow> (string \<times> jsval) list \<Rightarrow> jsval option) \<Rightarrow> string \<Rightarrow> 'x exec_env \<Rightarrow> string \<Rightarrow> jsval \<Rightarrow>
   'x handler option \<Rightarrow> ('x, string + sandbox_value) eff" where
  "full_invoke collate preview correlation env path args options =
     (if path = ''search'' then invoke_search collate env args
      else if path = ''executor.integrations.list'' then invoke_integrations_list collate env args
      else if path = ''describe.tool'' then invoke_describe collate preview env args
      else eff_map (map_sum id SandboxJson) (invoke_from_sandbox correlation env path args options))"

section \<open>What the sandbox learns\<close>

definition unexpected :: "failure \<Rightarrow> bool" where
  "unexpected e \<longleftrightarrow> expected_tool_failure e = None \<and>
     (case e of FCredentialResolution _ _ _ _ \<Rightarrow> False | FElicitationDeclined _ _ \<Rightarrow> False | _ \<Rightarrow> True)"

text \<open>A failure that is none of the expected ones reaches the sandbox as a fixed message with a random
  correlation id: nothing of it, its message or its cause, is visible there. A storage failure is
  such a failure, raised by the executor or by a plugin's tool.\<close>

theorem unexpected_failure_opaque:
  "(unexpected e \<longrightarrow> sandbox_outcome is_tool_result c (Inl e) = Inl (''Internal tool error ['' @ c @ '']'')) \<and>
   unexpected (FStorage err) \<and> unexpected (FToolInvocation address (FStorage err))"
  by (cases e) (auto simp: unexpected_def sandbox_outcome_def OPAQUE_DEFECT_MESSAGE_def split: option.splits)

lemma unexpected_failure_opaque_witness:
  "sandbox_outcome is_object ''0badcafe'' (Inl (FStorage (StorageError ''postgres://user:secret@db''))) =
     Inl ''Internal tool error [0badcafe]''"
  using unexpected_failure_opaque [of "FStorage (StorageError ''postgres://user:secret@db'')" is_object "''0badcafe''"
      "StorageError ''postgres://user:secret@db''"] by simp

end
