(* ===== verification/Blobs.thy ===== *)
theory Blobs
  imports StoreLaws Engine
begin

text \<open>
  Blobs and pending approvals (\<open>blob.ts\<close>, \<open>pending-approval.ts\<close>). The interface of a blob store is a
  locale: a map from namespaces and keys to values, interpreted on the store over the database and
  on the store in memory (for keys without a colon). The plugin's view of a store and the store of
  pending approvals are its clients; their lemmas are proved once under the contract.
\<close>

section \<open>Printing a pair of strings is injective\<close>

lemma hex_digit_inj: "hex_digit a = hex_digit b \<Longrightarrow> a < 16 \<Longrightarrow> b < 16 \<Longrightarrow> a = b"
proof -
  have "distinct (map hex_digit [0..<16])" by code_simp
  then have "inj_on hex_digit {0..<16}" by (simp only: distinct_map set_upt)
  then show "hex_digit a = hex_digit b \<Longrightarrow> a < 16 \<Longrightarrow> b < 16 \<Longrightarrow> a = b" by (simp add: inj_on_def)
qed

definition escapes :: "(char \<times> char) list" where
  "escapes = [(CHR 0x22, CHR 0x22), (CHR 0x5C, CHR 0x5C), (CHR ''b'', CHR 0x08), (CHR ''t'', CHR 0x09), (CHR ''n'', CHR 0x0A),
     (CHR ''f'', CHR 0x0C), (CHR ''r'', CHR 0x0D)]"

lemma of_char_is: "n < 256 \<Longrightarrow> (of_char c :: nat) = n \<longleftrightarrow> c = char_of n"
  by auto

lemma control_chars: "char_of (8 :: nat) = CHR 0x08" "char_of (9 :: nat) = CHR 0x09" "char_of (10 :: nat) = CHR 0x0A"
  "char_of (12 :: nat) = CHR 0x0C" "char_of (13 :: nat) = CHR 0x0D"
  by code_simp+

lemma json_char_cases:
  "(json_char c = [c] \<and> c \<noteq> CHR 0x22 \<and> c \<noteq> CHR 0x5C) \<or>
   (\<exists>e. json_char c = [CHR 0x5C, e] \<and> e \<noteq> CHR ''u'' \<and> map_of escapes e = Some c) \<or>
   (json_char c = CHR 0x5C # ''u00'' @ [hex_digit (of_char c div 16), hex_digit (of_char c mod 16)] \<and> (of_char c :: nat) < 32)"
  by (simp add: json_char_def Let_def escapes_def of_char_is control_chars)
lemma json_char_code:
  assumes e: "json_char c @ x = json_char d @ y"
  shows "c = d \<and> x = y"
  using json_char_cases [of c]
proof (elim disjE exE conjE)
  assume "json_char c = [c]" "c \<noteq> CHR 0x22" "c \<noteq> CHR 0x5C"
  with e json_char_cases [of d] show ?thesis by auto
next
  fix a assume "json_char c = [CHR 0x5C, a]" "a \<noteq> CHR ''u''" "map_of escapes a = Some c"
  with e json_char_cases [of d] show ?thesis by auto
next
  let ?hex = "\<lambda>c. CHR 0x5C # ''u00'' @ [hex_digit (of_char c div 16), hex_digit (of_char c mod 16)]"
  assume c: "json_char c = ?hex c" "(of_char c :: nat) < 32"
  with e json_char_cases [of d] have d: "json_char d = ?hex d" "(of_char d :: nat) < 32" by auto
  from e c d have "hex_digit (of_char c div 16) = hex_digit (of_char d div 16)"
    "hex_digit (of_char c mod 16) = hex_digit (of_char d mod 16)" "x = y" by auto
  moreover from this c(2) d(2) have "(of_char c :: nat) div 16 = of_char d div 16" "(of_char c :: nat) mod 16 = of_char d mod 16"
    by (auto intro!: hex_digit_inj)
  then have "(of_char c :: nat) = of_char d" by (metis mult_div_mod_eq)
  ultimately show ?thesis by simp
qed

lemma json_quoted_code:
  "concat (map json_char s) @ CHR 0x22 # x = concat (map json_char t) @ CHR 0x22 # y \<Longrightarrow> s = t \<and> x = y"
proof (induction s arbitrary: t)
  case Nil
  then show ?case
  proof (cases t)
    case (Cons d t')
    with Nil json_char_cases [of d] show ?thesis by auto
  qed simp
next
  case (Cons c s)
  show ?case
  proof (cases t)
    case Nil
    with Cons.prems json_char_cases [of c] show ?thesis by auto
  next
    case t: (Cons d t')
    with Cons.prems have "c = d \<and> concat (map json_char s) @ CHR 0x22 # x = concat (map json_char t') @ CHR 0x22 # y"
      by (intro json_char_code) simp
    with Cons.IH [of t'] t show ?thesis by blast
  qed
qed

lemma json_quote_code: "json_quote s @ x = json_quote t @ y \<longleftrightarrow> s = t \<and> x = y"
  using json_quoted_code [of s x t y] by (auto simp: json_quote_def)

definition blob_id :: "string \<Rightarrow> string \<Rightarrow> string" where
  "blob_id namespace key = the (json_stringify (JArr [JStr namespace, JStr key]))"

lemma json_quote_inj [simp]: "json_quote s = json_quote t \<longleftrightarrow> s = t"
  using json_quote_code [of s "[]" t "[]"] by simp

lemma blob_id_inj [simp]: "blob_id n k = blob_id n' k' \<longleftrightarrow> n = n' \<and> k = k'"
  by (auto simp: blob_id_def json_quote_code)


section \<open>Blob stores and their contract\<close>

record 'x blob_store =
  bs_get :: "string \<Rightarrow> string \<Rightarrow> ('x, string option) eff"
  bs_get_many :: "string list \<Rightarrow> string \<Rightarrow> ('x, (string \<times> string) list) eff"
  bs_put :: "string \<Rightarrow> string \<Rightarrow> string \<Rightarrow> ('x, unit) eff"
  bs_delete :: "string \<Rightarrow> string \<Rightarrow> ('x, unit) eff"
  bs_has :: "string \<Rightarrow> string \<Rightarrow> ('x, bool) eff"

text \<open>
  What the callers rely on: a store is a map from a namespace and a key to a value. \<open>ok\<close> are the
  keys a store tells apart; the clock is not part of it.
\<close>

type_synonym blob_map = "string \<times> string \<Rightarrow> string option"

locale blob_contract =
  fixes bs :: "'x blob_store" and inv :: "'x world \<Rightarrow> bool" and content :: "'x world \<Rightarrow> blob_map" and ok :: "string \<Rightarrow> bool"
  assumes get: "inv w \<Longrightarrow> ok k \<Longrightarrow> bs_get bs ns k w = (Inr (content w (ns, k)), w)"
    and get_many: "inv w \<Longrightarrow> ok k \<Longrightarrow> \<exists>hits. bs_get_many bs nss k w = (Inr hits, w) \<and>
      (\<forall>ns. map_of hits ns = (if ns \<in> set nss then content w (ns, k) else None))"
    and put: "inv w \<Longrightarrow> ok k \<Longrightarrow> \<exists>w'. bs_put bs ns k v w = (Inr (), w') \<and> inv w' \<and> w_clock w' = w_clock w \<and>
      (\<forall>ns' k'. ok k' \<longrightarrow> content w' (ns', k') = ((content w)((ns, k) \<mapsto> v)) (ns', k'))"
    and delete: "inv w \<Longrightarrow> ok k \<Longrightarrow> \<exists>w'. bs_delete bs ns k w = (Inr (), w') \<and> inv w' \<and> w_clock w' = w_clock w \<and>
      (\<forall>ns' k'. ok k' \<longrightarrow> content w' (ns', k') = ((content w)((ns, k) := None)) (ns', k'))"
    and has: "inv w \<Longrightarrow> ok k \<Longrightarrow> bs_has bs ns k w = (Inr (content w (ns, k) \<noteq> None), w)"
    and clock: "inv w \<Longrightarrow> inv (w\<lparr>w_clock := n\<rparr>)" "content (w\<lparr>w_clock := n\<rparr>) = content w"

section \<open>The store over the database\<close>

definition blob_failure :: "('x, 'a) eff \<Rightarrow> ('x, 'a) eff" where
  "blob_failure m = eff_map_error (\<lambda>_. FStorage (StorageError ''FumaDB blob operation failed'')) m"

definition blob_by_id :: "string \<Rightarrow> string \<Rightarrow> cond_or_bool" where
  "blob_by_id ns k = cmp_val ''id'' OpEq (JStr (blob_id ns k))"

definition fuma_get :: "'b base_env_scheme \<Rightarrow> string \<Rightarrow> string \<Rightarrow> ('x, string option) eff" where
  "fuma_get env ns k =
     blob_failure (eff_map (\<lambda>r. case r of None \<Rightarrow> None | Some b \<Rightarrow> opt_str (b ''value''))
       (core_find_first env blob_table
         (find_where (builder_and [cmp_val ''namespace'' OpEq (JStr ns), cmp_val ''key'' OpEq (JStr k)]))))"

definition fuma_get_many :: "'b base_env_scheme \<Rightarrow> string list \<Rightarrow> string \<Rightarrow> ('x, (string \<times> string) list) eff" where
  "fuma_get_many env nss k =
     (if nss = [] then eff_return []
      else blob_failure (eff_map (\<lambda>rows. fold (\<lambda>b. map_put (row_str b ''namespace'') (row_str b ''value'')) rows [])
        (core_find_many env blob_table
          (find_where (builder_and [cmp_val ''namespace'' OpIn (JArr (map JStr nss)), cmp_val ''key'' OpEq (JStr k)])))))"

definition fuma_put :: "'b base_env_scheme \<Rightarrow> string \<Rightarrow> string \<Rightarrow> string \<Rightarrow> ('x, unit) eff" where
  "fuma_put env ns k v =
     blob_failure (eff_bind (core_find_first env blob_table (find_where (blob_by_id ns k))) (\<lambda>existing.
       case existing of
         Some _ \<Rightarrow> core_update_many env blob_table (Some (blob_by_id ns k)) [(''value'', JStr v)]
       | None \<Rightarrow> eff_map (\<lambda>_. ()) (core_create env blob_table
           [(''id'', JStr (blob_id ns k)), (''namespace'', JStr ns), (''key'', JStr k), (''value'', JStr v)])))"

definition fuma_delete :: "'b base_env_scheme \<Rightarrow> string \<Rightarrow> string \<Rightarrow> ('x, unit) eff" where
  "fuma_delete env ns k = blob_failure (core_delete_many env blob_table (Some (blob_by_id ns k)))"

definition fuma_has :: "'b base_env_scheme \<Rightarrow> string \<Rightarrow> string \<Rightarrow> ('x, bool) eff" where
  "fuma_has env ns k = blob_failure (eff_map (\<lambda>n. n > 0) (core_count env blob_table (Some (blob_by_id ns k))))"

definition make_fuma_blob_store :: "'b base_env_scheme \<Rightarrow> 'x blob_store" where
  "make_fuma_blob_store env = \<lparr>bs_get = fuma_get env, bs_get_many = fuma_get_many env, bs_put = fuma_put env,
     bs_delete = fuma_delete env, bs_has = fuma_has env\<rparr>"

text \<open>The rows the store writes, and the map they stand for.\<close>

definition is_blob_row :: "row \<Rightarrow> bool" where
  "is_blob_row r \<longleftrightarrow> (\<exists>ns k v. r ''namespace'' = JStr ns \<and> r ''key'' = JStr k \<and> r ''value'' = JStr v \<and>
     r ''id'' = JStr (blob_id ns k))"

definition blobs_ok :: "'x world \<Rightarrow> bool" where
  "blobs_ok w \<longleftrightarrow> (\<forall>r \<in> set (w_db w ''blob''). is_blob_row r) \<and> distinct (map (\<lambda>r. r ''id'') (w_db w ''blob''))"

definition blob_in :: "row list \<Rightarrow> string \<Rightarrow> string option" where
  "blob_in rs i = (case find (\<lambda>r. r ''id'' = JStr i) rs of None \<Rightarrow> None | Some r \<Rightarrow> opt_str (r ''value''))"

definition blobs :: "'x world \<Rightarrow> blob_map" where
  "blobs w = (\<lambda>(ns, k). blob_in (w_db w ''blob'') (blob_id ns k))"

interpretation blob_open: open_table "unscoped_executor_table n cols" c "\<lambda>_. True" "\<lambda>_. True" for n cols c
  by unfold_locales
    (auto simp: apply_read_policies_def apply_update_policies_def apply_delete_policies_def unscoped_executor_table_def
      merge_policy_condition_def)

lemma core_blob_ops:
  "core_find_first env blob_table (find_where q) w = (Inr (find (\<lambda>r. holds_cb r q) (w_db w ''blob'')), w)"
  "core_find_many env blob_table (find_where q) w = (Inr (filter (\<lambda>r. holds_cb r q) (w_db w ''blob'')), w)"
  "core_update_many env blob_table (Some q) ps w =
     (Inr (), w\<lparr>w_db := (w_db w)(''blob'' := map (\<lambda>r. if holds_cb r q then obj_assign r ps else r) (w_db w ''blob''))\<rparr>)"
  "core_delete_many env blob_table (Some q) w =
     (Inr (), w\<lparr>w_db := (w_db w)(''blob'' := filter (\<lambda>r. \<not> holds_cb r q) (w_db w ''blob''))\<rparr>)"
  "core_count env blob_table (Some q) w = (Inr (length (filter (\<lambda>r. holds_cb r q) (w_db w ''blob''))), w)"
  "core_create env blob_table vals w =
     (let r = apply_defaults (e_auto env (w_ids w)) (tbl_columns blob_table) vals in
      (Inr r, w\<lparr>w_db := (w_db w)(''blob'' := w_db w ''blob'' @ [r]), w_ids := Suc (w_ids w)\<rparr>))"
proof -
  have w: "where_holds (Some q) r \<longleftrightarrow> holds_cb r q" for r by (simp add: where_holds_def)
  note ex = blob_open.find_first_exact blob_open.find_many_exact blob_open.update_exact [OF TrueI] blob_open.delete_exact
  show "core_find_first env blob_table (find_where q) w = (Inr (find (\<lambda>r. holds_cb r q) (w_db w ''blob'')), w)"
    by (simp add: core_find_first_def blob_table_def ex storage_def)
  show "core_find_many env blob_table (find_where q) w = (Inr (filter (\<lambda>r. holds_cb r q) (w_db w ''blob'')), w)"
    by (simp add: core_find_many_def blob_table_def ex storage_def find_where_def where_holds_def rows_of_where [unfolded find_where_def])
  show "core_update_many env blob_table (Some q) ps w =
     (Inr (), w\<lparr>w_db := (w_db w)(''blob'' := map (\<lambda>r. if holds_cb r q then obj_assign r ps else r) (w_db w ''blob''))\<rparr>)"
    by (simp add: core_update_many_def blob_table_def ex storage_def w)
  show "core_delete_many env blob_table (Some q) w =
     (Inr (), w\<lparr>w_db := (w_db w)(''blob'' := filter (\<lambda>r. \<not> holds_cb r q) (w_db w ''blob''))\<rparr>)"
    by (simp add: core_delete_many_def blob_table_def ex storage_def w)
  show "core_create env blob_table vals w =
     (let r = apply_defaults (e_auto env (w_ids w)) (tbl_columns blob_table) vals in
      (Inr r, w\<lparr>w_db := (w_db w)(''blob'' := w_db w ''blob'' @ [r]), w_ids := Suc (w_ids w)\<rparr>))"
    by (simp add: core_create_def orm_create_def blob_table_def unscoped_executor_table_def mem_create_def storage_def Let_def
        run_create_policies_def)
  show "core_count env blob_table (Some q) w = (Inr (length (filter (\<lambda>r. holds_cb r q) (w_db w ''blob''))), w)"
  proof (cases q)
    case (CB b)
    then show ?thesis
      by (cases b) (simp_all add: core_count_def orm_count_def blob_table_def unscoped_executor_table_def apply_read_policies_def
          mem_count_def storage_def compile_where_def merge_policy_condition_def)
  next
    case (CC c)
    then show ?thesis
      by (simp add: core_count_def orm_count_def blob_table_def unscoped_executor_table_def apply_read_policies_def
          mem_count_def storage_def compile_where_def merge_policy_condition_def)
  qed
qed

lemma blob_failure_ok: "blob_failure m w = (Inr a, w') \<longleftrightarrow> m w = (Inr a, w')"
  by (auto simp: blob_failure_def eff_map_error_def eff_catch_def split: prod.splits sum.splits)

lemma holds_blob_by_id [simp]: "holds_cb r (blob_by_id ns k) \<longleftrightarrow> r ''id'' = JStr (blob_id ns k)"
  by (simp add: blob_by_id_def)

lemma blob_in_row: "is_blob_row r \<Longrightarrow> r ''namespace'' = JStr ns \<and> r ''key'' = JStr k \<longleftrightarrow> r ''id'' = JStr (blob_id ns k)"
  by (auto simp: is_blob_row_def)

lemma find_cong_on: "(\<And>r. r \<in> set rs \<Longrightarrow> P r = Q r) \<Longrightarrow> find P rs = find Q rs"
  by (induction rs) auto

lemma fuma_get_map: "blobs_ok w \<Longrightarrow> fuma_get env ns k w = (Inr (blobs w (ns, k)), w)"
proof -
  assume ok: "blobs_ok w"
  have "find (\<lambda>r. r ''namespace'' = JStr ns \<and> r ''key'' = JStr k) (w_db w ''blob'') =
      find (\<lambda>r. r ''id'' = JStr (blob_id ns k)) (w_db w ''blob'')"
    using ok blob_in_row by (intro find_cong_on) (auto simp: blobs_ok_def)
  then show ?thesis
    by (simp add: fuma_get_def blob_failure_ok eff_map_def eff_bind_def core_blob_ops blobs_def blob_in_def)
qed

lemma map_of_map_put [simp]: "map_of (map_put k v ps) k' = (if k' = k then Some v else map_of ps k')"
proof -
  have *: "map_of (map (\<lambda>(k', u). (k', if k' = k then v else u)) ps) k' =
      (if k' = k then map_option (\<lambda>_. v) (map_of ps k) else map_of ps k')"
    by (induction ps) auto
  show ?thesis
  proof (cases "map_of ps k")
    case None
    then have "k \<notin> fst ` set ps" by (simp add: map_of_eq_None_iff)
    with None show ?thesis by (auto simp: map_put_def map_add_def split: option.splits)
  next
    case (Some y)
    then have "k \<in> fst ` set ps" by (metis map_of_eq_None_iff option.distinct(1))
    with Some * show ?thesis by (simp add: map_put_def)
  qed
qed

lemma map_of_puts:
  "(\<forall>b \<in> set rows. f b = k \<longrightarrow> g b = v) \<Longrightarrow>
   map_of (fold (\<lambda>b. map_put (f b) (g b)) rows acc) k = (if \<exists>b \<in> set rows. f b = k then Some v else map_of acc k)"
  by (induction rows arbitrary: acc) auto

lemma blob_in_none: "\<forall>r \<in> set rs. r ''id'' \<noteq> JStr i \<Longrightarrow> blob_in rs i = None"
  by (induction rs) (auto simp: blob_in_def)

lemma blob_in_some: "distinct (map (\<lambda>r. r ''id'') rs) \<Longrightarrow> r \<in> set rs \<Longrightarrow> r ''id'' = JStr i \<Longrightarrow> blob_in rs i = opt_str (r ''value'')"
proof (induction rs)
  case (Cons a rs)
  show ?case
  proof (cases "r = a")
    case True
    with Cons.prems show ?thesis by (simp add: blob_in_def)
  next
    case False
    with Cons.prems have "r \<in> set rs" by simp
    moreover from this Cons.prems have "a ''id'' \<noteq> JStr i" by (metis (no_types, lifting) distinct.simps(2) image_eqI list.simps(9) set_map)
    moreover have "blob_in rs i = opt_str (r ''value'')" using Cons.IH Cons.prems \<open>r \<in> set rs\<close> by simp
    ultimately show ?thesis by (simp add: blob_in_def)
  qed
qed simp

lemma is_blob_row_str:
  "is_blob_row r \<Longrightarrow> r ''namespace'' = JStr (row_str r ''namespace'') \<and> opt_str (r ''value'') = Some (row_str r ''value'')"
  by (auto simp: is_blob_row_def row_str_def opt_str_def)

lemma fuma_get_many_map:
  assumes "blobs_ok w"
  shows "\<exists>hits. fuma_get_many env nss k w = (Inr hits, w) \<and>
    (\<forall>ns. map_of hits ns = (if ns \<in> set nss then blobs w (ns, k) else None))"
proof (cases "nss = []")
  case False
  let ?P = "\<lambda>r. holds_cb r (builder_and [cmp_val ''namespace'' OpIn (JArr (map JStr nss)), cmp_val ''key'' OpEq (JStr k)])"
  let ?rows = "filter ?P (w_db w ''blob'')"
  let ?hits = "fold (\<lambda>b. map_put (row_str b ''namespace'') (row_str b ''value'')) ?rows []"
  have ok: "is_blob_row r" if "r \<in> set (w_db w ''blob'')" for r using assms that by (simp add: blobs_ok_def)
  have P: "?P r \<longleftrightarrow> row_str r ''namespace'' \<in> set nss \<and> r ''key'' = JStr k" if r: "is_blob_row r" for r
  proof -
    obtain ns where ns: "r ''namespace'' = JStr ns" using r by (auto simp: is_blob_row_def)
    have "list_ex (\<lambda>w. w = JStr ns) (map JStr nss) \<longleftrightarrow> ns \<in> set nss" by (induction nss) auto
    with ns show ?thesis by (simp add: cmp_val_def row_str_def) (cases "r ''key''"; simp)
  qed
  have "map_of ?hits ns = (if ns \<in> set nss then blobs w (ns, k) else None)" for ns
  proof (cases "\<exists>b \<in> set ?rows. row_str b ''namespace'' = ns")
    case True
    then obtain b where b: "b \<in> set (w_db w ''blob'')" "ns \<in> set nss" "b ''key'' = JStr k" "row_str b ''namespace'' = ns"
      using P ok by auto
    then have i: "b ''id'' = JStr (blob_id ns k)" using blob_in_row [of b ns k] is_blob_row_str ok by metis
    have "\<forall>c \<in> set ?rows. row_str c ''namespace'' = ns \<longrightarrow> row_str c ''value'' = row_str b ''value''"
    proof (intro ballI impI)
      fix c assume c: "c \<in> set ?rows" "row_str c ''namespace'' = ns"
      then have "c ''id'' = JStr (blob_id ns k)" using P ok blob_in_row [of c ns k] is_blob_row_str [of c] by auto
      moreover have "inj_on (\<lambda>r. r ''id'') (set (w_db w ''blob''))" using assms by (simp add: blobs_ok_def distinct_map)
      ultimately have "c = b" using inj_onD [of "\<lambda>r. r ''id''" _ c b] c(1) b(1) i by simp
      then show "row_str c ''value'' = row_str b ''value''" by simp
    qed
    from map_of_puts [of ?rows "\<lambda>b. row_str b ''namespace''" ns, OF this, of "[]"] True
    have "map_of ?hits ns = Some (row_str b ''value'')" by simp
    moreover have "blob_in (w_db w ''blob'') (blob_id ns k) = Some (row_str b ''value'')"
      using blob_in_some [OF _ b(1) i] assms is_blob_row_str [OF ok [OF b(1)]] by (simp add: blobs_ok_def)
    ultimately show ?thesis using b(2) by (simp add: blobs_def)
  next
    case False
    from map_of_puts [of ?rows "\<lambda>b. row_str b ''namespace''" ns "\<lambda>b. row_str b ''value''" undefined "[]"] False
    have "map_of ?hits ns = None" by auto
    moreover have "blob_in (w_db w ''blob'') (blob_id ns k) = None" if "ns \<in> set nss"
    proof (rule blob_in_none, intro ballI notI)
      fix r assume r: "r \<in> set (w_db w ''blob'')" "r ''id'' = JStr (blob_id ns k)"
      then have "r ''namespace'' = JStr ns \<and> r ''key'' = JStr k" using blob_in_row ok by blast
      moreover from this r ok have "?P r" using P [of r] that by (simp add: row_str_def)
      ultimately show False using False r(1) by (auto simp: row_str_def)
    qed
    ultimately show ?thesis by (simp add: blobs_def)
  qed
  with False show ?thesis
    by (auto simp: fuma_get_many_def blob_failure_ok eff_map_def eff_bind_def core_blob_ops)
qed (simp add: fuma_get_many_def)

lemma blob_in_set_value:
  "blob_in (map (\<lambda>r. if r ''id'' = JStr i then obj_assign r [(''value'', JStr v)] else r) rs) j =
     (if j = i \<and> (\<exists>r \<in> set rs. r ''id'' = JStr i) then Some v else blob_in rs j)"
  by (induction rs) (auto simp: blob_in_def opt_str_def)

lemma blob_in_remove:
  "blob_in (filter (\<lambda>r. r ''id'' \<noteq> JStr i) rs) j = (if j = i then None else blob_in rs j)"
  by (induction rs) (auto simp: blob_in_def)

lemma blob_in_snoc:
  "\<forall>r \<in> set rs. r ''id'' \<noteq> JStr i \<Longrightarrow> r ''id'' = JStr i \<Longrightarrow> r ''value'' = JStr v \<Longrightarrow>
   blob_in (rs @ [r]) j = (if j = i then Some v else blob_in rs j)"
  by (induction rs) (auto simp: blob_in_def opt_str_def)

lemma find_none: "find P xs = None \<longleftrightarrow> (\<forall>x \<in> set xs. \<not> P x)"
  by (auto simp: find_None_iff)

lemma blobs_db: "blobs (w\<lparr>w_db := d\<rparr>) (ns, k) = blob_in (d ''blob'') (blob_id ns k)"
  by (simp add: blobs_def)

lemma fuma_put_map:
  assumes "blobs_ok w"
  shows "\<exists>w'. fuma_put env ns k v w = (Inr (), w') \<and> blobs_ok w' \<and> w_clock w' = w_clock w \<and>
    blobs w' = (blobs w)((ns, k) \<mapsto> v)"
proof (cases "find (\<lambda>r. r ''id'' = JStr (blob_id ns k)) (w_db w ''blob'')")
  case None
  let ?vals = "[(''id'', JStr (blob_id ns k)), (''namespace'', JStr ns), (''key'', JStr k), (''value'', JStr v)]"
  let ?r = "apply_defaults (e_auto env (w_ids w)) (tbl_columns blob_table) ?vals"
  let ?w = "w\<lparr>w_db := (w_db w)(''blob'' := w_db w ''blob'' @ [?r]), w_ids := Suc (w_ids w)\<rparr>"
  have r: "?r ''id'' = JStr (blob_id ns k)" "?r ''namespace'' = JStr ns" "?r ''key'' = JStr k" "?r ''value'' = JStr v"
    by (subst apply_defaults_given; simp add: blob_table_def unscoped_executor_table_def key_column_def text_column_def auto_id_column_def)+
  have new: "\<forall>r \<in> set (w_db w ''blob''). r ''id'' \<noteq> JStr (blob_id ns k)" using None by (simp add: find_none)
  have "fuma_put env ns k v w = (Inr (), ?w)"
    using None by (simp add: fuma_put_def blob_failure_ok eff_map_def eff_bind_def core_blob_ops Let_def)
  moreover have "blobs_ok ?w"
    using assms new r by (auto simp: blobs_ok_def is_blob_row_def)
  moreover have "blobs ?w = (blobs w)((ns, k) \<mapsto> v)"
    using blob_in_snoc [OF new r(1,4)] by (auto simp: fun_eq_iff blobs_def)
  ultimately show ?thesis by (intro exI [of _ ?w]) simp
next
  case (Some r)
  let ?set = "\<lambda>r. if r ''id'' = JStr (blob_id ns k) then obj_assign r [(''value'', JStr v)] else r"
  let ?w = "w\<lparr>w_db := (w_db w)(''blob'' := map ?set (w_db w ''blob''))\<rparr>"
  have there: "\<exists>r \<in> set (w_db w ''blob''). r ''id'' = JStr (blob_id ns k)" using Some by (auto simp: find_Some_iff)
  have "fuma_put env ns k v w = (Inr (), ?w)"
    using Some by (simp add: fuma_put_def blob_failure_ok eff_bind_def core_blob_ops)
  moreover have "(\<lambda>r. r ''id'') \<circ> ?set = (\<lambda>r. r ''id'')" by (auto simp: fun_eq_iff)
  then have "map (\<lambda>r. r ''id'') (map ?set (w_db w ''blob'')) = map (\<lambda>r. r ''id'') (w_db w ''blob'')" by simp
  moreover have "is_blob_row r \<Longrightarrow> is_blob_row (r(''value'' := JStr v))" for r by (auto simp: is_blob_row_def)
  then have "\<forall>r \<in> set (map ?set (w_db w ''blob'')). is_blob_row r" using assms by (auto simp: blobs_ok_def)
  ultimately have "fuma_put env ns k v w = (Inr (), ?w)" "blobs_ok ?w" using assms by (simp_all add: blobs_ok_def del: map_map)
  moreover have "blobs ?w = (blobs w)((ns, k) \<mapsto> v)"
    using there by (auto simp: fun_eq_iff blobs_def blob_in_set_value simp del: obj_assign_Cons)
  ultimately show ?thesis by (intro exI [of _ ?w]) simp
qed

lemma fuma_delete_map:
  assumes "blobs_ok w"
  shows "\<exists>w'. fuma_delete env ns k w = (Inr (), w') \<and> blobs_ok w' \<and> w_clock w' = w_clock w \<and>
    blobs w' = (blobs w)((ns, k) := None)"
proof -
  let ?w = "w\<lparr>w_db := (w_db w)(''blob'' := filter (\<lambda>r. r ''id'' \<noteq> JStr (blob_id ns k)) (w_db w ''blob''))\<rparr>"
  have "fuma_delete env ns k w = (Inr (), ?w)" by (simp add: fuma_delete_def blob_failure_ok core_blob_ops)
  moreover have "blobs_ok ?w" using assms by (auto simp: blobs_ok_def distinct_map_filter)
  moreover have "blobs ?w = (blobs w)((ns, k) := None)" by (auto simp: fun_eq_iff blobs_def blob_in_remove)
  ultimately show ?thesis by (intro exI [of _ ?w]) simp
qed

lemma fuma_has_map: "blobs_ok w \<Longrightarrow> fuma_has env ns k w = (Inr (blobs w (ns, k) \<noteq> None), w)"
proof -
  assume ok: "blobs_ok w"
  have "blob_in rs i \<noteq> None \<longleftrightarrow> filter (\<lambda>r. r ''id'' = JStr i) rs \<noteq> []" if "\<forall>r \<in> set rs. is_blob_row r" for rs i
    using that by (induction rs) (auto simp: blob_in_def is_blob_row_def opt_str_def)
  with ok show ?thesis
    by (simp add: fuma_has_def blob_failure_ok eff_map_def eff_bind_def core_blob_ops blobs_def blobs_ok_def)
qed

interpretation fuma_blobs: blob_contract "make_fuma_blob_store env :: 'x blob_store" blobs_ok blobs "\<lambda>_. True"
  for env :: "'b base_env_scheme"
proof unfold_locales
  fix w :: "'x world" and k ns v :: string and nss :: "string list"
  assume ok: "blobs_ok w"
  show "bs_get (make_fuma_blob_store env) ns k w = (Inr (blobs w (ns, k)), w)"
    by (simp add: make_fuma_blob_store_def fuma_get_map [OF ok])
  show "\<exists>hits. bs_get_many (make_fuma_blob_store env) nss k w = (Inr hits, w) \<and>
      (\<forall>ns. map_of hits ns = (if ns \<in> set nss then blobs w (ns, k) else None))"
    using fuma_get_many_map [OF ok, of env nss k] by (simp add: make_fuma_blob_store_def)
  show "\<exists>w'. bs_put (make_fuma_blob_store env) ns k v w = (Inr (), w') \<and> blobs_ok w' \<and> w_clock w' = w_clock w \<and>
      (\<forall>ns' k'. True \<longrightarrow> blobs w' (ns', k') = ((blobs w)((ns, k) \<mapsto> v)) (ns', k'))"
    using fuma_put_map [OF ok, of env ns k v] by (auto simp: make_fuma_blob_store_def)
  show "\<exists>w'. bs_delete (make_fuma_blob_store env) ns k w = (Inr (), w') \<and> blobs_ok w' \<and> w_clock w' = w_clock w \<and>
      (\<forall>ns' k'. True \<longrightarrow> blobs w' (ns', k') = ((blobs w)((ns, k) := None)) (ns', k'))"
    using fuma_delete_map [OF ok, of env ns k] by (auto simp: make_fuma_blob_store_def)
  show "bs_has (make_fuma_blob_store env) ns k w = (Inr (blobs w (ns, k) \<noteq> None), w)"
    by (simp add: make_fuma_blob_store_def fuma_has_map [OF ok])
  show "blobs_ok (w\<lparr>w_clock := n\<rparr>)" for n using ok by (simp add: blobs_ok_def)
qed (simp add: blobs_def)

section \<open>The store in memory\<close>

definition memory_key :: "string \<Rightarrow> string \<Rightarrow> string" where
  "memory_key ns k = ns @ ''::'' @ k"

definition make_in_memory_blob_store :: "(string \<times> string) list blob_store" where
  "make_in_memory_blob_store =
     \<lparr>bs_get = (\<lambda>ns k w. (Inr (map_of (w_ext w) (memory_key ns k)), w)),
      bs_get_many = (\<lambda>nss k w. (Inr (fold (\<lambda>ns hits. case map_of (w_ext w) (memory_key ns k) of
          Some v \<Rightarrow> map_put ns v hits | None \<Rightarrow> hits) nss []), w)),
      bs_put = (\<lambda>ns k v w. (Inr (), w\<lparr>w_ext := map_put (memory_key ns k) v (w_ext w)\<rparr>)),
      bs_delete = (\<lambda>ns k w. (Inr (), w\<lparr>w_ext := map_drop (memory_key ns k) (w_ext w)\<rparr>)),
      bs_has = (\<lambda>ns k w. (Inr (map_of (w_ext w) (memory_key ns k) \<noteq> None), w))\<rparr>"

definition colon_free :: "string \<Rightarrow> bool" where
  "colon_free s \<longleftrightarrow> CHR '':'' \<notin> set s"

lemma memory_key_inj:
  assumes "colon_free k" "colon_free k'"
  shows "memory_key ns k = memory_key ns' k' \<longleftrightarrow> ns = ns' \<and> k = k'"
proof
  assume e: "memory_key ns k = memory_key ns' k'"
  have "takeWhile (\<lambda>c. c \<noteq> CHR '':'') (rev (memory_key ns k)) = rev k" if "colon_free k" for ns k
    using that by (auto simp: memory_key_def colon_free_def takeWhile_append)
  from this [OF assms(1), of ns] this [OF assms(2), of ns'] e have "k = k'" by simp
  with e show "ns = ns' \<and> k = k'" by (simp add: memory_key_def)
qed simp

lemma map_of_map_drop: "map_of (map_drop k ps) k' = (if k' = k then None else map_of ps k')"
  by (induction ps) (auto simp: map_drop_def)

interpretation memory_blobs: blob_contract make_in_memory_blob_store "\<lambda>_. True" "\<lambda>w (ns, k). map_of (w_ext w) (memory_key ns k)" colon_free
proof unfold_locales
  fix w :: "(string \<times> string) list world" and k ns v nss
  have "map_of (fold (\<lambda>ns hits. case m ns of Some v \<Rightarrow> map_put ns v hits | None \<Rightarrow> hits) nss acc) n =
      (if n \<in> set nss \<and> m n \<noteq> None then m n else map_of acc n)" for m :: "string \<Rightarrow> string option" and acc n
    by (induction nss arbitrary: acc) (auto split: option.splits)
  then show "\<exists>hits. bs_get_many make_in_memory_blob_store nss k w = (Inr hits, w) \<and>
      (\<forall>ns. map_of hits ns = (if ns \<in> set nss then case (ns, k) of (ns, k) \<Rightarrow> map_of (w_ext w) (memory_key ns k) else None))"
    by (auto simp: make_in_memory_blob_store_def)
qed (auto simp: make_in_memory_blob_store_def memory_key_inj map_of_map_drop)

section \<open>A plugin's blobs\<close>

record owner_partitions =
  pt_org :: string
  pt_user :: "string option"

definition ns_for :: "string \<Rightarrow> string \<Rightarrow> string" where
  "ns_for p plugin_id = p @ ''/'' @ plugin_id"

definition read_namespaces :: "owner_partitions \<Rightarrow> string \<Rightarrow> string list" where
  "read_namespaces pts pl =
     map (\<lambda>p. ns_for p pl) (case pt_user pts of None \<Rightarrow> [pt_org pts] | Some u \<Rightarrow> [u, pt_org pts])"

definition partition_for :: "owner_partitions \<Rightarrow> owner \<Rightarrow> failure + string" where
  "partition_for pts ow =
     (case ow of
        Org \<Rightarrow> Inr (pt_org pts)
      | User \<Rightarrow>
          (case pt_user pts of
             None \<Rightarrow> Inl (FStorage (StorageError (''Blob write targets owner '' @ in_quotes ''user'' @ '' but the executor has no subject.'')))
           | Some u \<Rightarrow> Inr u))"

fun first_hit :: "(string \<times> string) list \<Rightarrow> string list \<Rightarrow> string option" where
  "first_hit hits [] = None"
| "first_hit hits (ns # nss) = (case map_of hits ns of Some v \<Rightarrow> Some v | None \<Rightarrow> first_hit hits nss)"

definition plugin_blob_get :: "'x blob_store \<Rightarrow> owner_partitions \<Rightarrow> string \<Rightarrow> string \<Rightarrow> ('x, string option) eff" where
  "plugin_blob_get bs pts pl k =
     eff_map (\<lambda>hits. if hits = [] then None else first_hit hits (read_namespaces pts pl))
       (bs_get_many bs (read_namespaces pts pl) k)"

definition plugin_blob_put :: "'x blob_store \<Rightarrow> owner_partitions \<Rightarrow> string \<Rightarrow> string \<Rightarrow> string \<Rightarrow> owner \<Rightarrow> ('x, unit) eff" where
  "plugin_blob_put bs pts pl k v ow = eff_bind (eff_lift (partition_for pts ow)) (\<lambda>p. bs_put bs (ns_for p pl) k v)"

definition plugin_blob_delete :: "'x blob_store \<Rightarrow> owner_partitions \<Rightarrow> string \<Rightarrow> string \<Rightarrow> owner \<Rightarrow> ('x, unit) eff" where
  "plugin_blob_delete bs pts pl k ow = eff_bind (eff_lift (partition_for pts ow)) (\<lambda>p. bs_delete bs (ns_for p pl) k)"

definition plugin_blob_has :: "'x blob_store \<Rightarrow> owner_partitions \<Rightarrow> string \<Rightarrow> string \<Rightarrow> ('x, bool) eff" where
  "plugin_blob_has bs pts pl k = eff_map (\<lambda>hits. hits \<noteq> []) (bs_get_many bs (read_namespaces pts pl) k)"

definition blob_partitions :: "owner_ctx \<Rightarrow> owner_partitions" where
  "blob_partitions c =
     \<lparr>pt_org = ''o:'' @ oc_tenant c,
      pt_user = map_option (\<lambda>s. ''u:'' @ oc_tenant c @ '':'' @ s) (oc_subject c)\<rparr>"

section \<open>Pending approvals\<close>

definition PENDING_APPROVAL_TTL_MS :: int where
  "PENDING_APPROVAL_TTL_MS = 15 * 60 * 1000"

record pending_approval =
  pa_execution_id :: string
  pa_artifact_id :: string
  pa_code :: string
  pa_address :: string
  pa_expires_at :: int

definition approval_json :: "pending_approval \<Rightarrow> jsval" where
  "approval_json a = JObj [(''executionId'', JStr (pa_execution_id a)), (''artifactId'', JStr (pa_artifact_id a)),
     (''code'', JStr (pa_code a)), (''address'', JStr (pa_address a)), (''expiresAt'', JNum (pa_expires_at a))]"

definition encode_pending_approval :: "pending_approval \<Rightarrow> string" where
  "encode_pending_approval a = the (json_stringify (approval_json a))"

text \<open>\<open>json\<close> is \<open>JSON.parse\<close>, \<open>None\<close> where it throws.\<close>

definition decode_pending_approval :: "(string \<Rightarrow> jsval option) \<Rightarrow> string \<Rightarrow> pending_approval option" where
  "decode_pending_approval json raw =
     (case json raw of
        None \<Rightarrow> None
      | Some v \<Rightarrow>
          if \<not> is_object v then None
          else case (obj_get v ''executionId'', obj_get v ''artifactId'', obj_get v ''code'', obj_get v ''address'', obj_get v ''expiresAt'') of
            (JStr e, JStr a, JStr c, JStr d, JNum t) \<Rightarrow>
              Some \<lparr>pa_execution_id = e, pa_artifact_id = a, pa_code = c, pa_address = d, pa_expires_at = t\<rparr>
          | _ \<Rightarrow> None)"

definition approval_namespace :: "string \<Rightarrow> string" where
  "approval_namespace p = p @ ''/@pending-approval''"

definition approval_put :: "'x blob_store \<Rightarrow> string \<Rightarrow> pending_approval \<Rightarrow> ('x, unit) eff" where
  "approval_put bs p a = bs_put bs (approval_namespace p) (pa_execution_id a) (encode_pending_approval a)"

definition approval_consume ::
  "'x blob_store \<Rightarrow> (string \<Rightarrow> jsval option) \<Rightarrow> 'b base_env_scheme \<Rightarrow> string \<Rightarrow> string \<Rightarrow> ('x, pending_approval option) eff" where
  "approval_consume bs json env p i =
     eff_bind (bs_get bs (approval_namespace p) i) (\<lambda>raw.
       case raw of
         None \<Rightarrow> eff_return None
       | Some s \<Rightarrow>
           eff_bind (bs_delete bs (approval_namespace p) i) (\<lambda>_.
             case decode_pending_approval json s of
               None \<Rightarrow> eff_return None
             | Some a \<Rightarrow> eff_map (\<lambda>t. if pa_expires_at a \<le> t then None else Some a) (now env)))"

definition approval_discard :: "'x blob_store \<Rightarrow> string \<Rightarrow> string \<Rightarrow> ('x, unit) eff" where
  "approval_discard bs p i = bs_delete bs (approval_namespace p) i"

text \<open>The partition an executor files its approvals under: the narrowest it has.\<close>

definition approval_partition :: "owner_ctx \<Rightarrow> string" where
  "approval_partition c = (case pt_user (blob_partitions c) of Some u \<Rightarrow> u | None \<Rightarrow> pt_org (blob_partitions c))"

section \<open>What the clients of a store promise\<close>

definition consumed :: "(string \<Rightarrow> jsval option) \<Rightarrow> int \<Rightarrow> string option \<Rightarrow> pending_approval option" where
  "consumed json t raw =
     (case raw of
        None \<Rightarrow> None
      | Some s \<Rightarrow>
          (case decode_pending_approval json s of
             None \<Rightarrow> None
           | Some a \<Rightarrow> if pa_expires_at a \<le> t then None else Some a))"

context blob_contract begin

lemma plugin_get:
  assumes "inv w" "ok k"
  shows "plugin_blob_get bs pts pl k w =
    (Inr (case map_option (\<lambda>u. content w (ns_for u pl, k)) (pt_user pts) of
            Some (Some v) \<Rightarrow> Some v | _ \<Rightarrow> content w (ns_for (pt_org pts) pl, k)), w)"
proof -
  obtain hits where h: "bs_get_many bs (read_namespaces pts pl) k w = (Inr hits, w)"
    "\<And>ns. map_of hits ns = (if ns \<in> set (read_namespaces pts pl) then content w (ns, k) else None)"
    using get_many [OF assms] by metis
  have "hits = [] \<Longrightarrow> ns \<in> set (read_namespaces pts pl) \<Longrightarrow> content w (ns, k) = None" for ns
    using h(2) [of ns] by simp
  with h show ?thesis
    by (cases "hits = []") (auto simp: plugin_blob_get_def eff_map_def eff_bind_def read_namespaces_def split: option.splits)
qed

lemma plugin_put:
  assumes "inv w" "ok k" "partition_for pts ow = Inr p"
  shows "\<exists>w'. plugin_blob_put bs pts pl k v ow w = (Inr (), w') \<and> inv w' \<and>
    (\<forall>ns' k'. ok k' \<longrightarrow> content w' (ns', k') = ((content w)((ns_for p pl, k) \<mapsto> v)) (ns', k'))"
  using put [OF assms(1,2), of "ns_for p pl" v] assms(3)
  by (auto simp: plugin_blob_put_def eff_bind_def eff_lift_def)

lemma consume:
  assumes "inv w" "ok i"
  shows "\<exists>r w'. approval_consume bs json env p i w = (Inr r, w') \<and> inv w' \<and>
    (\<forall>ns' k'. ok k' \<longrightarrow> content w' (ns', k') = ((content w)((approval_namespace p, i) := None)) (ns', k')) \<and>
    r = consumed json (e_now env (w_clock w)) (content w (approval_namespace p, i))"
proof (cases "content w (approval_namespace p, i)")
  case None
  with assms show ?thesis by (auto simp: approval_consume_def eff_bind_def get consumed_def)
next
  case (Some s)
  obtain w1 where w1: "bs_delete bs (approval_namespace p) i w = (Inr (), w1)" "inv w1" "w_clock w1 = w_clock w"
    "\<forall>ns' k'. ok k' \<longrightarrow> content w1 (ns', k') = ((content w)((approval_namespace p, i) := None)) (ns', k')"
    using delete [OF assms] by blast
  with Some assms show ?thesis
    by (cases "decode_pending_approval json s") (auto simp: approval_consume_def eff_bind_def eff_map_def get now_def clock consumed_def)
qed

lemma approval_put_content:
  assumes "inv w" "ok (pa_execution_id a)"
  shows "\<exists>w'. approval_put bs p a w = (Inr (), w') \<and> inv w' \<and> w_clock w' = w_clock w \<and>
    (\<forall>ns' k'. ok k' \<longrightarrow> content w' (ns', k') =
       ((content w)((approval_namespace p, pa_execution_id a) \<mapsto> encode_pending_approval a)) (ns', k'))"
  unfolding approval_put_def by (rule put [OF assms])

end

section \<open>The database store is a map\<close>

datatype blob_call = PutBlob string string string | DeleteBlob string string

fun run_blob_call :: "'x blob_store \<Rightarrow> blob_call \<Rightarrow> ('x, unit) eff" where
  "run_blob_call bs (PutBlob ns k v) = bs_put bs ns k v"
| "run_blob_call bs (DeleteBlob ns k) = bs_delete bs ns k"

fun apply_blob_call :: "blob_call \<Rightarrow> blob_map \<Rightarrow> blob_map" where
  "apply_blob_call (PutBlob ns k v) m = m((ns, k) \<mapsto> v)"
| "apply_blob_call (DeleteBlob ns k) m = m((ns, k) := None)"

lemma fuma_call:
  assumes "blobs_ok w"
  shows "\<exists>w'. run_blob_call (make_fuma_blob_store env) c w = (Inr (), w') \<and> blobs_ok w' \<and> blobs w' = apply_blob_call c (blobs w)"
proof (cases c)
  case (PutBlob ns k v)
  with fuma_put_map [OF assms, of env ns k v] show ?thesis by (auto simp: make_fuma_blob_store_def)
next
  case (DeleteBlob ns k)
  with fuma_delete_map [OF assms, of env ns k] show ?thesis by (auto simp: make_fuma_blob_store_def)
qed

lemma fuma_calls:
  assumes "blobs_ok w"
  shows "\<exists>w'. eff_iter (run_blob_call (make_fuma_blob_store env)) cs w = (Inr (), w') \<and> blobs_ok w' \<and>
    blobs w' = fold apply_blob_call cs (blobs w)"
  using assms
proof (induction cs arbitrary: w)
  case (Cons c cs)
  obtain w1 where w1: "run_blob_call (make_fuma_blob_store env) c w = (Inr (), w1)" "blobs_ok w1" "blobs w1 = apply_blob_call c (blobs w)"
    using fuma_call [OF Cons.prems] by blast
  from Cons.IH [OF w1(2)] show ?case by (auto simp: eff_bind_def w1)
qed simp

text \<open>C25: the blob store over the database is a map from namespaces and keys to values: whatever is put
  and deleted, in any order, no call fails and a read returns what the map holds, the last value
  put under exactly that namespace and key.\<close>

theorem fuma_blobs_refine:
  assumes "blobs_ok w"
  shows "\<exists>w'. eff_iter (run_blob_call (make_fuma_blob_store env)) cs w = (Inr (), w') \<and>
    (\<forall>ns k. bs_get (make_fuma_blob_store env) ns k w' = (Inr (fold apply_blob_call cs (blobs w) (ns, k)), w') \<and>
      bs_has (make_fuma_blob_store env) ns k w' = (Inr (fold apply_blob_call cs (blobs w) (ns, k) \<noteq> None), w'))"
proof -
  obtain w' where w': "eff_iter (run_blob_call (make_fuma_blob_store env)) cs w = (Inr (), w')" "blobs_ok w'"
    "blobs w' = fold apply_blob_call cs (blobs w)"
    using fuma_calls [OF assms] by blast
  from w'(1) fuma_blobs.get [OF w'(2) TrueI] fuma_blobs.has [OF w'(2) TrueI] show ?thesis unfolding w'(3) by blast
qed

definition no_blobs :: "items world" where
  "no_blobs = small_world (\<lambda>_. []) []"

lemma no_blobs_ok: "blobs_ok no_blobs"
  by (simp add: blobs_ok_def no_blobs_def small_world_def)

lemma no_blobs_empty: "blobs no_blobs p = None"
  by (cases p) (simp add: blobs_def blob_in_def no_blobs_def small_world_def)

lemma fuma_blobs_refine_witness:
  "\<exists>w'. eff_iter (run_blob_call (make_fuma_blob_store small_env)) [PutBlob ''n'' ''a'' ''1'', PutBlob ''n'' ''b'' ''2'', PutBlob ''n'' ''a'' ''3'', DeleteBlob ''n'' ''b''] no_blobs
     = (Inr (), w') \<and> bs_get (make_fuma_blob_store small_env) ''n'' ''a'' w' = (Inr (Some ''3''), w') \<and>
     bs_get (make_fuma_blob_store small_env) ''n'' ''b'' w' = (Inr None, w')"
proof -
  obtain w' where w': "eff_iter (run_blob_call (make_fuma_blob_store small_env)) [PutBlob ''n'' ''a'' ''1'', PutBlob ''n'' ''b'' ''2'', PutBlob ''n'' ''a'' ''3'', DeleteBlob ''n'' ''b''] no_blobs = (Inr (), w')"
    and get: "\<forall>ns k. bs_get (make_fuma_blob_store small_env) ns k w' =
      (Inr (fold apply_blob_call [PutBlob ''n'' ''a'' ''1'', PutBlob ''n'' ''b'' ''2'', PutBlob ''n'' ''a'' ''3'', DeleteBlob ''n'' ''b''] (blobs no_blobs) (ns, k)), w')"
    using fuma_blobs_refine [OF no_blobs_ok, of small_env] by metis
  from get have "bs_get (make_fuma_blob_store small_env) ''n'' ''a'' w' = (Inr (Some ''3''), w')"
    "bs_get (make_fuma_blob_store small_env) ''n'' ''b'' w' = (Inr None, w')"
    by (simp_all add: no_blobs_empty)
  with w' show ?thesis by blast
qed

section \<open>Approvals\<close>

lemma fold_keeps_none:
  "m (ns, k) = None \<Longrightarrow> \<forall>v. PutBlob ns k v \<notin> set cs \<Longrightarrow> fold apply_blob_call cs m (ns, k) = None"
proof (induction cs arbitrary: m)
  case (Cons c cs)
  have "apply_blob_call c m (ns, k) = None" using Cons.prems by (cases c) auto
  with Cons show ?case by simp
qed simp

text \<open>An approval is used once: when its record has been consumed, whatever came of it (run, expired,
  unreadable), no later attempt to consume it gets anything, whatever else happens in the store
  meanwhile, until a record is put under that execution again.\<close>

theorem approval_single_use:
  assumes "blobs_ok w" "\<forall>v. PutBlob (approval_namespace p) i v \<notin> set cs"
  shows "\<exists>r w1 w2. approval_consume (make_fuma_blob_store env) json env p i w = (Inr r, w1) \<and>
    eff_iter (run_blob_call (make_fuma_blob_store env)) cs w1 = (Inr (), w2) \<and>
    fst (approval_consume (make_fuma_blob_store env) json env p i w2) = Inr None"
proof -
  obtain r w1 where w1: "approval_consume (make_fuma_blob_store env) json env p i w = (Inr r, w1)" "blobs_ok w1"
    "blobs w1 (approval_namespace p, i) = None"
    using fuma_blobs.consume [OF assms(1) TrueI, of env json env p i] by auto
  obtain w2 where w2: "eff_iter (run_blob_call (make_fuma_blob_store env)) cs w1 = (Inr (), w2)" "blobs_ok w2"
    "blobs w2 = fold apply_blob_call cs (blobs w1)"
    using fuma_calls [OF w1(2)] by blast
  have "blobs w2 (approval_namespace p, i) = None"
    unfolding w2(3) using w1(3) assms(2) by (rule fold_keeps_none)
  then have "fst (approval_consume (make_fuma_blob_store env) json env p i w2) = Inr None"
    using fuma_blobs.consume [OF w2(2) TrueI, of env json env p i] by (auto simp: consumed_def)
  with w1(1) w2(1) show ?thesis by blast
qed

lemma put_then_consume:
  assumes "blobs_ok w" "json (encode_pending_approval a) = Some (approval_json a)"
  shows "\<exists>w1. approval_put (make_fuma_blob_store env) p a w = (Inr (), w1) \<and>
    fst (approval_consume (make_fuma_blob_store env) json env p (pa_execution_id a) w1) =
      Inr (if pa_expires_at a \<le> e_now env (w_clock w) then None else Some a)"
proof -
  obtain w1 where w1: "approval_put (make_fuma_blob_store env) p a w = (Inr (), w1)" "blobs_ok w1" "w_clock w1 = w_clock w"
    "blobs w1 (approval_namespace p, pa_execution_id a) = Some (encode_pending_approval a)"
    using fuma_blobs.approval_put_content [OF assms(1) TrueI, of env p a] by auto
  have "decode_pending_approval json (encode_pending_approval a) = Some a"
    by (simp add: decode_pending_approval_def assms(2) approval_json_def)
  with w1 show ?thesis using fuma_blobs.consume [OF w1(2) TrueI, of env json env p "pa_execution_id a"] by (auto simp: consumed_def)
qed

text \<open>An approval that was put is what consuming it returns, as long as it has not expired; from its
  expiry on it counts as absent. The hypothesis is that \<open>JSON.parse\<close> reads back what
  \<open>JSON.stringify\<close> wrote for it.\<close>

theorem approval_round_trip:
  assumes "blobs_ok w" "json (encode_pending_approval a) = Some (approval_json a)"
  shows "\<exists>w1. approval_put (make_fuma_blob_store env) p a w = (Inr (), w1) \<and>
    fst (approval_consume (make_fuma_blob_store env) json env p (pa_execution_id a) w1) =
      Inr (if pa_expires_at a \<le> e_now env (w_clock w) then None else Some a)"
  using assms by (rule put_then_consume)

lemma colon_split: "colon_free t \<Longrightarrow> colon_free t' \<Longrightarrow> t @ CHR '':'' # s = t' @ CHR '':'' # s' \<Longrightarrow> t = t' \<and> s = s'"
proof -
  assume t: "colon_free t" "colon_free t'" and e: "t @ CHR '':'' # s = t' @ CHR '':'' # s'"
  have "takeWhile (\<lambda>c. c \<noteq> CHR '':'') (t @ CHR '':'' # s) = t" if "colon_free t" for t s
    using that by (auto simp: colon_free_def takeWhile_append)
  from this [OF t(1), of s] this [OF t(2), of s'] e show "t = t' \<and> s = s'" by simp
qed

text \<open>Where the ids of two callers cannot run into one another: they are of one tenant, one of them is no member, or
  the tenants' ids have no colon.\<close>

definition ids_apart :: "owner_ctx \<Rightarrow> owner_ctx \<Rightarrow> bool" where
  "ids_apart c c' \<longleftrightarrow>
     oc_tenant c = oc_tenant c' \<or> oc_subject c = None \<or> oc_subject c' = None \<or>
     colon_free (oc_tenant c) \<and> colon_free (oc_tenant c')"

lemma approval_partition_inj:
  assumes "ids_apart c c'" "approval_partition c = approval_partition c'"
  shows "oc_tenant c = oc_tenant c' \<and> oc_subject c = oc_subject c'"
proof (cases "oc_subject c"; cases "oc_subject c'")
  fix s s' assume s: "oc_subject c = Some s" "oc_subject c' = Some s'"
  then have "oc_tenant c @ CHR '':'' # s = oc_tenant c' @ CHR '':'' # s'"
    using assms(2) by (simp add: approval_partition_def blob_partitions_def)
  with assms(1) s colon_split [of "oc_tenant c" "oc_tenant c'" s s'] show ?thesis by (auto simp: ids_apart_def)
qed (use assms(2) in \<open>simp_all add: approval_partition_def blob_partitions_def\<close>)

text \<open>C26: an approval that a caller records changes nothing of what any other caller can consume: not of what another member of
  the tenant can, nor the organization itself, nor, as long as tenant ids have no colon, a member of another tenant.
  (With a colon in a tenant id they are not apart: \<open>colon_tenants_share_approvals\<close>.)\<close>

theorem approvals_private:
  assumes "blobs_ok w" "ids_apart c c'" "(oc_tenant c, oc_subject c) \<noteq> (oc_tenant c', oc_subject c')"
  shows "\<exists>w1. approval_put (make_fuma_blob_store env) (approval_partition c) a w = (Inr (), w1) \<and>
    (\<forall>i. fst (approval_consume (make_fuma_blob_store env) json env (approval_partition c') i w1) =
         fst (approval_consume (make_fuma_blob_store env) json env (approval_partition c') i w))"
proof -
  let ?bs = "make_fuma_blob_store env" and ?ns = "approval_namespace (approval_partition c')"
  have ns: "approval_namespace (approval_partition c) \<noteq> ?ns"
    using approval_partition_inj [OF assms(2)] assms(3) by (auto simp: approval_namespace_def)
  obtain w1 where w1: "approval_put ?bs (approval_partition c) a w = (Inr (), w1)" "blobs_ok w1" "w_clock w1 = w_clock w"
    "\<forall>i. blobs w1 (?ns, i) = blobs w (?ns, i)"
    using fuma_blobs.approval_put_content [OF assms(1) TrueI, of env "approval_partition c" a] ns by auto
  have "fst (approval_consume ?bs json env (approval_partition c') i w1) = fst (approval_consume ?bs json env (approval_partition c') i w)" for i
    using fuma_blobs.consume [OF assms(1) TrueI, of env json env "approval_partition c'" i]
      fuma_blobs.consume [OF w1(2) TrueI, of env json env "approval_partition c'" i] w1(3,4) by auto
  with w1(1) show ?thesis by blast
qed

text \<open>With a colon in a tenant id they are not: the member \<open>b:c\<close> of the tenant \<open>a\<close> and the member \<open>c\<close> of
  the tenant \<open>a:b\<close> file their approvals in one place, so each can consume what the other recorded.\<close>

theorem colon_tenants_share_approvals:
  assumes "blobs_ok w" "json (encode_pending_approval a) = Some (approval_json a)" "e_now env (w_clock w) < pa_expires_at a"
  shows "\<exists>w1. approval_put (make_fuma_blob_store env) (approval_partition (bound_ctx t (Some (u @ '':'' @ s)))) a w = (Inr (), w1) \<and>
    fst (approval_consume (make_fuma_blob_store env) json env (approval_partition (bound_ctx (t @ '':'' @ u) (Some s)))
      (pa_execution_id a) w1) = Inr (Some a)"
proof -
  have "approval_partition (bound_ctx t (Some (u @ '':'' @ s))) = approval_partition (bound_ctx (t @ '':'' @ u) (Some s))"
    by (simp add: approval_partition_def blob_partitions_def)
  then show ?thesis using put_then_consume [of w json a env "approval_partition (bound_ctx (t @ '':'' @ u) (Some s))"] assms
    by simp
qed

definition sample_approval :: pending_approval where
  "sample_approval = \<lparr>pa_execution_id = ''exec_1'', pa_artifact_id = ''art'', pa_code = ''tools.api.org.main.get({})'',
     pa_address = ''tools.api.org.main.get'', pa_expires_at = 5\<rparr>"

definition sample_json :: "string \<Rightarrow> jsval option" where
  "sample_json s = (if s = encode_pending_approval sample_approval then Some (approval_json sample_approval) else None)"

lemma approval_single_use_witness:
  "\<exists>r w1 w2. approval_consume (make_fuma_blob_store small_env) sample_json small_env ''u:t1:u1'' ''exec_1'' no_blobs = (Inr r, w1) \<and>
    eff_iter (run_blob_call (make_fuma_blob_store small_env)) [PutBlob ''n'' ''exec_1'' ''x''] w1 = (Inr (), w2) \<and>
    fst (approval_consume (make_fuma_blob_store small_env) sample_json small_env ''u:t1:u1'' ''exec_1'' w2) = Inr None"
  by (rule approval_single_use [OF no_blobs_ok]) (simp add: approval_namespace_def)

lemma approval_round_trip_witness:
  "\<exists>w1. approval_put (make_fuma_blob_store small_env) ''u:t1:u1'' sample_approval no_blobs = (Inr (), w1) \<and>
    fst (approval_consume (make_fuma_blob_store small_env) sample_json small_env ''u:t1:u1'' ''exec_1'' w1) = Inr (Some sample_approval)"
  using approval_round_trip [OF no_blobs_ok, of sample_json sample_approval small_env "''u:t1:u1''"]
  by (simp add: sample_json_def sample_approval_def small_env_def no_blobs_def small_world_def)

lemma approvals_private_witness:
  "\<exists>w1. approval_put (make_fuma_blob_store small_env) (approval_partition (bound_ctx ''t1'' (Some ''u1''))) sample_approval no_blobs = (Inr (), w1) \<and>
    (\<forall>i. fst (approval_consume (make_fuma_blob_store small_env) sample_json small_env (approval_partition (bound_ctx ''t1'' (Some ''u2''))) i w1) =
         fst (approval_consume (make_fuma_blob_store small_env) sample_json small_env (approval_partition (bound_ctx ''t1'' (Some ''u2''))) i no_blobs))"
  by (rule approvals_private [OF no_blobs_ok]) (simp_all add: ids_apart_def)

lemma colon_tenants_share_approvals_witness:
  "\<exists>w1. approval_put (make_fuma_blob_store small_env) (approval_partition (bound_ctx ''a'' (Some ''b:c''))) sample_approval no_blobs = (Inr (), w1) \<and>
    fst (approval_consume (make_fuma_blob_store small_env) sample_json small_env (approval_partition (bound_ctx ''a:b'' (Some ''c''))) ''exec_1'' w1)
      = Inr (Some sample_approval)"
  using colon_tenants_share_approvals [OF no_blobs_ok, of sample_json sample_approval small_env "''a''" "''b''" "''c''"]
  by (simp add: sample_json_def sample_approval_def small_env_def no_blobs_def small_world_def)

lemma memory_keys_collide: "memory_key ''a'' ''b::c'' = memory_key ''a::b'' ''c''"
  by (simp add: memory_key_def)

end
