(* ===== verification/PluginStorage.thy ===== *)
theory PluginStorage
  imports ServiceLaws ToolInvoker Blobs
begin

text \<open>
  The storage facade a plugin is given (\<open>makePluginStorageFacade\<close> in \<open>executor.ts\<close>,
  \<open>plugin-storage.ts\<close>): entries under an owner, a collection and a key, reads that fall through from
  the subject to the organization, bulk writes in batches and queries over indexed fields. The facade
  is a map, shown by a refinement of every operation; \<open>Date\<close> values are epoch milliseconds.
\<close>

section \<open>Entries and queries\<close>

record storage_entry =
  pe_id :: string
  pe_owner :: owner
  pe_plugin_id :: string
  pe_collection :: string
  pe_key :: string
  pe_data :: jsval
  pe_created_at :: jsval
  pe_updated_at :: jsval

definition plugin_storage_id :: "string \<Rightarrow> string \<Rightarrow> string \<Rightarrow> string" where
  "plugin_storage_id pl coll k = the (json_stringify (JArr [JStr pl, JStr coll, JStr k]))"

definition storage_entry_from_row :: "row \<Rightarrow> storage_entry" where
  "storage_entry_from_row r =
     \<lparr>pe_id = plugin_storage_id (row_str r ''plugin_id'') (row_str r ''collection'') (row_str r ''key''),
      pe_owner = row_owner r, pe_plugin_id = row_str r ''plugin_id'', pe_collection = row_str r ''collection'',
      pe_key = row_str r ''key'', pe_data = r ''data'', pe_created_at = as_date (r ''created_at''),
      pe_updated_at = as_date (r ''updated_at'')\<rparr>"

record collection_def =
  cd_name :: string
  cd_indexes :: "string list list"

text \<open>A query; \<open>where\<close> in the order of its entries, an order as a field and whether it descends.\<close>

record storage_query =
  qy_prefix :: "string option"
  qy_where :: "(string \<times> jsval) list option"
  qy_order_by :: "(string \<times> bool) list"
  qy_limit :: "int option"
  qy_offset :: "int option"

definition indexed_fields :: "collection_def \<Rightarrow> string set" where
  "indexed_fields cd = set (concat (cd_indexes cd))"

definition query_fields :: "storage_query \<Rightarrow> string list" where
  "query_fields q = (case qy_where q of None \<Rightarrow> [] | Some ps \<Rightarrow> map fst ps) @ map fst (qy_order_by q)"

definition query_validation_error :: "collection_def \<Rightarrow> storage_query \<Rightarrow> storage_error option" where
  "query_validation_error cd q =
     (let coll = ''Plugin storage collection '' @ in_quotes (cd_name cd) in
      case find (\<lambda>f. f \<notin> indexed_fields cd) (query_fields q) of
        Some f \<Rightarrow> Some (StorageError (coll @ '' cannot query field '' @ in_quotes f @ '' because it is not declared as an index''))
      | None \<Rightarrow>
          if case qy_limit q of None \<Rightarrow> False | Some n \<Rightarrow> n < 0 then Some (StorageError (coll @ '' received an invalid query limit''))
          else if case qy_offset q of None \<Rightarrow> False | Some n \<Rightarrow> n < 0 then Some (StorageError (coll @ '' received an invalid query offset''))
          else None)"

section \<open>Comparing and filtering\<close>

text \<open>A value that prints as \<open>undefined\<close> is not among them: arrays and objects always print.\<close>

definition storage_comparable :: "jsval \<Rightarrow> jsval" where
  "storage_comparable v =
     (case v of
        JDate t \<Rightarrow> JNum t
      | JUndef \<Rightarrow> JNull
      | JArr _ \<Rightarrow> jopt JStr (json_stringify v)
      | JObj _ \<Rightarrow> jopt JStr (json_stringify v)
      | _ \<Rightarrow> v)"

definition compare_storage_values :: "jsval \<Rightarrow> jsval \<Rightarrow> int" where
  "compare_storage_values a b =
     (let l = storage_comparable a; r = storage_comparable b in
      if strict_eq l r then 0
      else if l = JNull then -1
      else if r = JNull then 1
      else if js_less l r then -1 else 1)"

definition storage_data_field :: "jsval \<Rightarrow> string \<Rightarrow> jsval" where
  "storage_data_field v field = (if is_record v then obj_get v field else JUndef)"

definition where_operators :: "string list" where
  "where_operators = [''eq'', ''in'', ''gt'', ''gte'', ''lt'', ''lte'']"

definition is_where_filter :: "jsval \<Rightarrow> bool" where
  "is_where_filter v \<longleftrightarrow> is_record v \<and> list_ex (has_key v) where_operators"

definition matches_where_operator :: "string \<Rightarrow> jsval \<Rightarrow> jsval \<Rightarrow> bool" where
  "matches_where_operator op v arg =
     (if op = ''eq'' then compare_storage_values v arg = 0
      else if op = ''in'' then (case arg of JArr xs \<Rightarrow> list_ex (\<lambda>x. compare_storage_values v x = 0) xs | _ \<Rightarrow> False)
      else if op = ''gt'' then compare_storage_values v arg > 0
      else if op = ''gte'' then compare_storage_values v arg \<ge> 0
      else if op = ''lt'' then compare_storage_values v arg < 0
      else if op = ''lte'' then compare_storage_values v arg \<le> 0
      else False)"

definition matches_where_operators :: "jsval \<Rightarrow> jsval \<Rightarrow> bool" where
  "matches_where_operators v flt = list_all (\<lambda>(op, arg). matches_where_operator op v arg) (case flt of JObj ps \<Rightarrow> ps | _ \<Rightarrow> [])"

definition row_matches_where :: "row \<Rightarrow> (string \<times> jsval) list option \<Rightarrow> bool" where
  "row_matches_where r wh =
     (case wh of None \<Rightarrow> True
      | Some ps \<Rightarrow> list_all (\<lambda>(field, cond).
          let v = storage_data_field (r ''data'') field in
          if is_where_filter cond then matches_where_operators v cond
          else compare_storage_values v cond = 0) ps)"

section \<open>The facade\<close>

definition storage_owner_rank :: "owner_ctx \<Rightarrow> row \<Rightarrow> int" where
  "storage_owner_rank c r =
     (if oc_subject c = None then (if r ''owner'' = JStr ''org'' then 0 else -1)
      else if r ''owner'' = JStr ''user'' then 0 else if r ''owner'' = JStr ''org'' then 1 else -1)"

definition owner_subject :: "owner_ctx \<Rightarrow> owner \<Rightarrow> string option" where
  "owner_subject c ow = (case ow of Org \<Rightarrow> Some ORG_SUBJECT | User \<Rightarrow> oc_subject c)"

definition storage_where :: "string \<Rightarrow> string \<Rightarrow> string option \<Rightarrow> cond_or_bool" where
  "storage_where pl coll k =
     builder_and [cmp_val ''plugin_id'' OpEq (JStr pl), cmp_val ''collection'' OpEq (JStr coll),
       (case k of None \<Rightarrow> CB True | Some k \<Rightarrow> cmp_val ''key'' OpEq (JStr k))]"

definition storage_where_owner :: "owner_ctx \<Rightarrow> string \<Rightarrow> owner \<Rightarrow> string \<Rightarrow> string \<Rightarrow> cond_or_bool" where
  "storage_where_owner c pl ow coll k =
     builder_and [cmp_val ''plugin_id'' OpEq (JStr pl), cmp_val ''collection'' OpEq (JStr coll), cmp_val ''key'' OpEq (JStr k),
       cmp_val ''owner'' OpEq (JStr (owner_text ow)),
       cmp_val ''subject'' OpEq (JStr (case owner_subject c ow of Some s \<Rightarrow> s | None \<Rightarrow> ORG_SUBJECT))]"

definition compare_precedence :: "collation \<Rightarrow> owner_ctx \<Rightarrow> row \<Rightarrow> row \<Rightarrow> int" where
  "compare_precedence collate c l r =
     (let d = storage_owner_rank c l - storage_owner_rank c r in
      if d \<noteq> 0 then d else collate (row_str l ''key'') (row_str r ''key''))"

definition storage_get :: "collation \<Rightarrow> 'b base_env_scheme \<Rightarrow> string \<Rightarrow> string \<Rightarrow> string \<Rightarrow> ('x, storage_entry option) eff" where
  "storage_get collate env pl coll k =
     eff_map (\<lambda>rows. case js_sort (compare_precedence collate (e_ctx env)) rows of
         [] \<Rightarrow> None | r # _ \<Rightarrow> Some (storage_entry_from_row r))
       (core_find_many env plugin_storage_table (find_where (storage_where pl coll (Some k))))"

definition storage_get_for_owner ::
  "'b base_env_scheme \<Rightarrow> string \<Rightarrow> owner \<Rightarrow> string \<Rightarrow> string \<Rightarrow> ('x, storage_entry option) eff" where
  "storage_get_for_owner env pl ow coll k =
     eff_map (map_option storage_entry_from_row)
       (core_find_first env plugin_storage_table (find_where (storage_where_owner (e_ctx env) pl ow coll k)))"

definition storage_no_subject :: "string \<Rightarrow> failure" where
  "storage_no_subject verb =
     FStorage (StorageError (''Cannot '' @ verb @ '' plugin storage for owner '' @ in_quotes ''user'' @ '': executor has no subject.''))"

definition storage_row :: "owner_ctx \<Rightarrow> string \<Rightarrow> owner \<Rightarrow> string \<Rightarrow> string \<times> string \<Rightarrow> jsval \<Rightarrow> int \<Rightarrow> record_vals" where
  "storage_row c pl ow subject p data t =
     [(''tenant'', JStr (oc_tenant c)), (''owner'', JStr (owner_text ow)), (''subject'', JStr subject), (''plugin_id'', JStr pl),
      (''collection'', JStr (fst p)), (''key'', JStr (snd p)), (''data'', data), (''created_at'', JDate t), (''updated_at'', JDate t)]"

definition storage_put ::
  "'b base_env_scheme \<Rightarrow> string \<Rightarrow> owner \<Rightarrow> string \<Rightarrow> string \<Rightarrow> jsval \<Rightarrow> ('x, storage_entry) eff" where
  "storage_put env pl ow coll k data =
     (let c = e_ctx env; mine = storage_where_owner c pl ow coll k in
      case owner_subject c ow of
        None \<Rightarrow> eff_fail (storage_no_subject ''write'')
      | Some s \<Rightarrow>
          eff_bind (core_find_first env plugin_storage_table (find_where mine)) (\<lambda>existing.
          eff_bind (now env) (\<lambda>t.
            case existing of
              Some r \<Rightarrow>
                (let patch = [(''data'', data), (''updated_at'', JDate t)] in
                 eff_map (\<lambda>_. storage_entry_from_row (obj_assign r patch))
                   (core_update_many env plugin_storage_table (Some mine) patch))
            | None \<Rightarrow>
                eff_map storage_entry_from_row
                  (core_create env plugin_storage_table (storage_row c pl ow s (coll, k) data t)))))"

definition storage_remove :: "'b base_env_scheme \<Rightarrow> string \<Rightarrow> owner \<Rightarrow> string \<Rightarrow> string \<Rightarrow> ('x, unit) eff" where
  "storage_remove env pl ow coll k =
     (case owner_subject (e_ctx env) ow of
        None \<Rightarrow> eff_fail (storage_no_subject ''delete'')
      | Some s \<Rightarrow> core_delete_many env plugin_storage_table (Some (storage_where_owner (e_ctx env) pl ow coll k)))"

text \<open>The slices of a loop that steps through a list.\<close>

function batches :: "nat \<Rightarrow> 'a list \<Rightarrow> 'a list list" where
  "batches n xs = (if n = 0 \<or> xs = [] then [] else take n xs # batches n (drop n xs))"
  by auto
termination by (relation "measure (\<lambda>(_, xs). length xs)") auto

declare batches.simps [simp del]

definition STORAGE_BATCH_SIZE :: nat where
  "STORAGE_BATCH_SIZE = 90"

definition keys_by_collection :: "(string \<times> string) list \<Rightarrow> (string \<times> string list) list" where
  "keys_by_collection entries =
     fold (\<lambda>(coll, k) grouped. map_put coll (set_add k (case map_of grouped coll of None \<Rightarrow> [] | Some ks \<Rightarrow> ks)) grouped) entries []"

definition delete_batch_where :: "string \<Rightarrow> owner \<Rightarrow> string \<Rightarrow> string \<Rightarrow> string list \<Rightarrow> cond_or_bool" where
  "delete_batch_where pl ow subject coll ks =
     builder_and [cmp_val ''plugin_id'' OpEq (JStr pl), cmp_val ''collection'' OpEq (JStr coll),
       cmp_val ''key'' OpIn (JArr (map JStr ks)), cmp_val ''owner'' OpEq (JStr (owner_text ow)),
       cmp_val ''subject'' OpEq (JStr subject)]"

definition delete_many_entries ::
  "'b base_env_scheme \<Rightarrow> string \<Rightarrow> owner \<Rightarrow> string \<Rightarrow> (string \<times> string) list \<Rightarrow> ('x, unit) eff" where
  "delete_many_entries env pl ow subject entries =
     eff_iter (\<lambda>(coll, ks).
       eff_iter (\<lambda>batch. core_delete_many env plugin_storage_table (Some (delete_batch_where pl ow subject coll batch)))
         (batches STORAGE_BATCH_SIZE ks)) (keys_by_collection entries)"

text \<open>The entries by id, the last of each kept at the place of the first.\<close>

definition unique_entries :: "string \<Rightarrow> ((string \<times> string) \<times> jsval) list \<Rightarrow> ((string \<times> string) \<times> jsval) list" where
  "unique_entries pl entries = map snd (fold (\<lambda>(p, v). map_put (plugin_storage_id pl (fst p) (snd p)) (p, v)) entries [])"

definition storage_put_many :: "'b base_env_scheme \<Rightarrow> string \<Rightarrow> owner \<Rightarrow> ((string \<times> string) \<times> jsval) list \<Rightarrow> ('x, unit) eff" where
  "storage_put_many env pl ow entries =
     (case owner_subject (e_ctx env) ow of
        None \<Rightarrow> eff_fail (storage_no_subject ''write'')
      | Some s \<Rightarrow>
          (let unique = unique_entries pl entries in
           if unique = [] then eff_return ()
           else
             eff_bind (delete_many_entries env pl ow s (map fst unique)) (\<lambda>_.
             eff_bind (now env) (\<lambda>t.
               eff_iter (\<lambda>batch. core_create_many env plugin_storage_table
                   (map (\<lambda>(p, v). storage_row (e_ctx env) pl ow s p v t) batch))
                 (batches STORAGE_BATCH_SIZE unique)))))"

definition storage_remove_many :: "'b base_env_scheme \<Rightarrow> string \<Rightarrow> owner \<Rightarrow> (string \<times> string) list \<Rightarrow> ('x, unit) eff" where
  "storage_remove_many env pl ow entries =
     (case owner_subject (e_ctx env) ow of
        None \<Rightarrow> eff_fail (storage_no_subject ''delete'')
      | Some s \<Rightarrow> delete_many_entries env pl ow s entries)"

definition has_prefix :: "string option \<Rightarrow> row \<Rightarrow> bool" where
  "has_prefix p r = (case p of None \<Rightarrow> True | Some s \<Rightarrow> js_starts_with (row_str r ''key'') s)"

definition storage_list :: "collation \<Rightarrow> 'b base_env_scheme \<Rightarrow> string \<Rightarrow> string \<Rightarrow> string option \<Rightarrow> ('x, storage_entry list) eff" where
  "storage_list collate env pl coll p =
     eff_map (\<lambda>rows. map storage_entry_from_row (filter (has_prefix p) (js_sort (compare_precedence collate (e_ctx env)) rows)))
       (core_find_many env plugin_storage_table (find_where (storage_where pl coll None)))"

fun compare_ordered :: "(string \<times> bool) list \<Rightarrow> collation \<Rightarrow> owner_ctx \<Rightarrow> row \<Rightarrow> row \<Rightarrow> int" where
  "compare_ordered [] collate c l r = compare_precedence collate c l r"
| "compare_ordered ((field, desc) # os) collate c l r =
     (let d = compare_storage_values (storage_data_field (l ''data'') field) (storage_data_field (r ''data'') field)
                * (if desc then -1 else 1) in
      if d \<noteq> 0 then d else compare_ordered os collate c l r)"

definition query_rows :: "collation \<Rightarrow> owner_ctx \<Rightarrow> storage_query \<Rightarrow> row list \<Rightarrow> row list" where
  "query_rows collate c q rows =
     (let filtered = filter (\<lambda>r. row_matches_where r (qy_where q)) (filter (has_prefix (qy_prefix q))
            (js_sort (compare_precedence collate c) rows));
          sorted_rows = (if qy_order_by q = [] then filtered else js_sort (compare_ordered (qy_order_by q) collate c) filtered);
          offset = (case qy_offset q of None \<Rightarrow> 0 | Some n \<Rightarrow> nat n) in
      js_slice offset (map_option (\<lambda>n. offset + nat n) (qy_limit q)) sorted_rows)"

definition query_collection ::
  "collation \<Rightarrow> 'b base_env_scheme \<Rightarrow> string \<Rightarrow> collection_def \<Rightarrow> storage_query \<Rightarrow> ('x, storage_entry list) eff" where
  "query_collection collate env pl cd q =
     (case query_validation_error cd q of
        Some e \<Rightarrow> eff_fail (FStorage e)
      | None \<Rightarrow>
          eff_map (\<lambda>rows. map storage_entry_from_row (query_rows collate (e_ctx env) q rows))
            (core_find_many env plugin_storage_table (find_where (storage_where pl (cd_name cd) None))))"

definition count_collection ::
  "collation \<Rightarrow> 'b base_env_scheme \<Rightarrow> string \<Rightarrow> collection_def \<Rightarrow> storage_query \<Rightarrow> ('x, nat) eff" where
  "count_collection collate env pl cd q = eff_map length (query_collection collate env pl cd q)"

section \<open>Reads fall through\<close>

lemma sort_head:
  assumes "comparator cmp" "js_sort cmp xs = h # t"
  shows "find (\<lambda>y. cmp h y = 0) xs = Some h" "\<forall>y \<in> set xs. cmp h y \<le> 0"
proof -
  note sorted = comparator.sorted_js_sort [OF assms(1), of xs]
  have "filter (\<lambda>y. cmp h y = 0) xs = filter (\<lambda>y. cmp h y = 0) (h # t)"
    using comparator.js_sort_stable [OF assms(1), of h xs] assms(2) by simp
  also have "\<dots> = h # filter (\<lambda>y. cmp h y = 0) t" using comparator.cmp_refl [OF assms(1)] by simp
  finally show "find (\<lambda>y. cmp h y = 0) xs = Some h"
    by (induction xs) (auto split: if_splits)
  have "set xs = set (h # t)" using assms(2) comparator.mset_js_sort [OF assms(1), of xs] by (metis set_mset_mset)
  with sorted assms(2) comparator.cmp_refl [OF assms(1), of h] show "\<forall>y \<in> set xs. cmp h y \<le> 0" by auto
qed

lemma comparator_precedence:
  assumes "comparator collate"
  shows "comparator (compare_precedence collate c)"
proof -
  have "comparator (\<lambda>l r. collate (row_str l ''key'') (row_str r ''key''))"
    using assms unfolding comparator_def by auto
  moreover have "compare_precedence collate c =
      cmp_then (cmp_int_key (storage_owner_rank c)) (\<lambda>l r. collate (row_str l ''key'') (row_str r ''key''))"
    by (auto simp: fun_eq_iff cmp_then_def cmp_int_key_def compare_precedence_def Let_def)
  ultimately show ?thesis using comparator_then [OF comparator_int_key [of "storage_owner_rank c"]] by metis
qed

text \<open>Rows of the organization carry no subject: the policies refuse to create any other.\<close>

definition org_rows_shared :: "'x world \<Rightarrow> bool" where
  "org_rows_shared w \<longleftrightarrow> (\<forall>r \<in> set (w_db w ''plugin_storage''). r ''owner'' = JStr ''org'' \<longrightarrow> r ''subject'' = JStr ORG_SUBJECT)"

lemma storage_selected:
  assumes "oc_reach (e_ctx env) = Bound" "r ''owner'' = JStr ''org'' \<longrightarrow> r ''subject'' = JStr ORG_SUBJECT"
  shows "selects env (storage_where pl coll (Some k)) r \<Longrightarrow> r ''owner'' = JStr (owner_text User) \<and> oc_subject (e_ctx env) \<noteq> None \<or> r ''owner'' = JStr (owner_text Org)"
    and "selects env (storage_where_owner (e_ctx env) pl ow coll k) r \<longleftrightarrow>
      selects env (storage_where pl coll (Some k)) r \<and> r ''owner'' = JStr (owner_text ow)"
  using assms
  by (cases ow; auto simp: selects_def storage_where_def storage_where_owner_def visible_owned_def owner_subject_def
      split: option.splits)+

lemma find_conj: "find (\<lambda>r. P r \<and> Q r) xs = find Q (filter P xs)"
  by (induction xs) auto

lemma storage_name [simp]: "tbl_name plugin_storage_table = ''plugin_storage''"
  by (rule core_names)

lemma get_for_owner_exact:
  assumes "oc_reach (e_ctx env) = Bound" "org_rows_shared w"
  shows "storage_get_for_owner env pl ow coll k w =
    (Inr (map_option storage_entry_from_row (find (\<lambda>r. r ''owner'' = JStr (owner_text ow))
       (filter (selects env (storage_where pl coll (Some k))) (w_db w ''plugin_storage'')))), w)"
proof -
  have "find (selects env (storage_where_owner (e_ctx env) pl ow coll k)) (w_db w ''plugin_storage'') =
      find (\<lambda>r. selects env (storage_where pl coll (Some k)) r \<and> r ''owner'' = JStr (owner_text ow)) (w_db w ''plugin_storage'')"
    using assms(2) storage_selected(2) [OF assms(1)] by (intro find_cong_on) (auto simp: org_rows_shared_def)
  then show ?thesis by (simp add: storage_get_for_owner_def eff_map_def eff_bind_def owned_find_first find_conj)
qed

text \<open>A plugin's read falls through the owners: it returns the entry of the bound subject when it has
  one under that key, and the organization's otherwise, whatever order the rows are stored in.\<close>

theorem storage_get_falls_through:
  assumes "comparator collate" "oc_reach (e_ctx env) = Bound" "org_rows_shared w"
  shows "fst (storage_get collate env pl coll k w) =
    (case fst (storage_get_for_owner env pl User coll k w) of
       Inr (Some e) \<Rightarrow> Inr (Some e)
     | _ \<Rightarrow> fst (storage_get_for_owner env pl Org coll k w))"
proof -
  let ?c = "e_ctx env" and ?is = "\<lambda>ow r. r ''owner'' = JStr (owner_text ow)"
  let ?cmp = "compare_precedence collate ?c"
  let ?hits = "filter (selects env (storage_where pl coll (Some k))) (w_db w ''plugin_storage'')"
  have get: "storage_get collate env pl coll k w =
      (Inr (case js_sort ?cmp ?hits of [] \<Rightarrow> None | r # _ \<Rightarrow> Some (storage_entry_from_row r)), w)"
    by (simp add: storage_get_def eff_map_def eff_bind_def owned_find_many)
  have key: "r ''key'' = JStr k" if "r \<in> set ?hits" for r
    using that by (auto simp: selects_def storage_where_def)
  have kinds: "?is User r \<and> oc_subject ?c \<noteq> None \<or> ?is Org r" if "r \<in> set ?hits" for r
    using that assms(3) storage_selected(1) [OF assms(2), of r pl coll k] by (auto simp: org_rows_shared_def)
  have rank: "storage_owner_rank ?c r = (if oc_subject ?c = None \<or> ?is User r then 0 else 1)" if "r \<in> set ?hits" for r
    using kinds [OF that] by (auto simp: storage_owner_rank_def)
  have cmp: "?cmp l r = storage_owner_rank ?c l - storage_owner_rank ?c r" if "l \<in> set ?hits" "r \<in> set ?hits" for l r
    using comparator.cmp_refl [OF assms(1), of k] key [OF that(1)] key [OF that(2)]
    by (auto simp: compare_precedence_def Let_def row_str_def)
  show ?thesis
  proof (cases "js_sort ?cmp ?hits")
    case Nil
    then have "?hits = []" using comparator.mset_js_sort [OF comparator_precedence [OF assms(1)], of ?c ?hits] by simp
    with Nil show ?thesis by (simp add: get get_for_owner_exact [OF assms(2,3)])
  next
    case (Cons h t)
    note h = sort_head [OF comparator_precedence [OF assms(1)] Cons]
    have hin: "h \<in> set ?hits" using h(1) find_Some_iff nth_mem by metis
    let ?ow = "if ?is User h then User else Org"
    have "?cmp h r = 0 \<longleftrightarrow> ?is ?ow r" if "r \<in> set ?hits" for r
      using cmp [OF hin that] rank [OF hin] rank [OF that] kinds [OF hin] kinds [OF that] h(2) that by auto
    then have "find (?is ?ow) ?hits = Some h" using h(1) find_cong_on [of ?hits "\<lambda>r. ?cmp h r = 0" "?is ?ow"] by simp
    moreover have "find (?is User) ?hits = None" if "\<not> ?is User h"
    proof -
      have "\<not> ?is User r" if "r \<in> set ?hits" for r
        using h(2) that cmp [OF hin that] rank [OF hin] rank [OF that] kinds [OF hin] kinds [OF that] \<open>\<not> ?is User h\<close> by force
      then show ?thesis by (auto simp: find_None_iff)
    qed
    ultimately show ?thesis using Cons by (auto simp: get get_for_owner_exact [OF assms(2,3)] split: if_splits)
  qed
qed

section \<open>The store is a map\<close>

type_synonym storage_key = "string \<times> owner \<times> string \<times> string"

definition at_key :: "'b base_env_scheme \<Rightarrow> storage_key \<Rightarrow> row \<Rightarrow> bool" where
  "at_key env p = (case p of (pl, ow, coll, k) \<Rightarrow> selects env (storage_where_owner (e_ctx env) pl ow coll k))"

definition data_at :: "'b base_env_scheme \<Rightarrow> row list \<Rightarrow> storage_key \<Rightarrow> jsval option" where
  "data_at env rows p = map_option (\<lambda>r. r ''data'') (find (at_key env p) rows)"

definition stored :: "'b base_env_scheme \<Rightarrow> 'x world \<Rightarrow> storage_key \<Rightarrow> jsval option" where
  "stored env w = data_at env (w_db w ''plugin_storage'')"

lemma owner_text_inj [simp]: "owner_text a = owner_text b \<longleftrightarrow> a = b"
  by (cases a; cases b) auto

lemma at_key_unique: "at_key env p r \<Longrightarrow> at_key env q r \<Longrightarrow> p = q"
  by (auto simp: at_key_def selects_def storage_where_owner_def split: prod.splits)

lemma at_key_patch [simp]: "at_key env p (r(''data'' := v, ''updated_at'' := t)) \<longleftrightarrow> at_key env p r"
  by (auto simp: at_key_def selects_def storage_where_owner_def visible_owned_def split: prod.splits)

lemma at_key_created:
  assumes "\<not> read_only (e_ctx env)" "owner_subject (e_ctx env) ow = Some s" "data \<noteq> JUndef"
  shows "at_key env p (apply_defaults a (tbl_columns plugin_storage_table) (storage_row (e_ctx env) pl ow s ck data t)) \<longleftrightarrow>
      p = (pl, ow, ck)"
    and "apply_defaults a (tbl_columns plugin_storage_table) (storage_row (e_ctx env) pl ow s ck data t) ''data'' = data"
proof -
  let ?r = "apply_defaults a (tbl_columns plugin_storage_table) (storage_row (e_ctx env) pl ow s ck data t)"
  have r: "?r ''tenant'' = JStr (oc_tenant (e_ctx env))" "?r ''owner'' = JStr (owner_text ow)" "?r ''subject'' = JStr s"
    "?r ''plugin_id'' = JStr pl" "?r ''collection'' = JStr (fst ck)" "?r ''key'' = JStr (snd ck)" "?r ''data'' = data"
    using assms(3)
    by (subst apply_defaults_given; simp add: plugin_storage_table_def owned_executor_table_def storage_row_def
        key_column_def text_column_def auto_id_column_def)+
  then have "visible_owned (e_ctx env) ?r"
    using assms(2) by (cases ow) (auto simp: visible_owned_def owner_subject_def)
  with r assms(2) have "at_key env (pl, ow, ck) ?r"
    by (cases ck) (simp add: at_key_def selects_def storage_where_owner_def)
  then show "at_key env p ?r \<longleftrightarrow> p = (pl, ow, ck)" using at_key_unique by blast
  show "?r ''data'' = data" by (rule r)
qed

lemma data_at_patch:
  "data_at env (map (\<lambda>r. if at_key env p r then obj_assign r [(''data'', v), (''updated_at'', t)] else r) rows) q =
     (if q = p \<and> find (at_key env p) rows \<noteq> None then Some v else data_at env rows q)"
proof (induction rows)
  case (Cons r rows)
  have "\<not> at_key env q r" if "at_key env p r" "q \<noteq> p" using at_key_unique that by blast
  with Cons show ?case by (auto simp: data_at_def)
qed (simp add: data_at_def)

lemma data_at_remove: "data_at env (filter (\<lambda>r. \<not> (\<exists>p \<in> S. at_key env p r)) rows) q = (if q \<in> S then None else data_at env rows q)"
proof (induction rows)
  case (Cons r rows)
  show ?case
  proof (cases "\<exists>p \<in> S. at_key env p r")
    case True
    then have "\<not> at_key env q r" if "q \<notin> S" using at_key_unique that by blast
    with True Cons show ?thesis by (cases "q \<in> S") (auto simp: data_at_def)
  next
    case False
    then have "\<not> at_key env q r" if "q \<in> S" using that by blast
    with False Cons show ?thesis by (auto simp: data_at_def)
  qed
qed (simp add: data_at_def)

lemma data_at_append: "data_at env (xs @ ys) q = (case data_at env xs q of Some v \<Rightarrow> Some v | None \<Rightarrow> data_at env ys q)"
  by (induction xs) (auto simp: data_at_def)

lemma storage_keys:
  "owner_subject c ow = Some s \<Longrightarrow>
   owned_keys c ow = Inr [(''tenant'', JStr (oc_tenant c)), (''owner'', JStr (owner_text ow)), (''subject'', JStr s)]"
  by (cases ow) (auto simp: owner_subject_def owned_keys_def)

lemma storage_row_keys:
  "\<exists>ps. storage_row c pl ow s ck v t = [(''tenant'', JStr (oc_tenant c)), (''owner'', JStr (owner_text ow)), (''subject'', JStr s)] @ ps"
  by (simp add: storage_row_def)

lemma storage_put_refines:
  assumes "\<not> read_only (e_ctx env)" "owner_subject (e_ctx env) ow = Some s" "data \<noteq> JUndef"
  shows "\<exists>e w'. storage_put env pl ow coll k data w = (Inr e, w') \<and> stored env w' = (stored env w)((pl, ow, coll, k) \<mapsto> data)"
proof -
  let ?p = "(pl, ow, coll, k)" and ?rows = "w_db w ''plugin_storage''"
  have sel: "selects env (storage_where_owner (e_ctx env) pl ow coll k) = at_key env ?p" by (simp add: at_key_def)
  show ?thesis
  proof (cases "find (at_key env ?p) ?rows")
    case None
    let ?r = "apply_defaults (e_auto env (w_ids w)) (tbl_columns plugin_storage_table)
      (storage_row (e_ctx env) pl ow s (coll, k) data (e_now env (w_clock w)))"
    have "run_create_policies plugin_storage_table (storage_row (e_ctx env) pl ow s (coll, k) data t) (e_ctx env) = Inr ()" for t
    proof -
      obtain ps where "storage_row (e_ctx env) pl ow s (coll, k) data t =
          [(''tenant'', JStr (oc_tenant (e_ctx env))), (''owner'', JStr (owner_text ow)), (''subject'', JStr s)] @ ps"
        using storage_row_keys by blast
      then show ?thesis
        using owned_keys_writable [OF storage_keys [OF assms(2)] assms(1), of _ ps]
        by (simp add: run_create_policies_def plugin_storage_table_def owned_executor_table_def)
    qed
    then have "\<exists>w'. storage_put env pl ow coll k data w = (Inr (storage_entry_from_row ?r), w') \<and>
        w_db w' = (w_db w)(''plugin_storage'' := ?rows @ [?r])"
      using None assms(2) by (simp add: storage_put_def Let_def eff_bind_def eff_map_def owned_find_first sel now_def
          core_create_def orm_create_def mem_create_def storage_def)
    then obtain w' where w': "storage_put env pl ow coll k data w = (Inr (storage_entry_from_row ?r), w')"
      "w_db w' = (w_db w)(''plugin_storage'' := ?rows @ [?r])" by blast
    have "data_at env [?r] q = (if q = ?p then Some data else None)" for q
      using at_key_created [OF assms] by (simp add: data_at_def)
    moreover have "data_at env ?rows ?p = None" using None by (simp add: data_at_def)
    ultimately have "stored env w' = (stored env w)(?p \<mapsto> data)"
      by (auto simp: fun_eq_iff stored_def w'(2) data_at_append split: option.splits)
    with w'(1) show ?thesis by blast
  next
    case (Some r)
    let ?patch = "[(''data'', data), (''updated_at'', JDate (e_now env (w_clock w)))]"
    have "\<exists>w'. storage_put env pl ow coll k data w = (Inr (storage_entry_from_row (obj_assign r ?patch)), w') \<and>
        w_db w' = (w_db w)(''plugin_storage'' := map (\<lambda>r. if at_key env ?p r then obj_assign r ?patch else r) ?rows)"
      using Some assms(1,2) by (simp add: storage_put_def Let_def eff_bind_def eff_map_def owned_find_first sel now_def
          owned_update del: obj_assign_Cons)
    then obtain w' where w': "storage_put env pl ow coll k data w = (Inr (storage_entry_from_row (obj_assign r ?patch)), w')"
      "w_db w' = (w_db w)(''plugin_storage'' := map (\<lambda>r. if at_key env ?p r then obj_assign r ?patch else r) ?rows)" by blast
    have "stored env w' = (stored env w)(?p \<mapsto> data)"
      using Some by (auto simp: fun_eq_iff stored_def w'(2) data_at_patch simp del: obj_assign_Cons)
    with w'(1) show ?thesis by blast
  qed
qed

definition deletes :: "'b base_env_scheme \<Rightarrow> ('x, unit) eff \<Rightarrow> storage_key set \<Rightarrow> bool" where
  "deletes env m S \<longleftrightarrow> (\<forall>w. m w = (Inr (), w\<lparr>w_db := (w_db w)(''plugin_storage'' :=
     filter (\<lambda>r. \<not> (\<exists>p \<in> S. at_key env p r)) (w_db w ''plugin_storage''))\<rparr>))"

lemma deletes_none: "deletes env (eff_return ()) {}"
  by (simp add: deletes_def)

lemma deletes_bind: "deletes env m S \<Longrightarrow> deletes env n T \<Longrightarrow> deletes env (eff_bind m (\<lambda>_. n)) (S \<union> T)"
  by (simp add: deletes_def eff_bind_def ball_Un)

lemma deletes_iter: "(\<And>x. x \<in> set xs \<Longrightarrow> deletes env (f x) (S x)) \<Longrightarrow> deletes env (eff_iter f xs) (\<Union>x \<in> set xs. S x)"
  by (induction xs) (simp_all add: deletes_none deletes_bind)

lemma deletes_batch:
  assumes "\<not> read_only (e_ctx env)" "owner_subject (e_ctx env) ow = Some s"
  shows "deletes env (core_delete_many env plugin_storage_table (Some (delete_batch_where pl ow s coll ks)))
    ((\<lambda>k. (pl, ow, coll, k)) ` set ks)"
proof -
  have key: "holds_cb r (cmp_val ''key'' OpIn (JArr (map JStr ks))) \<longleftrightarrow> (\<exists>k \<in> set ks. r ''key'' = JStr k)" for r :: row
  proof -
    have "list_ex (\<lambda>w. strict_eq w v) (map JStr ks) \<longleftrightarrow> (\<exists>k \<in> set ks. v = JStr k)" for v by (induction ks) auto
    moreover have "comparable v = JStr k \<longleftrightarrow> v = JStr k" for v k by (cases v) auto
    ultimately show ?thesis by (simp add: cmp_val_def)
  qed
  have "selects env (delete_batch_where pl ow s coll ks) r \<longleftrightarrow> (\<exists>p \<in> (\<lambda>k. (pl, ow, coll, k)) ` set ks. at_key env p r)" for r
    using key [of r] assms(2)
    by (auto simp: selects_def delete_batch_where_def at_key_def storage_where_owner_def)
  then show ?thesis by (simp add: deletes_def owned_delete [OF _ assms(1)])
qed

lemma concat_batches: "0 < n \<Longrightarrow> concat (batches n xs) = xs"
proof (induction n xs rule: batches.induct)
  case (1 n xs)
  then show ?case by (subst batches.simps) auto
qed

lemma length_batches: "b \<in> set (batches n xs) \<Longrightarrow> length b \<le> n"
proof (induction n xs rule: batches.induct)
  case (1 n xs)
  then show ?case by (subst (asm) batches.simps) (auto split: if_splits)
qed

lemma map_put_keys: "map fst (map_put k v ps) = (if k \<in> fst ` set ps then map fst ps else map fst ps @ [k])"
proof -
  have "map (\<lambda>p. fst (case p of (k', u) \<Rightarrow> (k', if k' = k then v else u))) ps = map fst ps" by (induction ps) auto
  then show ?thesis by (simp add: map_put_def o_def)
qed

lemma distinct_map_put: "distinct (map fst ps) \<Longrightarrow> distinct (map fst (map_put k v ps))"
  by (simp add: map_put_keys)

lemma set_set_add [simp]: "set (set_add x xs) = insert x (set xs)"
  by (auto simp: set_add_def)

definition grouped_pairs :: "(string \<times> string list) list \<Rightarrow> (string \<times> string) set" where
  "grouped_pairs g = {(c, k). \<exists>ks. map_of g c = Some ks \<and> k \<in> set ks}"

lemma keys_by_collection_pairs:
  "distinct (map fst (keys_by_collection entries)) \<and> grouped_pairs (keys_by_collection entries) = set entries"
proof -
  let ?add = "\<lambda>(coll, k) grouped. map_put coll (set_add k (case map_of grouped coll of None \<Rightarrow> [] | Some ks \<Rightarrow> ks)) grouped"
  have "distinct (map fst (fold ?add entries g)) \<and> grouped_pairs (fold ?add entries g) = grouped_pairs g \<union> set entries"
    if "distinct (map fst g)" for g
    using that
  proof (induction entries arbitrary: g)
    case (Cons e entries)
    obtain c k where e: "e = (c, k)" by (cases e)
    have "grouped_pairs (?add e g) = insert (c, k) (grouped_pairs g)"
      by (auto simp: e grouped_pairs_def split: option.splits if_splits)
    moreover have "distinct (map fst (?add e g))" using Cons.prems by (simp add: e distinct_map_put)
    ultimately show ?case using Cons.IH [of "?add e g"] e by auto
  qed simp
  moreover have "grouped_pairs [] = {}" by (simp add: grouped_pairs_def)
  ultimately show ?thesis by (simp add: keys_by_collection_def)
qed

lemma deletes_entries:
  assumes "\<not> read_only (e_ctx env)" "owner_subject (e_ctx env) ow = Some s"
  shows "deletes env (delete_many_entries env pl ow s entries) ((\<lambda>ck. (pl, ow, ck)) ` set entries)"
proof -
  let ?g = "keys_by_collection entries"
  have "deletes env (eff_iter (\<lambda>batch. core_delete_many env plugin_storage_table (Some (delete_batch_where pl ow s coll batch)))
      (batches STORAGE_BATCH_SIZE ks)) ((\<lambda>k. (pl, ow, coll, k)) ` set ks)" for coll ks
  proof -
    have "set ks = (\<Union>b \<in> set (batches STORAGE_BATCH_SIZE ks). set b)"
      using concat_batches [of STORAGE_BATCH_SIZE ks] by (metis STORAGE_BATCH_SIZE_def set_concat zero_less_numeral)
    then show ?thesis 
      using deletes_iter [where xs = "batches STORAGE_BATCH_SIZE ks" and S = "\<lambda>b. (\<lambda>k. (pl, ow, coll, k)) ` set b",
          OF deletes_batch [OF assms]]
      by (simp add: image_UN)
  qed
  then have "deletes env (delete_many_entries env pl ow s entries) (\<Union>(coll, ks) \<in> set ?g. (\<lambda>k. (pl, ow, coll, k)) ` set ks)"
    unfolding delete_many_entries_def by (intro deletes_iter) auto
  moreover have "(\<Union>(coll, ks) \<in> set ?g. (\<lambda>k. (pl, ow, coll, k)) ` set ks) = (\<lambda>ck. (pl, ow, ck)) ` grouped_pairs ?g"
  proof -
    have "map_of ?g c = Some ks \<longleftrightarrow> (c, ks) \<in> set ?g" for c ks
      using keys_by_collection_pairs [of entries] by (simp add: map_of_eq_Some_iff)
    then show ?thesis by (auto simp: grouped_pairs_def image_iff) 
  qed
  ultimately show ?thesis using keys_by_collection_pairs [of entries] by simp
qed

lemma plugin_storage_id_inj [simp]: "plugin_storage_id a b c = plugin_storage_id a' b' c' \<longleftrightarrow> a = a' \<and> b = b' \<and> c = c'"
  by (auto simp: plugin_storage_id_def json_quote_code)

definition entry_at :: "string \<Rightarrow> owner \<Rightarrow> ((string \<times> string) \<times> jsval) list \<Rightarrow> storage_key \<Rightarrow> jsval option" where
  "entry_at pl ow es q = (case q of (pl', ow', ck) \<Rightarrow> if pl' = pl \<and> ow' = ow then map_of es ck else None)"

definition put_entries :: "string \<Rightarrow> owner \<Rightarrow> ((string \<times> string) \<times> jsval) list \<Rightarrow> (storage_key \<Rightarrow> jsval option) \<Rightarrow> storage_key \<Rightarrow> jsval option" where
  "put_entries pl ow es = fold (\<lambda>(ck, v) m. m((pl, ow, ck) \<mapsto> v)) es"

lemma put_entries_last: "put_entries pl ow es m q = (case entry_at pl ow (rev es) q of Some v \<Rightarrow> Some v | None \<Rightarrow> m q)"
proof (induction es rule: rev_induct)
  case (snoc e es)
  have "put_entries pl ow (es @ [e]) m = (put_entries pl ow es m)((pl, ow, fst e) \<mapsto> snd e)"
    by (simp add: put_entries_def split: prod.splits)
  with snoc show ?case by (cases e; cases q) (auto simp: entry_at_def)
qed (simp add: entry_at_def put_entries_def split: prod.splits)

lemma unique_entries_last: "map_of (unique_entries pl es) ck = map_of (rev es) ck"
proof -
  let ?id = "\<lambda>p. plugin_storage_id pl (fst p) (snd p)"
  let ?acc = "\<lambda>es. fold (\<lambda>(p, v). map_put (?id p) (p, v)) es []"
  let ?I = "\<lambda>acc. \<forall>(i, q) \<in> set acc. i = ?id (fst q)"
  have step: "?I (map_put (?id p) (p, v) acc)" if "?I acc" for acc :: "(string \<times> (string \<times> string) \<times> jsval) list" and p v
    using that unfolding map_put_def by (auto split: if_splits) fastforce
  have I: "?I (?acc es)" for es :: "((string \<times> string) \<times> jsval) list"
  proof (induction es rule: rev_induct)
    case (snoc e es)
    obtain p v where e: "e = (p, v)" by (cases e)
    have "?acc (es @ [e]) = map_put (?id p) (p, v) (?acc es)" by (simp add: e)
    then show ?case using step [OF snoc] by presburger
  qed simp
  have look: "map_of (map snd acc) ck = map_option snd (map_of acc (?id ck))" if "?I acc" for acc :: "(string \<times> (string \<times> string) \<times> jsval) list"
    using that
  proof (induction acc)
    case (Cons x acc)
    obtain p v where x: "x = (?id p, p, v)" using Cons.prems by (cases x) auto
    with Cons show ?case by (cases p; cases ck) auto
  qed simp
  have "map_option snd (map_of (?acc es) (?id ck)) = map_of (rev es) ck"
    by (induction es rule: rev_induct) (auto simp: prod_eq_iff)
  with look [OF I] show ?thesis by (simp add: unique_entries_def)
qed

lemma unique_entries_set: "set (unique_entries pl es) \<subseteq> set es"
proof -
  have "snd ` set (fold (\<lambda>(p, v). map_put (plugin_storage_id pl (fst p) (snd p)) (p, v)) es acc) \<subseteq> snd ` set acc \<union> set es"
    for acc :: "(string \<times> (string \<times> string) \<times> jsval) list"
  proof (induction es arbitrary: acc)
    case (Cons e es)
    obtain q v where e: "e = (q, v)" by (cases e)
    let ?acc = "map_put (plugin_storage_id pl (fst q) (snd q)) (q, v) acc"
    have "snd ` set ?acc \<subseteq> insert e (snd ` set acc)" by (auto simp: e map_put_def split: if_splits)
    with Cons.IH [of ?acc] e show ?case by auto
  qed simp
  from this [of "[]"] show ?thesis by (simp add: unique_entries_def)
qed

lemma data_at_created:
  assumes "\<not> read_only (e_ctx env)" "owner_subject (e_ctx env) ow = Some s"
    and "list_all2 (\<lambda>e r. \<exists>a. r = apply_defaults a (tbl_columns plugin_storage_table) (storage_row (e_ctx env) pl ow s (fst e) (snd e) t)) es rows"
    and "\<forall>e \<in> set es. snd e \<noteq> JUndef"
  shows "data_at env rows q = entry_at pl ow es q"
  using assms(3,4)
proof (induction es rows rule: list_all2_induct)
  case (Cons e es r rows)
  obtain a where r: "r = apply_defaults a (tbl_columns plugin_storage_table) (storage_row (e_ctx env) pl ow s (fst e) (snd e) t)"
    using Cons.hyps(1) by blast
  have "snd e \<noteq> JUndef" using Cons.prems by simp
  note at = at_key_created [OF assms(1,2) this, where a = a and pl = pl and ck = "fst e" and t = t, folded r]
  have "data_at env rows q = entry_at pl ow es q" using Cons by simp
  with at show ?case by (cases q; cases e) (auto simp: data_at_def entry_at_def)
qed (simp add: data_at_def entry_at_def split: prod.splits)

lemma create_batches:
  assumes "\<not> read_only (e_ctx env)" "owner_subject (e_ctx env) ow = Some s" "\<forall>e \<in> set (concat bs). snd e \<noteq> JUndef"
  shows "\<exists>w'. eff_iter (\<lambda>b. core_create_many env plugin_storage_table (map (\<lambda>(p, v). storage_row (e_ctx env) pl ow s p v t) b)) bs w = (Inr (), w') \<and>
    stored env w' = (\<lambda>q. case stored env w q of Some v \<Rightarrow> Some v | None \<Rightarrow> entry_at pl ow (concat bs) q)"
  using assms(3)
proof (induction bs arbitrary: w)
  case Nil
  have "entry_at pl ow (concat []) q = None" for q by (simp add: entry_at_def split: prod.splits)
  then show ?case by (simp add: fun_eq_iff split: option.split)
next
  case (Cons b bs)
  let ?vs = "map (\<lambda>(p, v). storage_row (e_ctx env) pl ow s p v t) b"
  let ?rows = "created_rows env plugin_storage_table (w_ids w) ?vs"
  let ?w = "w\<lparr>w_db := (w_db w)(''plugin_storage'' := w_db w ''plugin_storage'' @ ?rows), w_ids := w_ids w + length ?vs\<rparr>"
  have "core_create_many env plugin_storage_table ?vs w = (Inr (), ?w)"
    using owned_create_many [OF _ assms(1) storage_keys [OF assms(2)], of plugin_storage_table ?vs w] storage_row_keys
    by fastforce
  moreover have "list_all2 (\<lambda>e r. \<exists>a. r = apply_defaults a (tbl_columns plugin_storage_table)
      (storage_row (e_ctx env) pl ow s (fst e) (snd e) t)) b ?rows"
    by (auto simp: list_all2_conv_all_nth created_rows_def split: prod.splits)
  then have "data_at env ?rows q = entry_at pl ow b q" for q
    by (rule data_at_created [OF assms(1,2)]) (use Cons.prems in auto)
  then have "stored env ?w q = (case stored env w q of Some v \<Rightarrow> Some v | None \<Rightarrow> entry_at pl ow b q)" for q
    by (simp add: stored_def data_at_append split: option.split)
  moreover obtain w' where "eff_iter (\<lambda>b. core_create_many env plugin_storage_table (map (\<lambda>(p, v). storage_row (e_ctx env) pl ow s p v t) b)) bs ?w = (Inr (), w')"
    "stored env w' = (\<lambda>q. case stored env ?w q of Some v \<Rightarrow> Some v | None \<Rightarrow> entry_at pl ow (concat bs) q)"
    using Cons.IH [of ?w] Cons.prems by auto
  ultimately show ?case
    by (intro exI [of _ w']) (auto simp: eff_bind_def fun_eq_iff entry_at_def map_add_def split: option.splits)
qed

lemma storage_put_many_refines:
  assumes "\<not> read_only (e_ctx env)" "owner_subject (e_ctx env) ow = Some s" "\<forall>e \<in> set es. snd e \<noteq> JUndef"
  shows "\<exists>w'. storage_put_many env pl ow es w = (Inr (), w') \<and> stored env w' = put_entries pl ow es (stored env w)"
proof (cases "es = []")
  case True
  then show ?thesis using assms(2) by (simp add: storage_put_many_def unique_entries_def put_entries_def)
next
  case False
  let ?u = "unique_entries pl es"
  have dom: "fst ` set ?u = fst ` set es"
    using unique_entries_last [of pl es] by (metis dom_map_of_conv_image_fst map_of_eq_None_iff set_rev subsetI subset_antisym)
  have vals: "\<forall>e \<in> set ?u. snd e \<noteq> JUndef" using assms(3) unique_entries_set by blast
  let ?w1 = "w\<lparr>w_db := (w_db w)(''plugin_storage'' :=
     filter (\<lambda>r. \<not> (\<exists>p \<in> (\<lambda>ck. (pl, ow, ck)) ` set (map fst ?u). at_key env p r)) (w_db w ''plugin_storage''))\<rparr>"
  have del: "delete_many_entries env pl ow s (map fst ?u) w = (Inr (), ?w1)"
    by (rule spec [OF deletes_entries [OF assms(1,2), of pl "map fst ?u", unfolded deletes_def]])
  have cb: "concat (batches STORAGE_BATCH_SIZE ?u) = ?u" by (simp add: concat_batches STORAGE_BATCH_SIZE_def)
  let ?w2 = "?w1\<lparr>w_clock := Suc (w_clock ?w1)\<rparr>"
  obtain w' where w': "eff_iter (\<lambda>b. core_create_many env plugin_storage_table (map (\<lambda>(p, v). storage_row (e_ctx env) pl ow s p v
        (e_now env (w_clock ?w1))) b)) (batches STORAGE_BATCH_SIZE ?u) ?w2 = (Inr (), w')"
    "stored env w' = (\<lambda>q. case stored env ?w2 q of Some v \<Rightarrow> Some v | None \<Rightarrow> entry_at pl ow ?u q)"
    using create_batches [OF assms(1,2), where bs = "batches STORAGE_BATCH_SIZE ?u" and w = ?w2 and pl = pl
        and t = "e_now env (w_clock ?w1)", unfolded cb, OF vals] by blast
  have "?u \<noteq> []" using dom False by auto
  with del w'(1) assms(2) have "storage_put_many env pl ow es w = (Inr (), w')"
    by (simp add: storage_put_many_def Let_def eff_bind_def now_def)
  moreover have "stored env w' q = put_entries pl ow es (stored env w) q" for q
  proof -
    have "stored env ?w2 q = (if q \<in> (\<lambda>ck. (pl, ow, ck)) ` fst ` set es then None else stored env w q)"
    proof -
      have "stored env ?w2 q = data_at env (filter (\<lambda>r. \<not> (\<exists>p \<in> (\<lambda>ck. (pl, ow, ck)) ` set (map fst ?u). at_key env p r))
          (w_db w ''plugin_storage'')) q"
        by (simp add: stored_def)
      also have "\<dots> = (if q \<in> (\<lambda>ck. (pl, ow, ck)) ` fst ` set es then None else stored env w q)"
        unfolding data_at_remove by (simp only: set_map dom stored_def)
      finally show ?thesis .
    qed
    moreover have "entry_at pl ow ?u q = entry_at pl ow (rev es) q"
      by (simp add: entry_at_def unique_entries_last split: prod.splits)
    moreover have "q \<in> (\<lambda>ck. (pl, ow, ck)) ` fst ` set es \<longleftrightarrow> entry_at pl ow (rev es) q \<noteq> None"
    proof -
      have "map_of (rev es) ck \<noteq> None \<longleftrightarrow> ck \<in> fst ` set es" for ck by (metis map_of_eq_None_iff set_rev)
      then show ?thesis by (cases q) (auto simp: entry_at_def)
    qed
    ultimately show ?thesis by (auto simp: w'(2) put_entries_last split: option.splits)
  qed
  ultimately show ?thesis by blast
qed

lemma storage_remove_refines:
  assumes "\<not> read_only (e_ctx env)" "owner_subject (e_ctx env) ow = Some s"
  shows "\<exists>w'. storage_remove env pl ow coll k w = (Inr (), w') \<and> stored env w' = (stored env w)((pl, ow, coll, k) := None)"
proof -
  let ?rows = "w_db w ''plugin_storage''"
  let ?w = "w\<lparr>w_db := (w_db w)(''plugin_storage'' := filter (\<lambda>r. \<not> at_key env (pl, ow, coll, k) r) ?rows)\<rparr>"
  have "storage_remove env pl ow coll k w = (Inr (), ?w)"
    using assms(2) by (simp add: storage_remove_def owned_delete [OF _ assms(1)] at_key_def)
  moreover have "stored env ?w = (stored env w)((pl, ow, coll, k) := None)"
    using data_at_remove [of env "{(pl, ow, coll, k)}" ?rows] by (auto simp: stored_def fun_eq_iff)
  ultimately show ?thesis by blast
qed

lemma storage_remove_many_refines:
  assumes "\<not> read_only (e_ctx env)" "owner_subject (e_ctx env) ow = Some s"
  shows "\<exists>w'. storage_remove_many env pl ow es w = (Inr (), w') \<and>
    stored env w' = (\<lambda>q. if q \<in> (\<lambda>ck. (pl, ow, ck)) ` set es then None else stored env w q)"
proof -
  let ?rows = "w_db w ''plugin_storage''" and ?S = "(\<lambda>ck. (pl, ow, ck)) ` set es"
  let ?w = "w\<lparr>w_db := (w_db w)(''plugin_storage'' := filter (\<lambda>r. \<not> (\<exists>p \<in> ?S. at_key env p r)) ?rows)\<rparr>"
  have "delete_many_entries env pl ow s es w = (Inr (), ?w)"
    by (rule spec [OF deletes_entries [OF assms, of pl es, unfolded deletes_def]])
  then have "storage_remove_many env pl ow es w = (Inr (), ?w)" using assms(2) by (simp add: storage_remove_many_def)
  moreover have "stored env ?w = data_at env (filter (\<lambda>r. \<not> (\<exists>p \<in> ?S. at_key env p r)) ?rows)" by (simp add: stored_def)
  ultimately show ?thesis unfolding data_at_remove [abs_def] fun_eq_iff using data_at_remove [of env ?S ?rows] by (auto simp: stored_def)
qed

datatype storage_call =
    PutEntry owner string string jsval
  | PutEntries owner "((string \<times> string) \<times> jsval) list"
  | RemoveEntry owner string string
  | RemoveEntries owner "(string \<times> string) list"

fun run_storage_call :: "'b base_env_scheme \<Rightarrow> string \<Rightarrow> storage_call \<Rightarrow> ('x, unit) eff" where
  "run_storage_call env pl (PutEntry ow coll k v) = eff_map (\<lambda>_. ()) (storage_put env pl ow coll k v)"
| "run_storage_call env pl (PutEntries ow es) = storage_put_many env pl ow es"
| "run_storage_call env pl (RemoveEntry ow coll k) = storage_remove env pl ow coll k"
| "run_storage_call env pl (RemoveEntries ow es) = storage_remove_many env pl ow es"

text \<open>What a caller has to keep to: its owner has a subject, and what it stores is a value.\<close>

fun storage_call_ok :: "owner_ctx \<Rightarrow> storage_call \<Rightarrow> bool" where
  "storage_call_ok c (PutEntry ow coll k v) \<longleftrightarrow> owner_subject c ow \<noteq> None \<and> v \<noteq> JUndef"
| "storage_call_ok c (PutEntries ow es) \<longleftrightarrow> owner_subject c ow \<noteq> None \<and> list_all (\<lambda>e. snd e \<noteq> JUndef) es"
| "storage_call_ok c (RemoveEntry ow coll k) \<longleftrightarrow> owner_subject c ow \<noteq> None"
| "storage_call_ok c (RemoveEntries ow es) \<longleftrightarrow> owner_subject c ow \<noteq> None"

text \<open>The specification: entries put one after the other, entries removed.\<close>

fun apply_storage_call :: "string \<Rightarrow> storage_call \<Rightarrow> (storage_key \<Rightarrow> jsval option) \<Rightarrow> storage_key \<Rightarrow> jsval option" where
  "apply_storage_call pl (PutEntry ow coll k v) m = m((pl, ow, coll, k) \<mapsto> v)"
| "apply_storage_call pl (PutEntries ow es) m = fold (\<lambda>(ck, v) m. m((pl, ow, ck) \<mapsto> v)) es m"
| "apply_storage_call pl (RemoveEntry ow coll k) m = m((pl, ow, coll, k) := None)"
| "apply_storage_call pl (RemoveEntries ow es) m = (\<lambda>q. if q \<in> (\<lambda>ck. (pl, ow, ck)) ` set es then None else m q)"

lemma storage_call_refines:
  assumes "\<not> read_only (e_ctx env)" "storage_call_ok (e_ctx env) c"
  shows "\<exists>w'. run_storage_call env pl c w = (Inr (), w') \<and> stored env w' = apply_storage_call pl c (stored env w)"
proof (cases c)
  case (PutEntry ow coll k v)
  with assms storage_put_refines [OF assms(1), of ow _ v pl coll k w] show ?thesis by (auto simp: eff_map_def eff_bind_def)
next
  case (PutEntries ow es)
  with assms storage_put_many_refines [OF assms(1), of ow _ es pl w] show ?thesis by (auto simp: list_all_iff put_entries_def)
next
  case (RemoveEntry ow coll k)
  with assms storage_remove_refines [OF assms(1), of ow _ pl coll k w] show ?thesis by auto
next
  case (RemoveEntries ow es)
  with assms storage_remove_many_refines [OF assms(1), of ow _ pl es w] show ?thesis by auto
qed

lemma storage_calls_stored:
  assumes "\<not> read_only (e_ctx env)" "list_all (storage_call_ok (e_ctx env)) cs"
  shows "\<exists>w'. eff_iter (run_storage_call env pl) cs w = (Inr (), w') \<and> stored env w' = fold (apply_storage_call pl) cs (stored env w)"
  using assms(2)
proof (induction cs arbitrary: w)
  case (Cons c cs)
  obtain w1 where w1: "run_storage_call env pl c w = (Inr (), w1)" "stored env w1 = apply_storage_call pl c (stored env w)"
    using storage_call_refines [OF assms(1)] Cons.prems by fastforce
  from Cons.IH [of w1] Cons.prems show ?case by (auto simp: eff_bind_def w1)
qed simp

text \<open>C27: a plugin's storage is a map from owners, collections and keys to data: whatever is put, put in
  bulk and removed, in any order, every call succeeds and a read of an owner's key finds what the
  map holds. A bulk put is the puts of its entries one after the other, the last of a key winning,
  whatever the batches it is sent in.\<close>

theorem storage_calls_refine:
  assumes "\<not> read_only (e_ctx env)" "list_all (storage_call_ok (e_ctx env)) cs"
  shows "\<exists>w'. eff_iter (run_storage_call env pl) cs w = (Inr (), w') \<and>
    (\<forall>ow coll k. \<exists>e. storage_get_for_owner env pl ow coll k w' = (Inr e, w') \<and>
       map_option pe_data e = fold (apply_storage_call pl) cs (stored env w) (pl, ow, coll, k))"
proof -
  obtain w' where w': "eff_iter (run_storage_call env pl) cs w = (Inr (), w')"
    "stored env w' = fold (apply_storage_call pl) cs (stored env w)"
    using storage_calls_stored [OF assms] by blast
  have "\<exists>e. storage_get_for_owner env pl ow coll k w' = (Inr e, w') \<and> map_option pe_data e = stored env w' (pl, ow, coll, k)" for ow coll k
    by (simp add: storage_get_for_owner_def eff_map_def eff_bind_def owned_find_first stored_def data_at_def at_key_def
        option.map_comp o_def storage_entry_from_row_def)
  with w' show ?thesis by metis
qed

section \<open>Queries\<close>

text \<open>C28: a query that answers used indexed fields only and returns no more than its limit, each entry one
  the context can see, of that plugin and collection, with the prefix asked for and meeting every
  clause of \<open>where\<close>.\<close>

theorem query_collection_sound:
  assumes "query_collection collate env pl cd q w = (Inr es, w')"
  shows "w' = w \<and> set (query_fields q) \<subseteq> indexed_fields cd \<and>
    (\<forall>n. qy_limit q = Some n \<longrightarrow> int (length es) \<le> n) \<and>
    (\<forall>e \<in> set es. \<exists>r \<in> set (w_db w ''plugin_storage''). e = storage_entry_from_row r \<and> visible_owned (e_ctx env) r \<and>
       r ''plugin_id'' = JStr pl \<and> r ''collection'' = JStr (cd_name cd) \<and> has_prefix (qy_prefix q) r \<and> row_matches_where r (qy_where q))"
proof -
  let ?rows = "filter (selects env (storage_where pl (cd_name cd) None)) (w_db w ''plugin_storage'')"
  have v: "query_validation_error cd q = None"
    using assms by (cases "query_validation_error cd q") (auto simp: query_collection_def)
  then have es: "es = map storage_entry_from_row (query_rows collate (e_ctx env) q ?rows)" "w' = w"
    using assms by (auto simp: query_collection_def eff_map_def eff_bind_def owned_find_many)
  have "find (\<lambda>f. f \<notin> indexed_fields cd) (query_fields q) = None" and lim: "\<And>n. qy_limit q = Some n \<Longrightarrow> 0 \<le> n"
    using v by (auto simp: query_validation_error_def Let_def split: option.splits if_splits)
  then have "set (query_fields q) \<subseteq> indexed_fields cd" by (auto simp: find_None_iff)
  moreover have "int (length es) \<le> n" if "qy_limit q = Some n" for n
    using lim [OF that] that by (simp add: es query_rows_def Let_def js_slice_def)
  moreover have "set (query_rows collate (e_ctx env) q ?rows) \<subseteq>
      {r \<in> set ?rows. has_prefix (qy_prefix q) r \<and> row_matches_where r (qy_where q)}"
  proof -
    have "set (js_sort c xs) = set xs" for c and xs :: "row list" by simp
    then show ?thesis unfolding query_rows_def Let_def
      by (intro order_trans [OF set_js_slice]) auto
  qed
  then have "\<exists>r \<in> set (w_db w ''plugin_storage''). e = storage_entry_from_row r \<and> visible_owned (e_ctx env) r \<and>
       r ''plugin_id'' = JStr pl \<and> r ''collection'' = JStr (cd_name cd) \<and> has_prefix (qy_prefix q) r \<and> row_matches_where r (qy_where q)"
    if "e \<in> set es" for e
    using that by (force simp: es selects_def storage_where_def)
  ultimately show ?thesis using es(2) by blast
qed

text \<open>A row without the field meets \<open>lt\<close>; a text and a number are each greater than the other.\<close>

lemma missing_field_is_less: "row_matches_where (prop_of [(''data'', JObj [])]) (Some [(''priority'', JObj [(''lt'', JNum 5)])])"
  by code_simp

lemma incomparable_both_greater:
  "compare_storage_values (JStr ''high'') (JNum 5) > 0 \<and> compare_storage_values (JNum 5) (JStr ''high'') > 0"
  by code_simp

section \<open>A concrete plugin\<close>

lemma small_writable: "\<not> read_only (e_ctx small_env)"
  by (simp add: read_only_def small_env_def small_ctx_def)

lemma storage_calls_refine_witness:
  "\<exists>w'. eff_iter (run_storage_call small_env ''api'') [PutEntries Org [((''c'', ''k''), JNum 1), ((''c'', ''k''), JNum 2)],
       PutEntry User ''c'' ''k'' (JNum 3), RemoveEntry User ''c'' ''k''] (small_world small_db []) = (Inr (), w') \<and>
     (\<exists>e. storage_get_for_owner small_env ''api'' Org ''c'' ''k'' w' = (Inr e, w') \<and> map_option pe_data e = Some (JNum 2))"
proof -
  have "list_all (storage_call_ok (e_ctx small_env)) [PutEntries Org [((''c'', ''k''), JNum 1), ((''c'', ''k''), JNum 2)],
       PutEntry User ''c'' ''k'' (JNum 3), RemoveEntry User ''c'' ''k'']"
    by (simp add: owner_subject_def small_env_def small_ctx_def)
  from storage_calls_refine [OF small_writable this, of "''api''" "small_world small_db []"] obtain w' where
    w': "eff_iter (run_storage_call small_env ''api'') [PutEntries Org [((''c'', ''k''), JNum 1), ((''c'', ''k''), JNum 2)],
       PutEntry User ''c'' ''k'' (JNum 3), RemoveEntry User ''c'' ''k''] (small_world small_db []) = (Inr (), w')"
    and get: "\<forall>ow coll k. \<exists>e. storage_get_for_owner small_env ''api'' ow coll k w' = (Inr e, w') \<and> map_option pe_data e =
       fold (apply_storage_call ''api'') [PutEntries Org [((''c'', ''k''), JNum 1), ((''c'', ''k''), JNum 2)],
       PutEntry User ''c'' ''k'' (JNum 3), RemoveEntry User ''c'' ''k''] (stored small_env (small_world small_db [])) (''api'', ow, coll, k)"
    by blast
  from get [rule_format, of Org "''c''" "''k''"] have
    "\<exists>e. storage_get_for_owner small_env ''api'' Org ''c'' ''k'' w' = (Inr e, w') \<and> map_option pe_data e = Some (JNum 2)" by simp
  with w' show ?thesis by blast
qed

lemma storage_get_falls_through_witness:
  "fst (storage_get cmp_str small_env ''api'' ''c'' ''k'' (small_world small_db [])) =
    (case fst (storage_get_for_owner small_env ''api'' User ''c'' ''k'' (small_world small_db [])) of
       Inr (Some e) \<Rightarrow> Inr (Some e)
     | _ \<Rightarrow> fst (storage_get_for_owner small_env ''api'' Org ''c'' ''k'' (small_world small_db [])))"
  by (rule storage_get_falls_through [OF str_order.comparator_axioms])
    (simp_all add: small_env_def small_ctx_def org_rows_shared_def small_world_def small_db_def)

definition sample_row :: row where
  "sample_row = prop_of (org_keys @ [(''plugin_id'', JStr ''api''), (''collection'', JStr ''c''), (''key'', JStr ''k''),
     (''data'', JObj [(''n'', JNum 1)]), (''created_at'', JDate 1), (''updated_at'', JDate 1)])"

definition sample_query :: storage_query where
  "sample_query = \<lparr>qy_prefix = None, qy_where = Some [(''n'', JObj [(''gte'', JNum 1)])], qy_order_by = [(''n'', True)],
     qy_limit = Some 1, qy_offset = None\<rparr>"

lemma sample_query_run:
  "fst (query_collection cmp_str small_env ''api'' \<lparr>cd_name = ''c'', cd_indexes = [[''n'']]\<rparr> sample_query
     (small_world ((\<lambda>_. [])(''plugin_storage'' := [sample_row])) [])) = Inr [storage_entry_from_row sample_row]"
  by code_simp

lemma query_collection_sound_witness:
  "visible_owned (e_ctx small_env) sample_row \<and> row_matches_where sample_row (qy_where sample_query) \<and>
   int (length [storage_entry_from_row sample_row]) \<le> 1"
  using query_collection_sound [OF run_pair [OF sample_query_run]]
  by (auto simp: small_world_def sample_query_def)

end
