(* ===== verification/OAuthLaws.thy ===== *)
theory OAuthLaws
  imports Executor
begin

text \<open>
  What the OAuth service guarantees: a session is redeemed once and never after its expiry, the
  browser's flow and the exchange are bound together by the stored session, secrets stay out of
  the rows, registration reuses only what matches, names for new connections are free.
\<close>

section \<open>Sessions\<close>

lemma eff_option_Inr:
  "(case x of None \<Rightarrow> eff_fail e | Some y \<Rightarrow> g y) w = (Inr b, w') \<longleftrightarrow> (\<exists>y. x = Some y \<and> g y w = (Inr b, w'))"
  by (cases x) auto

lemma owned_create:
  assumes "owned_table tbl" "\<not> read_only (e_ctx env)" "owned_keys (e_ctx env) ow = Inr keys"
  shows "core_create env tbl (keys @ ps) w =
    (let r = apply_defaults (e_auto env (w_ids w)) (tbl_columns tbl) (keys @ ps) in
     (Inr r, w\<lparr>w_db := (w_db w)(tbl_name tbl := w_db w (tbl_name tbl) @ [r]), w_ids := Suc (w_ids w)\<rparr>))"
proof -
  obtain n cols where tbl: "tbl = owned_executor_table n cols" using assms(1) by (auto simp: owned_table_def)
  have "run_create_policies tbl (keys @ ps) (e_ctx env) = Inr ()"
    using owned_keys_writable [OF assms(3,2)] by (simp add: run_create_policies_def tbl owned_executor_table_def)
  then show ?thesis by (simp add: core_create_def orm_create_def mem_create_def storage_def Let_def)
qed

lemma session_table_name [simp]: "tbl_name oauth_session_table = ''oauth_session''" "tbl_name oauth_client_table = ''oauth_client''"
  by (simp_all add: oauth_session_table_def oauth_client_table_def owned_executor_table_def)

definition sessions :: "'x exec_env \<Rightarrow> string \<Rightarrow> 'x world \<Rightarrow> row list" where
  "sessions env state w = filter (selects env (session_where state)) (w_db w ''oauth_session'')"

definition without_session :: "'x exec_env \<Rightarrow> string \<Rightarrow> 'x world \<Rightarrow> 'x world" where
  "without_session env state w =
     w\<lparr>w_db := (w_db w)(''oauth_session'' := filter (\<lambda>r. \<not> selects env (session_where state) r) (w_db w ''oauth_session''))\<rparr>"

lemma sessions_without [simp]: "sessions env state (without_session env state w) = []"
  by (simp add: sessions_def without_session_def)

lemma delete_session_exact:
  "\<not> read_only (e_ctx env) \<Longrightarrow> delete_session env state w = (Inr (), without_session env state w)"
  by (simp add: delete_session_def owned_delete without_session_def)

lemma find_session:
  "core_find_first env oauth_session_table (find_where (session_where state)) w =
     (Inr (case sessions env state w of [] \<Rightarrow> None | r # _ \<Rightarrow> Some r), w)"
proof -
  have "find P xs = (case filter P xs of [] \<Rightarrow> None | r # _ \<Rightarrow> Some r)" for P and xs :: "row list"
    by (induction xs) auto
  then show ?thesis by (simp add: owned_find_first sessions_def)
qed

lemma complete_unfold:
  "oauth_complete env inp w =
     (case sessions env (cp_state inp) w of
        [] \<Rightarrow> (Inl (session_not_found (cp_state inp)), w)
      | r # _ \<Rightarrow>
          eff_bind (session_expired env r) (\<lambda>expired.
             if expired then
               eff_bind (delete_session env (cp_state inp)) (\<lambda>_. eff_fail (session_not_found (cp_state inp)))
             else
               eff_bind (load_client env (session_client_owner env r) (row_str r ''client_slug'')) (\<lambda>loaded.
                 case loaded of
                   None \<Rightarrow> eff_fail (complete_error (''OAuth client not found: '' @ row_str r ''client_slug'') True)
                 | Some client \<Rightarrow>
                     (case opt_str (r ''pkce_verifier'') of
                        None \<Rightarrow> eff_fail (complete_error (''OAuth session '' @ cp_state inp
                          @ '' is missing its PKCE code verifier; restart the flow.'') True)
                      | Some verifier \<Rightarrow> redeem_session env inp r client verifier))) w)"
  by (simp add: oauth_complete_def eff_bind_def find_session split: list.split)

lemma complete_deletes:
  assumes "oauth_complete env inp w = (Inr c, w1)" "\<not> read_only (e_ctx env)"
  shows "sessions env (cp_state inp) w1 = []"
proof -
  from assms(1) obtain r client verifier v where "redeem_session env inp r client verifier v = (Inr c, w1)"
    by (auto simp: complete_unfold eff_bind_Inr eff_option_Inr split: list.splits if_splits)
  then show ?thesis
    by (auto simp: redeem_session_def Let_def eff_bind_Inr delete_session_exact [OF assms(2)])
qed

text \<open>C11: a session mints one connection: once a flow has been completed, completing its state again,
  with whatever code, finds no session, changes nothing and asks nobody.\<close>

theorem session_redeemed_once:
  assumes "oauth_complete env inp w = (Inr c, w1)" "\<not> read_only (e_ctx env)"
  shows "oauth_complete env \<lparr>cp_state = cp_state inp, cp_code = code, cp_callback_domain = cb\<rparr> w1 =
    (Inl (session_not_found (cp_state inp)), w1)"
  using complete_deletes [OF assms] by (simp add: complete_unfold)

text \<open>An expired session is never redeemed: the session is dropped and reported as not found, before
  any credential is read and without a request to the authorization server; nothing else
  changes.\<close>

theorem expired_session_refused:
  assumes "sessions env (cp_state inp) w = r # rs" "to_number (r ''expires_at'') = Some e" "e \<le> e_now env (w_clock w)"
    and "\<not> read_only (e_ctx env)"
  shows "oauth_complete env inp w =
    (Inl (session_not_found (cp_state inp)), without_session env (cp_state inp) (w\<lparr>w_clock := Suc (w_clock w)\<rparr>))"
  using assms by (simp add: complete_unfold session_expired_def eff_map_def eff_bind_def now_def delete_session_exact)

section \<open>From the start of a flow to its completion\<close>

lemma start_redirect:
  assumes "oauth_start env inp w = (Inr (Redirect url state), w1)"
  shows "\<exists>keys name client policy requested v v0.
    load_client env (sn_client_owner inp) (sn_client inp) w = (Inr (Some client), v0) \<and>
    owned_keys (e_ctx env) (sn_owner inp) = Inr keys \<and> \<not> (sn_owner inp = Org \<and> sn_client_owner inp = User) \<and>
    lc_grant client \<noteq> ClientCredentials \<and>
    start_authorization_code env inp keys name client policy requested v = (Inr (Redirect url state), w1)"
proof -
  have cc: "start_client_credentials env inp name client requested v \<noteq> (Inr (Redirect url state), w1)" for name client requested v
    by (auto simp: start_client_credentials_def eff_bind_Inr)
  from assms show ?thesis
    by (auto simp: oauth_start_def eff_bind_Inr eff_option_Inr owned_keys_or_def eff_lift_def cc split: if_splits sum.splits) blast+
qed

definition stored_session ::
  "'x exec_env \<Rightarrow> start_input \<Rightarrow> string \<Rightarrow> string \<Rightarrow> string \<Rightarrow> string \<Rightarrow> string list \<Rightarrow> int \<Rightarrow> row \<Rightarrow> bool" where
  "stored_session env inp name redirect verifier state scopes expires r \<longleftrightarrow>
     selects env (session_where state) r \<and>
     session_target r = \<lparr>mt_owner = sn_owner inp, mt_name = name, mt_integration = sn_integration inp,
       mt_template = sn_template inp, mt_identity_label = sn_identity_label inp\<rparr> \<and>
     row_str r ''client_slug'' = sn_client inp \<and> session_client_owner env r = sn_client_owner inp \<and>
     opt_str (r ''pkce_verifier'') = Some verifier \<and> row_str r ''redirect_url'' = redirect \<and>
     requested_scopes_from_payload (x_json env) (r ''payload'') = Some scopes \<and>
     to_number (r ''expires_at'') = Some expires"

lemma session_row_stored:
  assumes "owned_keys (e_ctx env) (sn_owner inp) = Inr keys" "\<not> read_only (e_ctx env)"
  shows "stored_session env inp name redirect verifier state scopes expires
    (apply_defaults a (tbl_columns oauth_session_table) (session_row inp name keys redirect verifier state scopes created expires))"
proof -
  let ?v = "session_row inp name keys redirect verifier state scopes created expires"
  let ?r = "apply_defaults a (tbl_columns oauth_session_table) ?v"
  have cols: "{''tenant'', ''owner'', ''subject'', ''state'', ''client_slug'', ''integration'', ''name'', ''template'',
      ''redirect_url'', ''pkce_verifier'', ''identity_label'', ''payload'', ''expires_at''} \<subseteq> col_name ` set (tbl_columns oauth_session_table)"
    by (simp add: oauth_session_table_def owned_executor_table_def key_column_def text_column_def nullable_column_def)
  have vis: "visible_owned (e_ctx env) ?r"
    by (rule visible_owned_created [of "''oauth_session''"])
      (use owned_keys_writable [OF assms] cols in \<open>auto simp: session_row_def\<close>)
  have given: "?r k = prop_of ?v k"
    if "k \<in> col_name ` set (tbl_columns oauth_session_table)" "prop_of ?v k \<noteq> JUndef" for k
    using that by (rule apply_defaults_given)
  obtain sub where keys: "keys = [(''tenant'', JStr (oc_tenant (e_ctx env))), (''owner'', JStr (owner_text (sn_owner inp))), (''subject'', sub)]"
    using assms(1) by (auto simp: owned_keys_def split: owner.splits option.splits)
  have get: "?r k = x" if "k \<in> col_name ` set (tbl_columns oauth_session_table)" "prop_of ?v k = x" "x \<noteq> JUndef" for k x
    using given [OF that(1)] that(2,3) by simp
  have rs: "?r ''owner'' = JStr (owner_text (sn_owner inp))" "?r ''state'' = JStr state" "?r ''client_slug'' = JStr (sn_client inp)"
    "?r ''integration'' = JStr (sn_integration inp)" "?r ''name'' = JStr name" "?r ''template'' = JStr (sn_template inp)"
    "?r ''redirect_url'' = JStr redirect" "?r ''pkce_verifier'' = JStr verifier"
    "?r ''identity_label'' = jopt JStr (sn_identity_label inp)"
    "?r ''payload'' = JObj [(''owner'', JStr (owner_text (sn_owner inp))),
       (''clientOwner'', JStr (owner_text (sn_client_owner inp))), (''requestedScopes'', JArr (map JStr scopes))]"
    "?r ''expires_at'' = JNum expires"
    by (rule get; use cols in \<open>simp add: session_row_def keys prop_of_def jopt_def split: option.split\<close>)+
  have "concat (map (\<lambda>v. case v of JStr s \<Rightarrow> [s] | _ \<Rightarrow> []) (map JStr scopes)) = scopes" by (induction scopes) auto
  with rs vis show ?thesis
    by (cases "sn_owner inp"; cases "sn_client_owner inp")
      (auto simp: stored_session_def selects_def session_where_def cmp_val_def session_target_def row_owner_def row_str_def
        session_client_owner_def client_owner_from_payload_def requested_scopes_from_payload_def payload_object_def prop_of_def
        opt_str_def jopt_def Let_def split: option.split)
qed

lemma start_code_parts:
  assumes "start_authorization_code env inp keys name client policy requested v = (Inr (Redirect url state), w1)"
    and "owned_keys (e_ctx env) (sn_owner inp) = Inr keys" "\<not> read_only (e_ctx env)"
  shows "\<exists>redirect verifier scopes expires r. first_some (sn_redirect_uri inp) (od_redirect_uri (web_of env)) = Some redirect \<and>
    r \<in> set (w_db w1 ''oauth_session'') \<and> stored_session env inp name redirect verifier state scopes expires r \<and>
    build_authorization_url (wb_url (web_of env)) (wb_params (web_of env)) (wb_query (web_of env)) (wb_allow_http (web_of env))
      (authorization_request_of env client redirect scopes state verifier) = Inr url"
proof -
  from assms(1) obtain redirect scopes verifier created t x v1 where
    redirect: "first_some (sn_redirect_uri inp) (od_redirect_uri (web_of env)) = Some redirect" and
    create: "core_create env oauth_session_table
        (session_row inp name keys redirect verifier state scopes created (t + OAUTH2_SESSION_TTL_MS)) v1 = (Inr x, w1)"
    and url: "build_authorization_url (wb_url (web_of env)) (wb_params (web_of env)) (wb_query (web_of env)) (wb_allow_http (web_of env))
      (authorization_request_of env client redirect scopes state verifier) = Inr url"
    by (auto simp: start_authorization_code_def Let_def eff_bind_Inr eff_option_Inr eff_sum_Inr)
  obtain ps where ps: "session_row inp name keys redirect verifier state scopes created (t + OAUTH2_SESSION_TTL_MS) = keys @ ps"
    by (simp add: session_row_def)
  let ?r = "apply_defaults (e_auto env (w_ids v1)) (tbl_columns oauth_session_table)
    (session_row inp name keys redirect verifier state scopes created (t + OAUTH2_SESSION_TTL_MS))"
  have "?r \<in> set (w_db w1 ''oauth_session'')"
    using create unfolding ps owned_create [OF owned_tables(3) assms(3,2)] by (auto simp: Let_def)
  moreover have "stored_session env inp name redirect verifier state scopes (t + OAUTH2_SESSION_TTL_MS) ?r"
    by (rule session_row_stored [OF assms(2,3)])
  ultimately show ?thesis using redirect url by blast
qed

text \<open>
  What the browser and the exchange of a flow are to carry, spelled out over what the flow was started with: the
  authorization request, the token request, and the completion, which mints the connection the flow was started
  for and drops the session.
\<close>

definition browser_request ::
  "'x exec_env \<Rightarrow> loaded_client \<Rightarrow> string \<Rightarrow> string list \<Rightarrow> string \<Rightarrow> string \<Rightarrow> authorization_request" where
  "browser_request env client redirect scopes state verifier =
     \<lparr>ar_url = lc_authorization_url client, ar_client_id = lc_client_id client, ar_redirect_url = redirect,
      ar_scopes = scopes, ar_scope_separator = None,
      ar_state = encode_oauth_callback_state (wb_base64 (web_of env)) state (od_org_slug (web_of env)),
      ar_code_challenge = od_code_challenge (web_of env) verifier, ar_resource = lc_resource client,
      ar_extra = provider_authorize_extras (wb_url (web_of env)) (lc_authorization_url client)\<rparr>"

definition flow_exchange :: "'x exec_env \<Rightarrow> loaded_client \<Rightarrow> string \<Rightarrow> string \<Rightarrow> string \<Rightarrow> string \<Rightarrow> string + token_request" where
  "flow_exchange env app endpoint redirect verifier code =
     (case as_from_token_url (wb_url (web_of env)) (wb_allow_http (web_of env)) endpoint of
        Inl e \<Rightarrow> Inl e
      | Inr issuer \<Rightarrow> Inr
          \<lparr>tr_issuer = issuer, tr_endpoint = endpoint, tr_client_id = lc_client_id app,
           tr_auth = pick_client_auth (lc_client_secret app) False, tr_grant = ''authorization_code'',
           tr_params = [(''code'', code), (''redirect_uri'', redirect), (''code_verifier'', verifier)] @
             (case lc_resource app of Some r \<Rightarrow> if r = [] then [] else [(''resource'', r)] | None \<Rightarrow> []),
           tr_allow_insecure = allow_insecure_requests (wb_url (web_of env)) (wb_allow_http (web_of env)) endpoint\<rparr>)"

definition flow_completion ::
  "'x exec_env \<Rightarrow> start_input \<Rightarrow> string \<Rightarrow> string \<Rightarrow> string \<Rightarrow> string list \<Rightarrow> complete_input \<Rightarrow> loaded_client \<Rightarrow> ('x, connection_view) eff" where
  "flow_completion env inp name redirect verifier scopes cp app =
     (let endpoint = rebind_token_endpoint_host (wb_url (web_of env)) (lc_token_url app) (cp_callback_domain cp) in
      eff_bind (map_failure (\<lambda>e. complete_error (''OAuth code exchange failed: '' @ failure_message e) (failure_code e = Some ''invalid_grant''))
        (exchange env (flow_exchange env app endpoint redirect verifier (cp_code cp)))) (\<lambda>tok.
      eff_bind (map_failure (\<lambda>e. complete_error (''Failed to mint OAuth connection: '' @ failure_message e) False)
        (mint_from_token env
          \<lparr>mt_owner = sn_owner inp, mt_name = name, mt_integration = sn_integration inp, mt_template = sn_template inp,
           mt_identity_label = sn_identity_label inp\<rparr> app tok scopes (sn_client_owner inp)
          (if endpoint = lc_token_url app then None else Some endpoint))) (\<lambda>conn.
      eff_bind (core_delete_many env oauth_session_table (Some (cmp_val ''state'' OpEq (JStr (cp_state cp))))) (\<lambda>_.
        eff_return conn))))"

lemma flow_exchange: "authorization_code_request (wb_url (web_of env)) (wb_allow_http (web_of env)) endpoint (lc_client_id app)
    (lc_client_secret app) redirect verifier code (lc_resource app) = flow_exchange env app endpoint redirect verifier code"
  by (auto simp: authorization_code_request_def flow_exchange_def nonempty_def err_bind_def split: sum.split option.split)

lemma redeem_stored:
  assumes "stored_session env inp name redirect verifier state scopes expires r"
  shows "redeem_session env cp r app verifier = flow_completion env inp name redirect verifier scopes cp app"
  using assms
  by (simp add: stored_session_def redeem_session_def flow_completion_def flow_exchange delete_session_def session_where_def Let_def)

text \<open>C12: a flow is bound by the session it stores. When a start hands out a URL for the browser, a session is stored under
  the flow's state, and the URL is that of the request whose challenge is of the stored verifier, whose redirect URL is
  the stored one and the one the start was to use, and whose client is the app loaded from the owner named. Completing that state while the session lasts, in whatever world,
  loads that app from that owner and does exactly this: it sends, to the app's token endpoint (rebound to the
  callback's site), the code with the stored redirect URL and verifier under the app's identity, mints the connection the flow was started for with the
  scopes asked for, and deletes the session. A workspace connection is never for a private app.\<close>

theorem flow_bound_by_session:
  assumes "oauth_start env inp w = (Inr (Redirect url state), w1)" "\<not> read_only (e_ctx env)"
  shows "\<exists>client w0 name redirect verifier scopes expires r.
    load_client env (sn_client_owner inp) (sn_client inp) w = (Inr (Some client), w0) \<and>
    first_some (sn_redirect_uri inp) (od_redirect_uri (web_of env)) = Some redirect \<and>
    r \<in> set (w_db w1 ''oauth_session'') \<and> stored_session env inp name redirect verifier state scopes expires r \<and>
    \<not> (sn_owner inp = Org \<and> sn_client_owner inp = User) \<and>
    build_authorization_url (wb_url (web_of env)) (wb_params (web_of env)) (wb_query (web_of env)) (wb_allow_http (web_of env))
      (browser_request env client redirect scopes state verifier) = Inr url \<and>
    (\<forall>cp w2 rs. cp_state cp = state \<and> sessions env state w2 = r # rs \<and> e_now env (w_clock w2) < expires \<longrightarrow>
       oauth_complete env cp w2 =
         eff_bind (load_client env (sn_client_owner inp) (sn_client inp)) (\<lambda>loaded.
           case loaded of
             None \<Rightarrow> eff_fail (complete_error (''OAuth client not found: '' @ sn_client inp) True)
           | Some app \<Rightarrow> flow_completion env inp name redirect verifier scopes cp app) (w2\<lparr>w_clock := Suc (w_clock w2)\<rparr>))"
proof -
  obtain keys name client policy requested v v0 where
    loaded: "load_client env (sn_client_owner inp) (sn_client inp) w = (Inr (Some client), v0)"
    and k: "owned_keys (e_ctx env) (sn_owner inp) = Inr keys" "\<not> (sn_owner inp = Org \<and> sn_client_owner inp = User)"
    and sac: "start_authorization_code env inp keys name client policy requested v = (Inr (Redirect url state), w1)"
    using start_redirect [OF assms(1)] by blast
  obtain redirect verifier scopes expires r where
    r: "first_some (sn_redirect_uri inp) (od_redirect_uri (web_of env)) = Some redirect"
      "r \<in> set (w_db w1 ''oauth_session'')" "stored_session env inp name redirect verifier state scopes expires r"
    and url: "build_authorization_url (wb_url (web_of env)) (wb_params (web_of env)) (wb_query (web_of env)) (wb_allow_http (web_of env))
      (browser_request env client redirect scopes state verifier) = Inr url"
    using start_code_parts [OF sac k(1) assms(2)] unfolding authorization_request_of_def browser_request_def by blast
  have complete: "oauth_complete env cp w2 =
         eff_bind (load_client env (sn_client_owner inp) (sn_client inp)) (\<lambda>loaded.
           case loaded of
             None \<Rightarrow> eff_fail (complete_error (''OAuth client not found: '' @ sn_client inp) True)
           | Some app \<Rightarrow> flow_completion env inp name redirect verifier scopes cp app) (w2\<lparr>w_clock := Suc (w_clock w2)\<rparr>)"
    if "cp_state cp = state" "sessions env state w2 = r # rs" "e_now env (w_clock w2) < expires" for cp w2 rs
  proof -
    have s: "to_number (r ''expires_at'') = Some expires" "session_client_owner env r = sn_client_owner inp"
      "row_str r ''client_slug'' = sn_client inp" "opt_str (r ''pkce_verifier'') = Some verifier"
      using r(3) by (simp_all add: stored_session_def)
    have run: "session_expired env r w2 = (Inr False, w2\<lparr>w_clock := Suc (w_clock w2)\<rparr>)"
      using that(3) by (simp add: session_expired_def s(1) eff_map_def eff_bind_def now_def)
    show ?thesis
      by (simp add: complete_unfold that(1,2) eff_bind_step [where m = "session_expired env r" and w = w2, OF run] s
          redeem_stored [OF r(3)] cong: option.case_cong)
  qed
  show ?thesis
    by (intro exI conjI allI impI) (rule loaded r k(2) url | elim conjE, rule complete)+
qed

section \<open>Names for new connections\<close>

definition name_is_free :: "'x exec_env \<Rightarrow> start_input \<Rightarrow> string \<Rightarrow> row list \<Rightarrow> bool" where
  "name_is_free env inp name rows \<longleftrightarrow>
     find (selects env (connection_where env \<lparr>rf_owner = sn_owner inp, rf_integration = sn_integration inp, rf_name = name\<rparr>)) rows = None"

lemma name_taken_exact:
  "connection_name_taken env inp name w = (Inr (\<not> name_is_free env inp name (w_db w ''connection'')), w)"
  by (simp add: connection_name_taken_def eff_map_def eff_bind_def find_connection_row_exact name_is_free_def)

definition candidate_name :: "start_input \<Rightarrow> nat \<Rightarrow> string" where
  "candidate_name inp n = (if n = 1 then sn_name inp else sn_name inp @ nat_digits n)"

definition no_free_name :: "start_input \<Rightarrow> failure" where
  "no_free_name inp = start_error (''No free connection name derivable from '' @ sn_name inp @ ''.'')"

lemma name_loop_exact:
  "1 \<le> n \<Longrightarrow> n \<le> 1000 \<Longrightarrow> name_loop env inp (candidate_name inp n) (Suc n) w =
     (case find (\<lambda>k. name_is_free env inp (candidate_name inp k) (w_db w ''connection'')) [n..<1001] of
        Some k \<Rightarrow> (Inr (candidate_name inp k), w) | None \<Rightarrow> (Inl (no_free_name inp), w))"
proof (induction "1000 - n" arbitrary: n)
  case 0
  then have "n = 1000" by simp
  then show ?case
    by (subst name_loop.simps) (simp add: eff_bind_def name_taken_exact no_free_name_def upt_rec [of 1000])
next
  case (Suc x)
  have next_name: "sn_name inp @ nat_digits (Suc n) = candidate_name inp (Suc n)" using Suc.prems by (simp add: candidate_name_def)
  have "[n..<1001] = n # [Suc n..<1001]" using Suc.prems by (simp add: upt_conv_Cons)
  moreover have "name_loop env inp (candidate_name inp (Suc n)) (Suc (Suc n)) w =
     (case find (\<lambda>k. name_is_free env inp (candidate_name inp k) (w_db w ''connection'')) [Suc n..<1001] of
        Some k \<Rightarrow> (Inr (candidate_name inp k), w) | None \<Rightarrow> (Inl (no_free_name inp), w))"
    using Suc by (intro Suc.hyps(1)) auto
  moreover have "\<not> 1000 < Suc n" using Suc by simp
  ultimately show ?case
    by (subst name_loop.simps) (simp add: eff_bind_def name_taken_exact next_name)
qed

lemma free_name_exact:
  assumes "sn_new_connection inp"
  shows "free_connection_name env inp w =
     (case find (\<lambda>k. name_is_free env inp (candidate_name inp k) (w_db w ''connection'')) [1..<1001] of
        Some k \<Rightarrow> (Inr (candidate_name inp k), w) | None \<Rightarrow> (Inl (no_free_name inp), w))"
proof -
  have one: "candidate_name inp 1 = sn_name inp" "Suc 1 = 2" by (simp_all add: candidate_name_def)
  from name_loop_exact [of 1 env inp w, unfolded one] assms show ?thesis by (simp add: free_connection_name_def)
qed

text \<open>A new connection gets a free name, whatever is stored: the name asked for if no stored row has it,
  otherwise the first free one with a suffix from 2 to 1000; the search always ends, changes
  nothing, and fails exactly when all thousand names are taken.\<close>

theorem new_connection_name:
  assumes "sn_new_connection inp"
  shows "free_connection_name env inp w =
     (case find (\<lambda>k. name_is_free env inp (candidate_name inp k) (w_db w ''connection'')) [1..<1001] of
        Some k \<Rightarrow> (Inr (candidate_name inp k), w) | None \<Rightarrow> (Inl (no_free_name inp), w))"
  using assms by (rule free_name_exact)

text \<open>The name is looked up as it was given and stored as an identifier; and it is resolved when the flow
  starts, not when the connection is minted.\<close>

lemma name_checked_before_it_is_derived:
  assumes "sn_new_connection inp" "sn_name inp = ''My Gmail''"
    "\<forall>r \<in> set (w_db w ''connection''). is_connection_identifier (row_str r ''name'')"
  shows "free_connection_name env inp w = (Inr ''My Gmail'', w) \<and> connection_identifier ''My Gmail'' = ''myGmail''"
proof -
  have "\<not> selects env (connection_where env \<lparr>rf_owner = ow, rf_integration = i, rf_name = ''My Gmail''\<rparr>) r"
    if "is_connection_identifier (row_str r ''name'')" for ow i r
  proof
    assume "selects env (connection_where env \<lparr>rf_owner = ow, rf_integration = i, rf_name = ''My Gmail''\<rparr>) r"
    then have "r ''name'' = JStr ''My Gmail''"
      by (cases "r ''name''") (auto simp: selects_def connection_where_def by_owner_def cmp_val_def)
    moreover have "\<not> is_connection_identifier ''My Gmail''" by code_simp
    ultimately show False using that by (simp add: row_str_def)
  qed
  then have "name_is_free env inp (candidate_name inp 1) (w_db w ''connection'')"
    using assms(2,3) by (auto simp: name_is_free_def candidate_name_def find_None_iff)
  then have "find (\<lambda>k. name_is_free env inp (candidate_name inp k) (w_db w ''connection'')) [1..<1001] = Some 1"
    by (subst upt_conv_Cons) (simp_all only: find.simps if_True one_less_numeral_iff semiring_norm)
  moreover have "connection_identifier ''My Gmail'' = ''myGmail''" by code_simp
  ultimately show ?thesis using assms(2) by (simp only: free_name_exact [OF assms(1)] option.case candidate_name_def) simp
qed

lemma second_start_takes_the_same_name:
  assumes "sn_new_connection inp" "free_connection_name env inp w = (Inr name, w)" "w_db w1 ''connection'' = w_db w ''connection''"
  shows "free_connection_name env inp w1 = (Inr name, w1)"
  using assms(2) unfolding free_name_exact [OF assms(1)] assms(3) by (auto split: option.splits)

section \<open>Scopes that are discovered\<close>

lemma cap_scopes_bound: "length (cap_scopes ss) \<le> 100 \<and> distinct (cap_scopes ss)"
  by (simp add: cap_scopes_def MAX_DISCOVERED_SCOPES_def)

lemma scopes_of_servers_bound: "scopes_of_servers env issuers w = (Inr ss, w') \<Longrightarrow> length ss \<le> 100 \<and> distinct ss"
proof (induction issuers arbitrary: w)
  case (Cons i issuers)
  then show ?case using cap_scopes_bound by (auto simp: eff_bind_Inr split: option.splits)
qed simp

lemma discovered_scopes_bound:
  "discover_scopes_for_resource env r w = (Inr ss, w') \<Longrightarrow> length ss \<le> 100 \<and> distinct ss"
  using cap_scopes_bound
  by (auto simp: discover_scopes_for_resource_def eff_bind_Inr split: option.splits dest: scopes_of_servers_bound)

section \<open>Registered clients\<close>

text \<open>Effects that leave the stored clients alone. A provider may keep its secrets in the database, in another table, as the
  encrypted-secrets plugin does.\<close>

definition keeps_clients :: "('x, 'a) eff \<Rightarrow> bool" where
  "keeps_clients m \<longleftrightarrow> (\<forall>w. w_db (snd (m w)) ''oauth_client'' = w_db w ''oauth_client'')"

lemma keeps_clients_bind: "keeps_clients m \<Longrightarrow> (\<And>a. keeps_clients (f a)) \<Longrightarrow> keeps_clients (eff_bind m f)"
  by (auto simp: keeps_clients_def eff_bind_def split: prod.splits sum.splits) (metis snd_conv)+

lemma keeps_clients_simple:
  "keeps_clients (eff_return a)" "keeps_clients (eff_fail e)" "keeps_clients (eff_lift r)" "keeps_clients (now env)"
  by (simp_all add: keeps_clients_def eff_lift_def now_def)

lemma keeps_clients_catch: "keeps_clients m \<Longrightarrow> (\<And>e. keeps_clients (h e)) \<Longrightarrow> keeps_clients (eff_catch m h)"
  by (auto simp: keeps_clients_def eff_catch_def split: prod.splits sum.splits) (metis snd_conv)+

lemma keeps_clients_if: "keeps_clients m \<Longrightarrow> keeps_clients n \<Longrightarrow> keeps_clients (if b then m else n)"
  by simp

lemma keeps_clients_option: "keeps_clients m \<Longrightarrow> (\<And>y. x = Some y \<Longrightarrow> keeps_clients (f y)) \<Longrightarrow> keeps_clients (case x of None \<Rightarrow> m | Some y \<Rightarrow> f y)"
  by (cases x) auto

lemma keeps_clients_sum: "(\<And>a. keeps_clients (f a)) \<Longrightarrow> (\<And>b. keeps_clients (g b)) \<Longrightarrow> keeps_clients (case x of Inl a \<Rightarrow> f a | Inr b \<Rightarrow> g b)"
  by (cases x) auto

lemma keeps_clients_prod: "(\<And>a b. keeps_clients (f a b)) \<Longrightarrow> keeps_clients (case p of (a, b) \<Rightarrow> f a b)"
  by (cases p) auto

lemmas keeps_clients_intros = keeps_clients_bind keeps_clients_simple keeps_clients_catch keeps_clients_if keeps_clients_option keeps_clients_sum keeps_clients_prod

lemma keeps_clients_register:
  "(\<And>rq. keeps_clients (wb_http web rq)) \<Longrightarrow> keeps_clients (register_dynamic_client_dcr web e md t)"
  unfolding register_dynamic_client_dcr_def execute_text_def map_failure_def catch_failure_def
  by (intro keeps_clients_intros)

lemma keeps_clients_validate: "keeps_clients (validate_client_endpoints env inp)"
  unfolding validate_client_endpoints_def validate_supported_endpoint_def is_well_known_oauth_metadata_url_def
    same_url_def canonical_url_string_def parse_or_throw_def Let_def
  by (intro keeps_clients_intros)

lemma keeps_clientsD: "keeps_clients m \<Longrightarrow> m w = (r, w') \<Longrightarrow> w_db w' ''oauth_client'' = w_db w ''oauth_client''"
  by (metis keeps_clients_def snd_conv)

definition quiet_env :: "'x exec_env \<Rightarrow> bool" where
  "quiet_env env \<longleftrightarrow> (\<forall>rq. keeps_clients (wb_http (web_of env) rq)) \<and>
     (\<forall>pv put i v. default_writable_provider env = Some pv \<longrightarrow> pv_set pv = Some put \<longrightarrow> keeps_clients (put i v))"

lemma keeps_clients_secret: "quiet_env env \<Longrightarrow> keeps_clients (store_client_secret env ow slug s)"
  unfolding store_client_secret_def Let_def
  by (intro keeps_clients_intros) (auto simp: quiet_env_def bind_eq_Some_conv)

definition client_stored :: "'x exec_env \<Rightarrow> create_client_input \<Rightarrow> row \<Rightarrow> bool" where
  "client_stored env inp r \<longleftrightarrow>
     selects env (client_where (cc_owner inp) (cc_slug inp)) r \<and> r ''client_id'' = JStr (cc_client_id inp) \<and>
     r ''authorization_url'' = JStr (cc_authorization_url inp) \<and> r ''token_url'' = JStr (cc_token_url inp) \<and>
     r ''grant'' = JStr (grant_text (cc_grant inp)) \<and> r ''resource'' = jopt JStr (cc_resource inp) \<and>
     (is_dcr_origin inp \<longrightarrow> r ''origin_kind'' = JStr ''dynamic_client_registration'' \<and>
        r ''origin_redirect_uri'' = jopt JStr (cc_origin_redirect_uri inp))"

lemma client_row_stored:
  assumes "owned_keys (e_ctx env) (cc_owner inp) = Inr keys" "\<not> read_only (e_ctx env)"
  shows "client_stored env inp (apply_defaults a (tbl_columns oauth_client_table) (client_row env inp keys item t))"
proof -
  let ?v = "client_row env inp keys item t"
  let ?r = "apply_defaults a (tbl_columns oauth_client_table) ?v"
  have cols: "{''tenant'', ''owner'', ''subject'', ''slug'', ''authorization_url'', ''token_url'', ''grant'', ''client_id'',
      ''resource'', ''origin_kind'', ''origin_redirect_uri''} \<subseteq> col_name ` set (tbl_columns oauth_client_table)"
    by (simp add: oauth_client_table_def owned_executor_table_def key_column_def text_column_def nullable_column_def)
  have vis: "visible_owned (e_ctx env) ?r"
    by (rule visible_owned_created [of "''oauth_client''"])
      (use owned_keys_writable [OF assms] cols in \<open>auto simp: client_row_def\<close>)
  have given: "?r k = prop_of ?v k"
    if "k \<in> col_name ` set (tbl_columns oauth_client_table)" "prop_of ?v k \<noteq> JUndef" for k
    using that by (rule apply_defaults_given)
  obtain sub where keys: "keys = [(''tenant'', JStr (oc_tenant (e_ctx env))), (''owner'', JStr (owner_text (cc_owner inp))), (''subject'', sub)]"
    using assms(1) by (auto simp: owned_keys_def split: owner.splits option.splits)
  have get: "?r k = x" if "k \<in> col_name ` set (tbl_columns oauth_client_table)" "prop_of ?v k = x" "x \<noteq> JUndef" for k x
    using given [OF that(1)] that(2,3) by simp
  have "?r ''owner'' = JStr (owner_text (cc_owner inp))" "?r ''slug'' = JStr (cc_slug inp)"
    "?r ''client_id'' = JStr (cc_client_id inp)" "?r ''authorization_url'' = JStr (cc_authorization_url inp)"
    "?r ''token_url'' = JStr (cc_token_url inp)" "?r ''grant'' = JStr (grant_text (cc_grant inp))"
    "?r ''resource'' = jopt JStr (cc_resource inp)"
    "is_dcr_origin inp \<Longrightarrow> ?r ''origin_kind'' = JStr ''dynamic_client_registration''"
    "is_dcr_origin inp \<Longrightarrow> ?r ''origin_redirect_uri'' = jopt JStr (cc_origin_redirect_uri inp)"
    by (rule get; use cols in \<open>simp add: client_row_def keys prop_of_def jopt_def split: option.split\<close>)+
  with vis show ?thesis by (auto simp: client_stored_def selects_def client_where_def cmp_val_def)
qed

lemma create_client_rows:
  assumes "oauth_create_client env inp w = (Inr slug, w')" "\<not> read_only (e_ctx env)" "quiet_env env"
  shows "slug = cc_slug inp \<and> (\<exists>r. client_stored env inp r \<and> w_db w' ''oauth_client'' =
      filter (\<lambda>x. \<not> selects env (client_where (cc_owner inp) (cc_slug inp)) x) (w_db w ''oauth_client'') @ [r])"
proof -
  from assms(1) obtain keys t item v1 v2 v3 v4 v5 v6 x where
    1: "validate_client_endpoints env inp w = (Inr (), v1)" and
    2: "owned_keys_or env (cc_owner inp) ''Cannot write oauth_client for owner without a subject'' v1 = (Inr keys, v2)" and
    3: "now env v2 = (Inr t, v3)" and
    4: "store_client_secret env (cc_owner inp) (cc_slug inp) (cc_client_secret inp) v3 = (Inr item, v4)" and
    5: "eff_ignore (core_delete_many env oauth_client_table (Some (client_where (cc_owner inp) (cc_slug inp)))) v4 = (Inr (), v5)" and
    6: "core_create env oauth_client_table (client_row env inp keys item t) v5 = (Inr x, v6)" and
    7: "w' = v6" "slug = cc_slug inp"
    by (auto simp: oauth_create_client_def eff_bind_Inr)
  have k: "owned_keys (e_ctx env) (cc_owner inp) = Inr keys" "v2 = v1"
    using 2 by (auto simp: owned_keys_or_def eff_lift_def split: sum.splits)
  have "w_db v4 ''oauth_client'' = w_db w ''oauth_client''"
    using keeps_clientsD [OF keeps_clients_validate 1] k(2) keeps_clientsD [OF keeps_clients_simple(4) 3]
      keeps_clientsD [OF keeps_clients_secret [OF assms(3)] 4] by simp
  moreover have "w_db v5 = (w_db v4)(''oauth_client'' :=
      filter (\<lambda>x. \<not> selects env (client_where (cc_owner inp) (cc_slug inp)) x) (w_db v4 ''oauth_client''))"
    using 5 by (auto simp: eff_ignore_def owned_delete [OF owned_tables(2) assms(2)])
  moreover obtain ps where "client_row env inp keys item t = keys @ ps" by (simp add: client_row_def)
  with 6 have "w_db v6 = (w_db v5)(''oauth_client'' := w_db v5 ''oauth_client'' @
      [apply_defaults (e_auto env (w_ids v5)) (tbl_columns oauth_client_table) (client_row env inp keys item t)])"
    by (auto simp: owned_create [OF owned_tables(2) assms(2) k(1)] Let_def)
  ultimately show ?thesis using 7 client_row_stored [OF k(1) assms(2)] by auto
qed

lemma find_Some_set: "find P xs = Some x \<Longrightarrow> x \<in> set xs \<and> P x"
  by (auto simp: find_Some_iff)

lemma unique_free: "unique_dcr_slug slug used \<notin> set used"
  by (simp add: unique_dcr_slug_def next_suffix_free)

lemma decide_reuse_fresh:
  assumes "decide_reuse up inp issuer fr cs = Inr s"
  shows "s \<notin> dc_slug ` set cs"
proof -
  obtain base where "s = unique_dcr_slug base (map dc_slug cs)"
    using assms by (auto simp: decide_reuse_def Let_def split: option.splits if_splits)
  then show ?thesis using unique_free [of base "map dc_slug cs"] by simp
qed

lemma decide_reuse_fits:
  assumes "decide_reuse up inp issuer fr cs = Inl s"
  shows "\<exists>c \<in> set cs. dc_slug c = s \<and> dc_resource c = rd_resource inp \<and> redirect_matches fr c"
  using assms by (auto simp: decide_reuse_def Let_def dest!: find_Some_set split: option.splits if_splits)

text \<open>C14: registering a client reuses or adds, and clobbers no client that could have been reused: the slug
  handed back is that of a stored client of the owner and the issuer with the resource asked for
  and a callback that still fits, with nothing changed; or one client is stored under it, of that owner, with the endpoints, the
  resource and the callback asked for and marked as registered, the stored clients are the ones of before with it
  at the end, less those of the owner that had the slug, and none of these was a client of the issuer. The provider of
  the client's secret may write to any table but that of the clients.\<close>

theorem registration_spares_candidates:
  assumes "oauth_register_dynamic_client env inp w = (Inr slug, w')" "\<not> read_only (e_ctx env)" "quiet_env env"
    and "issuer = canonical_dcr_issuer (wb_url (web_of env)) (rd_issuer inp) (rd_registration_endpoint inp)"
    and "rows = filter (\<lambda>r. selects env (cmp_val ''owner'' OpEq (JStr (owner_text (rd_owner inp)))) r \<and>
                   dcr_candidate_of env issuer r \<noteq> None) (w_db w ''oauth_client'')"
    and "fr = first_some (rd_redirect_uri inp) (od_redirect_uri (web_of env))"
  shows "w' = w \<and> (\<exists>r \<in> set rows. \<exists>c. dcr_candidate_of env issuer r = Some c \<and> dc_slug c = slug \<and>
        dc_resource c = rd_resource inp \<and> redirect_matches fr c) \<or>
    (\<forall>r \<in> set rows. row_str r ''slug'' \<noteq> slug \<and> r \<in> set (w_db w' ''oauth_client'')) \<and>
    (\<exists>r. w_db w' ''oauth_client'' =
          filter (\<lambda>x. \<not> selects env (client_where (rd_owner inp) slug) x) (w_db w ''oauth_client'') @ [r] \<and>
        selects env (client_where (rd_owner inp) slug) r \<and>
        r ''authorization_url'' = JStr (rd_authorization_url inp) \<and> r ''token_url'' = JStr (rd_token_url inp) \<and>
        r ''resource'' = jopt JStr (rd_resource inp) \<and> r ''origin_kind'' = JStr ''dynamic_client_registration'' \<and>
        fr \<noteq> None \<and> r ''origin_redirect_uri'' = jopt JStr fr)"
proof -
  let ?cands = "js_sort compare_candidates (List.map_filter (dcr_candidate_of env issuer)
     (filter (selects env (cmp_val ''owner'' OpEq (JStr (owner_text (rd_owner inp))))) (w_db w ''oauth_client'')))"
  have cands: "c \<in> set ?cands \<longleftrightarrow> (\<exists>r \<in> set rows. dcr_candidate_of env issuer r = Some c)" for c
    by (auto simp: assms(5) List.map_filter_def image_iff)
  have slug_of: "dc_slug c = row_str r ''slug''" if "dcr_candidate_of env issuer r = Some c" for c r
    using that by (auto simp: dcr_candidate_of_def split: if_splits option.splits)
  have decide: "decide_dcr_client_reuse env inp issuer fr w = (Inr (decide_reuse (wb_url (web_of env)) inp issuer fr ?cands), w)"
    by (simp add: decide_dcr_client_reuse_def dcr_candidates_for_issuer_def eff_map_def eff_bind_def owned_find_many)
  show ?thesis
  proof (cases "decide_reuse (wb_url (web_of env)) inp issuer fr ?cands")
    case (Inl s)
    then have "s = slug" "w' = w"
      using assms(1) by (auto simp: oauth_register_dynamic_client_def Let_def eff_bind_Inr decide assms(4,6) [symmetric])
    moreover obtain c where c: "c \<in> set ?cands" "dc_slug c = s" "dc_resource c = rd_resource inp" "redirect_matches fr c"
      using decide_reuse_fits [OF Inl] by blast
    moreover obtain r where "r \<in> set rows" "dcr_candidate_of env issuer r = Some c" using c(1) cands by blast
    ultimately show ?thesis by (intro disjI1 conjI bexI [of _ r] exI [of _ c]) simp_all
  next
    case (Inr s)
    have fresh: "s \<notin> dc_slug ` set ?cands"
      by (rule decide_reuse_fresh [OF Inr])
    from assms(1) Inr obtain redirect info v v2 where fr: "fr = Some redirect" and
      register: "map_failure (registration_failed env redirect) (register_dynamic_client_dcr (web_of env) (rd_registration_endpoint inp)
         (registration_metadata inp redirect) None) w = (Inr info, v)"
      and create: "oauth_create_client env (registered_client inp s issuer redirect info) v = (Inr v2, w')" and s: "slug = s"
      by (auto simp: oauth_register_dynamic_client_def Let_def eff_bind_Inr eff_option_Inr decide assms(4,6) [symmetric])
    have "keeps_clients (map_failure (registration_failed env redirect) (register_dynamic_client_dcr (web_of env)
        (rd_registration_endpoint inp) (registration_metadata inp redirect) None))"
      unfolding map_failure_def catch_failure_def
      using assms(3) by (intro keeps_clients_intros keeps_clients_register) (auto simp: quiet_env_def)
    with register have v: "w_db v ''oauth_client'' = w_db w ''oauth_client''" by (blast dest: keeps_clientsD)
    obtain r where r: "client_stored env (registered_client inp s issuer redirect info) r" "w_db w' ''oauth_client'' =
        filter (\<lambda>x. \<not> selects env (client_where (rd_owner inp) s) x) (w_db w ''oauth_client'') @ [r]"
      using create_client_rows [OF create assms(2,3)] v by (auto simp: registered_client_def)
    have spared: "r \<in> set (w_db w' ''oauth_client'') \<and> row_str r ''slug'' \<noteq> slug" if mem: "r \<in> set rows" for r
    proof -
      obtain c where c: "dcr_candidate_of env issuer r = Some c" using mem by (auto simp: assms(5))
      with fresh cands mem have "dc_slug c \<noteq> s" by blast
      then have ne: "row_str r ''slug'' \<noteq> slug" using slug_of [OF c] s by simp
      have "\<not> selects env (client_where (rd_owner inp) s) r"
      proof
        assume "selects env (client_where (rd_owner inp) s) r"
        then have "r ''slug'' = JStr s" by (cases "r ''slug''") (auto simp: selects_def client_where_def cmp_val_def)
        with ne s show False by (simp add: row_str_def)
      qed
      moreover have "r \<in> set (w_db w ''oauth_client'')" using mem by (simp add: assms(5))
      ultimately show ?thesis using ne by (simp add: r(2))
    qed
    have "selects env (client_where (rd_owner inp) slug) r \<and> r ''authorization_url'' = JStr (rd_authorization_url inp) \<and>
        r ''token_url'' = JStr (rd_token_url inp) \<and> r ''resource'' = jopt JStr (rd_resource inp) \<and>
        r ''origin_kind'' = JStr ''dynamic_client_registration'' \<and> fr \<noteq> None \<and> r ''origin_redirect_uri'' = jopt JStr fr"
      using r(1) by (simp add: client_stored_def registered_client_def is_dcr_origin_def s fr)
    then show ?thesis using spared r(2) s by (intro disjI2 conjI ballI exI [of _ r]) simp_all
  qed
qed

text \<open>A stored session of the user, a client of the organization, and a database that holds both.\<close>

definition app_row :: row where
  "app_row = prop_of (org_keys @ [(''slug'', JStr ''app''), (''authorization_url'', JStr ''https://id.test/authorize''),
     (''token_url'', JStr ''https://id.test/token''), (''grant'', JStr ''authorization_code''), (''client_id'', JStr ''c1''),
     (''origin_kind'', JStr ''dynamic_client_registration''), (''origin_issuer'', JStr ''https://id.test/mcp'')])"

definition flow_row :: "int \<Rightarrow> row" where
  "flow_row expires = prop_of (org_keys @ [(''state'', JStr ''s1''), (''client_slug'', JStr ''app''), (''integration'', JStr ''api''),
     (''name'', JStr ''extra''), (''template'', JStr ''key''), (''redirect_url'', JStr ''https://host.test/cb''),
     (''pkce_verifier'', JStr ''v1''), (''expires_at'', JNum expires)])"

definition flow_db :: "int \<Rightarrow> db" where
  "flow_db expires = (\<lambda>_. [])(''integration'' := [api_row], ''oauth_client'' := [app_row], ''oauth_session'' := [flow_row expires])"

definition callback :: complete_input where
  "callback = \<lparr>cp_state = ''s1'', cp_code = ''code'', cp_callback_domain = None\<rparr>"

definition begin_flow :: start_input where
  "begin_flow = \<lparr>sn_client = ''app'', sn_client_owner = Org, sn_owner = User, sn_name = ''main'', sn_integration = ''api'',
     sn_template = ''key'', sn_identity_label = None, sn_new_connection = True, sn_redirect_uri = None\<rparr>"

lemma small_writes: "\<not> read_only (e_ctx small_env)"
  by (simp add: small_env_def small_ctx_def read_only_def)

text \<open>The small executor without its plugin: the connection is minted, and no catalogue is read.\<close>

definition bare_env :: "items exec_env" where
  "bare_env = small_env\<lparr>x_plugins := []\<rparr>"

lemma bare_writes: "\<not> read_only (e_ctx bare_env)"
  by (simp add: bare_env_def small_env_def small_ctx_def read_only_def)

lemma flow_completes: "\<not> isl (fst (oauth_complete bare_env callback (small_world (flow_db 900000) [])))"
  by code_simp

lemma flow_starts:
  "(case fst (oauth_start bare_env begin_flow (small_world (flow_db 0) [])) of Inr (Redirect _ s) \<Rightarrow> s | _ \<Rightarrow> []) = ''state1''"
  by code_simp

text \<open>The instances of the theorems above.\<close>

lemma session_redeemed_once_witness:
  "\<exists>c w1. oauth_complete bare_env callback (small_world (flow_db 900000) []) = (Inr c, w1) \<and>
     oauth_complete bare_env (callback\<lparr>cp_code := ''again''\<rparr>) w1 = (Inl (session_not_found ''s1''), w1)"
proof -
  obtain c where "fst (oauth_complete bare_env callback (small_world (flow_db 900000) [])) = Inr c"
    using flow_completes by (cases "fst (oauth_complete bare_env callback (small_world (flow_db 900000) []))") auto
  note run = run_pair [OF this]
  have "cp_state callback = ''s1''" "\<lparr>cp_state = cp_state callback, cp_code = ''again'', cp_callback_domain = None\<rparr> = callback\<lparr>cp_code := ''again''\<rparr>"
    by (simp_all add: callback_def)
  with run session_redeemed_once [OF run bare_writes, of "''again''" None] show ?thesis by metis
qed

lemma flow_session: "sessions bare_env ''s1'' (small_world (flow_db n) []) = [flow_row n]"
proof -
  have "selects bare_env (session_where ''s1'') (flow_row n)"
    by (simp add: selects_def session_where_def cmp_val_def flow_row_def org_keys_def prop_of_def bare_env_def small_env_def
        small_ctx_def visible_owned_def)
  then show ?thesis by (simp add: sessions_def small_world_def flow_db_def)
qed

lemma expired_session_refused_witness:
  "oauth_complete bare_env callback (small_world (flow_db 0) []) =
     (Inl (session_not_found ''s1''), without_session bare_env ''s1'' ((small_world (flow_db 0) [])\<lparr>w_clock := 1\<rparr>))"
proof -
  have "sessions bare_env (cp_state callback) (small_world (flow_db 0) []) = [flow_row 0]"
    using flow_session by (simp add: callback_def)
  moreover have "to_number (flow_row 0 ''expires_at'') = Some 0" by code_simp
  moreover have "(0 :: int) \<le> e_now bare_env (w_clock (small_world (flow_db 0) []))" "cp_state callback = ''s1''"
    "w_clock (small_world (flow_db 0) []) = 0"
    by (simp_all add: bare_env_def small_env_def callback_def small_world_def)
  ultimately show ?thesis using expired_session_refused [OF _ _ _ bare_writes] by (metis One_nat_def)
qed

lemma flow_bound_by_session_witness:
  "\<exists>url w1. oauth_start bare_env begin_flow (small_world (flow_db 0) []) = (Inr (Redirect url ''state1''), w1) \<and>
     (\<exists>r \<in> set (w_db w1 ''oauth_session''). session_client_owner bare_env r = Org \<and> row_str r ''client_slug'' = ''app'')"
proof -
  obtain url where "fst (oauth_start bare_env begin_flow (small_world (flow_db 0) [])) = Inr (Redirect url ''state1'')"
    using flow_starts by (auto split: sum.splits connect_result.splits)
  note run = run_pair [OF this]
  have "sn_client_owner begin_flow = Org" "sn_client begin_flow = ''app''" by (simp_all add: begin_flow_def)
  with run flow_bound_by_session [OF run bare_writes] show ?thesis unfolding stored_session_def by metis
qed

lemma new_connection_name_witness:
  "sn_new_connection begin_flow \<and> free_connection_name bare_env begin_flow (small_world (flow_db 0) []) = (Inr ''main'', small_world (flow_db 0) [])"
proof -
  have new: "sn_new_connection begin_flow" by (simp add: begin_flow_def)
  have "find (\<lambda>k. name_is_free bare_env begin_flow (candidate_name begin_flow k) (w_db (small_world (flow_db 0) []) ''connection'')) [1..<1001] = Some 1"
    by (subst upt_conv_Cons) (simp_all add: name_is_free_def small_world_def flow_db_def del: upt_Suc upt_conv_Cons)
  with new_connection_name [OF new, of bare_env "small_world (flow_db 0) []"] new show ?thesis
    by (simp add: candidate_name_def begin_flow_def del: upt_Suc)
qed

text \<open>A registration endpoint that answers, with an issuer per path.\<close>

definition issuer_url :: "string \<Rightarrow> js_url option" where
  "issuer_url v = map_of
     [(''https://id.test/a'', simple_url ''id.test'' ''/a''), (''https://id.test/b'', simple_url ''id.test'' ''/b''),
      (''https://id.test/register'', simple_url ''id.test'' ''/register''),
      (''https://id.test/authorize'', simple_url ''id.test'' ''/authorize''),
      (''https://id.test/token'', simple_url ''id.test'' ''/token'')] v"

definition registrar :: "items exec_env" where
  "registrar = bare_env\<lparr>x_oauth := small_oauth\<lparr>wb_url := issuer_url, wb_http := (\<lambda>_. eff_return (Some (201, ''client''))),
     wb_json := (\<lambda>_. Some (JObj [(''client_id'', JStr ''c2'')]))\<rparr>\<rparr>"

definition register_for :: "string \<Rightarrow> register_dynamic_input" where
  "register_for issuer = \<lparr>rd_owner = Org, rd_slug = ''s'', rd_issuer = Some issuer,
     rd_registration_endpoint = ''https://id.test/register'', rd_authorization_url = ''https://id.test/authorize'',
     rd_token_url = ''https://id.test/token'', rd_resource = None, rd_scopes = [], rd_auth_methods = None,
     rd_client_name = None, rd_redirect_uri = None, rd_origin_integration = None\<rparr>"

definition tenant_a_row :: row where
  "tenant_a_row = prop_of (org_keys @ [(''slug'', JStr ''dcr-id-test''), (''grant'', JStr ''authorization_code''),
     (''origin_kind'', JStr ''dynamic_client_registration''), (''origin_issuer'', JStr ''https://id.test/a''),
     (''origin_redirect_uri'', JStr ''https://old.test/cb'')])"

definition clients_db :: db where
  "clients_db = (\<lambda>_. [])(''oauth_client'' := [tenant_a_row])"

lemma registers_beside:
  "fst (oauth_register_dynamic_client registrar (register_for ''https://id.test/a'') (small_world clients_db [])) = Inr ''dcr-id-test-2''"
  by code_simp

lemma quiet_registrar: "quiet_env registrar"
  by (auto simp: quiet_env_def registrar_def bare_env_def small_env_def keeps_clients_def default_writable_provider_def vault_def
      vault_set_def small_oauth_def split: if_splits)

lemma tenant_a_selected: "selects registrar (cmp_val ''owner'' OpEq (JStr ''org'')) tenant_a_row"
  by (simp add: selects_def cmp_val_def tenant_a_row_def org_keys_def prop_of_def registrar_def bare_env_def small_env_def
      small_ctx_def visible_owned_def)

lemma tenant_a_candidate:
  "row_str tenant_a_row ''slug'' = ''dcr-id-test''"
  "dcr_candidate_of registrar (Some ''https://id.test/a'') tenant_a_row \<noteq> None"
  by code_simp+

lemma registration_spares_candidates_witness:
  "\<exists>w'. oauth_register_dynamic_client registrar (register_for ''https://id.test/a'') (small_world clients_db []) = (Inr ''dcr-id-test-2'', w') \<and>
     tenant_a_row \<in> set (w_db w' ''oauth_client'')"
proof -
  note run = run_pair [OF registers_beside]
  have issuer: "Some ''https://id.test/a'' = canonical_dcr_issuer (wb_url (web_of registrar)) (rd_issuer (register_for ''https://id.test/a''))
      (rd_registration_endpoint (register_for ''https://id.test/a''))" by code_simp
  have db: "w_db (small_world clients_db []) ''oauth_client'' = [tenant_a_row]" "rd_owner (register_for ''https://id.test/a'') = Org"
    "owner_text Org = ''org''"
    by (simp_all add: small_world_def clients_db_def register_for_def)
  have writes: "\<not> read_only (e_ctx registrar)" using bare_writes by (simp add: registrar_def)
  let ?rows = "filter (\<lambda>r. selects registrar (cmp_val ''owner'' OpEq (JStr (owner_text (rd_owner (register_for ''https://id.test/a''))))) r \<and>
      dcr_candidate_of registrar (Some ''https://id.test/a'') r \<noteq> None) (w_db (small_world clients_db []) ''oauth_client'')"
  have rows: "?rows = [tenant_a_row]" using tenant_a_selected tenant_a_candidate by (simp add: db)
  have "''dcr-id-test'' \<noteq> ''dcr-id-test-2''" by simp
  moreover from registration_spares_candidates [OF run writes quiet_registrar issuer refl refl] have
    "row_str tenant_a_row ''slug'' = ''dcr-id-test-2'' \<or> tenant_a_row \<in> set (w_db (snd (oauth_register_dynamic_client registrar
       (register_for ''https://id.test/a'') (small_world clients_db []))) ''oauth_client'')"
    unfolding rows by (auto simp: dcr_candidate_of_def split: if_splits option.splits)
  ultimately show ?thesis using run tenant_a_candidate(1) by metis
qed

text \<open>Two issuers on one host get one slug, and the clients of other issuers are not among the taken slugs:
  registering for the second replaces the client of the first.\<close>

lemma issuers_of_a_host_collide:
  "map (\<lambda>r. (row_str r ''slug'', row_str r ''origin_issuer''))
     (w_db (snd (oauth_register_dynamic_client registrar (register_for ''https://id.test/b'') (small_world clients_db []))) ''oauth_client'') =
   [(''dcr-id-test'', ''https://id.test/b'')]"
  by code_simp

text \<open>Only the first client with the resource asked for is looked at: when its callback is stale, a later
  one that fits is never reused, and every registration adds another.\<close>

lemma stale_first_client_hides_others:
  assumes "rd_resource inp = Some r" "dc_resource c = Some r" "\<not> redirect_matches fr c"
  shows "\<exists>slug. decide_reuse up inp issuer fr (c # cs) = Inr slug"
  using assms by (simp add: decide_reuse_def Let_def)

text \<open>A URL that does not parse kills the probe with a defect instead of failing it.\<close>

lemma probe_of_no_url_is_a_defect:
  "fst (oauth_probe registrar ''mcp'' (small_world clients_db [])) = Inl (type_error ''Invalid URL'')"
  by code_simp

end
