(* ===== verification/Admin.thy ===== *)
theory Admin
  imports ServiceLaws SmallExecutor Complex_Main
begin

text \<open>
  The platform view (\<open>makeAdmin\<close> and \<open>normalizeAdminPaging\<close> in \<open>sdk/src/executor.ts\<close>): the
  principals of a tenant and what they have connected, read through a context that reaches the
  whole tenant. Every list is bounded, its pages partition the principals, and nothing it shows
  depends on a column that holds or points to a credential.
\<close>

section \<open>Paging\<close>

definition ADMIN_DEFAULT_PAGE_SIZE :: int where
  "ADMIN_DEFAULT_PAGE_SIZE = 100"

definition ADMIN_MAX_PAGE_SIZE :: int where
  "ADMIN_MAX_PAGE_SIZE = 500"

text \<open>A finite number can be fractional here, so it is a rational.\<close>

record admin_options =
  ad_limit :: "rat option"
  ad_offset :: "rat option"

definition normalize_admin_paging :: "admin_options option \<Rightarrow> int \<times> int" where
  "normalize_admin_paging options =
     (let requested = (case Option.bind options ad_limit of None \<Rightarrow> of_int ADMIN_DEFAULT_PAGE_SIZE | Some l \<Rightarrow> l);
          limit = min (max \<lfloor>requested\<rfloor> 1) ADMIN_MAX_PAGE_SIZE;
          offset = max \<lfloor>case Option.bind options ad_offset of None \<Rightarrow> 0 | Some f \<Rightarrow> f\<rfloor> 0
      in (limit, offset))"

section \<open>What is shown\<close>

record admin_subject =
  as_external_id :: string
  as_created_at :: "int option"
  as_last_seen_at :: "int option"
  as_status :: jsval

record admin_connection =
  ac_owner :: owner
  ac_subject :: jsval
  ac_integration :: string
  ac_name :: string
  ac_oauth_scope :: "string option"
  ac_last_health :: "jsval option"

text \<open>\<open>new Date (v)\<close>, \<open>None\<close> for an invalid date.\<close>

definition date_column :: "(string \<Rightarrow> int option) \<Rightarrow> jsval \<Rightarrow> int option" where
  "date_column date_parse v = (case v of JDate t \<Rightarrow> Some t | JStr s \<Rightarrow> date_parse s | _ \<Rightarrow> to_number v)"

definition row_to_admin_subject :: "'x exec_env \<Rightarrow> row \<Rightarrow> admin_subject" where
  "row_to_admin_subject env r =
     \<lparr>as_external_id = row_str r ''external_id'',
      as_created_at = date_column (od_date_parse (x_oauth env)) (r ''created_at''),
      as_last_seen_at = (if nullish (r ''last_seen_at'') then None else to_number (r ''last_seen_at'')),
      as_status = (if nullish (r ''status'') then JNull else r ''status'')\<rparr>"

definition row_to_admin_connection :: "'x exec_env \<Rightarrow> row \<Rightarrow> admin_connection" where
  "row_to_admin_connection env r =
     \<lparr>ac_owner = row_owner r,
      ac_subject = (if row_owner r = Org then JNull else r ''subject''),
      ac_integration = row_str r ''integration'', ac_name = row_str r ''name'',
      ac_oauth_scope = opt_str (r ''oauth_scope''),
      ac_last_health = x_decode_health env (r ''last_health'')\<rparr>"

section \<open>The reads\<close>

definition platform_env :: "'x exec_env \<Rightarrow> 'x exec_env" where
  "platform_env env = env\<lparr>e_ctx := (e_ctx env)\<lparr>oc_reach := TenantReach\<rparr>\<rparr>"

definition list_subjects :: "'x exec_env \<Rightarrow> admin_options option \<Rightarrow> ('x, admin_subject list) eff" where
  "list_subjects env options =
     (case normalize_admin_paging options of (limit, offset) \<Rightarrow>
        eff_map (map (row_to_admin_subject env))
          (core_find_many (platform_env env) subject_table
            (find_all\<lparr>fi_order_by := [(''created_at'', True), (''external_id'', True)],
                      fi_limit := Some (nat limit), fi_offset := Some (nat offset)\<rparr>)))"

definition get_subject :: "'x exec_env \<Rightarrow> string \<Rightarrow> ('x, admin_subject option) eff" where
  "get_subject env external_id =
     eff_map (map_option (row_to_admin_subject env))
       (core_find_first (platform_env env) subject_table (find_where (cmp_val ''external_id'' OpEq (JStr external_id))))"

definition owned_by :: "string \<Rightarrow> cond_or_bool" where
  "owned_by external_id =
     builder_and [cmp_val ''owner'' OpEq (JStr ''user''), cmp_val ''subject'' OpEq (JStr external_id)]"

definition list_subject_connections :: "'x exec_env \<Rightarrow> string \<Rightarrow> ('x, admin_connection list) eff" where
  "list_subject_connections env external_id =
     eff_map (map (row_to_admin_connection env))
       (core_find_many (platform_env env) connection_table
         ((find_where (owned_by external_id))\<lparr>fi_order_by := [(''integration'', True), (''name'', True)]\<rparr>))"

fun with_connections :: "'x exec_env \<Rightarrow> admin_subject list \<Rightarrow> ('x, (admin_subject \<times> admin_connection list) list) eff" where
  "with_connections env [] = eff_return []"
| "with_connections env (s # ss) =
     eff_bind (list_subject_connections env (as_external_id s)) (\<lambda>cs.
     eff_bind (with_connections env ss) (\<lambda>rest. eff_return ((s, cs) # rest)))"

definition list_subjects_with_connections ::
  "'x exec_env \<Rightarrow> admin_options option \<Rightarrow> ('x, (admin_subject \<times> admin_connection list) list) eff" where
  "list_subjects_with_connections env options = eff_bind (list_subjects env options) (with_connections env)"

definition get_subject_with_connections ::
  "'x exec_env \<Rightarrow> string \<Rightarrow> ('x, (admin_subject \<times> admin_connection list) option) eff" where
  "get_subject_with_connections env external_id =
     eff_bind (get_subject env external_id) (\<lambda>subject.
       case subject of
         None \<Rightarrow> eff_return None
       | Some s \<Rightarrow> eff_bind (list_subject_connections env external_id) (\<lambda>cs. eff_return (Some (s, cs))))"

section \<open>The pages of a list\<close>

lemma paging_bounds:
  "normalize_admin_paging options = (limit, offset) \<Longrightarrow> 1 \<le> limit \<and> limit \<le> ADMIN_MAX_PAGE_SIZE \<and> 0 \<le> offset"
  by (auto simp: normalize_admin_paging_def ADMIN_MAX_PAGE_SIZE_def Let_def)

lemma paging_of_nat:
  assumes "1 \<le> l" "l \<le> 500"
  shows "normalize_admin_paging (Some \<lparr>ad_limit = Some (of_nat l), ad_offset = Some (of_nat k)\<rparr>) = (int l, int k)"
  using assms by (simp add: normalize_admin_paging_def ADMIN_MAX_PAGE_SIZE_def)

text \<open>The principals of the tenant in the order of the lists.\<close>

definition tenant_subjects :: "'x exec_env \<Rightarrow> 'x world \<Rightarrow> admin_subject list" where
  "tenant_subjects env w =
     map (row_to_admin_subject env)
       (order_rows [(''created_at'', True), (''external_id'', True)]
         (filter (\<lambda>r. r ''tenant'' = JStr (oc_tenant (e_ctx env))) (w_db w ''subject'')))"

lemma js_slice_take: "js_slice k (Some (k + n)) xs = take n (drop k xs)"
  by (simp add: js_slice_def take_drop add.commute [of k n])

lemma list_subjects_exact:
  assumes "normalize_admin_paging options = (limit, offset)"
  shows "list_subjects env options w = (Inr (take (nat limit) (drop (nat offset) (tenant_subjects env w))), w)"
  using assms
  by (simp add: list_subjects_def eff_map_def eff_bind_def core_find_many_def subject_table_def
      shared_read.find_many_exact storage_def find_all_def rows_of_def where_holds_def visible_tenant_def platform_env_def
      tenant_subjects_def js_slice_take take_map drop_map)

lemma take_pages: "concat (map (\<lambda>i. take l (drop (i * l) xs)) [0..<n]) = take (n * l) xs"
proof (induction n)
  case (Suc n)
  have "take (n * l) xs @ take l (drop (n * l) xs) = take (n * l + l) xs" by (metis take_add)
  with Suc show ?case by (simp add: add.commute)
qed simp

text \<open>Every page of the platform's list of principals is bounded, whatever limit and offset are asked for,
  fractions and negative numbers included, and nothing is changed by reading it; following the pages of any
  admissible size reads every principal of the tenant exactly once, in one order.\<close>

theorem admin_pages_partition:
  "(\<exists>page. list_subjects env options w = (Inr page, w) \<and> length page \<le> 500 \<and> set page \<subseteq> set (tenant_subjects env w)) \<and>
   (\<forall>l n. 1 \<le> l \<and> l \<le> 500 \<and> length (tenant_subjects env w) \<le> n * l \<longrightarrow>
      concat (map (\<lambda>i. projr (fst (list_subjects env (Some \<lparr>ad_limit = Some (of_nat l), ad_offset = Some (of_nat (i * l))\<rparr>) w))) [0..<n])
        = tenant_subjects env w)"
proof (intro conjI allI impI)
  obtain limit offset where p: "normalize_admin_paging options = (limit, offset)" by fastforce
  with paging_bounds [OF p] show "\<exists>page. list_subjects env options w = (Inr page, w) \<and> length page \<le> 500 \<and>
      set page \<subseteq> set (tenant_subjects env w)"
    by (auto simp: list_subjects_exact [OF p] ADMIN_MAX_PAGE_SIZE_def dest: in_set_takeD in_set_dropD)
next
  fix l n
  assume l: "1 \<le> l \<and> l \<le> 500 \<and> length (tenant_subjects env w) \<le> n * l"
  have "list_subjects env (Some \<lparr>ad_limit = Some (of_nat l), ad_offset = Some (of_nat (i * l))\<rparr>) w =
      (Inr (take l (drop (i * l) (tenant_subjects env w))), w)" for i
    using list_subjects_exact [OF paging_of_nat [of l "i * l"], of env w] l by (auto simp only: nat_int)
  then show "concat (map (\<lambda>i. projr (fst (list_subjects env (Some \<lparr>ad_limit = Some (of_nat l), ad_offset = Some (of_nat (i * l))\<rparr>) w))) [0..<n])
        = tenant_subjects env w"
    using l by (simp only: fst_conv sum.sel take_pages) simp
qed

section \<open>What a list of connections depends on\<close>

definition shown_columns :: "string list" where
  "shown_columns = [''tenant'', ''owner'', ''subject'', ''integration'', ''name'', ''oauth_scope'', ''last_health'']"

definition subject_connections :: "'x exec_env \<Rightarrow> string \<Rightarrow> row list \<Rightarrow> admin_connection list" where
  "subject_connections env external_id rows =
     map (row_to_admin_connection env) (order_rows [(''integration'', True), (''name'', True)]
       (filter (\<lambda>r. r ''tenant'' = JStr (oc_tenant (e_ctx env)) \<and> r ''owner'' = JStr ''user'' \<and> r ''subject'' = JStr external_id) rows))"

lemma owned_by_holds: "holds_cb r (owned_by i) \<longleftrightarrow> r ''owner'' = JStr ''user'' \<and> r ''subject'' = JStr i"
  by (cases "r ''owner''"; cases "r ''subject''") (auto simp: owned_by_def cmp_val_def)

lemma list_subject_connections_exact:
  "list_subject_connections env i w = (Inr (subject_connections env i (w_db w ''connection'')), w)"
proof -
  have eq: "(holds_cb r (owned_by i) \<and> visible_owned ((e_ctx env)\<lparr>oc_reach := TenantReach\<rparr>) r) =
      (r ''tenant'' = JStr (oc_tenant (e_ctx env)) \<and> r ''owner'' = JStr ''user'' \<and> r ''subject'' = JStr i)" for r
    by (auto simp: owned_by_holds visible_owned_def)
  show ?thesis
    by (simp add: list_subject_connections_def eff_map_def eff_bind_def core_find_many_def connection_table_def
        owned_read.find_many_exact storage_def find_where_def find_all_def rows_of_def where_holds_def platform_env_def
        subject_connections_def js_slice_def eq)
qed

lemma js_insert_map: "(\<And>x y. cmp (f x) (f y) = cmp x y) \<Longrightarrow> js_insert cmp (f x) (map f ys) = map f (js_insert cmp x ys)"
  by (induction ys) auto

lemma js_sort_map: "(\<And>x y. cmp (f x) (f y) = cmp x y) \<Longrightarrow> js_sort cmp (map f xs) = map f (js_sort cmp xs)"
  by (induction xs) (simp_all add: js_insert_map)

lemma order_rows_map:
  assumes "\<And>r c. c \<in> fst ` set ob \<Longrightarrow> f r c = r c"
  shows "order_rows ob (map f rs) = map f (order_rows ob rs)"
proof -
  have "fold (\<lambda>(col, asc) acc. js_sort (order_cmp col asc) acc) xs (map f rs) =
      map f (fold (\<lambda>(col, asc) acc. js_sort (order_cmp col asc) acc) xs rs)" if "set xs \<subseteq> set ob" for xs
    using that
  proof (induction xs arbitrary: rs)
    case (Cons x xs)
    obtain col asc where x: "x = (col, asc)" by fastforce
    with Cons.prems have "f r col = r col" for r using assms [of col r] by force
    then have "js_sort (order_cmp col asc) (map f rs) = map f (js_sort (order_cmp col asc) rs)"
      by (intro js_sort_map) (simp add: order_cmp_def)
    with Cons x show ?case by simp
  qed simp
  from this [of "rev ob"] show ?thesis by (simp add: order_rows_def)
qed

lemma subject_connections_map:
  assumes "\<And>r c. c \<in> set shown_columns \<Longrightarrow> f r c = r c"
  shows "subject_connections env i (map f rows) = subject_connections env i rows"
proof -
  let ?P = "\<lambda>r. r ''tenant'' = JStr (oc_tenant (e_ctx env)) \<and> r ''owner'' = JStr ''user'' \<and> r ''subject'' = JStr i"
  have cols: "f r ''tenant'' = r ''tenant''" "f r ''owner'' = r ''owner''" "f r ''subject'' = r ''subject''"
    "f r ''integration'' = r ''integration''" "f r ''name'' = r ''name''" "f r ''oauth_scope'' = r ''oauth_scope''"
    "f r ''last_health'' = r ''last_health''" for r
    by (simp_all add: assms shown_columns_def)
  have row: "row_to_admin_connection env (f r) = row_to_admin_connection env r" for r
    by (simp add: row_to_admin_connection_def row_owner_def row_str_def opt_str_def cols)
  have "filter ?P (map f rows) = map f (filter ?P rows)" by (simp add: filter_map o_def cols)
  moreover have "order_rows [(''integration'', True), (''name'', True)] (map f rs) = map f (order_rows [(''integration'', True), (''name'', True)] rs)" for rs
    by (rule order_rows_map) (auto simp: cols)
  ultimately show ?thesis by (simp add: subject_connections_def row o_def)
qed

lemma with_connections_exact:
  "with_connections env ss w = (Inr (map (\<lambda>s. (s, subject_connections env (as_external_id s) (w_db w ''connection''))) ss), w)"
  by (induction ss) (simp_all add: eff_bind_def list_subject_connections_exact)

text \<open>The platform view never shows, nor lets through in any other way, what leads to a credential: rewriting
  the connections in every column but the few it shows, the stored item ids, tokens, clients and provider states
  among them, changes no answer; each principal is shown with exactly the connections of the tenant that are its own.\<close>

theorem admin_blind_to_credentials:
  assumes "\<And>r c. c \<in> set shown_columns \<Longrightarrow> f r c = r c"
    and "w' = w\<lparr>w_db := (w_db w)(''connection'' := map f (w_db w ''connection''))\<rparr>"
  shows "fst (list_subjects_with_connections env options w') = fst (list_subjects_with_connections env options w) \<and>
    fst (get_subject_with_connections env i w') = fst (get_subject_with_connections env i w) \<and>
    (\<forall>ss. list_subjects_with_connections env options w = (Inr ss, w) \<longrightarrow>
       (\<forall>(s, cs) \<in> set ss. s \<in> set (tenant_subjects env w) \<and>
          cs = subject_connections env (as_external_id s) (w_db w ''connection'')))"
proof -
  obtain limit offset where p: "normalize_admin_paging options = (limit, offset)" by fastforce
  have subjects: "tenant_subjects env w' = tenant_subjects env w" by (simp add: assms(2) tenant_subjects_def)
  have conns: "subject_connections env j (w_db w' ''connection'') = subject_connections env j (w_db w ''connection'')" for j
    by (simp add: assms(2) subject_connections_map [where f = f, OF assms(1)])
  have all: "list_subjects_with_connections env options v = (Inr (map (\<lambda>s. (s, subject_connections env (as_external_id s) (w_db v ''connection'')))
      (take (nat limit) (drop (nat offset) (tenant_subjects env v)))), v)" for v
    by (simp add: list_subjects_with_connections_def eff_bind_def list_subjects_exact [OF p] with_connections_exact)
  have one: "\<exists>s. get_subject env i v = (Inr s, v) \<and>
      s = map_option (row_to_admin_subject env) (find (\<lambda>r. holds_cb r (cmp_val ''external_id'' OpEq (JStr i)) \<and>
        visible_tenant (e_ctx (platform_env env)) r) (w_db v ''subject''))" for v
    by (simp add: get_subject_def eff_map_def eff_bind_def core_find_first_def subject_table_def shared_read.find_first_exact storage_def)
  have "w_db w' ''subject'' = w_db w ''subject''" by (simp add: assms(2))
  with one [of w] one [of w'] have "fst (get_subject_with_connections env i w') = fst (get_subject_with_connections env i w)"
    by (auto simp: get_subject_with_connections_def eff_bind_def list_subject_connections_exact conns split: option.split)
  then show ?thesis by (auto simp: all subjects conns dest: in_set_takeD in_set_dropD)
qed

section \<open>A concrete tenant\<close>

definition seen_row :: "string \<Rightarrow> int \<Rightarrow> row" where
  "seen_row i t = prop_of [(''tenant'', JStr ''t1''), (''external_id'', JStr i), (''created_at'', JDate t), (''last_seen_at'', JNum t)]"

definition tenant_db :: db where
  "tenant_db = small_db(''subject'' := [seen_row ''u2'' 7, seen_row ''u1'' 5],
     ''connection'' := [prop_of [(''tenant'', JStr ''t1''), (''owner'', JStr ''user''), (''subject'', JStr ''u1''),
        (''integration'', JStr ''api''), (''name'', JStr ''own''), (''item_ids'', JObj [(''token'', JStr ''secret-item'')])]])"

lemma two_subjects: "map as_external_id (tenant_subjects small_env (small_world tenant_db [])) = [''u1'', ''u2'']"
  by code_simp

lemma admin_pages_partition_witness:
  "concat (map (\<lambda>i. projr (fst (list_subjects small_env (Some \<lparr>ad_limit = Some (of_nat 1), ad_offset = Some (of_nat (i * 1))\<rparr>)
     (small_world tenant_db [])))) [0..<2]) = tenant_subjects small_env (small_world tenant_db [])"
proof -
  have "length (tenant_subjects small_env (small_world tenant_db [])) \<le> 2 * 1"
    using arg_cong [OF two_subjects, of length] by simp
  with admin_pages_partition [of small_env None "small_world tenant_db []"] show ?thesis
    by (metis one_le_numeral order_refl)
qed

definition redact :: "row \<Rightarrow> row" where
  "redact r = r(''item_ids'' := JNull)"

lemma admin_blind_to_credentials_witness:
  "fst (get_subject_with_connections small_env ''u1''
      ((small_world tenant_db [])\<lparr>w_db := tenant_db(''connection'' := map redact (tenant_db ''connection''))\<rparr>)) =
   fst (get_subject_with_connections small_env ''u1'' (small_world tenant_db []))"
proof -
  have "redact r c = r c" if "c \<in> set shown_columns" for r c
    using that by (auto simp: redact_def shown_columns_def)
  from admin_blind_to_credentials [of redact, OF this refl, of small_env None "small_world tenant_db []" "''u1''"]
  show ?thesis by (simp add: small_world_def)
qed

end
