(* ===== verification/Challenges.thy ===== *)
theory Challenges
  imports OAuthHelpers
begin

text \<open>
  Rejections for want of a scope (\<open>sdk/src/insufficient-scope.ts\<close>): the parser of the challenges in a
  \<open>WWW-Authenticate\<close> header, and what an answer of the upstream says. The index into the header is
  the text that is left; the challenge being read is the last of the list.
\<close>

section \<open>The alphabets\<close>

definition is_alpha :: "char \<Rightarrow> bool" where
  "is_alpha c \<longleftrightarrow> (let n = (of_char c :: nat) in 65 \<le> n \<and> n \<le> 90 \<or> 97 \<le> n \<and> n \<le> 122)"

definition is_digit_char :: "char \<Rightarrow> bool" where
  "is_digit_char c \<longleftrightarrow> (let n = (of_char c :: nat) in 48 \<le> n \<and> n \<le> 57)"

definition token_char :: "char \<Rightarrow> bool" where
  "token_char c \<longleftrightarrow> is_alpha c \<or> is_digit_char c \<or>
     c \<in> {CHR ''!'', CHR ''#'', CHR ''$'', CHR ''%'', CHR ''&'', CHR 0x27, CHR ''*'', CHR ''+'', CHR ''.'', CHR ''^'',
            CHR ''_'', CHR 0x60, CHR ''|'', CHR ''~'', CHR ''-''}"

definition token68_char :: "char \<Rightarrow> bool" where
  "token68_char c \<longleftrightarrow> is_alpha c \<or> is_digit_char c \<or> c \<in> {CHR ''.'', CHR ''_'', CHR ''~'', CHR ''+'', CHR ''/'', CHR ''-''}"

definition word_char :: "char \<Rightarrow> bool" where
  "word_char c \<longleftrightarrow> token_char c \<or> c = CHR ''/''"

definition is_token :: "string \<Rightarrow> bool" where
  "is_token s \<longleftrightarrow> list_all token_char s"

definition is_token68 :: "string \<Rightarrow> bool" where
  "is_token68 s \<longleftrightarrow> list_all token68_char s"

definition is_urlish :: "string \<Rightarrow> bool" where
  "is_urlish s \<longleftrightarrow>
     (let rest = dropWhile (\<lambda>c. is_alpha c \<or> is_digit_char c \<or> c \<in> {CHR ''+'', CHR ''.'', CHR ''-''}) s;
          tail = drop 3 rest in
      s \<noteq> [] \<and> is_alpha (hd s) \<and> take 3 rest = ''://'' \<and> tail \<noteq> [] \<and>
      list_all (\<lambda>c. \<not> is_js_space c \<and> c \<noteq> CHR '','' \<and> c \<noteq> CHR 0x22) tail)"

definition is_blank :: "char \<Rightarrow> bool" where
  "is_blank c \<longleftrightarrow> c = CHR '' '' \<or> c = CHR 0x09"

section \<open>The parser\<close>

record challenge =
  ch_scheme :: string
  ch_params :: "(string \<times> string) list"

datatype parse_state = AtBoundary | AtScheme | AtToken68 | AtParams

text \<open>A quoted value, from behind its opening quote: the value and what follows it.\<close>

fun read_quoted :: "string \<Rightarrow> string \<Rightarrow> (string \<times> string) option" where
  "read_quoted acc [] = None"
| "read_quoted acc (c # s) =
     (if c = CHR 0x22 then (if s = [] \<or> is_js_space (hd s) \<or> hd s = CHR '','' then Some (acc, s) else None)
      else if c = CHR 0x5C then (case s of [] \<Rightarrow> None | d # s' \<Rightarrow> read_quoted (acc @ [d]) s')
      else read_quoted (acc @ [c]) s)"

definition read_bare :: "string \<Rightarrow> string \<Rightarrow> (string \<times> string) option" where
  "read_bare key s =
     (let v = takeWhile (\<lambda>c. \<not> is_js_space c \<and> c \<noteq> CHR '','') s in
      if v = [] then None
      else if \<not> is_token v \<and> \<not> (key = ''resource_metadata'' \<and> is_urlish v) then None
      else Some (v, dropWhile (\<lambda>c. \<not> is_js_space c \<and> c \<noteq> CHR '','') s))"

definition read_value :: "string \<Rightarrow> string \<Rightarrow> (string \<times> string) option" where
  "read_value key s = (if s \<noteq> [] \<and> hd s = CHR 0x22 then read_quoted [] (tl s) else read_bare key s)"

definition is_padding_run :: "string \<Rightarrow> bool" where
  "is_padding_run s \<longleftrightarrow>
     (let rest = dropWhile is_blank (dropWhile (\<lambda>c. c = CHR ''='') s) in
      s \<noteq> [] \<and> hd s = CHR ''='' \<and> (rest = [] \<or> hd rest = CHR '',''))"

text \<open>A second \<open>error\<close> or \<open>scope\<close> of a challenge refuses the header, another repetition is passed over.\<close>

definition add_param :: "string \<Rightarrow> string \<Rightarrow> challenge list \<Rightarrow> challenge list option" where
  "add_param key v cs =
     (let c = last cs in
      if key \<in> fst ` set (ch_params c) then (if key = ''error'' \<or> key = ''scope'' then None else Some cs)
      else Some (butlast cs @ [c\<lparr>ch_params := ch_params c @ [(key, v)]\<rparr>]))"

lemma read_quoted_shorter: "read_quoted acc s = Some (v, r) \<Longrightarrow> length r < length s"
proof (induction acc s rule: read_quoted.induct)
  case (2 acc c s)
  then show ?case by (auto split: if_splits list.splits)
qed simp

lemma read_value_shorter: "read_value key s = Some (v, r) \<Longrightarrow> length r \<le> length s"
  unfolding read_value_def read_bare_def Let_def
  by (auto split: if_splits dest!: read_quoted_shorter intro: length_dropWhile_le)

lemma after_word: "word_char c \<Longrightarrow> length (dropWhile word_char (c # s)) \<le> length s"
  by (simp add: length_dropWhile_le)

lemma step_shorter:
  assumes "dropWhile is_js_space h = c # s"
  shows "length s < length h"
  using assms length_dropWhile_le [of is_js_space h] by simp

function parse_loop :: "string \<Rightarrow> challenge list \<Rightarrow> parse_state \<Rightarrow> bool \<Rightarrow> challenge list option" where
  "parse_loop header cs st comma =
     (case dropWhile is_js_space header of
        [] \<Rightarrow> Some cs
      | ch # rest \<Rightarrow>
          if ch = CHR '','' then parse_loop rest cs st True
          else if \<not> word_char ch then None
          else
            let word = takeWhile word_char (ch # rest);
                after = dropWhile word_char (ch # rest);
                ahead = dropWhile is_blank after in
            if is_padding_run after then
              (if st \<noteq> AtScheme \<or> comma \<or> \<not> is_token68 word then None
               else parse_loop (dropWhile (\<lambda>c. c = CHR ''='') after) cs AtToken68 False)
            else if ahead \<noteq> [] \<and> hd ahead = CHR ''='' then
              (if \<not> is_token word \<or> cs = [] \<or> st = AtToken68 \<or> st = AtScheme \<and> comma \<or> st = AtParams \<and> \<not> comma then None
               else case read_value (js_lower word) (dropWhile is_blank (tl ahead)) of
                 None \<Rightarrow> None
               | Some (v, rest') \<Rightarrow>
                   (case add_param (js_lower word) v cs of
                      None \<Rightarrow> None
                    | Some cs' \<Rightarrow> parse_loop rest' cs' AtParams False))
            else if comma then
              (if \<not> is_token word then None
               else parse_loop after (cs @ [\<lparr>ch_scheme = js_lower word, ch_params = []\<rparr>]) AtScheme False)
            else if st = AtScheme then
              (if \<not> is_token68 word then None else parse_loop after cs AtToken68 comma)
            else None)"
  by pat_completeness auto

termination
proof (relation "measure (\<lambda>(h, _, _, _). length h)", goal_cases)
  case 1 show ?case by simp
next
  case (2 h cs st comma c s) then show ?case by (simp add: step_shorter)
next
  case (3 h cs st comma c s)
  then show ?case using step_shorter [of h c s] length_dropWhile_le [of "\<lambda>c. c = CHR ''=''" "dropWhile word_char (c # s)"]
      after_word [of c s] by simp
next
  case (4 h cs st comma c s word after ahead p v rest' cs')
  have "length rest' \<le> length (dropWhile is_blank (tl ahead))" using 4 by (auto dest: read_value_shorter)
  also have "\<dots> \<le> length ahead" using length_dropWhile_le [of is_blank "tl ahead"] by (cases ahead) auto
  also have "\<dots> \<le> length after" using 4 by (simp add: length_dropWhile_le)
  finally show ?case using 4 step_shorter [of h c s] after_word [of c s] by simp
next
  case (5 h cs st comma c s word after)
  then show ?case using step_shorter [of h c s] after_word [of c s] by simp
next
  case (6 h cs st comma c s word after)
  then show ?case using step_shorter [of h c s] after_word [of c s] by simp
qed

declare parse_loop.simps [simp del]

definition parse_challenges :: "string \<Rightarrow> challenge list option" where
  "parse_challenges header = parse_loop header [] AtBoundary True"

section \<open>What an answer says\<close>

text \<open>The scopes named as required, if the answer is a rejection for want of one.\<close>

definition detect_from_challenge :: "string \<Rightarrow> string list option" where
  "detect_from_challenge header =
     (case parse_challenges header of
        None \<Rightarrow> None
      | Some cs \<Rightarrow>
          (case find (\<lambda>c. ch_scheme c = ''bearer'' \<and> map_of (ch_params c) ''error'' = Some ''insufficient_scope'') cs of
             None \<Rightarrow> None
           | Some c \<Rightarrow> Some (case nonempty (map_of (ch_params c) ''scope'') of None \<Rightarrow> [] | Some sc \<Rightarrow> split_spaces [] sc)))"

text \<open>Bodies are inspected down to a depth of eight; the number is the depth that is left.\<close>

definition MAX_DEPTH :: nat where
  "MAX_DEPTH = 8"

fun detect_from_structured :: "nat \<Rightarrow> jsval \<Rightarrow> bool" where
  "detect_from_structured 0 body \<longleftrightarrow> False"
| "detect_from_structured (Suc n) body \<longleftrightarrow>
     (case body of
        JArr vs \<Rightarrow> list_ex (detect_from_structured n) vs
      | JObj ps \<Rightarrow> prop_of ps ''error'' = JStr ''insufficient_scope'' \<or>
                   prop_of ps ''reason'' = JStr ''ACCESS_TOKEN_SCOPE_INSUFFICIENT'' \<or>
                   list_ex (detect_from_structured n) (map snd ps)
      | _ \<Rightarrow> False)"

definition detect_from_body :: "(string \<Rightarrow> jsval option) \<Rightarrow> jsval \<Rightarrow> bool" where
  "detect_from_body json body =
     (case body of
        JStr s \<Rightarrow> (case json s of None \<Rightarrow> False | Some v \<Rightarrow> detect_from_structured (Suc MAX_DEPTH) v)
      | _ \<Rightarrow> detect_from_structured (Suc MAX_DEPTH) body)"

definition insufficient_scope_from_embedded_json :: "(string \<Rightarrow> jsval option) \<Rightarrow> string \<Rightarrow> bool" where
  "insufficient_scope_from_embedded_json json t =
     (let rest = dropWhile (\<lambda>c. c \<noteq> CHR 0x7B \<and> c \<noteq> CHR ''['') t in
      rest \<noteq> [] \<and> (case json rest of None \<Rightarrow> False | Some v \<Rightarrow> detect_from_structured (Suc MAX_DEPTH) v))"

definition detect_insufficient_scope ::
  "(string \<Rightarrow> jsval option) \<Rightarrow> jsval \<Rightarrow> (string \<times> string) list \<Rightarrow> string list option" where
  "detect_insufficient_scope json body headers =
     (case List.map_filter (\<lambda>(name, v). if js_lower name = ''www-authenticate'' then detect_from_challenge v else None) headers of
        scopes # _ \<Rightarrow> Some scopes
      | [] \<Rightarrow> if detect_from_body json body then Some [] else None)"

section \<open>Printing challenges\<close>

definition escape :: "string \<Rightarrow> string" where
  "escape v = concat (map (\<lambda>c. if c = CHR 0x22 \<or> c = CHR 0x5C then [CHR 0x5C, c] else [c]) v)"

definition show_param :: "string \<times> string \<Rightarrow> string" where
  "show_param p = fst p @ [CHR ''='', CHR 0x22] @ escape (snd p) @ [CHR 0x22]"

definition show_params :: "(string \<times> string) list \<Rightarrow> string" where
  "show_params ps = concat (map (\<lambda>p. '', '' @ show_param p) ps)"

definition show_challenge :: "challenge \<Rightarrow> string" where
  "show_challenge c =
     ch_scheme c @ (case ch_params c of [] \<Rightarrow> [] | p # ps \<Rightarrow> '' '' @ show_param p @ show_params ps)"

definition show_challenges :: "challenge list \<Rightarrow> string" where
  "show_challenges cs = js_join '', '' (map show_challenge cs)"

definition is_name :: "string \<Rightarrow> bool" where
  "is_name s \<longleftrightarrow> s \<noteq> [] \<and> is_token s \<and> js_lower s = s"

definition is_challenge :: "challenge \<Rightarrow> bool" where
  "is_challenge c \<longleftrightarrow> is_name (ch_scheme c) \<and> list_all (\<lambda>p. is_name (fst p)) (ch_params c) \<and> distinct (map fst (ch_params c))"

text \<open>A separator ends a quoted value and a list of parameters.\<close>

definition at_list_end :: "string \<Rightarrow> bool" where
  "at_list_end s \<longleftrightarrow> s = [] \<or> hd s = CHR '',''"

section \<open>Reading back what was printed\<close>

lemma read_quoted_escape: "at_list_end r \<Longrightarrow> read_quoted acc (escape v @ CHR 0x22 # r) = Some (acc @ v, r)"
  by (induction v arbitrary: acc) (auto simp: escape_def at_list_end_def)

lemma space_no_word: "is_js_space c \<Longrightarrow> \<not> word_char c" "word_char c \<Longrightarrow> c \<noteq> CHR '',''" "\<not> word_char (CHR ''='')" "\<not> word_char (CHR '' '')"
  "is_blank (CHR '' '')" "is_js_space (CHR '' '')" "\<not> is_js_space (CHR '','')" "\<not> is_blank (CHR '','')" "\<not> is_blank (CHR ''='')"
  "\<not> is_blank (CHR 0x22)" "\<not> word_char (CHR '','')"
  by (auto simp: is_js_space_def word_char_def token_char_def is_alpha_def is_digit_char_def Let_def is_blank_def)

lemma token_word: "is_token s \<Longrightarrow> list_all word_char s"
  by (auto simp: is_token_def word_char_def list_all_iff)

lemma takeWhile_word: "list_all word_char k \<Longrightarrow> r = [] \<or> \<not> word_char (hd r) \<Longrightarrow>
    takeWhile word_char (k @ r) = k \<and> dropWhile word_char (k @ r) = r"
  by (induction k) (cases r; auto)+

lemma loop_space: "is_js_space c \<Longrightarrow> parse_loop (c # s) cs st b = parse_loop s cs st b"
  by (simp add: parse_loop.simps [of "c # s"] parse_loop.simps [of s])

lemma loop_comma: "parse_loop (CHR '','' # s) cs st b = parse_loop s cs st True"
  by (simp add: parse_loop.simps [of "CHR '','' # s"] space_no_word)

lemma loop_word:
  assumes "is_name k" "r = [] \<or> \<not> word_char (hd r)"
  shows "parse_loop (k @ r) cs st comma =
     (if is_padding_run r then
              (if st \<noteq> AtScheme \<or> comma \<or> \<not> is_token68 k then None
               else parse_loop (dropWhile (\<lambda>c. c = CHR ''='') r) cs AtToken68 False)
            else if dropWhile is_blank r \<noteq> [] \<and> hd (dropWhile is_blank r) = CHR ''='' then
              (if cs = [] \<or> st = AtToken68 \<or> st = AtScheme \<and> comma \<or> st = AtParams \<and> \<not> comma then None
               else case read_value k (dropWhile is_blank (tl (dropWhile is_blank r))) of
                 None \<Rightarrow> None
               | Some (v, rest') \<Rightarrow>
                   (case add_param k v cs of
                      None \<Rightarrow> None
                    | Some cs' \<Rightarrow> parse_loop rest' cs' AtParams False))
            else if comma then parse_loop r (cs @ [\<lparr>ch_scheme = k, ch_params = []\<rparr>]) AtScheme False
            else if st = AtScheme then
              (if \<not> is_token68 k then None else parse_loop r cs AtToken68 comma)
            else None)"
proof -
  obtain c k' where k: "k = c # k'" using assms(1) by (cases k) (auto simp: is_name_def)
  have word: "list_all word_char k" using assms(1) by (simp add: is_name_def token_word)
  then have "word_char c" using k by simp
  with space_no_word(1,2) have "\<not> is_js_space c" "c \<noteq> CHR '',''" by blast+
  moreover have "takeWhile word_char (c # k' @ r) = k" "dropWhile word_char (c # k' @ r) = r"
    using takeWhile_word [OF word assms(2)] k by simp_all
  moreover have "is_token k" "js_lower k = k" using assms(1) by (simp_all add: is_name_def)
  ultimately show ?thesis
    unfolding k append_Cons by (subst parse_loop.simps) (simp add: \<open>word_char c\<close> Let_def cong: option.case_cong)
qed

lemma loop_param:
  assumes "is_name (fst p)" "st = AtScheme \<and> \<not> b \<or> st = AtParams \<and> b" "at_list_end r" "fst p \<notin> fst ` set (ch_params c)"
  shows "parse_loop (show_param p @ r) (cs @ [c]) st b =
    parse_loop r (cs @ [c\<lparr>ch_params := ch_params c @ [p]\<rparr>]) AtParams False"
proof -
  have "\<not> is_padding_run (CHR ''='' # CHR 0x22 # s)" for s
    by (simp add: is_padding_run_def space_no_word)
  then show ?thesis
    using assms by (cases p; elim disjE conjE; simp add: show_param_def loop_word space_no_word read_value_def read_quoted_escape add_param_def Let_def)
qed

lemma loop_params:
  assumes "list_all (\<lambda>p. is_name (fst p)) ps" "distinct (map fst (ch_params c @ ps))" "at_list_end r"
  shows "parse_loop (show_params ps @ r) (cs @ [c]) AtParams False =
    parse_loop r (cs @ [c\<lparr>ch_params := ch_params c @ ps\<rparr>]) AtParams False"
  using assms
proof (induction ps arbitrary: c)
  case (Cons p ps)
  have "at_list_end (show_params ps @ r)" using Cons.prems(3) by (cases ps) (auto simp: show_params_def at_list_end_def)
  then have "parse_loop (show_param p @ show_params ps @ r) (cs @ [c]) AtParams True =
      parse_loop (show_params ps @ r) (cs @ [c\<lparr>ch_params := ch_params c @ [p]\<rparr>]) AtParams False"
    using Cons.prems by (intro loop_param) auto
  also have "\<dots> = parse_loop r (cs @ [c\<lparr>ch_params := ch_params c @ p # ps\<rparr>]) AtParams False"
    using Cons.prems by (subst Cons.IH) auto
  finally show ?case by (simp add: show_params_def loop_comma loop_space space_no_word)
qed (simp add: show_params_def)

lemma loop_challenge:
  assumes "is_challenge c" "at_list_end r"
  shows "\<exists>st. parse_loop (show_challenge c @ r) cs st0 True = parse_loop r (cs @ [c]) st False"
proof (cases "ch_params c")
  case Nil
  let ?c = "\<lparr>ch_scheme = ch_scheme c, ch_params = []\<rparr>"
  have "?c = c" using Nil by (cases c) simp
  have "\<not> is_padding_run r" "r = [] \<or> \<not> word_char (hd r)" "dropWhile is_blank r = [] \<or> hd (dropWhile is_blank r) \<noteq> CHR ''=''"
    using assms(2) by (cases r; simp add: at_list_end_def is_padding_run_def space_no_word)+
  then have "parse_loop (show_challenge c @ r) cs st0 True = parse_loop r (cs @ [?c]) AtScheme False"
    using assms(1) loop_word [of "ch_scheme c" r cs st0 True] by (auto simp: show_challenge_def is_challenge_def Nil)
  then show ?thesis unfolding \<open>?c = c\<close> by blast
next
  case (Cons p ps)
  let ?c = "\<lparr>ch_scheme = ch_scheme c, ch_params = []\<rparr>"
  have names: "is_name (ch_scheme c)" "is_name (fst p)" "list_all (\<lambda>p. is_name (fst p)) ps" "distinct (map fst (p # ps))"
    using assms(1) Cons by (auto simp: is_challenge_def)
  obtain a k where p: "fst p = a # k" "word_char a" using names(2) token_word [of "fst p"] by (cases "fst p") (auto simp: is_name_def)
  then have "\<not> is_blank a" "a \<noteq> CHR ''=''" by (auto simp: is_blank_def space_no_word is_js_space_def dest: space_no_word(1))
  have sep: "at_list_end (show_params ps @ r)" using assms(2) by (cases ps) (auto simp: show_params_def at_list_end_def)
  have "parse_loop (show_challenge c @ r) cs st0 True =
      parse_loop ('' '' @ show_param p @ show_params ps @ r) (cs @ [?c]) AtScheme False"
    using names(1) p \<open>\<not> is_blank a\<close> \<open>a \<noteq> CHR ''=''\<close>
    by (simp add: show_challenge_def Cons loop_word space_no_word is_padding_run_def show_param_def)
  also have "\<dots> = parse_loop (show_params ps @ r) (cs @ [?c\<lparr>ch_params := [p]\<rparr>]) AtParams False"
    using names(2) sep by (simp add: loop_space space_no_word loop_param)
  also have "\<dots> = parse_loop r (cs @ [?c\<lparr>ch_params := p # ps\<rparr>]) AtParams False"
    using names(3,4) assms(2) by (subst loop_params) auto
  finally show ?thesis using Cons by (metis challenge.surjective challenge.update_convs(2) old.unit.exhaust)
qed

lemma loop_challenges:
  assumes "list_all is_challenge cs"
  shows "parse_loop (concat (map (\<lambda>c. '', '' @ show_challenge c) cs)) acc st b = Some (acc @ cs)"
  using assms
proof (induction cs arbitrary: acc st b)
  case (Cons c cs)
  let ?r = "concat (map (\<lambda>c. '', '' @ show_challenge c) cs)"
  have "at_list_end ?r" by (cases cs) (auto simp: at_list_end_def)
  with Cons.prems loop_challenge [of c ?r acc st] obtain st' where
    "parse_loop (show_challenge c @ ?r) acc st True = parse_loop ?r (acc @ [c]) st' False" by auto
  with Cons show ?case by (simp add: loop_comma loop_space space_no_word)
qed (simp add: parse_loop.simps)

lemma join_after_first: "js_join sep (x # xs) = x @ concat (map (\<lambda>y. sep @ y) xs)"
  by (induction xs arbitrary: x) auto

lemma challenges_read_back:
  assumes "list_all is_challenge cs"
  shows "parse_challenges (show_challenges cs) = Some cs"
proof (cases cs)
  case Nil
  then show ?thesis by (simp add: parse_challenges_def show_challenges_def parse_loop.simps)
next
  case (Cons c rest)
  let ?r = "concat (map (\<lambda>c. '', '' @ show_challenge c) rest)"
  have "at_list_end ?r" by (cases rest) (auto simp: at_list_end_def)
  with assms Cons loop_challenge [of c ?r "[]" AtBoundary] obtain st' where
    "parse_loop (show_challenge c @ ?r) [] AtBoundary True = parse_loop ?r [c] st' False" by auto
  with assms Cons loop_challenges [of rest "[c]" st' False] show ?thesis
    by (simp add: parse_challenges_def show_challenges_def join_after_first o_def del: js_join.simps)
qed

text \<open>Parsing reads back every well-formed list of challenges, whatever stands in the quoted values: quotes,
  backslashes, commas and text that looks like another parameter or another challenge stay inside them.\<close>

theorem challenges_round_trip:
  assumes "list_all is_challenge cs"
  shows "parse_challenges (show_challenges cs) = Some cs"
  using assms by (rule challenges_read_back)

text \<open>A well-formed header is taken for a rejection for want of a scope exactly when a bearer challenge in it has
  the parameter \<open>error\<close> with that very value; no value of another parameter, and no other scheme, can stand for it.\<close>

theorem scope_rejection_iff:
  assumes "list_all is_challenge cs"
  shows "detect_from_challenge (show_challenges cs) \<noteq> None \<longleftrightarrow>
    (\<exists>c \<in> set cs. ch_scheme c = ''bearer'' \<and> (''error'', ''insufficient_scope'') \<in> set (ch_params c))"
proof -
  have "map_of (ch_params c) ''error'' = Some ''insufficient_scope'' \<longleftrightarrow> (''error'', ''insufficient_scope'') \<in> set (ch_params c)"
    if "c \<in> set cs" for c
    using assms that by (auto simp: list_all_iff is_challenge_def)
  then show ?thesis
    by (auto simp: detect_from_challenge_def challenges_read_back [OF assms] find_None_iff find_Some_iff split: option.split)
qed

definition sample_challenges :: "challenge list" where
  "sample_challenges =
     [\<lparr>ch_scheme = ''basic'', ch_params = []\<rparr>,
      \<lparr>ch_scheme = ''bearer'', ch_params = [(''realm'', ''a, error='' @ [CHR 0x22] @ ''insufficient_scope''), (''error'', ''invalid_token'')]\<rparr>]"

lemma sample_challenges_ok: "list_all is_challenge sample_challenges"
  by code_simp

lemma challenges_round_trip_witness: "parse_challenges (show_challenges sample_challenges) = Some sample_challenges"
  by (rule challenges_round_trip [OF sample_challenges_ok])

lemma scope_rejection_iff_witness: "detect_from_challenge (show_challenges sample_challenges) = None"
  using scope_rejection_iff [OF sample_challenges_ok] by (simp add: sample_challenges_def)

text \<open>Text in a body is data: only the two fields are read, and nothing below the eighth level.\<close>

lemma structured_text: "\<not> detect_from_structured n (JStr s)"
  by (cases n) auto

lemma detect_examples:
  "detect_from_challenge ''Bearer error=insufficient_scope, scope=mail.read'' = Some [''mail.read'']"
  "detect_from_challenge ''Basic abc=, Bearer realm=x error=insufficient_scope'' = None"
  "detect_from_structured 9 (JObj [(''error'', JObj [(''details'', JArr [JObj [(''reason'', JStr ''ACCESS_TOKEN_SCOPE_INSUFFICIENT'')]])])])"
  "\<not> detect_from_structured 9 (JObj [(''message'', JStr ''insufficient_scope'')])"
  by code_simp+

end
