(* ===== verification/ItemOwners.thy ===== *)
theory ItemOwners
  imports Connections OAuthHelpers
begin

text \<open>
  Whose a stored credential is (\<open>sdk/src/provider-item-owner.ts\<close>): the owner that is written into the
  item ids the executor and the OAuth service make, and the partition a provider files them under.
\<close>

definition OWNER_SCOPED_ITEM_ID_PREFIXES :: "string list" where
  "OWNER_SCOPED_ITEM_ID_PREFIXES = [''connection'', ''oauth'', ''oauth-client'']"

definition embedded_item_owner :: "string \<Rightarrow> owner option" where
  "embedded_item_owner i =
     (case js_split (CHR '':'') i of
        pre # ow # _ \<Rightarrow>
          if pre \<in> set OWNER_SCOPED_ITEM_ID_PREFIXES \<and> (ow = ''org'' \<or> ow = ''user'') then Some (if ow = ''org'' then Org else User)
          else None
      | _ \<Rightarrow> None)"

definition owner_of :: "owner_ctx \<Rightarrow> owner" where
  "owner_of c = (if oc_subject c = None then Org else User)"

definition owner_for_item_id :: "string \<Rightarrow> owner_ctx \<Rightarrow> owner" where
  "owner_for_item_id i c = (case embedded_item_owner i of Some ow \<Rightarrow> ow | None \<Rightarrow> owner_of c)"

lemma embedded_prefix:
  assumes "pre \<in> set OWNER_SCOPED_ITEM_ID_PREFIXES"
  shows "embedded_item_owner (pre @ '':'' @ owner_text ow @ '':'' @ rest) = Some ow"
proof -
  have "CHR '':'' \<notin> set pre" using assms by (auto simp: OWNER_SCOPED_ITEM_ID_PREFIXES_def)
  moreover have "CHR '':'' \<notin> set (owner_text ow)" by (cases ow) auto
  ultimately show ?thesis
    using assms js_split_append_sep [of "CHR '':''" pre "owner_text ow @ '':'' @ rest"]
      js_split_append_sep [of "CHR '':''" "owner_text ow" rest]
    by (cases ow) (simp_all add: embedded_item_owner_def)
qed

text \<open>Whoever's executor completes a flow or saves a value, the credential is filed under the owner its connection or
  app has: every kind of item id that is made carries its owner, whatever the slugs and names in it hold.\<close>

theorem credentials_filed_by_owner:
  "owner_for_item_id (access_item_id ow integration name) c = ow \<and>
   owner_for_item_id (refresh_item_id_for (access_item_id ow integration name)) c = ow \<and>
   owner_for_item_id (connection_item_id ow integration name v) c = ow \<and>
   owner_for_item_id (client_secret_item_id ow slug) c = ow"
proof -
  have prefixes: "''connection'' \<in> set OWNER_SCOPED_ITEM_ID_PREFIXES" "''oauth'' \<in> set OWNER_SCOPED_ITEM_ID_PREFIXES"
    "''oauth-client'' \<in> set OWNER_SCOPED_ITEM_ID_PREFIXES"
    by (simp_all add: OWNER_SCOPED_ITEM_ID_PREFIXES_def)
  show ?thesis
    using embedded_prefix [OF prefixes(1), of ow] embedded_prefix [OF prefixes(2), of ow] embedded_prefix [OF prefixes(3), of ow]
    by (simp add: owner_for_item_id_def access_item_id_def refresh_item_id_for_def connection_item_id_def client_secret_item_id_def)
qed

end
