(* ===== verification/Digits.thy ===== *)
theory Digits
  imports JsValue
begin

text \<open>
  Decimal numerals: the texts the regular expression \<open>/^\d+$/\<close> admits, and that reading what was
  printed gives the number back.
\<close>

definition all_digits :: "string \<Rightarrow> bool" where
  "all_digits s \<longleftrightarrow> s \<noteq> [] \<and> list_all (\<lambda>c. digit_val c \<noteq> None) s"

lemma digits_range: "c \<in> set (nat_digits n) \<Longrightarrow> \<exists>d < 10. c = char_of (48 + d :: nat)"
proof (induction n rule: nat_digits.induct)
  case (1 n)
  show ?case
  proof (cases "n < 10")
    case True
    then show ?thesis using 1(2) by (subst (asm) nat_digits.simps) auto
  next
    case False
    then have "c \<in> set (nat_digits (n div 10)) \<or> c = char_of (48 + n mod 10)"
      using 1(2) by (subst (asm) nat_digits.simps) auto
    then show ?thesis
    proof
      assume "c = char_of (48 + n mod 10)"
      then show ?thesis by (intro exI [of _ "n mod 10"]) simp
    qed (use 1(1) [OF False] in simp)
  qed
qed

lemma ten_digits: "d < (10 :: nat) \<Longrightarrow> d = 0 \<or> d = 1 \<or> d = 2 \<or> d = 3 \<or> d = 4 \<or> d = 5 \<or> d = 6 \<or> d = 7 \<or> d = 8 \<or> d = 9"
  by arith

lemma digit_of: "d < 10 \<Longrightarrow> digit_val (char_of (48 + d :: nat)) = Some (int d)"
  by (drule ten_digits) (elim disjE; simp only:; code_simp)

lemma digit_signs: "d < 10 \<Longrightarrow> (char_of (48 + d :: nat) :: char) \<noteq> CHR ''-'' \<and> (char_of (48 + d) :: char) \<noteq> CHR ''+'' \<and>
    (char_of (48 + d) :: char) \<noteq> CHR ''.'' \<and> \<not> is_js_space (char_of (48 + d))"
  by (drule ten_digits) (elim disjE; simp only:; code_simp)

lemma digits_to_int_append:
  "digits_to_int acc (xs @ ys) = Option.bind (digits_to_int acc xs) (\<lambda>m. digits_to_int m ys)"
  by (induction xs arbitrary: acc) (auto split: option.split)

lemma digits_to_int_digits: "digits_to_int 0 (nat_digits n) = Some (int n)"
proof (induction n rule: nat_digits.induct)
  case (1 n)
  show ?case
  proof (cases "n < 10")
    case True
    then show ?thesis by (subst nat_digits.simps) (simp add: digit_of)
  next
    case False
    with 1 show ?thesis by (subst nat_digits.simps) (simp add: digits_to_int_append digit_of, presburger)
  qed
qed

lemma string_to_number_digits: "string_to_number (nat_digits n) = Some (int n)"
proof -
  have ne: "nat_digits n \<noteq> []" by (subst nat_digits.simps) simp
  have ends: "\<not> is_js_space (hd (nat_digits n))" "\<not> is_js_space (last (nat_digits n))"
    "hd (nat_digits n) \<noteq> CHR ''-''" "hd (nat_digits n) \<noteq> CHR ''+''"
    using digits_range [OF hd_in_set [OF ne]] digits_range [OF last_in_set [OF ne]] digit_signs by metis+
  obtain c cs where d: "nat_digits n = c # cs" using ne by (cases "nat_digits n") auto
  have "dropWhile is_js_space (rev (nat_digits n)) = rev (nat_digits n)"
    using ends(2) ne by (cases "rev (nat_digits n)") (auto simp flip: hd_rev)
  then have "js_trim (nat_digits n) = c # cs"
    using ends(1) d unfolding js_trim_def by simp
  with ends(3,4) d digits_to_int_digits [of n] show ?thesis by (simp add: string_to_number_def)
qed

end
