(* ===== verification/HealthFields.thy ===== *)
theory HealthFields
  imports SchemaRefs OAuthHelpers Digits
begin

text \<open>
  The shared vocabulary of the health checks (\<open>sdk/src/health-check.ts\<close>): what a status means, how the
  identity is found in a response, what an operation can return according to its schema and what it
  did return, and how candidate operations and response samples are ranked. \<open>Map\<close> and \<open>Set\<close> are lists
  in insertion order; a stack is a list with its top first.
\<close>

section \<open>Status and identity\<close>

definition classify_http_status :: "int \<Rightarrow> string" where
  "classify_http_status st =
     (if 200 \<le> st \<and> st < 300 then ''healthy'' else if st = 401 \<or> st = 403 then ''expired'' else ''degraded'')"

text \<open>One segment of the path (\<open>Number(segment)\<close> indexes an array), then the leaf.\<close>

definition step_into :: "jsval \<Rightarrow> string \<Rightarrow> jsval option" where
  "step_into v seg =
     (case v of
        JArr vs \<Rightarrow> (case string_to_number seg of
            None \<Rightarrow> None
          | Some i \<Rightarrow> if i < 0 \<or> i \<ge> int (length vs) then None else Some (vs ! nat i))
      | JObj ps \<Rightarrow> Some (prop_of ps seg)
      | JDate _ \<Rightarrow> Some JUndef
      | _ \<Rightarrow> None)"

fun walk_path :: "jsval \<Rightarrow> string list \<Rightarrow> jsval option" where
  "walk_path v [] = Some v"
| "walk_path v (seg # segs) = (case step_into v seg of None \<Rightarrow> None | Some w \<Rightarrow> walk_path w segs)"

fun scalar_text :: "jsval \<Rightarrow> string option" where
  "scalar_text (JStr s) = Some s"
| "scalar_text (JNum n) = Some (int_to_string n)"
| "scalar_text (JBool b) = Some (if b then ''true'' else ''false'')"
| "scalar_text _ = None"

definition extract_identity :: "jsval \<Rightarrow> string option \<Rightarrow> string option" where
  "extract_identity v path =
     (case path of
        None \<Rightarrow> None
      | Some p \<Rightarrow> if p = [] then None else Option.bind (walk_path v (js_split (CHR ''.'') p)) scalar_text)"

section \<open>Identity tiers\<close>

definition IDENTITY_KEY_TIERS :: "string list list" where
  "IDENTITY_KEY_TIERS =
     [[''email'', ''emailaddress'', ''mail'', ''userprincipalname''],
      [''login'', ''username'', ''handle'', ''slug''],
      [''displayname'', ''name'', ''fullname''],
      [''id'', ''userid'', ''accountid'']]"

text \<open>\<open>findIndex\<close>, \<open>-1\<close> when there is none.\<close>

fun first_index :: "('a \<Rightarrow> bool) \<Rightarrow> 'a list \<Rightarrow> int" where
  "first_index P [] = -1"
| "first_index P (x # xs) = (if P x then 0 else let i = first_index P xs in if i = -1 then -1 else i + 1)"

definition identity_path_tier :: "string \<Rightarrow> int" where
  "identity_path_tier path =
     (let named = filter (\<lambda>seg. \<not> all_digits seg) (js_split (CHR ''.'') path);
          leaf = js_lower (if named = [] then [] else List.last named)
      in first_index (\<lambda>ks. leaf \<in> set ks) IDENTITY_KEY_TIERS)"

section \<open>Ranking candidates and samples\<close>

record hc_parameter =
  hp_name :: string
  hp_location :: string
  hp_required :: bool
  hp_description :: "string option"

record hc_candidate =
  hc_operation :: string
  hc_method :: string
  hc_required_args :: int
  hc_destructive :: bool
  hc_summary :: "string option"
  hc_parameters :: "hc_parameter list option"
  hc_response_fields :: "(string \<times> string) list option"

definition candidate_identity_tier :: "hc_candidate \<Rightarrow> int" where
  "candidate_identity_tier c =
     fold (\<lambda>(path, _) best.
         if list_ex all_digits (js_split (CHR ''.'') path) then best
         else let tier = identity_path_tier path in
           if tier = -1 then best else if best = -1 \<or> tier < best then tier else best)
       (case hc_response_fields c of None \<Rightarrow> [] | Some fs \<Rightarrow> fs) (-1)"

definition compare_health_check_candidates :: "hc_candidate \<Rightarrow> hc_candidate \<Rightarrow> int" where
  "compare_health_check_candidates a b =
     (if hc_destructive a \<noteq> hc_destructive b then (if hc_destructive a then 1 else -1)
      else if hc_required_args a \<noteq> hc_required_args b then hc_required_args a - hc_required_args b
      else if hc_method a \<noteq> hc_method b then
        (if hc_method a = ''get'' then -1
         else if hc_method b = ''get'' then 1
         else if js_str_less (hc_method a) (hc_method b) then -1 else 1)
      else if js_str_less (hc_operation a) (hc_operation b) then -1
      else if js_str_less (hc_operation b) (hc_operation a) then 1 else 0)"

definition compare_tiers :: "int \<Rightarrow> int \<Rightarrow> int" where
  "compare_tiers s t = (if s = t then 0 else if s = -1 then 1 else if t = -1 then -1 else s - t)"

definition compare_tiered :: "hc_candidate \<times> int \<Rightarrow> hc_candidate \<times> int \<Rightarrow> int" where
  "compare_tiered a b =
     (if hc_destructive (fst a) \<noteq> hc_destructive (fst b) then (if hc_destructive (fst a) then 1 else -1)
      else if snd a \<noteq> snd b then compare_tiers (snd a) (snd b)
      else compare_health_check_candidates (fst a) (fst b))"

definition sort_health_check_candidates_by_identity :: "hc_candidate list \<Rightarrow> hc_candidate list" where
  "sort_health_check_candidates_by_identity cs =
     map fst (js_sort compare_tiered (map (\<lambda>c. (c, candidate_identity_tier c)) cs))"

text \<open>A row of a sample with its index and tier.\<close>

definition compare_sample_rows :: "(string \<times> string) \<times> int \<times> int \<Rightarrow> (string \<times> string) \<times> int \<times> int \<Rightarrow> int" where
  "compare_sample_rows a b =
     (if snd (snd a) \<noteq> snd (snd b) then compare_tiers (snd (snd a)) (snd (snd b)) else fst (snd a) - fst (snd b))"

definition rank_response_sample :: "(string \<times> string) list \<Rightarrow> (string \<times> string) list" where
  "rank_response_sample rows =
     map fst (js_sort compare_sample_rows
       (map (\<lambda>(i, row). (row, int i, identity_path_tier (fst row))) (enumerate 0 rows)))"

section \<open>What a schema says an operation returns\<close>

definition scalar_type_label :: "string \<Rightarrow> string option" where
  "scalar_type_label = map_of [(''string'', ''string''), (''number'', ''number''), (''integer'', ''number''), (''boolean'', ''boolean'')]"

definition primary_type :: "jsval \<Rightarrow> string option" where
  "primary_type raw =
     (case raw of
        JArr vs \<Rightarrow> (case find (\<lambda>v. case v of JStr s \<Rightarrow> s \<noteq> ''null'' | _ \<Rightarrow> False) vs of Some (JStr s) \<Rightarrow> Some s | _ \<Rightarrow> None)
      | JStr s \<Rightarrow> Some s
      | _ \<Rightarrow> None)"

record schema_shape =
  sh_props :: "(string \<times> jsval) list"
  sh_items :: jsval
  sh_scalar :: "string option"
  sh_refs :: "string list"

text \<open>The definition a reference points to, when it was not followed yet.\<close>

definition follow_ref :: "(string \<times> jsval) list \<Rightarrow> string \<Rightarrow> schema_shape \<Rightarrow> jsval list \<Rightarrow> schema_shape \<times> jsval list" where
  "follow_ref defs ref sh stack =
     (if js_starts_with ref DEFS_PREFIX \<and> drop (length DEFS_PREFIX) ref \<notin> set (sh_refs sh) then
        (let name = drop (length DEFS_PREFIX) ref; target = prop_of defs name in
          (sh\<lparr>sh_refs := sh_refs sh @ [name]\<rparr>, if is_js_object target then target # stack else stack))
      else (sh, stack))"

definition push_members :: "jsval \<Rightarrow> jsval list \<Rightarrow> jsval list" where
  "push_members v stack = (case v of JArr ms \<Rightarrow> rev ms @ stack | _ \<Rightarrow> stack)"

definition add_props :: "(string \<times> jsval) list \<Rightarrow> (string \<times> jsval) list \<Rightarrow> (string \<times> jsval) list" where
  "add_props ps acc = fold (\<lambda>(k, v) acc. if k \<in> fst ` set acc then acc else acc @ [(k, v)]) ps acc"

definition merge_node :: "jsval \<Rightarrow> schema_shape \<Rightarrow> schema_shape" where
  "merge_node s sh =
     (let label = Option.bind (primary_type (obj_get s ''type'')) scalar_type_label in
      sh\<lparr>sh_scalar := (case label of Some l \<Rightarrow> Some l | None \<Rightarrow> sh_scalar sh),
         sh_items := (if sh_items sh = JUndef then obj_get s ''items'' else sh_items sh),
         sh_props := add_props (own_entries (obj_get s ''properties'')) (sh_props sh)\<rparr>)"

text \<open>The loop, with how many of its 500 rounds are left.\<close>

fun flatten_loop :: "nat \<Rightarrow> (string \<times> jsval) list \<Rightarrow> jsval list \<Rightarrow> schema_shape \<Rightarrow> schema_shape" where
  "flatten_loop 0 defs stack sh = sh"
| "flatten_loop (Suc n) defs [] sh = sh"
| "flatten_loop (Suc n) defs (s # stack) sh =
     (if \<not> is_js_object s then flatten_loop n defs stack sh
      else case obj_get s ''$ref'' of
        JStr ref \<Rightarrow> (let (sh', stack') = follow_ref defs ref sh stack in flatten_loop n defs stack' sh')
      | _ \<Rightarrow> flatten_loop n defs
               (push_members (obj_get s ''anyOf'') (push_members (obj_get s ''oneOf'') (push_members (obj_get s ''allOf'') stack)))
               (merge_node s sh))"

definition flatten_schema_shape :: "jsval \<Rightarrow> (string \<times> jsval) list \<Rightarrow> string list \<Rightarrow> schema_shape" where
  "flatten_schema_shape node defs refs =
     flatten_loop 500 defs [node] \<lparr>sh_props = [], sh_items = JUndef, sh_scalar = None, sh_refs = refs\<rparr>"

definition PROJECT_MAX_DEPTH :: nat where
  "PROJECT_MAX_DEPTH = 5"

definition PROJECT_MAX_FIELDS :: nat where
  "PROJECT_MAX_FIELDS = 50"

definition PROJECT_MAX_FRONTIER :: nat where
  "PROJECT_MAX_FRONTIER = 2000"

record project_item =
  pi_node :: jsval
  pi_path :: string
  pi_depth :: nat
  pi_refs :: "string list"

definition sub_path :: "string \<Rightarrow> string \<Rightarrow> string" where
  "sub_path p k = (if p = [] then k else p @ ''.'' @ k)"

definition child_item :: "project_item \<Rightarrow> string list \<Rightarrow> string \<Rightarrow> jsval \<Rightarrow> project_item" where
  "child_item it refs k v = \<lparr>pi_node = v, pi_path = sub_path (pi_path it) k, pi_depth = pi_depth it + 1, pi_refs = refs\<rparr>"

text \<open>One item of the frontier: the next frontier and the fields found so far.\<close>

definition project_item_step ::
  "(string \<times> jsval) list \<Rightarrow> project_item \<Rightarrow> project_item list \<Rightarrow> (string \<times> string) list \<Rightarrow> project_item list \<times> (string \<times> string) list" where
  "project_item_step defs it nxt found =
     (if \<not> is_js_object (pi_node it) then (nxt, found)
      else let sh = flatten_schema_shape (pi_node it) defs (pi_refs it) in
        if sh_props sh \<noteq> [] then
          (nxt @ take (PROJECT_MAX_FRONTIER - length nxt) (map (\<lambda>(k, v). child_item it (sh_refs sh) k v) (sh_props sh)), found)
        else if sh_items sh \<noteq> JUndef then (nxt @ [child_item it (sh_refs sh) ''0'' (sh_items sh)], found)
        else case sh_scalar sh of
          Some l \<Rightarrow> (nxt, if pi_path it \<noteq> [] \<and> pi_path it \<notin> fst ` set found then found @ [(pi_path it, l)] else found)
        | None \<Rightarrow> (nxt, found))"

fun project_level ::
  "(string \<times> jsval) list \<Rightarrow> project_item list \<Rightarrow> project_item list \<Rightarrow> (string \<times> string) list \<Rightarrow> project_item list \<times> (string \<times> string) list" where
  "project_level defs [] nxt found = (nxt, found)"
| "project_level defs (it # its) nxt found =
     (if length found \<ge> PROJECT_MAX_FIELDS then (nxt, found)
      else let (nxt', found') = project_item_step defs it nxt found in project_level defs its nxt' found')"

lemma item_step_deeper:
  "snd_it \<in> set (fst (project_item_step defs it nxt found)) \<Longrightarrow> snd_it \<in> set nxt \<or> pi_depth snd_it = pi_depth it + 1"
  by (auto simp: project_item_step_def Let_def child_item_def split: if_splits option.splits dest!: in_set_takeD)

lemma level_deeper:
  "x \<in> set (fst (project_level defs its nxt found)) \<Longrightarrow> x \<in> set nxt \<or> (\<exists>it \<in> set its. pi_depth x = pi_depth it + 1)"
proof (induction defs its nxt found rule: project_level.induct)
  case (2 defs it its nxt found)
  show ?case
  proof (cases "length found \<ge> PROJECT_MAX_FIELDS")
    case False
    obtain nxt' found' where s: "project_item_step defs it nxt found = (nxt', found')" by fastforce
    have "x \<in> set nxt' \<or> (\<exists>it \<in> set its. pi_depth x = pi_depth it + 1)"
      using 2(1) [OF False s [symmetric]] 2(2) False s by simp
    then show ?thesis using item_step_deeper [of x defs it nxt found] s by auto
  qed (use 2 in simp)
qed simp

definition frontier_rank :: "project_item list \<Rightarrow> nat" where
  "frontier_rank its = (if its = [] then 0 else Suc (Suc PROJECT_MAX_DEPTH - Min (pi_depth ` set its)))"

lemma frontier_rank_decreases:
  assumes "frontier \<noteq> []"
    and "\<And>x. x \<in> set nxt \<Longrightarrow> \<exists>it \<in> set frontier. pi_depth x = pi_depth it + 1"
  shows "frontier_rank (filter (\<lambda>it. pi_depth it \<le> PROJECT_MAX_DEPTH) nxt) < frontier_rank frontier"
proof (cases "filter (\<lambda>it. pi_depth it \<le> PROJECT_MAX_DEPTH) nxt = []")
  case True
  with assms(1) show ?thesis by (simp add: frontier_rank_def)
next
  case False
  let ?n = "filter (\<lambda>it. pi_depth it \<le> PROJECT_MAX_DEPTH) nxt"
  have "Min (pi_depth ` set ?n) \<in> pi_depth ` set ?n" using False by (intro Min_in) (auto simp: filter_empty_conv)
  then obtain y where y: "y \<in> set nxt" "pi_depth y \<le> PROJECT_MAX_DEPTH" "Min (pi_depth ` set ?n) = pi_depth y" by auto
  from assms(2) [OF y(1)] obtain it where it: "it \<in> set frontier" "pi_depth y = pi_depth it + 1" by auto
  have "Min (pi_depth ` set frontier) \<le> pi_depth it" using it(1) by simp
  with it(2) y(2,3) False assms(1) show ?thesis by (simp add: frontier_rank_def)
qed

function project_loop :: "(string \<times> jsval) list \<Rightarrow> project_item list \<Rightarrow> (string \<times> string) list \<Rightarrow> (string \<times> string) list" where
  "project_loop defs frontier found =
     (if frontier = [] \<or> length found \<ge> PROJECT_MAX_FIELDS then found
      else let (nxt, found') = project_level defs frontier [] found in
        project_loop defs (filter (\<lambda>it. pi_depth it \<le> PROJECT_MAX_DEPTH) nxt) found')"
  by pat_completeness auto

termination
proof (relation "measure (\<lambda>(defs, frontier, found). frontier_rank frontier)", goal_cases)
  case (2 defs frontier found x nxt found')
  have "\<exists>it \<in> set frontier. pi_depth z = pi_depth it + 1" if "z \<in> set nxt" for z
    using level_deeper [of z defs frontier "[]" found] that 2(2,3) by (metis fst_conv list.set(1) empty_iff)
  with 2(1) show ?case by (auto intro: frontier_rank_decreases)
qed simp

definition project_response_fields :: "jsval \<Rightarrow> (string \<times> jsval) list \<Rightarrow> (string \<times> string) list" where
  "project_response_fields schema defs =
     project_loop defs [\<lparr>pi_node = schema, pi_path = [], pi_depth = 0, pi_refs = []\<rparr>] []"

section \<open>What an operation returned\<close>

definition SAMPLE_MAX_DEPTH :: nat where
  "SAMPLE_MAX_DEPTH = 4"

definition SAMPLE_MAX_FIELDS :: nat where
  "SAMPLE_MAX_FIELDS = 25"

definition SAMPLE_MAX_VALUE :: nat where
  "SAMPLE_MAX_VALUE = 120"

definition render_sample :: "string \<Rightarrow> string" where
  "render_sample v = (if length v > SAMPLE_MAX_VALUE then take SAMPLE_MAX_VALUE v @ ''...'' else v)"

function (sequential) visit_sample :: "jsval \<Rightarrow> string \<Rightarrow> nat \<Rightarrow> (string \<times> string) list \<Rightarrow> (string \<times> string) list"
  and visit_items :: "jsval list \<Rightarrow> nat \<Rightarrow> string \<Rightarrow> nat \<Rightarrow> (string \<times> string) list \<Rightarrow> (string \<times> string) list"
  and visit_props :: "(string \<times> jsval) list \<Rightarrow> string \<Rightarrow> nat \<Rightarrow> (string \<times> string) list \<Rightarrow> (string \<times> string) list" where
  "visit_sample (JArr vs) path depth out =
     (if length out \<ge> SAMPLE_MAX_FIELDS \<or> depth \<ge> SAMPLE_MAX_DEPTH then out else visit_items vs 0 path depth out)"
| "visit_sample (JObj ps) path depth out =
     (if length out \<ge> SAMPLE_MAX_FIELDS \<or> depth \<ge> SAMPLE_MAX_DEPTH then out else visit_props ps path depth out)"
| "visit_sample v path depth out =
     (if length out \<ge> SAMPLE_MAX_FIELDS then out
      else case scalar_text v of
        Some t \<Rightarrow> if path \<noteq> [] then out @ [(path, render_sample t)] else out
      | None \<Rightarrow> out)"
| "visit_items [] i path depth out = out"
| "visit_items (v # vs) i path depth out =
     (if length out \<ge> SAMPLE_MAX_FIELDS then out
      else visit_items vs (Suc i) path depth (visit_sample v (sub_path path (nat_digits i)) (depth + 1) out))"
| "visit_props [] path depth out = out"
| "visit_props ((k, v) # ps) path depth out =
     (if length out \<ge> SAMPLE_MAX_FIELDS then out
      else visit_props ps path depth (visit_sample v (sub_path path k) (depth + 1) out))"
  by pat_completeness auto

termination
  by (relation "measure (case_sum (\<lambda>(v, _). size v) (case_sum (\<lambda>(vs, _). size_list size vs)
      (\<lambda>(ps, _). size_list (size_prod (\<lambda>_. 0) size) ps)))") simp_all

definition extract_response_fields :: "jsval \<Rightarrow> (string \<times> string) list" where
  "extract_response_fields v = visit_sample v [] 0 []"

section \<open>Ranking\<close>

lemma compare_tiers_keys:
  "compare_tiers = cmp_then (cmp_int_key (\<lambda>t. if t = -1 then 1 else 0)) (cmp_int_key (\<lambda>t. t))"
  by (intro ext) (simp add: compare_tiers_def cmp_then_def cmp_int_key_def)

interpretation tiers: comparator compare_tiers
  unfolding compare_tiers_keys by (rule comparator_then [OF comparator_int_key comparator_int_key])

definition bool_rank :: "bool \<Rightarrow> int" where
  "bool_rank b = (if b then 1 else 0)"

lemma compare_candidates_keys:
  "compare_health_check_candidates =
     cmp_then (cmp_int_key (\<lambda>c. bool_rank (hc_destructive c))) (cmp_then (cmp_int_key hc_required_args)
       (cmp_then (cmp_int_key (\<lambda>c. bool_rank (hc_method c \<noteq> ''get''))) (cmp_then (\<lambda>a b. cmp_str (hc_method a) (hc_method b))
         (\<lambda>a b. cmp_str (hc_operation a) (hc_operation b)))))"
proof (intro ext)
  fix a b
  show "compare_health_check_candidates a b =
     cmp_then (cmp_int_key (\<lambda>c. bool_rank (hc_destructive c))) (cmp_then (cmp_int_key hc_required_args)
       (cmp_then (cmp_int_key (\<lambda>c. bool_rank (hc_method c \<noteq> ''get''))) (cmp_then (\<lambda>a b. cmp_str (hc_method a) (hc_method b))
         (\<lambda>a b. cmp_str (hc_operation a) (hc_operation b))))) a b"
    using js_str_less_total [of "hc_method a" "hc_method b"]
    by (simp add: compare_health_check_candidates_def cmp_then_def cmp_int_key_def bool_rank_def cmp_str_def)
      (auto dest: js_str_less_asym)
qed

interpretation candidates: comparator compare_health_check_candidates
  unfolding compare_candidates_keys
  by (rule comparator_then [OF comparator_int_key comparator_then [OF comparator_int_key comparator_then [OF comparator_int_key
    comparator_then [OF comparator_str_key comparator_str_key]]]])

lemma comparator_image:
  assumes "comparator c"
  shows "comparator (\<lambda>x y. c (f x) (f y))"
  using comparator.cmp_flip [OF assms] comparator.cmp_trans [OF assms] by unfold_locales blast+

lemma compare_tiered_keys:
  "compare_tiered =
     cmp_then (cmp_int_key (\<lambda>x. bool_rank (hc_destructive (fst x)))) (cmp_then (\<lambda>a b. compare_tiers (snd a) (snd b))
       (\<lambda>a b. compare_health_check_candidates (fst a) (fst b)))"
  by (intro ext) (simp add: compare_tiered_def cmp_then_def cmp_int_key_def bool_rank_def compare_tiers_def)

interpretation tiered: comparator compare_tiered
  unfolding compare_tiered_keys
  by (rule comparator_then [OF comparator_int_key comparator_then [OF comparator_image [OF tiers.comparator_axioms]
    comparator_image [OF candidates.comparator_axioms]]])

lemma compare_rows_keys:
  "compare_sample_rows = cmp_then (\<lambda>a b. compare_tiers (snd (snd a)) (snd (snd b))) (cmp_int_key (\<lambda>r. fst (snd r)))"
  by (intro ext) (simp add: compare_sample_rows_def cmp_then_def cmp_int_key_def compare_tiers_def)

interpretation sample_rows: comparator compare_sample_rows
  unfolding compare_rows_keys
  by (rule comparator_then [OF comparator_image [OF tiers.comparator_axioms] comparator_int_key])

lemma first_index_bounds: "first_index P xs = -1 \<or> 0 \<le> first_index P xs \<and> first_index P xs < int (length xs)"
  by (induction xs) (auto simp: Let_def)

text \<open>What the order of the candidates means: no operation that changes something stands before one that does not, and among those
  that are alike in this, none whose answer names nobody before one whose answer does.\<close>

definition no_worse_candidate :: "hc_candidate \<Rightarrow> hc_candidate \<Rightarrow> bool" where
  "no_worse_candidate a b \<longleftrightarrow>
     (hc_destructive a \<longrightarrow> hc_destructive b) \<and>
     (hc_destructive a = hc_destructive b \<longrightarrow>
        (candidate_identity_tier b = -1 \<or> candidate_identity_tier a \<noteq> -1 \<and> candidate_identity_tier a \<le> candidate_identity_tier b))"

lemma tiered_no_worse:
  "compare_tiered (a, candidate_identity_tier a) (b, candidate_identity_tier b) \<le> 0 \<Longrightarrow> no_worse_candidate a b"
  by (auto simp: compare_tiered_def no_worse_candidate_def compare_tiers_def split: if_splits)

lemma candidates_ranked_core:
  "mset (sort_health_check_candidates_by_identity cs) = mset cs \<and>
   sorted_wrt no_worse_candidate (sort_health_check_candidates_by_identity cs)"
proof
  let ?s = "js_sort compare_tiered (map (\<lambda>c. (c, candidate_identity_tier c)) cs)"
  have "mset (map fst ?s) = mset (map fst (map (\<lambda>c. (c, candidate_identity_tier c)) cs))"
    by (simp only: mset_map tiered.mset_js_sort)
  then show "mset (sort_health_check_candidates_by_identity cs) = mset cs"
    by (simp add: sort_health_check_candidates_by_identity_def comp_def)
  have keyed: "snd x = candidate_identity_tier (fst x)" if "x \<in> set ?s" for x
    using that by auto
  have "sorted_wrt (\<lambda>a b. compare_tiered a b \<le> 0) ?s" by (rule tiered.sorted_js_sort)
  then have "sorted_wrt (\<lambda>a b. no_worse_candidate (fst a) (fst b)) ?s"
    by (rule sorted_wrt_mono_rel [rotated]) (metis keyed prod.collapse tiered_no_worse)
  then show "sorted_wrt no_worse_candidate (sort_health_check_candidates_by_identity cs)"
    by (simp add: sort_health_check_candidates_by_identity_def sorted_wrt_map)
qed

section \<open>The projection is bounded\<close>

definition fields_ok :: "(string \<times> string) list \<Rightarrow> bool" where
  "fields_ok fs \<longleftrightarrow> length fs \<le> PROJECT_MAX_FIELDS \<and> distinct (map fst fs) \<and> [] \<notin> fst ` set fs"

lemma item_step_ok:
  "fields_ok found \<Longrightarrow> length found < PROJECT_MAX_FIELDS \<Longrightarrow> fields_ok (snd (project_item_step defs it nxt found))"
  by (auto simp: project_item_step_def Let_def fields_ok_def split: option.splits)

lemma level_ok: "fields_ok found \<Longrightarrow> fields_ok (snd (project_level defs its nxt found))"
proof (induction defs its nxt found rule: project_level.induct)
  case (2 defs it its nxt found)
  show ?case
  proof (cases "length found \<ge> PROJECT_MAX_FIELDS")
    case False
    obtain nxt' found' where s: "project_item_step defs it nxt found = (nxt', found')" by fastforce
    then have "fields_ok found'" using item_step_ok [of found defs it nxt] 2(2) False by simp
    from 2(1) [OF False s [symmetric] refl this] show ?thesis using s False by simp
  qed (use 2(2) in simp)
qed simp

declare project_loop.simps [simp del]

lemma project_loop_end: "frontier = [] \<or> length found \<ge> PROJECT_MAX_FIELDS \<Longrightarrow> project_loop defs frontier found = found"
  by (subst project_loop.simps) simp

lemma project_loop_level:
  "\<not> (frontier = [] \<or> length found \<ge> PROJECT_MAX_FIELDS) \<Longrightarrow> project_level defs frontier [] found = (nxt, found') \<Longrightarrow>
   project_loop defs frontier found = project_loop defs (filter (\<lambda>it. pi_depth it \<le> PROJECT_MAX_DEPTH) nxt) found'"
  by (subst project_loop.simps) simp

lemma projection_bounded_core: "fields_ok found \<Longrightarrow> fields_ok (project_loop defs frontier found)"
proof (induction defs frontier found rule: project_loop.induct)
  case (1 defs frontier found)
  show ?case
  proof (cases "frontier = [] \<or> length found \<ge> PROJECT_MAX_FIELDS")
    case False
    obtain nxt found' where l: "project_level defs frontier [] found = (nxt, found')" by fastforce
    then have "fields_ok found'" using level_ok [OF 1(2), of defs frontier "[]"] by simp
    with 1(1) [OF False l [symmetric] refl] show ?thesis by (simp only: project_loop_level [OF False l])
  next
    case True
    show ?thesis using 1(2) by (simp only: project_loop_end [OF True])
  qed
qed

text \<open>Whatever a response schema says, cyclic references and unions included, the walk over it ends with at most fifty fields,
  each with a path of its own that is not the response itself.\<close>

theorem projection_bounded:
  "length (project_response_fields schema defs) \<le> 50 \<and> distinct (map fst (project_response_fields schema defs)) \<and>
   [] \<notin> fst ` set (project_response_fields schema defs)"
  using projection_bounded_core [of "[]" defs] unfolding project_response_fields_def fields_ok_def PROJECT_MAX_FIELDS_def by simp

text \<open>Whatever candidates a plugin offers, ranking keeps them all, puts no operation that changes something before one that does
  not, and among operations alike in this none whose answer says less about the account before one whose answer says more.\<close>

theorem candidates_ranked:
  "mset (sort_health_check_candidates_by_identity cs) = mset cs \<and>
   sorted_wrt no_worse_candidate (sort_health_check_candidates_by_identity cs)"
  by (rule candidates_ranked_core)

section \<open>The sample says what the identity path says\<close>

text \<open>No property name is empty or has a dot in it, and no object has two properties of one name.\<close>

fun plain_keys :: "jsval \<Rightarrow> bool" where
  "plain_keys (JArr vs) \<longleftrightarrow> (\<forall>v \<in> set vs. plain_keys v)"
| "plain_keys (JObj ps) \<longleftrightarrow> distinct (map fst ps) \<and> (\<forall>(k, v) \<in> set ps. k \<noteq> [] \<and> CHR ''.'' \<notin> set k \<and> plain_keys v)"
| "plain_keys _ \<longleftrightarrow> True"

definition resolves :: "jsval \<Rightarrow> string \<times> string \<Rightarrow> bool" where
  "resolves v row \<longleftrightarrow> (\<exists>t. extract_identity v (Some (fst row)) = Some t \<and> snd row = render_sample t)"

definition reaches :: "jsval \<Rightarrow> string \<Rightarrow> jsval \<Rightarrow> bool" where
  "reaches root path v \<longleftrightarrow> (if path = [] then v = root else walk_path root (js_split (CHR ''.'') path) = Some v)"

lemma walk_append: "walk_path v (xs @ ys) = Option.bind (walk_path v xs) (\<lambda>w. walk_path w ys)"
  by (induction xs arbitrary: v) (auto split: option.split)

lemma split_append: "js_split c (p @ c # k) = js_split c p @ js_split c k"
proof (induction p)
  case (Cons a p)
  then show ?case by (cases "js_split c p") auto
qed simp

lemma reaches_sub:
  assumes "reaches root path v" and "step_into v k = Some w" and "k \<noteq> []" and "CHR ''.'' \<notin> set k"
  shows "reaches root (sub_path path k) w"
proof (cases "path = []")
  case True
  with assms show ?thesis by (simp add: reaches_def sub_path_def js_split_literal)
next
  case False
  then have "js_split (CHR ''.'') (path @ ''.'' @ k) = js_split (CHR ''.'') path @ [k]"
    using split_append [of "CHR ''.''" path k] js_split_literal [OF assms(4)] by simp
  with False assms show ?thesis by (simp add: reaches_def sub_path_def walk_append)
qed

lemma sample_leaf: "reaches root path v \<Longrightarrow> path \<noteq> [] \<Longrightarrow> scalar_text v = Some t \<Longrightarrow> resolves root (path, render_sample t)"
  by (auto simp: resolves_def extract_identity_def reaches_def)

lemma step_item: "step_into (JArr (ws @ v # vs)) (nat_digits (length ws)) = Some v"
  by (simp add: step_into_def string_to_number_digits)

lemma step_prop: "distinct (map fst (qs @ (k, v) # ps)) \<Longrightarrow> step_into (JObj (qs @ (k, v) # ps)) k = Some v"
  by (auto simp: step_into_def prop_of_def map_add_def dest!: map_of_SomeD split: option.split) (force)

lemma visit_resolves:
  "reaches root path v \<Longrightarrow> plain_keys v \<Longrightarrow> \<forall>r \<in> set out. resolves root r \<Longrightarrow>
     \<forall>r \<in> set (visit_sample v path depth out). resolves root r"
  "reaches root path (JArr (ws @ vs)) \<Longrightarrow> i = length ws \<Longrightarrow> \<forall>v \<in> set vs. plain_keys v \<Longrightarrow> \<forall>r \<in> set out. resolves root r \<Longrightarrow>
     \<forall>r \<in> set (visit_items vs i path depth out). resolves root r"
  "reaches root path (JObj (qs @ ps)) \<Longrightarrow> plain_keys (JObj (qs @ ps)) \<Longrightarrow> \<forall>r \<in> set out. resolves root r \<Longrightarrow>
     \<forall>r \<in> set (visit_props ps path depth out). resolves root r"
proof (induction v path depth out and vs i path depth out and ps path depth out arbitrary: and ws and qs
    rule: visit_sample_visit_items_visit_props.induct)
  case (1 vs path depth out)
  then show ?case using 1(1) [of "[]"] by simp
next
  case (2 ps path depth out)
  then show ?case using 2(1) [of "[]"] by simp
next
  case (5 v vs i path depth out)
  have "CHR ''.'' \<notin> set (nat_digits i)" using digits_range [of "CHR ''.''" i] digit_signs by metis
  moreover have "nat_digits i \<noteq> []" by (subst nat_digits.simps) simp
  ultimately have "reaches root (sub_path path (nat_digits i)) v"
    using reaches_sub [OF 5(3) step_item] 5(4) by simp
  with 5(1) 5(5,6) have "length out < SAMPLE_MAX_FIELDS \<Longrightarrow>
      \<forall>r \<in> set (visit_sample v (sub_path path (nat_digits i)) (depth + 1) out). resolves root r"
    by simp
  with 5(2) [of "ws @ [v]"] 5(3-6) show ?case by (cases "length out < SAMPLE_MAX_FIELDS") simp_all
next
  case (7 k v ps path depth out)
  have d: "distinct (map fst (qs @ (k, v) # ps))" and kv: "k \<noteq> []" "CHR ''.'' \<notin> set k" "plain_keys v"
    using 7(4) by auto
  have "reaches root (sub_path path k) v"
    using reaches_sub [OF 7(3) step_prop [OF d] kv(1,2)] .
  with 7(1,5) kv(3) have "length out < SAMPLE_MAX_FIELDS \<Longrightarrow>
      \<forall>r \<in> set (visit_sample v (sub_path path k) (depth + 1) out). resolves root r"
    by simp
  with 7(2) [of "qs @ [(k, v)]"] 7(3-5) show ?case by (cases "length out < SAMPLE_MAX_FIELDS") simp_all
qed (auto simp: sample_leaf)

lemma visit_bounded:
  "length out \<le> SAMPLE_MAX_FIELDS \<Longrightarrow> length (visit_sample v path depth out) \<le> SAMPLE_MAX_FIELDS"
  "length out \<le> SAMPLE_MAX_FIELDS \<Longrightarrow> length (visit_items vs i path depth out) \<le> SAMPLE_MAX_FIELDS"
  "length out \<le> SAMPLE_MAX_FIELDS \<Longrightarrow> length (visit_props ps path depth out) \<le> SAMPLE_MAX_FIELDS"
  by (induction v path depth out and vs i path depth out and ps path depth out
      rule: visit_sample_visit_items_visit_props.induct) (auto split: option.splits)

text \<open>A sample of a response has at most twenty-five rows, and each is what the check would read as the identity at
  its path, cut to what is shown, as long as no property name is empty or contains a dot.\<close>

theorem sample_is_identity:
  assumes "plain_keys v"
  shows "length (extract_response_fields v) \<le> 25 \<and>
    (\<forall>(path, shown) \<in> set (extract_response_fields v). \<exists>t. extract_identity v (Some path) = Some t \<and> shown = render_sample t)"
proof -
  have "reaches v [] v" by (simp add: reaches_def)
  then have "\<forall>r \<in> set (extract_response_fields v). resolves v r"
    unfolding extract_response_fields_def using visit_resolves(1) [of v "[]" v "[]" 0] assms by simp
  then show ?thesis
    using visit_bounded(1) [of "[]" v "[]" 0] by (auto simp: resolves_def extract_response_fields_def SAMPLE_MAX_FIELDS_def)
qed

lemma sample_is_identity_witness:
  "extract_response_fields (JObj [(''user'', JObj [(''email'', JStr ''a@b'')]), (''ids'', JArr [JNum 7])]) =
     [(''user.email'', ''a@b''), (''ids.0'', ''7'')] \<and>
   extract_identity (JObj [(''user'', JObj [(''email'', JStr ''a@b'')]), (''ids'', JArr [JNum 7])]) (Some ''ids.0'') = Some ''7''"
proof -
  let ?v = "JObj [(''user'', JObj [(''email'', JStr ''a@b'')]), (''ids'', JArr [JNum 7])]"
  have rows: "extract_response_fields ?v = [(''user.email'', ''a@b''), (''ids.0'', ''7'')]" by code_simp
  have "plain_keys ?v" by code_simp
  from sample_is_identity [OF this] rows show ?thesis by (auto simp: render_sample_def SAMPLE_MAX_VALUE_def split: if_splits)
qed

text \<open>A property name with a dot in it is sampled under a path that resolves to nothing.\<close>

lemma dotted_key_unresolved:
  "extract_response_fields (JObj [(''a.b'', JStr ''x'')]) = [(''a.b'', ''x'')] \<and>
   extract_identity (JObj [(''a.b'', JStr ''x'')]) (Some ''a.b'') = None"
  by code_simp

end
