(* ===== verification/OutboundGuard.thy ===== *)
theory OutboundGuard
  imports OAuthHelpers Digits
begin

text \<open>
  The guard of hosted outbound requests (\<open>sdk/src/hosted-http-client.ts\<close>): which addresses and names
  are refused, the validation of one URL, and the fetch that validates every hop of a redirect and
  drops credentials when the origin changes. The resolver of names and the underlying fetch act on
  a state of any type; parsing a URL, alone or against a base, is the platform's. A request that is
  not a URL text carries its own headers.
\<close>

unbundle bit_operations_syntax

section \<open>Addresses\<close>

definition parse_ipv4 :: "string \<Rightarrow> (nat \<times> nat \<times> nat \<times> nat) option" where
  "parse_ipv4 h =
     (let parts = js_split (CHR ''.'') h;
          octet = (\<lambda>p. if all_digits p then (case digits_to_int 0 p of Some n \<Rightarrow> if n \<le> 255 then Some (nat n) else None | None \<Rightarrow> None) else None)
      in case map octet parts of [Some a, Some b, Some c, Some d] \<Rightarrow> Some (a, b, c, d) | _ \<Rightarrow> None)"

text \<open>\<open>Number.parseInt(s, 16)\<close> of a text of hexadecimal digits only.\<close>

definition hex_val :: "char \<Rightarrow> nat option" where
  "hex_val c = (let n = (of_char c :: nat) in
     if 48 \<le> n \<and> n \<le> 57 then Some (n - 48)
     else if 97 \<le> n \<and> n \<le> 102 then Some (n - 87)
     else if 65 \<le> n \<and> n \<le> 70 then Some (n - 55) else None)"

fun hex_to_nat :: "nat \<Rightarrow> string \<Rightarrow> nat option" where
  "hex_to_nat acc [] = Some acc"
| "hex_to_nat acc (c # cs) = (case hex_val c of None \<Rightarrow> None | Some d \<Rightarrow> hex_to_nat (acc * 16 + d) cs)"

definition MAPPED_PREFIX :: string where
  "MAPPED_PREFIX = ''::ffff:''"

definition parse_ipv4_mapped_ipv6 :: "string \<Rightarrow> (nat \<times> nat \<times> nat \<times> nat) option" where
  "parse_ipv4_mapped_ipv6 h =
     (if \<not> js_starts_with h MAPPED_PREFIX then None
      else let embedded = drop (length MAPPED_PREFIX) h;
               word = (\<lambda>p. if p = [] then None else case hex_to_nat 0 p of Some n \<Rightarrow> if n \<le> 0xffff then Some n else None | None \<Rightarrow> None)
        in case parse_ipv4 embedded of
             Some q \<Rightarrow> Some q
           | None \<Rightarrow> (case map word (js_split (CHR '':'') embedded) of
               [Some high, Some low] \<Rightarrow> Some (drop_bit 8 high, high AND 0xff, drop_bit 8 low, low AND 0xff)
             | _ \<Rightarrow> None))"

definition is_blocked_ipv4 :: "nat \<times> nat \<times> nat \<times> nat \<Rightarrow> bool" where
  "is_blocked_ipv4 q =
     (case q of (a, b, _, _) \<Rightarrow>
        a = 0 \<or> a = 10 \<or> a = 127 \<or>
        (a = 100 \<and> b \<ge> 64 \<and> b \<le> 127) \<or>
        (a = 169 \<and> b = 254) \<or>
        (a = 172 \<and> b \<ge> 16 \<and> b \<le> 31) \<or>
        (a = 192 \<and> b = 0) \<or>
        (a = 192 \<and> b = 168) \<or>
        (a = 198 \<and> (b = 18 \<or> b = 19)) \<or>
        a \<ge> 224)"

definition is_blocked_ipv6 :: "string \<Rightarrow> bool" where
  "is_blocked_ipv6 h =
     (let normalized = js_lower h in
      if normalized \<in> {''::'', ''::1'', ''0:0:0:0:0:0:0:0'', ''0:0:0:0:0:0:0:1''} then True
      else case find (\<lambda>p. p \<noteq> []) (js_split (CHR '':'') normalized) of
        None \<Rightarrow> False
      | Some w \<Rightarrow> if length w > 4 then False else
          (case hex_to_nat 0 w of
             None \<Rightarrow> False
           | Some n \<Rightarrow> n AND 0xffc0 = 0xfe80 \<or> n AND 0xfe00 = 0xfc00 \<or> n AND 0xff00 = 0xff00))"

definition is_blocked_metadata_hostname :: "string \<Rightarrow> bool" where
  "is_blocked_metadata_hostname h \<longleftrightarrow>
     js_lower h \<in> {''metadata.google.internal'', ''metadata'', ''instance-data'', ''169.254.169.254''}"

text \<open>\<open>s.replace(/^\[|\]$/g, "")\<close>.\<close>

definition strip_brackets :: "string \<Rightarrow> string" where
  "strip_brackets s =
     (let t = (case s of c # cs \<Rightarrow> if c = CHR ''['' then cs else s | [] \<Rightarrow> []) in
      if t \<noteq> [] \<and> last t = CHR '']'' then butlast t else t)"

definition normalized_host :: "string \<Rightarrow> string" where
  "normalized_host h = strip_brackets (js_lower h)"

definition is_local_or_private_hostname :: "string \<Rightarrow> bool" where
  "is_local_or_private_hostname h =
     (let normalized = normalized_host h in
      if normalized = ''localhost'' \<or> js_ends_with normalized ''.localhost'' then True
      else case parse_ipv4 normalized of
        Some q \<Rightarrow> is_blocked_ipv4 q
      | None \<Rightarrow> (case parse_ipv4_mapped_ipv6 normalized of
          Some q \<Rightarrow> is_blocked_ipv4 q
        | None \<Rightarrow> is_blocked_ipv6 normalized))"

definition is_address_literal :: "string \<Rightarrow> bool" where
  "is_address_literal h =
     (let normalized = normalized_host h in
      parse_ipv4 normalized \<noteq> None \<or>
      (normalized \<noteq> [] \<and> list_all (\<lambda>c. hex_val c \<noteq> None \<or> c = CHR '':'' \<or> c = CHR ''.'') normalized))"

section \<open>Validating a URL\<close>

datatype outbound_error =
    HostedOutboundRequestBlocked string string
  | InvalidUrl string
  | UnderlyingError string

type_synonym ('s, 'a) net = "'s \<Rightarrow> 's \<times> (outbound_error + 'a)"

record 's hosted_options =
  ho_allow_local :: bool
  ho_max_redirects :: "int option"
  ho_resolve :: "(string \<Rightarrow> 's \<Rightarrow> 's \<times> string list option) option"

definition check_addresses :: "string \<Rightarrow> string list \<Rightarrow> outbound_error + unit" where
  "check_addresses url addresses =
     (if addresses = [] then Inl (HostedOutboundRequestBlocked url ''Hostname did not resolve to an address'')
      else err_iter (\<lambda>a. if is_local_or_private_hostname a then Inl (HostedOutboundRequestBlocked url ''Resolved address is local or private'') else Inr ())
             addresses)"

definition validate_hosted_outbound_url :: "url_parser \<Rightarrow> 's hosted_options \<Rightarrow> string \<Rightarrow> ('s, unit) net" where
  "validate_hosted_outbound_url up opts url s =
     (case up url of
        None \<Rightarrow> (s, Inl (HostedOutboundRequestBlocked url ''URL is invalid''))
      | Some u \<Rightarrow>
          if ur_protocol u \<noteq> ''http:'' \<and> ur_protocol u \<noteq> ''https:'' then
            (s, Inl (HostedOutboundRequestBlocked url ''Only HTTP and HTTPS outbound requests are allowed''))
          else if is_blocked_metadata_hostname (ur_hostname u) then
            (s, Inl (HostedOutboundRequestBlocked url ''Metadata service addresses are not allowed''))
          else if \<not> ho_allow_local opts \<and> is_local_or_private_hostname (ur_hostname u) then
            (s, Inl (HostedOutboundRequestBlocked url ''Local and private network addresses are not allowed''))
          else case ho_resolve opts of
            None \<Rightarrow> (s, Inr ())
          | Some resolve \<Rightarrow>
              if ho_allow_local opts \<or> is_address_literal (ur_hostname u) then (s, Inr ())
              else case resolve (normalized_host (ur_hostname u)) s of
                (s', None) \<Rightarrow> (s', Inl (HostedOutboundRequestBlocked url ''Hostname could not be resolved''))
              | (s', Some addresses) \<Rightarrow> (s', check_addresses url addresses))"

section \<open>The guarded fetch\<close>

record fetch_init =
  fi_method :: "string option"
  fi_headers :: "(string \<times> string) list"
  fi_body :: "string option"

record fetch_response =
  fr_status :: int
  fr_location :: "string option"
  fr_text :: string

datatype fetch_input = UrlText string | RequestObject string fetch_init

fun input_url :: "fetch_input \<Rightarrow> string" where
  "input_url (UrlText u) = u"
| "input_url (RequestObject u _) = u"

definition CREDENTIAL_HEADERS :: "string list" where
  "CREDENTIAL_HEADERS = [''authorization'', ''proxy-authorization'', ''cookie'']"

definition no_init :: fetch_init where
  "no_init = \<lparr>fi_method = None, fi_headers = [], fi_body = None\<rparr>"

definition strip_credential_headers :: "fetch_init option \<Rightarrow> fetch_init" where
  "strip_credential_headers init =
     (let i = (case init of None \<Rightarrow> no_init | Some i \<Rightarrow> i) in
      i\<lparr>fi_headers := filter (\<lambda>(n, _). js_lower n \<notin> set CREDENTIAL_HEADERS) (fi_headers i)\<rparr>)"

type_synonym 's fetcher = "fetch_input \<Rightarrow> fetch_init option \<Rightarrow> ('s, fetch_response) net"

definition is_redirect :: "fetch_response \<Rightarrow> bool" where
  "is_redirect r \<longleftrightarrow> fr_status r \<ge> 300 \<and> fr_status r < 400 \<and> fr_location r \<noteq> None"

text \<open>The loop, with how many redirects may still be followed.\<close>

fun guard_loop ::
  "url_parser \<Rightarrow> (string \<Rightarrow> url_parser) \<Rightarrow> 's hosted_options \<Rightarrow> 's fetcher \<Rightarrow> nat \<Rightarrow> fetch_input \<Rightarrow> fetch_init option \<Rightarrow> ('s, fetch_response) net" where
  "guard_loop up rel opts fetch n cur init s =
     (case validate_hosted_outbound_url up opts (input_url cur) s of
        (s1, Inl e) \<Rightarrow> (s1, Inl e)
      | (s1, Inr _) \<Rightarrow>
          (case fetch cur init s1 of
             (s2, Inl e) \<Rightarrow> (s2, Inl e)
           | (s2, Inr r) \<Rightarrow>
               (case n of
                  0 \<Rightarrow> (s2, Inr r)
                | Suc m \<Rightarrow>
                    if \<not> is_redirect r then (s2, Inr r)
                    else case rel (input_url cur) (the (fr_location r)) of
                      None \<Rightarrow> (s2, Inl (InvalidUrl (the (fr_location r))))
                    | Some nxt \<Rightarrow>
                        guard_loop up rel opts fetch m (UrlText (url_href nxt))
                          (if Some (url_origin nxt) \<noteq> map_option url_origin (up (input_url cur))
                           then Some (strip_credential_headers init) else init) s2)))"

declare guard_loop.simps [simp del]

definition guard_fetch ::
  "url_parser \<Rightarrow> (string \<Rightarrow> url_parser) \<Rightarrow> (string \<Rightarrow> 's \<Rightarrow> 's \<times> string list option) \<Rightarrow> 's hosted_options \<Rightarrow> 's fetcher \<Rightarrow> 's fetcher" where
  "guard_fetch up rel dns opts fetch input init =
     (let guarded = opts\<lparr>ho_resolve := Some (case ho_resolve opts of Some r \<Rightarrow> r | None \<Rightarrow> dns)\<rparr>;
          max_redirects = (case ho_max_redirects opts of Some m \<Rightarrow> m | None \<Rightarrow> 10) in
      if max_redirects < 0 then fetch input init
      else guard_loop up rel guarded fetch (nat max_redirects) input init)"

section \<open>The refused IPv4 addresses\<close>

text \<open>An address as a 32-bit word, its dotted and its two mapped forms, and the blocks that are refused.\<close>

definition octets_of :: "32 word \<Rightarrow> nat \<times> nat \<times> nat \<times> nat" where
  "octets_of x = (unat x div 2 ^ 24, unat x div 2 ^ 16 mod 256, unat x div 2 ^ 8 mod 256, unat x mod 256)"

definition dotted :: "32 word \<Rightarrow> string" where
  "dotted x = (case octets_of x of (a, b, c, d) \<Rightarrow> nat_digits a @ ''.'' @ nat_digits b @ ''.'' @ nat_digits c @ ''.'' @ nat_digits d)"

definition BLOCKED_PREFIXES :: "(32 word \<times> nat) list" where
  "BLOCKED_PREFIXES =
     [(0x00000000, 8), (0x0A000000, 8), (0x7F000000, 8), (0x64400000, 10), (0xA9FE0000, 16), (0xAC100000, 12), (0xC0000000, 16),
      (0xC0A80000, 16), (0xC6120000, 15), (0xE0000000, 3)]"

definition in_prefix :: "32 word \<Rightarrow> 32 word \<times> nat \<Rightarrow> bool" where
  "in_prefix x p = (drop_bit (32 - snd p) x = drop_bit (32 - snd p) (fst p))"

lemma address_bound: "unat (x :: 32 word) < 4294967296"
  using unsigned_less [where 'a = nat, of x] by simp

lemma in_prefix_nat: "in_prefix x (p, n) \<longleftrightarrow> unat x div 2 ^ (32 - n) = unat p div 2 ^ (32 - n)"
  unfolding in_prefix_def word_unat_eq_iff fst_conv snd_conv unat_drop_bit_eq by (simp only: drop_bit_eq_div)

lemma div_is: "0 < k \<Longrightarrow> m div k = q \<longleftrightarrow> q * k \<le> m \<and> m < Suc q * k" for m k q :: nat
  using div_less_iff_less_mult [of k m "Suc q"] less_eq_div_iff_mult_less_eq [of k q m] by auto

lemma octet_range:
  assumes "h < 256"
  shows "m div 256 = q \<and> l \<le> m mod 256 \<and> m mod 256 \<le> h \<longleftrightarrow> 256 * q + l \<le> m \<and> m \<le> 256 * q + (h :: nat)"
proof -
  obtain a b where m: "m = 256 * a + b" "b < 256" "m div 256 = a" "m mod 256 = b"
    using mult_div_mod_eq [of 256 m] by (metis mod_less_divisor zero_less_numeral)
  have "a = q" if "256 * q + l \<le> m" "m \<le> 256 * q + h"
  proof (rule ccontr)
    assume "a \<noteq> q"
    then have "a + 1 \<le> q \<or> q + 1 \<le> a" by linarith
    then show False using that assms m(1,2) by linarith
  qed
  then show ?thesis unfolding m(3,4) using m(1) by auto
qed

lemma blocked_octets: "is_blocked_ipv4 (octets_of x) \<longleftrightarrow> list_ex (in_prefix x) BLOCKED_PREFIXES"
proof -
  define m where "m = unat x div 65536"
  have m: "m < 65536" using address_bound [of x] unfolding m_def by (simp add: less_mult_imp_div_less)
  have d: "unat x div 16777216 = m div 256" "unat x div 4194304 = m div 64" "unat x div 1048576 = m div 16"
    "unat x div 131072 = m div 2" "unat x div 536870912 = m div 8192"
    unfolding m_def by (simp_all add: div_mult2_eq [symmetric])
  define a b where "a = m div 256" and "b = m mod 256"
  have r: "m div 256 = q \<and> l \<le> m mod 256 \<and> m mod 256 \<le> h \<longleftrightarrow> 256 * q + l \<le> m \<and> m \<le> 256 * q + h" if "h < 256" for q l h
    by (rule octet_range [OF that])
  have "m div 64 = 401 \<longleftrightarrow> a = 100 \<and> 64 \<le> b \<and> b \<le> 127"
    unfolding a_def b_def using r [of 127 100 64] div_is [of 64 m 401] by auto
  moreover have "m = 43518 \<longleftrightarrow> a = 169 \<and> b = 254"
    unfolding a_def b_def using r [of 254 169 254] by auto
  moreover have "m div 16 = 2753 \<longleftrightarrow> a = 172 \<and> 16 \<le> b \<and> b \<le> 31"
    unfolding a_def b_def using r [of 31 172 16] div_is [of 16 m 2753] by auto
  moreover have "m = 49152 \<longleftrightarrow> a = 192 \<and> b = 0"
    unfolding a_def b_def using r [of 0 192 0] by auto
  moreover have "m = 49320 \<longleftrightarrow> a = 192 \<and> b = 168"
    unfolding a_def b_def using r [of 168 192 168] by auto
  moreover have "m div 2 = 25353 \<longleftrightarrow> a = 198 \<and> (b = 18 \<or> b = 19)"
    unfolding a_def b_def using r [of 19 198 18] div_is [of 2 m 25353] by auto
  moreover have "m div 8192 = 7 \<longleftrightarrow> 224 \<le> a"
    unfolding a_def using div_is [of 8192 m 7] less_eq_div_iff_mult_less_eq [of 256 224 m] m by auto
  ultimately have blocks: "m div 64 = 401 \<longleftrightarrow> a = 100 \<and> 64 \<le> b \<and> b \<le> 127" "m = 43518 \<longleftrightarrow> a = 169 \<and> b = 254"
    "m div 16 = 2753 \<longleftrightarrow> a = 172 \<and> 16 \<le> b \<and> b \<le> 31" "m = 49152 \<longleftrightarrow> a = 192 \<and> b = 0" "m = 49320 \<longleftrightarrow> a = 192 \<and> b = 168"
    "m div 2 = 25353 \<longleftrightarrow> a = 198 \<and> (b = 18 \<or> b = 19)" "m div 8192 = 7 \<longleftrightarrow> 224 \<le> a"
    by blast+
  have octets: "octets_of x = (a, b, unat x div 2 ^ 8 mod 256, unat x mod 256)"
    unfolding octets_of_def a_def b_def m_def by (simp add: div_mult2_eq [symmetric])
  have "list_ex (in_prefix x) BLOCKED_PREFIXES \<longleftrightarrow>
     m div 256 = 0 \<or> m div 256 = 10 \<or> m div 256 = 127 \<or> m div 64 = 401 \<or> m = 43518 \<or> m div 16 = 2753 \<or> m = 49152 \<or> m = 49320 \<or>
     m div 2 = 25353 \<or> m div 8192 = 7"
    unfolding BLOCKED_PREFIXES_def by (simp add: in_prefix_nat d m_def [symmetric])
  then show ?thesis unfolding octets is_blocked_ipv4_def blocks a_def [symmetric] by simp
qed

section \<open>Reading the printed forms\<close>

lemma digits_all: "all_digits (nat_digits n)"
proof -
  have "digit_val c \<noteq> None" if "c \<in> set (nat_digits n)" for c
    using digits_range [OF that] digit_of by auto
  moreover have "nat_digits n \<noteq> []" by (subst nat_digits.simps) simp
  ultimately show ?thesis by (simp add: all_digits_def list_all_iff)
qed

lemma no_dot: "CHR ''.'' \<notin> set (nat_digits n)"
  using digits_range [of "CHR ''.''" n] digit_signs by metis

lemma no_digit_char: "c \<in> set (nat_digits n) \<Longrightarrow> digit_val c \<noteq> None"
  using digits_all [of n] by (auto simp: all_digits_def list_all_iff)

lemma parse_dotted: "parse_ipv4 (dotted x) = Some (octets_of x)"
proof -
  obtain a b c d where q: "octets_of x = (a, b, c, d)" by (cases "octets_of x")
  have r: "a \<le> 255" "b \<le> 255" "c \<le> 255" "d \<le> 255"
    using q address_bound [of x] by (auto simp: octets_of_def less_Suc_eq_le [symmetric] less_mult_imp_div_less)
  have "js_split (CHR ''.'') (dotted x) = [nat_digits a, nat_digits b, nat_digits c, nat_digits d]"
    unfolding dotted_def q by (simp add: js_split_append_sep no_dot js_split_literal)
  then show ?thesis
    using q r by (simp add: parse_ipv4_def digits_all digits_to_int_digits)
qed

definition plain_host_char :: "char \<Rightarrow> bool" where
  "plain_host_char c \<longleftrightarrow> to_lower c = c \<and> c \<noteq> CHR ''['' \<and> c \<noteq> CHR '']'' \<and> c \<noteq> CHR ''l'' \<and> c \<noteq> CHR ''t''"

lemma plain_lower: "list_all plain_host_char h \<Longrightarrow> js_lower h = h"
  by (simp add: js_lower_def plain_host_char_def list_all_iff map_idI)

lemma normalized_plain: "list_all plain_host_char h \<Longrightarrow> normalized_host h = h"
  using plain_lower [of h] by (cases h) (auto simp: normalized_host_def strip_brackets_def Let_def plain_host_char_def list_all_iff)

lemma lower_brackets: "js_lower (''['' @ h @ '']'') = ''['' @ js_lower h @ '']''"
proof -
  have "to_lower (CHR ''['') = CHR ''[''" "to_lower (CHR '']'') = CHR '']''" by code_simp+
  then show ?thesis by (simp add: js_lower_def)
qed

lemma normalized_bracketed: "list_all plain_host_char h \<Longrightarrow> normalized_host (''['' @ h @ '']'') = h"
  unfolding normalized_host_def lower_brackets plain_lower by (simp add: strip_brackets_def)

lemma plain_not_localhost:
  assumes "list_all plain_host_char h"
  shows "h \<noteq> ''localhost'' \<and> \<not> js_ends_with h ''.localhost''"
  using assms by (auto simp: js_ends_with_iff plain_host_char_def)

lemma local_by_parse:
  assumes "normalized_host h = n" and "list_all plain_host_char n"
  shows "is_local_or_private_hostname h =
    (case parse_ipv4 n of Some q \<Rightarrow> is_blocked_ipv4 q | None \<Rightarrow> (case parse_ipv4_mapped_ipv6 n of Some q \<Rightarrow> is_blocked_ipv4 q | None \<Rightarrow> is_blocked_ipv6 n))"
  using plain_not_localhost [OF assms(2)] by (simp add: is_local_or_private_hostname_def assms(1) Let_def)

lemma digit_plain: "d < 10 \<Longrightarrow> plain_host_char (char_of (48 + d :: nat))"
  by (drule ten_digits) (elim disjE; simp only:; code_simp)

lemma digits_plain: "list_all plain_host_char (nat_digits n)"
  using digits_range digit_plain by (force simp: list_all_iff)

lemma host_chars: "plain_host_char (CHR ''.'')" "plain_host_char (CHR '':'')" "plain_host_char (CHR ''f'')"
  by code_simp+

lemma dotted_plain: "list_all plain_host_char (dotted x)"
  by (simp add: dotted_def digits_plain host_chars split: prod.split)

text \<open>A lower-case hexadecimal numeral.\<close>

definition hex_numeral :: "nat \<Rightarrow> string \<Rightarrow> bool" where
  "hex_numeral n s \<longleftrightarrow> s \<noteq> [] \<and> hex_to_nat 0 s = Some n \<and> list_all (\<lambda>c. to_lower c = c) s"

lemma hex_chars: "hex_to_nat acc s = Some n \<Longrightarrow> list_all (\<lambda>c. hex_val c \<noteq> None) s"
  by (induction s arbitrary: acc) (auto split: option.splits)

lemma hex_char_ok: "hex_val c \<noteq> None \<Longrightarrow> c \<noteq> CHR ''['' \<and> c \<noteq> CHR '']'' \<and> c \<noteq> CHR ''l'' \<and> c \<noteq> CHR ''t'' \<and> c \<noteq> CHR '':'' \<and> c \<noteq> CHR ''.''"
  by (auto simp: hex_val_def)

lemma hex_plain:
  assumes "hex_numeral n s"
  shows "list_all plain_host_char s" and "CHR '':'' \<notin> set s" and "CHR ''.'' \<notin> set s"
proof -
  have "hex_val c \<noteq> None \<and> to_lower c = c" if "c \<in> set s" for c
    using assms hex_chars [of 0 s n] that by (simp add: hex_numeral_def list_all_iff)
  then have "plain_host_char c \<and> c \<noteq> CHR '':'' \<and> c \<noteq> CHR ''.''" if "c \<in> set s" for c
    using hex_char_ok [of c] that unfolding plain_host_char_def by blast
  then show "list_all plain_host_char s" "CHR '':'' \<notin> set s" "CHR ''.'' \<notin> set s"
    unfolding list_all_iff by blast+
qed

lemma parse_ipv4_no_dots: "CHR ''.'' \<notin> set h \<Longrightarrow> parse_ipv4 h = None"
  by (simp add: parse_ipv4_def js_split_literal Let_def split: option.split)

lemma parse_mapped:
  assumes "hex_numeral (unat x div 65536) hi" and "hex_numeral (unat x mod 65536) lo"
  shows "parse_ipv4_mapped_ipv6 (''::ffff:'' @ hi @ '':'' @ lo) = Some (octets_of x)"
proof -
  have sp: "js_split (CHR '':'') (hi @ '':'' @ lo) = [hi, lo]"
    using hex_plain [OF assms(1)] hex_plain [OF assms(2)] by (simp add: js_split_append_sep js_split_literal)
  have nd: "parse_ipv4 (hi @ '':'' @ lo) = None"
    using hex_plain [OF assms(1)] hex_plain [OF assms(2)] by (intro parse_ipv4_no_dots) auto
  have "unat x div 65536 \<le> 65535" "unat x mod 65536 \<le> 65535"
    using address_bound [of x] less_mult_imp_div_less [of "unat x" 65536 65536] by (auto simp: less_Suc_eq_le [symmetric])
  moreover have "n AND 0xff = n mod 256" for n :: nat
    using take_bit_eq_mod [of 8 n] by (simp add: take_bit_eq_mask mask_eq_exp_minus_1)
  moreover have "unat x mod 65536 div 256 = unat x div 256 mod 256"
    using mod_mult2_eq [of "unat x" 256 256] by simp
  moreover have "unat x mod 65536 mod 256 = unat x mod 256" by (simp add: mod_mod_cancel)
  moreover have "unat x div 65536 div 256 = unat x div 16777216" by (simp add: div_mult2_eq [symmetric])
  ultimately show ?thesis
    using assms sp nd
    by (simp add: parse_ipv4_mapped_ipv6_def MAPPED_PREFIX_def js_starts_with_def Let_def hex_numeral_def octets_of_def drop_bit_eq_div)
qed

text \<open>An address is refused in its dotted form, and in the form of an IPv6 address it is mapped to, exactly when it lies in one of
  the blocks of local, private, shared, link-local, reserved and multicast addresses, as a 32-bit word.\<close>

theorem private_addresses_blocked:
  assumes "hex_numeral (unat x div 65536) hi" and "hex_numeral (unat x mod 65536) lo"
  shows "(is_local_or_private_hostname (dotted x) \<longleftrightarrow> list_ex (in_prefix x) BLOCKED_PREFIXES) \<and>
    (is_local_or_private_hostname (''[::ffff:'' @ hi @ '':'' @ lo @ '']'') \<longleftrightarrow> list_ex (in_prefix x) BLOCKED_PREFIXES)"
proof
  show "is_local_or_private_hostname (dotted x) \<longleftrightarrow> list_ex (in_prefix x) BLOCKED_PREFIXES"
    using local_by_parse [OF normalized_plain [OF dotted_plain] dotted_plain, of x] by (simp add: parse_dotted blocked_octets)
  let ?m = "''::ffff:'' @ hi @ '':'' @ lo"
  have p: "list_all plain_host_char ?m"
    using hex_plain(1) [OF assms(1)] hex_plain(1) [OF assms(2)] by (simp add: host_chars)
  have "normalized_host (''['' @ ?m @ '']'') = ?m" by (rule normalized_bracketed [OF p])
  moreover have "parse_ipv4 ?m = None"
    using hex_plain(3) [OF assms(1)] hex_plain(3) [OF assms(2)] by (intro parse_ipv4_no_dots) auto
  ultimately show "is_local_or_private_hostname (''[::ffff:'' @ hi @ '':'' @ lo @ '']'') \<longleftrightarrow> list_ex (in_prefix x) BLOCKED_PREFIXES"
    using local_by_parse [of "''['' @ ?m @ '']''" ?m] p parse_mapped [OF assms] by (simp add: blocked_octets)
qed

lemma private_addresses_blocked_witness:
  "is_local_or_private_hostname ''127.0.0.1'' \<and> is_local_or_private_hostname ''[::ffff:7f00:1]''"
proof -
  have "list_all (\<lambda>c. to_lower c = c) ''7f00''" "list_all (\<lambda>c. to_lower c = c) ''1''" by code_simp+
  moreover have "hex_to_nat 0 ''7f00'' = Some 32512" "hex_to_nat 0 ''1'' = Some 1" by (simp_all add: hex_val_def)
  ultimately have "hex_numeral 32512 ''7f00''" "hex_numeral 1 ''1''" by (simp_all only: hex_numeral_def) simp_all
  then have "hex_numeral (unat (0x7F000001 :: 32 word) div 65536) ''7f00''" "hex_numeral (unat (0x7F000001 :: 32 word) mod 65536) ''1''"
    by simp_all
  note private_addresses_blocked [OF this]
  moreover have "nat_digits 127 = ''127''" "nat_digits 0 = ''0''" "nat_digits 1 = ''1''" by code_simp+
  then have "dotted 0x7F000001 = ''127.0.0.1''" by (simp add: dotted_def octets_of_def)
  moreover have "list_ex (in_prefix 0x7F000001) BLOCKED_PREFIXES" by (simp add: BLOCKED_PREFIXES_def in_prefix_def)
  ultimately show ?thesis by simp
qed

section \<open>What reaches the underlying fetch\<close>

text \<open>The characters of IPv4 and IPv6 addresses, and a name that no address looks like.\<close>

definition ADDRESS_CHARS :: string where
  "ADDRESS_CHARS = ''0123456789abcdefABCDEF:.''"

definition certainly_a_name :: "string \<Rightarrow> bool" where
  "certainly_a_name h \<longleftrightarrow> \<not> set h \<subseteq> set ADDRESS_CHARS"

lemma digit_chars: "list_all (\<lambda>c. (hex_val c = None \<and> digit_val c = None) \<or> c \<in> set ADDRESS_CHARS) Enum.enum"
  by code_simp

lemma digit_address_char: "hex_val c \<noteq> None \<or> digit_val c \<noteq> None \<Longrightarrow> c \<in> set ADDRESS_CHARS"
  using digit_chars [unfolded list_all_iff enum_UNIV, rule_format, of c] by auto

lemma in_some_piece: "c \<in> set s \<Longrightarrow> c = b \<or> (\<exists>p \<in> set (js_split b s). c \<in> set p)"
  by (induction b s rule: js_split.induct) (auto split: list.splits)

lemma quad_digits:
  assumes "parse_ipv4 h \<noteq> None" and "p \<in> set (js_split (CHR ''.'') h)"
  shows "all_digits p"
proof -
  let ?octet = "\<lambda>p. if all_digits p then (case digits_to_int 0 p of Some n \<Rightarrow> if n \<le> 255 then Some (nat n) else None | None \<Rightarrow> None) else None"
  obtain a b c d where "map ?octet (js_split (CHR ''.'') h) = [Some a, Some b, Some c, Some d]"
    using assms(1) unfolding parse_ipv4_def Let_def by (auto split: list.splits option.splits)
  then have "list_all (\<lambda>x. x \<noteq> None) (map ?octet (js_split (CHR ''.'') h))" by simp
  then have "?octet p \<noteq> None" using assms(2) unfolding list_all_iff by auto
  then show ?thesis by (simp split: if_splits)
qed

text \<open>Such a name is no address literal of the code's either.\<close>

lemma name_no_literal:
  assumes "certainly_a_name (normalized_host h)"
  shows "\<not> is_address_literal h"
proof -
  obtain c where c: "c \<in> set (normalized_host h)" "c \<notin> set ADDRESS_CHARS" using assms by (auto simp: certainly_a_name_def)
  have "parse_ipv4 (normalized_host h) = None"
  proof (rule ccontr)
    assume q: "parse_ipv4 (normalized_host h) \<noteq> None"
    have "c \<noteq> CHR ''.''" using c(2) by (auto simp: ADDRESS_CHARS_def)
    then obtain p where "p \<in> set (js_split (CHR ''.'') (normalized_host h))" "c \<in> set p" using in_some_piece [OF c(1)] by blast
    with quad_digits [OF q] have "digit_val c \<noteq> None" by (simp add: all_digits_def list_all_iff)
    with digit_address_char c(2) show False by blast
  qed
  moreover have "hex_val c = None" using c(2) digit_address_char by blast
  moreover have "c \<noteq> CHR '':''" "c \<noteq> CHR ''.''" using c(2) by (auto simp: ADDRESS_CHARS_def)
  ultimately show ?thesis using c(1) by (auto simp: is_address_literal_def Let_def list_all_iff)
qed

text \<open>A target no local, private or metadata address stands behind: by its text; and, for a name with a character that no address has,
  by what it resolved to.\<close>

definition safe_target :: "url_parser \<Rightarrow> 's hosted_options \<Rightarrow> string \<Rightarrow> 's \<Rightarrow> bool" where
  "safe_target up opts url s \<longleftrightarrow>
     (\<exists>u. up url = Some u \<and> ur_protocol u \<in> {''http:'', ''https:''} \<and> \<not> is_blocked_metadata_hostname (ur_hostname u) \<and>
        (\<not> ho_allow_local opts \<longrightarrow> \<not> is_local_or_private_hostname (ur_hostname u) \<and>
          (\<forall>r. ho_resolve opts = Some r \<longrightarrow> certainly_a_name (normalized_host (ur_hostname u)) \<longrightarrow>
            (\<exists>as. snd (r (normalized_host (ur_hostname u)) s) = Some as \<and> as \<noteq> [] \<and> list_all (\<lambda>a. \<not> is_local_or_private_hostname a) as))))"

lemma check_addresses_ok:
  "check_addresses url as = Inr () \<longleftrightarrow> as \<noteq> [] \<and> list_all (\<lambda>a. \<not> is_local_or_private_hostname a) as"
  by (auto simp: check_addresses_def err_iter_Inr list_all_iff)

lemma validate_safe:
  assumes "validate_hosted_outbound_url up opts url s = (s', Inr v)"
  shows "safe_target up opts url s"
proof -
  from assms obtain u where u: "up url = Some u" by (auto simp: validate_hosted_outbound_url_def split: option.splits)
  show ?thesis
    using assms u check_addresses_ok unfolding validate_hosted_outbound_url_def safe_target_def
    by (auto dest: name_no_literal split: if_splits option.splits prod.splits)
qed

lemma validate_state:
  assumes "I s" and "\<And>r h s. ho_resolve opts = Some r \<Longrightarrow> I s \<Longrightarrow> I (fst (r h s))"
  shows "I (fst (validate_hosted_outbound_url up opts url s))"
proof -
  have "I s'" if "ho_resolve opts = Some r" "r h s = (s', x)" for r h s' x
    using assms(2) [OF that(1) assms(1), of h] that(2) by simp
  then show ?thesis
    using assms(1) by (auto simp: validate_hosted_outbound_url_def split: option.split prod.split)
qed

definition origin_at :: "url_parser \<Rightarrow> string \<Rightarrow> string option" where
  "origin_at up url = map_option url_origin (up url)"

definition credential_free :: "fetch_init option \<Rightarrow> bool" where
  "credential_free init \<longleftrightarrow>
     (\<forall>i. init = Some i \<longrightarrow> list_all (\<lambda>(n, _). js_lower n \<notin> {''authorization'', ''proxy-authorization'', ''cookie''}) (fi_headers i))"

text \<open>What the guard lets through: a safe target, and no credential header behind a change of the origin.\<close>

definition permitted :: "url_parser \<Rightarrow> 's hosted_options \<Rightarrow> string \<Rightarrow> fetch_input \<Rightarrow> fetch_init option \<Rightarrow> 's \<Rightarrow> bool" where
  "permitted up opts first cur init s \<longleftrightarrow>
     safe_target up opts (input_url cur) s \<and>
     (origin_at up (input_url cur) \<noteq> origin_at up first \<longrightarrow> credential_free init \<and> cur = UrlText (input_url cur))"

lemma strip_free: "credential_free (Some (strip_credential_headers init))"
  by (auto simp: credential_free_def strip_credential_headers_def CREDENTIAL_HEADERS_def Let_def list_all_iff)

lemma guard_loop_preserves:
  fixes I :: "'s \<Rightarrow> bool"
  assumes reparse: "\<And>base loc u. rel base loc = Some u \<Longrightarrow> origin_at up (url_href u) = Some (url_origin u)"
    and resolver: "\<And>r h s. ho_resolve opts = Some r \<Longrightarrow> I s \<Longrightarrow> I (fst (r h s))"
    and fetches: "\<And>cur init s s'. I s \<Longrightarrow> I s' \<Longrightarrow> permitted up opts first cur init s \<Longrightarrow>
      validate_hosted_outbound_url up opts (input_url cur) s = (s', Inr ()) \<Longrightarrow> I (fst (fetch cur init s'))"
  shows "I s \<Longrightarrow> origin_at up (input_url cur) \<noteq> origin_at up first \<longrightarrow> credential_free init \<and> cur = UrlText (input_url cur) \<Longrightarrow>
    I (fst (guard_loop up rel opts fetch n cur init s))"
proof (induction n arbitrary: cur init s)
  case (0 cur init s)
  have v: "I (fst (validate_hosted_outbound_url up opts (input_url cur) s))" by (rule validate_state [where I = I, OF 0(1)]) (rule resolver)
  have "I (fst (fetch cur init s1))" if "validate_hosted_outbound_url up opts (input_url cur) s = (s1, Inr ())" for s1
    using fetches [OF 0(1) _ _ that] v that validate_safe [OF that] 0(2) by (simp add: permitted_def)
  with v show ?case by (subst guard_loop.simps) (fastforce split: prod.splits sum.splits)
next
  case (Suc m cur init s)
  have v: "I (fst (validate_hosted_outbound_url up opts (input_url cur) s))" by (rule validate_state [where I = I, OF Suc(2)]) (rule resolver)
  have f: "I (fst (fetch cur init s1))" if "validate_hosted_outbound_url up opts (input_url cur) s = (s1, Inr ())" for s1
    using fetches [OF Suc(2) _ _ that] v that validate_safe [OF that] Suc(3) by (simp add: permitted_def)
  have step: "I (fst (guard_loop up rel opts fetch m (UrlText (url_href nxt))
      (if Some (url_origin nxt) \<noteq> map_option url_origin (up (input_url cur)) then Some (strip_credential_headers init) else init) s2))"
    if "I s2" "rel (input_url cur) loc = Some nxt" for s2 loc nxt
  proof (rule Suc(1) [OF that(1)])
    show "origin_at up (input_url (UrlText (url_href nxt))) \<noteq> origin_at up first \<longrightarrow>
      credential_free (if Some (url_origin nxt) \<noteq> map_option url_origin (up (input_url cur)) then Some (strip_credential_headers init) else init) \<and>
      UrlText (url_href nxt) = UrlText (input_url (UrlText (url_href nxt)))"
      using reparse [OF that(2)] Suc(3) strip_free by (auto simp: origin_at_def)
  qed
  show ?case
    using v f step by (subst guard_loop.simps) (fastforce split: prod.splits sum.splits option.splits)
qed

text \<open>Unless the options bound the redirects by a negative number, every request the guard hands to the underlying fetch, on every hop
  of a redirect, goes over http or https to a host that is no metadata service and (unless the local network is allowed) not, by its
  text, local or private; a host name that has a character no address has was resolved just before, to addresses that are not local
  or private either. Once a redirect has left the origin of the first request, a request carries no Authorization, Proxy-Authorization
  or Cookie header. What holds of the outside state and is kept by such requests and by the resolver is kept by the whole fetch. (Names of hexadecimal letters
  and dots alone, other headers and negative bounds are below.)\<close>

theorem guarded_requests_permitted:
  fixes I :: "'s \<Rightarrow> bool"
  assumes "\<And>base loc u. rel base loc = Some u \<Longrightarrow> origin_at up (url_href u) = Some (url_origin u)"
    and "opts' = opts\<lparr>ho_resolve := Some r\<rparr>" and "r = (case ho_resolve opts of Some r \<Rightarrow> r | None \<Rightarrow> dns)"
    and "\<And>h s. I s \<Longrightarrow> I (fst (r h s))"
    and "\<And>cur init s s'. I s \<Longrightarrow> I s' \<Longrightarrow> permitted up opts' (input_url input) cur init s \<Longrightarrow>
      validate_hosted_outbound_url up opts' (input_url cur) s = (s', Inr ()) \<Longrightarrow> I (fst (fetch cur init s'))"
    and "\<And>m. ho_max_redirects opts = Some m \<Longrightarrow> 0 \<le> m"
    and "I s"
  shows "I (fst (guard_fetch up rel dns opts fetch input init s))"
proof -
  have m: "\<not> (case ho_max_redirects opts of Some m \<Rightarrow> m | None \<Rightarrow> 10) < 0"
    using assms(6) by (cases "ho_max_redirects opts") auto
  have "I (fst (guard_loop up rel opts' fetch n input init s))" for n
  proof (rule guard_loop_preserves [where I = I and first = "input_url input"])
    show "I (fst (r' h s))" if "ho_resolve opts' = Some r'" "I s" for r' h s
      using that assms(2,4) by simp
  qed (use assms(1,5,7) in simp_all)
  then show ?thesis using m unfolding guard_fetch_def Let_def assms(3) [symmetric] assms(2) [symmetric] by simp
qed

section \<open>The number of requests\<close>

lemma guard_loop_requests:
  fixes f :: "'s \<Rightarrow> nat"
  assumes "\<And>r h s. ho_resolve opts = Some r \<Longrightarrow> f (fst (r h s)) = f s"
    and "\<And>cur init s. f (fst (fetch cur init s)) \<le> f s + 1"
  shows "f (fst (guard_loop up rel opts fetch n cur init s)) \<le> f s + n + 1"
proof (induction n arbitrary: cur init s)
  case (0 cur init s)
  have "f (fst (validate_hosted_outbound_url up opts (input_url cur) s)) = f s"
    by (rule validate_state [where I = "\<lambda>t. f t = f s"]) (simp_all add: assms(1))
  moreover have "f s2 \<le> f s1 + 1" if "fetch cur init s1 = (s2, x)" for s1 s2 x using assms(2) [of cur init s1] that by simp
  ultimately show ?case by (subst guard_loop.simps) (fastforce split: prod.split sum.split)
next
  case (Suc m cur init s)
  have v: "f (fst (validate_hosted_outbound_url up opts (input_url cur) s)) = f s"
    by (rule validate_state [where I = "\<lambda>t. f t = f s"]) (simp_all add: assms(1))
  have "f s2 \<le> f s1 + 1" if "fetch cur init s1 = (s2, x)" for s1 s2 x using assms(2) [of cur init s1] that by simp
  moreover have "f (fst (guard_loop up rel opts fetch m c i s2)) \<le> f s1 + Suc m + 1" if "f s2 \<le> f s1 + 1" for c i s1 s2
    using Suc [of c i s2] that by linarith
  ultimately show ?case using v
    by (subst guard_loop.simps) (fastforce split: prod.split sum.split option.split)
qed

text \<open>A guarded fetch ends, having made one request more than the redirects it may follow, at most.\<close>

theorem guarded_fetch_bounded:
  fixes f :: "'s \<Rightarrow> nat"
  assumes "opts' = opts\<lparr>ho_resolve := Some r\<rparr>" and "r = (case ho_resolve opts of Some r \<Rightarrow> r | None \<Rightarrow> dns)"
    and "\<And>h s. f (fst (r h s)) = f s" and "\<And>cur init s. f (fst (fetch cur init s)) \<le> f s + 1"
    and "m = (case ho_max_redirects opts of Some m \<Rightarrow> m | None \<Rightarrow> 10)"
  shows "f (fst (guard_fetch up rel dns opts fetch input init s)) \<le> f s + nat m + 1"
proof (cases "m < 0")
  case True
  then show ?thesis using assms(4) [of input init s] unfolding guard_fetch_def Let_def assms(5) [symmetric] by simp
next
  case False
  have "f (fst (guard_loop up rel opts' fetch (nat m) input init s)) \<le> f s + nat m + 1"
    by (rule guard_loop_requests) (use assms(1,3,4) in simp_all)
  then show ?thesis using False unfolding guard_fetch_def Let_def assms(5) [symmetric] assms(2) [symmetric] assms(1) [symmetric] by simp
qed

section \<open>A redirect between two origins\<close>

definition site :: "string \<Rightarrow> js_url" where
  "site h = \<lparr>ur_protocol = ''https:'', ur_username = [], ur_password = [], ur_hostname = h, ur_port = [], ur_pathname = ''/'',
     ur_query = None, ur_fragment = None, ur_authority = True\<rparr>"

definition sites :: "url_parser" where
  "sites = map_of (map (\<lambda>h. (''https://'' @ h @ ''/'', site h)) [''one.test'', ''two.test'', ''abc.de''])"

type_synonym request_log = "(string \<times> (string \<times> string) list) list"

definition logging_fetch :: "request_log fetcher" where
  "logging_fetch cur init log =
     (log @ [(input_url cur, case init of None \<Rightarrow> [] | Some i \<Rightarrow> fi_headers i)],
      Inr (if input_url cur = ''https://one.test/'' then \<lparr>fr_status = 302, fr_location = Some ''https://two.test/'', fr_text = []\<rparr>
           else \<lparr>fr_status = 200, fr_location = None, fr_text = ''ok''\<rparr>))"

definition public_dns :: "string \<Rightarrow> request_log \<Rightarrow> request_log \<times> string list option" where
  "public_dns h log = (log, Some [''93.184.216.34''])"

definition default_options :: "'s hosted_options" where
  "default_options = \<lparr>ho_allow_local = False, ho_max_redirects = None, ho_resolve = None\<rparr>"

definition with_headers :: "(string \<times> string) list \<Rightarrow> fetch_init" where
  "with_headers hs = \<lparr>fi_method = None, fi_headers = hs, fi_body = None\<rparr>"

definition two_hops :: "request_log" where
  "two_hops = fst (guard_fetch sites (\<lambda>_. sites) public_dns default_options logging_fetch (UrlText ''https://one.test/'')
     (Some (with_headers [(''Authorization'', ''Bearer t''), (''X-Api-Key'', ''k'')])) [])"

text \<open>A credential in a header of another name follows the redirect to the other origin.\<close>

lemma custom_header_forwarded:
  "two_hops = [(''https://one.test/'', [(''Authorization'', ''Bearer t''), (''X-Api-Key'', ''k'')]), (''https://two.test/'', [(''X-Api-Key'', ''k'')])]"
  by code_simp

text \<open>A name made of hexadecimal letters and dots only is taken for an address and never resolved.\<close>

lemma hexadecimal_name_unresolved:
  "validate_hosted_outbound_url sites (opts\<lparr>ho_resolve := Some r\<rparr>) ''https://abc.de/'' s = (s, Inr ())"
proof -
  have "sites ''https://abc.de/'' = Some (site ''abc.de'')" by code_simp
  moreover have "is_address_literal ''abc.de''" "\<not> is_local_or_private_hostname ''abc.de''" "\<not> is_blocked_metadata_hostname ''abc.de''" by code_simp+
  ultimately show ?thesis by (simp add: validate_hosted_outbound_url_def site_def)
qed

text \<open>With a negative bound on the redirects nothing is validated.\<close>

lemma negative_bound_unguarded: "m < 0 \<Longrightarrow> guard_fetch up rel dns (opts\<lparr>ho_max_redirects := Some m\<rparr>) fetch = fetch"
  by (intro ext) (simp add: guard_fetch_def Let_def)

lemma site_href: "sites base = Some u \<Longrightarrow> origin_at sites (url_href u) = Some (url_origin u)"
proof -
  assume "sites base = Some u"
  then have "u \<in> site ` {''one.test'', ''two.test'', ''abc.de''}" by (auto simp: sites_def split: if_splits)
  moreover have "origin_at sites (url_href (site ''one.test'')) = Some (url_origin (site ''one.test''))"
    "origin_at sites (url_href (site ''two.test'')) = Some (url_origin (site ''two.test''))"
    "origin_at sites (url_href (site ''abc.de'')) = Some (url_origin (site ''abc.de''))" by code_simp+
  ultimately show ?thesis by auto
qed

definition no_leak :: "request_log \<Rightarrow> bool" where
  "no_leak log \<longleftrightarrow> (\<forall>(url, hs) \<in> set log. url = ''https://two.test/'' \<longrightarrow> list_all (\<lambda>(n, _). js_lower n \<notin> {''authorization'', ''proxy-authorization'', ''cookie''}) hs)"

lemma guarded_requests_permitted_witness: "no_leak two_hops"
proof -
  have orig: "origin_at sites ''https://two.test/'' \<noteq> origin_at sites ''https://one.test/''" by code_simp
  show ?thesis unfolding two_hops_def
  proof (rule guarded_requests_permitted [where r = public_dns and opts' = "default_options\<lparr>ho_resolve := Some public_dns\<rparr>"])
    fix cur init log log'
    assume "no_leak log'" and p: "permitted sites (default_options\<lparr>ho_resolve := Some public_dns\<rparr>) (input_url (UrlText ''https://one.test/'')) cur init log"
    moreover have "credential_free init" if "input_url cur = ''https://two.test/''"
      using p that orig by (simp add: permitted_def)
    ultimately show "no_leak (fst (logging_fetch cur init log'))"
      by (auto simp: no_leak_def logging_fetch_def credential_free_def split: option.split)
  qed (simp_all add: site_href public_dns_def default_options_def no_leak_def)
qed

lemma guarded_fetch_bounded_witness: "length two_hops \<le> 11"
proof -
  have "length (fst (logging_fetch cur init log)) \<le> length log + 1" for cur init log by (simp add: logging_fetch_def)
  then show ?thesis
    using guarded_fetch_bounded [where f = length and r = public_dns and opts = default_options and dns = public_dns and fetch = logging_fetch
        and opts' = "default_options\<lparr>ho_resolve := Some public_dns\<rparr>" and m = 10 and up = sites and rel = "\<lambda>_. sites" and s = "[]"]
    unfolding two_hops_def by (simp add: public_dns_def default_options_def)
qed

end
