(* ===== verification/BrowserApproval.thy ===== *)
theory BrowserApproval
  imports ExecEnv
begin

text \<open>
  Browser approvals of the MCP host (\<open>hosts/mcp/src/browser-approval.ts\<close>,
  \<open>browser-approval-store.ts\<close>): the decision a console posts, how it is acknowledged, and the store
  between the endpoint that records a decision and the \<open>resume\<close> calls that wait for it. The store is a
  transition system over the sections of code between two suspensions; a \<open>Deferred\<close> is a number, those
  that were completed are kept in \<open>as_done\<close>.
\<close>

section \<open>Modes and decisions\<close>

datatype elicitation_mode = BrowserMode | ModelMode | NativeMode

definition TRUE_QUERY_VALUES :: "string list" where
  "TRUE_QUERY_VALUES = [''1'', ''true'', ''yes'', ''on'']"

definition MCP_ELICITATION_MODES :: "(string \<times> elicitation_mode) list" where
  "MCP_ELICITATION_MODES = [(''browser'', BrowserMode), (''model'', ModelMode), (''native'', NativeMode)]"

text \<open>\<open>q\<close> reads a parameter of the request's query.\<close>

definition read_elicitation_mode :: "(string \<Rightarrow> string option) \<Rightarrow> elicitation_mode" where
  "read_elicitation_mode q =
     (case Option.bind (q ''elicitation_mode'') (map_of MCP_ELICITATION_MODES) of
        Some m \<Rightarrow> m
      | None \<Rightarrow>
          (case q ''allow_model_resume'' of
             Some v \<Rightarrow> if js_lower v \<in> set TRUE_QUERY_VALUES then ModelMode else ModelMode
           | None \<Rightarrow> ModelMode))"

definition read_artifacts_enabled :: "(string \<Rightarrow> string option) \<Rightarrow> bool" where
  "read_artifacts_enabled q = (case q ''artifacts'' of None \<Rightarrow> True | Some v \<Rightarrow> js_lower v \<in> set TRUE_QUERY_VALUES)"

definition action_of_literal :: "jsval \<Rightarrow> elicit_action option" where
  "action_of_literal v =
     (if v = JStr ''accept'' then Some Accept else if v = JStr ''decline'' then Some Decline
      else if v = JStr ''cancel'' then Some Cancel else None)"

definition decode_resume_response :: "jsval \<Rightarrow> elicit_response option" where
  "decode_resume_response raw =
     (case (is_object raw, action_of_literal (obj_get raw ''action'')) of
        (True, Some a) \<Rightarrow>
          if obj_get raw ''content'' = JUndef \<or> is_object (obj_get raw ''content'')
          then Some \<lparr>er_action = a, er_content = obj_get raw ''content''\<rparr> else None
      | _ \<Rightarrow> None)"

fun ACKNOWLEDGEMENT_TEXT :: "elicit_action \<Rightarrow> string" where
  "ACKNOWLEDGEMENT_TEXT Accept = ''I'' @ [CHR 0x27] @ ''ve approved it''"
| "ACKNOWLEDGEMENT_TEXT Decline = ''I'' @ [CHR 0x27] @ ''ve denied it''"
| "ACKNOWLEDGEMENT_TEXT Cancel = ''I'' @ [CHR 0x27] @ ''ve canceled it''"

fun ACKNOWLEDGEMENT_STATUS :: "elicit_action \<Rightarrow> string" where
  "ACKNOWLEDGEMENT_STATUS Accept = ''approved''"
| "ACKNOWLEDGEMENT_STATUS Decline = ''denied''"
| "ACKNOWLEDGEMENT_STATUS Cancel = ''canceled''"

definition format_resume_acknowledgement :: "string \<Rightarrow> elicit_response \<Rightarrow> (string \<times> jsval) list" where
  "format_resume_acknowledgement execution r =
     [(''text'', JStr (ACKNOWLEDGEMENT_TEXT (er_action r))),
      (''structured'', JObj [(''status'', JStr (ACKNOWLEDGEMENT_STATUS (er_action r))), (''executionId'', JStr execution)])]"

section \<open>The store\<close>

type_synonym deferred = nat

record 'r approval_store =
  as_responses :: "string \<rightharpoonup> 'r"
  as_waiters :: "string \<rightharpoonup> deferred"
  as_done :: "deferred list"
  as_next :: deferred
  as_blocked :: "(nat \<times> string \<times> deferred) list"

definition empty_approvals :: "'r approval_store" where
  "empty_approvals = \<lparr>as_responses = Map.empty, as_waiters = Map.empty, as_done = [], as_next = 0, as_blocked = []\<rparr>"

definition take_response :: "string \<Rightarrow> 'r approval_store \<Rightarrow> 'r option \<times> 'r approval_store" where
  "take_response e st =
     (case as_responses st e of
        Some r \<Rightarrow> (Some r, st\<lparr>as_responses := (as_responses st)(e := None)\<rparr>)
      | None \<Rightarrow> (None, st))"

text \<open>\<open>waitFor\<close> of fiber \<open>f\<close> up to its suspension: it returns a decision that is there, or blocks on the waiter of the execution,
  made when there is none.\<close>

definition wait_begin :: "nat \<Rightarrow> string \<Rightarrow> 'r approval_store \<Rightarrow> 'r option \<times> 'r approval_store" where
  "wait_begin f e st =
     (case take_response e st of
        (Some r, st') \<Rightarrow> (Some r, st')
      | (None, st') \<Rightarrow>
          (let d = (case as_waiters st' e of Some d \<Rightarrow> d | None \<Rightarrow> as_next st');
               nxt = (case as_waiters st' e of Some d \<Rightarrow> as_next st' | None \<Rightarrow> Suc (as_next st'))
           in (None, st'\<lparr>as_waiters := (as_waiters st')(e \<mapsto> d), as_next := nxt, as_blocked := (f, e, d) # as_blocked st'\<rparr>)))"

text \<open>The finalizer of the wait, which runs when it ends and when it is interrupted.\<close>

definition drop_waiter :: "string \<Rightarrow> deferred \<Rightarrow> 'r approval_store \<Rightarrow> 'r approval_store" where
  "drop_waiter e d st = (if as_waiters st e = Some d then st\<lparr>as_waiters := (as_waiters st)(e := None)\<rparr> else st)"

definition wait_end :: "nat \<times> string \<times> deferred \<Rightarrow> 'r approval_store \<Rightarrow> 'r option \<times> 'r approval_store" where
  "wait_end b st =
     (case b of (f, e, d) \<Rightarrow> take_response e (drop_waiter e d (st\<lparr>as_blocked := remove1 b (as_blocked st)\<rparr>)))"

definition wait_interrupt :: "nat \<times> string \<times> deferred \<Rightarrow> 'r approval_store \<Rightarrow> 'r approval_store" where
  "wait_interrupt b st = (case b of (f, e, d) \<Rightarrow> drop_waiter e d (st\<lparr>as_blocked := remove1 b (as_blocked st)\<rparr>))"

definition record_response :: "string \<Rightarrow> 'r \<Rightarrow> 'r approval_store \<Rightarrow> 'r approval_store" where
  "record_response e r st =
     (let st' = st\<lparr>as_responses := (as_responses st)(e \<mapsto> r)\<rparr> in
      case as_waiters st' e of Some d \<Rightarrow> st'\<lparr>as_done := d # as_done st'\<rparr> | None \<Rightarrow> st')"

definition forget_execution :: "string \<Rightarrow> 'r approval_store \<Rightarrow> 'r approval_store" where
  "forget_execution e st = st\<lparr>as_responses := (as_responses st)(e := None), as_waiters := (as_waiters st)(e := None)\<rparr>"

text \<open>A step and the decision it hands out.\<close>

datatype 'r approval_event =
    Take string "'r option"
  | Begin nat string "'r option"
  | End nat string "'r option"
  | Interrupt nat string
  | Record string 'r
  | Forget string

inductive approval_step :: "'r approval_store \<Rightarrow> 'r approval_event \<Rightarrow> 'r approval_store \<Rightarrow> bool" where
  take_it: "take_response e st = (r, st') \<Longrightarrow> approval_step st (Take e r) st'"
| begin_wait: "wait_begin f e st = (r, st') \<Longrightarrow> approval_step st (Begin f e r) st'"
| end_wait: "(f, e, d) \<in> set (as_blocked st) \<Longrightarrow> d \<in> set (as_done st) \<Longrightarrow> wait_end (f, e, d) st = (r, st') \<Longrightarrow>
    approval_step st (End f e r) st'"
| interrupt: "(f, e, d) \<in> set (as_blocked st) \<Longrightarrow> approval_step st (Interrupt f e) (wait_interrupt (f, e, d) st)"
| record_it: "approval_step st (Record e r) (record_response e r st)"
| forget: "approval_step st (Forget e) (forget_execution e st)"


inductive approval_run :: "'r approval_event list \<Rightarrow> 'r approval_store \<Rightarrow> bool" where
  start: "approval_run [] empty_approvals"
| more: "approval_run evs st \<Longrightarrow> approval_step st ev st' \<Longrightarrow> approval_run (evs @ [ev]) st'"

text \<open>How many calls wait for a decision on an execution, counted over the events, and the events that take no waiter from
  another call: only a call that waits alone is cut short, and the execution is forgotten only when nobody waits.\<close>

fun waits_after :: "string \<Rightarrow> 'r approval_event \<Rightarrow> nat \<Rightarrow> nat" where
  "waits_after e (Begin f e' None) n = (if e' = e then Suc n else n)"
| "waits_after e (End f e' r) n = (if e' = e then n - 1 else n)"
| "waits_after e (Interrupt f e') n = (if e' = e then n - 1 else n)"
| "waits_after e _ n = n"

definition waiting :: "string \<Rightarrow> 'r approval_event list \<Rightarrow> nat" where
  "waiting e evs = fold (waits_after e) evs 0"

fun spares_waiters :: "string \<Rightarrow> nat \<Rightarrow> 'r approval_event \<Rightarrow> bool" where
  "spares_waiters e n (Interrupt f e') \<longleftrightarrow> (e' = e \<longrightarrow> n \<le> 1)"
| "spares_waiters e n (Forget e') \<longleftrightarrow> (e' = e \<longrightarrow> n = 0)"
| "spares_waiters e n _ \<longleftrightarrow> True"

definition undisturbed :: "string \<Rightarrow> 'r approval_event list \<Rightarrow> bool" where
  "undisturbed e evs \<longleftrightarrow> list_all (\<lambda>k. spares_waiters e (waiting e (take k evs)) (evs ! k)) [0..<length evs]"

lemma undisturbed_snoc [simp]: "undisturbed e (evs @ [ev]) \<longleftrightarrow> undisturbed e evs \<and> spares_waiters e (waiting e evs) ev"
  by (auto simp: undisturbed_def list_all_iff nth_append)

lemma undisturbed_Nil [simp]: "undisturbed e []"
  by (simp add: undisturbed_def)

lemma waiting_snoc [simp]: "waiting e (evs @ [ev]) = waits_after e ev (waiting e evs)"
  by (simp add: waiting_def)

section \<open>Every waiter is woken\<close>

definition waits_for :: "string \<Rightarrow> nat \<times> string \<times> deferred \<Rightarrow> bool" where
  "waits_for e b \<longleftrightarrow> fst (snd b) = e"

definition blocked_on :: "string \<Rightarrow> 'r approval_store \<Rightarrow> nat" where
  "blocked_on e st = length (filter (waits_for e) (as_blocked st))"

lemma remove1_counts:
  "b \<in> set bs \<Longrightarrow> length (filter P (remove1 b bs)) = (if P b then length (filter P bs) - 1 else length (filter P bs))"
proof (induction bs)
  case (Cons a bs)
  show ?case
  proof (cases "a = b")
    case False
    with Cons show ?thesis using length_pos_if_in_set [of b "filter P bs"] by auto
  qed simp
qed simp

lemma blocked_take: "take_response e' st = (r, st') \<Longrightarrow> as_blocked st' = as_blocked st"
  by (auto simp: take_response_def split: option.splits)

lemma blocked_drop [simp]: "as_blocked (drop_waiter e d st) = as_blocked st"
  by (simp add: drop_waiter_def)

lemma run_waiting: "approval_run evs st \<Longrightarrow> blocked_on e st = waiting e evs"
proof (induction rule: approval_run.induct)
  case start
  then show ?case by (simp add: blocked_on_def waiting_def empty_approvals_def)
next
  case (more evs st ev st')
  from more(2) have "blocked_on e st' = waits_after e ev (blocked_on e st)"
  proof (cases rule: approval_step.cases)
    case (take_it e' r)
    then show ?thesis using blocked_take [OF take_it(2)] by (simp add: blocked_on_def)
  next
    case (begin_wait f e' r)
    show ?thesis
    proof (cases "as_responses st e'")
      case None
      with begin_wait show ?thesis by (auto simp: wait_begin_def take_response_def blocked_on_def waits_for_def Let_def)
    next
      case (Some x)
      with begin_wait have "r = Some x" "as_blocked st' = as_blocked st" by (auto simp: wait_begin_def take_response_def)
      with begin_wait(1) show ?thesis by (simp add: blocked_on_def)
    qed
  next
    case (end_wait f e' d r)
    from end_wait(4) have "as_blocked st' = remove1 (f, e', d) (as_blocked st)"
      by (auto simp: wait_end_def dest: blocked_take)
    then show ?thesis using end_wait(1,2) by (simp add: blocked_on_def remove1_counts waits_for_def)
  next
    case (interrupt f e' d)
    then show ?thesis by (simp add: blocked_on_def remove1_counts waits_for_def wait_interrupt_def)
  qed (auto simp: blocked_on_def record_response_def forget_execution_def Let_def split: option.split)
  with more(3) show ?case by simp
qed

definition awake :: "string \<Rightarrow> 'r approval_store \<Rightarrow> bool" where
  "awake e st \<longleftrightarrow>
     (\<forall>(f, e', d) \<in> set (as_blocked st). e' = e \<longrightarrow> d \<notin> set (as_done st) \<longrightarrow> as_waiters st e = Some d \<and> as_responses st e = None)"

lemma awakeI:
  "(\<And>f d. (f, e, d) \<in> set (as_blocked st) \<Longrightarrow> d \<notin> set (as_done st) \<Longrightarrow> as_waiters st e = Some d \<and> as_responses st e = None) \<Longrightarrow>
   awake e st"
  by (auto simp: awake_def)

lemma awakeD:
  "awake e st \<Longrightarrow> (f, e, d) \<in> set (as_blocked st) \<Longrightarrow> d \<notin> set (as_done st) \<Longrightarrow> as_waiters st e = Some d \<and> as_responses st e = None"
  by (auto simp: awake_def)

lemma awake_nobody: "blocked_on e st = 0 \<Longrightarrow> awake e st"
  by (auto simp: awake_def blocked_on_def waits_for_def filter_empty_conv)

lemma awake_take: "awake e st \<Longrightarrow> take_response e' st = (r, st') \<Longrightarrow> awake e st'"
  by (auto simp: take_response_def intro!: awakeI dest!: awakeD split: option.splits)

lemma awake_begin:
  assumes "awake e st" and "wait_begin f e' st = (r, st')"
  shows "awake e st'"
proof (cases "as_responses st e'")
  case None
  show ?thesis
  proof (rule awakeI, goal_cases)
    case (1 f' d')
    then show ?case
      using None assms(2) awakeD [OF assms(1), of f' d']
      by (auto simp: wait_begin_def take_response_def Let_def split: option.splits if_splits)
  qed
next
  case (Some x)
  then have "take_response e' st = (Some x, st')" using assms(2) by (auto simp: wait_begin_def take_response_def split: option.splits)
  with assms(1) show ?thesis by (rule awake_take)
qed

lemma awake_end:
  assumes "awake e st" and "d \<in> set (as_done st)" and "wait_end (f, e', d) st = (r, st')"
  shows "awake e st'"
proof -
  have "awake e (drop_waiter e' d (st\<lparr>as_blocked := remove1 (f, e', d) (as_blocked st)\<rparr>))"
  proof (rule awakeI, goal_cases)
    case (1 f' d')
    then have "(f', e, d') \<in> set (as_blocked st)" "d' \<notin> set (as_done st)"
      using set_remove1_subset by (fastforce simp: drop_waiter_def split: if_splits)+
    with awakeD [OF assms(1) this] assms(2) show ?case by (auto simp: drop_waiter_def)
  qed
  then show ?thesis using assms(3) unfolding wait_end_def by (auto intro: awake_take)
qed

lemma awake_record: "awake e st \<Longrightarrow> awake e (record_response e' r st)"
  by (auto simp: record_response_def Let_def intro!: awakeI split: option.splits; frule (2) awakeD; simp)

text \<open>A wait cut short on another execution, or alone on this one; an execution forgotten.\<close>

lemma awake_interrupt:
  assumes "awake e st" and "(f, e', d) \<in> set (as_blocked st)" and "e' = e \<Longrightarrow> blocked_on e st \<le> 1"
  shows "awake e (wait_interrupt (f, e', d) st)"
proof (cases "e' = e")
  case True
  then have "blocked_on e (wait_interrupt (f, e', d) st) = 0"
    using assms(2,3) by (simp add: blocked_on_def wait_interrupt_def remove1_counts waits_for_def)
  then show ?thesis by (rule awake_nobody)
next
  case False
  show ?thesis
  proof (rule awakeI, goal_cases)
    case (1 f' d')
    then have "(f', e, d') \<in> set (as_blocked st)" "d' \<notin> set (as_done st)"
      using set_remove1_subset by (fastforce simp: wait_interrupt_def drop_waiter_def split: if_splits)+
    with awakeD [OF assms(1) this] False show ?case by (auto simp: wait_interrupt_def drop_waiter_def)
  qed
qed

lemma awake_forget:
  assumes "awake e st" and "e' = e \<Longrightarrow> blocked_on e st = 0"
  shows "awake e (forget_execution e' st)"
proof (cases "e' = e")
  case True
  then show ?thesis using assms(2) by (intro awake_nobody) (simp add: blocked_on_def forget_execution_def)
next
  case False
  then show ?thesis using assms(1) by (auto simp: awake_def forget_execution_def)
qed

lemma awake_run: "approval_run evs st \<Longrightarrow> undisturbed e evs \<Longrightarrow> awake e st"
proof (induction rule: approval_run.induct)
  case start
  then show ?case by (simp add: awake_def empty_approvals_def)
next
  case (more evs st ev st')
  then have a: "awake e st" and s: "spares_waiters e (blocked_on e st) ev" by (simp_all add: run_waiting)
  from more(2) show ?case
    by (cases rule: approval_step.cases)
      (use a s in \<open>auto intro: awake_take awake_begin awake_end awake_record awake_interrupt awake_forget\<close>)
qed

text \<open>Whoever waits for a decision on an execution that was recorded can go on: its wait has ended, and taking the decision, the
  first to go on returns it and leaves none for the others. The waits on other executions may be cut short and those executions
  forgotten at any time; on this one, only a call that waits alone may have been cut short, and the execution may have been forgotten
  only when nobody waited for it.\<close>

theorem recorded_decision_wakes:
  assumes "approval_run evs st" and "undisturbed e evs"
    and "as_responses st e = Some r" and "(f, e, d) \<in> set (as_blocked st)"
  shows "\<exists>st'. approval_step st (End f e (Some r)) st' \<and> as_responses st' e = None"
proof -
  have "d \<in> set (as_done st)" using awakeD [OF awake_run [OF assms(1,2)] assms(4)] assms(3) by fastforce
  moreover have "\<exists>st'. wait_end (f, e, d) st = (Some r, st') \<and> as_responses st' e = None"
    using assms(3) by (simp add: wait_end_def take_response_def drop_waiter_def)
  ultimately show ?thesis using assms(4) by (blast intro: approval_step.end_wait)
qed

text \<open>A decision is handed out at most once for each time it is recorded.\<close>

fun hands_out :: "string \<Rightarrow> 'r approval_event \<Rightarrow> bool" where
  "hands_out e (Take e' r) \<longleftrightarrow> e' = e \<and> r \<noteq> None"
| "hands_out e (Begin f e' r) \<longleftrightarrow> e' = e \<and> r \<noteq> None"
| "hands_out e (End f e' r) \<longleftrightarrow> e' = e \<and> r \<noteq> None"
| "hands_out e _ \<longleftrightarrow> False"

fun records :: "string \<Rightarrow> 'r approval_event \<Rightarrow> bool" where
  "records e (Record e' r) \<longleftrightarrow> e' = e"
| "records e _ \<longleftrightarrow> False"

definition held :: "string \<Rightarrow> 'r approval_store \<Rightarrow> nat" where
  "held e st = (if as_responses st e = None then 0 else 1)"

lemma take_held: "take_response e' st = (r, st') \<Longrightarrow> (if e' = e \<and> r \<noteq> None then 1 else 0) + held e st' = held e st"
  by (auto simp: take_response_def held_def split: option.splits)

lemma begin_held:
  assumes "wait_begin f e' st = (r, st')"
  shows "(if e' = e \<and> r \<noteq> None then 1 else 0) + held e st' = held e st"
proof (cases "as_responses st e'")
  case None
  with assms show ?thesis by (auto simp: wait_begin_def take_response_def held_def Let_def)
next
  case (Some x)
  with assms show ?thesis by (auto simp: wait_begin_def take_response_def held_def)
qed

lemma end_held: "wait_end (f, e', d) st = (r, st') \<Longrightarrow> (if e' = e \<and> r \<noteq> None then 1 else 0) + held e st' = held e st"
  unfolding wait_end_def by (auto dest!: take_held [where e = e] simp: held_def drop_waiter_def split: if_splits)

lemma step_held:
  assumes "approval_step st ev st'"
  shows "(if hands_out e ev then 1 else 0) + held e st' \<le> held e st + (if records e ev then 1 else 0)"
  using assms
proof (cases rule: approval_step.cases)
  case (take_it e' r)
  then show ?thesis using take_held [of e' st r st' e] by simp
next
  case (begin_wait f e' r)
  then show ?thesis using begin_held [of f e' st r st' e] by simp
next
  case (end_wait f e' d r)
  then show ?thesis using end_held [of f e' d st r st' e] by simp
qed (auto simp: held_def wait_interrupt_def drop_waiter_def record_response_def forget_execution_def Let_def split: option.splits)

lemma run_held:
  "approval_run evs st \<Longrightarrow> length (filter (hands_out e) evs) + held e st \<le> length (filter (records e) evs)"
proof (induction rule: approval_run.induct)
  case start
  then show ?case by (simp add: held_def empty_approvals_def)
next
  case (more evs st ev st')
  then show ?case using step_held [OF more(2), of e] by (auto split: if_splits)
qed

text \<open>In every run of the store, interrupted waits included, a decision on an execution is handed to the resuming calls at most as
  often as one was recorded.\<close>

theorem decisions_not_duplicated:
  assumes "approval_run evs st"
  shows "length (filter (hands_out e) evs) \<le> length (filter (records e) evs)"
  using run_held [OF assms, of e] by linarith

section \<open>Runs\<close>

lemma run_step: "approval_run evs st \<Longrightarrow> approval_step st ev st' \<Longrightarrow> evs' = evs @ [ev] \<Longrightarrow> approval_run evs' st'"
  by (simp add: approval_run.more)

definition wait_1 :: "string approval_store" where
  "wait_1 = snd (wait_begin 1 ''x'' empty_approvals)"

definition wait_2 :: "string approval_store" where
  "wait_2 = snd (wait_begin 2 ''x'' wait_1)"

lemma two_waits: "approval_run [Begin 1 ''x'' None, Begin 2 ''x'' None] wait_2"
proof -
  have "approval_run [Begin 1 ''x'' None] wait_1"
    by (rule run_step [OF approval_run.start]) (auto intro!: approval_step.begin_wait simp: wait_1_def wait_begin_def take_response_def empty_approvals_def)
  then show ?thesis
    by (rule run_step) (auto intro!: approval_step.begin_wait simp: wait_2_def wait_1_def wait_begin_def take_response_def empty_approvals_def)
qed

text \<open>A wait on \<open>y\<close> is cut short while another waits for it, and one on \<open>x\<close> that was alone, before two calls wait for \<open>x\<close>.\<close>

definition cut_short :: "string approval_event list" where
  "cut_short = [Begin 5 ''y'' None, Begin 6 ''y'' None, Interrupt 5 ''y'', Begin 3 ''x'' None, Interrupt 3 ''x'', Begin 1 ''x'' None, Begin 2 ''x'' None]"

definition after_cuts :: "string approval_store" where
  "after_cuts =
     snd (wait_begin 2 ''x'' (snd (wait_begin 1 ''x'' (wait_interrupt (3, ''x'', 1) (snd (wait_begin 3 ''x''
       (wait_interrupt (5, ''y'', 0) (snd (wait_begin 6 ''y'' (snd (wait_begin 5 ''y'' empty_approvals)))))))))))"

lemma begin_step: "as_responses st e = None \<Longrightarrow> approval_step st (Begin f e None) (snd (wait_begin f e st))"
  by (rule approval_step.begin_wait) (simp add: wait_begin_def take_response_def Let_def)

lemma responses_kept [simp]:
  "as_responses (wait_interrupt b st) = as_responses st"
  "as_responses st e = None \<Longrightarrow> as_responses (snd (wait_begin f e st)) = as_responses st"
  by (cases b) (simp_all add: wait_interrupt_def drop_waiter_def wait_begin_def take_response_def Let_def)

lemmas store_defs = wait_begin_def take_response_def wait_interrupt_def drop_waiter_def empty_approvals_def record_response_def

lemma run_with_cuts: "approval_run cut_short after_cuts"
proof -
  let ?b = "\<lambda>f e st. snd (wait_begin f e st)"
  let ?s2 = "?b 6 ''y'' (?b 5 ''y'' empty_approvals)"
  let ?s3 = "wait_interrupt (5, ''y'', 0) ?s2"
  let ?s4 = "?b 3 ''x'' ?s3"
  let ?s5 = "wait_interrupt (3, ''x'', 1) ?s4"
  have e: "as_responses empty_approvals = Map.empty" by (simp add: empty_approvals_def)
  have "approval_run [Begin 5 ''y'' None, Begin 6 ''y'' None] ?s2"
    using approval_run.more [OF approval_run.more [OF approval_run.start begin_step] begin_step] by (simp add: e)
  then have "approval_run [Begin 5 ''y'' None, Begin 6 ''y'' None, Interrupt 5 ''y''] ?s3"
    by (rule run_step) (rule approval_step.interrupt, simp_all add: store_defs)
  then have "approval_run [Begin 5 ''y'' None, Begin 6 ''y'' None, Interrupt 5 ''y'', Begin 3 ''x'' None] ?s4"
    by (rule run_step) (rule begin_step, simp_all add: e)
  then have "approval_run [Begin 5 ''y'' None, Begin 6 ''y'' None, Interrupt 5 ''y'', Begin 3 ''x'' None, Interrupt 3 ''x''] ?s5"
    by (rule run_step) (rule approval_step.interrupt, simp_all add: store_defs)
  then have "approval_run [Begin 5 ''y'' None, Begin 6 ''y'' None, Interrupt 5 ''y'', Begin 3 ''x'' None, Interrupt 3 ''x'', Begin 1 ''x'' None]
      (?b 1 ''x'' ?s5)"
    by (rule run_step) (rule begin_step, simp_all add: e)
  then show ?thesis unfolding cut_short_def after_cuts_def
    by (rule run_step) (rule begin_step, simp_all add: e)
qed

lemma recorded_decision_wakes_witness:
  "\<exists>st'. approval_step (record_response ''x'' ''yes'' after_cuts) (End 2 ''x'' (Some ''yes'')) st' \<and> as_responses st' ''x'' = None"
proof (rule recorded_decision_wakes)
  show "approval_run (cut_short @ [Record ''x'' ''yes'']) (record_response ''x'' ''yes'' after_cuts)"
    by (rule approval_run.more [OF run_with_cuts approval_step.record_it])
  show "undisturbed ''x'' (cut_short @ [Record ''x'' ''yes''])"
    by (simp add: undisturbed_def cut_short_def waiting_def upt_rec nth_append)
  show "(2, ''x'', 2) \<in> set (as_blocked (record_response ''x'' ''yes'' after_cuts))"
    "as_responses (record_response ''x'' ''yes'' after_cuts) ''x'' = Some ''yes''"
    by (simp_all add: after_cuts_def store_defs Let_def)
qed

lemma decisions_not_duplicated_witness:
  "length (filter (hands_out ''x'') [Begin 1 ''x'' None, Begin 2 ''x'' (None :: string option)])
     \<le> length (filter (records ''x'') [Begin 1 ''x'' None, Begin 2 ''x'' (None :: string option)])"
  by (rule decisions_not_duplicated [OF two_waits])

text \<open>A wait cut short takes the waiter with it that another wait still blocks on: the decision recorded next wakes nobody.\<close>

lemma interrupted_wait_loses_wakeup:
  "\<exists>evs st. approval_run evs st \<and> as_responses st ''x'' = Some ''yes'' \<and> as_blocked st = [(2, ''x'', 0)] \<and> as_done st = []"
proof -
  let ?i = "wait_interrupt (1, ''x'', 0) wait_2"
  have "approval_step wait_2 (Interrupt 1 ''x'') ?i"
    by (rule approval_step.interrupt) (simp add: wait_2_def wait_1_def wait_begin_def take_response_def empty_approvals_def)
  then have "approval_run ([Begin 1 ''x'' None, Begin 2 ''x'' None] @ [Interrupt 1 ''x'']) ?i"
    by (rule approval_run.more [OF two_waits])
  then have "approval_run (([Begin 1 ''x'' None, Begin 2 ''x'' None] @ [Interrupt 1 ''x'']) @ [Record ''x'' ''yes'']) (record_response ''x'' ''yes'' ?i)"
    by (rule approval_run.more) (rule approval_step.record_it)
  moreover have "as_responses (record_response ''x'' ''yes'' ?i) ''x'' = Some ''yes'' \<and>
      as_blocked (record_response ''x'' ''yes'' ?i) = [(2, ''x'', 0)] \<and> as_done (record_response ''x'' ''yes'' ?i) = []"
    by (simp add: record_response_def wait_interrupt_def drop_waiter_def wait_2_def wait_1_def wait_begin_def take_response_def
        empty_approvals_def Let_def)
  ultimately show ?thesis by blast
qed

end
