(* ===== verification/McpSessions.thy ===== *)
theory McpSessions
  imports Engine BrowserApproval "HOL-Library.AList"
begin

text \<open>
  Serving MCP sessions (\<open>hosts/mcp/src/seams.ts\<close>, \<open>envelope.ts\<close>, \<open>in-memory-session-store.ts\<close>): who owns a
  session, the envelope that authenticates a request and dispatches it, and the store of the sessions
  of one process. The MCP SDK's transports and servers and the host's engines live in an outside
  state of any type; a transport's callbacks are the events its calls return, its closure over the
  variables of \<open>create\<close> is kept in \<open>ms_closures\<close>. A JavaScript \<open>Map\<close> is an association list in
  insertion order. Closing a transport or server tells only of its own session, whose entries are gone
  by then.
\<close>

section \<open>Principals and resources\<close>

record principal =
  pr_account_id :: string
  pr_organization_id :: string
  pr_organization_name :: string
  pr_organization_slug :: "string option"
  pr_email :: string
  pr_name :: "string option"
  pr_avatar_url :: "string option"
  pr_roles :: "string list"

definition principal_owns :: "principal \<Rightarrow> principal \<Rightarrow> bool" where
  "principal_owns ow p \<longleftrightarrow> pr_account_id ow = pr_account_id p \<and> pr_organization_id ow = pr_organization_id p"

datatype mcp_resource = DefaultResource | ToolkitResource string

definition mcp_resource_key :: "mcp_resource option \<Rightarrow> string" where
  "mcp_resource_key r = (case r of Some (ToolkitResource slug) \<Rightarrow> ''toolkit:'' @ slug | _ \<Rightarrow> ''default'')"

lemma resource_key_inj: "mcp_resource_key (Some r) = mcp_resource_key (Some r') \<longleftrightarrow> r = r'"
  by (auto simp: mcp_resource_key_def split: mcp_resource.splits)

section \<open>Requests and responses\<close>

record mcp_request =
  mq_method :: string
  mq_session_id :: "string option"
  mq_url :: string
  mq_body :: "jsval option"

record web_response =
  wr_status :: int
  wr_headers :: "(string \<times> string) list"
  wr_body :: "jsval option"

definition json_rpc_error_body :: "int \<Rightarrow> int \<Rightarrow> string \<Rightarrow> bool \<Rightarrow> string option \<Rightarrow> int option \<Rightarrow> web_response" where
  "json_rpc_error_body status code message cors challenge retry_after =
     \<lparr>wr_status = status,
      wr_headers = [(''content-type'', ''application/json'')] @
        (if cors then [(''access-control-allow-origin'', ''*'')] else []) @
        (case challenge of Some (c # cs) \<Rightarrow> [(''www-authenticate'', c # cs), (''access-control-expose-headers'', ''WWW-Authenticate'')] | _ \<Rightarrow> []) @
        (case retry_after of Some n \<Rightarrow> [(''retry-after'', int_to_string n)] | None \<Rightarrow> []),
      wr_body = Some (JObj [(''jsonrpc'', JStr ''2.0''), (''error'', JObj [(''code'', JNum code), (''message'', JStr message)]), (''id'', JNull)])\<rparr>"

definition json_rpc_response :: "int \<Rightarrow> int \<Rightarrow> string \<Rightarrow> string option \<Rightarrow> web_response" where
  "json_rpc_response status code message challenge = json_rpc_error_body status code message True challenge None"

definition json_rpc_error :: "int \<Rightarrow> int \<Rightarrow> string \<Rightarrow> web_response" where
  "json_rpc_error status code message = json_rpc_error_body status code message False None None"

definition json_response :: "jsval \<Rightarrow> int \<Rightarrow> web_response" where
  "json_response v status = \<lparr>wr_status = status, wr_headers = [(''content-type'', ''application/json'')], wr_body = Some v\<rparr>"

definition cors_preflight_response :: web_response where
  "cors_preflight_response =
     \<lparr>wr_status = 204,
      wr_headers = [(''access-control-allow-origin'', ''*''), (''access-control-allow-methods'', ''GET, POST, DELETE, OPTIONS''),
        (''access-control-allow-headers'', ''content-type, authorization, mcp-session-id, accept, mcp-protocol-version''),
        (''access-control-expose-headers'', ''mcp-session-id, WWW-Authenticate'')],
      wr_body = None\<rparr>"

section \<open>The store of one process\<close>

datatype dispatch_result = Answered web_response | NotFound | Forbidden

record session_owner =
  so_principal :: principal
  so_resource :: mcp_resource

definition session_owner_matches :: "session_owner \<Rightarrow> principal \<Rightarrow> mcp_resource \<Rightarrow> bool" where
  "session_owner_matches ow p r \<longleftrightarrow>
     principal_owns (so_principal ow) p \<and> mcp_resource_key (Some (so_resource ow)) = mcp_resource_key (Some r)"

datatype transport_event = SessionInitialized string | SessionClosed string | TransportClosed

record session_closure =
  sc_server :: nat
  sc_engine :: nat
  sc_owner :: session_owner

record build_options =
  bo_artifacts_enabled :: bool
  bo_mode :: elicitation_mode
  bo_browser_store :: bool
  bo_resource :: mcp_resource

text \<open>The SDK and the host: a build that fails and a connection that throws are \<open>None\<close> and \<open>False\<close>, a defect of
  \<open>handleRequest\<close> is \<open>None\<close>; a paused execution is shown as \<open>formatPausedExecution\<close> shows it.\<close>

record 'w sdk =
  sk_query :: "mcp_request \<Rightarrow> string \<Rightarrow> string option"
  sk_build :: "principal \<Rightarrow> build_options \<Rightarrow> 'w \<Rightarrow> 'w \<times> (nat \<times> nat) option"
  sk_transport :: "'w \<Rightarrow> 'w \<times> nat"
  sk_connect :: "nat \<Rightarrow> nat \<Rightarrow> 'w \<Rightarrow> 'w \<times> bool"
  sk_handle :: "nat \<Rightarrow> mcp_request \<Rightarrow> 'w \<Rightarrow> 'w \<times> transport_event list \<times> web_response option"
  sk_session_id :: "nat \<Rightarrow> 'w \<Rightarrow> string option"
  sk_close_transport :: "nat \<Rightarrow> 'w \<Rightarrow> 'w"
  sk_close_server :: "nat \<Rightarrow> 'w \<Rightarrow> 'w"
  sk_paused :: "nat \<Rightarrow> string \<Rightarrow> 'w \<Rightarrow> 'w \<times> formatted option"

record 'w session_store =
  ms_transports :: "(string \<times> nat) list"
  ms_servers :: "(string \<times> nat) list"
  ms_owners :: "(string \<times> session_owner) list"
  ms_engines :: "(string \<times> nat) list"
  ms_closures :: "(nat \<times> session_closure) list"
  ms_approvals :: "elicit_response approval_store"
  ms_world :: 'w

definition new_session_store :: "'w \<Rightarrow> 'w session_store" where
  "new_session_store w =
     \<lparr>ms_transports = [], ms_servers = [], ms_owners = [], ms_engines = [], ms_closures = [], ms_approvals = empty_approvals, ms_world = w\<rparr>"

definition close_opt :: "bool \<Rightarrow> ('w \<Rightarrow> 'w) option \<Rightarrow> 'w session_store \<Rightarrow> 'w session_store" where
  "close_opt b f st = (case f of Some g \<Rightarrow> if b then st\<lparr>ms_world := g (ms_world st)\<rparr> else st | None \<Rightarrow> st)"

definition dispose_session :: "'w sdk \<Rightarrow> string \<Rightarrow> bool \<Rightarrow> bool \<Rightarrow> 'w session_store \<Rightarrow> 'w session_store" where
  "dispose_session sdk sid close_transport close_server st =
     (let transport = map_of (ms_transports st) sid; server = map_of (ms_servers st) sid;
          st' = st\<lparr>ms_transports := AList.delete sid (ms_transports st), ms_servers := AList.delete sid (ms_servers st),
                   ms_owners := AList.delete sid (ms_owners st), ms_engines := AList.delete sid (ms_engines st)\<rparr>
      in close_opt close_server (map_option (sk_close_server sdk) server)
           (close_opt close_transport (map_option (sk_close_transport sdk) transport) st'))"

definition register_session :: "nat \<Rightarrow> session_closure \<Rightarrow> string \<Rightarrow> 'w session_store \<Rightarrow> 'w session_store" where
  "register_session t c sid st =
     st\<lparr>ms_transports := AList.update sid t (ms_transports st), ms_servers := AList.update sid (sc_server c) (ms_servers st),
        ms_owners := AList.update sid (sc_owner c) (ms_owners st), ms_engines := AList.update sid (sc_engine c) (ms_engines st)\<rparr>"

definition on_transport_event :: "'w sdk \<Rightarrow> nat \<Rightarrow> transport_event \<Rightarrow> 'w session_store \<Rightarrow> 'w session_store" where
  "on_transport_event sdk t ev st =
     (case map_of (ms_closures st) t of
        None \<Rightarrow> st
      | Some c \<Rightarrow>
          (case ev of
             SessionInitialized sid \<Rightarrow> register_session t c sid st
           | SessionClosed sid \<Rightarrow> dispose_session sdk sid False True st
           | TransportClosed \<Rightarrow>
               (case sk_session_id sdk t (ms_world st) of
                  Some (x # xs) \<Rightarrow> dispose_session sdk (x # xs) False True st
                | _ \<Rightarrow> st)))"

definition has_session_id :: "'w sdk \<Rightarrow> nat \<Rightarrow> 'w session_store \<Rightarrow> bool" where
  "has_session_id sdk t st = (case sk_session_id sdk t (ms_world st) of Some (x # xs) \<Rightarrow> True | _ \<Rightarrow> False)"

text \<open>\<open>runHandleRequest\<close>; \<open>fresh\<close> is the server of a transport just made, closed with it when no session came of the request.\<close>

definition run_handle_request :: "'w sdk \<Rightarrow> nat \<Rightarrow> mcp_request \<Rightarrow> nat option \<Rightarrow> 'w session_store \<Rightarrow> web_response \<times> 'w session_store" where
  "run_handle_request sdk t req fresh st =
     (let (w, evs, answer) = sk_handle sdk t req (ms_world st);
          st1 = fold (on_transport_event sdk t) evs (st\<lparr>ms_world := w\<rparr>);
          st2 = (case fresh of
                   Some server \<Rightarrow>
                     if has_session_id sdk t st1 then st1
                     else st1\<lparr>ms_world := sk_close_server sdk server (sk_close_transport sdk t (ms_world st1))\<rparr>
                 | None \<Rightarrow> st1)
      in (case answer of Some r \<Rightarrow> r | None \<Rightarrow> json_rpc_error 500 (-32603) ''Internal server error'', st2))"

definition forward :: "'w sdk \<Rightarrow> string \<Rightarrow> principal \<Rightarrow> mcp_resource \<Rightarrow> mcp_request \<Rightarrow> 'w session_store \<Rightarrow> dispatch_result \<times> 'w session_store" where
  "forward sdk sid p r req st =
     (case (map_of (ms_transports st) sid, map_of (ms_owners st) sid) of
        (Some t, Some ow) \<Rightarrow>
          if \<not> session_owner_matches ow p r then (Forbidden, st)
          else (case run_handle_request sdk t req None st of (answer, st') \<Rightarrow> (Answered answer, st'))
      | _ \<Rightarrow> (NotFound, st))"

definition build_options_for :: "'w sdk \<Rightarrow> mcp_request \<Rightarrow> mcp_resource \<Rightarrow> build_options" where
  "build_options_for sdk req r =
     (let mode = read_elicitation_mode (sk_query sdk req) in
      \<lparr>bo_artifacts_enabled = read_artifacts_enabled (sk_query sdk req), bo_mode = mode, bo_browser_store = (mode = BrowserMode), bo_resource = r\<rparr>)"

text \<open>A connection that throws is a defect of the whole request (\<open>None\<close>).\<close>

definition create_session ::
  "'w sdk \<Rightarrow> principal \<Rightarrow> mcp_resource \<Rightarrow> mcp_request \<Rightarrow> 'w session_store \<Rightarrow> dispatch_result option \<times> 'w session_store" where
  "create_session sdk p r req st =
     (case sk_build sdk p (build_options_for sdk req r) (ms_world st) of
        (w, None) \<Rightarrow> (Some (Answered (json_rpc_error 500 (-32603) ''Internal server error'')), st\<lparr>ms_world := w\<rparr>)
      | (w, Some (server, engine)) \<Rightarrow>
          (let (w', t) = sk_transport sdk w;
               c = \<lparr>sc_server = server, sc_engine = engine, sc_owner = \<lparr>so_principal = p, so_resource = r\<rparr>\<rparr>;
               (w'', connected) = sk_connect sdk server t w';
               st' = st\<lparr>ms_world := w'', ms_closures := AList.update t c (ms_closures st)\<rparr>
           in if \<not> connected then (None, st')
              else (case run_handle_request sdk t req (Some server) st' of (answer, st'') \<Rightarrow> (Some (Answered answer), st''))))"

record dispatch_input =
  di_request :: mcp_request
  di_principal :: principal
  di_resource :: "mcp_resource option"
  di_session_id :: "string option"

definition resource_or_default :: "mcp_resource option \<Rightarrow> mcp_resource" where
  "resource_or_default r = (case r of Some r' \<Rightarrow> r' | None \<Rightarrow> DefaultResource)"

definition store_dispatch :: "'w sdk \<Rightarrow> dispatch_input \<Rightarrow> 'w session_store \<Rightarrow> dispatch_result option \<times> 'w session_store" where
  "store_dispatch sdk i st =
     (case di_session_id i of
        Some (x # xs) \<Rightarrow>
          (case forward sdk (x # xs) (di_principal i) (resource_or_default (di_resource i)) (di_request i) st of (d, st') \<Rightarrow> (Some d, st'))
      | _ \<Rightarrow> create_session sdk (di_principal i) (resource_or_default (di_resource i)) (di_request i) st)"

definition store_dispose :: "'w sdk \<Rightarrow> string \<Rightarrow> 'w session_store \<Rightarrow> 'w session_store" where
  "store_dispose sdk sid st = dispose_session sdk sid True True st"

definition close_store :: "'w sdk \<Rightarrow> 'w session_store \<Rightarrow> 'w session_store" where
  "close_store sdk st =
     fold (\<lambda>sid. dispose_session sdk sid True True) (dedupe (map fst (ms_transports st) @ map fst (ms_servers st))) st"

section \<open>The approval endpoints\<close>

datatype access = Allowed | UnknownSession | OtherOwner

definition owner_access :: "string \<Rightarrow> principal option \<Rightarrow> 'w session_store \<Rightarrow> access" where
  "owner_access sid p st =
     (case map_of (ms_owners st) sid of
        None \<Rightarrow> UnknownSession
      | Some ow \<Rightarrow> (case p of
          Some q \<Rightarrow> if \<not> principal_owns (so_principal ow) q then OtherOwner else Allowed
        | None \<Rightarrow> Allowed))"

definition paused_from_session :: "'w sdk \<Rightarrow> string \<Rightarrow> string \<Rightarrow> 'w session_store \<Rightarrow> formatted option \<times> 'w session_store" where
  "paused_from_session sdk sid execution st =
     (case map_of (ms_engines st) sid of
        None \<Rightarrow> (None, st)
      | Some e \<Rightarrow> (case sk_paused sdk e execution (ms_world st) of (w, r) \<Rightarrow> (r, st\<lparr>ms_world := w\<rparr>)))"

text \<open>\<open>PAUSED_PATH\<close> and \<open>RESUME_PATH\<close> on a pathname: the session and the execution, still encoded.\<close>

definition path_segment :: "string \<Rightarrow> bool" where
  "path_segment s \<longleftrightarrow> s \<noteq> [] \<and> CHR ''?'' \<notin> set s \<and> CHR ''#'' \<notin> set s"

definition paused_path :: "string \<Rightarrow> (string \<times> string) option" where
  "paused_path p =
     (case js_split (CHR ''/'') p of
        [a, b, c, s, d, e] \<Rightarrow>
          if a = [] \<and> b = ''api'' \<and> c = ''mcp-sessions'' \<and> path_segment s \<and> d = ''executions'' \<and> path_segment e then Some (s, e) else None
      | _ \<Rightarrow> None)"

definition resume_path :: "string \<Rightarrow> (string \<times> string) option" where
  "resume_path p =
     (case js_split (CHR ''/'') p of
        [a, b, c, s, d, e, f] \<Rightarrow>
          if a = [] \<and> b = ''api'' \<and> c = ''mcp-sessions'' \<and> path_segment s \<and> d = ''executions'' \<and> path_segment e \<and> f = ''resume''
          then Some (s, e) else None
      | _ \<Rightarrow> None)"

definition error_response :: "string \<Rightarrow> int \<Rightarrow> web_response" where
  "error_response message status = json_response (JObj [(''error'', JStr message)]) status"

text \<open>An endpoint's answer: none for another path, \<open>Inl\<close> when it throws (a URL or an encoded segment that cannot be read).\<close>

type_synonym endpoint_answer = "unit + web_response option"

definition on_session_path ::
  "url_parser \<Rightarrow> (string \<Rightarrow> string option) \<Rightarrow> (string \<Rightarrow> (string \<times> string) option) \<Rightarrow> string \<Rightarrow> mcp_request \<Rightarrow>
   (string \<Rightarrow> string \<Rightarrow> 'w session_store \<Rightarrow> endpoint_answer \<times> 'w session_store) \<Rightarrow> 'w session_store \<Rightarrow> endpoint_answer \<times> 'w session_store" where
  "on_session_path up decode path method req k st =
     (case up (mq_url req) of
        None \<Rightarrow> (Inl (), st)
      | Some u \<Rightarrow> (case path (ur_pathname u) of
          None \<Rightarrow> (Inr None, st)
        | Some (s, e) \<Rightarrow>
            if mq_method req \<noteq> method then (Inr (Some (error_response ''Method not allowed'' 405)), st)
            else k s e st))"

definition handle_paused_request ::
  "url_parser \<Rightarrow> (string \<Rightarrow> string option) \<Rightarrow> 'w sdk \<Rightarrow> mcp_request \<Rightarrow> principal option \<Rightarrow> 'w session_store \<Rightarrow> endpoint_answer \<times> 'w session_store" where
  "handle_paused_request up decode sdk req p =
     on_session_path up decode paused_path ''GET'' req (\<lambda>s e st.
       case decode s of None \<Rightarrow> (Inl (), st)
       | Some sid \<Rightarrow> (case owner_access sid p st of
           OtherOwner \<Rightarrow> (Inr (Some (error_response ''Forbidden'' 403)), st)
         | UnknownSession \<Rightarrow> (Inr (Some (error_response ''Paused execution not found'' 404)), st)
         | Allowed \<Rightarrow> (case decode e of None \<Rightarrow> (Inl (), st)
             | Some execution \<Rightarrow> (case paused_from_session sdk sid execution st of
                 (None, st') \<Rightarrow> (Inr (Some (error_response ''Paused execution not found'' 404)), st')
               | (Some f, st') \<Rightarrow>
                   (Inr (Some (json_response (JObj [(''text'', JStr (fm_text f)), (''structured'', fm_structured f)]) 200)), st')))))"

definition approval_acknowledgement :: "string \<Rightarrow> elicit_response \<Rightarrow> web_response" where
  "approval_acknowledgement execution r =
     json_response (JObj ([(''status'', JStr ''completed'')] @ format_resume_acknowledgement execution r @ [(''isError'', JBool False)])) 200"

definition handle_approval_request ::
  "url_parser \<Rightarrow> (string \<Rightarrow> string option) \<Rightarrow> 'w sdk \<Rightarrow> mcp_request \<Rightarrow> principal option \<Rightarrow> 'w session_store \<Rightarrow> endpoint_answer \<times> 'w session_store" where
  "handle_approval_request up decode sdk req p =
     on_session_path up decode resume_path ''POST'' req (\<lambda>s e st.
       case (decode s, decode e) of
         (Some sid, Some execution) \<Rightarrow> (case owner_access sid p st of
           OtherOwner \<Rightarrow> (Inr (Some (error_response ''Forbidden'' 403)), st)
         | UnknownSession \<Rightarrow> (Inr (Some (error_response ''Paused execution not found'' 404)), st)
         | Allowed \<Rightarrow> (case paused_from_session sdk sid execution st of
             (None, st') \<Rightarrow> (Inr (Some (error_response ''Paused execution not found'' 404)), st')
           | (Some f, st') \<Rightarrow> (case Option.bind (mq_body req) (\<lambda>raw. if raw = JNull then None else decode_resume_response raw) of
               None \<Rightarrow> (Inr (Some (error_response ''Invalid approval response'' 400)), st')
             | Some r \<Rightarrow>
                 (Inr (Some (approval_acknowledgement execution r)), st'\<lparr>ms_approvals := record_response execution r (ms_approvals st')\<rparr>))))
       | _ \<Rightarrow> (Inl (), st))"

section \<open>The envelope\<close>

datatype auth_outcome =
    Authenticated principal
  | Unauthorized "string option"
  | AuthForbidden "int option" string
  | Unavailable string

definition UNAVAILABLE_RETRY_AFTER_SECONDS :: int where
  "UNAVAILABLE_RETRY_AFTER_SECONDS = 2"

definition ALLOWED_MCP_METHODS :: "string list" where
  "ALLOWED_MCP_METHODS = [''GET'', ''POST'', ''DELETE'', ''OPTIONS'']"

text \<open>A provider's authentication acts on the outside state; it is given the whole request.\<close>

record 'w auth_provider =
  ap_authenticate :: "mcp_request \<Rightarrow> 'w \<Rightarrow> 'w \<times> auth_outcome"
  ap_resource_metadata_url :: "mcp_request \<Rightarrow> string"

definition render_auth_error :: "'w auth_provider \<Rightarrow> mcp_request \<Rightarrow> auth_outcome \<Rightarrow> web_response" where
  "render_auth_error auth req outcome =
     (case outcome of
        Unauthorized challenge \<Rightarrow>
          json_rpc_response 401 (-32001) ''Unauthorized''
            (Some (case challenge of Some c \<Rightarrow> c | None \<Rightarrow> ''Bearer resource_metadata='' @ in_quotes (ap_resource_metadata_url auth req)))
      | AuthForbidden code message \<Rightarrow> json_rpc_response 403 (case code of Some c \<Rightarrow> c | None \<Rightarrow> -32001) message None
      | Unavailable message \<Rightarrow> json_rpc_error_body 503 (-32001) message True None (Some UNAVAILABLE_RETRY_AFTER_SECONDS)
      | Authenticated p \<Rightarrow> json_rpc_response 500 (-32603) ''Internal server error'' None)"

fun render_dispatch_error :: "dispatch_result \<Rightarrow> web_response" where
  "render_dispatch_error (Answered r) = r"
| "render_dispatch_error NotFound = json_rpc_response 404 (-32001) ''Session not found'' None"
| "render_dispatch_error Forbidden = json_rpc_response 403 (-32003) ''MCP session does not belong to the current bearer'' None"

definition no_content :: web_response where
  "no_content = \<lparr>wr_status = 204, wr_headers = [(''access-control-allow-origin'', ''*'')], wr_body = None\<rparr>"

text \<open>The dispatch and the route that renders a defect (\<open>None\<close>) as a 500.\<close>

definition mcp_dispatch :: "'w auth_provider \<Rightarrow> 'w sdk \<Rightarrow> mcp_resource \<Rightarrow> mcp_request \<Rightarrow> 'w session_store \<Rightarrow> web_response option \<times> 'w session_store" where
  "mcp_dispatch auth sdk resource req st =
     (if mq_method req = ''OPTIONS'' then (Some cors_preflight_response, st)
      else if mq_method req \<notin> set ALLOWED_MCP_METHODS then (Some (json_rpc_response 405 (-32001) ''Method not allowed'' None), st)
      else case ap_authenticate auth req (ms_world st) of
        (w, Authenticated p) \<Rightarrow>
          (let st' = st\<lparr>ms_world := w\<rparr>; anonymous = (case mq_session_id req of Some (x # xs) \<Rightarrow> False | _ \<Rightarrow> True) in
           if anonymous \<and> mq_method req = ''GET'' then (Some (json_rpc_response 400 (-32000) ''mcp-session-id header required for SSE'' None), st')
           else if anonymous \<and> mq_method req = ''DELETE'' then (Some no_content, st')
           else case store_dispatch sdk \<lparr>di_request = req, di_principal = p, di_resource = Some resource, di_session_id = mq_session_id req\<rparr> st' of
             (d, st'') \<Rightarrow> (map_option render_dispatch_error d, st''))
      | (w, outcome) \<Rightarrow> (Some (render_auth_error auth req outcome), st\<lparr>ms_world := w\<rparr>))"

definition mcp_route :: "'w auth_provider \<Rightarrow> 'w sdk \<Rightarrow> mcp_resource \<Rightarrow> mcp_request \<Rightarrow> 'w session_store \<Rightarrow> web_response \<times> 'w session_store" where
  "mcp_route auth sdk resource req st =
     (case mcp_dispatch auth sdk resource req st of
        (Some r, st') \<Rightarrow> (r, st')
      | (None, st') \<Rightarrow> (json_rpc_response 500 (-32603) ''Internal server error'' None, st'))"

definition toolkit_resource :: "string \<Rightarrow> mcp_resource" where
  "toolkit_resource slug = (if slug = [] then DefaultResource else ToolkitResource slug)"

section \<open>Runs of the store\<close>

text \<open>What a dispatch drives: the transport it made or forwarded to, with what that transport reported while it handled the request.\<close>

definition reported :: "'w sdk \<Rightarrow> nat \<Rightarrow> mcp_request \<Rightarrow> 'w \<Rightarrow> transport_event list" where
  "reported sdk t req w = fst (snd (sk_handle sdk t req w))"

definition drives :: "'w sdk \<Rightarrow> dispatch_input \<Rightarrow> dispatch_result option \<Rightarrow> 'w session_store \<Rightarrow> (nat \<times> transport_event list) option" where
  "drives sdk i d st =
     (case di_session_id i of
        Some (x # xs) \<Rightarrow>
          (case (map_of (ms_transports st) (x # xs), d) of
             (Some t, Some (Answered _)) \<Rightarrow> Some (t, reported sdk t (di_request i) (ms_world st))
           | _ \<Rightarrow> None)
      | _ \<Rightarrow>
          (case sk_build sdk (di_principal i) (build_options_for sdk (di_request i) (resource_or_default (di_resource i))) (ms_world st) of
             (w, None) \<Rightarrow> None
           | (w, Some (server, _)) \<Rightarrow>
               (let (w', t) = sk_transport sdk w; (w'', connected) = sk_connect sdk server t w' in
                Some (t, if connected then reported sdk t (di_request i) w'' else []))))"

text \<open>What can happen to a store between two suspensions: a dispatch, a callback of a transport at any time, a disposal, the closing of
  the process, a step of the outside state or of the approvals.\<close>

datatype mcp_event =
    Dispatched dispatch_input "dispatch_result option" "(nat \<times> transport_event list) option"
  | Callback nat transport_event
  | Disposed string
  | Closed
  | Outside

inductive mcp_step :: "'w sdk \<Rightarrow> 'w session_store \<Rightarrow> mcp_event \<Rightarrow> 'w session_store \<Rightarrow> bool" for sdk where
  dispatched: "store_dispatch sdk i st = (d, st') \<Longrightarrow> mcp_step sdk st (Dispatched i d (drives sdk i d st)) st'"
| callback: "mcp_step sdk st (Callback t ev) (on_transport_event sdk t ev st)"
| disposed: "mcp_step sdk st (Disposed sid) (store_dispose sdk sid st)"
| closed: "mcp_step sdk st Closed (close_store sdk st)"
| outside: "mcp_step sdk st Outside (st\<lparr>ms_world := w, ms_approvals := a\<rparr>)"

inductive mcp_run :: "'w sdk \<Rightarrow> mcp_event list \<Rightarrow> 'w session_store \<Rightarrow> bool" for sdk where
  start: "mcp_run sdk [] (new_session_store w)"
| step: "mcp_run sdk evs st \<Longrightarrow> mcp_step sdk st ev st' \<Longrightarrow> mcp_run sdk (evs @ [ev]) st'"

section \<open>Who opened a session\<close>

text \<open>Read off the events alone, without the store's own maps: a transport is made for the request that drives it without a session
  id, and a session is opened by the request its transport was made for, when the transport reports its id.\<close>

record session_book =
  bk_made_for :: "nat \<rightharpoonup> session_owner"
  bk_opened_by :: "string \<rightharpoonup> session_owner"

definition no_book :: session_book where
  "no_book = \<lparr>bk_made_for = Map.empty, bk_opened_by = Map.empty\<rparr>"

fun book_report :: "nat \<Rightarrow> transport_event \<Rightarrow> session_book \<Rightarrow> session_book" where
  "book_report t (SessionInitialized sid) b =
     (case bk_made_for b t of Some ow \<Rightarrow> b\<lparr>bk_opened_by := (bk_opened_by b)(sid \<mapsto> ow)\<rparr> | None \<Rightarrow> b)"
| "book_report t _ b = b"

definition requester :: "dispatch_input \<Rightarrow> session_owner" where
  "requester i = \<lparr>so_principal = di_principal i, so_resource = resource_or_default (di_resource i)\<rparr>"

fun book_event :: "mcp_event \<Rightarrow> session_book \<Rightarrow> session_book" where
  "book_event (Dispatched i d (Some (t, evs))) b =
     fold (book_report t) evs
       (if di_session_id i = None \<or> di_session_id i = Some [] then b\<lparr>bk_made_for := (bk_made_for b)(t \<mapsto> requester i)\<rparr> else b)"
| "book_event (Callback t ev) b = book_report t ev b"
| "book_event _ b = b"

definition opener :: "mcp_event list \<Rightarrow> string \<Rightarrow> session_owner option" where
  "opener evs = bk_opened_by (fold book_event evs no_book)"

text \<open>The store keeps the book: its closures say for whom a transport was made, and the owner of a session is its opener.\<close>

definition booked :: "session_book \<Rightarrow> 'w session_store \<Rightarrow> bool" where
  "booked b st \<longleftrightarrow>
     (\<forall>t. map_option sc_owner (map_of (ms_closures st) t) = bk_made_for b t) \<and>
     (\<forall>sid ow. map_of (ms_owners st) sid = Some ow \<longrightarrow> bk_opened_by b sid = Some ow)"

lemma booked_owners_subset:
  assumes "booked b st" and "ms_closures st' = ms_closures st"
    and "\<And>sid ow. map_of (ms_owners st') sid = Some ow \<Longrightarrow> map_of (ms_owners st) sid = Some ow"
  shows "booked b st'"
  using assms by (simp add: booked_def)

lemma close_opt_maps [simp]:
  "ms_closures (close_opt b f st) = ms_closures st" "ms_owners (close_opt b f st) = ms_owners st"
  by (simp_all add: close_opt_def split: option.split)

lemma booked_dispose: "booked b st \<Longrightarrow> booked b (dispose_session sdk sid ct cs st)"
  by (rule booked_owners_subset) (auto simp: dispose_session_def Let_def delete_conv split: if_splits)

lemma booked_disposals: "booked b st \<Longrightarrow> booked b (fold (\<lambda>sid. dispose_session sdk sid ct cs) sids st)"
  by (induction sids arbitrary: st) (simp_all add: booked_dispose)

lemma booked_world [simp]: "booked b (st\<lparr>ms_world := w\<rparr>) = booked b st" "booked b (st\<lparr>ms_world := w, ms_approvals := a\<rparr>) = booked b st"
  by (simp_all add: booked_def)

lemma booked_report:
  assumes "booked b st"
  shows "booked (book_report t ev b) (on_transport_event sdk t ev st)"
proof (cases "map_of (ms_closures st) t")
  case None
  moreover have "map_option sc_owner (map_of (ms_closures st) t) = bk_made_for b t" using assms by (simp add: booked_def)
  ultimately have "bk_made_for b t = None" by simp
  with None assms show ?thesis by (cases ev) (simp_all add: on_transport_event_def)
next
  case (Some c)
  moreover have "map_option sc_owner (map_of (ms_closures st) t) = bk_made_for b t" using assms by (simp add: booked_def)
  ultimately have m: "bk_made_for b t = Some (sc_owner c)" by simp
  show ?thesis
  proof (cases ev)
    case (SessionInitialized sid)
    then show ?thesis using Some m assms
      by (auto simp: on_transport_event_def register_session_def booked_def update_conv' split: if_splits)
  qed (use Some assms in \<open>auto simp: on_transport_event_def booked_dispose split: option.split list.split\<close>)
qed

lemma booked_reports: "booked b st \<Longrightarrow> booked (fold (book_report t) evs b) (fold (on_transport_event sdk t) evs st)"
  by (induction evs arbitrary: b st) (simp_all add: booked_report)

lemma booked_handle:
  assumes "booked b st" and "run_handle_request sdk t req fresh st = (answer, st')"
  shows "booked (fold (book_report t) (reported sdk t req (ms_world st)) b) st'"
proof -
  obtain w evs a where h: "sk_handle sdk t req (ms_world st) = (w, evs, a)" by (cases "sk_handle sdk t req (ms_world st)") auto
  have "booked (fold (book_report t) evs b) (fold (on_transport_event sdk t) evs (st\<lparr>ms_world := w\<rparr>))"
    by (rule booked_reports) (simp add: assms(1))
  with h assms(2) show ?thesis
    by (auto simp: run_handle_request_def reported_def Let_def split: option.splits if_splits)
qed

lemma booked_create:
  assumes "booked b st" and "store_dispatch sdk i st = (d, st')" and "di_session_id i = None \<or> di_session_id i = Some []"
  shows "booked (book_event (Dispatched i d (drives sdk i d st)) b) st'"
proof -
  let ?b = "sk_build sdk (di_principal i) (build_options_for sdk (di_request i) (resource_or_default (di_resource i))) (ms_world st)"
  have dispatch: "create_session sdk (di_principal i) (resource_or_default (di_resource i)) (di_request i) st = (d, st')"
    using assms(2,3) by (auto simp: store_dispatch_def)
  show ?thesis
  proof (cases "snd ?b")
    case None
    then show ?thesis using dispatch assms(1,3) by (auto simp: create_session_def drives_def split: prod.splits)
  next
    case (Some se)
    then obtain w sv en where b: "?b = (w, Some (sv, en))" by (metis prod.collapse)
    obtain w' t where t: "sk_transport sdk w = (w', t)" by (cases "sk_transport sdk w")
    obtain w'' c where c: "sk_connect sdk sv t w' = (w'', c)" by (cases "sk_connect sdk sv t w'")
    let ?cl = "\<lparr>sc_server = sv, sc_engine = en, sc_owner = requester i\<rparr>"
    let ?st = "st\<lparr>ms_world := w'', ms_closures := AList.update t ?cl (ms_closures st)\<rparr>"
    let ?bk = "b\<lparr>bk_made_for := (bk_made_for b)(t \<mapsto> requester i)\<rparr>"
    have made: "booked ?bk ?st" using assms(1) by (auto simp: booked_def update_conv')
    have "drives sdk i d st = Some (t, if c then reported sdk t (di_request i) w'' else [])"
      using assms(3) b t c by (auto simp: drives_def)
    then have book: "book_event (Dispatched i d (drives sdk i d st)) b =
        fold (book_report t) (if c then reported sdk t (di_request i) w'' else []) ?bk"
      using assms(3) by simp
    have "booked (fold (book_report t) (reported sdk t (di_request i) w'') ?bk) st''"
      if "run_handle_request sdk t (di_request i) (Some sv) ?st = (answer, st'')" for answer st''
      using booked_handle [OF made that] by simp
    with made show ?thesis unfolding book using dispatch b t c
      by (auto simp: create_session_def requester_def [symmetric] split: prod.splits if_splits)
  qed
qed

lemma booked_forward:
  assumes "booked b st" and "store_dispatch sdk i st = (d, st')" and "di_session_id i = Some (x # xs)"
  shows "booked (book_event (Dispatched i d (drives sdk i d st)) b) st'"
proof -
  have f: "forward sdk (x # xs) (di_principal i) (resource_or_default (di_resource i)) (di_request i) st = (the d, st')" "d = Some (the d)"
    using assms(2,3) by (auto simp: store_dispatch_def split: prod.splits)
  show ?thesis
  proof (cases "\<exists>a. d = Some (Answered a)")
    case True
    then obtain a t where a: "d = Some (Answered a)" and t: "map_of (ms_transports st) (x # xs) = Some t"
      and h: "run_handle_request sdk t (di_request i) None st = (a, st')"
      using f(1) by (auto simp: forward_def split: option.splits if_splits prod.splits)
    from booked_handle [OF assms(1) h] a t assms(3) show ?thesis by (simp add: drives_def)
  next
    case False
    then have "\<nexists>a. Answered a = the d" using f(2) by metis
    then have "st' = st" using f(1) by (auto simp: forward_def split: option.splits if_splits prod.splits)
    moreover have "drives sdk i d st = None" using False assms(3) by (auto simp: drives_def split: option.splits dispatch_result.splits)
    ultimately show ?thesis using assms(1) by simp
  qed
qed

lemma run_booked: "mcp_run sdk evs st \<Longrightarrow> booked (fold book_event evs no_book) st"
proof (induction rule: mcp_run.induct)
  case (start w)
  then show ?case by (simp add: booked_def new_session_store_def no_book_def)
next
  case (step evs st ev st')
  let ?b = "fold book_event evs no_book"
  have "booked (book_event ev ?b) st'"
    using step(2)
  proof (cases rule: mcp_step.cases)
    case (dispatched i d)
    show ?thesis
    proof (cases "di_session_id i = None \<or> di_session_id i = Some []")
      case True
      then show ?thesis using booked_create [OF step(3) dispatched(2)] dispatched(1) by simp
    next
      case False
      then obtain x xs where "di_session_id i = Some (x # xs)" by (metis list.exhaust not_None_eq)
      then show ?thesis using booked_forward [OF step(3) dispatched(2)] dispatched(1) by simp
    qed
  qed (use step(3) in \<open>simp_all add: booked_report booked_dispose booked_disposals store_dispose_def close_store_def\<close>)
  then show ?case by simp
qed

text \<open>Whatever happens to the store, a request for a session that was not opened by a request of the same account and organization
  for the same resource finds no session or is forbidden, and changes nothing: whatever else its principal may have opened.\<close>

theorem sessions_private:
  assumes "mcp_run sdk evs st" and "di_session_id i = Some (x # xs)"
    and "\<And>ow. opener evs (x # xs) = Some ow \<Longrightarrow>
      \<not> (principal_owns (so_principal ow) (di_principal i) \<and> so_resource ow = resource_or_default (di_resource i))"
  shows "store_dispatch sdk i st \<in> {(Some NotFound, st), (Some Forbidden, st)}"
proof -
  have "\<not> session_owner_matches ow (di_principal i) (resource_or_default (di_resource i))" if "map_of (ms_owners st) (x # xs) = Some ow" for ow
  proof -
    have "opener evs (x # xs) = Some ow" using run_booked [OF assms(1)] that by (simp add: booked_def opener_def)
    from assms(3) [OF this] show ?thesis by (auto simp: session_owner_matches_def resource_key_inj)
  qed
  then show ?thesis by (auto simp: store_dispatch_def assms(2) forward_def split: option.split)
qed

section \<open>The four maps agree\<close>

definition aligned :: "'w session_store \<Rightarrow> bool" where
  "aligned st \<longleftrightarrow> map fst (ms_servers st) = map fst (ms_transports st) \<and> map fst (ms_owners st) = map fst (ms_transports st) \<and>
     map fst (ms_engines st) = map fst (ms_transports st) \<and> distinct (map fst (ms_transports st))"

lemma update_keys: "map fst (AList.update k v al) = (if k \<in> set (map fst al) then map fst al else map fst al @ [k])"
  by (induction al) auto

lemma delete_keys: "map fst (AList.delete k al) = filter (\<lambda>x. x \<noteq> k) (map fst al)"
  by (induction al) auto

lemma aligned_world [simp]: "aligned (st\<lparr>ms_world := w\<rparr>) = aligned st"
  "aligned (st\<lparr>ms_world := w, ms_approvals := a\<rparr>) = aligned st" "aligned (st\<lparr>ms_world := w, ms_closures := c\<rparr>) = aligned st"
  by (simp_all add: aligned_def)

lemma aligned_close: "aligned (close_opt b f st) = aligned st"
  by (auto simp: close_opt_def split: option.split)

lemma aligned_dispose: "aligned st \<Longrightarrow> aligned (dispose_session sdk sid a b st)"
  unfolding dispose_session_def Let_def aligned_close by (simp add: aligned_def delete_keys del: map_map)

lemma aligned_register: "aligned st \<Longrightarrow> aligned (register_session t c sid st)"
  by (simp add: aligned_def register_session_def update_keys)

lemma aligned_event: "aligned st \<Longrightarrow> aligned (on_transport_event sdk t ev st)"
  by (auto simp: on_transport_event_def aligned_register aligned_dispose split: option.split transport_event.split list.split)

lemma aligned_events: "aligned st \<Longrightarrow> aligned (fold (on_transport_event sdk t) evs st)"
  by (induction evs arbitrary: st) (simp_all add: aligned_event)

lemma aligned_handle: "aligned st \<Longrightarrow> run_handle_request sdk t req fresh st = (answer, st') \<Longrightarrow> aligned st'"
  by (auto simp: run_handle_request_def aligned_events Let_def split: prod.splits option.splits if_splits)

lemma aligned_dispatch: "aligned st \<Longrightarrow> store_dispatch sdk i st = (d, st') \<Longrightarrow> aligned st'"
  by (auto simp: store_dispatch_def forward_def create_session_def Let_def split: option.splits list.splits prod.splits if_splits
      dest!: aligned_handle [rotated])

lemma aligned_disposals: "aligned st \<Longrightarrow> aligned (fold (\<lambda>sid. dispose_session sdk sid a b) sids st)"
  by (induction sids arbitrary: st) (simp_all add: aligned_dispose)

text \<open>After every run of the store the maps of transports, servers, owners and engines have the same sessions, each once: no
  session has a transport without an owner to check, and none that was disposed of leaves an engine behind.\<close>

theorem session_maps_agree:
  assumes "mcp_run sdk evs st"
  shows "map fst (ms_owners st) = map fst (ms_transports st) \<and> map fst (ms_servers st) = map fst (ms_transports st) \<and>
    map fst (ms_engines st) = map fst (ms_transports st) \<and> distinct (map fst (ms_transports st))"
proof -
  from assms have "aligned st"
  proof (induction rule: mcp_run.induct)
    case (start w)
    then show ?case by (simp add: aligned_def new_session_store_def)
  next
    case (step evs st ev st')
    from step(2) show ?case
      by (cases rule: mcp_step.cases)
        (use step(3) aligned_dispatch in \<open>auto simp: aligned_event aligned_dispose aligned_disposals store_dispose_def close_store_def\<close>)
  qed
  then show ?thesis by (simp add: aligned_def)
qed

section \<open>The endpoints and the envelope\<close>

text \<open>A decision is recorded only for a POST to the resume path of a session that exists and that the caller, when one is known, owns,
  when the engine of that very session says it holds the paused execution, and the body is a decision; the approvals change by that one record.\<close>

theorem decision_recorded_only_for_owner:
  assumes "handle_approval_request up decode sdk req p st = (ans, st')" and "ms_approvals st' \<noteq> ms_approvals st"
  shows "\<exists>u s e sid execution ow engine f w r. mq_method req = ''POST'' \<and> up (mq_url req) = Some u \<and> resume_path (ur_pathname u) = Some (s, e) \<and>
    decode s = Some sid \<and> decode e = Some execution \<and> map_of (ms_owners st) sid = Some ow \<and> (\<forall>q. p = Some q \<longrightarrow> principal_owns (so_principal ow) q) \<and>
    map_of (ms_engines st) sid = Some engine \<and> sk_paused sdk engine execution (ms_world st) = (w, Some f) \<and>
    Option.bind (mq_body req) decode_resume_response = Some r \<and>
    st' = st\<lparr>ms_world := w, ms_approvals := record_response execution r (ms_approvals st)\<rparr>"
proof -
  have body: "Option.bind b (\<lambda>raw. if raw = JNull then None else decode_resume_response raw) = Option.bind b decode_resume_response" for b
    by (cases b) (auto simp: decode_resume_response_def)
  from assms show ?thesis
    unfolding handle_approval_request_def on_session_path_def body
    by (auto simp: owner_access_def paused_from_session_def split: option.splits if_splits prod.splits access.splits)
qed

text \<open>A request that no principal is authenticated for, or whose method is not one of the transport's, reaches no session: the store
  stays as it is but for what the authentication did outside, and the answer is the preflight, a refusal or a call to try again.\<close>

theorem unauthenticated_reaches_no_session:
  assumes "mcp_route auth sdk resource req st = (resp, st')"
    and "mq_method req \<notin> {''GET'', ''POST'', ''DELETE''} \<or> (\<forall>p. snd (ap_authenticate auth req (ms_world st)) \<noteq> Authenticated p)"
  shows "(st' = st \<or> st' = st\<lparr>ms_world := fst (ap_authenticate auth req (ms_world st))\<rparr>) \<and> wr_status resp \<in> {204, 401, 403, 405, 503}"
proof (cases "ap_authenticate auth req (ms_world st)")
  case (Pair w outcome)
  show ?thesis
  proof (cases outcome)
    case (Authenticated p)
    with Pair assms show ?thesis
      by (auto simp: mcp_route_def mcp_dispatch_def ALLOWED_MCP_METHODS_def cors_preflight_response_def json_rpc_response_def json_rpc_error_body_def
          split: if_splits)
  qed (use assms Pair in \<open>auto simp: mcp_route_def mcp_dispatch_def render_auth_error_def cors_preflight_response_def json_rpc_response_def
      json_rpc_error_body_def split: if_splits\<close>)
qed

text \<open>A revoked principal's session is left in place.\<close>

lemma forbidden_keeps_session:
  assumes "ap_authenticate auth req (ms_world st) = (w, AuthForbidden code message)"
  shows "ms_transports (snd (mcp_route auth sdk resource req st)) = ms_transports st"
  using assms by (simp add: mcp_route_def mcp_dispatch_def)

text \<open>Decisions on a session's executions outlive the session.\<close>

lemma disposal_keeps_decisions: "ms_approvals (store_dispose sdk sid st) = ms_approvals st"
  by (auto simp: store_dispose_def dispose_session_def close_opt_def Let_def split: option.split)

section \<open>One session\<close>

definition tiny_sdk :: "nat sdk" where
  "tiny_sdk = \<lparr>sk_query = (\<lambda>req k. None), sk_build = (\<lambda>p opts w. (w, Some (1, 2))), sk_transport = (\<lambda>w. (w, 7)),
     sk_connect = (\<lambda>s t w. (w, True)),
     sk_handle = (\<lambda>t req w. (w + 1, if mq_session_id req = None then [SessionInitialized ''s1''] else [], Some (json_response JNull 200))),
     sk_session_id = (\<lambda>t w. if w = 0 then None else Some ''s1''), sk_close_transport = (\<lambda>t w. w), sk_close_server = (\<lambda>s w. w),
     sk_paused = (\<lambda>e x w. (w, if x = ''x1'' then Some \<lparr>fm_text = ''paused'', fm_structured = JNull, fm_is_error = False\<rparr> else None))\<rparr>"

definition member :: "string \<Rightarrow> principal" where
  "member a = \<lparr>pr_account_id = a, pr_organization_id = ''o'', pr_organization_name = ''O'', pr_organization_slug = None, pr_email = [],
     pr_name = None, pr_avatar_url = None, pr_roles = []\<rparr>"

definition a_request :: "string \<Rightarrow> string option \<Rightarrow> mcp_request" where
  "a_request m sid = \<lparr>mq_method = m, mq_session_id = sid, mq_url = ''u'', mq_body = Some (JObj [(''action'', JStr ''accept'')])\<rparr>"

definition a_dispatch :: "string \<Rightarrow> string option \<Rightarrow> dispatch_input" where
  "a_dispatch a sid = \<lparr>di_request = a_request ''POST'' sid, di_principal = member a, di_resource = None, di_session_id = sid\<rparr>"

definition one_session :: "nat session_store" where
  "one_session = snd (store_dispatch tiny_sdk (a_dispatch ''alice'' None) (new_session_store 0))"

definition alice_opens :: mcp_event where
  "alice_opens =
     (let i = a_dispatch ''alice'' None; d = fst (store_dispatch tiny_sdk i (new_session_store 0))
      in Dispatched i d (drives tiny_sdk i d (new_session_store 0)))"

lemma one_session_run: "mcp_run tiny_sdk [alice_opens] one_session"
  using mcp_run.step [OF mcp_run.start mcp_step.dispatched, of tiny_sdk "a_dispatch ''alice'' None" 0
      "fst (store_dispatch tiny_sdk (a_dispatch ''alice'' None) (new_session_store 0))" one_session]
  by (simp add: one_session_def alice_opens_def Let_def)

lemmas one_session_defs = one_session_def store_dispatch_def a_dispatch_def create_session_def build_options_for_def read_elicitation_mode_def
  tiny_sdk_def run_handle_request_def on_transport_event_def register_session_def has_session_id_def a_request_def new_session_store_def
  resource_or_default_def json_response_def

lemma one_session_owner: "map_of (ms_owners one_session) ''s1'' = Some \<lparr>so_principal = member ''alice'', so_resource = DefaultResource\<rparr>"
  by (simp add: one_session_defs Let_def)

text \<open>Two sessions: every request without a session id is given the next one, on a transport of its own.\<close>

definition two_sdk :: "nat sdk" where
  "two_sdk = tiny_sdk\<lparr>sk_transport := (\<lambda>w. (w, w)),
     sk_handle := (\<lambda>t req w. (w + 1, if mq_session_id req = None then [SessionInitialized (''s'' @ nat_digits t)] else [], Some (json_response JNull 200))),
     sk_session_id := (\<lambda>t w. Some (''s'' @ nat_digits t))\<rparr>"

definition opened :: "string \<Rightarrow> nat session_store \<Rightarrow> mcp_event \<times> nat session_store" where
  "opened a st =
     (case store_dispatch two_sdk (a_dispatch a None) st of
        (d, st') \<Rightarrow> (Dispatched (a_dispatch a None) d (drives two_sdk (a_dispatch a None) d st), st'))"

definition first_opened :: "mcp_event \<times> nat session_store" where
  "first_opened = opened ''alice'' (new_session_store 1)"

definition second_opened :: "mcp_event \<times> nat session_store" where
  "second_opened = opened ''bob'' (snd first_opened)"

lemma opened_step: "mcp_run two_sdk evs st \<Longrightarrow> mcp_run two_sdk (evs @ [fst (opened a st)]) (snd (opened a st))"
  by (rule mcp_run.step) (auto simp: opened_def split: prod.split intro: mcp_step.dispatched)

lemma two_sessions_run: "mcp_run two_sdk [fst first_opened, fst second_opened] (snd second_opened)"
  using opened_step [OF opened_step [OF mcp_run.start]] by (simp add: first_opened_def second_opened_def)

text \<open>Bob, who opened the session \<open>s2\<close> himself, asks for the session \<open>s1\<close> that Alice opened.\<close>

lemma sessions_private_witness:
  "opener [fst first_opened, fst second_opened] ''s2'' = Some (requester (a_dispatch ''bob'' None)) \<and>
   store_dispatch two_sdk (a_dispatch ''bob'' (Some ''s1'')) (snd second_opened) \<in> {(Some NotFound, snd second_opened), (Some Forbidden, snd second_opened)}"
proof
  have o: "opener [fst first_opened, fst second_opened] ''s2'' = Some (requester (a_dispatch ''bob'' None))"
    "opener [fst first_opened, fst second_opened] ''s1'' = Some (requester (a_dispatch ''alice'' None))"
    by code_simp+
  show "opener [fst first_opened, fst second_opened] ''s2'' = Some (requester (a_dispatch ''bob'' None))" by (rule o)
  show "store_dispatch two_sdk (a_dispatch ''bob'' (Some ''s1'')) (snd second_opened) \<in>
      {(Some NotFound, snd second_opened), (Some Forbidden, snd second_opened)}"
    by (rule sessions_private [OF two_sessions_run]) (auto simp: o requester_def a_dispatch_def principal_owns_def member_def)
qed

lemma session_maps_agree_witness: "map fst (ms_owners one_session) = map fst (ms_transports one_session)"
  using session_maps_agree [OF one_session_run] by blast

definition at_resume :: url_parser where
  "at_resume s = Some \<lparr>ur_protocol = ''https:'', ur_username = [], ur_password = [], ur_hostname = ''h'', ur_port = [],
     ur_pathname = ''/api/mcp-sessions/s1/executions/x1/resume'', ur_query = None, ur_fragment = None, ur_authority = True\<rparr>"

lemma decision_recorded_only_for_owner_witness:
  "\<exists>ow. map_of (ms_owners one_session) ''s1'' = Some ow \<and> principal_owns (so_principal ow) (member ''alice'')"
proof -
  let ?out = "handle_approval_request at_resume Some tiny_sdk (a_request ''POST'' None) (Some (member ''alice'')) one_session"
  have path: "resume_path ''/api/mcp-sessions/s1/executions/x1/resume'' = Some (''s1'', ''x1'')" by code_simp
  have "as_responses (ms_approvals (snd ?out)) ''x1'' = Some \<lparr>er_action = Accept, er_content = JUndef\<rparr>"
    unfolding handle_approval_request_def on_session_path_def at_resume_def
    by (simp add: path one_session_owner owner_access_def principal_owns_def)
      (simp add: paused_from_session_def one_session_defs decode_resume_response_def action_of_literal_def record_response_def empty_approvals_def Let_def)
  moreover have "as_responses (ms_approvals one_session) ''x1'' = None" by (simp add: one_session_defs empty_approvals_def Let_def)
  ultimately have "ms_approvals (snd ?out) \<noteq> ms_approvals one_session" by auto
  from decision_recorded_only_for_owner [OF prod.collapse [symmetric] this] path show ?thesis
    by (auto simp: at_resume_def)
qed

lemma unauthenticated_reaches_no_session_witness:
  "wr_status (fst (mcp_route \<lparr>ap_authenticate = (\<lambda>req w. (w, Unauthorized None)), ap_resource_metadata_url = (\<lambda>_. ''m'')\<rparr> tiny_sdk DefaultResource
     (a_request ''POST'' (Some ''s1'')) one_session)) \<in> {204, 401, 403, 405, 503}"
  by (rule conjunct2 [OF unauthenticated_reaches_no_session [OF prod.collapse [symmetric]]]) simp

end
