(* ===== verification/UrlText.thy ===== *)
theory UrlText
  imports Digits
begin

text \<open>
  Texts on the wire: \<open>encodeURIComponent\<close>, \<open>String.prototype.replaceAll\<close> with the patterns its
  replacement text may hold, the placeholders of a template, and the \<open>atob\<close> and \<open>btoa\<close> of base64.
  A byte is a character here, so an array of bytes is a \<open>string\<close>.
\<close>

section \<open>Percent encoding\<close>

definition is_url_alnum :: "char \<Rightarrow> bool" where
  "is_url_alnum c \<longleftrightarrow>
     (let n = (of_char c :: nat) in 65 \<le> n \<and> n \<le> 90 \<or> 97 \<le> n \<and> n \<le> 122 \<or> 48 \<le> n \<and> n \<le> 57)"

text \<open>The characters \<open>encodeURIComponent\<close> leaves as they are.\<close>

definition is_unescaped :: "char \<Rightarrow> bool" where
  "is_unescaped c \<longleftrightarrow> is_url_alnum c \<or> c \<in> set ''-_.!~*()'' \<or> c = CHR 0x27"

definition upper_hex :: "nat \<Rightarrow> char" where
  "upper_hex n = (if n < 10 then char_of (48 + n) else char_of (55 + n))"

definition percent_byte :: "nat \<Rightarrow> string" where
  "percent_byte n = [CHR ''%'', upper_hex (n div 16), upper_hex (n mod 16)]"

text \<open>The UTF-8 bytes of a character, each as a percent escape.\<close>

definition encode_uri_char :: "char \<Rightarrow> string" where
  "encode_uri_char c =
     (let n = (of_char c :: nat) in
      if is_unescaped c then [c]
      else if n < 128 then percent_byte n
      else percent_byte (192 + n div 64) @ percent_byte (128 + n mod 64))"

definition encode_uri_component :: "string \<Rightarrow> string" where
  "encode_uri_component s = concat (map encode_uri_char s)"

section \<open>Replacing\<close>

text \<open>
  What a replacement text stands for, where the text \<open>m\<close> was matched between \<open>b\<close> and \<open>a\<close>: a
  dollar sign followed by a dollar sign, an ampersand, a grave accent or an apostrophe is a pattern. A string pattern has no
  capture groups, so the other patterns are literal.
\<close>

fun substitution :: "string \<Rightarrow> string \<Rightarrow> string \<Rightarrow> string \<Rightarrow> string" where
  "substitution m b a (x # c # cs) =
     (if x = CHR ''$'' \<and> c = CHR ''$'' then CHR ''$'' # substitution m b a cs
      else if x = CHR ''$'' \<and> c = CHR ''&'' then m @ substitution m b a cs
      else if x = CHR ''$'' \<and> c = CHR 0x60 then b @ substitution m b a cs
      else if x = CHR ''$'' \<and> c = CHR 0x27 then a @ substitution m b a cs
      else x # substitution m b a (c # cs))"
| "substitution m b a cs = cs"

text \<open>
  \<open>s.replaceAll (p + ps, rep)\<close>, for a pattern that is not empty, from the place \<open>b\<close> is the text
  before.
\<close>

fun replace_from :: "char \<Rightarrow> string \<Rightarrow> string \<Rightarrow> string \<Rightarrow> string \<Rightarrow> string" where
  "replace_from p ps rep b [] = []"
| "replace_from p ps rep b (c # cs) =
     (if js_starts_with (c # cs) (p # ps)
      then substitution (p # ps) b (drop (length ps) cs) rep
           @ replace_from p ps rep (b @ p # ps) (drop (length ps) cs)
      else c # replace_from p ps rep (b @ [c]) cs)"

declare replace_from.simps [simp del]

text \<open>\<open>s.replaceAll (`{${name}}`, rep)\<close>.\<close>

definition replace_placeholder :: "string \<Rightarrow> string \<Rightarrow> string \<Rightarrow> string" where
  "replace_placeholder name rep s = replace_from (CHR ''{'') (name @ ''}'') rep [] s"

text \<open>
  The groups of \<open>/\{([^{}]+)\}/g\<close> in a text; \<open>Some a\<close> is the state after an opening brace and the
  characters \<open>a\<close>, in reverse.
\<close>

fun scan_placeholders :: "string option \<Rightarrow> string \<Rightarrow> string list" where
  "scan_placeholders st [] = []"
| "scan_placeholders None (c # cs) =
     (if c = CHR ''{'' then scan_placeholders (Some []) cs else scan_placeholders None cs)"
| "scan_placeholders (Some a) (c # cs) =
     (if c = CHR ''{'' then scan_placeholders (Some []) cs
      else if c = CHR ''}'' then (if a = [] then scan_placeholders None cs else rev a # scan_placeholders None cs)
      else scan_placeholders (Some (c # a)) cs)"

definition placeholders :: "string \<Rightarrow> string list" where
  "placeholders s = scan_placeholders None s"

section \<open>Base64\<close>

definition base64_char :: "nat \<Rightarrow> char" where
  "base64_char n =
     (if n < 26 then char_of (65 + n) else if n < 52 then char_of (71 + n)
      else if n < 62 then char_of (n - 4) else if n = 62 then CHR ''+'' else CHR ''/'')"

definition base64_val :: "char \<Rightarrow> nat option" where
  "base64_val c =
     (let n = (of_char c :: nat) in
      if 65 \<le> n \<and> n \<le> 90 then Some (n - 65)
      else if 97 \<le> n \<and> n \<le> 122 then Some (n - 71)
      else if 48 \<le> n \<and> n \<le> 57 then Some (n + 4)
      else if c = CHR ''+'' then Some 62 else if c = CHR ''/'' then Some 63 else None)"

fun btoa :: "string \<Rightarrow> string" where
  "btoa [] = []"
| "btoa [a] = (let n = (of_char a :: nat) in [base64_char (n div 4), base64_char (n mod 4 * 16), CHR ''='', CHR ''=''])"
| "btoa [a, b] =
     (let n = (of_char a :: nat); m = (of_char b :: nat) in
      [base64_char (n div 4), base64_char (n mod 4 * 16 + m div 16), base64_char (m mod 16 * 4), CHR ''=''])"
| "btoa (a # b # c # cs) =
     (let n = (of_char a :: nat); m = (of_char b :: nat); k = (of_char c :: nat) in
      base64_char (n div 4) # base64_char (n mod 4 * 16 + m div 16) # base64_char (m mod 16 * 4 + k div 64)
      # base64_char (k mod 64) # btoa cs)"

text \<open>The bytes of base64 values; the bits left over in a last group that is not full are dropped.\<close>

fun base64_bytes :: "nat list \<Rightarrow> string" where
  "base64_bytes (a # b # c # d # ds) =
     char_of (a * 4 + b div 16) # char_of (b mod 16 * 16 + c div 4) # char_of (c mod 4 * 64 + d) # base64_bytes ds"
| "base64_bytes [a, b, c] = [char_of (a * 4 + b div 16), char_of (b mod 16 * 16 + c div 4)]"
| "base64_bytes [a, b] = [char_of (a * 4 + b div 16)]"
| "base64_bytes _ = []"

fun base64_vals :: "string \<Rightarrow> nat list option" where
  "base64_vals [] = Some []"
| "base64_vals (c # cs) =
     (case (base64_val c, base64_vals cs) of (Some v, Some vs) \<Rightarrow> Some (v # vs) | _ \<Rightarrow> None)"

definition is_ascii_space :: "char \<Rightarrow> bool" where
  "is_ascii_space c \<longleftrightarrow> (of_char c :: nat) \<in> {9, 10, 12, 13, 32}"

definition strip_padding :: "string \<Rightarrow> string" where
  "strip_padding s =
     (if length s mod 4 \<noteq> 0 then s
      else if js_ends_with s ''=='' then take (length s - 2) s
      else if js_ends_with s ''='' then take (length s - 1) s else s)"

text \<open>\<open>atob\<close>; \<open>None\<close> where it throws.\<close>

definition atob :: "string \<Rightarrow> string option" where
  "atob s =
     (let t = strip_padding (filter (\<lambda>c. \<not> is_ascii_space c) s) in
      if length t mod 4 = 1 then None else map_option base64_bytes (base64_vals t))"

text \<open>What \<open>btoa\<close> prints: the values of its characters and how much padding follows.\<close>

fun base64_digits :: "string \<Rightarrow> nat list" where
  "base64_digits [] = []"
| "base64_digits [a] = (let n = (of_char a :: nat) in [n div 4, n mod 4 * 16])"
| "base64_digits [a, b] =
     (let n = (of_char a :: nat); m = (of_char b :: nat) in [n div 4, n mod 4 * 16 + m div 16, m mod 16 * 4])"
| "base64_digits (a # b # c # cs) =
     (let n = (of_char a :: nat); m = (of_char b :: nat); k = (of_char c :: nat) in
      n div 4 # (n mod 4 * 16 + m div 16) # (m mod 16 * 4 + k div 64) # k mod 64 # base64_digits cs)"

definition base64_pad :: "string \<Rightarrow> nat" where
  "base64_pad s = (3 - length s mod 3) mod 3"

lemma char_code_bound [simp]: "(of_char c :: nat) < 256"
  using nat_of_char_less_256 by simp

text \<open>The arithmetic of regrouping bits, on numbers of which only the bounds matter.\<close>

lemma code_div [simp]: "(of_char c :: nat) div 4 < 64" "(of_char c :: nat) div 16 < 16" "(of_char c :: nat) div 64 < 4"
  using char_code_bound [of c] by (simp_all add: less_mult_imp_div_less)

lemma join_bits: "a < 4 \<Longrightarrow> b < 16 \<Longrightarrow> a * 16 + b < (64 :: nat)" "a < 16 \<Longrightarrow> b < 4 \<Longrightarrow> a * 4 + b < (64 :: nat)"
  by arith+

lemma split_bits: "b < 16 \<Longrightarrow> (a * 16 + b) div 16 = (a :: nat)" "b < 16 \<Longrightarrow> (a * 16 + b) mod 16 = (b :: nat)"
  "b < 4 \<Longrightarrow> (a * 4 + b) div 4 = (a :: nat)" "b < 4 \<Longrightarrow> (a * 4 + b) mod 4 = (b :: nat)"
  by simp_all

lemma regroup:
  fixes n m k :: nat
  assumes "n < 256" "m < 256" "k < 256"
  shows "n div 4 * 4 + (n mod 4 * 16 + m div 16) div 16 = n"
    and "(n mod 4 * 16 + m div 16) mod 16 * 16 + (m mod 16 * 4 + k div 64) div 4 = m"
    and "(m mod 16 * 4 + k div 64) mod 4 * 64 + k mod 64 = k"
proof -
  have b: "m div 16 < 16" "k div 64 < 4" using assms by (simp_all add: less_mult_imp_div_less)
  show "n div 4 * 4 + (n mod 4 * 16 + m div 16) div 16 = n" by (simp only: split_bits(1) [OF b(1)] div_mult_mod_eq)
  show "(n mod 4 * 16 + m div 16) mod 16 * 16 + (m mod 16 * 4 + k div 64) div 4 = m"
    by (simp only: split_bits(2) [OF b(1)] split_bits(3) [OF b(2)] div_mult_mod_eq)
  show "(m mod 16 * 4 + k div 64) mod 4 * 64 + k mod 64 = k"
    by (simp only: split_bits(4) [OF b(2)] div_mult_mod_eq)
qed

lemmas regroup_chars = regroup [OF char_code_bound char_code_bound char_code_bound]

lemma below_three: "(y :: nat) < 3 \<Longrightarrow> y = 0 \<or> y = 1 \<or> y = 2"
  by arith

lemma base64_pad_simps [simp]:
  "base64_pad [] = 0" "base64_pad [a] = 2" "base64_pad [a, b] = 1" "base64_pad (a # b # c # cs) = base64_pad cs"
proof -
  have "Suc (Suc (Suc n)) mod 3 = n mod 3" for n by presburger
  then show "base64_pad (a # b # c # cs) = base64_pad cs" by (simp only: base64_pad_def list.size(4) add_Suc_right add_0_right)
qed (simp_all add: base64_pad_def)

lemma btoa_digits: "btoa s = map base64_char (base64_digits s) @ replicate (base64_pad s) (CHR ''='')"
  by (induction s rule: btoa.induct) (simp_all add: Let_def numeral_2_eq_2)

lemma digits_small: "\<forall>v \<in> set (base64_digits s). v < 64"
  by (induction s rule: base64_digits.induct) (simp_all add: Let_def join_bits less_imp_le_nat)

lemma base64_bytes_digits: "base64_bytes (base64_digits s) = s"
proof (induction s rule: base64_digits.induct)
  case (4 a b c cs)
  then show ?case by (simp add: Let_def regroup_chars del: One_nat_def)
next
  case (3 a b)
  show ?case using regroup_chars(1) [of a b] regroup_chars(2) [of a b "CHR 0x00"] by (simp add: Let_def)
next
  case (2 a)
  show ?case using regroup_chars(1) [of a "CHR 0x00"] by (simp add: Let_def)
qed simp

lemma base64_val_char: "v < 64 \<Longrightarrow> base64_val (base64_char v) = Some v"
  by (auto simp: base64_char_def base64_val_def Let_def)

lemma base64_vals_map: "(\<forall>v \<in> set vs. v < 64) \<Longrightarrow> base64_vals (map base64_char vs) = Some vs"
  by (induction vs) (simp_all add: base64_val_char)

text \<open>No character of a value is padding or white space.\<close>

lemma base64_char_plain: "v < 64 \<Longrightarrow> base64_char v \<noteq> CHR ''='' \<and> \<not> is_ascii_space (base64_char v) \<and> \<not> is_js_space (base64_char v)
    \<and> base64_char v \<noteq> CHR ''-'' \<and> base64_char v \<noteq> CHR ''_''"
proof -
  have "list_all (\<lambda>v. base64_char v \<noteq> CHR ''='' \<and> \<not> is_ascii_space (base64_char v) \<and> \<not> is_js_space (base64_char v)
      \<and> base64_char v \<noteq> CHR ''-'' \<and> base64_char v \<noteq> CHR ''_'') [0..<64]" by code_simp
  then show "v < 64 \<Longrightarrow> ?thesis" by (simp add: list_all_iff)
qed

lemma btoa_chars: "c \<in> set (btoa s) \<Longrightarrow> \<not> is_ascii_space c \<and> \<not> is_js_space c \<and> c \<noteq> CHR ''-'' \<and> c \<noteq> CHR ''_''"
proof -
  have "\<not> is_ascii_space (CHR ''='') \<and> \<not> is_js_space (CHR ''='')" by code_simp
  then show "c \<in> set (btoa s) \<Longrightarrow> ?thesis"
    using digits_small [of s] base64_char_plain by (auto simp: btoa_digits)
qed

lemma base64_digits_length: "length (base64_digits s) + base64_pad s = 4 * ((length s + 2) div 3)"
proof (induction s rule: base64_digits.induct)
  case (4 a b c cs)
  have "(length cs + 3 + 2) div 3 = Suc ((length cs + 2) div 3)" by simp
  with 4 show ?case by (simp add: Let_def)
qed (simp_all add: Let_def)

lemma length_btoa: "length (btoa s) = 4 * ((length s + 2) div 3)"
  using base64_digits_length [of s] by (simp add: btoa_digits)

lemma pad_cases: "base64_pad s = 0 \<or> base64_pad s = 1 \<or> base64_pad s = 2"
  unfolding base64_pad_def by (rule below_three) simp

lemma digits_nonempty: "base64_pad s \<noteq> 0 \<Longrightarrow> base64_digits s \<noteq> []"
  by (cases s rule: base64_digits.cases) (auto simp: base64_pad_def Let_def)

lemma ends_with_append: "js_ends_with (xs @ ys) ys"
  by (simp add: js_ends_with_def)

lemma ends_with_last: "js_ends_with xs ys \<Longrightarrow> ys \<noteq> [] \<Longrightarrow> xs \<noteq> [] \<and> last xs = last ys"
  unfolding js_ends_with_def by (metis append_take_drop_id last_appendR take_all list.size(3) le_zero_eq length_0_conv)

lemma last_digit_char: "base64_digits s \<noteq> [] \<Longrightarrow> last (map base64_char (base64_digits s)) \<noteq> CHR ''=''"
  using digits_small [of s] base64_char_plain by (simp add: last_map)

lemma btoa_two_pads: "base64_pad s = 1 \<Longrightarrow> \<not> js_ends_with (btoa s) ''==''"
proof
  assume p: "base64_pad s = 1" and e: "js_ends_with (btoa s) ''==''"
  let ?ds = "map base64_char (base64_digits s)"
  have b: "btoa s = ?ds @ ''=''" using p by (simp add: btoa_digits)
  have ne: "?ds \<noteq> []" using p digits_nonempty [of s] by simp
  have "drop (length ?ds - 1) ?ds @ ''='' = ''==''"
    using e ne unfolding b js_ends_with_def by (cases ?ds rule: rev_cases) simp_all
  then have "last ?ds = CHR ''=''" using ne by (cases ?ds rule: rev_cases) simp_all
  then show False using last_digit_char [of s] ne by simp
qed

lemma btoa_no_pad: "base64_pad s = 0 \<Longrightarrow> \<not> js_ends_with (btoa s) ''=''"
proof
  assume p: "base64_pad s = 0" and e: "js_ends_with (btoa s) ''=''"
  have b: "btoa s = map base64_char (base64_digits s)" using p by (simp add: btoa_digits)
  from ends_with_last [OF e] have "base64_digits s \<noteq> []" "last (btoa s) = CHR ''=''" unfolding b by simp_all
  then show False using last_digit_char [of s] b by simp
qed

lemma ends_two_imp_one: "js_ends_with s ''=='' \<Longrightarrow> js_ends_with s ''=''"
proof -
  assume "js_ends_with s ''==''"
  then have "s = take (length s - 2) s @ ''==''" unfolding js_ends_with_def by (metis append_take_drop_id length_Cons list.size(3) numeral_2_eq_2)
  then have "js_ends_with ((take (length s - 2) s @ ''='') @ ''='') ''=''" by (simp only: ends_with_append)
  then show ?thesis using \<open>s = take (length s - 2) s @ ''==''\<close> by (metis append_Cons append_Nil append_assoc)
qed

lemma strip_btoa: "strip_padding (btoa s) = map base64_char (base64_digits s)"
proof -
  have m: "length (btoa s) mod 4 = 0" by (simp add: length_btoa)
  consider "base64_pad s = 0" | "base64_pad s = 1" | "base64_pad s = 2" using pad_cases [of s] by argo
  then show ?thesis
  proof cases
    case 1
    then show ?thesis using m btoa_no_pad [of s] ends_two_imp_one [of "btoa s"]
      by (auto simp: strip_padding_def) (simp add: btoa_digits)
  next
    case 2
    have b: "btoa s = map base64_char (base64_digits s) @ ''=''" using 2 by (simp add: btoa_digits)
    then have "js_ends_with (btoa s) ''=''" by (simp only: b ends_with_append)
    then show ?thesis using m btoa_two_pads [OF 2] by (simp add: strip_padding_def) (simp add: b)
  next
    case 3
    have b: "btoa s = map base64_char (base64_digits s) @ ''==''" using 3 by (simp add: btoa_digits numeral_2_eq_2)
    then have "js_ends_with (btoa s) ''==''" by (simp only: b ends_with_append)
    then show ?thesis using m by (simp add: strip_padding_def) (simp add: b)
  qed
qed

lemma digits_not_one: "length (base64_digits s) mod 4 \<noteq> 1"
proof (induction s rule: base64_digits.induct)
  case (4 a b c cs)
  then show ?case by (simp add: Let_def)
qed (simp_all add: Let_def)

lemma atob_btoa: "atob (btoa s) = Some s"
proof -
  have "filter (\<lambda>c. \<not> is_ascii_space c) (btoa s) = btoa s"
    using btoa_chars by (auto simp: filter_id_conv)
  then show ?thesis
    by (simp add: atob_def strip_btoa digits_not_one [simplified] base64_vals_map digits_small base64_bytes_digits)
qed


section \<open>What encoding promises\<close>

text \<open>The hexadecimal digits are letters and digits.\<close>

lemma upper_hex_code: "n < 16 \<Longrightarrow> (of_char (upper_hex n) :: nat) = (if n < 10 then 48 + n else 55 + n)"
  by (simp add: upper_hex_def)

lemma upper_hex_unescaped: "n < 16 \<Longrightarrow> is_unescaped (upper_hex n)"
  by (auto simp: is_unescaped_def is_url_alnum_def upper_hex_code Let_def)

text \<open>An encoded text is made of the unreserved characters and percent signs: no separator of a URL, no
  brace and no dollar sign is in it.\<close>

lemma encoded_char_set: "d \<in> set (encode_uri_char c) \<Longrightarrow> is_unescaped d \<or> d = CHR ''%''"
proof -
  have n: "(of_char c :: nat) div 16 < 16" by simp
  have high: "x < 64 \<Longrightarrow> (192 + x) div 16 < 16" "x < 64 \<Longrightarrow> (128 + x) div 16 < 16" for x :: nat
    by (simp_all add: less_mult_imp_div_less)
  have "(of_char c :: nat) div 64 < 64" using code_div(3) [of c] by (rule less_trans) simp
  from high(1) [OF this] high(2) [of "of_char c mod 64"]
  have m: "(192 + (of_char c :: nat) div 64) div 16 < 16" "(128 + (of_char c :: nat) mod 64) div 16 < 16" by simp_all
  show "d \<in> set (encode_uri_char c) \<Longrightarrow> ?thesis"
    using n m by (auto simp: encode_uri_char_def percent_byte_def Let_def upper_hex_unescaped split: if_splits)
qed

lemma encoded_set: "d \<in> set (encode_uri_component s) \<Longrightarrow> is_unescaped d \<or> d = CHR ''%''"
  unfolding encode_uri_component_def using encoded_char_set by auto

lemma separators_escaped:
  "\<not> is_unescaped (CHR ''/'')" "\<not> is_unescaped (CHR ''?'')" "\<not> is_unescaped (CHR ''#'')" "\<not> is_unescaped (CHR ''{'')"
  "\<not> is_unescaped (CHR ''}'')" "\<not> is_unescaped (CHR ''$'')" "\<not> is_unescaped (CHR ''&'')" "\<not> is_unescaped (CHR ''='')"
  "\<not> is_unescaped (CHR ''%'')"
  by code_simp+

lemma encoded_no_separator:
  "c \<in> set ''/?#{}$&='' \<Longrightarrow> c \<notin> set (encode_uri_component s)"
  using encoded_set [of c s] separators_escaped by auto

text \<open>\<open>decodeURIComponent\<close> on what encodes the characters of the model.\<close>

definition hex_digit_val :: "char \<Rightarrow> nat option" where
  "hex_digit_val c =
     (let n = (of_char c :: nat) in
      if 48 \<le> n \<and> n \<le> 57 then Some (n - 48) else if 65 \<le> n \<and> n \<le> 70 then Some (n - 55)
      else if 97 \<le> n \<and> n \<le> 102 then Some (n - 87) else None)"

fun read_byte :: "string \<Rightarrow> (nat \<times> string) option" where
  "read_byte (p # h # l # cs) =
     (if p \<noteq> CHR ''%'' then None
      else (case (hex_digit_val h, hex_digit_val l) of (Some a, Some b) \<Rightarrow> Some (a * 16 + b, cs) | _ \<Rightarrow> None))"
| "read_byte _ = None"

lemma read_byte_shorter: "read_byte s = Some (n, r) \<Longrightarrow> length r < length s"
  by (cases s rule: read_byte.cases) (auto split: if_splits option.splits)

function decode_uri_component :: "string \<Rightarrow> string option" where
  "decode_uri_component s =
     (case s of
        [] \<Rightarrow> Some []
      | c # cs \<Rightarrow>
          if c \<noteq> CHR ''%'' then map_option (Cons c) (decode_uri_component cs)
          else (case read_byte s of
              None \<Rightarrow> None
            | Some (n, r) \<Rightarrow>
                if n < 128 then map_option (Cons (char_of n)) (decode_uri_component r)
                else (case read_byte r of
                    None \<Rightarrow> None
                  | Some (m, q) \<Rightarrow>
                      if 194 \<le> n \<and> n \<le> 195 \<and> 128 \<le> m \<and> m < 192
                      then map_option (Cons (char_of ((n - 192) * 64 + (m - 128)))) (decode_uri_component q)
                      else None)))"
  by pat_completeness auto
termination
  by (relation "measure length") (auto dest!: read_byte_shorter)

declare decode_uri_component.simps [simp del]

lemma hex_digit_val_upper: "n < 16 \<Longrightarrow> hex_digit_val (upper_hex n) = Some n"
  by (auto simp: hex_digit_val_def upper_hex_code Let_def)

lemma read_percent_byte: "n < 256 \<Longrightarrow> read_byte (percent_byte n @ s) = Some (n, s)"
  by (simp add: percent_byte_def hex_digit_val_upper less_mult_imp_div_less)

lemma decode_encoded_char:
  "decode_uri_component (encode_uri_char c @ s) = map_option (Cons c) (decode_uri_component s)"
proof -
  let ?n = "of_char c :: nat"
  have percent: "decode_uri_component (percent_byte m @ t) =
      (if m < 128 then map_option (Cons (char_of m)) (decode_uri_component t)
       else (case read_byte t of None \<Rightarrow> None | Some (k, q) \<Rightarrow>
         if 194 \<le> m \<and> m \<le> 195 \<and> 128 \<le> k \<and> k < 192
         then map_option (Cons (char_of ((m - 192) * 64 + (k - 128)))) (decode_uri_component q) else None))"
    if "m < 256" for m t
  proof -
    obtain r where "percent_byte m = CHR ''%'' # r" by (simp add: percent_byte_def)
    with read_percent_byte [OF that, of t] show ?thesis by (subst decode_uri_component.simps) simp
  qed
  consider "is_unescaped c" | "\<not> is_unescaped c" "?n < 128" | "\<not> is_unescaped c" "128 \<le> ?n" by linarith
  then show ?thesis
  proof cases
    case 1
    then have "c \<noteq> CHR ''%''" using separators_escaped(9) by blast
    with 1 show ?thesis by (subst decode_uri_component.simps) (simp add: encode_uri_char_def)
  next
    case 2
    then show ?thesis by (simp add: encode_uri_char_def Let_def percent)
  next
    case 3
    define q r where "q = ?n div 64" and "r = ?n mod 64"
    then have n: "?n div 64 = q" "?n mod 64 = r" "q * 64 + r = ?n" by (simp_all add: div_mult_mod_eq)
    have "2 \<le> ?n div 64" using div_le_mono [OF 3(2), of 64] by simp
    then have q: "2 \<le> q" "q < 4" "192 + q < 256" using code_div(3) [of c] unfolding n by linarith+
    have r: "r < 64" unfolding n(2) [symmetric] by simp
    have "read_byte (percent_byte (128 + r) @ s) = Some (128 + r, s)" by (rule read_percent_byte) (use r in linarith)
    then have "decode_uri_component (percent_byte (192 + q) @ percent_byte (128 + r) @ s) =
        map_option (Cons (char_of (q * 64 + r))) (decode_uri_component s)"
      using percent [OF q(3), of "percent_byte (128 + r) @ s"] q r by simp
    then show ?thesis using 3 by (simp add: encode_uri_char_def Let_def n)
  qed
qed

lemma decode_encoded: "decode_uri_component (encode_uri_component s) = Some s"
proof (induction s)
  case Nil
  show ?case by (subst decode_uri_component.simps) (simp add: encode_uri_component_def)
next
  case (Cons c s)
  then show ?case by (simp add: encode_uri_component_def decode_encoded_char)
qed

lemma encode_uri_component_inj: "encode_uri_component s = encode_uri_component t \<Longrightarrow> s = t"
  by (metis decode_encoded option.inject)


section \<open>Templates\<close>

text \<open>A template as literal text and holes, and its placeholders filled one name at a time.\<close>

datatype piece = Fixed string | Hole string

fun piece_text :: "piece \<Rightarrow> string" where
  "piece_text (Fixed w) = w"
| "piece_text (Hole n) = CHR ''{'' # n @ ''}''"

definition template_text :: "piece list \<Rightarrow> string" where
  "template_text ps = concat (map piece_text ps)"

definition brace_free :: "string \<Rightarrow> bool" where
  "brace_free w \<longleftrightarrow> CHR ''{'' \<notin> set w \<and> CHR ''}'' \<notin> set w"

fun is_piece :: "piece \<Rightarrow> bool" where
  "is_piece (Fixed w) \<longleftrightarrow> brace_free w"
| "is_piece (Hole n) \<longleftrightarrow> brace_free n \<and> n \<noteq> []"

fun fill_piece :: "string \<Rightarrow> string \<Rightarrow> piece \<Rightarrow> piece" where
  "fill_piece name rep (Fixed w) = Fixed w"
| "fill_piece name rep (Hole n) = (if n = name then Fixed rep else Hole n)"

fun holes :: "piece list \<Rightarrow> string list" where
  "holes [] = []"
| "holes (Fixed w # ps) = holes ps"
| "holes (Hole n # ps) = n # holes ps"

lemma substitution_plain: "CHR ''$'' \<notin> set rep \<Longrightarrow> substitution m b a rep = rep"
  by (induction m b a rep rule: substitution.induct) auto

lemma replace_skip: "p \<notin> set w \<Longrightarrow> replace_from p ps rep b (w @ s) = w @ replace_from p ps rep (b @ w) s"
proof (induction w arbitrary: b)
  case (Cons c w)
  from Cons.prems have "c \<noteq> p" by auto
  with Cons show ?case by (simp add: replace_from.simps js_starts_with_def)
qed simp

lemma replace_match:
  "replace_from p ps rep b (p # ps @ s) = substitution (p # ps) b s rep @ replace_from p ps rep (b @ p # ps) s"
  by (simp add: replace_from.simps js_starts_with_def)

lemma same_name:
  assumes "brace_free n" "brace_free m" "take (Suc (length n)) (m @ CHR ''}'' # s) = n @ ''}''"
  shows "m = n"
proof -
  have "\<exists>t. n @ CHR ''}'' # t = m @ CHR ''}'' # s"
    using assms(3) by (metis append_take_drop_id append_Cons append_Nil append_assoc)
  then have "takeWhile (\<lambda>c. c \<noteq> CHR ''}'') (n @ CHR ''}'' # t) = takeWhile (\<lambda>c. c \<noteq> CHR ''}'') (m @ CHR ''}'' # s)"
    if "n @ CHR ''}'' # t = m @ CHR ''}'' # s" for t using that by simp
  moreover have "takeWhile (\<lambda>c. c \<noteq> CHR ''}'') (w @ CHR ''}'' # u) = w" if "brace_free w" for w u
    using that by (subst takeWhile_append2) (auto simp: brace_free_def)
  ultimately show ?thesis using assms(1,2) \<open>\<exists>t. n @ CHR ''}'' # t = m @ CHR ''}'' # s\<close> by metis
qed

lemma replace_pieces:
  assumes "brace_free name" "CHR ''$'' \<notin> set rep" "\<forall>q \<in> set ps. is_piece q"
  shows "replace_from (CHR ''{'') (name @ ''}'') rep b (template_text ps) = template_text (map (fill_piece name rep) ps)"
  using assms(3)
proof (induction ps arbitrary: b)
  case Nil
  show ?case by (simp add: template_text_def replace_from.simps)
next
  case (Cons q ps)
  note IH = Cons.IH [unfolded template_text_def] and ok = Cons.prems
  show ?case
  proof (cases q)
    case (Fixed w)
    then show ?thesis using ok IH by (simp add: template_text_def replace_skip brace_free_def)
  next
    case (Hole n)
    show ?thesis
    proof (cases "n = name")
      case True
      then show ?thesis
        using ok IH Hole replace_match [of "CHR ''{''" "name @ ''}''" rep b] assms(2)
        by (simp add: template_text_def substitution_plain)
    next
      case False
      let ?s = "concat (map piece_text ps)"
      have "\<not> js_starts_with (CHR ''{'' # n @ CHR ''}'' # ?s) (CHR ''{'' # name @ ''}'')"
        using same_name [OF assms(1), of n ?s] ok Hole False by (auto simp: js_starts_with_def)
      then have first: "replace_from (CHR ''{'') (name @ ''}'') rep b (CHR ''{'' # n @ CHR ''}'' # ?s) =
          CHR ''{'' # replace_from (CHR ''{'') (name @ ''}'') rep (b @ ''{'') (n @ CHR ''}'' # ?s)"
        by (simp add: replace_from.simps)
      have "CHR ''{'' \<notin> set (n @ ''}'')" using ok Hole by (auto simp: brace_free_def)
      from replace_skip [OF this, of "name @ ''}''" rep "b @ ''{''" ?s]
      show ?thesis using ok IH Hole False first by (simp add: template_text_def)
    qed
  qed
qed

lemma replace_placeholder_pieces:
  "brace_free name \<Longrightarrow> CHR ''$'' \<notin> set rep \<Longrightarrow> \<forall>q \<in> set ps. is_piece q \<Longrightarrow>
     replace_placeholder name rep (template_text ps) = template_text (map (fill_piece name rep) ps)"
  unfolding replace_placeholder_def by (rule replace_pieces)

lemma scan_skip: "brace_free w \<Longrightarrow> scan_placeholders None (w @ s) = scan_placeholders None s"
  by (induction w) (auto simp: brace_free_def)

lemma scan_inside: "brace_free w \<Longrightarrow> rev a @ w \<noteq> [] \<Longrightarrow>
    scan_placeholders (Some a) (w @ CHR ''}'' # s) = (rev a @ w) # scan_placeholders None s"
  by (induction w arbitrary: a) (auto simp: brace_free_def)

lemma placeholders_template: "\<forall>q \<in> set ps. is_piece q \<Longrightarrow> placeholders (template_text ps) = holes ps"
proof (induction ps rule: holes.induct)
  case (2 w ps)
  then show ?case by (simp add: placeholders_def template_text_def scan_skip)
next
  case (3 n ps)
  then show ?case using scan_inside [of n "[]" "concat (map piece_text ps)"] by (simp add: placeholders_def template_text_def)
qed (simp add: placeholders_def template_text_def)

lemma fill_is_piece: "brace_free rep \<Longrightarrow> is_piece q \<Longrightarrow> is_piece (fill_piece name rep q)"
  by (cases q) auto

end
