(* ===== verification/HttpAuth.thy ===== *)
theory HttpAuth
  imports OAuthHelpers "HOL-Library.AList"
begin

text \<open>
  The shared HTTP authentication methods of the protocol plugins (\<open>sdk/src/http-auth\<close>): rendering a
  method's placements with the values of a connection, the request-shaped dialect methods are
  written in, the shapes stored before, the slugs connections bind to. A JavaScript record is an
  association list in insertion order; an absent value of a connection is \<open>None\<close>.
\<close>

section \<open>Methods\<close>

definition TOKEN_VARIABLE :: string where
  "TOKEN_VARIABLE = ''token''"

datatype carrier = Header | Query

record placement =
  ap_carrier :: carrier
  ap_name :: string
  ap_prefix :: "string option"
  ap_variable :: "string option"
  ap_literal :: "string option"

record apikey_method =
  am_slug :: "string option"
  am_label :: "string option"
  am_placements :: "placement list"

type_synonym credential_values = "string \<Rightarrow> string option"

definition input_variable :: "placement \<Rightarrow> string" where
  "input_variable p = (case ap_variable p of None \<Rightarrow> TOKEN_VARIABLE | Some v \<Rightarrow> v)"

section \<open>Rendering\<close>

definition render_placement_value :: "placement \<Rightarrow> credential_values \<Rightarrow> string option" where
  "render_placement_value p vals =
     (case ap_literal p of
        Some l \<Rightarrow> Some l
      | None \<Rightarrow> map_option (\<lambda>v. (case ap_prefix p of None \<Rightarrow> v | Some pre \<Rightarrow> pre @ v)) (vals (input_variable p)))"

fun render_loop :: "credential_values \<Rightarrow> placement list \<Rightarrow> (string \<times> string) list \<times> (string \<times> string) list \<Rightarrow>
    (string \<times> string) list \<times> (string \<times> string) list" where
  "render_loop vals [] acc = acc"
| "render_loop vals (p # ps) (headers, query) =
     (case render_placement_value p vals of
        None \<Rightarrow> render_loop vals ps (headers, query)
      | Some v \<Rightarrow>
          if ap_carrier p = Header then render_loop vals ps (AList.update (ap_name p) v headers, query)
          else render_loop vals ps (headers, AList.update (ap_name p) v query))"

definition render_auth_placements ::
  "placement list \<Rightarrow> credential_values \<Rightarrow> (string \<times> string) list \<times> (string \<times> string) list" where
  "render_auth_placements ps vals = render_loop vals ps ([], [])"

definition required_placement_variables :: "placement list \<Rightarrow> string list" where
  "required_placement_variables ps = dedupe (map input_variable (filter (\<lambda>p. ap_literal p = None) ps))"

definition oauth_bearer_placement :: "string option \<Rightarrow> string option \<Rightarrow> placement" where
  "oauth_bearer_placement header pre =
     \<lparr>ap_carrier = Header, ap_name = (case header of None \<Rightarrow> ''Authorization'' | Some h \<Rightarrow> h),
      ap_prefix = Some (case pre of None \<Rightarrow> ''Bearer '' | Some p \<Rightarrow> p), ap_variable = None, ap_literal = None\<rparr>"

section \<open>Slugs\<close>

definition requested_slug :: "('m \<Rightarrow> string option) \<Rightarrow> ('m \<Rightarrow> string) \<Rightarrow> 'm \<Rightarrow> string" where
  "requested_slug slug_of default_slug m =
     (case nonempty (map_option js_trim (slug_of m)) of None \<Rightarrow> default_slug m | Some s \<Rightarrow> s)"

fun normalize_auth_method_slugs :: "('m \<Rightarrow> string option) \<Rightarrow> ('m \<Rightarrow> string) \<Rightarrow> string list \<Rightarrow> 'm list \<Rightarrow> string list" where
  "normalize_auth_method_slugs slug_of default_slug taken [] = []"
| "normalize_auth_method_slugs slug_of default_slug taken (m # ms) =
     (let requested = requested_slug slug_of default_slug m;
          slug = (if requested \<notin> set taken then requested
                  else suffixed (requested @ ''_'') (next_suffix (requested @ ''_'') taken 2))
      in slug # normalize_auth_method_slugs slug_of default_slug (slug # taken) ms)"

section \<open>The request-shaped dialect\<close>

datatype template_part = Literal string | Variable string

datatype template_value = StaticText string | Parts "template_part list"

record apikey_template =
  at_slug :: "string option"
  at_label :: "string option"
  at_headers :: "(string \<times> template_value) list"
  at_query :: "(string \<times> template_value) list"

fun is_variable_part :: "template_part \<Rightarrow> bool" where
  "is_variable_part (Variable _) \<longleftrightarrow> True"
| "is_variable_part (Literal _) \<longleftrightarrow> False"

fun part_text :: "template_part \<Rightarrow> string" where
  "part_text (Variable _) = []"
| "part_text (Literal s) = s"

fun part_variable :: "template_part \<Rightarrow> string" where
  "part_variable (Variable v) = v"
| "part_variable (Literal _) = []"

text \<open>At most one variable, in the last place.\<close>

fun is_template_value :: "template_value \<Rightarrow> bool" where
  "is_template_value (StaticText _) \<longleftrightarrow> True"
| "is_template_value (Parts ps) \<longleftrightarrow>
     (let n = length (filter is_variable_part ps) in n = 0 \<or> n = 1 \<and> is_variable_part (last ps))"

definition literal_placement :: "carrier \<Rightarrow> string \<Rightarrow> string \<Rightarrow> placement" where
  "literal_placement c n s = \<lparr>ap_carrier = c, ap_name = n, ap_prefix = None, ap_variable = None, ap_literal = Some s\<rparr>"

definition variable_placement :: "carrier \<Rightarrow> string \<Rightarrow> string \<Rightarrow> string \<Rightarrow> placement" where
  "variable_placement c n pre v =
     \<lparr>ap_carrier = c, ap_name = n, ap_prefix = (if pre = [] then None else Some pre),
      ap_variable = (if v = TOKEN_VARIABLE then None else Some v), ap_literal = None\<rparr>"

fun placement_from_value :: "carrier \<Rightarrow> string \<Rightarrow> template_value \<Rightarrow> placement" where
  "placement_from_value c n (StaticText s) = literal_placement c n s"
| "placement_from_value c n (Parts ps) =
     (case find is_variable_part ps of
        None \<Rightarrow> literal_placement c n (concat (map part_text ps))
      | Some v \<Rightarrow> variable_placement c n (concat (map part_text ps)) (part_variable v))"

definition api_key_method_from_auth_template :: "apikey_template \<Rightarrow> apikey_method" where
  "api_key_method_from_auth_template t =
     \<lparr>am_slug = at_slug t, am_label = at_label t,
      am_placements = map (\<lambda>(n, v). placement_from_value Header n v) (at_headers t) @
                      map (\<lambda>(n, v). placement_from_value Query n v) (at_query t)\<rparr>"

definition template_value_of :: "placement \<Rightarrow> template_value" where
  "template_value_of p =
     (case ap_literal p of
        Some l \<Rightarrow> StaticText l
      | None \<Rightarrow> (case nonempty (ap_prefix p) of
          Some pre \<Rightarrow> Parts [Literal pre, Variable (input_variable p)]
        | None \<Rightarrow> Parts [Variable (input_variable p)]))"

definition api_key_auth_template_from_method :: "apikey_method \<Rightarrow> apikey_template" where
  "api_key_auth_template_from_method m =
     (let put = (\<lambda>c. fold (\<lambda>p acc. AList.update (ap_name p) (template_value_of p) acc)
                          (filter (\<lambda>p. ap_carrier p = c) (am_placements m)) [])
      in \<lparr>at_slug = am_slug m, at_label = am_label m, at_headers = put Header, at_query = put Query\<rparr>)"

section \<open>The shapes stored before\<close>

fun legacy_parts :: "carrier \<Rightarrow> string \<Rightarrow> string \<Rightarrow> template_part list \<Rightarrow> placement" where
  "legacy_parts c n pre [] = literal_placement c n pre"
| "legacy_parts c n pre (Literal s # ps) = legacy_parts c n (pre @ s) ps"
| "legacy_parts c n pre (Variable v # ps) = variable_placement c n pre v"

fun placement_from_template_value :: "carrier \<Rightarrow> string \<Rightarrow> template_value \<Rightarrow> placement" where
  "placement_from_template_value c n (StaticText s) = literal_placement c n s"
| "placement_from_template_value c n (Parts ps) = legacy_parts c n [] ps"

definition api_key_method_from_legacy_template :: "apikey_template \<Rightarrow> apikey_method" where
  "api_key_method_from_legacy_template t =
     \<lparr>am_slug = at_slug t, am_label = None,
      am_placements = map (\<lambda>(n, v). placement_from_template_value Header n v) (at_headers t) @
                      map (\<lambda>(n, v). placement_from_template_value Query n v) (at_query t)\<rparr>"

text \<open>The plan of a migration: what to write to which row.\<close>

record config_row =
  mr_row_id :: string
  mr_plugin_id :: string
  mr_config :: jsval

definition plan_auth_config_migration ::
  "config_row list \<Rightarrow> (string \<Rightarrow> (jsval \<Rightarrow> jsval option) option) \<Rightarrow> (string \<times> jsval) list" where
  "plan_auth_config_migration rows transforms =
     List.map_filter (\<lambda>r. Option.bind (transforms (mr_plugin_id r)) (\<lambda>f. map_option (\<lambda>c. (mr_row_id r, c)) (f (mr_config r)))) rows"

section \<open>What is shown of a method\<close>

definition api_key_method_label :: "apikey_method \<Rightarrow> string \<Rightarrow> string" where
  "api_key_method_label m slug =
     (let derived = (case find (\<lambda>p. js_trim (ap_name p) \<noteq> []) (am_placements m) of
            Some p \<Rightarrow> ''API key ('' @ ap_name p @ '')'' | None \<Rightarrow> ''API key ('' @ slug @ '')'')
      in case am_label m of Some l \<Rightarrow> if js_trim l \<noteq> [] then l else derived | None \<Rightarrow> derived)"

section \<open>What a request carries\<close>

definition rendered_at :: "carrier \<Rightarrow> string \<Rightarrow> credential_values \<Rightarrow> placement list \<Rightarrow> string list" where
  "rendered_at c n vals ps =
     List.map_filter (\<lambda>p. if ap_carrier p = c \<and> ap_name p = n then render_placement_value p vals else None) ps"

definition last_of :: "'a list \<Rightarrow> 'a option \<Rightarrow> 'a option" where
  "last_of xs old = (if xs = [] then old else Some (last xs))"

lemma carrier_cases: "c \<noteq> Header \<longleftrightarrow> c = Query"
  by (cases c) auto

lemma rendered_at_Cons: "rendered_at c n vals (p # ps) =
    (if ap_carrier p = c \<and> ap_name p = n then (case render_placement_value p vals of None \<Rightarrow> [] | Some v \<Rightarrow> [v]) else []) @ rendered_at c n vals ps"
  by (simp add: rendered_at_def List.map_filter_def split: option.split)

lemma last_of_Cons [simp]: "last_of (x # xs) old = last_of xs (Some x)"
  by (simp add: last_of_def)

lemma last_of_Nil [simp]: "last_of [] old = old"
  by (simp add: last_of_def)

lemma render_lookup:
  "map_of (fst (render_loop vals ps (h, q))) n = last_of (rendered_at Header n vals ps) (map_of h n) \<and>
   map_of (snd (render_loop vals ps (h, q))) n = last_of (rendered_at Query n vals ps) (map_of q n)"
proof (induction ps arbitrary: h q)
  case Nil
  then show ?case by (simp add: rendered_at_def List.map_filter_def)
next
  case (Cons p ps)
  then show ?case by (auto simp: rendered_at_Cons update_conv' carrier_cases split: option.split)
qed

lemma required_iff: "v \<in> set (required_placement_variables ps) \<longleftrightarrow> (\<exists>p \<in> set ps. ap_literal p = None \<and> input_variable p = v)"
  by (auto simp: required_placement_variables_def)

lemma render_agrees:
  assumes "\<forall>v \<in> set (required_placement_variables ps). vals v = vals' v" "p \<in> set ps"
  shows "render_placement_value p vals = render_placement_value p vals'"
proof -
  have "vals (input_variable p) = vals' (input_variable p)" if "ap_literal p = None" using assms that required_iff by blast
  then show ?thesis by (simp add: render_placement_value_def split: option.split)
qed

lemma render_loop_agrees:
  "(\<forall>p \<in> set ps. render_placement_value p vals = render_placement_value p vals') \<Longrightarrow>
   render_loop vals ps acc = render_loop vals' ps acc"
  by (induction vals ps acc rule: render_loop.induct) (auto split: option.split)

text \<open>The request carries, in each header and query parameter, the last of the placements for it that has a value,
  and nothing else; and no value of a connection reaches it but those of the variables the method requires.\<close>

theorem rendered_request_spec:
  "(\<forall>n. map_of (fst (render_auth_placements ps vals)) n = last_of (rendered_at Header n vals ps) None) \<and>
   (\<forall>n. map_of (snd (render_auth_placements ps vals)) n = last_of (rendered_at Query n vals ps) None) \<and>
   (\<forall>vals'. (\<forall>v \<in> set (required_placement_variables ps). vals v = vals' v) \<longrightarrow>
      render_auth_placements ps vals = render_auth_placements ps vals')"
  using render_agrees [of ps vals] render_loop_agrees [of ps vals]
  by (auto simp: render_auth_placements_def render_lookup)

section \<open>The dialects\<close>

lemma legacy_literals: "legacy_parts c n pre (map Literal ls @ ps) = legacy_parts c n (pre @ concat ls) ps"
  by (induction ls arbitrary: pre) auto

lemma literals_only: "filter is_variable_part ps = [] \<Longrightarrow> ps = map Literal (map part_text ps)"
proof (induction ps)
  case (Cons p ps)
  then show ?case by (cases p) auto
qed simp

lemma one_variable_last:
  assumes "length (filter is_variable_part ps) = 1" "is_variable_part (last ps)"
  obtains ls v where "ps = map Literal ls @ [Variable v]"
proof -
  have "ps \<noteq> []" using assms(1) by auto
  then have ps: "ps = butlast ps @ [last ps]" by simp
  then have "length (filter is_variable_part (butlast ps @ [last ps])) = 1" using assms(1) by simp
  then have "filter is_variable_part (butlast ps) = []" using assms(2) by simp
  moreover obtain v where "last ps = Variable v" using assms(2) by (cases "last ps") auto
  ultimately show thesis using that [of "map part_text (butlast ps)" v] ps literals_only by metis
qed

lemma find_in_literals: "find is_variable_part (map Literal ls @ ps) = find is_variable_part ps"
  by (induction ls) auto

lemma text_of_literals: "concat (map part_text (map Literal ls)) = concat ls"
  by (induction ls) auto

text \<open>On every value the strict dialect accepts, it is normalised to the placement the tolerant rewriting of the
  stored shapes gives; so a method written anew means what the migrated one means.\<close>

theorem dialects_agree:
  assumes "is_template_value v"
  shows "placement_from_value c n v = placement_from_template_value c n v"
proof (cases v)
  case (Parts ps)
  show ?thesis
  proof (cases "filter is_variable_part ps = []")
    case True
    note ps = literals_only [OF True]
    have "find is_variable_part ps = None" using True by (simp add: find_None_iff filter_empty_conv)
    moreover have "legacy_parts c n [] ps = literal_placement c n (concat (map part_text ps))"
      by (subst ps) (use legacy_literals [of c n "[]" "map part_text ps" "[]"] in simp)
    ultimately show ?thesis using Parts by simp
  next
    case False
    with assms Parts obtain ls w where "ps = map Literal ls @ [Variable w]"
      using one_variable_last [of ps] by (auto simp: Let_def)
    then show ?thesis using Parts by (simp add: find_in_literals legacy_literals text_of_literals del: map_map)
  qed
qed simp

text \<open>Where they differ: the tolerant one drops what stands behind the first variable.\<close>

lemma legacy_drops_the_rest:
  "placement_from_template_value c n (Parts [Variable ''token'', Literal ''!'']) = variable_placement c n [] ''token''"
  by simp

section \<open>Reading a method, changing it, writing it back\<close>

lemma update_fresh: "k \<notin> fst ` set al \<Longrightarrow> AList.update k v al = al @ [(k, v)]"
  by (induction al) auto

lemma update_keys_distinct: "distinct (map fst al) \<Longrightarrow> distinct (map fst (AList.update k v al))"
  by (rule distinct_update)

lemma map_update: "map (apsnd f) (AList.update k v al) = AList.update k (f v) (map (apsnd f) al)"
  by (induction al) auto

lemma fold_update_distinct:
  "distinct (map fst (acc @ al)) \<Longrightarrow> fold (\<lambda>(k, v). AList.update k v) al acc = acc @ al"
proof (induction al arbitrary: acc)
  case (Cons x al)
  obtain k v where x: "x = (k, v)" by fastforce
  with Cons.prems have "AList.update k v acc = acc @ [x]" by (auto intro!: update_fresh)
  with Cons x show ?case by simp
qed simp

text \<open>When every placement has a value, rendering is a fold of updates.\<close>

definition put_rendered :: "credential_values \<Rightarrow> carrier \<Rightarrow> placement list \<Rightarrow> (string \<times> string) list \<Rightarrow> (string \<times> string) list" where
  "put_rendered vals c ps = fold (\<lambda>p. AList.update (ap_name p) (the (render_placement_value p vals))) (filter (\<lambda>p. ap_carrier p = c) ps)"

lemma render_all:
  "\<forall>p \<in> set ps. render_placement_value p vals \<noteq> None \<Longrightarrow>
   render_loop vals ps (h, q) = (put_rendered vals Header ps h, put_rendered vals Query ps q)"
  by (induction ps arbitrary: h q) (auto simp: put_rendered_def carrier_cases)

definition value_text :: "credential_values \<Rightarrow> template_value \<Rightarrow> string" where
  "value_text vals tv = the (render_placement_value (placement_from_value Header [] tv) vals)"

lemma render_from_value:
  "render_placement_value (placement_from_value c n tv) vals = render_placement_value (placement_from_value Header [] tv) vals"
  by (cases tv) (auto simp: render_placement_value_def literal_placement_def variable_placement_def input_variable_def split: option.split)

lemma map_empty_prefix [simp]: "map_option ((@) []) x = x" "map_option (\<lambda>v. v) x = x"
  by (cases x; simp)+

lemma render_template_value:
  "render_placement_value (placement_from_value c n (template_value_of p)) vals = render_placement_value p vals"
  by (auto simp: template_value_of_def render_placement_value_def literal_placement_def variable_placement_def
      input_variable_def nonempty_def split: option.split if_splits)

lemma value_text_of: "value_text vals (template_value_of p) = the (render_placement_value p vals)"
  by (simp add: value_text_def render_template_value)

lemma placement_of_value [simp]: "ap_carrier (placement_from_value c n tv) = c" "ap_name (placement_from_value c n tv) = n"
  by (cases tv; simp add: literal_placement_def variable_placement_def split: option.split)+

definition template_entries :: "carrier \<Rightarrow> placement list \<Rightarrow> (string \<times> template_value) list" where
  "template_entries c ps = fold (\<lambda>p acc. AList.update (ap_name p) (template_value_of p) acc) (filter (\<lambda>p. ap_carrier p = c) ps) []"

lemma template_entries_distinct: "distinct (map fst (template_entries c ps))"
proof -
  have "distinct (map fst acc) \<Longrightarrow> distinct (map fst (fold (\<lambda>p acc. AList.update (ap_name p) (template_value_of p) acc) qs acc))" for qs acc
    by (induction qs arbitrary: acc) (simp_all add: update_keys_distinct)
  then show ?thesis by (simp add: template_entries_def)
qed

lemma template_entries_values: "map (apsnd (value_text vals)) (template_entries c ps) = put_rendered vals c ps []"
proof -
  have "map (apsnd (value_text vals)) (fold (\<lambda>p acc. AList.update (ap_name p) (template_value_of p) acc) qs acc) =
      fold (\<lambda>p. AList.update (ap_name p) (the (render_placement_value p vals))) qs (map (apsnd (value_text vals)) acc)" for qs acc
    by (induction qs arbitrary: acc) (simp_all add: map_update value_text_of)
  from this [of "filter (\<lambda>p. ap_carrier p = c) ps" "[]"] show ?thesis by (simp add: template_entries_def put_rendered_def)
qed

lemma put_template_entries:
  assumes "distinct (map fst al)"
  shows "put_rendered vals c (map (\<lambda>(n, v). placement_from_value c n v) al) [] = map (apsnd (value_text vals)) al"
proof -
  have "put_rendered vals c (map (\<lambda>(n, v). placement_from_value c n v) al) [] =
      fold (\<lambda>(k, v). AList.update k v) (map (apsnd (value_text vals)) al) []"
    by (simp add: put_rendered_def fold_map filter_map o_def case_prod_beta value_text_def render_from_value [of c])
  also have "\<dots> = map (apsnd (value_text vals)) al"
    using fold_update_distinct [of "[]" "map (apsnd (value_text vals)) al"] assms by (simp add: o_def)
  finally show ?thesis .
qed

lemma put_other: "\<forall>p \<in> set ps. ap_carrier p \<noteq> c \<Longrightarrow> put_rendered vals c ps acc = acc"
  by (simp add: put_rendered_def filter_False)

lemma put_append: "put_rendered vals c (ps @ qs) acc = put_rendered vals c qs (put_rendered vals c ps acc)"
  by (simp add: put_rendered_def)

lemma entries_render:
  "(n, tv) \<in> set (template_entries c ps) \<Longrightarrow> \<exists>p \<in> set ps. tv = template_value_of p"
proof -
  have "(n, tv) \<in> set (fold (\<lambda>p acc. AList.update (ap_name p) (template_value_of p) acc) qs acc) \<Longrightarrow>
      (n, tv) \<in> set acc \<or> (\<exists>p \<in> set qs. tv = template_value_of p)" for qs acc
  proof (induction qs arbitrary: acc)
    case (Cons q qs)
    have "set (AList.update k v al) \<subseteq> insert (k, v) (set al)" for k v and al :: "(string \<times> template_value) list"
      by (induction al) auto
    with Cons show ?case by fastforce
  qed simp
  then show "(n, tv) \<in> set (template_entries c ps) \<Longrightarrow> \<exists>p \<in> set ps. tv = template_value_of p"
    by (fastforce simp: template_entries_def)
qed

text \<open>A method that is shown in the request-shaped dialect and written back renders the same request, with the same
  headers and parameters in the same order, whenever the connection has a value for every variable it requires.\<close>

theorem authoring_round_trip:
  assumes "\<forall>v \<in> set (required_placement_variables (am_placements m)). vals v \<noteq> None"
  shows "render_auth_placements (am_placements (api_key_method_from_auth_template (api_key_auth_template_from_method m))) vals =
    render_auth_placements (am_placements m) vals"
proof -
  let ?ps = "am_placements m"
  let ?qs = "map (\<lambda>(n, v). placement_from_value Header n v) (template_entries Header ?ps) @
      map (\<lambda>(n, v). placement_from_value Query n v) (template_entries Query ?ps)"
  have qs: "am_placements (api_key_method_from_auth_template (api_key_auth_template_from_method m)) = ?qs"
    by (simp add: api_key_method_from_auth_template_def api_key_auth_template_from_method_def template_entries_def)
  have all: "render_placement_value p vals \<noteq> None" if "p \<in> set ?ps" for p
    using assms that required_iff [of "input_variable p" ?ps] by (auto simp: render_placement_value_def split: option.splits)
  have "render_placement_value p vals \<noteq> None" if "p \<in> set ?qs" for p
  proof -
    have "\<exists>c n tv. p = placement_from_value c n tv \<and> (n, tv) \<in> set (template_entries c ?ps)" using that by fastforce
    then show ?thesis using entries_render all render_template_value by metis
  qed
  then have "render_auth_placements ?qs vals = (put_rendered vals Header ?qs [], put_rendered vals Query ?qs [])"
    by (simp add: render_auth_placements_def render_all)
  also have "\<dots> = (put_rendered vals Header ?ps [], put_rendered vals Query ?ps [])"
    by (simp add: put_append put_other put_template_entries template_entries_distinct template_entries_values case_prod_beta
        put_template_entries [unfolded case_prod_beta])
  also have "\<dots> = render_auth_placements ?ps vals" using all by (simp add: render_auth_placements_def render_all)
  finally show ?thesis by (simp add: qs)
qed

text \<open>Without a value for the last of two placements of one name the two differ: the renderer falls back to
  the earlier one, the dialect has dropped it.\<close>

lemma collapsed_placement_lost:
  "fst (render_auth_placements [literal_placement Header ''X'' ''v1'', variable_placement Header ''X'' [] ''key''] (\<lambda>_. None)) = [(''X'', ''v1'')] \<and>
   fst (render_auth_placements (am_placements (api_key_method_from_auth_template (api_key_auth_template_from_method
     \<lparr>am_slug = None, am_label = None, am_placements = [literal_placement Header ''X'' ''v1'', variable_placement Header ''X'' [] ''key'']\<rparr>)))
     (\<lambda>_. None)) = []"
  by code_simp

section \<open>Slugs that stay\<close>

lemma normalized_slugs:
  "distinct (normalize_auth_method_slugs slug_of default_slug taken ms) \<and>
   set (normalize_auth_method_slugs slug_of default_slug taken ms) \<inter> set taken = {}"
proof (induction ms arbitrary: taken)
  case (Cons m ms)
  let ?r = "requested_slug slug_of default_slug m"
  let ?s = "if ?r \<notin> set taken then ?r else suffixed (?r @ ''_'') (next_suffix (?r @ ''_'') taken 2)"
  have "?s \<notin> set taken" by (simp add: next_suffix_free)
  with Cons [of "?s # taken"] show ?case by (auto simp: Let_def)
qed simp

lemma normalize_fixed:
  "distinct ss \<Longrightarrow> set ss \<inter> set taken = {} \<Longrightarrow> (\<forall>s \<in> set ss. s \<noteq> [] \<and> js_trim s = s) \<Longrightarrow>
   normalize_auth_method_slugs Some default_slug taken ss = ss"
  by (induction ss arbitrary: taken) (auto simp: Let_def requested_slug_def nonempty_def)

definition tight :: "string \<Rightarrow> bool" where
  "tight s \<longleftrightarrow> s \<noteq> [] \<and> \<not> is_js_space (hd s) \<and> \<not> is_js_space (last s)"

lemma tight_trim: "tight s \<Longrightarrow> js_trim s = s"
proof -
  assume s: "tight s"
  have "dropWhile is_js_space s = s" using s by (cases s) (auto simp: tight_def)
  moreover have "dropWhile is_js_space (rev s) = rev s" using s by (cases s rule: rev_cases) (auto simp: tight_def)
  ultimately show ?thesis by (simp add: js_trim_def)
qed

lemma trim_tight:
  assumes "js_trim s \<noteq> []"
  shows "tight (js_trim s)"
proof -
  let ?t = "dropWhile is_js_space s"
  let ?u = "dropWhile is_js_space (rev ?t)"
  have u: "?u \<noteq> []" "js_trim s = rev ?u" using assms by (simp_all add: js_trim_def)
  have "\<not> is_js_space (last (js_trim s))" using hd_dropWhile [OF u(1)] u by (simp add: last_rev)
  moreover have t: "?t = js_trim s @ rev (takeWhile is_js_space (rev ?t))"
    by (metis js_trim_def rev_append rev_rev_ident takeWhile_dropWhile_id)
  have "?t \<noteq> []" using t assms by (metis append_is_Nil_conv)
  from hd_dropWhile [OF this] t assms have "\<not> is_js_space (hd (js_trim s))" by (metis hd_append2)
  ultimately show ?thesis using assms by (simp add: tight_def)
qed

lemma digit_no_space: "\<not> is_js_space (last (nat_digits n))"
  by (simp add: nat_digits_last is_js_space_def Let_def)

lemma suffixed_tight: "tight s \<Longrightarrow> tight (suffixed (s @ ''_'') n)"
  using digit_no_space [of n] by (auto simp: tight_def suffixed_def nat_digits_last(2))

lemma normalized_tight:
  assumes "\<forall>m \<in> set ms. tight (default_slug m)"
  shows "\<forall>s \<in> set (normalize_auth_method_slugs slug_of default_slug taken ms). tight s"
  using assms
proof (induction ms arbitrary: taken)
  case (Cons m ms)
  have "tight (requested_slug slug_of default_slug m)"
    using Cons.prems trim_tight by (auto simp: requested_slug_def nonempty_def split: option.split)
  with Cons show ?case by (auto simp: Let_def suffixed_tight)
qed simp

text \<open>Every method gets a slug of its own, however many ask for the same one, and the slugs stay: normalising the
  methods again with the slugs they were given changes none, so connections keep what they are bound to.\<close>

theorem auth_slugs_stable:
  assumes "\<forall>m \<in> set ms. tight (default_slug m)" "ss = normalize_auth_method_slugs slug_of default_slug [] ms"
  shows "length ss = length ms \<and> distinct ss \<and> normalize_auth_method_slugs Some other_default [] ss = ss"
proof -
  have "length (normalize_auth_method_slugs slug_of default_slug taken ms) = length ms" for taken
    by (induction ms arbitrary: taken) (simp_all add: Let_def)
  moreover have "\<forall>s \<in> set ss. s \<noteq> [] \<and> js_trim s = s"
    using normalized_tight [OF assms(1)] assms(2) by (auto simp: tight_trim) (auto simp: tight_def)
  ultimately show ?thesis using normalized_slugs [of slug_of default_slug "[]" ms] assms(2) by (simp add: normalize_fixed)
qed

section \<open>Migrating stored configurations\<close>

text \<open>\<open>UPDATE integration SET config WHERE row_id\<close>, for each planned update in turn.\<close>

definition apply_updates :: "(string \<times> jsval) list \<Rightarrow> config_row list \<Rightarrow> config_row list" where
  "apply_updates us rows = fold (\<lambda>(i, c). map (\<lambda>r. if mr_row_id r = i then r\<lparr>mr_config := c\<rparr> else r)) us rows"

lemma apply_updates_row:
  "apply_updates us rows = map (\<lambda>r. case map_of (rev us) (mr_row_id r) of None \<Rightarrow> r | Some c \<Rightarrow> r\<lparr>mr_config := c\<rparr>) rows"
proof (induction us arbitrary: rows)
  case (Cons u us)
  obtain i c where u: "u = (i, c)" by fastforce
  show ?case unfolding apply_updates_def u
    by (simp add: apply_updates_def [symmetric] Cons.IH map_add_def split: option.split)
qed (simp add: apply_updates_def)

lemma plan_lookup:
  assumes "distinct (map mr_row_id rows)" "r \<in> set rows"
  shows "map_of (rev (plan_auth_config_migration rows transforms)) (mr_row_id r) =
    Option.bind (transforms (mr_plugin_id r)) (\<lambda>f. f (mr_config r))"
proof -
  let ?us = "plan_auth_config_migration rows transforms"
  have mem: "(mr_row_id r, c) \<in> set ?us \<longleftrightarrow> Option.bind (transforms (mr_plugin_id r)) (\<lambda>f. f (mr_config r)) = Some c" for c
  proof -
    have "r' = r" if "r' \<in> set rows" "mr_row_id r' = mr_row_id r" for r'
      using assms that by (auto simp: distinct_map inj_on_def)
    then show ?thesis using assms(2)
      by (auto simp: plan_auth_config_migration_def List.map_filter_def bind_eq_Some_conv image_iff split: bind_splits)
  qed
  have "set (map fst ?us) \<subseteq> mr_row_id ` set rows \<and> distinct (map fst ?us)"
    using assms(1)
  proof (induction rows)
    case (Cons a rows)
    then show ?case by (auto simp: plan_auth_config_migration_def List.map_filter_def split: option.splits bind_splits)
  qed (simp add: plan_auth_config_migration_def List.map_filter_def)
  then have "map_of (rev ?us) i = Some c \<longleftrightarrow> (i, c) \<in> set ?us" for i c
    by (metis distinct_rev map_of_eq_Some_iff rev_map set_rev)
  with mem show ?thesis by (metis not_None_eq)
qed

text \<open>The migration rewrites each row its plugin's transform has something to say about, leaves the others as they
  are, and is done after one run: over the rows it wrote it plans nothing, when the transforms
  leave alone what they made.\<close>

theorem migration_settles:
  assumes "distinct (map mr_row_id rows)"
    and "\<And>p f c c'. transforms p = Some f \<Longrightarrow> f c = Some c' \<Longrightarrow> f c' = None"
    and "rows' = apply_updates (plan_auth_config_migration rows transforms) rows"
  shows "rows' = map (\<lambda>r. case Option.bind (transforms (mr_plugin_id r)) (\<lambda>f. f (mr_config r)) of None \<Rightarrow> r | Some c \<Rightarrow> r\<lparr>mr_config := c\<rparr>) rows \<and>
    plan_auth_config_migration rows' transforms = []"
proof -
  have rows': "rows' = map (\<lambda>r. case Option.bind (transforms (mr_plugin_id r)) (\<lambda>f. f (mr_config r)) of None \<Rightarrow> r | Some c \<Rightarrow> r\<lparr>mr_config := c\<rparr>) rows"
    unfolding assms(3) apply_updates_row by (rule map_cong [OF refl]) (simp add: plan_lookup [OF assms(1)])
  have "Option.bind (transforms (mr_plugin_id r)) (\<lambda>f. map_option (Pair (mr_row_id r)) (f (mr_config r))) = None" if "r \<in> set rows'" for r
    using that unfolding rows' by (auto split: option.splits bind_splits) (metis assms(2) option.distinct(1))
  then have "plan_auth_config_migration rows' transforms = []"
    by (simp add: plan_auth_config_migration_def List.map_filter_def filter_empty_conv)
  with rows' show ?thesis by simp
qed

section \<open>A concrete method\<close>

definition two_keys :: apikey_method where
  "two_keys = \<lparr>am_slug = Some ''keys'', am_label = None,
     am_placements = [variable_placement Header ''DD-API-KEY'' [] ''api'', variable_placement Header ''Authorization'' ''Bearer '' ''token'',
                      literal_placement Query ''v'' ''2'']\<rparr>"

definition two_values :: credential_values where
  "two_values = map_of [(''api'', ''k1''), (''token'', ''t1''), (''other'', ''o1'')]"

lemma rendered_request_spec_witness:
  "map_of (fst (render_auth_placements (am_placements two_keys) two_values)) ''Authorization'' = Some ''Bearer t1''"
proof -
  have "last_of (rendered_at Header ''Authorization'' two_values (am_placements two_keys)) None = Some ''Bearer t1''" by code_simp
  with rendered_request_spec [of "am_placements two_keys" two_values] show ?thesis by metis
qed

lemma dialects_agree_witness:
  "placement_from_value Header ''Authorization'' (Parts [Literal ''Bearer '', Variable ''token'']) =
   placement_from_template_value Header ''Authorization'' (Parts [Literal ''Bearer '', Variable ''token''])"
  by (rule dialects_agree) simp

lemma authoring_round_trip_witness:
  "render_auth_placements (am_placements (api_key_method_from_auth_template (api_key_auth_template_from_method two_keys))) two_values =
   render_auth_placements (am_placements two_keys) two_values"
  by (rule authoring_round_trip) code_simp

lemma auth_slugs_stable_witness:
  "distinct (normalize_auth_method_slugs (\<lambda>m. m) (\<lambda>_. ''apikey'') [] [None, Some '' apikey'', None])"
  using auth_slugs_stable [of "[None, Some '' apikey'', None]" "\<lambda>_. ''apikey''"
      "normalize_auth_method_slugs (\<lambda>m. m) (\<lambda>_. ''apikey'') [] [None, Some '' apikey'', None]" "\<lambda>m. m"]
  by (simp add: tight_def is_js_space_def Let_def)

lemma migration_settles_witness:
  "plan_auth_config_migration (apply_updates
      (plan_auth_config_migration [\<lparr>mr_row_id = ''1'', mr_plugin_id = ''mcp'', mr_config = JNum 1\<rparr>]
        (\<lambda>p. if p = ''mcp'' then Some (\<lambda>c. if c = JNum 1 then Some (JNum 2) else None) else None))
      [\<lparr>mr_row_id = ''1'', mr_plugin_id = ''mcp'', mr_config = JNum 1\<rparr>])
     (\<lambda>p. if p = ''mcp'' then Some (\<lambda>c. if c = JNum 1 then Some (JNum 2) else None) else None) = []"
  (is "plan_auth_config_migration (apply_updates (plan_auth_config_migration ?rows ?t) ?rows) ?t = []")
proof -
  have settled: "f c' = None" if "?t p = Some f" "f c = Some c'" for p f c c'
    using that by (auto split: if_splits)
  show ?thesis
    by (rule conjunct2 [OF migration_settles [where rows = ?rows and transforms = ?t and rows' = "apply_updates (plan_auth_config_migration ?rows ?t) ?rows"]])
      (simp, rule settled, assumption+, rule refl)
qed

end
