(* ===== verification/OpenApiRequests.thy ===== *)
theory OpenApiRequests
  imports UrlText SchemaRefs HttpAuth
begin

text \<open>
  Building the request of an OpenAPI operation (\<open>packages/plugins/openapi/src/sdk\<close>: \<open>types.ts\<close>, the
  server URLs and media types of \<open>openapi-utils.ts\<close>, and \<open>invoke.ts\<close> up to \<open>buildRequest\<close>): a tool's
  arguments are read, checked and written into the path, the query, the headers and the body, and the
  credential of the connection is applied over them. Arguments are the JSON values a sandbox sends. The request
  type of the HTTP library is a parameter with the operations the code calls.
\<close>

section \<open>Operations\<close>

datatype param_location = InPath | InQuery | InHeader | InCookie

record operation_parameter =
  op_name :: string
  op_location :: param_location
  op_required :: bool
  op_schema :: "jsval option"
  op_style :: "string option"
  op_explode :: "bool option"
  op_allow_reserved :: "bool option"
  op_description :: "string option"

record encoding_object =
  en_content_type :: "string option"
  en_style :: "string option"
  en_explode :: "bool option"
  en_allow_reserved :: "bool option"

record media_binding =
  mb_content_type :: string
  mb_schema :: "jsval option"
  mb_encoding :: "(string \<times> encoding_object) list option"

record operation_request_body =
  rb_required :: bool
  rb_content_type :: string
  rb_schema :: "jsval option"
  rb_contents :: "media_binding list option"

datatype hint_kind = BinaryResponse | ByteField

datatype base64_dialect = Base64 | Base64Url

record operation_file_hint =
  fh_kind :: hint_kind
  fh_mime_type :: "string option"
  fh_data_field :: "string option"
  fh_size_field :: "string option"
  fh_encoding :: "base64_dialect option"

record operation_response_body =
  rs_content_type :: string
  rs_schema :: "jsval option"
  rs_file_hint :: "operation_file_hint option"

record server_variable =
  sv_default :: string
  sv_enum :: "string list option"
  sv_description :: "string option"

record server_info =
  si_url :: string
  si_description :: "string option"
  si_variables :: "(string \<times> server_variable) list option"

record operation_binding =
  ob_method :: string
  ob_servers :: "server_info list option"
  ob_path_template :: string
  ob_parameters :: "operation_parameter list"
  ob_request_body :: "operation_request_body option"
  ob_response_body :: "operation_response_body option"
  ob_required_scopes :: "string list list option"

text \<open>\<open>OpenApiInvocationError\<close>; an absent cause is \<open>undefined\<close>.\<close>

record invocation_error =
  ie_message :: string
  ie_status :: "int option"
  ie_reason :: "string option"
  ie_cause :: jsval

text \<open>The error as a value, its status an \<open>Option\<close> of the library.\<close>

definition option_value :: "int option \<Rightarrow> jsval" where
  "option_value x =
     (case x of None \<Rightarrow> JObj [(''_tag'', JStr ''None'')] | Some n \<Rightarrow> JObj [(''_tag'', JStr ''Some''), (''value'', JNum n)])"

definition invocation_error_value :: "invocation_error \<Rightarrow> jsval" where
  "invocation_error_value e =
     JObj ([(''_tag'', JStr ''OpenApiInvocationError''), (''message'', JStr (ie_message e)),
            (''statusCode'', option_value (ie_status e))]
           @ (case ie_reason e of None \<Rightarrow> [] | Some r \<Rightarrow> [(''reason'', JStr r)])
           @ (if ie_cause e = JUndef then [] else [(''cause'', ie_cause e)]))"

definition invalid_request :: "string \<Rightarrow> invocation_error" where
  "invalid_request m = \<lparr>ie_message = m, ie_status = None, ie_reason = None, ie_cause = JUndef\<rparr>"

type_synonym tool_args = record_vals

section \<open>Reading parameters\<close>

fun container_keys :: "param_location \<Rightarrow> string list" where
  "container_keys InPath = [''path'', ''pathParams'', ''params'']"
| "container_keys InQuery = [''query'', ''queryParams'', ''params'']"
| "container_keys InHeader = [''headers'', ''header'']"
| "container_keys InCookie = [''cookies'', ''cookie'']"

fun read_nested :: "tool_args \<Rightarrow> string \<Rightarrow> string list \<Rightarrow> jsval" where
  "read_nested args name [] = JUndef"
| "read_nested args name (k # ks) =
     (let nested = obj_get (prop_of args k) name in
      if nested = JUndef then read_nested args name ks else nested)"

definition read_param_value :: "tool_args \<Rightarrow> operation_parameter \<Rightarrow> jsval" where
  "read_param_value args p =
     (let direct = prop_of args (op_name p) in
      if direct \<noteq> JUndef then direct else read_nested args (op_name p) (container_keys (op_location p)))"

definition json_text :: "jsval \<Rightarrow> string" where
  "json_text v = (case json_stringify v of None \<Rightarrow> ''undefined'' | Some t \<Rightarrow> t)"

text \<open>\<open>typeof v === "object" && v !== null\<close>, arrays included: \<open>is_js_object\<close>.\<close>

definition primitive_to_string :: "jsval \<Rightarrow> string" where
  "primitive_to_string v = (if is_js_object v then json_text v else js_to_string v)"

definition is_reserved_unencoded :: "char \<Rightarrow> bool" where
  "is_reserved_unencoded c \<longleftrightarrow> is_url_alnum c \<or> c \<in> set ''-._~:/?#[]@!$&()*+,;='' \<or> c = CHR 0x27"

definition encode_reserved_aware :: "string \<Rightarrow> bool \<Rightarrow> string" where
  "encode_reserved_aware raw allow =
     (if \<not> allow then encode_uri_component raw
      else concat (map (\<lambda>c. if is_reserved_unencoded c then [c] else encode_uri_component [c]) raw))"

definition is_record_value :: "jsval \<Rightarrow> bool" where
  "is_record_value v \<longleftrightarrow> (case v of JArr _ \<Rightarrow> False | _ \<Rightarrow> is_js_object v)"

definition present_entries :: "jsval \<Rightarrow> (string \<times> jsval) list" where
  "present_entries v = filter (\<lambda>(_, x). \<not> nullish x) (own_entries v)"

definition style_separator :: "string \<Rightarrow> string" where
  "style_separator style = (if style = ''spaceDelimited'' then '' '' else if style = ''pipeDelimited'' then ''|'' else '','')"

definition or_else :: "'a option \<Rightarrow> 'a \<Rightarrow> 'a" where
  "or_else x d = (case x of None \<Rightarrow> d | Some v \<Rightarrow> v)"

definition query_param_entries :: "jsval \<Rightarrow> operation_parameter \<Rightarrow> (string \<times> string) list" where
  "query_param_entries v p =
     (let style = or_else (op_style p) ''form''; explode = or_else (op_explode p) True; name = op_name p in
      if nullish v then []
      else if is_record_value v then
        (let entries = present_entries v in
         if style = ''form'' then
           (if explode then map (\<lambda>(n, x). (n, primitive_to_string x)) entries
            else [(name, js_join '','' (concat (map (\<lambda>(n, x). [n, primitive_to_string x]) entries)))])
         else if style = ''deepObject'' then map (\<lambda>(n, x). (name @ ''['' @ n @ '']'', primitive_to_string x)) entries
         else [(name, primitive_to_string v)])
      else (case v of
          JArr vs \<Rightarrow>
            if explode then map (\<lambda>x. (name, primitive_to_string x)) vs
            else [(name, js_join (style_separator style) (map primitive_to_string vs))]
        | _ \<Rightarrow> [(name, primitive_to_string v)]))"

section \<open>The path\<close>

fun fill_params :: "tool_args \<Rightarrow> operation_parameter list \<Rightarrow> string \<Rightarrow> invocation_error + string" where
  "fill_params args [] resolved = Inr resolved"
| "fill_params args (p # ps) resolved =
     (if op_location p \<noteq> InPath then fill_params args ps resolved
      else let v = read_param_value args p in
        if nullish v then
          (if op_required p then Inl (invalid_request (''Missing required path parameter: '' @ op_name p))
           else fill_params args ps resolved)
        else let encoded = encode_reserved_aware (js_to_string v) (or_else (op_allow_reserved p) False) in
          fill_params args ps
            (replace_placeholder (CHR ''+'' # op_name p) encoded (replace_placeholder (op_name p) encoded resolved)))"

definition fill_remaining :: "tool_args \<Rightarrow> string list \<Rightarrow> string \<Rightarrow> string" where
  "fill_remaining args names resolved =
     fold (\<lambda>name acc. let v = prop_of args name in
       if nullish v then acc else replace_placeholder name (encode_uri_component (js_to_string v)) acc) names resolved"

definition resolve_path :: "string \<Rightarrow> tool_args \<Rightarrow> operation_parameter list \<Rightarrow> invocation_error + string" where
  "resolve_path template args params =
     err_bind (fill_params args params template) (\<lambda>filled.
       let resolved = fill_remaining args (placeholders filled) filled;
           unresolved = placeholders resolved in
       if unresolved \<noteq> []
       then Inl (invalid_request (''Unresolved path parameters: '' @ js_join '', '' (dedupe unresolved)))
       else Inr resolved)"


section \<open>Media types\<close>

definition normalize_content_type :: "string option \<Rightarrow> string" where
  "normalize_content_type ct =
     (case ct of None \<Rightarrow> [] | Some s \<Rightarrow> js_lower (js_trim (hd (js_split (CHR '';'') s))))"

definition NDJSON_MEDIA_TYPES :: "string list" where
  "NDJSON_MEDIA_TYPES = [''application/stream+json'', ''application/x-ndjson'', ''application/jsonl'']"

definition is_ndjson_media_type :: "string option \<Rightarrow> bool" where
  "is_ndjson_media_type ct \<longleftrightarrow> normalize_content_type ct \<in> set NDJSON_MEDIA_TYPES"

definition is_json_content_type :: "string option \<Rightarrow> bool" where
  "is_json_content_type ct \<longleftrightarrow>
     (let n = normalize_content_type ct in
      n \<noteq> [] \<and> (n = ''application/json'' \<or> js_includes n ''+json'' \<or> js_includes n ''json''))"

definition is_form_url_encoded :: "string option \<Rightarrow> bool" where
  "is_form_url_encoded ct \<longleftrightarrow> normalize_content_type ct = ''application/x-www-form-urlencoded''"

definition is_multipart_form_data :: "string option \<Rightarrow> bool" where
  "is_multipart_form_data ct \<longleftrightarrow> js_starts_with (normalize_content_type ct) ''multipart/form-data''"

definition is_xml_content_type :: "string option \<Rightarrow> bool" where
  "is_xml_content_type ct \<longleftrightarrow>
     (let n = normalize_content_type ct in
      n \<noteq> [] \<and> (n = ''application/xml'' \<or> n = ''text/xml'' \<or> js_ends_with n ''+xml''))"

definition is_text_content_type :: "string option \<Rightarrow> bool" where
  "is_text_content_type ct \<longleftrightarrow> js_starts_with (normalize_content_type ct) ''text/''"

definition is_octet_stream :: "string option \<Rightarrow> bool" where
  "is_octet_stream ct \<longleftrightarrow> normalize_content_type ct = ''application/octet-stream''"

section \<open>Bytes\<close>

definition compact_base64 :: "string \<Rightarrow> string" where
  "compact_base64 s = filter (\<lambda>c. \<not> is_js_space c) s"

definition normalize_base64 :: "string \<Rightarrow> base64_dialect \<Rightarrow> string" where
  "normalize_base64 s dialect =
     (let compact = compact_base64 s;
          alphabet = (if dialect = Base64Url
            then map (\<lambda>c. if c = CHR ''-'' then CHR ''+'' else if c = CHR ''_'' then CHR ''/'' else c) compact
            else compact);
          remainder = length alphabet mod 4 in
      if remainder = 0 then alphabet else alphabet @ replicate (4 - remainder) (CHR ''=''))"

definition base64_to_bytes :: "string \<Rightarrow> string option" where
  "base64_to_bytes s = atob (normalize_base64 s Base64)"

text \<open>A request body: a JSON value, or the bytes a base64 argument held.\<close>

datatype body_value = Value jsval | Bytes string

text \<open>The bytes of a typed array, an item of each number modulo 256.\<close>

fun byte_of_number :: "jsval \<Rightarrow> char option" where
  "byte_of_number (JNum n) = Some (char_of (nat (n mod 256)))"
| "byte_of_number _ = None"

fun all_somes :: "'a option list \<Rightarrow> 'a list option" where
  "all_somes [] = Some []"
| "all_somes (x # xs) = (case (x, all_somes xs) of (Some y, Some ys) \<Rightarrow> Some (y # ys) | _ \<Rightarrow> None)"

fun to_bytes :: "body_value \<Rightarrow> string option" where
  "to_bytes (Bytes b) = Some b"
| "to_bytes (Value (JArr vs)) = all_somes (map byte_of_number vs)"
| "to_bytes (Value _) = None"

text \<open>A typed array where a JavaScript object is expected: its items by index.\<close>

fun body_object :: "body_value \<Rightarrow> jsval" where
  "body_object (Value v) = v"
| "body_object (Bytes b) = JObj (own_entries (JArr (map (\<lambda>c. JNum (int (of_char c))) b)))"

section \<open>Form bodies\<close>

record style_explode =
  se_style :: string
  se_explode :: bool
  se_allow_reserved :: bool

definition resolve_style_explode :: "encoding_object option \<Rightarrow> style_explode" where
  "resolve_style_explode e =
     (case e of
        None \<Rightarrow> \<lparr>se_style = ''form'', se_explode = True, se_allow_reserved = False\<rparr>
      | Some e \<Rightarrow> \<lparr>se_style = or_else (en_style e) ''form'', se_explode = or_else (en_explode e) True,
                  se_allow_reserved = or_else (en_allow_reserved e) False\<rparr>)"

definition encoding_for :: "(string \<times> encoding_object) list option \<Rightarrow> string \<Rightarrow> encoding_object option" where
  "encoding_for encoding key = (case encoding of None \<Rightarrow> None | Some es \<Rightarrow> map_of es key)"

definition encode_form_value :: "jsval \<Rightarrow> bool \<Rightarrow> string" where
  "encode_form_value v allow = encode_reserved_aware (primitive_to_string v) allow"

definition form_field :: "string \<Rightarrow> string \<Rightarrow> string" where
  "form_field key v = key @ ''='' @ v"

text \<open>\<open>typeof v === "object" ? JSON.stringify (v) : String (v)\<close>; \<open>null\<close> prints alike both ways.\<close>

definition form_fields :: "string \<Rightarrow> jsval \<Rightarrow> style_explode \<Rightarrow> string list" where
  "form_fields key raw s =
     (let allow = se_allow_reserved s; enc_key = encode_uri_component key in
      if nullish raw then []
      else (case raw of
          JArr vs \<Rightarrow>
            if se_explode s then map (\<lambda>v. form_field enc_key (encode_form_value v allow)) vs
            else [form_field enc_key
                    (encode_reserved_aware (js_join (style_separator (se_style s)) (map primitive_to_string vs)) allow)]
        | _ \<Rightarrow>
            if is_js_object raw then
              (let entries = present_entries raw in
               if se_style s = ''deepObject'' then
                 map (\<lambda>(k, v). form_field (encode_uri_component (key @ ''['' @ k @ '']'')) (encode_form_value v allow)) entries
               else if se_explode s then map (\<lambda>(k, v). form_field (encode_uri_component k) (encode_form_value v allow)) entries
               else [form_field enc_key
                       (encode_reserved_aware (js_join '','' (concat (map (\<lambda>(k, v). [k, primitive_to_string v]) entries))) allow)])
            else [form_field enc_key (encode_form_value raw allow)]))"

definition serialize_form_url_encoded :: "(string \<times> jsval) list \<Rightarrow> (string \<times> encoding_object) list option \<Rightarrow> string" where
  "serialize_form_url_encoded entries encoding =
     js_join ''&'' (concat (map (\<lambda>(k, v). form_fields k v (resolve_style_explode (encoding_for encoding k))) entries))"

text \<open>A part of a multipart body: a blob with its type, a value, or a list of values.\<close>

datatype form_part = BlobPart string string | ValuePart jsval | ListPart "jsval list"

fun is_scalar :: "jsval \<Rightarrow> bool" where
  "is_scalar (JStr _) \<longleftrightarrow> True"
| "is_scalar (JNum _) \<longleftrightarrow> True"
| "is_scalar (JBool _) \<longleftrightarrow> True"
| "is_scalar _ \<longleftrightarrow> False"

definition json_item :: "jsval \<Rightarrow> jsval" where
  "json_item v = (if is_scalar v then v else case json_stringify v of None \<Rightarrow> JUndef | Some t \<Rightarrow> JStr t)"

definition form_part_of :: "jsval \<Rightarrow> string option \<Rightarrow> form_part" where
  "form_part_of raw part_type =
     (case part_type of
        Some t \<Rightarrow>
          if t \<noteq> [] then
            (let is_json = (js_starts_with t ''application/json'' \<or> js_includes t ''+json'') in
             BlobPart (case raw of JStr s \<Rightarrow> s | _ \<Rightarrow> if is_json \<or> is_js_object raw then json_text raw else js_to_string raw) t)
          else (case raw of JArr vs \<Rightarrow> ListPart (map json_item vs) | _ \<Rightarrow> ValuePart (json_item raw))
      | None \<Rightarrow> (case raw of JArr vs \<Rightarrow> ListPart (map json_item vs) | _ \<Rightarrow> ValuePart (json_item raw)))"

definition coerce_form_data_record ::
  "(string \<times> jsval) list \<Rightarrow> (string \<times> encoding_object) list option \<Rightarrow> (string \<times> form_part) list" where
  "coerce_form_data_record entries encoding =
     map (\<lambda>(k, v). (k, form_part_of v (Option.bind (encoding_for encoding k) en_content_type)))
       (filter (\<lambda>(_, v). \<not> nullish v) entries)"


section \<open>Choosing the body\<close>

definition tick :: "string \<Rightarrow> string" where
  "tick s = CHR 0x60 # s @ [CHR 0x60]"

definition decode_body_base64 :: "string \<Rightarrow> jsval option \<Rightarrow> bool \<Rightarrow> string option \<Rightarrow> invocation_error + string option" where
  "decode_body_base64 label raw accepts requested =
     (case raw of
        None \<Rightarrow> Inr None
      | Some (JStr s) \<Rightarrow>
          (case base64_to_bytes s of
             None \<Rightarrow> Inl (invalid_request (tick label @ '' is not valid base64''))
           | Some b \<Rightarrow>
               if \<not> accepts then Inl (invalid_request (tick label @ '' requires an application/octet-stream request body''))
               else if requested \<noteq> None \<and> \<not> is_octet_stream requested
               then Inl (invalid_request (tick label @ '' requires an application/octet-stream contentType''))
               else Inr (Some b))
      | Some _ \<Rightarrow> Inl (invalid_request (tick label @ '' must be a base64 string'')))"

definition nested_body_base64 :: "jsval \<Rightarrow> jsval option" where
  "nested_body_base64 v = (case obj_get v ''bodyBase64'' of JUndef \<Rightarrow> None | w \<Rightarrow> Some w)"

definition requested_content_type :: "tool_args \<Rightarrow> string option" where
  "requested_content_type args = (case prop_of args ''contentType'' of JStr s \<Rightarrow> (if s = [] then None else Some s) | _ \<Rightarrow> None)"

definition octet_stream_content :: "operation_request_body \<Rightarrow> media_binding option" where
  "octet_stream_content rb = List.find (\<lambda>c. is_octet_stream (Some (mb_content_type c))) (or_else (rb_contents rb) [])"

definition body_accepts_octet_stream :: "operation_request_body \<Rightarrow> bool" where
  "body_accepts_octet_stream rb \<longleftrightarrow> octet_stream_content rb \<noteq> None \<or> is_octet_stream (Some (rb_content_type rb))"

text \<open>The declared media type that is sent, with its encoding.\<close>

definition choose_media ::
  "operation_request_body \<Rightarrow> string option \<Rightarrow> bool \<Rightarrow> string \<times> (string \<times> encoding_object) list option" where
  "choose_media rb requested binary =
     (let selected =
            (if binary \<and> octet_stream_content rb \<noteq> None then octet_stream_content rb
             else case (rb_contents rb, requested) of
                 (Some cs, Some ct) \<Rightarrow> List.find (\<lambda>c. mb_content_type c = ct) cs
               | _ \<Rightarrow> None);
          content_type =
            (if binary \<and> octet_stream_content rb = None \<and> is_octet_stream (Some (rb_content_type rb))
             then rb_content_type rb
             else case selected of Some m \<Rightarrow> mb_content_type m | None \<Rightarrow> rb_content_type rb);
          encoding =
            (case selected of
               Some m \<Rightarrow> mb_encoding m
             | None \<Rightarrow> (case rb_contents rb of Some (c # _) \<Rightarrow> mb_encoding c | _ \<Rightarrow> None))
      in (content_type, encoding))"

record chosen_body =
  cb_value :: body_value
  cb_content_type :: string
  cb_encoding :: "(string \<times> encoding_object) list option"

text \<open>A body that is not a string must be bytes where it is sent as an octet stream.\<close>

fun sendable_as_octets :: "body_value \<Rightarrow> bool" where
  "sendable_as_octets (Value (JStr _)) \<longleftrightarrow> True"
| "sendable_as_octets b \<longleftrightarrow> to_bytes b \<noteq> None"

definition media_body :: "operation_request_body \<Rightarrow> string option \<Rightarrow> bool \<Rightarrow> body_value \<Rightarrow> invocation_error + chosen_body option" where
  "media_body rb requested binary body =
     (case choose_media rb requested binary of (ct, encoding) \<Rightarrow>
        if is_octet_stream (Some ct) \<and> \<not> sendable_as_octets body
        then Inl (invalid_request (''application/octet-stream request body must be bytes; provide '' @ tick ''bodyBase64''))
        else Inr (Some \<lparr>cb_value = body, cb_content_type = ct, cb_encoding = encoding\<rparr>))"

definition select_body :: "operation_request_body \<Rightarrow> string option \<Rightarrow> jsval \<Rightarrow> string option \<Rightarrow> invocation_error + chosen_body option" where
  "select_body rb requested raw_body binary =
     (case binary of
        Some b \<Rightarrow> media_body rb requested True (Bytes b)
      | None \<Rightarrow>
          if raw_body \<noteq> JUndef then media_body rb requested False (Value raw_body)
          else if rb_required rb
          then Inl (invalid_request
                 (if body_accepts_octet_stream rb then ''Missing required request body: provide '' @ tick ''bodyBase64''
                  else ''Missing required request body''))
          else Inr None)"

definition choose_body :: "operation_request_body \<Rightarrow> tool_args \<Rightarrow> invocation_error + chosen_body option" where
  "choose_body rb args =
     (let requested = requested_content_type args; accepts = body_accepts_octet_stream rb;
          raw_body = coalesce (prop_of args ''body'') (prop_of args ''input'') in
      err_bind (decode_body_base64 ''bodyBase64'' (map_of args ''bodyBase64'') accepts requested) (\<lambda>outer.
      err_bind (decode_body_base64 ''body.bodyBase64'' (nested_body_base64 raw_body) accepts requested) (\<lambda>nested.
        select_body rb requested raw_body (case outer of Some b \<Rightarrow> Some b | None \<Rightarrow> nested))))"

section \<open>The request\<close>

text \<open>The operations of the HTTP library: a request of a method and a URL, a header set, a query parameter
  set or appended, the kinds of body, and what a header is.\<close>

record 'r http_requests =
  rq_make :: "string \<Rightarrow> string \<Rightarrow> 'r"
  rq_set_header :: "'r \<Rightarrow> string \<Rightarrow> string \<Rightarrow> 'r"
  rq_set_url_param :: "'r \<Rightarrow> string \<Rightarrow> string \<Rightarrow> 'r"
  rq_append_url_param :: "'r \<Rightarrow> string \<Rightarrow> string \<Rightarrow> 'r"
  rq_body_text :: "'r \<Rightarrow> string \<Rightarrow> string \<Rightarrow> 'r"
  rq_body_json :: "'r \<Rightarrow> jsval \<Rightarrow> 'r"
  rq_body_url_params :: "'r \<Rightarrow> jsval \<Rightarrow> 'r"
  rq_body_form :: "'r \<Rightarrow> (string \<times> form_part) list \<Rightarrow> 'r"
  rq_body_bytes :: "'r \<Rightarrow> string \<Rightarrow> string \<Rightarrow> 'r"
  rq_header :: "'r \<Rightarrow> string \<Rightarrow> string option"

definition bytes_or_json :: "('r, 'm) http_requests_scheme \<Rightarrow> 'r \<Rightarrow> string \<Rightarrow> body_value \<Rightarrow> 'r" where
  "bytes_or_json rq r ct body =
     (case to_bytes body of
        Some b \<Rightarrow> rq_body_bytes rq r b ct
      | None \<Rightarrow> rq_body_text rq r (json_text (body_object body)) ct)"

definition apply_request_body ::
  "('r, 'm) http_requests_scheme \<Rightarrow> 'r \<Rightarrow> string \<Rightarrow> body_value \<Rightarrow> (string \<times> encoding_object) list option \<Rightarrow> 'r" where
  "apply_request_body rq r ct body encoding =
     (let v = body_object body in
      if is_json_content_type (Some ct) then
        (case body of Value (JStr s) \<Rightarrow> rq_body_text rq r s ct | _ \<Rightarrow> rq_body_json rq r v)
      else if is_form_url_encoded (Some ct) then
        (case body of
           Value (JStr s) \<Rightarrow> rq_body_text rq r s ct
         | _ \<Rightarrow> if is_record_value v then rq_body_text rq r (serialize_form_url_encoded (own_entries v) encoding) ct
                else rq_body_url_params rq r v)
      else if is_multipart_form_data (Some ct) then
        (if is_js_object v then rq_body_form rq r (coerce_form_data_record (own_entries v) encoding)
         else rq_body_text rq r (js_to_string v) ct)
      else if is_octet_stream (Some ct) then
        (case to_bytes body of
           Some b \<Rightarrow> rq_body_bytes rq r b ct
         | None \<Rightarrow> (case body of Value (JStr s) \<Rightarrow> rq_body_text rq r s ct | _ \<Rightarrow> rq_body_text rq r (json_text v) ct))
      else (case body of Value (JStr s) \<Rightarrow> rq_body_text rq r s ct | _ \<Rightarrow> bytes_or_json rq r ct body))"

definition accepted_argument_names :: "operation_binding \<Rightarrow> string list" where
  "accepted_argument_names ob =
     dedupe
       (concat (map (\<lambda>p. op_name p # container_keys (op_location p)) (ob_parameters ob))
        @ placeholders (ob_path_template ob)
        @ (case ob_request_body ob of
             None \<Rightarrow> []
           | Some rb \<Rightarrow>
               [''body'', ''input'']
               @ (if is_octet_stream (Some (rb_content_type rb)) \<or> octet_stream_content rb \<noteq> None then [''bodyBase64''] else [])
               @ (if 1 < length (or_else (rb_contents rb) []) then [''contentType''] else []))
        @ (let servers = or_else (ob_servers ob) [] in
           if 1 < length servers \<or> list_ex (\<lambda>s. or_else (si_variables s) [] \<noteq> []) servers then [''server''] else []))"

definition unknown_arguments :: "string list \<Rightarrow> string list \<Rightarrow> invocation_error" where
  "unknown_arguments unknown accepted =
     \<lparr>ie_message =
        (if length unknown = 1 then ''Unknown argument'' else ''Unknown arguments'') @ '' ''
        @ js_join '', '' (map json_quote unknown) @ ''. ''
        @ (if accepted \<noteq> [] then ''This operation accepts: '' @ js_join '', '' accepted @ ''.''
           else ''This operation accepts no arguments.''),
      ie_status = None, ie_reason = Some ''unknown_arguments'', ie_cause = JUndef\<rparr>"

definition DEFAULT_USER_AGENT :: string where
  "DEFAULT_USER_AGENT = ''executor''"

definition apply_headers :: "('r, 'm) http_requests_scheme \<Rightarrow> (string \<times> string) list \<Rightarrow> 'r \<Rightarrow> 'r" where
  "apply_headers rq headers r = fold (\<lambda>(n, v) acc. rq_set_header rq acc n v) headers r"

definition params_at :: "param_location \<Rightarrow> operation_binding \<Rightarrow> operation_parameter list" where
  "params_at l ob = filter (\<lambda>p. op_location p = l) (ob_parameters ob)"

definition query_arguments :: "operation_binding \<Rightarrow> tool_args \<Rightarrow> (string \<times> string) list" where
  "query_arguments ob args = concat (map (\<lambda>p. query_param_entries (read_param_value args p) p) (params_at InQuery ob))"

definition header_arguments :: "operation_binding \<Rightarrow> tool_args \<Rightarrow> (string \<times> string) list" where
  "header_arguments ob args =
     map (\<lambda>p. (op_name p, js_to_string (read_param_value args p)))
       (filter (\<lambda>p. \<not> nullish (read_param_value args p)) (params_at InHeader ob))"

definition cookie_arguments :: "operation_binding \<Rightarrow> tool_args \<Rightarrow> string list" where
  "cookie_arguments ob args =
     map (\<lambda>p. op_name p @ ''='' @ primitive_to_string (read_param_value args p))
       (filter (\<lambda>p. \<not> nullish (read_param_value args p)) (params_at InCookie ob))"

definition apply_cookies :: "('r, 'm) http_requests_scheme \<Rightarrow> string list \<Rightarrow> 'r \<Rightarrow> 'r" where
  "apply_cookies rq cookies r =
     (if cookies = [] then r
      else let mine = js_join ''; '' cookies in
        rq_set_header rq r ''Cookie''
          (case rq_header rq r ''cookie'' of
             Some existing \<Rightarrow> (if existing = [] then mine else existing @ ''; '' @ mine)
           | None \<Rightarrow> mine))"

definition js_upper :: "string \<Rightarrow> string" where
  "js_upper s = map to_upper s"

definition start_request ::
  "('r, 'm) http_requests_scheme \<Rightarrow> operation_binding \<Rightarrow> tool_args \<Rightarrow> (string \<times> string) list \<Rightarrow> string \<Rightarrow> 'r" where
  "start_request rq ob args query path =
     apply_headers rq (header_arguments ob args)
       (fold (\<lambda>(n, v) acc. rq_append_url_param rq acc n v) (query_arguments ob args)
         (fold (\<lambda>(n, v) acc. rq_set_url_param rq acc n v) query
           (rq_set_header rq (rq_make rq (js_upper (ob_method ob)) path) ''User-Agent'' DEFAULT_USER_AGENT)))"

definition build_request ::
  "('r, 'm) http_requests_scheme \<Rightarrow> operation_binding \<Rightarrow> tool_args \<Rightarrow> (string \<times> string) list \<Rightarrow> (string \<times> string) list \<Rightarrow>
   invocation_error + 'r" where
  "build_request rq ob args headers query =
     (let accepted = accepted_argument_names ob; unknown = filter (\<lambda>n. n \<notin> set accepted) (map fst args) in
      if unknown \<noteq> [] then Inl (unknown_arguments unknown accepted)
      else err_bind (resolve_path (ob_path_template ob) args (ob_parameters ob)) (\<lambda>resolved.
        let path = (if js_starts_with resolved ''/'' then resolved else ''/'' @ resolved);
            r = start_request rq ob args query path in
        err_bind (case ob_request_body ob of None \<Rightarrow> Inr None | Some rb \<Rightarrow> choose_body rb args) (\<lambda>chosen.
          let r = (case chosen of None \<Rightarrow> r
                   | Some b \<Rightarrow> apply_request_body rq r (cb_content_type b) (cb_value b) (cb_encoding b)) in
          Inr (apply_cookies rq (cookie_arguments ob args) (apply_headers rq headers r)))))"

section \<open>The host\<close>

definition substitute_url_variables :: "string \<Rightarrow> (string \<times> string) list \<Rightarrow> string" where
  "substitute_url_variables url vals = fold (\<lambda>(n, v) out. replace_placeholder n v out) vals url"

definition resolve_server_url :: "string \<Rightarrow> (string \<times> server_variable) list option \<Rightarrow> (string \<times> string) list \<Rightarrow> string" where
  "resolve_server_url template variables overrides =
     (let defaults = map (\<lambda>(n, v). (n, sv_default v)) (or_else variables []);
          vals = fold (\<lambda>(n, v) acc. if v = [] then acc else AList.update n v acc) overrides defaults in
      substitute_url_variables template vals)"

definition server_overrides :: "jsval \<Rightarrow> (string \<times> string) list" where
  "server_overrides vars =
     (if is_js_object vars
      then map (\<lambda>(n, v). (n, js_to_string v)) (filter (\<lambda>(_, v). \<not> nullish v \<and> v \<noteq> JStr []) (own_entries vars))
      else [])"

definition resolve_request_host :: "server_info list \<Rightarrow> jsval \<Rightarrow> string \<Rightarrow> string" where
  "resolve_request_host servers arg base =
     (if base \<noteq> [] then base
      else case servers of
        [] \<Rightarrow> []
      | first # _ \<Rightarrow>
          let chosen = (case List.find (\<lambda>s. JStr (si_url s) = obj_get arg ''url'') servers of
                Some s \<Rightarrow> s | None \<Rightarrow> first) in
          resolve_server_url (si_url chosen) (si_variables chosen) (server_overrides (obj_get arg ''variables'')))"

text \<open>An upload path that already holds the base URL's path is sent to the origin.\<close>

definition base_url_for_path_template :: "url_parser \<Rightarrow> string \<Rightarrow> string \<Rightarrow> string" where
  "base_url_for_path_template up base template =
     (if base = [] \<or> \<not> js_starts_with template ''/upload/'' then base
      else case up base of
        None \<Rightarrow> base
      | Some u \<Rightarrow>
          let path = strip_trailing (CHR ''/'') (ur_pathname u) in
          if path \<noteq> [] \<and> path \<noteq> ''/'' \<and> js_starts_with template (''/upload'' @ path @ ''/'')
          then url_href (u\<lparr>ur_pathname := ''/'', ur_query := None, ur_fragment := None\<rparr>)
          else base)"

definition REQUIRE_APPROVAL :: "string list" where
  "REQUIRE_APPROVAL = [''post'', ''put'', ''patch'', ''delete'']"

definition annotations_for_operation :: "string \<Rightarrow> string \<Rightarrow> jsval" where
  "annotations_for_operation m template =
     (if js_lower m \<notin> set REQUIRE_APPROVAL then JObj []
      else JObj [(''requiresApproval'', JBool True), (''approvalDescription'', JStr (js_upper m @ '' '' @ template))])"

section \<open>The path, in one pass\<close>

text \<open>What fills a hole of the template: the first path parameter of its name that has a value, or else the
  argument of its name.\<close>

fun param_value :: "tool_args \<Rightarrow> operation_parameter list \<Rightarrow> string \<Rightarrow> string option" where
  "param_value args [] n = None"
| "param_value args (p # ps) n =
     (if op_location p = InPath \<and> \<not> nullish (read_param_value args p) \<and> (n = op_name p \<or> n = CHR ''+'' # op_name p)
      then Some (encode_reserved_aware (js_to_string (read_param_value args p)) (or_else (op_allow_reserved p) False))
      else param_value args ps n)"

definition arg_value :: "tool_args \<Rightarrow> string \<Rightarrow> string option" where
  "arg_value args n =
     (if nullish (prop_of args n) then None else Some (encode_uri_component (js_to_string (prop_of args n))))"

definition path_value :: "tool_args \<Rightarrow> operation_parameter list \<Rightarrow> string \<Rightarrow> string option" where
  "path_value args params n = (case param_value args params n of Some t \<Rightarrow> Some t | None \<Rightarrow> arg_value args n)"

fun fill_with :: "(string \<Rightarrow> string option) \<Rightarrow> piece \<Rightarrow> piece" where
  "fill_with f (Fixed w) = Fixed w"
| "fill_with f (Hole n) = (case f n of Some t \<Rightarrow> Fixed t | None \<Rightarrow> Hole n)"

definition missing_param :: "tool_args \<Rightarrow> operation_parameter list \<Rightarrow> operation_parameter option" where
  "missing_param args params =
     List.find (\<lambda>p. op_location p = InPath \<and> op_required p \<and> nullish (read_param_value args p)) params"

text \<open>Parameter names without braces, and no replacement pattern in a value whose reserved characters stay.\<close>

definition plain_params :: "tool_args \<Rightarrow> operation_parameter list \<Rightarrow> bool" where
  "plain_params args params \<longleftrightarrow>
     (\<forall>p \<in> set params. op_location p = InPath \<longrightarrow>
        brace_free (op_name p) \<and>
        (op_allow_reserved p = Some True \<longrightarrow> CHR ''$'' \<notin> set (js_to_string (read_param_value args p))))"

lemma reserved_no_braces: "\<not> is_reserved_unencoded (CHR ''{'')" "\<not> is_reserved_unencoded (CHR ''}'')"
  by code_simp+

lemma encoded_brace_free: "brace_free (encode_reserved_aware raw allow)"
proof -
  have "c \<notin> set (encode_uri_component raw)" if "c \<in> {CHR ''{'', CHR ''}''}" for c raw
    using encoded_no_separator [of c raw] that by auto
  then show ?thesis using reserved_no_braces by (auto simp: brace_free_def encode_reserved_aware_def split: if_splits)
qed

lemma encoded_component_brace_free: "brace_free (encode_uri_component raw)"
  using encoded_brace_free [of raw False] by (simp add: encode_reserved_aware_def)

lemma encoded_no_dollar: "(allow \<longrightarrow> CHR ''$'' \<notin> set raw) \<Longrightarrow> CHR ''$'' \<notin> set (encode_reserved_aware raw allow)"
  using encoded_no_separator [of "CHR ''$''"] by (auto simp: encode_reserved_aware_def split: if_splits)

lemma fill_piece_with: "fill_piece name rep = fill_with (\<lambda>n. if n = name then Some rep else None)"
proof
  show "fill_piece name rep q = fill_with (\<lambda>n. if n = name then Some rep else None) q" for q by (cases q) auto
qed

lemma fill_with_twice:
  "fill_with g (fill_with f q) = fill_with (\<lambda>n. case f n of Some t \<Rightarrow> Some t | None \<Rightarrow> g n) q"
  by (cases q) (auto split: option.splits)

lemma fill_with_is_piece:
  "is_piece q \<Longrightarrow> (\<And>n t. f n = Some t \<Longrightarrow> brace_free t) \<Longrightarrow> is_piece (fill_with f q)"
  by (cases q) (auto split: option.splits)

lemma fill_pieces:
  "\<forall>q \<in> set ps. is_piece q \<Longrightarrow> (\<And>n t. f n = Some t \<Longrightarrow> brace_free t) \<Longrightarrow>
     \<forall>q \<in> set (map (fill_with f) ps). is_piece q"
  by (simp add: fill_with_is_piece)

lemma replace_with:
  "brace_free name \<Longrightarrow> CHR ''$'' \<notin> set rep \<Longrightarrow> \<forall>q \<in> set ps. is_piece q \<Longrightarrow>
     replace_placeholder name rep (template_text ps) =
     template_text (map (fill_with (\<lambda>n. if n = name then Some rep else None)) ps)"
  by (simp add: replace_placeholder_pieces fill_piece_with)

lemma fill_params_template:
  assumes "plain_params args params" "\<forall>q \<in> set ps. is_piece q"
  shows "fill_params args params (template_text ps) =
    (case missing_param args params of
       Some p \<Rightarrow> Inl (invalid_request (''Missing required path parameter: '' @ op_name p))
     | None \<Rightarrow> Inr (template_text (map (fill_with (param_value args params)) ps)))"
  using assms
proof (induction params arbitrary: ps)
  case Nil
  have "fill_with (param_value args []) q = q" for q by (cases q) auto
  then have "map (fill_with (param_value args [])) ps = ps" by (simp add: map_idI)
  then show ?case by (simp add: missing_param_def)
next
  case (Cons p params)
  have rest: "plain_params args params" using Cons.prems(1) by (simp add: plain_params_def)
  show ?case
  proof (cases "op_location p = InPath \<and> \<not> nullish (read_param_value args p)")
    case False
    then have skip: "param_value args (p # params) = param_value args params" by auto
    from False show ?thesis
      using Cons.IH [OF rest Cons.prems(2)] unfolding skip by (auto simp: missing_param_def)
  next
    case True
    define enc where "enc = encode_reserved_aware (js_to_string (read_param_value args p)) (or_else (op_allow_reserved p) False)"
    have name: "brace_free (op_name p)" and plus: "brace_free (CHR ''+'' # op_name p)"
      and dollar: "CHR ''$'' \<notin> set enc"
      using Cons.prems(1) True encoded_no_dollar
      by (auto simp: plain_params_def enc_def brace_free_def or_else_def split: option.splits)
    define one where "one = (\<lambda>n. if n = op_name p then Some enc else None)"
    define two where "two = (\<lambda>n. if n = CHR ''+'' # op_name p then Some enc else None)"
    have safe: "brace_free t" if "one n = Some t \<or> two n = Some t" for n t
      using that encoded_brace_free by (auto simp: one_def two_def enc_def split: if_splits)
    have q1: "\<forall>q \<in> set (map (fill_with one) ps). is_piece q" using fill_pieces [OF Cons.prems(2), of one] safe by blast
    have q2: "\<forall>q \<in> set (map (fill_with two) (map (fill_with one) ps)). is_piece q"
      using fill_pieces [OF q1, of two] safe by blast
    have filled_text: "replace_placeholder (CHR ''+'' # op_name p) enc (replace_placeholder (op_name p) enc (template_text ps)) =
        template_text (map (fill_with two) (map (fill_with one) ps))"
      using replace_with [OF name dollar Cons.prems(2)] replace_with [OF plus dollar q1] by (simp only: one_def two_def)
    have "fill_with (param_value args params) (fill_with two (fill_with one q)) = fill_with (param_value args (p # params)) q" for q
    proof -
      have "(\<lambda>n. case (case one n of Some t \<Rightarrow> Some t | None \<Rightarrow> two n) of Some t \<Rightarrow> Some t | None \<Rightarrow> param_value args params n) =
          param_value args (p # params)" using True by (auto simp: one_def two_def enc_def)
      then show ?thesis by (simp only: fill_with_twice)
    qed
    then have same: "map (fill_with (param_value args params)) (map (fill_with two) (map (fill_with one) ps)) =
        map (fill_with (param_value args (p # params))) ps" by (simp only: map_map) (simp add: comp_def)
    have "fill_params args (p # params) (template_text ps) =
        fill_params args params (template_text (map (fill_with two) (map (fill_with one) ps)))"
      using True filled_text by (simp add: enc_def [symmetric])
    moreover have "missing_param args (p # params) = missing_param args params"
      using True by (simp add: missing_param_def)
    ultimately show ?thesis using Cons.IH [OF rest q2] unfolding same by (simp only:)
  qed
qed

lemma arg_value_safe: "arg_value args n = Some t \<Longrightarrow> brace_free t \<and> CHR ''$'' \<notin> set t"
  using encoded_component_brace_free encoded_no_separator [of "CHR ''$''"] by (auto simp: arg_value_def split: if_splits)

lemma fill_remaining_template:
  assumes "\<forall>n \<in> set names. brace_free n" "\<forall>q \<in> set ps. is_piece q"
  shows "fill_remaining args names (template_text ps) =
    template_text (map (fill_with (\<lambda>n. if n \<in> set names then arg_value args n else None)) ps)"
  using assms
proof (induction names arbitrary: ps)
  case Nil
  have "fill_with (\<lambda>n. if n \<in> set [] then arg_value args n else None) q = q" for q by (cases q) auto
  then show ?case by (simp add: fill_remaining_def map_idI)
next
  case (Cons m names)
  show ?case
  proof (cases "arg_value args m")
    case None
    then have "(\<lambda>n. if n \<in> set (m # names) then arg_value args n else None) = (\<lambda>n. if n \<in> set names then arg_value args n else None)"
      by auto
    with None Cons show ?thesis by (simp add: fill_remaining_def arg_value_def split: if_splits)
  next
    case (Some t)
    define one where "one = (\<lambda>n. if n = m then Some t else None)"
    have t: "\<not> nullish (prop_of args m)" "t = encode_uri_component (js_to_string (prop_of args m))"
      using Some by (auto simp: arg_value_def split: if_splits)
    have q1: "\<forall>q \<in> set (map (fill_with one) ps). is_piece q"
      using Cons.prems(2) arg_value_safe [OF Some] by (auto intro!: fill_with_is_piece simp: one_def split: if_splits)
    have filled_text: "replace_placeholder m t (template_text ps) = template_text (map (fill_with one) ps)"
      using replace_with [of m t ps] Cons.prems arg_value_safe [OF Some] by (simp only: one_def) simp
    have "(\<lambda>n. case one n of Some t \<Rightarrow> Some t | None \<Rightarrow> if n \<in> set names then arg_value args n else None) =
        (\<lambda>n. if n \<in> set (m # names) then arg_value args n else None)" using Some by (auto simp: one_def)
    then have "map (fill_with (\<lambda>n. if n \<in> set names then arg_value args n else None)) (map (fill_with one) ps) =
        map (fill_with (\<lambda>n. if n \<in> set (m # names) then arg_value args n else None)) ps"
      by (simp only: map_map comp_def fill_with_twice)
    moreover have "fill_remaining args (m # names) (template_text ps) = fill_remaining args names (template_text (map (fill_with one) ps))"
      using t filled_text by (simp add: fill_remaining_def)
    moreover have "\<forall>n \<in> set names. brace_free n" using Cons.prems(1) by simp
    ultimately show ?thesis using Cons.IH [OF _ q1] by (simp only:)
  qed
qed

lemma holes_are_names: "\<forall>q \<in> set ps. is_piece q \<Longrightarrow> n \<in> set (holes ps) \<Longrightarrow> brace_free n"
  by (induction ps rule: holes.induct) auto

lemma hole_in_holes: "Hole n \<in> set ps \<Longrightarrow> n \<in> set (holes ps)"
  by (induction ps rule: holes.induct) auto

text \<open>Filling the names that are holes is filling every hole.\<close>

lemma fill_holes: "map (fill_with (\<lambda>n. if n \<in> set (holes ps) then f n else None)) ps = map (fill_with f) ps"
proof (rule map_cong [OF refl])
  show "fill_with (\<lambda>n. if n \<in> set (holes ps) then f n else None) q = fill_with f q" if "q \<in> set ps" for q
  proof (cases q)
    case (Hole n)
    with that hole_in_holes [of n ps] show ?thesis by simp
  qed simp
qed

lemma param_value_safe: "param_value args params n = Some t \<Longrightarrow> brace_free t"
  by (induction params) (auto simp: encoded_brace_free split: if_splits)

theorem resolved_path_spec:
  assumes "plain_params args params" "\<forall>q \<in> set ps. is_piece q"
  shows "resolve_path (template_text ps) args params =
    (case missing_param args params of
       Some p \<Rightarrow> Inl (invalid_request (''Missing required path parameter: '' @ op_name p))
     | None \<Rightarrow>
         let filled = map (fill_with (path_value args params)) ps in
         if holes filled = [] then Inr (template_text filled)
         else Inl (invalid_request (''Unresolved path parameters: '' @ js_join '', '' (dedupe (holes filled)))))"
proof (cases "missing_param args params")
  case (Some p)
  then show ?thesis using fill_params_template [OF assms] by (simp add: resolve_path_def)
next
  case None
  let ?one = "map (fill_with (param_value args params)) ps"
  let ?two = "map (fill_with (path_value args params)) ps"
  have q1: "\<forall>q \<in> set ?one. is_piece q" using assms(2) param_value_safe by (auto intro!: fill_with_is_piece)
  have "fill_remaining args (holes ?one) (template_text ?one) = template_text (map (fill_with (arg_value args)) ?one)"
  proof -
    have "\<forall>n \<in> set (holes ?one). brace_free n" using holes_are_names [OF q1] by blast
    from fill_remaining_template [OF this q1] show ?thesis by (simp only: fill_holes)
  qed
  also have "map (fill_with (arg_value args)) ?one = ?two"
    by (simp only: map_map comp_def fill_with_twice path_value_def [abs_def])
  finally have filled_text: "fill_remaining args (holes ?one) (template_text ?one) = template_text ?two" .
  have q2: "\<forall>q \<in> set ?two. is_piece q"
    using assms(2) param_value_safe arg_value_safe
    by (auto intro!: fill_with_is_piece simp: path_value_def split: option.splits)
  show ?thesis
    using None fill_params_template [OF assms]
    by (simp add: resolve_path_def placeholders_template [OF q1] placeholders_template [OF q2] filled_text Let_def)
qed


text \<open>So the separators of the resolved path are the template's own, in their order: no argument adds a
  segment, a query or a fragment.\<close>

definition is_path_separator :: "char \<Rightarrow> bool" where
  "is_path_separator c \<longleftrightarrow> c \<in> set ''/?#''"

fun fixed_text :: "piece \<Rightarrow> string" where
  "fixed_text (Fixed w) = w"
| "fixed_text (Hole _) = []"

lemma path_value_no_separator:
  assumes "\<forall>p \<in> set params. op_location p = InPath \<longrightarrow> op_allow_reserved p \<noteq> Some True" "path_value args params n = Some t"
  shows "filter is_path_separator t = []"
proof -
  have enc: "filter is_path_separator (encode_uri_component w) = []" for w
    using encoded_no_separator [of _ w] by (auto simp: filter_empty_conv is_path_separator_def)
  have "filter is_path_separator t = []" if "param_value args params n = Some t"
    using that assms(1)
  proof (induction params)
    case (Cons p params)
    then have "op_location p = InPath \<Longrightarrow> \<not> or_else (op_allow_reserved p) False" by (cases "op_allow_reserved p") (auto simp: or_else_def)
    with Cons show ?case using enc by (auto simp: encode_reserved_aware_def split: if_splits)
  qed simp
  then show ?thesis using assms(2) enc by (auto simp: path_value_def arg_value_def split: option.splits if_splits)
qed

lemma filled_separators:
  "(\<And>n t. f n = Some t \<Longrightarrow> filter P t = []) \<Longrightarrow> holes (map (fill_with f) ps) = [] \<Longrightarrow>
     filter P (template_text (map (fill_with f) ps)) = filter P (concat (map fixed_text ps))"
proof (induction ps)
  case (Cons q ps)
  then show ?case by (cases q) (auto simp: template_text_def split: option.splits)
qed (simp add: template_text_def)

theorem path_separators_from_template:
  assumes "plain_params args params" "\<forall>q \<in> set ps. is_piece q"
    and "\<forall>p \<in> set params. op_location p = InPath \<longrightarrow> op_allow_reserved p \<noteq> Some True"
    and "resolve_path (template_text ps) args params = Inr s"
  shows "filter is_path_separator s = filter is_path_separator (concat (map fixed_text ps))"
proof -
  have "s = template_text (map (fill_with (path_value args params)) ps)" "holes (map (fill_with (path_value args params)) ps) = []"
    using assms(4) unfolding resolved_path_spec [OF assms(1,2)] by (auto simp: Let_def split: option.splits if_splits)
  then show ?thesis using filled_separators [OF path_value_no_separator [OF assms(3)]] by simp
qed

section \<open>What a request carries\<close>

text \<open>What the HTTP library documents of headers: names are compared in lower case.\<close>

definition lawful_requests :: "('r, 'm) http_requests_scheme \<Rightarrow> bool" where
  "lawful_requests rq \<longleftrightarrow>
     (\<forall>r n v m. rq_header rq (rq_set_header rq r n v) m = (if js_lower n = m then Some v else rq_header rq r m))"

lemma set_header:
  "lawful_requests rq \<Longrightarrow> rq_header rq (rq_set_header rq r n v) m = (if js_lower n = m then Some v else rq_header rq r m)"
  by (simp add: lawful_requests_def)

lemma apply_headers_other:
  "lawful_requests rq \<Longrightarrow> m \<notin> (\<lambda>h. js_lower (fst h)) ` set hs \<Longrightarrow>
     rq_header rq (apply_headers rq hs r) m = rq_header rq r m"
  by (induction hs arbitrary: r) (auto simp: apply_headers_def set_header)

lemma apply_headers_in:
  "lawful_requests rq \<Longrightarrow> distinct (map (\<lambda>h. js_lower (fst h)) hs) \<Longrightarrow> (n, v) \<in> set hs \<Longrightarrow>
     rq_header rq (apply_headers rq hs r) (js_lower n) = Some v"
proof (induction hs arbitrary: r)
  case (Cons h hs)
  have step: "apply_headers rq (h # hs) r = apply_headers rq hs (rq_set_header rq r (fst h) (snd h))"
    by (simp add: apply_headers_def split: prod.split)
  show ?case
  proof (cases "h = (n, v)")
    case True
    with Cons.prems show ?thesis unfolding step by (simp add: apply_headers_other set_header)
  next
    case False
    with Cons show ?thesis unfolding step by (intro Cons.IH) auto
  qed
qed simp

lemma lower_cookie: "js_lower ''Cookie'' = ''cookie''"
  by code_simp

theorem credentials_win:
  assumes "lawful_requests rq" "distinct (map (\<lambda>h. js_lower (fst h)) headers)" "(n, v) \<in> set headers"
    and "build_request rq ob args headers query = Inr r"
  shows "rq_header rq r (js_lower n) =
    Some (if js_lower n \<noteq> ''cookie'' \<or> cookie_arguments ob args = [] then v
          else js_join ''; '' (if v = [] then cookie_arguments ob args else v # cookie_arguments ob args))"
proof -
  obtain r0 where r: "r = apply_cookies rq (cookie_arguments ob args) (apply_headers rq headers r0)"
    using assms(4) by (auto simp: build_request_def Let_def err_bind_Inr split: if_splits)
  have h: "rq_header rq (apply_headers rq headers r0) (js_lower n) = Some v"
    by (rule apply_headers_in [OF assms(1-3)])
  show ?thesis
  proof (cases "cookie_arguments ob args")
    case Nil
    then show ?thesis using h by (simp add: r apply_cookies_def)
  next
    case (Cons c cs)
    then show ?thesis
      using h by (simp add: r apply_cookies_def set_header [OF assms(1)] lower_cookie Let_def js_join_Cons)
  qed
qed

text \<open>An argument the operation does not take is refused by name, and nothing else is.\<close>

lemma other_reasons:
  "fill_params args ps t = Inl e \<Longrightarrow> ie_reason e = None"
  "resolve_path t args ps = Inl e \<Longrightarrow> ie_reason e = None"
  "choose_body rb args = Inl e \<Longrightarrow> ie_reason e = None"
proof -
  show fill: "fill_params args ps t = Inl e \<Longrightarrow> ie_reason e = None" for t
    by (induction args ps t rule: fill_params.induct) (auto simp: Let_def invalid_request_def split: if_splits)
  show "resolve_path t args ps = Inl e \<Longrightarrow> ie_reason e = None"
    by (auto simp: resolve_path_def err_bind_Inl Let_def invalid_request_def split: if_splits dest: fill)
  have "decode_body_base64 l raw a q = Inl e \<Longrightarrow> ie_reason e = None" for l raw a q
    by (auto simp: decode_body_base64_def invalid_request_def split: option.splits jsval.splits if_splits)
  moreover have "select_body rb q v b = Inl e \<Longrightarrow> ie_reason e = None" for q v b
    by (auto simp: select_body_def media_body_def invalid_request_def split: option.splits if_splits prod.splits)
  ultimately show "choose_body rb args = Inl e \<Longrightarrow> ie_reason e = None"
    by (auto simp: choose_body_def err_bind_Inl Let_def)
qed

theorem unknown_arguments_refused:
  "(\<exists>e. build_request rq ob args headers query = Inl e \<and> ie_reason e = Some ''unknown_arguments'') \<longleftrightarrow>
   \<not> fst ` set args \<subseteq> set (accepted_argument_names ob)"
proof (cases "fst ` set args \<subseteq> set (accepted_argument_names ob)")
  case True
  then have none: "filter (\<lambda>n. n \<notin> set (accepted_argument_names ob)) (map fst args) = []" by (auto simp: filter_empty_conv)
  have "ie_reason e = None" if "build_request rq ob args headers query = Inl e" for e
    using that none other_reasons by (auto simp: build_request_def Let_def err_bind_Inl split: option.splits)
  then show ?thesis using True by auto
next
  case False
  then have "filter (\<lambda>n. n \<notin> set (accepted_argument_names ob)) (map fst args) \<noteq> []" by (auto simp: filter_empty_conv)
  then have "build_request rq ob args headers query =
      Inl (unknown_arguments (filter (\<lambda>n. n \<notin> set (accepted_argument_names ob)) (map fst args)) (accepted_argument_names ob))"
    by (simp only: build_request_def Let_def if_True not_False_eq_True)
  then show ?thesis using False by (simp add: unknown_arguments_def)
qed

text \<open>The body is sent as a media type the operation declares, and bytes only as an octet stream.\<close>

definition declared_media :: "operation_request_body \<Rightarrow> string set" where
  "declared_media rb = insert (rb_content_type rb) (mb_content_type ` set (or_else (rb_contents rb) []))"

lemma find_SomeD: "List.find P xs = Some x \<Longrightarrow> x \<in> set xs \<and> P x"
  by (auto simp: find_Some_iff)

lemma choose_media_declared: "fst (choose_media rb requested binary) \<in> declared_media rb"
  unfolding choose_media_def declared_media_def octet_stream_content_def or_else_def
  by (auto simp: Let_def dest!: find_SomeD split: option.splits list.splits)

lemma choose_media_binary:
  "body_accepts_octet_stream rb \<Longrightarrow> is_octet_stream (Some (fst (choose_media rb requested True)))"
proof (cases "octet_stream_content rb")
  case None
  then show "body_accepts_octet_stream rb \<Longrightarrow> ?thesis" by (simp add: choose_media_def body_accepts_octet_stream_def)
next
  case (Some m)
  then have "is_octet_stream (Some (mb_content_type m))" unfolding octet_stream_content_def by (auto dest: find_SomeD)
  with Some show ?thesis by (simp add: choose_media_def)
qed

lemma decoded_base64_accepted: "decode_body_base64 l raw a q = Inr (Some b) \<Longrightarrow> a"
  by (auto simp: decode_body_base64_def split: option.splits jsval.splits if_splits)

lemma selected_body:
  assumes "select_body rb q v binary = Inr (Some b)" "binary \<noteq> None \<longrightarrow> body_accepts_octet_stream rb"
  shows "cb_content_type b \<in> declared_media rb \<and> (cb_value b = Bytes x \<longrightarrow> is_octet_stream (Some (cb_content_type b)))"
  using assms choose_media_declared [of rb q] choose_media_binary [of rb q]
  by (auto simp: select_body_def media_body_def split: option.splits if_splits prod.splits) (metis fst_conv)+

theorem body_of_declared_type:
  assumes "choose_body rb args = Inr (Some b)"
  shows "cb_content_type b \<in> declared_media rb \<and> (cb_value b = Bytes x \<longrightarrow> is_octet_stream (Some (cb_content_type b)))"
proof -
  obtain q v outer nested l raw l' raw' where
    "decode_body_base64 l raw (body_accepts_octet_stream rb) q = Inr outer"
    "decode_body_base64 l' raw' (body_accepts_octet_stream rb) q = Inr nested"
    and sel: "select_body rb q v (case outer of Some b \<Rightarrow> Some b | None \<Rightarrow> nested) = Inr (Some b)"
    using assms by (auto simp: choose_body_def err_bind_Inr Let_def)
  then have "(case outer of Some b \<Rightarrow> Some b | None \<Rightarrow> nested) \<noteq> None \<longrightarrow> body_accepts_octet_stream rb"
    using decoded_base64_accepted by (auto split: option.splits)
  with sel show ?thesis by (rule selected_body)
qed


text \<open>What is refused does not depend on the credential: a call is validated before an approval with no headers and
  no query, by the same pass.\<close>

theorem validation_agrees:
  "build_request rq ob args headers query = Inl e \<longleftrightarrow> build_request rq ob args [] [] = Inl e"
  by (auto simp: build_request_def Let_def err_bind_Inl split: if_splits)

text \<open>A server reads the fields of a form body back, where they are texts and no encoding is declared.\<close>

definition parse_form :: "string \<Rightarrow> (string option \<times> string option) list" where
  "parse_form s =
     map (\<lambda>f. (decode_uri_component (takeWhile (\<lambda>c. c \<noteq> CHR ''='') f),
               decode_uri_component (drop 1 (dropWhile (\<lambda>c. c \<noteq> CHR ''='') f)))) (js_split (CHR ''&'') s)"

lemma until_separator:
  "x \<notin> set a \<Longrightarrow> takeWhile (\<lambda>c. c \<noteq> x) (a @ x # b) = a"
  "x \<notin> set a \<Longrightarrow> dropWhile (\<lambda>c. c \<noteq> x) (a @ x # b) = x # b"
  by (induction a) auto

theorem form_round_trip:
  assumes "kvs \<noteq> []"
  shows "parse_form (serialize_form_url_encoded (map (\<lambda>(k, v). (k, JStr v)) kvs) None) = map (\<lambda>(k, v). (Some k, Some v)) kvs"
proof -
  let ?f = "\<lambda>(k, v). form_field (encode_uri_component k) (encode_uri_component v)"
  have one: "form_fields k (JStr v) (resolve_style_explode None) = [?f (k, v)]" for k v
    by (simp add: form_fields_def resolve_style_explode_def encode_form_value_def encode_reserved_aware_def primitive_to_string_def)
  have ser: "serialize_form_url_encoded (map (\<lambda>(k, v). (k, JStr v)) kvs) None = js_join [CHR ''&''] (map ?f kvs)"
    by (simp add: serialize_form_url_encoded_def encoding_for_def one split_def comp_def)
  have amp: "CHR ''&'' \<notin> set (encode_uri_component w)" and eq: "CHR ''='' \<notin> set (encode_uri_component w)" for w
    by (rule encoded_no_separator, simp)+
  have "js_split (CHR ''&'') (js_join [CHR ''&''] (map ?f kvs)) = map ?f kvs"
    by (rule js_split_join) (use assms amp in \<open>auto simp: form_field_def\<close>)
  moreover have "(decode_uri_component (takeWhile (\<lambda>c. c \<noteq> CHR ''='') (?f kv)),
      decode_uri_component (drop 1 (dropWhile (\<lambda>c. c \<noteq> CHR ''='') (?f kv)))) = (Some (fst kv), Some (snd kv))" for kv
    by (simp add: split_def form_field_def until_separator [OF eq] decode_encoded)
  ultimately show ?thesis unfolding parse_form_def ser by (simp add: split_def comp_def)
qed

text \<open>Base64 arguments carry bytes: what a sandbox printed with \<open>btoa\<close> is what is sent, also in the URL alphabet.\<close>

definition to_base64url :: "string \<Rightarrow> string" where
  "to_base64url s = map (\<lambda>c. if c = CHR ''+'' then CHR ''-'' else if c = CHR ''/'' then CHR ''_'' else c) s"

lemma normalize_btoa: "normalize_base64 (btoa b) d = btoa b"
proof -
  have c: "compact_base64 (btoa b) = btoa b" using btoa_chars by (auto simp: compact_base64_def filter_id_conv)
  have "map (\<lambda>c. if c = CHR ''-'' then CHR ''+'' else if c = CHR ''_'' then CHR ''/'' else c) (btoa b) = btoa b"
    using btoa_chars by (auto intro!: map_idI)
  then show ?thesis using length_btoa [of b] by (simp add: normalize_base64_def c Let_def)
qed

theorem base64_argument_round_trip: "base64_to_bytes (btoa b) = Some b"
  by (simp add: base64_to_bytes_def normalize_btoa atob_btoa)

section \<open>The host a request is sent to\<close>

text \<open>Where the integration has a base URL, no argument moves the request.\<close>

lemma base_url_fixes_host: "base \<noteq> [] \<Longrightarrow> resolve_request_host servers arg base = base"
  by (simp add: resolve_request_host_def)

text \<open>
  Where it has none, the values of the server's variables come from the call and are written into the URL as
  they are: neither the values a variable enumerates nor the separators of a URL are looked at. An
  argument moves the request, and the credential with it, to a host of its own.
\<close>

definition regional_server :: server_info where
  "regional_server =
     \<lparr>si_url = ''https://{region}.api.test'', si_description = None,
      si_variables = Some [(''region'', \<lparr>sv_default = ''us'', sv_enum = Some [''us'', ''eu''], sv_description = None\<rparr>)]\<rparr>"

lemma server_variable_unchecked:
  "resolve_request_host [regional_server]
     (JObj [(''variables'', JObj [(''region'', JStr ''evil.test/'')])]) [] = ''https://evil.test/.api.test''"
  by code_simp

section \<open>An instance\<close>

record plain_request =
  pq_method :: string
  pq_url :: string
  pq_headers :: "(string \<times> string) list"
  pq_query :: "(string \<times> string) list"
  pq_body :: "string option"

definition plain_requests :: "plain_request http_requests" where
  "plain_requests =
     \<lparr>rq_make = (\<lambda>m u. \<lparr>pq_method = m, pq_url = u, pq_headers = [], pq_query = [], pq_body = None\<rparr>),
      rq_set_header = (\<lambda>r n v. r\<lparr>pq_headers := AList.update (js_lower n) v (pq_headers r)\<rparr>),
      rq_set_url_param = (\<lambda>r n v. r\<lparr>pq_query := AList.update n v (pq_query r)\<rparr>),
      rq_append_url_param = (\<lambda>r n v. r\<lparr>pq_query := pq_query r @ [(n, v)]\<rparr>),
      rq_body_text = (\<lambda>r s ct. r\<lparr>pq_body := Some s\<rparr>),
      rq_body_json = (\<lambda>r v. r\<lparr>pq_body := json_stringify v\<rparr>),
      rq_body_url_params = (\<lambda>r v. r\<lparr>pq_body := None\<rparr>),
      rq_body_form = (\<lambda>r ps. r\<lparr>pq_body := Some (concat (map fst ps))\<rparr>),
      rq_body_bytes = (\<lambda>r b ct. r\<lparr>pq_body := Some b\<rparr>),
      rq_header = (\<lambda>r n. map_of (pq_headers r) n)\<rparr>"

lemma plain_lawful: "lawful_requests plain_requests"
  by (simp add: lawful_requests_def plain_requests_def update_conv')

definition a_param :: "string \<Rightarrow> param_location \<Rightarrow> operation_parameter" where
  "a_param n l =
     \<lparr>op_name = n, op_location = l, op_required = (l = InPath), op_schema = None, op_style = None, op_explode = None,
      op_allow_reserved = None, op_description = None\<rparr>"

definition get_user :: operation_binding where
  "get_user =
     \<lparr>ob_method = ''get'', ob_servers = None, ob_path_template = ''/users/{id}'',
      ob_parameters = [a_param ''id'' InPath, a_param ''Authorization'' InHeader, a_param ''lang'' InCookie],
      ob_request_body = None, ob_response_body = None, ob_required_scopes = None\<rparr>"

definition forged_args :: tool_args where
  "forged_args = [(''id'', JStr ''a/b''), (''Authorization'', JStr ''mine''), (''lang'', JStr ''en'')]"

definition user_template :: "piece list" where
  "user_template = [Fixed ''/users/'', Hole ''id'']"

lemma user_template_text: "template_text user_template = ob_path_template get_user"
  by code_simp

lemma credentials_win_witness:
  "\<exists>r. build_request plain_requests get_user forged_args [(''authorization'', ''Bearer t'')] [] = Inr r \<and>
     rq_header plain_requests r (js_lower ''authorization'') = Some ''Bearer t''"
proof -
  have "case build_request plain_requests get_user forged_args [(''authorization'', ''Bearer t'')] [] of Inr _ \<Rightarrow> True | Inl _ \<Rightarrow> False"
    by code_simp
  then obtain r where r: "build_request plain_requests get_user forged_args [(''authorization'', ''Bearer t'')] [] = Inr r"
    by (auto split: sum.splits)
  have "js_lower ''authorization'' \<noteq> ''cookie''" by code_simp
  then show ?thesis
    using r credentials_win [OF plain_lawful _ _ r, of "''authorization''" "''Bearer t''"] by simp
qed

lemma path_separators_from_template_witness:
  "\<exists>s. resolve_path (template_text user_template) forged_args (ob_parameters get_user) = Inr s \<and>
     filter is_path_separator s = ''//''"
proof -
  have p: "plain_params forged_args (ob_parameters get_user)" by code_simp
  have t: "\<forall>q \<in> set user_template. is_piece q" by code_simp
  have a: "\<forall>p \<in> set (ob_parameters get_user). op_location p = InPath \<longrightarrow> op_allow_reserved p \<noteq> Some True" by code_simp
  have s: "resolve_path (template_text user_template) forged_args (ob_parameters get_user) = Inr ''/users/a%2Fb''" by code_simp
  have "filter is_path_separator (concat (map fixed_text user_template)) = ''//''" by code_simp
  then show ?thesis using path_separators_from_template [OF p t a s] s by auto
qed

lemma resolved_path_spec_witness:
  "resolve_path (template_text user_template) forged_args (ob_parameters get_user) = Inr ''/users/a%2Fb''"
proof -
  have p: "plain_params forged_args (ob_parameters get_user)" by code_simp
  have t: "\<forall>q \<in> set user_template. is_piece q" by code_simp
  have "missing_param forged_args (ob_parameters get_user) = None"
    "(let filled = map (fill_with (path_value forged_args (ob_parameters get_user))) user_template in
      if holes filled = [] then Inr (template_text filled)
      else Inl (invalid_request (''Unresolved path parameters: '' @ js_join '', '' (dedupe (holes filled))))) = Inr ''/users/a%2Fb''"
    by code_simp+
  then show ?thesis unfolding resolved_path_spec [OF p t] by simp
qed

lemma form_round_trip_witness:
  "parse_form (serialize_form_url_encoded (map (\<lambda>(k, v). (k, JStr v)) [(''a&b'', ''1=2'')]) None) = [(Some ''a&b'', Some ''1=2'')]"
  using form_round_trip [of "[(''a&b'', ''1=2'')]"] by simp

section \<open>Where arguments are not contained\<close>

text \<open>The dots of a relative segment are unreserved characters: such an argument passes the encoding as it is, and a URL that
  holds it names the segment above.\<close>

lemma dot_segments_pass:
  "resolve_path ''/users/{id}/notes'' [(''id'', JStr ''..'')] [a_param ''id'' InPath] = Inr ''/users/../notes''"
  by code_simp

text \<open>A value whose reserved characters stay may hold the patterns of \<open>replaceAll\<close>: here the rest of
  the template is written in the place of the value.\<close>

lemma replacement_pattern_expanded:
  "resolve_path ''/files/{path}/meta'' [(''path'', JStr (CHR ''$'' # [CHR 0x27]))]
     [a_param ''path'' InPath \<lparr>op_allow_reserved := Some True\<rparr>] = Inr ''/files//meta/meta''"
  by code_simp

text \<open>A cookie argument is not encoded, so it can hold another cookie.\<close>

lemma cookie_argument_splits:
  "cookie_arguments get_user [(''lang'', JStr ''en; session=x'')] = [''lang=en; session=x'']"
  by code_simp

end
