(* ===== verification/OpenApiResponses.thy ===== *)
theory OpenApiResponses
  imports OpenApiRequests
begin

text \<open>
  Reading the response of an OpenAPI operation (\<open>packages/plugins/openapi/src/sdk/invoke.ts\<close>, from the
  response helpers to \<open>invokeWithLayer\<close>): files found in bytes and in base64 fields, streams
  collected up to a cap, newline-delimited JSON, and what becomes of a status. The HTTP client with its
  clock is an outside state: it answers, fails, or is silent until the timeout; a body is read, fails, or is
  timed out. How text is decoded and JSON is parsed are parameters.
\<close>

section \<open>What bytes are\<close>

definition codes :: "string \<Rightarrow> nat list" where
  "codes s = map of_char s"

definition continuation :: "nat \<Rightarrow> bool" where
  "continuation b \<longleftrightarrow> 128 \<le> b \<and> b < 192"

text \<open>The code units of UTF-8 bytes, two of them beyond the basic plane; \<open>None\<close> where the decoder throws.\<close>

fun utf8_units :: "nat list \<Rightarrow> nat list option" where
  "utf8_units [] = Some []"
| "utf8_units (b # bs) =
     (if b < 128 then map_option (Cons b) (utf8_units bs)
      else if 194 \<le> b \<and> b \<le> 223 then
        (case bs of
           c # cs \<Rightarrow> if continuation c then map_option (Cons ((b - 192) * 64 + (c - 128))) (utf8_units cs) else None
         | [] \<Rightarrow> None)
      else if 224 \<le> b \<and> b \<le> 239 then
        (case bs of
           c # d # ds \<Rightarrow>
             if continuation c \<and> continuation d \<and> (b = 224 \<longrightarrow> 160 \<le> c) \<and> (b = 237 \<longrightarrow> c < 160)
             then map_option (Cons ((b - 224) * 4096 + (c - 128) * 64 + (d - 128))) (utf8_units ds) else None
         | _ \<Rightarrow> None)
      else if 240 \<le> b \<and> b \<le> 244 then
        (case bs of
           c # d # e # es \<Rightarrow>
             if continuation c \<and> continuation d \<and> continuation e \<and> (b = 240 \<longrightarrow> 144 \<le> c) \<and> (b = 244 \<longrightarrow> c < 144)
             then (let p = (b - 240) * 262144 + (c - 128) * 4096 + (d - 128) * 64 + (e - 128) - 65536 in
               map_option (\<lambda>us. (55296 + p div 1024) # (56320 + p mod 1024) # us) (utf8_units es)) else None
         | _ \<Rightarrow> None)
      else None)"

definition strip_bom :: "nat list \<Rightarrow> nat list" where
  "strip_bom bs = (if take 3 bs = [239, 187, 191] then drop 3 bs else bs)"

definition is_suspicious :: "nat \<Rightarrow> bool" where
  "is_suspicious n \<longleftrightarrow> n < 32 \<and> n \<notin> {9, 10, 12, 13}"

text \<open>At most two in a hundred units are suspicious, and none is zero.\<close>

definition is_likely_utf8_text :: "string \<Rightarrow> bool" where
  "is_likely_utf8_text bytes \<longleftrightarrow>
     bytes \<noteq> [] \<and>
     (case utf8_units (strip_bom (codes bytes)) of
        None \<Rightarrow> False
      | Some us \<Rightarrow> 0 \<notin> set us \<and> length (filter is_suspicious us) * 50 \<le> max 1 (length us))"

definition starts_with_bytes :: "string \<Rightarrow> nat list \<Rightarrow> bool" where
  "starts_with_bytes bytes prefix \<longleftrightarrow> take (length prefix) (codes bytes) = prefix"

definition sniff_mime_type :: "string \<Rightarrow> string option" where
  "sniff_mime_type bytes =
     (if starts_with_bytes bytes [0xff, 0xd8, 0xff] then Some ''image/jpeg''
      else if starts_with_bytes bytes [0x89, 0x50, 0x4e, 0x47, 0x0d, 0x0a, 0x1a, 0x0a] then Some ''image/png''
      else if starts_with_bytes bytes [0x47, 0x49, 0x46, 0x38, 0x37, 0x61] \<or>
              starts_with_bytes bytes [0x47, 0x49, 0x46, 0x38, 0x39, 0x61] then Some ''image/gif''
      else if starts_with_bytes bytes [0x52, 0x49, 0x46, 0x46] \<and>
              starts_with_bytes (drop 8 bytes) [0x57, 0x45, 0x42, 0x50] then Some ''image/webp''
      else if starts_with_bytes bytes [0x25, 0x50, 0x44, 0x46, 0x2d] then Some ''application/pdf''
      else if starts_with_bytes bytes [0x50, 0x4b, 0x03, 0x04] \<or> starts_with_bytes bytes [0x50, 0x4b, 0x05, 0x06] \<or>
              starts_with_bytes bytes [0x50, 0x4b, 0x07, 0x08] then Some ''application/zip''
      else if is_likely_utf8_text bytes then Some ''text/plain''
      else None)"

definition is_generic_mime_type :: "string \<Rightarrow> bool" where
  "is_generic_mime_type m \<longleftrightarrow> normalize_content_type (Some m) = ''application/octet-stream''"

section \<open>Files\<close>

text \<open>What ends an invocation: an error of its own, or a thrown value nothing catches.\<close>

datatype invoke_failure = InvocationFailed invocation_error | Defect

definition byte_length_from_base64 :: "string \<Rightarrow> int" where
  "byte_length_from_base64 s =
     (let compact = compact_base64 s;
          padding = (if js_ends_with compact ''=='' then 2 else if js_ends_with compact ''='' then 1 else 0) in
      max 0 (int (length compact * 3 div 4) - padding))"

definition bytes_from_base64_prefix :: "string \<Rightarrow> string option" where
  "bytes_from_base64_prefix s = atob (take 64 s)"

definition tool_file :: "string \<Rightarrow> string \<Rightarrow> int \<Rightarrow> jsval" where
  "tool_file mime content n =
     JObj [(''_tag'', JStr ''ToolFile''), (''mimeType'', JStr mime), (''encoding'', JStr ''base64''),
           (''data'', JStr content), (''byteLength'', JNum n)]"

definition field_size :: "record_vals \<Rightarrow> string option \<Rightarrow> string \<Rightarrow> int" where
  "field_size ps field content =
     (case field of
        None \<Rightarrow> byte_length_from_base64 content
      | Some f \<Rightarrow> (case prop_of ps f of JNum n \<Rightarrow> if f = [] then byte_length_from_base64 content else n
                 | _ \<Rightarrow> byte_length_from_base64 content))"

text \<open>Sniffing decodes the data with \<open>atob\<close>, which throws where it is not base64.\<close>

definition file_from_byte_field :: "jsval \<Rightarrow> operation_file_hint \<Rightarrow> invoke_failure + jsval option" where
  "file_from_byte_field body hint =
     (case body of
        JObj ps \<Rightarrow>
          (case prop_of ps (or_else (fh_data_field hint) ''data'') of
             JStr raw \<Rightarrow>
               let content = normalize_base64 raw (or_else (fh_encoding hint) Base64);
                   len = field_size ps (fh_size_field hint) content;
                   hinted = or_else (fh_mime_type hint) ''application/octet-stream'' in
               if is_generic_mime_type hinted
               then (case bytes_from_base64_prefix content of
                   None \<Rightarrow> Inl Defect
                 | Some b \<Rightarrow> Inr (Some (tool_file (or_else (sniff_mime_type b) hinted) content len)))
               else Inr (Some (tool_file hinted content len))
           | _ \<Rightarrow> Inr None)
      | _ \<Rightarrow> Inr None)"

definition file_from_binary_bytes :: "string \<Rightarrow> operation_file_hint \<Rightarrow> string option \<Rightarrow> jsval" where
  "file_from_binary_bytes bytes hint content_type =
     (let hinted = (case content_type of Some ct \<Rightarrow> ct | None \<Rightarrow> or_else (fh_mime_type hint) ''application/octet-stream'') in
      tool_file (if is_generic_mime_type hinted then or_else (sniff_mime_type bytes) hinted else hinted)
        (btoa bytes) (int (length bytes)))"

section \<open>Streams\<close>

definition STREAM_MAX_BYTES :: nat where
  "STREAM_MAX_BYTES = 1000000"

definition STREAM_MAX_MS :: int where
  "STREAM_MAX_MS = 10000"

definition is_streaming_content_type :: "string option \<Rightarrow> bool" where
  "is_streaming_content_type ct \<longleftrightarrow> normalize_content_type ct \<in> set (NDJSON_MEDIA_TYPES @ [''text/event-stream''])"

text \<open>The chunks kept, and whether the cap ended the reading.\<close>

fun collect_chunks :: "nat \<Rightarrow> string list \<Rightarrow> string \<Rightarrow> string \<times> bool" where
  "collect_chunks cap [] got = (got, False)"
| "collect_chunks cap (c # cs) got =
     (let remaining = cap - length got in
      if remaining = 0 then (got, True)
      else if remaining < length c then (got @ take remaining c, True)
      else if cap \<le> length (got @ c) then (got @ c, True)
      else collect_chunks cap cs (got @ c))"

text \<open>\<open>text.split(/\r?\n/)\<close>.\<close>

definition strip_cr :: "string \<Rightarrow> string" where
  "strip_cr l = (if l \<noteq> [] \<and> last l = CHR 0x0D then butlast l else l)"

fun drop_returns :: "string list \<Rightarrow> string list" where
  "drop_returns (l # m # ls) = strip_cr l # drop_returns (m # ls)"
| "drop_returns ls = ls"

definition lines_of :: "string \<Rightarrow> string list" where
  "lines_of s = drop_returns (js_split (CHR 0x0A) s)"

definition is_blank_line :: "string \<Rightarrow> bool" where
  "is_blank_line l \<longleftrightarrow> js_trim l = []"

fun ndjson_rows :: "(string \<Rightarrow> jsval option) \<Rightarrow> bool \<Rightarrow> string list \<Rightarrow> jsval list option" where
  "ndjson_rows json truncated [] = Some []"
| "ndjson_rows json truncated (l # ls) =
     (if is_blank_line l then ndjson_rows json truncated ls
      else (case json l of
          Some v \<Rightarrow> map_option (Cons v) (ndjson_rows json truncated ls)
        | None \<Rightarrow> if truncated \<and> list_all is_blank_line ls then ndjson_rows json truncated ls else None))"

definition parse_streaming_json_lines :: "(string \<Rightarrow> jsval option) \<Rightarrow> string \<Rightarrow> bool \<Rightarrow> jsval" where
  "parse_streaming_json_lines json s truncated =
     (case ndjson_rows json truncated (lines_of s) of Some rows \<Rightarrow> JArr rows | None \<Rightarrow> JStr s)"

definition decode_streaming_body :: "(string \<Rightarrow> jsval option) \<Rightarrow> string option \<Rightarrow> string \<Rightarrow> bool \<Rightarrow> jsval" where
  "decode_streaming_body json ct s truncated =
     (if is_ndjson_media_type ct then parse_streaming_json_lines json s truncated else JStr s)"

text \<open>How the reading of a stream went: the chunks that came, whether the stream failed after them or the
  timer cut it off, and how long it took.\<close>

record stream_run =
  sr_chunks :: "string list"
  sr_failed :: "jsval option"
  sr_cut_off :: bool
  sr_duration :: int

definition collect_streaming_body ::
  "(string \<Rightarrow> jsval option) \<Rightarrow> (string \<Rightarrow> string) \<Rightarrow> nat \<Rightarrow> int \<Rightarrow> string option \<Rightarrow> stream_run \<Rightarrow>
   jsval + jsval \<times> (string \<times> string) list" where
  "collect_streaming_body json decode max_bytes max_ms ct run =
     (case collect_chunks max_bytes (sr_chunks run) [] of (got, capped) \<Rightarrow>
        if sr_failed run \<noteq> None \<and> \<not> capped \<and> \<not> sr_cut_off run then Inl (the (sr_failed run))
        else let truncated = (capped \<or> sr_cut_off run \<or> max_ms \<le> sr_duration run) in
          Inr (decode_streaming_body json ct (decode got) truncated,
            [(''x-executor-stream'', if truncated then ''truncated'' else ''complete''),
             (''x-executor-stream-bytes'', nat_digits (length got)),
             (''x-executor-stream-duration-ms'', int_to_string (sr_duration run))]))"

section \<open>Invoking\<close>

definition RESPONSE_BODY_TIMEOUT_MS :: int where
  "RESPONSE_BODY_TIMEOUT_MS = 60000"

definition RESPONSE_HEADERS_TIMEOUT_MS :: int where
  "RESPONSE_HEADERS_TIMEOUT_MS = 110000"

record invoke_options =
  io_headers_timeout :: "int option"
  io_body_timeout :: "int option"

definition format_timeout :: "int \<Rightarrow> string" where
  "format_timeout ms = (if ms mod 1000 = 0 then int_to_string (ms div 1000) @ ''s'' else int_to_string ms @ ''ms'')"

definition headers_timeout_message :: "int \<Rightarrow> string" where
  "headers_timeout_message ms =
     ''Upstream returned no response headers within '' @ format_timeout ms
     @ ''. The endpoint may be a live stream with no data to send (for example, runtime logs of an idle deployment); ''
     @ ''the request was aborted. Retry when the resource has activity, or use a non-streaming endpoint.''"

definition body_timeout_message :: "int \<Rightarrow> string" where
  "body_timeout_message ms =
     ''Upstream response body did not finish within '' @ format_timeout ms
     @ ''. The request was aborted. Retry the operation; if it times out again, check the upstream service health ''
     @ ''or use an endpoint with a bounded response.''"

datatype 'a body_read = BodyRead 'a | BodyError jsval | BodyTimeout

record http_response =
  hr_status :: int
  hr_headers :: "(string \<times> string) list"
  hr_json :: "jsval body_read"
  hr_text :: "string body_read"
  hr_bytes :: "string body_read"
  hr_stream :: stream_run

datatype sent = Responded http_response | SendFailed jsval | NoHeaders

record ('r, 's) http_client =
  hc_execute :: "'r \<Rightarrow> 's \<Rightarrow> 's \<times> sent"
  hc_prepend_url :: "string \<Rightarrow> 'r \<Rightarrow> 'r"
  hc_json :: "string \<Rightarrow> jsval option"
  hc_decode :: "string \<Rightarrow> string"

record invocation_result =
  ir_status :: int
  ir_headers :: "(string \<times> string) list"
  ir_data :: jsval
  ir_error :: jsval

definition is_ok_status :: "int \<Rightarrow> bool" where
  "is_ok_status s \<longleftrightarrow> 200 \<le> s \<and> s < 300"

fun map_body :: "('a \<Rightarrow> 'b) \<Rightarrow> 'a body_read \<Rightarrow> 'b body_read" where
  "map_body f (BodyRead a) = BodyRead (f a)"
| "map_body f (BodyError e) = BodyError e"
| "map_body f BodyTimeout = BodyTimeout"

definition buffered_body :: "http_response \<Rightarrow> operation_file_hint option \<Rightarrow> jsval body_read" where
  "buffered_body resp hint =
     (let ct = map_of (hr_headers resp) ''content-type'' in
      case hint of
        Some h \<Rightarrow>
          if is_ok_status (hr_status resp) \<and> fh_kind h = BinaryResponse
          then map_body (\<lambda>b. file_from_binary_bytes b h ct) (hr_bytes resp)
          else if is_json_content_type ct
          then (case hr_json resp of BodyError _ \<Rightarrow> map_body JStr (hr_text resp) | b \<Rightarrow> b)
          else map_body JStr (hr_text resp)
      | None \<Rightarrow>
          if is_json_content_type ct
          then (case hr_json resp of BodyError _ \<Rightarrow> map_body JStr (hr_text resp) | b \<Rightarrow> b)
          else map_body JStr (hr_text resp))"

definition body_failed :: "int \<Rightarrow> jsval \<Rightarrow> invoke_failure" where
  "body_failed status cause =
     InvocationFailed
       \<lparr>ie_message = ''Failed to read response body'', ie_status = Some status, ie_reason = None, ie_cause = cause\<rparr>"

definition body_timed_out :: "int \<Rightarrow> int \<Rightarrow> invoke_failure" where
  "body_timed_out status ms =
     InvocationFailed \<lparr>ie_message = body_timeout_message ms, ie_status = Some status, ie_reason = Some ''response_body_timeout'',
       ie_cause = JUndef\<rparr>"

definition streams_body :: "http_response \<Rightarrow> operation_file_hint option \<Rightarrow> bool" where
  "streams_body resp hint \<longleftrightarrow>
     is_ok_status (hr_status resp) \<and> hr_status resp \<noteq> 204 \<and> map_option fh_kind hint \<noteq> Some BinaryResponse \<and>
     is_streaming_content_type (map_of (hr_headers resp) ''content-type'')"

text \<open>The body of a response and its headers, those of a collected stream included.\<close>

definition read_body ::
  "('r, 's) http_client \<Rightarrow> http_response \<Rightarrow> operation_file_hint option \<Rightarrow> int \<Rightarrow>
   invoke_failure + jsval \<times> (string \<times> string) list" where
  "read_body client resp hint timeout =
     (let status = hr_status resp; ct = map_of (hr_headers resp) ''content-type'' in
      if streams_body resp hint then
        (case collect_streaming_body (hc_json client) (hc_decode client) STREAM_MAX_BYTES STREAM_MAX_MS ct (hr_stream resp) of
           Inl cause \<Rightarrow> Inl (body_failed status cause)
         | Inr (body, extra) \<Rightarrow> Inr (body, fold (\<lambda>(n, v) hs. AList.update n v hs) extra (hr_headers resp)))
      else if status = 204 then Inr (JNull, hr_headers resp)
      else (case buffered_body resp hint of
          BodyRead body \<Rightarrow> Inr (body, hr_headers resp)
        | BodyError cause \<Rightarrow> Inl (body_failed status cause)
        | BodyTimeout \<Rightarrow> Inl (body_timed_out status timeout)))"

definition data_body :: "int \<Rightarrow> jsval \<Rightarrow> operation_file_hint option \<Rightarrow> invoke_failure + jsval" where
  "data_body status body hint =
     (case hint of
        Some h \<Rightarrow>
          if is_ok_status status \<and> fh_kind h = ByteField
          then err_bind (file_from_byte_field body h) (\<lambda>f. Inr (or_else f body))
          else Inr body
      | None \<Rightarrow> Inr body)"

definition receive ::
  "('r, 's) http_client \<Rightarrow> operation_binding \<Rightarrow> invoke_options \<Rightarrow> sent \<Rightarrow> invoke_failure + invocation_result" where
  "receive client ob opts s =
     (case s of
        NoHeaders \<Rightarrow>
          Inl (InvocationFailed
            \<lparr>ie_message = headers_timeout_message (or_else (io_headers_timeout opts) RESPONSE_HEADERS_TIMEOUT_MS),
             ie_status = None, ie_reason = Some ''response_headers_timeout'', ie_cause = JUndef\<rparr>)
      | SendFailed cause \<Rightarrow>
          Inl (InvocationFailed \<lparr>ie_message = ''HTTP request failed'', ie_status = None, ie_reason = None, ie_cause = cause\<rparr>)
      | Responded resp \<Rightarrow>
          let hint = Option.bind (ob_response_body ob) rs_file_hint; status = hr_status resp in
          err_bind (read_body client resp hint (or_else (io_body_timeout opts) RESPONSE_BODY_TIMEOUT_MS)) (\<lambda>(body, headers).
          err_bind (data_body status body hint) (\<lambda>content.
            Inr \<lparr>ir_status = status, ir_headers = headers,
                 ir_data = (if is_ok_status status then content else JNull),
                 ir_error = (if is_ok_status status then JNull else body)\<rparr>)))"

definition invoke_with_layer ::
  "('r, 'm) http_requests_scheme \<Rightarrow> ('r, 's) http_client \<Rightarrow> url_parser \<Rightarrow> operation_binding \<Rightarrow> tool_args \<Rightarrow> string \<Rightarrow>
   (string \<times> string) list \<Rightarrow> (string \<times> string) list \<Rightarrow> invoke_options \<Rightarrow> 's \<Rightarrow>
   's \<times> (invoke_failure + invocation_result)" where
  "invoke_with_layer rq client up ob args base headers query opts s =
     (case build_request rq ob args headers query of
        Inl e \<Rightarrow> (s, Inl (InvocationFailed e))
      | Inr r \<Rightarrow>
          let host = base_url_for_path_template up
                (resolve_request_host (or_else (ob_servers ob) []) (prop_of args ''server'') base) (ob_path_template ob);
              r = (if host = [] then r else hc_prepend_url client host r) in
          (case hc_execute client r s of (s, answer) \<Rightarrow> (s, receive client ob opts answer)))"


section \<open>The cap of a stream\<close>

lemma collect_chunks_spec:
  "length got < cap \<Longrightarrow>
     collect_chunks cap cs got = (take cap (got @ concat cs), cap \<le> length (got @ concat cs))"
proof (induction cs arbitrary: got)
  case (Cons c cs)
  show ?case
  proof (cases "cap \<le> length (got @ c)")
    case True
    then show ?thesis using Cons.prems by (cases "cap - length got < length c") (auto simp: Let_def)
  next
    case False
    then have "\<not> cap - length got < length c" by simp
    with False show ?thesis using Cons.prems Cons.IH [of "got @ c"] by (simp add: Let_def)
  qed
qed simp

text \<open>
  What is kept of a stream is what the cap holds of it. It is marked as truncated once the cap is reached, also where nothing
  followed: a stream of exactly the cap is whole and still marked.
\<close>

theorem stream_cap: "0 < cap \<Longrightarrow> collect_chunks cap cs [] = (take cap (concat cs), cap \<le> length (concat cs))"
  using collect_chunks_spec [of "[]" cap cs] by simp

lemma whole_stream_marked: "collect_chunks 2 [''a'', ''b''] [] = (''ab'', True)"
  by code_simp

section \<open>Rows of a stream that was cut\<close>

text \<open>A row's text: it parses, on a line of its own, and no part of it that a cut may leave does.\<close>

definition row_text :: "(string \<Rightarrow> jsval option) \<Rightarrow> string \<Rightarrow> jsval \<Rightarrow> bool" where
  "row_text json t v \<longleftrightarrow>
     json t = Some v \<and> CHR 0x0A \<notin> set t \<and> \<not> is_blank_line t \<and> strip_cr t = t \<and>
     (\<forall>k < length t. is_blank_line (take k t) \<or> json (take k t) = None)"

definition ndjson_text :: "string list \<Rightarrow> string" where
  "ndjson_text ts = concat (map (\<lambda>t. t @ [CHR 0x0A]) ts)"

lemma lines_of_line: "CHR 0x0A \<notin> set t \<Longrightarrow> lines_of t = [t]"
  by (simp add: lines_of_def js_split_literal)

lemma split_line: "CHR 0x0A \<notin> set t \<Longrightarrow> js_split (CHR 0x0A) (t @ CHR 0x0A # s) = t # js_split (CHR 0x0A) s"
  by (simp add: js_split_append_sep)

lemma lines_of_append: "CHR 0x0A \<notin> set t \<Longrightarrow> strip_cr t = t \<Longrightarrow> lines_of (t @ CHR 0x0A # s) = t # lines_of s"
  by (cases "js_split (CHR 0x0A) s") (auto simp: lines_of_def split_line)

lemma blank_nil: "is_blank_line []"
  by (simp add: is_blank_line_def js_trim_def)

lemma cut_rows:
  "list_all2 (row_text json) ts vs \<Longrightarrow>
     \<exists>m. ndjson_rows json True (lines_of (take n (ndjson_text ts))) = Some (take m vs) \<and>
         (length (ndjson_text ts) \<le> n \<longrightarrow> length vs \<le> m)"
proof (induction arbitrary: n rule: list_all2_induct)
  case Nil
  have "lines_of [] = [[]]" by (simp add: lines_of_def)
  then show ?case by (intro exI [of _ 0]) (simp add: ndjson_text_def blank_nil)
next
  case (Cons t ts v vs)
  from Cons(1) have row: "json t = Some v" "CHR 0x0A \<notin> set t" "\<not> is_blank_line t" "strip_cr t = t"
    "\<And>k. k < length t \<Longrightarrow> is_blank_line (take k t) \<or> json (take k t) = None" by (simp_all add: row_text_def)
  have text_eq: "ndjson_text (t # ts) = t @ CHR 0x0A # ndjson_text ts" by (simp add: ndjson_text_def)
  consider "n < length t" | "n = length t" | "length t < n" by linarith
  then show ?case
  proof cases
    case 1
    have "CHR 0x0A \<notin> set (take n t)" using row(2) set_take_subset [of n t] by blast
    with 1 row(5) [OF 1] show ?thesis
      by (intro exI [of _ 0]) (auto simp: text_eq lines_of_line)
  next
    case 2
    with row show ?thesis by (intro exI [of _ 1]) (simp add: text_eq lines_of_line)
  next
    case 3
    define k where "k = n - Suc (length t)"
    have "take n (ndjson_text (t # ts)) = t @ CHR 0x0A # take k (ndjson_text ts)"
      using 3 by (simp add: text_eq k_def take_Cons' Suc_diff_Suc)
    moreover obtain m where m: "ndjson_rows json True (lines_of (take k (ndjson_text ts))) = Some (take m vs)"
      "length (ndjson_text ts) \<le> k \<longrightarrow> length vs \<le> m" using Cons(3) [of k] by blast
    ultimately show ?thesis using row 3
      by (intro exI [of _ "Suc m"]) (auto simp: lines_of_append text_eq k_def)
  qed
qed

text \<open>A cut stream of rows gives the first of them, and one that was not cut all.\<close>

theorem cut_stream_is_prefix:
  assumes "list_all2 (row_text json) ts vs"
  shows "\<exists>m. parse_streaming_json_lines json (take n (ndjson_text ts)) True = JArr (take m vs) \<and>
      (length (ndjson_text ts) \<le> n \<longrightarrow> length vs \<le> m)"
proof -
  obtain m where "ndjson_rows json True (lines_of (take n (ndjson_text ts))) = Some (take m vs)"
    and m: "length (ndjson_text ts) \<le> n \<longrightarrow> length vs \<le> m"
    using cut_rows [OF assms, of n] by blast
  then have "parse_streaming_json_lines json (take n (ndjson_text ts)) True = JArr (take m vs)"
    by (simp only: parse_streaming_json_lines_def option.case)
  with m show ?thesis by blast
qed

section \<open>Files\<close>

lemma length_pad: "length s + base64_pad s = 3 * ((length s + 2) div 3)"
proof (induction s rule: base64_digits.induct)
  case (4 a b c cs)
  have "(length cs + 3 + 2) div 3 = Suc ((length cs + 2) div 3)" by simp
  with 4 show ?case by simp
qed simp_all

lemma btoa_padding:
  "(if js_ends_with (btoa s) ''=='' then 2 else if js_ends_with (btoa s) ''='' then 1 else 0) = int (base64_pad s)"
proof -
  consider "base64_pad s = 0" | "base64_pad s = 1" | "base64_pad s = 2" using pad_cases [of s] by argo
  then show ?thesis
  proof cases
    case 1
    then show ?thesis using btoa_no_pad [OF 1] ends_two_imp_one [of "btoa s"] by auto
  next
    case 2
    have "js_ends_with (btoa s) ''=''" using ends_with_append [of _ "''=''"] 2 by (simp add: btoa_digits)
    then show ?thesis using btoa_two_pads [OF 2] 2 by simp
  next
    case 3
    have "js_ends_with (btoa s) ''==''" using ends_with_append [of _ "''==''"] 3 by (simp add: btoa_digits numeral_2_eq_2)
    then show ?thesis using 3 by simp
  qed
qed

lemma byte_length_btoa: "byte_length_from_base64 (btoa b) = int (length b)"
proof -
  have c: "compact_base64 (btoa b) = btoa b" using btoa_chars by (auto simp: compact_base64_def filter_id_conv)
  have "length (btoa b) * 3 div 4 = length b + base64_pad b" by (simp only: length_btoa length_pad)
  then show ?thesis by (simp only: byte_length_from_base64_def c Let_def btoa_padding)
qed

text \<open>A binary response is handed over as a file that holds its bytes and says how many they are.\<close>

theorem file_round_trip:
  "\<exists>s. obj_get (file_from_binary_bytes b h ct) ''data'' = JStr s \<and> base64_to_bytes s = Some b \<and>
     obj_get (file_from_binary_bytes b h ct) ''byteLength'' = JNum (byte_length_from_base64 s)"
  by (simp add: file_from_binary_bytes_def Let_def tool_file_def base64_argument_round_trip byte_length_btoa)

section \<open>Results\<close>

text \<open>A result is data or an error by its status alone.\<close>

lemma received_result:
  "receive client ob opts (Responded resp) = Inr res \<Longrightarrow>
     ir_status res = hr_status resp \<and> (is_ok_status (ir_status res) \<longrightarrow> ir_error res = JNull) \<and>
     (\<not> is_ok_status (ir_status res) \<longrightarrow> ir_data res = JNull)"
  by (auto simp: receive_def err_bind_Inr Let_def)

text \<open>
  A field that is declared to hold base64 and does not, with no media type of its own, is a defect of the
  invocation: sniffing throws inside it. The body, which the code keeps for a field it cannot read,
  is lost.
\<close>

lemma undecodable_field_dies:
  "file_from_byte_field (JObj [(''data'', JStr ''not base64!'')])
     \<lparr>fh_kind = ByteField, fh_mime_type = None, fh_data_field = None, fh_size_field = None, fh_encoding = None\<rparr> = Inl Defect"
  by code_simp

end
