(* ===== verification/OpenApiStore.thy ===== *)
theory OpenApiStore
  imports PluginStorage OpenApiRequests
begin

text \<open>
  The store of the OpenAPI plugin (\<open>packages/plugins/openapi/src/sdk/store.ts\<close>): operation bindings kept
  under the organization in the plugin's storage, one entry per integration and tool, and the texts of
  specifications and definitions kept as blobs by their hash. The codec of bindings, which the schema library derives, is a
  parameter.
\<close>

section \<open>Operations as entries\<close>

text \<open>The codec: a binding as a value, a value read as a binding, and a text read as one; \<open>None\<close> where it
  throws.\<close>

record binding_codec =
  bc_encode :: "operation_binding \<Rightarrow> jsval"
  bc_decode :: "jsval \<Rightarrow> operation_binding option"
  bc_decode_text :: "string \<Rightarrow> operation_binding option"

record stored_operation =
  so_integration :: string
  so_tool_name :: string
  so_binding :: operation_binding
  so_description :: "string option"

definition OPERATION_COLLECTION :: string where
  "OPERATION_COLLECTION = ''operation''"

definition OPERATION_KEY_VERSION :: string where
  "OPERATION_KEY_VERSION = ''op''"

definition fnv_step :: "64 word \<Rightarrow> char \<Rightarrow> 64 word" where
  "fnv_step h c = (xor h (of_nat (of_char c))) * 0x100000001b3"

definition stable_key_hash :: "string \<Rightarrow> string" where
  "stable_key_hash s = pad_left 13 (base36 (unat (foldl fnv_step 0xcbf29ce484222325 s)))"

definition operation_key :: "string \<Rightarrow> string \<Rightarrow> string" where
  "operation_key integration tool_name =
     OPERATION_KEY_VERSION @ ''.'' @ stable_key_hash integration @ ''.'' @ stable_key_hash tool_name"

definition legacy_operation_key :: "string \<Rightarrow> string \<Rightarrow> string" where
  "legacy_operation_key integration tool_name = integration @ ''.'' @ tool_name"

definition spec_blob_key :: "string \<Rightarrow> string" where
  "spec_blob_key h = ''spec/'' @ h"

definition defs_blob_key :: "string \<Rightarrow> string" where
  "defs_blob_key h = ''defs/'' @ h"

text \<open>The schema of an entry's data: two texts, a binding, and a text that may be absent.\<close>

definition decode_operation_storage :: "jsval \<Rightarrow> (string \<times> string \<times> jsval \<times> string option) option" where
  "decode_operation_storage data =
     (case data of
        JObj ps \<Rightarrow>
          (case (prop_of ps ''integration'', prop_of ps ''toolName'', map_of ps ''binding'') of
             (JStr i, JStr t, Some b) \<Rightarrow>
               (case prop_of ps ''description'' of
                  JUndef \<Rightarrow> Some (i, t, b, None)
                | JStr d \<Rightarrow> Some (i, t, b, Some d)
                | _ \<Rightarrow> None)
           | _ \<Rightarrow> None)
      | _ \<Rightarrow> None)"

definition row_to_operation :: "binding_codec \<Rightarrow> storage_entry \<Rightarrow> failure + stored_operation option" where
  "row_to_operation codec e =
     (case decode_operation_storage (pe_data e) of
        None \<Rightarrow> Inr None
      | Some (i, t, b, d) \<Rightarrow>
          (case (case b of JStr s \<Rightarrow> bc_decode_text codec s | _ \<Rightarrow> bc_decode codec b) of
             None \<Rightarrow> Inl (type_error ''binding'')
           | Some ob \<Rightarrow> Inr (Some \<lparr>so_integration = i, so_tool_name = t, so_binding = ob, so_description = d\<rparr>)))"

definition operation_data :: "binding_codec \<Rightarrow> stored_operation \<Rightarrow> jsval" where
  "operation_data codec op =
     JObj ([(''integration'', JStr (so_integration op)), (''toolName'', JStr (so_tool_name op)),
            (''binding'', bc_encode codec (so_binding op))]
           @ (case so_description op of None \<Rightarrow> [] | Some d \<Rightarrow> [(''description'', JStr d)]))"

section \<open>The store\<close>

text \<open>What the store is made of: the collation of the storage facade, the environment, the plugin's id, its blobs
  and the codec.\<close>

record ('b, 'x) store_deps =
  sd_collate :: collation
  sd_env :: "'b base_env_scheme"
  sd_plugin :: string
  sd_blobs :: "'x blob_store"
  sd_codec :: binding_codec

definition list_rows :: "('b, 'x) store_deps \<Rightarrow> string \<Rightarrow> ('x, storage_entry list) eff" where
  "list_rows sd integration =
     eff_bind (storage_list (sd_collate sd) (sd_env sd) (sd_plugin sd) OPERATION_COLLECTION None) (\<lambda>rows.
     eff_bind (eff_mapM (\<lambda>r. eff_lift (row_to_operation (sd_codec sd) r)) rows) (\<lambda>ops.
       eff_return (map fst (filter (\<lambda>(_, op). map_option so_integration op = Some integration) (zip rows ops)))))"

definition remove_operations :: "('b, 'x) store_deps \<Rightarrow> string \<Rightarrow> ('x, unit) eff" where
  "remove_operations sd integration =
     eff_bind (list_rows sd integration) (\<lambda>rows.
       storage_remove_many (sd_env sd) (sd_plugin sd) Org (map (\<lambda>r. (OPERATION_COLLECTION, pe_key r)) rows))"

definition append_operations :: "('b, 'x) store_deps \<Rightarrow> string \<Rightarrow> stored_operation list \<Rightarrow> ('x, unit) eff" where
  "append_operations sd integration ops =
     storage_put_many (sd_env sd) (sd_plugin sd) Org
       (map (\<lambda>op. ((OPERATION_COLLECTION, operation_key integration (so_tool_name op)), operation_data (sd_codec sd) op)) ops)"

definition put_operations :: "('b, 'x) store_deps \<Rightarrow> string \<Rightarrow> stored_operation list \<Rightarrow> ('x, unit) eff" where
  "put_operations sd integration ops =
     eff_bind (remove_operations sd integration) (\<lambda>_. append_operations sd integration ops)"

definition get_operation :: "('b, 'x) store_deps \<Rightarrow> string \<Rightarrow> string \<Rightarrow> ('x, stored_operation option) eff" where
  "get_operation sd integration tool_name =
     (let look = storage_get (sd_collate sd) (sd_env sd) (sd_plugin sd) OPERATION_COLLECTION;
          read = (\<lambda>r. eff_lift (row_to_operation (sd_codec sd) r)) in
      eff_bind (look (operation_key integration tool_name)) (\<lambda>row. case row of
        Some r \<Rightarrow> read r
      | None \<Rightarrow>
          let legacy = legacy_operation_key integration tool_name in
          if 255 < length legacy then eff_return None
          else eff_bind (look legacy) (\<lambda>legacy_row. case legacy_row of Some r \<Rightarrow> read r | None \<Rightarrow> eff_return None)))"

definition list_operations :: "('b, 'x) store_deps \<Rightarrow> string \<Rightarrow> ('x, stored_operation list) eff" where
  "list_operations sd integration =
     eff_bind (list_rows sd integration) (\<lambda>rows.
     eff_map (List.map_filter (\<lambda>op. op)) (eff_mapM (\<lambda>r. eff_lift (row_to_operation (sd_codec sd) r)) rows))"

definition store_partitions :: "('b, 'x) store_deps \<Rightarrow> owner_partitions" where
  "store_partitions sd = blob_partitions (e_ctx (sd_env sd))"

definition put_spec :: "('b, 'x) store_deps \<Rightarrow> string \<Rightarrow> string \<Rightarrow> ('x, unit) eff" where
  "put_spec sd h s = plugin_blob_put (sd_blobs sd) (store_partitions sd) (sd_plugin sd) (spec_blob_key h) s Org"

definition get_spec :: "('b, 'x) store_deps \<Rightarrow> string \<Rightarrow> ('x, string option) eff" where
  "get_spec sd h = plugin_blob_get (sd_blobs sd) (store_partitions sd) (sd_plugin sd) (spec_blob_key h)"

definition put_defs :: "('b, 'x) store_deps \<Rightarrow> string \<Rightarrow> string \<Rightarrow> ('x, unit) eff" where
  "put_defs sd h s = plugin_blob_put (sd_blobs sd) (store_partitions sd) (sd_plugin sd) (defs_blob_key h) s Org"

definition get_defs :: "('b, 'x) store_deps \<Rightarrow> string \<Rightarrow> ('x, string option) eff" where
  "get_defs sd h = plugin_blob_get (sd_blobs sd) (store_partitions sd) (sd_plugin sd) (defs_blob_key h)"

section \<open>Reading back what was put\<close>

text \<open>What the codec promises: it reads what it wrote, and does not write a text.\<close>

definition lawful_codec :: "binding_codec \<Rightarrow> bool" where
  "lawful_codec codec \<longleftrightarrow> (\<forall>b. bc_decode codec (bc_encode codec b) = Some b \<and> (\<forall>s. bc_encode codec b \<noteq> JStr s))"

lemma operation_data_read:
  assumes "lawful_codec codec" "pe_data e = operation_data codec op"
  shows "row_to_operation codec e = Inr (Some op)"
proof -
  have "decode_operation_storage (operation_data codec op) =
      Some (so_integration op, so_tool_name op, bc_encode codec (so_binding op), so_description op)"
    by (auto simp: decode_operation_storage_def operation_data_def split: option.split)
  moreover have "(case bc_encode codec (so_binding op) of JStr s \<Rightarrow> bc_decode_text codec s | _ \<Rightarrow> bc_decode codec (bc_encode codec (so_binding op)))
      = Some (so_binding op)"
    using assms(1) unfolding lawful_codec_def by (cases "bc_encode codec (so_binding op)") (metis jsval.simps)+
  ultimately show ?thesis using assms(2) by (simp add: row_to_operation_def)
qed

lemma storage_get_stored:
  assumes "comparator collate" "oc_reach (e_ctx env) = Bound" "org_rows_shared w"
  shows "\<exists>e. storage_get collate env pl coll k w = (Inr e, w) \<and>
    map_option pe_data e = (case stored env w (pl, User, coll, k) of Some v \<Rightarrow> Some v | None \<Rightarrow> stored env w (pl, Org, coll, k))"
proof -
  have one: "\<exists>e. storage_get_for_owner env pl ow coll k w = (Inr e, w) \<and> map_option pe_data e = stored env w (pl, ow, coll, k)" for ow
    by (simp add: storage_get_for_owner_def eff_map_def eff_bind_def owned_find_first stored_def data_at_def at_key_def
        option.map_comp o_def storage_entry_from_row_def)
  obtain u o' where u: "storage_get_for_owner env pl User coll k w = (Inr u, w)" "map_option pe_data u = stored env w (pl, User, coll, k)"
    and o: "storage_get_for_owner env pl Org coll k w = (Inr o', w)" "map_option pe_data o' = stored env w (pl, Org, coll, k)"
    using one by metis
  have snd: "snd (storage_get collate env pl coll k w) = w"
    by (simp add: storage_get_def eff_map_def eff_bind_def owned_find_many)
  have "fst (storage_get collate env pl coll k w) = Inr (case u of Some e \<Rightarrow> Some e | None \<Rightarrow> o')"
    using storage_get_falls_through [OF assms, of pl coll k] u o by (simp split: option.split)
  with snd have "storage_get collate env pl coll k w = (Inr (case u of Some e \<Rightarrow> Some e | None \<Rightarrow> o'), w)"
    by (metis prod.collapse)
  then show ?thesis using u(2) [symmetric] o(2) by (cases u) simp_all
qed

lemma shared_filter: "org_rows_shared w \<Longrightarrow> org_rows_shared (w\<lparr>w_db := (w_db w)(''plugin_storage'' := filter P (w_db w ''plugin_storage''))\<rparr>)"
  by (simp add: org_rows_shared_def)

lemma created_shared:
  assumes "owner_subject (e_ctx env) ow = Some s"
    and "r = apply_defaults a (tbl_columns plugin_storage_table) (storage_row (e_ctx env) pl ow s ck v t)"
  shows "r ''owner'' = JStr ''org'' \<longrightarrow> r ''subject'' = JStr ORG_SUBJECT"
proof -
  have "r ''owner'' = JStr (owner_text ow)" "r ''subject'' = JStr s"
    unfolding assms(2)
    by (subst apply_defaults_given; simp add: plugin_storage_table_def owned_executor_table_def storage_row_def
        key_column_def text_column_def auto_id_column_def)+
  then show ?thesis using assms(1) by (cases ow) (auto simp: owner_subject_def)
qed

lemma create_batches_shared:
  assumes "\<not> read_only (e_ctx env)" "owner_subject (e_ctx env) ow = Some s"
  shows "eff_iter (\<lambda>b. core_create_many env plugin_storage_table (map (\<lambda>(p, v). storage_row (e_ctx env) pl ow s p v t) b)) bs w = (r, w')
    \<Longrightarrow> org_rows_shared w \<Longrightarrow> org_rows_shared w'"
proof (induction bs arbitrary: w)
  case (Cons b bs)
  let ?vs = "map (\<lambda>(p, v). storage_row (e_ctx env) pl ow s p v t) b"
  let ?rows = "created_rows env plugin_storage_table (w_ids w) ?vs"
  let ?w = "w\<lparr>w_db := (w_db w)(''plugin_storage'' := w_db w ''plugin_storage'' @ ?rows), w_ids := w_ids w + length ?vs\<rparr>"
  have made: "core_create_many env plugin_storage_table ?vs w = (Inr (), ?w)"
    using owned_create_many [OF _ assms(1) storage_keys [OF assms(2)], of plugin_storage_table ?vs w] storage_row_keys
    by fastforce
  have "r ''owner'' = JStr ''org'' \<longrightarrow> r ''subject'' = JStr ORG_SUBJECT" if "r \<in> set ?rows" for r
  proof -
    obtain a p v where "r = apply_defaults a (tbl_columns plugin_storage_table) (storage_row (e_ctx env) pl ow s p v t)"
      using \<open>r \<in> set ?rows\<close> by (auto simp: created_rows_def in_set_conv_nth split: prod.splits)
    then show ?thesis by (rule created_shared [OF assms(2)])
  qed
  then have "org_rows_shared ?w" using Cons.prems(2) by (auto simp: org_rows_shared_def)
  moreover have "eff_iter (\<lambda>b. core_create_many env plugin_storage_table (map (\<lambda>(p, v). storage_row (e_ctx env) pl ow s p v t) b)) bs ?w = (r, w')"
    using Cons.prems(1) by (simp add: eff_bind_def made)
  ultimately show ?case using Cons.IH [of ?w] by blast
qed simp

lemma put_many_shared:
  assumes "\<not> read_only (e_ctx env)" "owner_subject (e_ctx env) ow = Some s" "org_rows_shared w"
    and "storage_put_many env pl ow es w = (Inr (), w')"
  shows "org_rows_shared w'"
proof (cases "unique_entries pl es = []")
  case True
  then show ?thesis using assms by (simp add: storage_put_many_def)
next
  case False
  let ?u = "unique_entries pl es"
  let ?w1 = "w\<lparr>w_db := (w_db w)(''plugin_storage'' :=
     filter (\<lambda>r. \<not> (\<exists>p \<in> (\<lambda>ck. (pl, ow, ck)) ` set (map fst ?u). at_key env p r)) (w_db w ''plugin_storage''))\<rparr>"
  have del: "delete_many_entries env pl ow s (map fst ?u) w = (Inr (), ?w1)"
    by (rule spec [OF deletes_entries [OF assms(1,2), of pl "map fst ?u", unfolded deletes_def]])
  have "org_rows_shared ?w1" by (rule shared_filter [OF assms(3)])
  then have w2: "org_rows_shared (?w1\<lparr>w_clock := Suc (w_clock ?w1)\<rparr>)" by (simp add: org_rows_shared_def)
  have "eff_iter (\<lambda>b. core_create_many env plugin_storage_table (map (\<lambda>(p, v). storage_row (e_ctx env) pl ow s p v
        (e_now env (w_clock ?w1))) b)) (batches STORAGE_BATCH_SIZE ?u) (?w1\<lparr>w_clock := Suc (w_clock ?w1)\<rparr>) = (Inr (), w')"
    using assms(2,4) False del by (simp add: storage_put_many_def Let_def eff_bind_def now_def)
  from create_batches_shared [OF assms(1,2) this w2] show ?thesis .
qed

lemma remove_many_shared:
  assumes "\<not> read_only (e_ctx env)" "owner_subject (e_ctx env) ow = Some s" "org_rows_shared w"
    and "storage_remove_many env pl ow es w = (Inr (), w')"
  shows "org_rows_shared w'"
proof -
  have "delete_many_entries env pl ow s es w = (Inr (), w\<lparr>w_db := (w_db w)(''plugin_storage'' :=
      filter (\<lambda>r. \<not> (\<exists>p \<in> (\<lambda>ck. (pl, ow, ck)) ` set es. at_key env p r)) (w_db w ''plugin_storage''))\<rparr>)"
    by (rule spec [OF deletes_entries [OF assms(1,2), of pl es, unfolded deletes_def]])
  with assms(2,4) have "w' = w\<lparr>w_db := (w_db w)(''plugin_storage'' :=
      filter (\<lambda>r. \<not> (\<exists>p \<in> (\<lambda>ck. (pl, ow, ck)) ` set es. at_key env p r)) (w_db w ''plugin_storage''))\<rparr>"
    by (simp add: storage_remove_many_def)
  then show ?thesis using shared_filter [OF assms(3)] by (simp only:)
qed

lemma lifted_reads: "\<exists>r. eff_mapM (\<lambda>a. eff_lift (f a)) as w = (r, w)"
  by (induction as) (auto simp: eff_bind_def eff_lift_def split: prod.splits sum.splits)

lemma list_rows_reads: "\<exists>r. list_rows sd integration w = (r, w)"
proof -
  obtain rows where "storage_list (sd_collate sd) (sd_env sd) (sd_plugin sd) OPERATION_COLLECTION None w = (Inr rows, w)"
    by (simp add: storage_list_def eff_map_def eff_bind_def owned_find_many)
  moreover obtain r where "eff_mapM (\<lambda>a. eff_lift (row_to_operation (sd_codec sd) a)) rows w = (r, w)"
    using lifted_reads by blast
  ultimately show ?thesis by (cases r) (auto simp: list_rows_def eff_bind_def)
qed

lemma fold_put_operations:
  assumes "op \<in> set ops" "\<forall>p \<in> set ops. key p = key op \<longrightarrow> p = op"
  shows "fold (\<lambda>(ck, v) m. m((pl, ow, ck) \<mapsto> v)) (map (\<lambda>p. ((coll, key p), f p)) ops) m (pl, ow, coll, key op) = Some (f op)"
  using assms
proof (induction ops rule: rev_induct)
  case (snoc p ops)
  show ?case
  proof (cases "key p = key op")
    case True
    with snoc.prems show ?thesis by simp
  next
    case False
    with snoc.prems have "op \<in> set ops" by auto
    with snoc False show ?thesis by simp
  qed
qed simp

text \<open>
  An operation put for an integration is the one read for its name, where no other of the same put has its key
  (the keys are hashes) and the user has no entry of that key, which would be read first.
\<close>

theorem operations_read_back:
  assumes "comparator (sd_collate sd)" "oc_reach (e_ctx (sd_env sd)) = Bound" "\<not> read_only (e_ctx (sd_env sd))"
    and "org_rows_shared w" "lawful_codec (sd_codec sd)"
    and "put_operations sd integration ops w = (Inr (), w')" "op \<in> set ops"
    and "\<forall>p \<in> set ops. operation_key integration (so_tool_name p) = operation_key integration (so_tool_name op) \<longrightarrow> p = op"
    and "stored (sd_env sd) w (sd_plugin sd, User, OPERATION_COLLECTION, operation_key integration (so_tool_name op)) = None"
  shows "get_operation sd integration (so_tool_name op) w' = (Inr (Some op), w')"
proof -
  let ?env = "sd_env sd" and ?key = "\<lambda>p. operation_key integration (so_tool_name p)"
  have org: "owner_subject (e_ctx ?env) Org = Some ORG_SUBJECT" by (simp add: owner_subject_def)
  obtain rows es w1 where es: "storage_remove_many ?env (sd_plugin sd) Org es w = (Inr (), w1)"
    and ap: "append_operations sd integration ops w1 = (Inr (), w')"
    using assms(6) list_rows_reads [of sd integration w]
    by (auto simp: put_operations_def remove_operations_def eff_bind_def split: prod.splits sum.splits)
  note ap = ap [unfolded append_operations_def]
  let ?es = "map (\<lambda>op. ((OPERATION_COLLECTION, ?key op), operation_data (sd_codec sd) op)) ops"
  have shared: "org_rows_shared w'"
    by (rule put_many_shared [OF assms(3) org remove_many_shared [OF assms(3) org assms(4) es] ap])
  have vals: "\<forall>e \<in> set ?es. snd e \<noteq> JUndef" by (simp add: operation_data_def)
  have st1: "stored ?env w1 = (\<lambda>q. if q \<in> (\<lambda>ck. (sd_plugin sd, Org, ck)) ` set es then None else stored ?env w q)"
    using storage_remove_many_refines [OF assms(3) org, of "sd_plugin sd" es w] es by simp
  have st2: "stored ?env w' = put_entries (sd_plugin sd) Org ?es (stored ?env w1)"
    using storage_put_many_refines [OF assms(3) org vals, of "sd_plugin sd" w1] ap by simp
  have "stored ?env w' (sd_plugin sd, Org, OPERATION_COLLECTION, ?key op) = Some (operation_data (sd_codec sd) op)"
    unfolding st2 put_entries_def by (rule fold_put_operations [where key = ?key, OF assms(7,8)])
  moreover have "stored ?env w' (sd_plugin sd, User, OPERATION_COLLECTION, ?key op) = None"
  proof -
    have "entry_at (sd_plugin sd) Org es' (sd_plugin sd, User, ck) = None" for es' ck by (simp add: entry_at_def)
    then show ?thesis unfolding st2 put_entries_last using assms(9) by (auto simp: st1)
  qed
  ultimately obtain e where "storage_get (sd_collate sd) ?env (sd_plugin sd) OPERATION_COLLECTION (?key op) w' = (Inr (Some e), w')"
    "pe_data e = operation_data (sd_codec sd) op"
    using storage_get_stored [OF assms(1,2) shared, of "sd_plugin sd" OPERATION_COLLECTION "?key op"] by auto
  then show ?thesis
    using operation_data_read [OF assms(5)] by (simp add: get_operation_def Let_def eff_bind_def eff_lift_def)
qed

text \<open>A stored binding that does not decode throws in every listing, of whatever integration, and so in every
  removal and replacement of operations too.\<close>

lemma undecodable_binding_blocks_listing:
  assumes "storage_list (sd_collate sd) (sd_env sd) (sd_plugin sd) OPERATION_COLLECTION None w = (Inr (rows1 @ e # rows2), w)"
    and "row_to_operation (sd_codec sd) e = Inl x" "list_all (\<lambda>r. \<exists>x. row_to_operation (sd_codec sd) r = Inr x) rows1"
  shows "put_operations sd integration ops w = (Inl x, w)"
proof -
  have "eff_mapM (\<lambda>r. eff_lift (row_to_operation (sd_codec sd) r)) (rows1 @ e # rows2) w = (Inl x, w)"
    using assms(3) by (induction rows1) (auto simp: eff_bind_def eff_lift_def assms(2))
  then show ?thesis by (simp add: put_operations_def remove_operations_def list_rows_def eff_bind_def assms(1))
qed

end
