(* ===== verification/ToolPaths.thy ===== *)
theory ToolPaths
  imports OpenApiRequests Discovery
begin

text \<open>
  The paths an integration's operations are given as tools
  (\<open>packages/plugins/openapi/src/sdk/definitions.ts\<close>): a group and a leaf derived from the
  identifier, the tag and the path template of an operation, and three rounds that tell apart the operations that
  derived the same. The collation of \<open>localeCompare\<close> is a parameter.
\<close>

section \<open>Words and cases\<close>

definition is_upper_char :: "char \<Rightarrow> bool" where
  "is_upper_char c \<longleftrightarrow> (let n = (of_char c :: nat) in 65 \<le> n \<and> n \<le> 90)"

text \<open>\<open>s.replace(/([A-Z]+)([A-Z][a-z0-9]+)/g, "$1 $2")\<close>: a space before the last capital of a run, where a small
  letter or a digit follows it.\<close>

fun split_acronym :: "string \<Rightarrow> string" where
  "split_acronym (a # b # c # cs) =
     (if is_upper_char a \<and> is_upper_char b \<and> is_lower_alnum c
      then a # CHR '' '' # split_acronym (b # c # cs) else a # split_acronym (b # c # cs))"
| "split_acronym cs = cs"

definition split_words :: "string \<Rightarrow> string list" where
  "split_words v = runs is_url_alnum [] (split_acronym (split_camel v))"

definition to_camel_case :: "string \<Rightarrow> string" where
  "to_camel_case v =
     (case map js_lower (split_words v) of
        [] \<Rightarrow> ''tool''
      | first # rest \<Rightarrow> first @ concat (map upper_first rest))"

definition to_pascal_case :: "string \<Rightarrow> string" where
  "to_pascal_case v = upper_first (to_camel_case v)"

section \<open>Segments of a path template\<close>

definition is_decimal :: "char \<Rightarrow> bool" where
  "is_decimal c \<longleftrightarrow> digit_val c \<noteq> None"

text \<open>\<open>/^v\d+(?:[._-]\d+)?$/i\<close>.\<close>

definition is_version_segment :: "string \<Rightarrow> bool" where
  "is_version_segment s \<longleftrightarrow>
     (case s of
        [] \<Rightarrow> False
      | c # cs \<Rightarrow>
          (c = CHR ''v'' \<or> c = CHR ''V'') \<and> takeWhile is_decimal cs \<noteq> [] \<and>
          (case dropWhile is_decimal cs of
             [] \<Rightarrow> True
           | d # ds \<Rightarrow> d \<in> set ''._-'' \<and> all_digits ds))"

definition is_ignored_segment :: "string \<Rightarrow> bool" where
  "is_ignored_segment s \<longleftrightarrow> s = ''api''"

definition path_segments_from_template :: "string \<Rightarrow> string list" where
  "path_segments_from_template t = filter (\<lambda>s. s \<noteq> []) (map js_trim (js_split (CHR ''/'') t))"

definition is_path_parameter_segment :: "string \<Rightarrow> bool" where
  "is_path_parameter_segment s \<longleftrightarrow> js_starts_with s ''{'' \<and> js_ends_with s ''}''"

definition normalize_group_segment :: "string option \<Rightarrow> string option" where
  "normalize_group_segment v =
     (case v of None \<Rightarrow> None | Some s \<Rightarrow> if js_trim s = [] then None else Some (to_camel_case (js_trim s)))"

definition derive_version_segment :: "string \<Rightarrow> string option" where
  "derive_version_segment t = List.find is_version_segment (map js_lower (path_segments_from_template t))"

fun group_of_segments :: "string list \<Rightarrow> string" where
  "group_of_segments [] = ''root''"
| "group_of_segments (s # ss) =
     (let lower = js_lower s in
      if is_version_segment lower \<or> is_ignored_segment lower \<or> is_path_parameter_segment s then group_of_segments ss
      else or_else (normalize_group_segment (Some s)) ''root'')"

definition derive_path_group :: "string \<Rightarrow> string" where
  "derive_path_group t = group_of_segments (path_segments_from_template t)"

definition split_operation_id_segments :: "string \<Rightarrow> string list" where
  "split_operation_id_segments v =
     filter (\<lambda>s. s \<noteq> []) (map js_trim (runs (\<lambda>c. c \<noteq> CHR ''/'' \<and> c \<noteq> CHR ''.'') [] v))"

definition derive_leaf_seed :: "string \<Rightarrow> string \<Rightarrow> string" where
  "derive_leaf_seed operation_id grp =
     (case split_operation_id_segments operation_id of
        first # r # rest \<Rightarrow>
          if or_else (normalize_group_segment (Some first)) first = grp then js_join '' '' (r # rest) else operation_id
      | _ \<Rightarrow> operation_id)"

definition fallback_leaf_seed :: "string \<Rightarrow> string \<Rightarrow> string \<Rightarrow> string" where
  "fallback_leaf_seed m t grp =
     (let relevant =
            filter (\<lambda>s. s \<noteq> grp)
              (map (\<lambda>s. or_else (normalize_group_segment (Some s)) s)
                (filter (\<lambda>s. \<not> is_version_segment (js_lower s) \<and> \<not> is_ignored_segment (js_lower s)
                    \<and> \<not> is_path_parameter_segment s) (path_segments_from_template t)));
          suffix = concat (map to_pascal_case relevant) in
      m @ (if suffix = [] then ''Operation'' else suffix))"

definition derive_leaf :: "string \<Rightarrow> string \<Rightarrow> string \<Rightarrow> string \<Rightarrow> string" where
  "derive_leaf operation_id m t grp =
     (let preferred = to_camel_case (derive_leaf_seed operation_id grp) in
      if preferred \<noteq> [] \<and> preferred \<noteq> grp then preferred else to_camel_case (fallback_leaf_seed m t grp))"

section \<open>Planning\<close>

record operation_path_input =
  pi_operation_id :: string
  pi_explicit_tool_path :: "string option"
  pi_method :: string
  pi_path_template :: string
  pi_tag0 :: "string option"

record raw_tool_path =
  tp_tool_path :: string
  tp_group :: string
  tp_leaf :: string
  tp_version :: "string option"
  tp_method :: string
  tp_hash :: string
  tp_index :: nat

definition js_hash_step :: "32 word \<Rightarrow> char \<Rightarrow> 32 word" where
  "js_hash_step h c = (h * 32 - h) + of_nat (of_char c)"

text \<open>The hash of the printed object with its keys sorted.\<close>

definition stable_hash :: "string \<Rightarrow> string \<Rightarrow> string \<Rightarrow> string" where
  "stable_hash m t operation_id =
     (let printed = json_text (JObj [(''method'', JStr m), (''operationId'', JStr operation_id), (''path'', JStr t)]) in
      pad_left 8 (base36 (nat \<bar>sint (foldl js_hash_step 0 printed)\<bar>)))"

definition raw_path_of :: "nat \<Rightarrow> operation_path_input \<Rightarrow> raw_tool_path" where
  "raw_path_of i op =
     (let hash = stable_hash (pi_method op) (pi_path_template op) (pi_operation_id op);
          version = derive_version_segment (pi_path_template op);
          make = (\<lambda>path grp leaf. \<lparr>tp_tool_path = path, tp_group = grp, tp_leaf = leaf, tp_version = version,
                    tp_method = pi_method op, tp_hash = hash, tp_index = i\<rparr>) in
      case (if pi_explicit_tool_path op = Some [] then None else pi_explicit_tool_path op) of
        Some path \<Rightarrow>
          (let parts = filter (\<lambda>s. s \<noteq> []) (js_split (CHR ''.'') path);
               grp = (case parts of [] \<Rightarrow> ''root'' | g # _ \<Rightarrow> g);
               leaf = js_join ''.'' (tl parts) in
           make path grp (if leaf = [] then grp else leaf))
      | None \<Rightarrow>
          (let grp = or_else (normalize_group_segment (pi_tag0 op)) (derive_path_group (pi_path_template op));
               leaf = derive_leaf (pi_operation_id op) (pi_method op) (pi_path_template op) grp in
           make (grp @ ''.'' @ leaf) grp leaf))"

text \<open>A round: where a path is shared, everyone that has it takes the path of the round.\<close>

definition apply_factory :: "(raw_tool_path \<Rightarrow> string) \<Rightarrow> raw_tool_path list \<Rightarrow> raw_tool_path list" where
  "apply_factory f ds =
     (let shared = (\<lambda>p. 2 \<le> length (filter (\<lambda>d. tp_tool_path d = p) ds)) in
      map (\<lambda>d. if shared (tp_tool_path d) then d\<lparr>tp_tool_path := f d\<rparr> else d) ds)"

definition versioned_group :: "raw_tool_path \<Rightarrow> string" where
  "versioned_group d = (case tp_version d of Some v \<Rightarrow> tp_group d @ ''.'' @ v | None \<Rightarrow> tp_group d)"

definition with_version :: "raw_tool_path \<Rightarrow> string" where
  "with_version d = (case tp_version d of Some v \<Rightarrow> tp_group d @ ''.'' @ v @ ''.'' @ tp_leaf d | None \<Rightarrow> tp_tool_path d)"

definition with_method :: "raw_tool_path \<Rightarrow> string" where
  "with_method d = versioned_group d @ ''.'' @ tp_leaf d @ to_pascal_case (tp_method d)"

definition with_hash :: "raw_tool_path \<Rightarrow> string" where
  "with_hash d = versioned_group d @ ''.'' @ tp_leaf d @ to_pascal_case (tp_method d) @ take 8 (tp_hash d)"

definition resolve_collisions :: "raw_tool_path list \<Rightarrow> raw_tool_path list" where
  "resolve_collisions ds = apply_factory with_hash (apply_factory with_method (apply_factory with_version ds))"

definition raw_paths :: "operation_path_input list \<Rightarrow> raw_tool_path list" where
  "raw_paths inputs = map (\<lambda>(i, op). raw_path_of i op) (enumerate 0 inputs)"

definition plan_tool_paths :: "collation \<Rightarrow> operation_path_input list \<Rightarrow> raw_tool_path list" where
  "plan_tool_paths collate inputs =
     js_sort (\<lambda>a b. collate (tp_tool_path a) (tp_tool_path b)) (resolve_collisions (raw_paths inputs))"

section \<open>Extracted operations\<close>

record extracted_operation =
  xo_operation_id :: string
  xo_tool_path :: "string option"
  xo_method :: string
  xo_servers :: "server_info list"
  xo_path_template :: string
  xo_summary :: "string option"
  xo_description :: "string option"
  xo_tags :: "string list"
  xo_parameters :: "operation_parameter list"
  xo_request_body :: "operation_request_body option"
  xo_response_body :: "operation_response_body option"
  xo_input_schema :: "jsval option"
  xo_output_schema :: "jsval option"
  xo_deprecated :: bool
  xo_required_scopes :: "string list list option"

record tool_definition =
  td_tool_path :: string
  td_group :: string
  td_leaf :: string
  td_index :: nat
  td_operation :: extracted_operation

definition path_input_of :: "extracted_operation \<Rightarrow> operation_path_input" where
  "path_input_of op =
     \<lparr>pi_operation_id = xo_operation_id op, pi_explicit_tool_path = xo_tool_path op, pi_method = xo_method op,
      pi_path_template = xo_path_template op, pi_tag0 = (case xo_tags op of [] \<Rightarrow> None | t # _ \<Rightarrow> Some t)\<rparr>"

definition compile_tool_definitions :: "collation \<Rightarrow> extracted_operation list \<Rightarrow> tool_definition list" where
  "compile_tool_definitions collate operations =
     map (\<lambda>plan. \<lparr>td_tool_path = tp_tool_path plan, td_group = tp_group plan, td_leaf = tp_leaf plan,
                    td_index = tp_index plan, td_operation = operations ! tp_index plan\<rparr>)
       (plan_tool_paths collate (map path_input_of operations))"

section \<open>What planning promises\<close>

lemma apply_factory_keeps:
  assumes "\<And>d p. g (d\<lparr>tp_tool_path := p\<rparr>) = g d"
  shows "map g (apply_factory f ds) = map g ds"
  using assms by (simp add: apply_factory_def Let_def)

lemma resolve_collisions_keeps:
  "map tp_index (resolve_collisions ds) = map tp_index ds" "map tp_hash (resolve_collisions ds) = map tp_hash ds"
  "map tp_group (resolve_collisions ds) = map tp_group ds" "map tp_leaf (resolve_collisions ds) = map tp_leaf ds"
  by (simp_all add: resolve_collisions_def apply_factory_keeps)

lemma raw_path_index: "tp_index (raw_path_of i op) = i"
  by (simp add: raw_path_of_def Let_def split: option.split)

lemma raw_paths_index: "map tp_index (raw_paths inputs) = [0..<length inputs]"
proof -
  have "map tp_index (raw_paths inputs) = map fst (enumerate 0 inputs)"
    by (simp add: raw_paths_def split_def raw_path_index comp_def)
  then show ?thesis by simp
qed

lemma comparator_paths: "comparator collate \<Longrightarrow> comparator (\<lambda>a b. collate (tp_tool_path a) (tp_tool_path b))"
  unfolding comparator_def by auto

lemma plan_mset:
  "comparator collate \<Longrightarrow> mset (plan_tool_paths collate inputs) = mset (resolve_collisions (raw_paths inputs))"
  unfolding plan_tool_paths_def by (rule comparator.mset_js_sort [OF comparator_paths])

text \<open>Every operation is given one path.\<close>

theorem plan_covers_operations:
  assumes "comparator collate"
  shows "mset (map tp_index (plan_tool_paths collate inputs)) = mset [0..<length inputs]"
proof -
  have "mset (map tp_index (plan_tool_paths collate inputs)) = mset (map tp_index (resolve_collisions (raw_paths inputs)))"
    by (simp add: plan_mset [OF assms])
  then show ?thesis by (simp add: resolve_collisions_keeps raw_paths_index)
qed

lemma base36_length: "n < 36 ^ k \<Longrightarrow> 0 < k \<Longrightarrow> length (base36 n) \<le> k"
proof (induction n arbitrary: k rule: base36.induct)
  case (1 n)
  show ?case
  proof (cases "n < 36")
    case True
    then show ?thesis using 1 by (subst base36.simps) simp
  next
    case False
    then obtain j where k: "k = Suc j" "0 < j"
      using 1 by (cases k; cases "k - 1") auto
    have "n div 36 < 36 ^ j" using 1 k by (simp add: less_mult_imp_div_less mult.commute)
    with 1(1) [OF False, of j] k False show ?thesis by (subst base36.simps) simp
  qed
qed

lemma hash_range: "nat \<bar>sint (h :: 32 word)\<bar> < 36 ^ 8"
proof -
  have "- (2 ^ 31) \<le> sint h" "sint h < 2 ^ 31"
    using sint_ge [of h] sint_lt [of h] by simp_all
  then show ?thesis by simp
qed

lemma stable_hash_length: "length (stable_hash m t operation_id) = 8"
proof -
  have "length (base36 (nat \<bar>sint (h :: 32 word)\<bar>)) \<le> 8" for h by (rule base36_length [OF hash_range]) simp
  then show ?thesis by (simp add: stable_hash_def pad_left_def Let_def)
qed

definition input_hash :: "operation_path_input \<Rightarrow> string" where
  "input_hash op = stable_hash (pi_method op) (pi_path_template op) (pi_operation_id op)"

lemma raw_path_hash: "tp_hash (raw_path_of i op) = input_hash op"
  by (simp add: raw_path_of_def input_hash_def Let_def split: option.split)

lemma raw_paths_hash: "map tp_hash (raw_paths inputs) = map input_hash inputs"
proof -
  have "map tp_hash (raw_paths inputs) = map (\<lambda>(i, op). input_hash op) (enumerate 0 inputs)"
    by (simp add: raw_paths_def split_def raw_path_hash comp_def)
  also have "\<dots> = map input_hash (map snd (enumerate 0 inputs))" by (simp add: split_def del: map_snd_enumerate)
  finally show ?thesis by simp
qed

lemma distinct_mapI:
  "distinct (map h ds) \<Longrightarrow> (\<And>a b. a \<in> set ds \<Longrightarrow> b \<in> set ds \<Longrightarrow> f a = f b \<Longrightarrow> h a = h b) \<Longrightarrow> distinct (map f ds)"
  by (induction ds) (auto simp: image_iff)

definition is_shared :: "raw_tool_path list \<Rightarrow> string \<Rightarrow> bool" where
  "is_shared ds p \<longleftrightarrow> 2 \<le> length (filter (\<lambda>d. tp_tool_path d = p) ds)"

lemma unshared_unique:
  assumes "\<not> is_shared ds (tp_tool_path a)" "a \<in> set ds" "b \<in> set ds" "tp_tool_path b = tp_tool_path a"
  shows "b = a"
proof (rule ccontr)
  assume "b \<noteq> a"
  let ?F = "filter (\<lambda>d. tp_tool_path d = tp_tool_path a) ds"
  have "{a, b} \<subseteq> set ?F" using assms by auto
  then have "card {a, b} \<le> length ?F" by (meson List.finite_set card_length card_mono le_trans)
  with \<open>b \<noteq> a\<close> assms(1) show False by (simp add: is_shared_def)
qed

lemma with_hash_suffix:
  assumes "length (tp_hash a) = 8" "length (tp_hash b) = 8" "with_hash a = with_hash b"
  shows "tp_hash a = tp_hash b"
proof -
  have tail: "drop (length (with_hash d) - 8) (with_hash d) = tp_hash d" if "length (tp_hash d) = 8" for d
    using that by (simp add: with_hash_def)
  from tail [OF assms(1)] tail [OF assms(2)] assms(3) show ?thesis by simp
qed

text \<open>
  Planned paths are distinct where the operations' hashes are and no path of the first two rounds ends with the
  hash of an operation.
\<close>

definition second_round :: "operation_path_input list \<Rightarrow> raw_tool_path list" where
  "second_round inputs = apply_factory with_method (apply_factory with_version (raw_paths inputs))"

lemma second_round_hash: "map tp_hash (second_round inputs) = map input_hash inputs"
  by (simp add: second_round_def apply_factory_keeps raw_paths_hash)

lemma third_round_distinct:
  assumes hashes: "distinct (map tp_hash ds)" and eight: "\<forall>d\<in>set ds. length (tp_hash d) = 8"
    and plain: "\<forall>d\<in>set ds. \<forall>e\<in>set ds. \<not> js_ends_with (tp_tool_path d) (tp_hash e)"
  shows "distinct (map tp_tool_path (apply_factory with_hash ds))"
proof -
  let ?g = "\<lambda>d. if is_shared ds (tp_tool_path d) then with_hash d else tp_tool_path d"
  have shape: "map tp_tool_path (apply_factory with_hash ds) = map ?g ds"
    by (simp add: apply_factory_def is_shared_def Let_def)
  have ends: "js_ends_with (with_hash d) (tp_hash d)" if "d \<in> set ds" for d
    using eight that unfolding js_ends_with_iff by (intro exI [of _ "versioned_group d @ ''.'' @ tp_leaf d @ to_pascal_case (tp_method d)"]) (simp add: with_hash_def)
  have "distinct (map ?g ds)"
  proof (rule distinct_mapI [OF hashes])
    fix a b assume ab: "a \<in> set ds" "b \<in> set ds" "?g a = ?g b"
    show "tp_hash a = tp_hash b"
    proof (cases "is_shared ds (tp_tool_path a)"; cases "is_shared ds (tp_tool_path b)")
      assume "is_shared ds (tp_tool_path a)" "is_shared ds (tp_tool_path b)"
      with ab eight show ?thesis by (auto intro: with_hash_suffix)
    next
      assume "is_shared ds (tp_tool_path a)" "\<not> is_shared ds (tp_tool_path b)"
      with ab plain ends [of a] show ?thesis by auto
    next
      assume "\<not> is_shared ds (tp_tool_path a)" "is_shared ds (tp_tool_path b)"
      with ab plain ends [of b] show ?thesis by metis
    next
      assume u: "\<not> is_shared ds (tp_tool_path a)" "\<not> is_shared ds (tp_tool_path b)"
      with ab(3) have "tp_tool_path b = tp_tool_path a" by simp
      from unshared_unique [OF u(1) ab(1,2) this] show ?thesis by simp
    qed
  qed
  with shape show ?thesis by simp
qed

text \<open>Two operations of an integration are never given the same tool path: where the hashes of the operations
  differ, and no path of the rounds before the last happens to end with such a hash, the planned paths are distinct
  whatever the operations' identifiers, tags, templates and \<open>x-executor-toolPath\<close> overrides.\<close>

theorem planned_paths_distinct:
  assumes "comparator collate" "distinct (map input_hash inputs)"
    "\<forall>d\<in>set (second_round inputs). \<forall>op\<in>set inputs. \<not> js_ends_with (tp_tool_path d) (input_hash op)"
  shows "distinct (map tp_tool_path (plan_tool_paths collate inputs))"
proof -
  have hs: "tp_hash ` set (second_round inputs) = input_hash ` set inputs"
    using arg_cong [OF second_round_hash [of inputs], of set] by simp
  have "distinct (map tp_tool_path (resolve_collisions (raw_paths inputs)))"
    unfolding resolve_collisions_def second_round_def [symmetric]
  proof (rule third_round_distinct)
    show "distinct (map tp_hash (second_round inputs))" using assms(2) by (simp only: second_round_hash)
    show "\<forall>d\<in>set (second_round inputs). length (tp_hash d) = 8"
    proof
      fix d assume "d \<in> set (second_round inputs)"
      then have "tp_hash d \<in> input_hash ` set inputs" using hs by blast
      then show "length (tp_hash d) = 8" by (auto simp: input_hash_def stable_hash_length)
    qed
    show "\<forall>d\<in>set (second_round inputs). \<forall>e\<in>set (second_round inputs). \<not> js_ends_with (tp_tool_path d) (tp_hash e)"
      using assms(3) hs by (metis image_iff)
  qed
  moreover have "mset (map tp_tool_path (plan_tool_paths collate inputs)) = mset (map tp_tool_path (resolve_collisions (raw_paths inputs)))"
    by (simp add: plan_mset [OF assms(1)])
  ultimately show ?thesis by (metis mset_eq_imp_distinct_iff)
qed

section \<open>Examples\<close>

text \<open>The hash over the integers, to evaluate it.\<close>

lemma word_of_wrapped: "(of_int (n mod 4294967296) :: 32 word) = of_int n"
  by (simp add: word_of_int_eq_iff take_bit_eq_mod)

lemma hash_over_ints:
  "foldl js_hash_step (of_int n) s = of_int (foldl (\<lambda>h c. (31 * h + of_char c) mod 4294967296) n s)"
proof (induction s arbitrary: n)
  case (Cons c s)
  have "js_hash_step (of_int n) c = of_int (31 * n + of_char c)"
    by (simp add: js_hash_step_def algebra_simps of_char_def)
  then have "js_hash_step (of_int n) c = of_int ((31 * n + of_char c) mod 4294967296)"
    by (simp only: word_of_wrapped)
  with Cons [of "(31 * n + of_char c) mod 4294967296"] show ?case by (simp only: foldl.simps)
qed simp

function base36_int :: "int \<Rightarrow> string" where
  "base36_int n = (if n < 36 then [base36_digit (nat n)] else base36_int (n div 36) @ [base36_digit (nat (n mod 36))])"
  by auto
termination by (relation "measure nat") auto

declare base36_int.simps [simp del]

lemma base36_int: "base36_int (int n) = base36 n"
proof (induction n rule: base36.induct)
  case (1 n)
  show ?case
  proof (cases "n < 36")
    case False
    have "int n div 36 = int (n div 36)" "nat (int n mod 36) = n mod 36" by (simp_all add: zdiv_int nat_mod_as_int)
    with False 1 show ?thesis by (subst base36_int.simps, subst base36.simps) simp
  qed (simp add: base36_int.simps base36.simps)
qed

lemma stable_hash_code [code]:
  "stable_hash m t operation_id =
     pad_left 8 (base36_int \<bar>(foldl (\<lambda>h c. (31 * h + of_char c) mod 4294967296) 0
       (json_text (JObj [(''method'', JStr m), (''operationId'', JStr operation_id), (''path'', JStr t)])) + 2147483648)
       mod 4294967296 - 2147483648\<bar>)"
proof -
  have wrap: "signed_take_bit 31 (n :: int) = (n + 2147483648) mod 4294967296 - 2147483648" for n
    by (simp add: signed_take_bit_eq_take_bit_shift take_bit_eq_mod)
  show ?thesis
    using hash_over_ints [of 0] base36_int [of "nat \<bar>signed_take_bit 31 n\<bar>" for n]
    by (simp add: stable_hash_def sint_sbintrunc' signed_of_int wrap)
qed

definition path_input :: "string \<Rightarrow> string \<Rightarrow> string \<Rightarrow> string option \<Rightarrow> operation_path_input" where
  "path_input oid m t tag =
     \<lparr>pi_operation_id = oid, pi_explicit_tool_path = None, pi_method = m, pi_path_template = t, pi_tag0 = tag\<rparr>"

definition zone_inputs :: "operation_path_input list" where
  "zone_inputs =
     [path_input ''zones_list'' ''get'' ''/api/v1/zones'' (Some ''Zones''),
      path_input ''zones_list'' ''get'' ''/zones'' (Some ''Zones''),
      path_input ''DNSRecord/get'' ''get'' ''/zones/{id}/dns'' None,
      path_input ''DNSRecord/get'' ''post'' ''/zones/{id}/dns'' None,
      path_input ''DNSRecord/get'' ''post'' ''/zones/{id}/DNS'' None]"

lemma zone_hashes:
  "map input_hash zone_inputs = [''00628lib'', ''00j8e86a'', ''007t46a7'', ''00nhv86b'', ''00mzopvn'']"
  by code_simp

lemma zone_second_round:
  "map tp_tool_path (second_round zone_inputs) =
     [''zones.v1.zonesList'', ''zones.zonesList'', ''zones.dnsRecordGetGet'', ''zones.dnsRecordGetPost'',
      ''zones.dnsRecordGetPost'']"
  by code_simp

lemma zone_paths:
  "map tp_tool_path (plan_tool_paths cmp_str zone_inputs) =
     [''zones.dnsRecordGetGet'', ''zones.dnsRecordGetPost00mzopvn'', ''zones.dnsRecordGetPost00nhv86b'',
      ''zones.v1.zonesList'', ''zones.zonesList'']"
  by code_simp

theorem planned_paths_distinct_witness: "distinct (map tp_tool_path (plan_tool_paths cmp_str zone_inputs))"
proof (rule planned_paths_distinct [OF str_order.comparator_axioms])
  show "distinct (map input_hash zone_inputs)" unfolding zone_hashes by code_simp
  have "\<forall>p\<in>set (map tp_tool_path (second_round zone_inputs)). \<forall>h\<in>set (map input_hash zone_inputs). \<not> js_ends_with p h"
    unfolding zone_second_round zone_hashes by code_simp
  then show "\<forall>d\<in>set (second_round zone_inputs). \<forall>op\<in>set zone_inputs. \<not> js_ends_with (tp_tool_path d) (input_hash op)"
    by (simp only: set_map ball_simps)
qed

end
