(* ===== verification/Spec2Isabelle.thy ===== *)
theory Spec2Isabelle
  imports ExecuteLaws PluginStorage OAuthLaws Admin Challenges ItemOwners HealthFields OutboundGuard McpSessions OpenApiResponses OpenApiStore ToolPaths
begin

text \<open>
  A verification development for the executor (\<open>packages/core\<close>): the storage layer and the owner
  policy every row is guarded by, the executor built on it, the OAuth service, the engine that runs
  sandboxed code over it, and what plugins and sandboxes are given; and, around it, the guard of outbound
  requests, the hosts that serve sessions of the engine, and how the OpenAPI plugin calls an operation. Paths below are under
  \<open>packages/core\<close>: \<open>sdk\<close> is \<open>sdk/src\<close>, \<open>execution\<close> is \<open>execution/src\<close>, \<open>fumadb\<close> is \<open>fumadb/src\<close>;
  a path that begins with \<open>packages\<close> is from the root of the repository.

  \<^bold>\<open>How the program is put together.\<close> \<open>createExecutor\<close> (\<open>sdk/executor.ts\<close>) is given a tenant, an optional
  subject, plugins, credential providers and a database. Its storage client wraps a query engine with
  policies, so that each operation is checked against the context (tenant, subject, reach, writes)
  the executor was made for. Integrations are what plugins can connect to, connections hold the
  credentials for them, and each connection has a catalogue of stored tools its plugin listed.
  Executing a tool address decides the policy, asks for an approval, resolves the credential and
  calls the plugin. The engine (\<open>execution/engine.ts\<close>) runs code whose tool calls go through
  \<open>execution/tool-invoker.ts\<close> into the executor; a call that needs an approval pauses the execution
  until it is resumed.

  \<^bold>\<open>How the model is laid out.\<close> Definitions keep the names of the code in snake case. A JavaScript value is
  a \<open>jsval\<close>, a row a function from column names to values, the database a function from table names
  to row lists in insertion order. A failure is a value of \<open>failure\<close>, one constructor per tagged error of
  the code; a thrown value that no typed handler catches, a defect, is the failure of a \<open>TypeError\<close>. An operation is an
  effect, a function from a \<open>world\<close> to a failure or a result with the world left behind; the world holds
  the database, the clock and the source of identifiers, whether a transaction is open, the hooks
  that wait for its commit, the events delivered, and an outside state of any type for what plugins
  and providers keep. Numbers are integers, times are milliseconds, texts are sequences of 8-bit
  characters.

  \<^item> \<open>ExecPrelude\<close>, \<open>JsValue\<close>: JavaScript texts, stable sorting by a comparator (the locale
    \<open>comparator\<close> is the contract of a sort's comparator, with what a sort by one guarantees), values.
  \<^item> \<open>FumaQuery\<close> (\<open>fumadb/query/condition-builder.ts\<close>, \<open>fumadb/adapters/memory\<close>): conditions and the
    in-memory adapter. \<open>FumaOrm\<close> (\<open>fumadb/query/orm\<close>): the policy layer. Its locale \<open>guarded_table\<close> says what
    the policies of a table promise and gives the isolation of reads and writes from it.
  \<^item> \<open>OwnerPolicy\<close> (\<open>sdk/owner-policy.ts\<close>, \<open>sdk/core-schema.ts\<close>): the policies of owned, tenant and unscoped tables,
    each an interpretation of \<open>guarded_table\<close>. \<open>Effects\<close> (\<open>sdk/fuma-runtime.ts\<close>): effects, transactions,
    the storage calls, and \<open>confined\<close>, the relation between two runs that differ only in what a context may not
    see; every operation of the executor is proved confined from the rules collected in \<open>confined_intros\<close>.
    \<open>StoreLaws\<close>: what the calls compute exactly (locales \<open>readable_table\<close> and \<open>open_table\<close>).
  \<^item> \<open>ToolPolicies\<close> (\<open>sdk/policies.ts\<close>), \<open>Addresses\<close>, \<open>Rows\<close>, \<open>ExecEnv\<close> (the configuration and the plugin
    interfaces), \<open>Credentials\<close>, \<open>Integrations\<close>, \<open>SubjectRegistry\<close> (\<open>sdk/subject-registry.ts\<close>), \<open>Connections\<close>, \<open>Health\<close>,
    \<open>SchemaRefs\<close> (\<open>sdk/schema-refs.ts\<close>), \<open>Catalog\<close>, \<open>PolicyService\<close>, \<open>Execute\<close>: the parts of \<open>sdk/executor.ts\<close> in its order.
    \<open>Executor\<close> is the surface: one type of calls and \<open>run_api\<close>, which dispatches them; sessions and
    schedules of calls of several executors. \<open>ServiceLaws\<close> and \<open>ExecuteLaws\<close> hold what these promise.
    \<open>SmallExecutor\<close> is a concrete configuration for instances.
  \<^item> \<open>OAuthHelpers\<close> (\<open>sdk/oauth-helpers.ts\<close>, \<open>sdk/oauth-gc.ts\<close>, the helpers of \<open>sdk/oauth-service.ts\<close>),
    \<open>OAuthRequests\<close> (\<open>sdk/oauth-helpers.ts\<close>, \<open>sdk/oauth.ts\<close>), \<open>OAuthDiscovery\<close> (\<open>sdk/oauth-discovery.ts\<close>), \<open>OAuthService\<close>
    (\<open>sdk/oauth-service.ts\<close>), \<open>OAuthLaws\<close>: endpoints and issuers, requests, metadata discovery and dynamic
    registration, the service, and what it guarantees from the start of a flow to the mint.
  \<^item> \<open>Engine\<close> (\<open>execution/engine.ts\<close>): formatting, and pause and resume as the step relation \<open>engine_step\<close> over the
    maps the engine keeps, with its reachable states. \<open>Discovery\<close> and \<open>ToolInvoker\<close> (\<open>execution/tool-invoker.ts\<close>):
    search, paging, description, and the dispatch with the failures a sandbox sees.
  \<^item> \<open>Blobs\<close> (\<open>sdk/blob.ts\<close>, \<open>sdk/pending-approval.ts\<close>): the locale \<open>blob_contract\<close> is what a store promises its callers,
    a map from namespaces and keys; both stores are interpretations of it, and the approvals are
    proved over it. \<open>PluginStorage\<close> (\<open>sdk/plugin-storage.ts\<close> and its facade): the storage of a plugin.
    \<open>ItemOwners\<close> (\<open>sdk/provider-item-owner.ts\<close>): whose credential a provider item is.
  \<^item> \<open>Admin\<close> (the \<open>admin\<close> operations of \<open>sdk/executor.ts\<close>): the pages of principals and their connections a
    platform executor reads across a tenant.
  \<^item> \<open>Digits\<close>: numbers as texts. \<open>HealthFields\<close> (\<open>sdk/health-check.ts\<close>): candidates ranked for a health check, the fields a response
    schema offers, and samples projected to typed values.
  \<^item> \<open>Challenges\<close> (\<open>sdk/insufficient-scope.ts\<close>): the grammar of challenge headers and the
    detection of a refused scope. \<open>HttpAuth\<close> (\<open>sdk/http-auth/auth-method.ts\<close>, \<open>authoring.ts\<close>, \<open>legacy.ts\<close>,
    \<open>migrate.ts\<close>): templates of API keys, how they are rendered on a
    request, their legacy dialects, slugs and migration.
  \<^item> \<open>OutboundGuard\<close> (\<open>sdk/hosted-http-client.ts\<close>): what addresses a hosted executor may call, and the guarded
    fetch with its redirects.
  \<^item> \<open>BrowserApproval\<close> and \<open>McpSessions\<close> (\<open>packages/hosts/mcp/src\<close>): approvals decided in a browser, as a step relation
    over the waiting calls and recorded answers, and the in-memory store of sessions: dispatch,
    the callbacks of transports, disposal, and the ownership of a session by a principal and resource. Who opened a session is read off
    the events of a run (\<open>opener\<close>), apart from the maps the store keeps.
  \<^item> \<open>UrlText\<close>, \<open>OpenApiRequests\<close>, \<open>OpenApiResponses\<close>, \<open>OpenApiStore\<close>, \<open>ToolPaths\<close> (\<open>packages/plugins/openapi/src/sdk\<close>: \<open>types.ts\<close>,
    \<open>invoke.ts\<close>, \<open>openapi-utils.ts\<close>, \<open>store.ts\<close>, \<open>definitions.ts\<close>): texts on the wire, the request an operation's arguments
    are written into, the response read into a result, the stored operations, and the paths they are given as tools.

  \<^bold>\<open>What is shown.\<close> Isolation: a session depends only on the rows its executor may see
  (\<open>session_isolated\<close>), no schedule of others touches a user's rows (\<open>schedule_spares_private_rows\<close>), a
  platform view writes nothing (\<open>platform_session_read_only\<close>). Decisions: which rule decides a tool, on
  the server, on the client, and under a provider; a blocked or unapproved tool is not run. Catalogues: kept
  when incomplete, replaced exactly when complete, found stale whenever they are; the list of tools is exactly what the filter and
  the policies admit (\<open>tools_list_exact\<close> in \<open>ServiceLaws\<close>). OAuth: a session is redeemed once, never after
  its expiry, only with the verifier and the app it was started with; token requests stay on the configured host or
  a sibling; registration spares what it could reuse. Engine: executions are in one stage, an approval
  authorises one continuation, a settled outcome is what every repetition replays until
  64 others have been settled. Refinement: the
  blob store and the plugin storage implement maps. Requests: a guarded fetch reaches permitted addresses only, also
  over redirects, and drops three credential headers when the origin changes. Sessions: a request that is not of the account, the organization and the
  resource that opened a session does not touch it; an approval is decided by the owner only, and a decision
  wakes its waiters where no wait was cut short beside another. Texts: challenge headers and authored templates read back as they were written; admin pages partition
  the rows and do not depend on credentials. Operations: the path is the template with its holes filled by encoded arguments
  (\<open>resolved_path_spec\<close>), credentials win over arguments (\<open>credentials_win\<close>), a stream is a prefix within the cap
  (\<open>stream_cap\<close>, \<open>cut_stream_is_prefix\<close>), stored operations read back (\<open>operations_read_back\<close>), and no two
  operations get the same tool path unless their hashes agree (\<open>planned_paths_distinct\<close>). Lemmas that state a defect of the code stand beside the
  operation they are about; their text says so.

  \<^bold>\<open>Bounds and fuel.\<close> No operation runs on fuel. Loops are structural, or end by a measure: the name search by
  the distance to suffix 1000, the slug search by the taken slugs above the current suffix, the closure of schema references by the
  definitions not yet collected, the parser of challenges by the characters not yet read. A loop the code bounds by a
  counter (redirects) recurs on it. Instances are
  proved at small concrete worlds.

  \<^bold>\<open>Parameters.\<close> Code that is not in the repository is an argument: plugins, credential providers, policy providers,
  elicitation handlers (fields of the environment), the HTTP client, URL parsing and query strings,
  JSON parsing, the base64 of identity tokens, the token endpoints behind \<open>oauth4webapi\<close>, the request type of the HTTP library and the
  codec of stored bindings, random values, the fractional index of
  positions, the collation of \<open>localeCompare\<close>, the TypeScript preview. Where a theorem needs something of
  them (\<open>sound_env\<close>: what they do is confined too; \<open>quiet_env\<close>: the provider and the client leave
  the table of OAuth clients alone, whatever else they write; \<open>lawful_requests\<close>, \<open>lawful_codec\<close>: a header that is set is
  read back, a binding that is encoded decodes) it is a hypothesis, and its instance discharges it.

  \<^bold>\<open>Not modelled.\<close> Telemetry (spans, logs, counters); timeouts of requests; sharing one refresh between concurrent callers; joins
  of the query builder; construction of the tables from the plugin list, and \<open>close\<close>; the config-blob
  migration and hashing of \<open>blob.ts\<close>; the tools an MCP server registers for an engine (\<open>tool-server.ts\<close>) and artifacts; interleavings inside one call (calls are atomic
  steps of a schedule; the code can interleave at the awaits inside a call). Outside these packages: SQL adapters and
  migrations, the MCP and GraphQL plugins and the rest of the OpenAPI plugin (parsing, extracting, splitting and previewing a specification, deriving
  its authentication, configuring an integration), the rest of the MCP and HTTP hosts, sandbox runtimes, the command line, the user interface and
  the applications, which are transport, rendering or composition around what is modelled.
\<close>

end
